(* ===== verification/Prelude.thy ===== *)
theory Prelude
  imports Main "HOL-Library.AList" "HOL-Library.Sublist"
begin

text \<open>
  Shared vocabulary of the development: the names of the program's basic types, hash maps as
  association lists, Rust's string helpers on \<^typ>\<open>string\<close>, the idiom
  ``push what was not seen before'', and the bucket indexes (a hash map from a key to a vector)
  with the contract their clients rely on, stated as a locale and interpreted on the model.
\<close>

named_theorems map_laws "lookup laws of the association lists that model hash maps"
named_theorems inv_intros "preservation of the invariants of the components"

subsection \<open>Basic types\<close>

text \<open>
  A UUID is represented by its canonical text form, the one \<open>to_string\<close> prints; instants are
  nanoseconds of the monotonic clock.
\<close>

type_synonym uuid = string
type_synonym instant = nat

subsection \<open>Hash maps as association lists\<close>

text \<open>
  The position of an entry in the list stands for the unspecified iteration order of the hash
  map; every theorem is about an arbitrary list, hence about every order.
\<close>

type_synonym ('k, 'v) hmap = "('k \<times> 'v) list"

abbreviation hget :: "('k, 'v) hmap \<Rightarrow> 'k \<Rightarrow> 'v option" where
  "hget m k \<equiv> map_of m k"

abbreviation hput :: "'k \<Rightarrow> 'v \<Rightarrow> ('k, 'v) hmap \<Rightarrow> ('k, 'v) hmap" where
  "hput k v m \<equiv> AList.update k v m"

abbreviation hdel :: "'k \<Rightarrow> ('k, 'v) hmap \<Rightarrow> ('k, 'v) hmap" where
  "hdel k m \<equiv> AList.delete k m"

abbreviation hkeys :: "('k, 'v) hmap \<Rightarrow> 'k list" where
  "hkeys m \<equiv> map fst m"

lemma hget_hput [map_laws, simp]:
  "hget (hput k v m) k' = (if k' = k then Some v else hget m k')"
  by (simp add: update_conv')

lemma hget_hdel [map_laws, simp]:
  "hget (hdel k m) k' = (if k' = k then None else hget m k')"
  by (simp add: delete_conv')

lemma distinct_hput [intro]: "distinct (hkeys m) \<Longrightarrow> distinct (hkeys (hput k v m))"
  by (rule distinct_update)

lemma distinct_hdel [intro]: "distinct (hkeys m) \<Longrightarrow> distinct (hkeys (hdel k m))"
  by (rule distinct_delete)

lemma hkeys_hget: "k \<in> set (hkeys m) \<longleftrightarrow> hget m k \<noteq> None"
  by (metis map_of_eq_None_iff set_map)

lemma hget_iff_mem: "distinct (hkeys m) \<Longrightarrow> hget m k = Some v \<longleftrightarrow> (k, v) \<in> set m"
  by simp

lemma filter_fst_hget:
  "hget (filter (\<lambda>kv. P (fst kv)) m) k = (if P k then hget m k else None)"
  by (induction m) auto

lemma hput_fst_set: "set (hkeys (hput k v m)) = insert k (set (hkeys m))"
  by (auto simp: update_keys)

lemma hget_all_None:
  assumes "\<And>k. hget m k = None"
  shows "m = []"
proof (cases m)
  case (Cons kv rest)
  with assms [of "fst kv"] show ?thesis by (cases kv) simp
qed

lemma mem_hputD: "kv \<in> set (hput k v m) \<Longrightarrow> kv = (k, v) \<or> kv \<in> set m"
  by (induction m) (auto split: if_splits)

lemma mem_hdelD: "kv \<in> set (hdel k m) \<Longrightarrow> kv \<in> set m"
  by (auto simp: AList.delete_eq)

subsection \<open>Strings\<close>

definition starts_with :: "string \<Rightarrow> string \<Rightarrow> bool" where
  "starts_with s p \<longleftrightarrow> take (length p) s = p"

definition strip_prefix :: "string \<Rightarrow> string \<Rightarrow> string option" where
  "strip_prefix s p = (if starts_with s p then Some (drop (length p) s) else None)"

definition strip_suffix :: "string \<Rightarrow> string \<Rightarrow> string option" where
  "strip_suffix s p =
     (if starts_with (rev s) (rev p) then Some (take (length s - length p) s) else None)"

lemma starts_with_iff_prefix: "starts_with s p \<longleftrightarrow> prefix p s"
  by (metis starts_with_def append_eq_conv_conj prefix_def append_take_drop_id)

lemma starts_with_append [simp]: "starts_with (p @ s) p"
  by (simp add: starts_with_def)

lemma strip_suffix_Some: "strip_suffix s p = Some r \<longleftrightarrow> s = r @ p"
proof
  assume "strip_suffix s p = Some r"
  then have "prefix (rev p) (rev s)" and r: "r = take (length s - length p) s"
    by (auto simp: strip_suffix_def starts_with_iff_prefix split: if_splits)
  then obtain q where "s = q @ p"
    by (metis prefix_def rev_append rev_rev_ident)
  with r show "s = r @ p" by simp
next
  assume "s = r @ p"
  then show "strip_suffix s p = Some r"
    by (simp add: strip_suffix_def)
qed

text \<open>\<open>str::split\<close> on one character: always at least one part.\<close>

fun split_on :: "char \<Rightarrow> string \<Rightarrow> string list" where
  "split_on d [] = [[]]"
| "split_on d (c # cs) =
     (if c = d then [] # split_on d cs
      else (case split_on d cs of [] \<Rightarrow> [[c]] | p # ps \<Rightarrow> (c # p) # ps))"

fun join_with :: "char \<Rightarrow> string list \<Rightarrow> string" where
  "join_with d [] = []"
| "join_with d [p] = p"
| "join_with d (p # q # ps) = p @ d # join_with d (q # ps)"

lemma split_on_nonempty [simp]: "split_on d s \<noteq> []"
  by (induction s) (auto split: list.splits)

lemma join_split [simp]: "join_with d (split_on d s) = s"
proof (induction s)
  case Nil
  then show ?case by simp
next
  case (Cons c cs)
  obtain p ps where ps: "split_on d cs = p # ps"
    by (meson list.exhaust split_on_nonempty)
  with Cons show ?case by (cases ps) auto
qed

lemma split_on_no_sep: "p \<in> set (split_on d s) \<Longrightarrow> d \<notin> set p"
  by (induction s arbitrary: p) (auto split: list.splits if_splits)

lemma split_on_id: "d \<notin> set p \<Longrightarrow> split_on d p = [p]"
  by (induction p) auto

lemma split_on_append: "d \<notin> set p \<Longrightarrow> split_on d (p @ d # s) = p # split_on d s"
  by (induction p) (auto split: list.splits)

lemma split_join:
  "ps \<noteq> [] \<Longrightarrow> \<forall>p\<in>set ps. d \<notin> set p \<Longrightarrow> split_on d (join_with d ps) = ps"
  by (induction d ps rule: join_with.induct) (auto simp: split_on_id split_on_append)

text \<open>\<open>str::split_once\<close> on one character.\<close>

fun split_once :: "char \<Rightarrow> string \<Rightarrow> (string \<times> string) option" where
  "split_once d [] = None"
| "split_once d (c # cs) =
     (if c = d then Some ([], cs) else map_option (\<lambda>(a, b). (c # a, b)) (split_once d cs))"

lemma split_once_append: "d \<notin> set p \<Longrightarrow> split_once d (p @ d # s) = Some (p, s)"
  by (induction p) auto

lemma split_once_none: "d \<notin> set p \<Longrightarrow> split_once d p = None"
  by (induction p) auto

text \<open>Decimal numbers: \<open>Display\<close> of an unsigned integer, and \<open>str::parse\<close> for \<open>u32\<close>.\<close>

definition digit_char :: "nat \<Rightarrow> char" where "digit_char d = char_of (48 + d)"

function dec :: "nat \<Rightarrow> string" where
  "dec n = (if n < 10 then [digit_char n] else dec (n div 10) @ [digit_char (n mod 10)])"
  by pat_completeness auto
termination
  by (relation "measure id") auto

declare dec.simps [simp del]

definition is_digit :: "char \<Rightarrow> bool" where
  "is_digit c \<longleftrightarrow> 48 \<le> (of_char c :: nat) \<and> (of_char c :: nat) \<le> 57"

definition undec :: "string \<Rightarrow> nat" where
  "undec s = foldl (\<lambda>n c. 10 * n + (of_char c - 48)) 0 s"

definition parse_u32 :: "string \<Rightarrow> nat option" where
  "parse_u32 s =
     (let ds = (if starts_with s ''+'' then drop 1 s else s)
      in if ds \<noteq> [] \<and> list_all is_digit ds \<and> undec ds < 2 ^ 32 then Some (undec ds) else None)"

lemma of_digit_char: "d < 10 \<Longrightarrow> of_char (digit_char d) = 48 + d"
  by (simp add: digit_char_def)

lemma undec_snoc: "undec (s @ [c]) = 10 * undec s + (of_char c - 48)"
  by (simp add: undec_def)

lemma undec_dec [simp]: "undec (dec n) = n"
proof (induction n rule: dec.induct)
  case (1 n)
  show ?case
  proof (cases "n < 10")
    case True
    then show ?thesis by (subst dec.simps) (simp add: undec_def of_digit_char)
  next
    case False
    with 1 show ?thesis by (subst dec.simps) (simp add: undec_snoc of_digit_char)
  qed
qed

lemma dec_inj: "dec m = dec n \<longleftrightarrow> m = n"
  by (metis undec_dec)

lemma is_digit_char: "d < 10 \<Longrightarrow> is_digit (digit_char d)"
  by (simp add: is_digit_def of_digit_char)

lemma dec_digits: "list_all is_digit (dec n)"
  by (induction n rule: dec.induct) (subst dec.simps, simp add: is_digit_char)

lemma length_dec: "n < 10 ^ Suc k \<Longrightarrow> length (dec n) \<le> Suc k"
proof (induction k arbitrary: n)
  case 0
  then show ?case by (simp add: dec.simps)
next
  case (Suc k)
  then have "n div 10 < 10 ^ Suc k" by (simp add: less_mult_imp_div_less)
  then show ?case using Suc.IH by (subst dec.simps) simp
qed

subsection \<open>Lists\<close>

lemma length_one_conv: "length xs = 1 \<longleftrightarrow> (\<exists>x. xs = [x])"
  by (auto simp: length_Suc_conv)

lemma in_set_butlast_or_last: "x \<in> set xs \<Longrightarrow> x \<in> set (butlast xs) \<or> x = last xs"
  by (induction xs rule: rev_induct) auto

subsection \<open>Results\<close>

lemma map_sum_eq_Inr [simp]: "map_sum id f x = Inr y \<longleftrightarrow> (\<exists>z. x = Inr z \<and> y = f z)"
  by (cases x) auto

lemma map_sum_eq_Inl [simp]: "map_sum id f x = Inl e \<longleftrightarrow> x = Inl e"
  by (cases x) auto

subsection \<open>Pushing what was not seen before\<close>

text \<open>
  The loops that keep a vector and a \<open>seen\<close> set of the same elements
  (\<open>if seen.insert(x) { v.push(x) }\<close>).
\<close>

definition push_new :: "'a \<Rightarrow> 'a list \<Rightarrow> 'a list" where
  "push_new x acc = (if x \<in> set acc then acc else acc @ [x])"

definition push_unseen :: "'a list \<Rightarrow> 'a list \<Rightarrow> 'a list" where
  "push_unseen acc xs = foldl (\<lambda>a x. push_new x a) acc xs"

lemma set_push_new [simp]: "set (push_new x acc) = insert x (set acc)"
  by (auto simp: push_new_def)

lemma distinct_push_new [simp]: "distinct (push_new x acc) \<longleftrightarrow> distinct acc"
  by (auto simp: push_new_def)

lemma push_unseen_Nil [simp]: "push_unseen acc [] = acc"
  by (simp add: push_unseen_def)

lemma push_unseen_Cons [simp]: "push_unseen acc (x # xs) = push_unseen (push_new x acc) xs"
  by (simp add: push_unseen_def)

lemma set_push_unseen [simp]: "set (push_unseen acc xs) = set acc \<union> set xs"
  by (induction xs arbitrary: acc) auto

lemma distinct_push_unseen [simp]: "distinct (push_unseen acc xs) \<longleftrightarrow> distinct acc"
  by (induction xs arbitrary: acc) auto

subsection \<open>Bucket indexes\<close>

text \<open>
  A bucket index is a hash map from a key to a vector: \<open>entry(k).or_default().push(v)\<close> adds,
  \<open>retain\<close> followed by the removal of an empty vector takes away.
\<close>

type_synonym ('k, 'v) buckets = "('k, 'v list) hmap"

definition bucket :: "('k, 'v) buckets \<Rightarrow> 'k \<Rightarrow> 'v list" where
  "bucket m k = (case hget m k of None \<Rightarrow> [] | Some vs \<Rightarrow> vs)"

definition bucket_push :: "'v \<Rightarrow> 'k \<Rightarrow> ('k, 'v) buckets \<Rightarrow> ('k, 'v) buckets" where
  "bucket_push v k m = hput k (bucket m k @ [v]) m"

definition bucket_retain :: "'v \<Rightarrow> 'k \<Rightarrow> ('k, 'v) buckets \<Rightarrow> ('k, 'v) buckets" where
  "bucket_retain v k m =
     (case hget m k of
        None \<Rightarrow> m
      | Some vs \<Rightarrow>
          (let vs' = filter (\<lambda>x. x \<noteq> v) vs
           in if vs' = [] then hdel k m else hput k vs' m))"

definition no_empty_bucket :: "('k, 'v) buckets \<Rightarrow> bool" where
  "no_empty_bucket m \<longleftrightarrow> (\<forall>k vs. hget m k = Some vs \<longrightarrow> vs \<noteq> [])"

lemma set_bucket_push:
  "set (bucket (bucket_push v k m) k') =
     (if k' = k then insert v (set (bucket m k)) else set (bucket m k'))"
  by (auto simp: bucket_def bucket_push_def split: option.splits)

lemma set_bucket_retain:
  "set (bucket (bucket_retain v k m) k') =
     (if k' = k then set (bucket m k) - {v} else set (bucket m k'))"
proof (cases "hget m k")
  case None
  then show ?thesis by (simp add: bucket_retain_def bucket_def)
next
  case (Some vs)
  then show ?thesis
    by (auto simp: bucket_retain_def bucket_def Let_def filter_empty_conv)
qed

lemma no_empty_bucket_push: "no_empty_bucket m \<Longrightarrow> no_empty_bucket (bucket_push v k m)"
  by (auto simp: no_empty_bucket_def bucket_push_def split: if_splits)

lemma no_empty_bucket_retain: "no_empty_bucket m \<Longrightarrow> no_empty_bucket (bucket_retain v k m)"
  by (auto simp: no_empty_bucket_def bucket_retain_def Let_def split: option.splits if_splits)

text \<open>
  What the clients of an index rely on: which members a key has after a push and after a
  removal. Inside the contract: an index that lists exactly the entries of a table that want a
  key stays exact when an entry is added under all the keys it wants, and when it is taken away
  from all of them.
\<close>

locale key_index =
  fixes members :: "'m \<Rightarrow> 'k \<Rightarrow> 'v set"
    and add :: "'v \<Rightarrow> 'k \<Rightarrow> 'm \<Rightarrow> 'm"
    and take_out :: "'v \<Rightarrow> 'k \<Rightarrow> 'm \<Rightarrow> 'm"
    and tidy :: "'m \<Rightarrow> bool"
  assumes members_add:
      "members (add v k m) k' = (if k' = k then insert v (members m k) else members m k')"
    and members_take_out:
      "members (take_out v k m) k' = (if k' = k then members m k - {v} else members m k')"
    and tidy_add: "tidy m \<Longrightarrow> tidy (add v k m)"
    and tidy_take_out: "tidy m \<Longrightarrow> tidy (take_out v k m)"
begin

definition exact :: "('k \<Rightarrow> 'e \<Rightarrow> bool) \<Rightarrow> ('v \<Rightarrow> 'e option) \<Rightarrow> 'm \<Rightarrow> bool" where
  "exact wants tab m \<longleftrightarrow>
     (\<forall>k v. v \<in> members m k \<longleftrightarrow> (\<exists>e. tab v = Some e \<and> wants k e))"

lemma members_fold_add:
  "members (fold (add v) ks m) k = (if k \<in> set ks then insert v (members m k) else members m k)"
  by (induction ks arbitrary: m) (auto simp: members_add)

lemma members_fold_take_out:
  "members (fold (take_out v) ks m) k = (if k \<in> set ks then members m k - {v} else members m k)"
  by (induction ks arbitrary: m) (auto simp: members_take_out)

lemma tidy_fold_add: "tidy m \<Longrightarrow> tidy (fold (add v) ks m)"
  by (induction ks arbitrary: m) (auto intro: tidy_add)

lemma tidy_fold_take_out: "tidy m \<Longrightarrow> tidy (fold (take_out v) ks m)"
  by (induction ks arbitrary: m) (auto intro: tidy_take_out)

lemma exact_insert:
  assumes "exact wants tab m" and "tab v = None" and "\<And>k. k \<in> set ks \<longleftrightarrow> wants k e"
  shows "exact wants (tab(v \<mapsto> e)) (fold (add v) ks m)"
  using assms by (auto simp: exact_def members_fold_add)

lemma exact_remove:
  assumes "exact wants tab m" and "tab v = Some e" and "\<And>k. k \<in> set ks \<longleftrightarrow> wants k e"
  shows "exact wants (tab(v := None)) (fold (take_out v) ks m)"
  using assms by (auto simp: exact_def members_fold_take_out)

lemma exactD: "exact wants tab m \<Longrightarrow> v \<in> members m k \<longleftrightarrow> (\<exists>e. tab v = Some e \<and> wants k e)"
  by (simp add: exact_def)

end

interpretation bkt: key_index
  "\<lambda>m k. set (bucket m k)" bucket_push bucket_retain no_empty_bucket
  by unfold_locales
    (simp_all add: set_bucket_push set_bucket_retain no_empty_bucket_push no_empty_bucket_retain)

lemma bucket_push_ne_empty_bucket: "bucket (bucket_push v k m) k \<noteq> []"
  by (simp add: bucket_def bucket_push_def)

lemma bkt_exact_empty [simp]: "bkt.exact wants (\<lambda>_. None) []"
  unfolding bkt.exact_def by (simp add: bucket_def)

lemma tidy_exact_empty:
  assumes "no_empty_bucket m" and "bkt.exact wants (\<lambda>_. None) m"
  shows "m = []"
proof (rule hget_all_None, rule ccontr)
  fix k
  assume "hget m k \<noteq> None"
  then obtain vs where vs: "hget m k = Some vs" by auto
  with assms(1) have "vs \<noteq> []" by (simp add: no_empty_bucket_def)
  with vs have "set (bucket m k) \<noteq> {}" by (simp add: bucket_def)
  with assms(2) show False unfolding bkt.exact_def by auto
qed

subsection \<open>Machines with an invariant\<close>

text \<open>
  The interface the stateful components share: the states a machine may start in, its steps and
  an invariant that the start states have and every step keeps.
\<close>

locale inv_machine =
  fixes start :: "'s \<Rightarrow> bool"
    and step :: "'s \<Rightarrow> 's \<Rightarrow> bool"
    and inv :: "'s \<Rightarrow> bool"
  assumes start_inv: "start s \<Longrightarrow> inv s"
    and step_inv: "inv s \<Longrightarrow> step s t \<Longrightarrow> inv t"
begin

lemma steps_inv: "step\<^sup>*\<^sup>* s t \<Longrightarrow> inv s \<Longrightarrow> inv t"
  by (induction rule: rtranclp_induct) (auto intro: step_inv)

lemma reachable_inv: "start s \<Longrightarrow> step\<^sup>*\<^sup>* s t \<Longrightarrow> inv t"
  using steps_inv start_inv by blast

lemma path_fact:
  assumes "\<And>s t. inv s \<Longrightarrow> step s t \<Longrightarrow> R s t" "\<And>s. R s s" "\<And>s t u. R s t \<Longrightarrow> R t u \<Longrightarrow> R s u"
  shows "step\<^sup>*\<^sup>* s t \<Longrightarrow> inv s \<Longrightarrow> R s t"
  by (induction rule: rtranclp_induct) (use assms steps_inv in blast)+

end

end
