(* ===== verification/Bytes.thy ===== *)
theory Bytes
  imports Prelude "HOL-Library.Word"
begin

text \<open>
  Bytes and the fixed-width integers of the wire formats: big-endian reading and writing, the
  arithmetic of the unsigned types that saturates instead of wrapping.
\<close>

type_synonym byte = "8 word"
type_synonym bytes = "byte list"

text \<open>\<open>u8::saturating_add\<close>, \<open>u16::from_be_bytes\<close> and \<open>u32::from_be_bytes\<close>.\<close>

definition saturating_add8 :: "byte \<Rightarrow> byte \<Rightarrow> byte" where
  "saturating_add8 a b = (if unat a + unat b > 255 then 255 else a + b)"

definition u16_from_be :: "byte \<Rightarrow> byte \<Rightarrow> 16 word" where
  "u16_from_be a b = of_nat (unat a * 256 + unat b)"

definition u32_from_be :: "byte \<Rightarrow> byte \<Rightarrow> byte \<Rightarrow> byte \<Rightarrow> 32 word" where
  "u32_from_be a b c d = of_nat (((unat a * 256 + unat b) * 256 + unat c) * 256 + unat d)"

lemma unat_byte_bound: "unat (b :: byte) < 256"
  using unsigned_less [of b] by simp

lemma unat_byte_le: "unat (b :: byte) \<le> 255"
  using unat_byte_bound [of b] by simp

lemma byte_255_iff: "(b :: byte) = 255 \<longleftrightarrow> unat b = 255"
proof
  assume "unat b = 255"
  then have "unat b = unat (255 :: byte)" by simp
  then show "b = 255" by (simp only: unsigned_word_eqI)
qed simp

lemma unat_Suc_byte: "b \<noteq> (255 :: byte) \<Longrightarrow> unat (b + 1) = unat b + 1"
proof -
  assume "b \<noteq> 255"
  then have "unat b + 1 < 2 ^ 8" using byte_255_iff [of b] unat_byte_bound [of b] by simp
  then show "unat (b + 1) = unat b + 1" by (simp add: unat_word_ariths)
qed

lemma saturating_add8_1: "unat (saturating_add8 b 1) = min 255 (unat b + 1)"
  using unat_Suc_byte [of b] unat_byte_bound [of b] byte_255_iff [of b]
  by (auto simp: saturating_add8_def)

lemma byte_less_iff: "(a :: byte) < b \<longleftrightarrow> unat a < unat b"
  by (rule word_less_nat_alt)

text \<open>\<open>u32::to_le_bytes\<close> and \<open>u32::from_le_bytes\<close>.\<close>

definition u32_to_le :: "32 word \<Rightarrow> bytes" where
  "u32_to_le w = map (\<lambda>i. of_nat (unat w div 256 ^ i)) [0, 1, 2, 3]"

definition u32_from_le :: "bytes \<Rightarrow> 32 word" where
  "u32_from_le bs = of_nat (foldr (\<lambda>b n. unat b + 256 * n) bs 0)"

lemma length_u32_to_le [simp]: "length (u32_to_le w) = 4"
  by (simp add: u32_to_le_def)

lemma u32_le_roundtrip [simp]: "u32_from_le (u32_to_le w) = w"
proof -
  have byte: "unat (of_nat n :: byte) = n mod 256" for n
    by (simp add: unat_of_nat)
  define n1 where "n1 = unat w div 256"
  define n2 where "n2 = n1 div 256"
  define n3 where "n3 = n2 div 256"
  have divs: "unat w div 65536 = n2" "unat w div 16777216 = n3"
    by (simp_all add: n1_def n2_def n3_def div_mult2_eq [symmetric])
  have "unat w < 256 * 16777216" using unsigned_less [of w] by simp
  then have "n3 < 256" by (simp add: n1_def n2_def n3_def div_mult2_eq [symmetric] less_mult_imp_div_less)
  then have "unat w mod 256 + 256 * (n1 mod 256 + 256 * (n2 mod 256 + 256 * (n3 mod 256))) = unat w"
    using mult_div_mod_eq [of 256 "unat w"] mult_div_mod_eq [of 256 n1] mult_div_mod_eq [of 256 n2]
    unfolding n1_def [symmetric] n2_def [symmetric] n3_def [symmetric] by simp
  then have "foldr (\<lambda>b n. unat b + 256 * n) (u32_to_le w) 0 = unat w"
    using byte [of "unat w"] by (simp add: u32_to_le_def byte divs n1_def [symmetric])
  then show ?thesis by (simp add: u32_from_le_def)
qed

text \<open>The bytes of a text (its characters are bytes already) and the codec of UUIDs, a parameter.\<close>

definition ascii_bytes :: "string \<Rightarrow> bytes" where
  "ascii_bytes s = map (\<lambda>c. of_char c) s"

lemma ascii_bytes_append [simp]: "ascii_bytes (s @ t) = ascii_bytes s @ ascii_bytes t"
  by (simp add: ascii_bytes_def)

lemma of_char_inj: "(of_char c :: byte) = of_char d \<longleftrightarrow> c = d"
proof
  assume eq: "(of_char c :: byte) = of_char d"
  have val: "unat (of_char x :: byte) = of_char x" for x
  proof -
    have "(of_char x :: nat) < 256" using nat_of_char_less_256 by simp
    then have a: "unat (of_nat (of_char x) :: byte) = of_char x" by (simp only: unsigned_of_nat take_bit_eq_mod) simp
    have b: "unat (of_nat (of_char x) :: byte) = unat (of_char x :: byte)"
      by (rule arg_cong [OF of_nat_of_char])
    show ?thesis by (rule trans [OF sym [OF b] a])
  qed
  have "(of_char c :: nat) = of_char d" by (simp only: val [symmetric] eq)
  then show "c = d" by simp
qed simp

lemma ascii_bytes_inj [simp]: "ascii_bytes s = ascii_bytes t \<longleftrightarrow> s = t"
  using inj_map_eq_map [of "\<lambda>c. of_char c :: byte" s t] by (simp add: ascii_bytes_def inj_def of_char_inj)

lemma length_ascii_bytes [simp]: "length (ascii_bytes s) = length s"
  by (simp add: ascii_bytes_def)

record uuid_codec =
  uuid_as_bytes :: "uuid \<Rightarrow> bytes"
  uuid_from_bytes :: "bytes \<Rightarrow> uuid"

definition uuid_codec_ok :: "uuid_codec \<Rightarrow> uuid \<Rightarrow> bool" where
  "uuid_codec_ok U u \<longleftrightarrow> length (uuid_as_bytes U u) = 16 \<and> uuid_from_bytes U (uuid_as_bytes U u) = u"

text \<open>\<open>i64::to_be_bytes\<close>, on the integers of the two's complement range.\<close>

definition i64_wrap :: "int \<Rightarrow> int" where "i64_wrap n = (n + 2 ^ 63) mod 2 ^ 64 - 2 ^ 63"

definition i64_to_be :: "int \<Rightarrow> bytes" where
  "i64_to_be k = map (\<lambda>i. of_int (k div 256 ^ i)) [7, 6, 5, 4, 3, 2, 1, 0]"

lemma length_i64_to_be [simp]: "length (i64_to_be k) = 8"
  by (simp add: i64_to_be_def)

lemma i64_to_be_inj:
  assumes "i64_to_be j = i64_to_be k" "- (2 ^ 63) \<le> j" "j < 2 ^ 63" "- (2 ^ 63) \<le> k" "k < 2 ^ 63"
  shows "j = k"
proof -
  have byte: "m mod 256 = n mod 256" if "(of_int m :: byte) = of_int n" for m n
    using arg_cong [OF that, of uint] by (simp add: unsigned_of_int take_bit_eq_mod)
  have low: "j div 256 ^ i mod 256 = k div 256 ^ i mod 256" if "i < 8" for i
  proof -
    from that have "i = 0 \<or> i = 1 \<or> i = 2 \<or> i = 3 \<or> i = 4 \<or> i = 5 \<or> i = 6 \<or> i = 7" by arith
    then show ?thesis using assms(1) by (elim disjE) (auto simp: i64_to_be_def dest: byte)
  qed
  have "j mod 256 ^ n = k mod 256 ^ n" if "n \<le> 8" for n
    using that
  proof (induction n)
    case (Suc n)
    have split: "x mod 256 ^ Suc n = 256 ^ n * (x div 256 ^ n mod 256) + x mod 256 ^ n" for x :: int
      unfolding power_Suc2 by (rule zmod_zmult2_eq) simp
    have "n < 8" "n \<le> 8" using Suc.prems by simp_all
    then show ?case by (simp only: split low Suc.IH)
  qed simp
  from this [of 8] have "j mod 2 ^ 64 = k mod 2 ^ 64" by simp
  then have "2 ^ 64 dvd j - k" by (simp add: mod_eq_dvd_iff)
  then obtain q where q: "j - k = 2 ^ 64 * q" by (auto simp: dvd_def)
  have "\<not> 1 \<le> q" "\<not> q \<le> - 1" using q assms(2-) by simp_all
  then show ?thesis using q by simp
qed

subsection \<open>Freshness of a time\<close>

text \<open>
  \<open>(event_ts - now).abs() > max\<close> on 64-bit integers as the release build computes it: the cast, the
  subtraction and the absolute value wrap around.
\<close>

definition i64_abs :: "int \<Rightarrow> int" where
  "i64_abs n = i64_wrap \<bar>n\<bar>"

definition out_of_range :: "int \<Rightarrow> nat \<Rightarrow> nat \<Rightarrow> bool" where
  "out_of_range limit now created_at \<longleftrightarrow> i64_abs (i64_wrap (i64_wrap (int created_at) - int now)) > limit"

lemma i64_wrap_id: "- (2 ^ 63) \<le> n \<Longrightarrow> n < 2 ^ 63 \<Longrightarrow> i64_wrap n = n"
  by (simp add: i64_wrap_def)

lemma i64_wrap_down:
  assumes "2 ^ 63 \<le> n" and "n < 2 ^ 63 + 2 ^ 64"
  shows "i64_wrap n = n - 2 ^ 64"
proof -
  have "(n + 2 ^ 63) mod 2 ^ 64 = (n + 2 ^ 63 - 2 ^ 64) mod 2 ^ 64" by (simp only: minus_mod_self2)
  also have "\<dots> = n + 2 ^ 63 - 2 ^ 64" using assms by (intro mod_pos_pos_trivial) simp_all
  finally show ?thesis by (simp add: i64_wrap_def)
qed

lemma i64_wrap_up:
  assumes "- (2 ^ 63) - 2 ^ 64 \<le> n" and "n < - (2 ^ 63)"
  shows "i64_wrap n = n + 2 ^ 64"
proof -
  have "(n + 2 ^ 63) mod 2 ^ 64 = (n + 2 ^ 63 + 2 ^ 64) mod 2 ^ 64" by (simp only: mod_add_self2)
  also have "\<dots> = n + 2 ^ 63 + 2 ^ 64" using assms by (intro mod_pos_pos_trivial) simp_all
  finally show ?thesis by (simp add: i64_wrap_def)
qed

text \<open>
  The test of freshness is exact but for one value: a time that lies \<open>2 ^ 63\<close> seconds ahead passes,
  because the difference is the least 64-bit integer, which is its own absolute value.
\<close>
lemma out_of_range_iff:
  assumes "0 \<le> limit" and "limit \<le> int now" and "now < 2 ^ 62" and "c < 2 ^ 64"
  shows "\<not> out_of_range limit now c \<longleftrightarrow> \<bar>int c - int now\<bar> \<le> limit \<or> c = now + 2 ^ 63"
proof -
  have n: "int now < 2 ^ 62" and c: "int c < 2 ^ 64" using assms(3,4) by (simp_all flip: of_nat_less_numeral_power_cancel_iff)
  have eq: "c = now + 2 ^ 63 \<longleftrightarrow> int c = int now + 2 ^ 63" by (simp flip: of_nat_eq_iff [where ?'a = int])
  consider "int c < 2 ^ 63" | "2 ^ 63 \<le> int c" "int c < int now + 2 ^ 63" | "int c = int now + 2 ^ 63" | "int now + 2 ^ 63 < int c"
    by linarith
  then show ?thesis
  proof cases
    case 1
    then have "i64_wrap (int c) = int c" by (simp add: i64_wrap_id)
    moreover have "i64_wrap (int c - int now) = int c - int now" using 1 n by (intro i64_wrap_id) simp_all
    moreover have "i64_wrap \<bar>int c - int now\<bar> = \<bar>int c - int now\<bar>" using 1 n by (intro i64_wrap_id) simp_all
    ultimately show ?thesis using 1 by (simp add: out_of_range_def i64_abs_def eq not_less)
  next
    case 2
    have w: "i64_wrap (int c) = int c - 2 ^ 64" using 2 c by (intro i64_wrap_down) simp_all
    have d: "i64_wrap (int c - 2 ^ 64 - int now) = int c - int now" using 2 n by (subst i64_wrap_up) simp_all
    have a: "i64_wrap \<bar>int c - int now\<bar> = int c - int now" using 2 n by (subst i64_wrap_id) simp_all
    have "out_of_range limit now c" using 2 n assms(2) by (simp only: out_of_range_def i64_abs_def w d a) simp
    with 2 n assms(2) show ?thesis by (simp add: eq)
  next
    case 3
    have w: "i64_wrap (int c) = int c - 2 ^ 64" using 3 n by (intro i64_wrap_down) simp_all
    have d: "i64_wrap (int c - 2 ^ 64 - int now) = - (2 ^ 63)" using 3 by (subst i64_wrap_id) simp_all
    have a: "i64_wrap \<bar>- (2 ^ 63)\<bar> = - (2 ^ 63)" by (subst i64_wrap_down) simp_all
    have "\<not> out_of_range limit now c" using assms(1) by (simp only: out_of_range_def i64_abs_def w d a) simp
    with 3 show ?thesis by (simp add: eq)
  next
    case 4
    have w: "i64_wrap (int c) = int c - 2 ^ 64" using 4 c by (intro i64_wrap_down) simp_all
    have d: "i64_wrap (int c - 2 ^ 64 - int now) = int c - 2 ^ 64 - int now" using 4 c n by (intro i64_wrap_id) simp_all
    have a: "i64_wrap \<bar>int c - 2 ^ 64 - int now\<bar> = 2 ^ 64 + int now - int c" using 4 c n by (subst i64_wrap_id) simp_all
    have "out_of_range limit now c" unfolding out_of_range_def i64_abs_def w d a using 4 c assms(2) by linarith
    with 4 n assms(2) show ?thesis by (simp add: eq)
  qed
qed


end
