(* ===== verification/Events.thy ===== *)
theory Events
  imports Prelude
begin

text \<open>
  Events, filters and their matching: \<open>StoredEvent\<close> of \<open>buzz-core/src/event.rs\<close> and the
  NIP-01 matcher of \<open>buzz-core/src/filter.rs\<close>.

  The types \<open>Event\<close>, \<open>Filter\<close> and \<open>Tag\<close> belong to the \<open>nostr\<close> package. They are
  records of exactly the observations the program makes: a tag has the text of its kind, its
  content and its slice as three independent fields, a key and an event id are their hex form,
  and the ordered sets of a filter are the lists of their elements in iteration order.
\<close>

record nostr_tag =
  tag_kind :: string
  tag_content :: "string option"
  tag_slice :: "string list"

record nostr_event =
  ev_id :: string
  ev_pubkey :: string
  ev_created_at :: nat
  ev_kind :: nat
  ev_tags :: "nostr_tag list"
  ev_content :: string

record nostr_filter =
  f_ids :: "string list option"
  f_authors :: "string list option"
  f_kinds :: "nat list option"
  f_since :: "nat option"
  f_until :: "nat option"
  f_generic_tags :: "(string \<times> string list) list"

record StoredEvent =
  se_event :: nostr_event
  se_received_at :: nat
  se_channel_id :: "uuid option"
  se_verified :: bool

text \<open>\<open>StoredEvent::new\<close>; the clock is an argument.\<close>

definition StoredEvent_new :: "nat \<Rightarrow> nostr_event \<Rightarrow> uuid option \<Rightarrow> StoredEvent" where
  "StoredEvent_new now ev ch =
     \<lparr>se_event = ev, se_received_at = now, se_channel_id = ch, se_verified = False\<rparr>"

definition with_received_at ::
  "nostr_event \<Rightarrow> nat \<Rightarrow> uuid option \<Rightarrow> bool \<Rightarrow> StoredEvent" where
  "with_received_at ev t ch v =
     \<lparr>se_event = ev, se_received_at = t, se_channel_id = ch, se_verified = v\<rparr>"

subsection \<open>Matching one filter\<close>

text \<open>The closure \<open>has_match\<close>: some filter value is the content of some tag of that kind.\<close>

definition tag_has_match :: "string \<Rightarrow> string list \<Rightarrow> nostr_event \<Rightarrow> bool" where
  "tag_has_match key values ev =
     list_ex (\<lambda>v. list_ex (\<lambda>t. tag_kind t = key \<and> tag_content t = Some v) (ev_tags ev)) values"

text \<open>
  One round of the loop over \<open>generic_tags\<close>, with the fallback for \<open>#h\<close>: an event without
  any \<open>h\<close> tag is matched by the channel the relay derived for it.
\<close>

definition generic_tag_ok :: "StoredEvent \<Rightarrow> string \<times> string list \<Rightarrow> bool" where
  "generic_tag_ok ev kv =
     (case kv of (key, values) \<Rightarrow>
        if tag_has_match key values (se_event ev) then True
        else if key = ''h'' then
          (if list_ex (\<lambda>t. tag_kind t = ''h'') (ev_tags (se_event ev)) then False
           else (case se_channel_id ev of
                   Some ch \<Rightarrow> ch \<in> set values
                 | None \<Rightarrow> False))
        else False)"

definition filter_match_one :: "nostr_filter \<Rightarrow> StoredEvent \<Rightarrow> bool" where
  "filter_match_one f ev =
     (if (case f_kinds f of Some ks \<Rightarrow> ev_kind (se_event ev) \<notin> set ks | None \<Rightarrow> False) then False
      else if (case f_authors f of Some as \<Rightarrow> ev_pubkey (se_event ev) \<notin> set as | None \<Rightarrow> False)
      then False
      else if (case f_since f of Some t \<Rightarrow> ev_created_at (se_event ev) < t | None \<Rightarrow> False)
      then False
      else if (case f_until f of Some t \<Rightarrow> ev_created_at (se_event ev) > t | None \<Rightarrow> False)
      then False
      else if (case f_ids f of
                 Some ids \<Rightarrow> \<not> list_ex (\<lambda>i. starts_with (ev_id (se_event ev)) i) ids
               | None \<Rightarrow> False)
      then False
      else list_all (generic_tag_ok ev) (f_generic_tags f))"

definition filters_match :: "nostr_filter list \<Rightarrow> StoredEvent \<Rightarrow> bool" where
  "filters_match fs ev = list_ex (\<lambda>f. filter_match_one f ev) fs"

subsection \<open>What a match implies\<close>

lemma filter_match_kind:
  "filter_match_one f ev \<Longrightarrow> f_kinds f = Some ks \<Longrightarrow> ev_kind (se_event ev) \<in> set ks"
  by (auto simp: filter_match_one_def split: if_splits)

lemma filter_match_tag:
  "filter_match_one f ev \<Longrightarrow> hget (f_generic_tags f) key = Some vs \<Longrightarrow> generic_tag_ok ev (key, vs)"
  by (auto simp: filter_match_one_def list_all_iff dest!: map_of_SomeD split: if_splits)

lemma filter_match_p_tag:
  assumes "filter_match_one f ev" and "hget (f_generic_tags f) ''p'' = Some vs"
  obtains v t where "v \<in> set vs" and "t \<in> set (ev_tags (se_event ev))"
    and "tag_kind t = ''p''" and "tag_content t = Some v"
proof -
  from filter_match_tag [OF assms] have "tag_has_match ''p'' vs (se_event ev)"
    by (simp add: generic_tag_ok_def split: if_splits)
  with that show thesis by (auto simp: tag_has_match_def list_ex_iff)
qed

end
