(* ===== verification/Kinds.thy ===== *)
theory Kinds
  imports Events
begin

text \<open>
  The kind registry of \<open>buzz-core/src/kind.rs\<close>: the kind numbers, the lists that gate reads,
  the predicates that route an event, and the two read gates that depend on an event's tags
  (the persona gate of \<open>kind.rs\<close>, the result-level gate of \<open>filter.rs\<close>). A kind is a
  \<^typ>\<open>nat\<close>; that every registered one fits the 16 bits of the wire type is a theorem.
\<close>

named_theorems kind_defs "the kind numbers"

subsection \<open>Numbers\<close>

definition KIND_PROFILE :: nat where [kind_defs]: "KIND_PROFILE = 0"
definition KIND_TEXT_NOTE :: nat where [kind_defs]: "KIND_TEXT_NOTE = 1"
definition KIND_CONTACT_LIST :: nat where [kind_defs]: "KIND_CONTACT_LIST = 3"
definition KIND_MUTE_LIST :: nat where [kind_defs]: "KIND_MUTE_LIST = 10000"
definition KIND_PIN_LIST :: nat where [kind_defs]: "KIND_PIN_LIST = 10001"
definition KIND_NIP65_RELAY_LIST_METADATA :: nat where [kind_defs]: "KIND_NIP65_RELAY_LIST_METADATA = 10002"
definition KIND_BOOKMARK_LIST :: nat where [kind_defs]: "KIND_BOOKMARK_LIST = 10003"
definition KIND_EMOJI_LIST :: nat where [kind_defs]: "KIND_EMOJI_LIST = 10030"
definition KIND_FOLLOW_SET :: nat where [kind_defs]: "KIND_FOLLOW_SET = 30000"
definition KIND_BOOKMARK_SET :: nat where [kind_defs]: "KIND_BOOKMARK_SET = 30003"
definition KIND_EMOJI_SET :: nat where [kind_defs]: "KIND_EMOJI_SET = 30030"
definition KIND_CHANNEL_METADATA :: nat where [kind_defs]: "KIND_CHANNEL_METADATA = 41"
definition KIND_DELETION :: nat where [kind_defs]: "KIND_DELETION = 5"
definition KIND_REACTION :: nat where [kind_defs]: "KIND_REACTION = 7"
definition KIND_GIFT_WRAP :: nat where [kind_defs]: "KIND_GIFT_WRAP = 1059"
definition KIND_FILE_METADATA :: nat where [kind_defs]: "KIND_FILE_METADATA = 1063"
definition KIND_LONG_FORM :: nat where [kind_defs]: "KIND_LONG_FORM = 30023"
definition KIND_USER_STATUS :: nat where [kind_defs]: "KIND_USER_STATUS = 30315"
definition KIND_READ_STATE :: nat where [kind_defs]: "KIND_READ_STATE = 30078"
definition KIND_AUTH :: nat where [kind_defs]: "KIND_AUTH = 22242"
definition KIND_BLOSSOM_AUTH :: nat where [kind_defs]: "KIND_BLOSSOM_AUTH = 24242"
definition KIND_NOSTR_IDENTITY_BINDING :: nat where [kind_defs]: "KIND_NOSTR_IDENTITY_BINDING = 24243"
definition KIND_HTTP_AUTH :: nat where [kind_defs]: "KIND_HTTP_AUTH = 27235"
definition KIND_AGENT_PROFILE :: nat where [kind_defs]: "KIND_AGENT_PROFILE = 10100"
definition KIND_AGENT_ENGRAM :: nat where [kind_defs]: "KIND_AGENT_ENGRAM = 30174"
definition KIND_EVENT_REMINDER :: nat where [kind_defs]: "KIND_EVENT_REMINDER = 30300"
definition KIND_PUSH_LEASE :: nat where [kind_defs]: "KIND_PUSH_LEASE = 30350"
definition KIND_PERSONA :: nat where [kind_defs]: "KIND_PERSONA = 30175"
definition KIND_TEAM :: nat where [kind_defs]: "KIND_TEAM = 30176"
definition KIND_MANAGED_AGENT :: nat where [kind_defs]: "KIND_MANAGED_AGENT = 30177"
definition KIND_REPORT :: nat where [kind_defs]: "KIND_REPORT = 1984"
definition KIND_PRODUCT_FEEDBACK :: nat where [kind_defs]: "KIND_PRODUCT_FEEDBACK = 42000"
definition KIND_NIP29_PUT_USER :: nat where [kind_defs]: "KIND_NIP29_PUT_USER = 9000"
definition KIND_NIP29_REMOVE_USER :: nat where [kind_defs]: "KIND_NIP29_REMOVE_USER = 9001"
definition KIND_NIP29_EDIT_METADATA :: nat where [kind_defs]: "KIND_NIP29_EDIT_METADATA = 9002"
definition KIND_NIP29_DELETE_EVENT :: nat where [kind_defs]: "KIND_NIP29_DELETE_EVENT = 9005"
definition KIND_NIP29_CREATE_GROUP :: nat where [kind_defs]: "KIND_NIP29_CREATE_GROUP = 9007"
definition KIND_NIP29_DELETE_GROUP :: nat where [kind_defs]: "KIND_NIP29_DELETE_GROUP = 9008"
definition KIND_NIP29_CREATE_INVITE :: nat where [kind_defs]: "KIND_NIP29_CREATE_INVITE = 9009"
definition KIND_NIP29_JOIN_REQUEST :: nat where [kind_defs]: "KIND_NIP29_JOIN_REQUEST = 9021"
definition KIND_NIP29_LEAVE_REQUEST :: nat where [kind_defs]: "KIND_NIP29_LEAVE_REQUEST = 9022"
definition KIND_MODERATION_BAN :: nat where [kind_defs]: "KIND_MODERATION_BAN = 9040"
definition KIND_MODERATION_UNBAN :: nat where [kind_defs]: "KIND_MODERATION_UNBAN = 9041"
definition KIND_MODERATION_TIMEOUT :: nat where [kind_defs]: "KIND_MODERATION_TIMEOUT = 9042"
definition KIND_MODERATION_UNTIMEOUT :: nat where [kind_defs]: "KIND_MODERATION_UNTIMEOUT = 9043"
definition KIND_MODERATION_RESOLVE_REPORT :: nat where [kind_defs]: "KIND_MODERATION_RESOLVE_REPORT = 9044"
definition RELAY_ADMIN_ADD_MEMBER :: nat where [kind_defs]: "RELAY_ADMIN_ADD_MEMBER = 9030"
definition RELAY_ADMIN_REMOVE_MEMBER :: nat where [kind_defs]: "RELAY_ADMIN_REMOVE_MEMBER = 9031"
definition RELAY_ADMIN_CHANGE_ROLE :: nat where [kind_defs]: "RELAY_ADMIN_CHANGE_ROLE = 9032"
definition RELAY_ADMIN_SET_WORKSPACE_PROFILE :: nat where [kind_defs]: "RELAY_ADMIN_SET_WORKSPACE_PROFILE = 9033"
definition KIND_NIP43_MEMBERSHIP_LIST :: nat where [kind_defs]: "KIND_NIP43_MEMBERSHIP_LIST = 13534"
definition KIND_NIP43_MEMBER_ADDED :: nat where [kind_defs]: "KIND_NIP43_MEMBER_ADDED = 8000"
definition KIND_NIP43_MEMBER_REMOVED :: nat where [kind_defs]: "KIND_NIP43_MEMBER_REMOVED = 8001"
definition KIND_NIP43_LEAVE_REQUEST :: nat where [kind_defs]: "KIND_NIP43_LEAVE_REQUEST = 28936"
definition KIND_IA_ARCHIVE_REQUEST :: nat where [kind_defs]: "KIND_IA_ARCHIVE_REQUEST = 9035"
definition KIND_IA_UNARCHIVE_REQUEST :: nat where [kind_defs]: "KIND_IA_UNARCHIVE_REQUEST = 9036"
definition KIND_IA_ARCHIVED :: nat where [kind_defs]: "KIND_IA_ARCHIVED = 8002"
definition KIND_IA_UNARCHIVED :: nat where [kind_defs]: "KIND_IA_UNARCHIVED = 8003"
definition KIND_IA_ARCHIVED_LIST :: nat where [kind_defs]: "KIND_IA_ARCHIVED_LIST = 13535"
definition KIND_NIP29_GROUP_METADATA :: nat where [kind_defs]: "KIND_NIP29_GROUP_METADATA = 39000"
definition KIND_NIP29_GROUP_ADMINS :: nat where [kind_defs]: "KIND_NIP29_GROUP_ADMINS = 39001"
definition KIND_NIP29_GROUP_MEMBERS :: nat where [kind_defs]: "KIND_NIP29_GROUP_MEMBERS = 39002"
definition KIND_NIP29_GROUP_ROLES :: nat where [kind_defs]: "KIND_NIP29_GROUP_ROLES = 39003"
definition KIND_THREAD_SUMMARY :: nat where [kind_defs]: "KIND_THREAD_SUMMARY = 39005"
definition KIND_WINDOW_BOUNDS :: nat where [kind_defs]: "KIND_WINDOW_BOUNDS = 39006"
definition KIND_WORKFLOW_DEF :: nat where [kind_defs]: "KIND_WORKFLOW_DEF = 30620"
definition KIND_DM_VISIBILITY :: nat where [kind_defs]: "KIND_DM_VISIBILITY = 30622"
definition PARAM_REPLACEABLE_KIND_MIN :: nat where [kind_defs]: "PARAM_REPLACEABLE_KIND_MIN = 30000"
definition PARAM_REPLACEABLE_KIND_MAX :: nat where [kind_defs]: "PARAM_REPLACEABLE_KIND_MAX = 39999"
definition EPHEMERAL_KIND_MIN :: nat where [kind_defs]: "EPHEMERAL_KIND_MIN = 20000"
definition EPHEMERAL_KIND_MAX :: nat where [kind_defs]: "EPHEMERAL_KIND_MAX = 29999"
definition KIND_PRESENCE_UPDATE :: nat where [kind_defs]: "KIND_PRESENCE_UPDATE = 20001"
definition KIND_PAIRING :: nat where [kind_defs]: "KIND_PAIRING = 24134"
definition KIND_TYPING_INDICATOR :: nat where [kind_defs]: "KIND_TYPING_INDICATOR = 20002"
definition KIND_AGENT_OBSERVER_FRAME :: nat where [kind_defs]: "KIND_AGENT_OBSERVER_FRAME = 24200"
definition KIND_HUDDLE_REACTION :: nat where [kind_defs]: "KIND_HUDDLE_REACTION = 24810"
definition KIND_STREAM_MESSAGE :: nat where [kind_defs]: "KIND_STREAM_MESSAGE = 9"
definition KIND_STREAM_MESSAGE_V2 :: nat where [kind_defs]: "KIND_STREAM_MESSAGE_V2 = 40002"
definition KIND_STREAM_MESSAGE_EDIT :: nat where [kind_defs]: "KIND_STREAM_MESSAGE_EDIT = 40003"
definition KIND_STREAM_MESSAGE_PINNED :: nat where [kind_defs]: "KIND_STREAM_MESSAGE_PINNED = 40004"
definition KIND_STREAM_MESSAGE_BOOKMARKED :: nat where [kind_defs]: "KIND_STREAM_MESSAGE_BOOKMARKED = 40005"
definition KIND_STREAM_MESSAGE_SCHEDULED :: nat where [kind_defs]: "KIND_STREAM_MESSAGE_SCHEDULED = 40006"
definition KIND_STREAM_REMINDER :: nat where [kind_defs]: "KIND_STREAM_REMINDER = 40007"
definition KIND_STREAM_MESSAGE_DIFF :: nat where [kind_defs]: "KIND_STREAM_MESSAGE_DIFF = 40008"
definition KIND_CANVAS :: nat where [kind_defs]: "KIND_CANVAS = 40100"
definition KIND_SYSTEM_MESSAGE :: nat where [kind_defs]: "KIND_SYSTEM_MESSAGE = 40099"
definition KIND_CHANNEL_SUMMARY :: nat where [kind_defs]: "KIND_CHANNEL_SUMMARY = 40901"
definition KIND_PRESENCE_SNAPSHOT :: nat where [kind_defs]: "KIND_PRESENCE_SNAPSHOT = 40902"
definition KIND_DM_OPEN :: nat where [kind_defs]: "KIND_DM_OPEN = 41010"
definition KIND_DM_ADD_MEMBER :: nat where [kind_defs]: "KIND_DM_ADD_MEMBER = 41011"
definition KIND_DM_HIDE :: nat where [kind_defs]: "KIND_DM_HIDE = 41012"
definition KIND_DM_CREATED :: nat where [kind_defs]: "KIND_DM_CREATED = 41001"
definition KIND_JOB_REQUEST :: nat where [kind_defs]: "KIND_JOB_REQUEST = 43001"
definition KIND_JOB_ACCEPTED :: nat where [kind_defs]: "KIND_JOB_ACCEPTED = 43002"
definition KIND_JOB_PROGRESS :: nat where [kind_defs]: "KIND_JOB_PROGRESS = 43003"
definition KIND_JOB_RESULT :: nat where [kind_defs]: "KIND_JOB_RESULT = 43004"
definition KIND_JOB_CANCEL :: nat where [kind_defs]: "KIND_JOB_CANCEL = 43005"
definition KIND_JOB_ERROR :: nat where [kind_defs]: "KIND_JOB_ERROR = 43006"
definition KIND_MEMBER_ADDED_NOTIFICATION :: nat where [kind_defs]: "KIND_MEMBER_ADDED_NOTIFICATION = 44100"
definition KIND_MEMBER_REMOVED_NOTIFICATION :: nat where [kind_defs]: "KIND_MEMBER_REMOVED_NOTIFICATION = 44101"
definition KIND_AGENT_TURN_METRIC :: nat where [kind_defs]: "KIND_AGENT_TURN_METRIC = 44200"
definition KIND_FORUM_POST :: nat where [kind_defs]: "KIND_FORUM_POST = 45001"
definition KIND_FORUM_VOTE :: nat where [kind_defs]: "KIND_FORUM_VOTE = 45002"
definition KIND_FORUM_COMMENT :: nat where [kind_defs]: "KIND_FORUM_COMMENT = 45003"
definition KIND_WORKFLOW_TRIGGER :: nat where [kind_defs]: "KIND_WORKFLOW_TRIGGER = 46020"
definition KIND_APPROVAL_GRANT :: nat where [kind_defs]: "KIND_APPROVAL_GRANT = 46030"
definition KIND_APPROVAL_DENY :: nat where [kind_defs]: "KIND_APPROVAL_DENY = 46031"
definition KIND_WORKFLOW_TRIGGERED :: nat where [kind_defs]: "KIND_WORKFLOW_TRIGGERED = 46001"
definition KIND_WORKFLOW_STEP_STARTED :: nat where [kind_defs]: "KIND_WORKFLOW_STEP_STARTED = 46002"
definition KIND_WORKFLOW_STEP_COMPLETED :: nat where [kind_defs]: "KIND_WORKFLOW_STEP_COMPLETED = 46003"
definition KIND_WORKFLOW_STEP_FAILED :: nat where [kind_defs]: "KIND_WORKFLOW_STEP_FAILED = 46004"
definition KIND_WORKFLOW_COMPLETED :: nat where [kind_defs]: "KIND_WORKFLOW_COMPLETED = 46005"
definition KIND_WORKFLOW_FAILED :: nat where [kind_defs]: "KIND_WORKFLOW_FAILED = 46006"
definition KIND_WORKFLOW_CANCELLED :: nat where [kind_defs]: "KIND_WORKFLOW_CANCELLED = 46007"
definition KIND_WORKFLOW_APPROVAL_REQUESTED :: nat where [kind_defs]: "KIND_WORKFLOW_APPROVAL_REQUESTED = 46010"
definition KIND_WORKFLOW_APPROVAL_GRANTED :: nat where [kind_defs]: "KIND_WORKFLOW_APPROVAL_GRANTED = 46011"
definition KIND_WORKFLOW_APPROVAL_DENIED :: nat where [kind_defs]: "KIND_WORKFLOW_APPROVAL_DENIED = 46012"
definition KIND_AUDIT_ENTRY :: nat where [kind_defs]: "KIND_AUDIT_ENTRY = 48001"
definition KIND_HUDDLE_STARTED :: nat where [kind_defs]: "KIND_HUDDLE_STARTED = 48100"
definition KIND_HUDDLE_PARTICIPANT_JOINED :: nat where [kind_defs]: "KIND_HUDDLE_PARTICIPANT_JOINED = 48101"
definition KIND_HUDDLE_PARTICIPANT_LEFT :: nat where [kind_defs]: "KIND_HUDDLE_PARTICIPANT_LEFT = 48102"
definition KIND_HUDDLE_ENDED :: nat where [kind_defs]: "KIND_HUDDLE_ENDED = 48103"
definition KIND_HUDDLE_GUIDELINES :: nat where [kind_defs]: "KIND_HUDDLE_GUIDELINES = 48106"
definition KIND_MEDIA_UPLOAD :: nat where [kind_defs]: "KIND_MEDIA_UPLOAD = 49001"
definition KIND_GIT_REPO_ANNOUNCEMENT :: nat where [kind_defs]: "KIND_GIT_REPO_ANNOUNCEMENT = 30617"
definition KIND_GIT_REPO_STATE :: nat where [kind_defs]: "KIND_GIT_REPO_STATE = 30618"
definition KIND_GIT_PATCH :: nat where [kind_defs]: "KIND_GIT_PATCH = 1617"
definition KIND_GIT_PULL_REQUEST :: nat where [kind_defs]: "KIND_GIT_PULL_REQUEST = 1618"
definition KIND_GIT_PR_UPDATE :: nat where [kind_defs]: "KIND_GIT_PR_UPDATE = 1619"
definition KIND_GIT_ISSUE :: nat where [kind_defs]: "KIND_GIT_ISSUE = 1621"
definition KIND_GIT_STATUS_OPEN :: nat where [kind_defs]: "KIND_GIT_STATUS_OPEN = 1630"
definition KIND_GIT_STATUS_MERGED :: nat where [kind_defs]: "KIND_GIT_STATUS_MERGED = 1631"
definition KIND_GIT_STATUS_CLOSED :: nat where [kind_defs]: "KIND_GIT_STATUS_CLOSED = 1632"
definition KIND_GIT_STATUS_DRAFT :: nat where [kind_defs]: "KIND_GIT_STATUS_DRAFT = 1633"

definition AUTHOR_ONLY_KINDS :: "nat list" where
  "AUTHOR_ONLY_KINDS = [
     KIND_EVENT_REMINDER, KIND_PUSH_LEASE]"

definition RESULT_GATED_KINDS :: "nat list" where
  "RESULT_GATED_KINDS = [
     KIND_DM_VISIBILITY, KIND_AGENT_TURN_METRIC]"

definition P_GATED_KINDS :: "nat list" where
  "P_GATED_KINDS = [
     KIND_AGENT_OBSERVER_FRAME, KIND_MEMBER_ADDED_NOTIFICATION,
     KIND_MEMBER_REMOVED_NOTIFICATION, KIND_GIFT_WRAP, KIND_DM_VISIBILITY,
     KIND_AGENT_TURN_METRIC]"

definition ALL_KINDS :: "nat list" where
  "ALL_KINDS = [
     KIND_PROFILE, KIND_TEXT_NOTE, KIND_CONTACT_LIST, KIND_MUTE_LIST, KIND_PIN_LIST,
     KIND_NIP65_RELAY_LIST_METADATA, KIND_BOOKMARK_LIST, KIND_EMOJI_LIST, KIND_FOLLOW_SET,
     KIND_BOOKMARK_SET, KIND_EMOJI_SET, KIND_CHANNEL_METADATA, KIND_DELETION, KIND_REACTION,
     KIND_GIFT_WRAP, KIND_FILE_METADATA, KIND_AGENT_PROFILE, KIND_AGENT_ENGRAM,
     KIND_EVENT_REMINDER, KIND_PERSONA, KIND_TEAM, KIND_MANAGED_AGENT, KIND_REPORT,
     KIND_PRODUCT_FEEDBACK, KIND_NIP29_PUT_USER, KIND_NIP29_REMOVE_USER,
     KIND_NIP29_EDIT_METADATA, KIND_NIP29_DELETE_EVENT, KIND_NIP29_CREATE_GROUP,
     KIND_NIP29_DELETE_GROUP, KIND_NIP29_CREATE_INVITE, KIND_NIP29_JOIN_REQUEST,
     KIND_NIP29_LEAVE_REQUEST, KIND_MODERATION_BAN, KIND_MODERATION_UNBAN,
     KIND_MODERATION_TIMEOUT, KIND_MODERATION_UNTIMEOUT, KIND_MODERATION_RESOLVE_REPORT,
     RELAY_ADMIN_ADD_MEMBER, RELAY_ADMIN_REMOVE_MEMBER, RELAY_ADMIN_CHANGE_ROLE,
     RELAY_ADMIN_SET_WORKSPACE_PROFILE, KIND_NIP43_MEMBERSHIP_LIST, KIND_NIP43_MEMBER_ADDED,
     KIND_NIP43_MEMBER_REMOVED, KIND_NIP43_LEAVE_REQUEST, KIND_IA_ARCHIVE_REQUEST,
     KIND_IA_UNARCHIVE_REQUEST, KIND_IA_ARCHIVED, KIND_IA_UNARCHIVED, KIND_IA_ARCHIVED_LIST,
     KIND_NIP29_GROUP_METADATA, KIND_NIP29_GROUP_ADMINS, KIND_NIP29_GROUP_MEMBERS,
     KIND_NIP29_GROUP_ROLES, KIND_THREAD_SUMMARY, KIND_WINDOW_BOUNDS, KIND_PRESENCE_UPDATE,
     KIND_TYPING_INDICATOR, KIND_HUDDLE_REACTION, KIND_BLOSSOM_AUTH, KIND_PAIRING,
     KIND_AGENT_OBSERVER_FRAME, KIND_HTTP_AUTH, KIND_STREAM_MESSAGE, KIND_STREAM_MESSAGE_V2,
     KIND_STREAM_MESSAGE_EDIT, KIND_STREAM_MESSAGE_PINNED, KIND_STREAM_MESSAGE_BOOKMARKED,
     KIND_STREAM_MESSAGE_SCHEDULED, KIND_STREAM_REMINDER, KIND_STREAM_MESSAGE_DIFF,
     KIND_CANVAS, KIND_SYSTEM_MESSAGE, KIND_CHANNEL_SUMMARY, KIND_PRESENCE_SNAPSHOT,
     KIND_DM_VISIBILITY, KIND_DM_OPEN, KIND_DM_ADD_MEMBER, KIND_DM_HIDE, KIND_DM_CREATED,
     KIND_JOB_REQUEST, KIND_JOB_ACCEPTED, KIND_JOB_PROGRESS, KIND_JOB_RESULT, KIND_JOB_CANCEL,
     KIND_JOB_ERROR, KIND_MEMBER_ADDED_NOTIFICATION, KIND_MEMBER_REMOVED_NOTIFICATION,
     KIND_AGENT_TURN_METRIC, KIND_WORKFLOW_DEF, KIND_LONG_FORM, KIND_USER_STATUS,
     KIND_READ_STATE, KIND_FORUM_POST, KIND_FORUM_VOTE, KIND_FORUM_COMMENT,
     KIND_WORKFLOW_TRIGGER, KIND_APPROVAL_GRANT, KIND_APPROVAL_DENY, KIND_WORKFLOW_TRIGGERED,
     KIND_WORKFLOW_STEP_STARTED, KIND_WORKFLOW_STEP_COMPLETED, KIND_WORKFLOW_STEP_FAILED,
     KIND_WORKFLOW_COMPLETED, KIND_WORKFLOW_FAILED, KIND_WORKFLOW_CANCELLED,
     KIND_WORKFLOW_APPROVAL_REQUESTED, KIND_WORKFLOW_APPROVAL_GRANTED,
     KIND_WORKFLOW_APPROVAL_DENIED, KIND_AUDIT_ENTRY, KIND_HUDDLE_STARTED,
     KIND_HUDDLE_PARTICIPANT_JOINED, KIND_HUDDLE_PARTICIPANT_LEFT, KIND_HUDDLE_ENDED,
     KIND_HUDDLE_GUIDELINES, KIND_MEDIA_UPLOAD, KIND_GIT_REPO_ANNOUNCEMENT,
     KIND_GIT_REPO_STATE, KIND_GIT_PATCH, KIND_GIT_PULL_REQUEST, KIND_GIT_PR_UPDATE,
     KIND_GIT_ISSUE, KIND_GIT_STATUS_OPEN, KIND_GIT_STATUS_MERGED, KIND_GIT_STATUS_CLOSED,
     KIND_GIT_STATUS_DRAFT]"

subsection \<open>Routing predicates\<close>

definition is_ephemeral :: "nat \<Rightarrow> bool" where
  "is_ephemeral kind \<longleftrightarrow> kind \<ge> EPHEMERAL_KIND_MIN \<and> kind \<le> EPHEMERAL_KIND_MAX"

definition is_replaceable :: "nat \<Rightarrow> bool" where
  "is_replaceable kind \<longleftrightarrow>
     kind = 0 \<or> kind = 3 \<or> kind = KIND_CHANNEL_METADATA \<or> (10000 \<le> kind \<and> kind \<le> 19999)"

definition is_parameterized_replaceable :: "nat \<Rightarrow> bool" where
  "is_parameterized_replaceable kind \<longleftrightarrow>
     kind \<ge> PARAM_REPLACEABLE_KIND_MIN \<and> kind \<le> PARAM_REPLACEABLE_KIND_MAX"

definition is_workflow_execution_kind :: "nat \<Rightarrow> bool" where
  "is_workflow_execution_kind kind \<longleftrightarrow>
     kind \<ge> KIND_WORKFLOW_TRIGGERED \<and> kind \<le> KIND_WORKFLOW_APPROVAL_DENIED"

definition is_moderation_command_kind :: "nat \<Rightarrow> bool" where
  "is_moderation_command_kind kind \<longleftrightarrow>
     kind \<in> set [KIND_MODERATION_BAN, KIND_MODERATION_UNBAN, KIND_MODERATION_TIMEOUT,
       KIND_MODERATION_UNTIMEOUT, KIND_MODERATION_RESOLVE_REPORT]"

definition is_relay_admin_kind :: "nat \<Rightarrow> bool" where
  "is_relay_admin_kind kind \<longleftrightarrow>
     kind \<in> set [RELAY_ADMIN_ADD_MEMBER, RELAY_ADMIN_REMOVE_MEMBER, RELAY_ADMIN_CHANGE_ROLE,
       RELAY_ADMIN_SET_WORKSPACE_PROFILE]"

definition is_identity_archive_request_kind :: "nat \<Rightarrow> bool" where
  "is_identity_archive_request_kind kind \<longleftrightarrow>
     kind \<in> set [KIND_IA_ARCHIVE_REQUEST, KIND_IA_UNARCHIVE_REQUEST]"

definition is_command_kind :: "nat \<Rightarrow> bool" where
  "is_command_kind kind \<longleftrightarrow>
     kind \<in> set [KIND_WORKFLOW_DEF, KIND_DM_OPEN, KIND_DM_ADD_MEMBER, KIND_DM_HIDE,
       KIND_WORKFLOW_TRIGGER, KIND_APPROVAL_GRANT, KIND_APPROVAL_DENY]"

definition is_relay_only_kind :: "nat \<Rightarrow> bool" where
  "is_relay_only_kind kind \<longleftrightarrow>
     kind \<in> set [KIND_NIP43_MEMBERSHIP_LIST, KIND_CHANNEL_SUMMARY, KIND_PRESENCE_SNAPSHOT,
       KIND_DM_VISIBILITY, KIND_THREAD_SUMMARY, KIND_WINDOW_BOUNDS]"

definition event_kind_u32 :: "nostr_event \<Rightarrow> nat" where
  "event_kind_u32 ev = ev_kind ev"

lemmas kind_predicates = is_ephemeral_def is_replaceable_def is_parameterized_replaceable_def
  is_workflow_execution_kind_def is_moderation_command_kind_def is_relay_admin_kind_def
  is_identity_archive_request_kind_def is_command_kind_def is_relay_only_kind_def

subsection \<open>Read gates\<close>

definition is_persona_shared_kind :: "nat \<Rightarrow> bool" where
  "is_persona_shared_kind kind \<longleftrightarrow> kind = KIND_PERSONA"

text \<open>The loop of \<open>persona_event_is_shared\<close>, with its counter and its early returns.\<close>

fun shared_tag_loop :: "nat \<Rightarrow> nostr_tag list \<Rightarrow> bool" where
  "shared_tag_loop count [] \<longleftrightarrow> count = 1"
| "shared_tag_loop count (t # ts) \<longleftrightarrow>
     (case tag_slice t of
        [] \<Rightarrow> shared_tag_loop count ts
      | name # rest \<Rightarrow>
          if name \<noteq> ''shared'' then shared_tag_loop count ts
          else (case rest of
                  [v] \<Rightarrow> if v \<noteq> ''true'' then False else shared_tag_loop (count + 1) ts
                | _ \<Rightarrow> False))"

definition persona_event_is_shared :: "nostr_event \<Rightarrow> bool" where
  "persona_event_is_shared ev = shared_tag_loop 0 (ev_tags ev)"

definition is_unshared_persona_event :: "nostr_event \<Rightarrow> string \<Rightarrow> bool" where
  "is_unshared_persona_event ev requester =
     (if \<not> is_persona_shared_kind (event_kind_u32 ev) then False
      else if ev_pubkey ev = requester then False
      else \<not> persona_event_is_shared ev)"

definition reader_authorized_for_event :: "nostr_event \<Rightarrow> string \<Rightarrow> bool" where
  "reader_authorized_for_event ev reader =
     (if event_kind_u32 ev \<noteq> KIND_DM_VISIBILITY \<and> event_kind_u32 ev \<noteq> KIND_AGENT_TURN_METRIC
      then True
      else list_ex (\<lambda>t. tag_kind t = ''p'' \<and> tag_content t = Some reader) (ev_tags ev))"

subsection \<open>Properties of the registry\<close>

text \<open>
  The registry's numbers are pairwise different and every one of them fits the 16-bit
  kind of the wire format, so no two registered kinds are confused and no conversion to
  \<open>u16\<close> truncates.
\<close>

theorem all_kinds_distinct_u16:
  "distinct ALL_KINDS \<and> list_all (\<lambda>k. k < 2 ^ 16) ALL_KINDS"
  unfolding ALL_KINDS_def by (simp add: kind_defs)

text \<open>
  Storage classes are exclusive: no kind number at all is in two of the classes
  ephemeral, replaceable and parameterized-replaceable, so the relay never has two
  replacement keys for one event.
\<close>

theorem storage_classes_exclusive:
  "\<not> (is_ephemeral k \<and> is_replaceable k) \<and>
   \<not> (is_ephemeral k \<and> is_parameterized_replaceable k) \<and>
   \<not> (is_replaceable k \<and> is_parameterized_replaceable k)"
  by (auto simp: kind_predicates kind_defs)

lemma result_gated_are_p_gated: "set RESULT_GATED_KINDS \<subseteq> set P_GATED_KINDS"
  by (simp add: RESULT_GATED_KINDS_def P_GATED_KINDS_def)

lemma reader_gate_kinds:
  "event_kind_u32 ev \<notin> set RESULT_GATED_KINDS \<longleftrightarrow>
     event_kind_u32 ev \<noteq> KIND_DM_VISIBILITY \<and> event_kind_u32 ev \<noteq> KIND_AGENT_TURN_METRIC"
  by (simp add: RESULT_GATED_KINDS_def)

lemma shared_tag_loop_iff:
  "shared_tag_loop n ts \<longleftrightarrow>
     n + length (filter (\<lambda>t. tag_slice t = [''shared'', ''true'']) ts) = 1 \<and>
     (\<forall>t\<in>set ts. tag_slice t \<noteq> [] \<and> hd (tag_slice t) = ''shared'' \<longrightarrow>
        tag_slice t = [''shared'', ''true''])"
proof (induction ts arbitrary: n)
  case Nil
  then show ?case by simp
next
  case (Cons t ts)
  show ?case
  proof (cases "tag_slice t = [] \<or> hd (tag_slice t) \<noteq> ''shared''")
    case True
    then have "tag_slice t \<noteq> [''shared'', ''true'']" by auto
    with True Cons.IH [of n] show ?thesis by (auto simp: list.case_eq_if)
  next
    case False
    then obtain rest where "tag_slice t = ''shared'' # rest" by (metis list.collapse)
    with Cons.IH [of "Suc n"] show ?thesis by (cases rest) (auto simp: list.case_eq_if)
  qed
qed

text \<open>
  The persona gate withholds exactly what it should: an event is kept from a requester
  if and only if it is a persona, the requester is not its author, and it is not true that
  it has exactly one tag named \<open>shared\<close> and that tag is \<open>[shared, true]\<close>.
\<close>

theorem persona_gate_iff:
  "is_unshared_persona_event ev requester \<longleftrightarrow>
     ev_kind ev = KIND_PERSONA \<and> requester \<noteq> ev_pubkey ev \<and>
     filter (\<lambda>t. tag_slice t \<noteq> [] \<and> hd (tag_slice t) = ''shared'') (ev_tags ev) \<notin>
       {[t] |t. tag_slice t = [''shared'', ''true'']}"
proof -
  let ?named = "\<lambda>t. tag_slice t \<noteq> [] \<and> hd (tag_slice t) = ''shared''"
  let ?exact = "\<lambda>t. tag_slice t = [''shared'', ''true'']"
  have "persona_event_is_shared ev \<longleftrightarrow> (\<exists>t. filter ?named (ev_tags ev) = [t] \<and> ?exact t)" (is "?L = ?R")
  proof
    assume L: ?L
    then have all: "\<forall>t\<in>set (ev_tags ev). ?named t \<longrightarrow> ?exact t"
      and one: "length (filter ?exact (ev_tags ev)) = 1"
      by (auto simp: persona_event_is_shared_def shared_tag_loop_iff)
    from all have "filter ?named (ev_tags ev) = filter ?exact (ev_tags ev)"
      by (intro filter_cong) auto
    with one obtain t where t: "filter ?named (ev_tags ev) = [t]"
      using length_one_conv [of "filter ?named (ev_tags ev)"] by auto
    have "t \<in> set (filter ?named (ev_tags ev))" unfolding t by simp
    then have "t \<in> set (ev_tags ev)" and "?named t" by auto
    with all t show ?R by blast
  next
    assume ?R
    then obtain t where t: "filter ?named (ev_tags ev) = [t]" and ex: "?exact t" by blast
    have all: "\<forall>u\<in>set (ev_tags ev). ?named u \<longrightarrow> ?exact u"
    proof (intro ballI impI)
      fix u assume "u \<in> set (ev_tags ev)" and "?named u"
      then have "u \<in> set (filter ?named (ev_tags ev))" by simp
      with ex show "?exact u" unfolding t by simp
    qed
    then have "filter ?exact (ev_tags ev) = filter ?named (ev_tags ev)"
      by (intro filter_cong) auto
    with t all show ?L by (simp add: persona_event_is_shared_def shared_tag_loop_iff)
  qed
  then show ?thesis
    by (auto simp: is_unshared_persona_event_def is_persona_shared_kind_def event_kind_u32_def)
qed

end
