(* ===== verification/Subscriptions.thy ===== *)
theory Subscriptions
  imports Events
begin

text \<open>
  The subscription registry of \<open>buzz-relay/src/subscription.rs\<close>: the table of the
  subscriptions of every connection and the five indexes the fan-out of an event reads. The
  abstract view is the table alone (\<open>sub_at\<close>); the theorems say that the indexes are an exact
  cache of it, so the indexed fan-out finds what a scan of the whole table would.
\<close>

type_synonym conn_id = uuid
type_synonym sub_id = string
type_synonym community_id = uuid

type_synonym sub_entry = "nostr_filter list \<times> community_id \<times> uuid option"
type_synonym sub_ref = "conn_id \<times> sub_id"

record index_key =
  ik_channel_id :: uuid
  ik_kind :: nat

record global_p_kind_index_key =
  gp_community_id :: community_id
  gp_kind :: nat
  gp_p :: string

record removed_subscription =
  rs_community_id :: community_id
  rs_channel_id :: "uuid option"

record registry =
  subs :: "(conn_id, (sub_id, sub_entry) hmap) hmap"
  channel_kind_index :: "(community_id \<times> index_key, sub_ref) buckets"
  channel_wildcard_index :: "(community_id \<times> uuid, sub_ref) buckets"
  global_kind_index :: "(community_id \<times> nat, sub_ref) buckets"
  global_p_kind_index :: "(global_p_kind_index_key, sub_ref) buckets"
  global_wildcard_index :: "(community_id, sub_ref) buckets"

definition registry_new :: registry where
  "registry_new = \<lparr>subs = [], channel_kind_index = [], channel_wildcard_index = [],
     global_kind_index = [], global_p_kind_index = [], global_wildcard_index = []\<rparr>"

subsection \<open>Index keys of a subscription\<close>

fun extract_kinds_loop :: "nat list \<Rightarrow> nostr_filter list \<Rightarrow> nat list option" where
  "extract_kinds_loop kinds [] = Some kinds"
| "extract_kinds_loop kinds (f # fs) =
     (case f_kinds f of
        Some filter_kinds \<Rightarrow> extract_kinds_loop (push_unseen kinds filter_kinds) fs
      | None \<Rightarrow> None)"

definition extract_kinds_from_filters :: "nostr_filter list \<Rightarrow> nat list option" where
  "extract_kinds_from_filters fs = extract_kinds_loop [] fs"

fun extract_global_p_loop ::
  "community_id \<Rightarrow> global_p_kind_index_key list \<Rightarrow> nostr_filter list
     \<Rightarrow> global_p_kind_index_key list option" where
  "extract_global_p_loop c keys [] = Some keys"
| "extract_global_p_loop c keys (f # fs) =
     (case f_kinds f of
        None \<Rightarrow> None
      | Some kinds \<Rightarrow>
          if kinds = [] then extract_global_p_loop c keys fs
          else (case hget (f_generic_tags f) ''p'' of
                  None \<Rightarrow> None
                | Some p_values \<Rightarrow>
                    if p_values = [] then None
                    else extract_global_p_loop c
                           (push_unseen keys
                              (concat (map (\<lambda>k. map (\<lambda>p.
                                 \<lparr>gp_community_id = c, gp_kind = k, gp_p = p\<rparr>) p_values) kinds)))
                           fs))"

definition extract_global_p_kind_index_keys ::
  "community_id \<Rightarrow> nostr_filter list \<Rightarrow> global_p_kind_index_key list option" where
  "extract_global_p_kind_index_keys c fs = extract_global_p_loop c [] fs"

fun event_p_loop :: "string list \<Rightarrow> nostr_tag list \<Rightarrow> string list" where
  "event_p_loop values [] = values"
| "event_p_loop values (t # ts) =
     (if tag_kind t \<noteq> ''p'' then event_p_loop values ts
      else (case tag_content t of
              Some v \<Rightarrow> event_p_loop (push_new v values) ts
            | None \<Rightarrow> event_p_loop values ts))"

definition event_p_tag_values :: "StoredEvent \<Rightarrow> string list" where
  "event_p_tag_values ev = event_p_loop [] (ev_tags (se_event ev))"

subsection \<open>Operations\<close>

definition remove_from_index ::
  "conn_id \<Rightarrow> sub_id \<Rightarrow> nostr_filter list \<Rightarrow> community_id \<Rightarrow> uuid option \<Rightarrow> registry \<Rightarrow> registry" where
  "remove_from_index conn sub fs comm chan r =
     (case chan of
        Some ch \<Rightarrow>
          (case extract_kinds_from_filters fs of
             None \<Rightarrow> r\<lparr>channel_wildcard_index :=
                 bucket_retain (conn, sub) (comm, ch) (channel_wildcard_index r)\<rparr>
           | Some kinds \<Rightarrow>
               if kinds = [] then r
               else r\<lparr>channel_kind_index :=
                 fold (bucket_retain (conn, sub))
                   (map (\<lambda>k. (comm, \<lparr>ik_channel_id = ch, ik_kind = k\<rparr>)) kinds)
                   (channel_kind_index r)\<rparr>)
      | None \<Rightarrow>
          (case extract_global_p_kind_index_keys comm fs of
             Some keys \<Rightarrow> r\<lparr>global_p_kind_index :=
                 fold (bucket_retain (conn, sub)) keys (global_p_kind_index r)\<rparr>
           | None \<Rightarrow>
               (case extract_kinds_from_filters fs of
                  None \<Rightarrow> r\<lparr>global_wildcard_index :=
                      bucket_retain (conn, sub) comm (global_wildcard_index r)\<rparr>
                | Some kinds \<Rightarrow>
                    if kinds = [] then r
                    else r\<lparr>global_kind_index :=
                      fold (bucket_retain (conn, sub)) (map (\<lambda>k. (comm, k)) kinds)
                        (global_kind_index r)\<rparr>)))"

definition remove_subscription ::
  "conn_id \<Rightarrow> sub_id \<Rightarrow> registry \<Rightarrow> removed_subscription option \<times> registry" where
  "remove_subscription conn sub r =
     (case hget (subs r) conn of
        None \<Rightarrow> (None, r)
      | Some conn_subs \<Rightarrow>
          (case hget conn_subs sub of
             None \<Rightarrow> (None, r)
           | Some (fs, comm, chan) \<Rightarrow>
               (Some \<lparr>rs_community_id = comm, rs_channel_id = chan\<rparr>,
                remove_from_index conn sub fs comm chan
                  (r\<lparr>subs := hput conn (hdel sub conn_subs) (subs r)\<rparr>))))"

text \<open>The second half of \<open>register_scoped\<close>: entering a stored subscription into the indexes.\<close>

definition add_to_index ::
  "conn_id \<Rightarrow> sub_id \<Rightarrow> nostr_filter list \<Rightarrow> community_id \<Rightarrow> uuid option \<Rightarrow> registry \<Rightarrow> registry" where
  "add_to_index conn sub fs comm chan r =
     (case chan of
        Some ch \<Rightarrow>
          (case extract_kinds_from_filters fs of
             None \<Rightarrow> r\<lparr>channel_wildcard_index :=
                 bucket_push (conn, sub) (comm, ch) (channel_wildcard_index r)\<rparr>
           | Some kinds \<Rightarrow>
               if kinds = [] then r
               else r\<lparr>channel_kind_index :=
                 fold (bucket_push (conn, sub))
                   (map (\<lambda>k. (comm, \<lparr>ik_channel_id = ch, ik_kind = k\<rparr>)) kinds)
                   (channel_kind_index r)\<rparr>)
      | None \<Rightarrow>
          (case extract_global_p_kind_index_keys comm fs of
             Some keys \<Rightarrow> r\<lparr>global_p_kind_index :=
                 fold (bucket_push (conn, sub)) keys (global_p_kind_index r)\<rparr>
           | None \<Rightarrow>
               (case extract_kinds_from_filters fs of
                  None \<Rightarrow> r\<lparr>global_wildcard_index :=
                      bucket_push (conn, sub) comm (global_wildcard_index r)\<rparr>
                | Some kinds \<Rightarrow>
                    if kinds = [] then r
                    else r\<lparr>global_kind_index :=
                      fold (bucket_push (conn, sub)) (map (\<lambda>k. (comm, k)) kinds)
                        (global_kind_index r)\<rparr>)))"

definition register_scoped ::
  "community_id \<Rightarrow> conn_id \<Rightarrow> sub_id \<Rightarrow> nostr_filter list \<Rightarrow> uuid option \<Rightarrow> registry
     \<Rightarrow> removed_subscription option \<times> registry" where
  "register_scoped comm conn sub fs chan r =
     (let (removed, r1) = remove_subscription conn sub r;
          conn_subs = (case hget (subs r1) conn of None \<Rightarrow> [] | Some m \<Rightarrow> m);
          r2 = r1\<lparr>subs := hput conn (hput sub (fs, comm, chan) conn_subs) (subs r1)\<rparr>
      in (removed, add_to_index conn sub fs comm chan r2))"

text \<open>\<open>remove_connection\<close>: the entry leaves the table first, then each subscription its index.\<close>

fun remove_conn_loop ::
  "conn_id \<Rightarrow> (sub_id, sub_entry) hmap \<Rightarrow> registry \<Rightarrow> removed_subscription list \<times> registry" where
  "remove_conn_loop conn [] r = ([], r)"
| "remove_conn_loop conn ((sub, (fs, comm, chan)) # rest) r =
     (let (removed, r') = remove_conn_loop conn rest (remove_from_index conn sub fs comm chan r)
      in (\<lparr>rs_community_id = comm, rs_channel_id = chan\<rparr> # removed, r'))"

definition remove_connection :: "conn_id \<Rightarrow> registry \<Rightarrow> removed_subscription list \<times> registry" where
  "remove_connection conn r =
     (case hget (subs r) conn of
        None \<Rightarrow> ([], r)
      | Some conn_subs \<Rightarrow> remove_conn_loop conn conn_subs (r\<lparr>subs := hdel conn (subs r)\<rparr>))"

fun remove_subs_loop ::
  "conn_id \<Rightarrow> sub_id list \<Rightarrow> registry \<Rightarrow> (sub_id \<times> removed_subscription) list \<times> registry" where
  "remove_subs_loop conn [] r = ([], r)"
| "remove_subs_loop conn (s # ss) r =
     (let (removed, r1) = remove_subscription conn s r;
          (out, r2) = remove_subs_loop conn ss r1
      in ((case removed of Some x \<Rightarrow> (s, x) # out | None \<Rightarrow> out), r2))"

definition remove_channel_subscriptions_scoped ::
  "community_id \<Rightarrow> conn_id \<Rightarrow> uuid \<Rightarrow> registry
     \<Rightarrow> (sub_id \<times> removed_subscription) list \<times> registry" where
  "remove_channel_subscriptions_scoped comm conn ch r =
     (let sub_ids = (case hget (subs r) conn of
            None \<Rightarrow> []
          | Some conn_subs \<Rightarrow>
              map fst (filter (\<lambda>(sub, (fs, c, chan)). c = comm \<and> chan = Some ch) conn_subs))
      in remove_subs_loop conn sub_ids r)"

definition channel_subscriber_conns_scoped ::
  "community_id \<Rightarrow> uuid \<Rightarrow> registry \<Rightarrow> conn_id list" where
  "channel_subscriber_conns_scoped comm ch r =
     push_unseen
       (push_unseen []
          (concat (map (\<lambda>((c, key), entries). map fst entries)
             (filter (\<lambda>((c, key), entries). c = comm \<and> ik_channel_id key = ch)
                (channel_kind_index r)))))
       (map fst (bucket (channel_wildcard_index r) (comm, ch)))"

definition push_match :: "registry \<Rightarrow> StoredEvent \<Rightarrow> sub_ref \<Rightarrow> sub_ref list \<Rightarrow> sub_ref list" where
  "push_match r ev ref results =
     (case hget (subs r) (fst ref) of
        None \<Rightarrow> results
      | Some conn_subs \<Rightarrow>
          (case hget conn_subs (snd ref) of
             None \<Rightarrow> results
           | Some (fs, comm, chan) \<Rightarrow>
               if filters_match fs ev then push_new ref results else results))"

definition fan_out_scoped :: "community_id \<Rightarrow> StoredEvent \<Rightarrow> registry \<Rightarrow> sub_ref list" where
  "fan_out_scoped comm ev r =
     (case se_channel_id ev of
        Some ch \<Rightarrow>
          (let key = \<lparr>ik_channel_id = ch, ik_kind = ev_kind (se_event ev)\<rparr>;
               results = fold (push_match r ev) (bucket (channel_kind_index r) (comm, key)) []
           in fold (push_match r ev) (bucket (channel_wildcard_index r) (comm, ch)) results)
      | None \<Rightarrow>
          (let by_p = fold (\<lambda>p. fold (push_match r ev)
                 (bucket (global_p_kind_index r)
                    \<lparr>gp_community_id = comm, gp_kind = ev_kind (se_event ev), gp_p = p\<rparr>))
                 (event_p_tag_values ev) [];
               by_kind = fold (push_match r ev)
                 (bucket (global_kind_index r) (comm, ev_kind (se_event ev))) by_p
           in fold (push_match r ev) (bucket (global_wildcard_index r) comm) by_kind))"

definition get_filters :: "conn_id \<Rightarrow> sub_id \<Rightarrow> registry \<Rightarrow> nostr_filter list option" where
  "get_filters conn sub r =
     (case hget (subs r) conn of
        None \<Rightarrow> None
      | Some conn_subs \<Rightarrow> map_option fst (hget conn_subs sub))"

definition total_subscriptions :: "registry \<Rightarrow> nat" where
  "total_subscriptions r = sum_list (map (\<lambda>(c, conn_subs). length conn_subs) (subs r))"

definition total_connections :: "registry \<Rightarrow> nat" where
  "total_connections r = length (subs r)"

definition bump_count :: "community_id \<Rightarrow> (community_id, nat) hmap \<Rightarrow> (community_id, nat) hmap" where
  "bump_count c m = hput c ((case hget m c of None \<Rightarrow> 0 | Some n \<Rightarrow> n) + 1) m"

definition per_community_subscriptions :: "registry \<Rightarrow> (community_id, nat) hmap" where
  "per_community_subscriptions r =
     fold (\<lambda>(c, conn_subs). fold (\<lambda>(sub, (fs, comm, chan)). bump_count comm) conn_subs) (subs r) []"

subsection \<open>The table and the keys an entry is indexed under\<close>

definition sub_at :: "registry \<Rightarrow> sub_ref \<Rightarrow> sub_entry option" where
  "sub_at r ref =
     (case hget (subs r) (fst ref) of None \<Rightarrow> None | Some conn_subs \<Rightarrow> hget conn_subs (snd ref))"

definition ck_keys :: "sub_entry \<Rightarrow> (community_id \<times> index_key) list" where
  "ck_keys e = (case e of (fs, comm, chan) \<Rightarrow>
     (case (chan, extract_kinds_from_filters fs) of
        (Some ch, Some kinds) \<Rightarrow> map (\<lambda>k. (comm, \<lparr>ik_channel_id = ch, ik_kind = k\<rparr>)) kinds
      | _ \<Rightarrow> []))"

definition cw_keys :: "sub_entry \<Rightarrow> (community_id \<times> uuid) list" where
  "cw_keys e = (case e of (fs, comm, chan) \<Rightarrow>
     (case (chan, extract_kinds_from_filters fs) of (Some ch, None) \<Rightarrow> [(comm, ch)] | _ \<Rightarrow> []))"

definition gp_keys :: "sub_entry \<Rightarrow> global_p_kind_index_key list" where
  "gp_keys e = (case e of (fs, comm, chan) \<Rightarrow>
     (case (chan, extract_global_p_kind_index_keys comm fs) of
        (None, Some keys) \<Rightarrow> keys | _ \<Rightarrow> []))"

definition gk_keys :: "sub_entry \<Rightarrow> (community_id \<times> nat) list" where
  "gk_keys e = (case e of (fs, comm, chan) \<Rightarrow>
     (case (chan, extract_global_p_kind_index_keys comm fs, extract_kinds_from_filters fs) of
        (None, None, Some kinds) \<Rightarrow> map (\<lambda>k. (comm, k)) kinds | _ \<Rightarrow> []))"

definition gw_keys :: "sub_entry \<Rightarrow> community_id list" where
  "gw_keys e = (case e of (fs, comm, chan) \<Rightarrow>
     (case (chan, extract_global_p_kind_index_keys comm fs, extract_kinds_from_filters fs) of
        (None, None, None) \<Rightarrow> [comm] | _ \<Rightarrow> []))"

lemmas key_defs = ck_keys_def cw_keys_def gp_keys_def gk_keys_def gw_keys_def

text \<open>The five indexes are an exact cache of a table of subscriptions.\<close>

definition indexes_exact :: "(sub_ref \<Rightarrow> sub_entry option) \<Rightarrow> registry \<Rightarrow> bool" where
  "indexes_exact tab r \<longleftrightarrow>
     bkt.exact (\<lambda>k e. k \<in> set (ck_keys e)) tab (channel_kind_index r) \<and>
     bkt.exact (\<lambda>k e. k \<in> set (cw_keys e)) tab (channel_wildcard_index r) \<and>
     bkt.exact (\<lambda>k e. k \<in> set (gk_keys e)) tab (global_kind_index r) \<and>
     bkt.exact (\<lambda>k e. k \<in> set (gp_keys e)) tab (global_p_kind_index r) \<and>
     bkt.exact (\<lambda>k e. k \<in> set (gw_keys e)) tab (global_wildcard_index r)"

definition indexes_tidy :: "registry \<Rightarrow> bool" where
  "indexes_tidy r \<longleftrightarrow>
     no_empty_bucket (channel_kind_index r) \<and> no_empty_bucket (channel_wildcard_index r) \<and>
     no_empty_bucket (global_kind_index r) \<and> no_empty_bucket (global_p_kind_index r) \<and>
     no_empty_bucket (global_wildcard_index r)"

definition index_keys_distinct :: "registry \<Rightarrow> bool" where
  "index_keys_distinct r \<longleftrightarrow> distinct (hkeys (channel_kind_index r))"

definition table_ok :: "registry \<Rightarrow> bool" where
  "table_ok r \<longleftrightarrow>
     distinct (hkeys (subs r)) \<and> (\<forall>(c, m)\<in>set (subs r). distinct (hkeys m))"

definition registry_inv :: "registry \<Rightarrow> bool" where
  "registry_inv r \<longleftrightarrow>
     table_ok r \<and> indexes_exact (sub_at r) r \<and> indexes_tidy r \<and> index_keys_distinct r"

lemma add_to_index_eq:
  "add_to_index conn sub fs comm chan r =
     r\<lparr>channel_kind_index :=
         fold (bucket_push (conn, sub)) (ck_keys (fs, comm, chan)) (channel_kind_index r),
       channel_wildcard_index :=
         fold (bucket_push (conn, sub)) (cw_keys (fs, comm, chan)) (channel_wildcard_index r),
       global_kind_index :=
         fold (bucket_push (conn, sub)) (gk_keys (fs, comm, chan)) (global_kind_index r),
       global_p_kind_index :=
         fold (bucket_push (conn, sub)) (gp_keys (fs, comm, chan)) (global_p_kind_index r),
       global_wildcard_index :=
         fold (bucket_push (conn, sub)) (gw_keys (fs, comm, chan)) (global_wildcard_index r)\<rparr>"
  by (cases r) (simp add: add_to_index_def key_defs split: option.split)

lemma remove_from_index_eq:
  "remove_from_index conn sub fs comm chan r =
     r\<lparr>channel_kind_index :=
         fold (bucket_retain (conn, sub)) (ck_keys (fs, comm, chan)) (channel_kind_index r),
       channel_wildcard_index :=
         fold (bucket_retain (conn, sub)) (cw_keys (fs, comm, chan)) (channel_wildcard_index r),
       global_kind_index :=
         fold (bucket_retain (conn, sub)) (gk_keys (fs, comm, chan)) (global_kind_index r),
       global_p_kind_index :=
         fold (bucket_retain (conn, sub)) (gp_keys (fs, comm, chan)) (global_p_kind_index r),
       global_wildcard_index :=
         fold (bucket_retain (conn, sub)) (gw_keys (fs, comm, chan)) (global_wildcard_index r)\<rparr>"
  by (cases r) (simp add: remove_from_index_def key_defs split: option.split)

lemma subs_index_ops [simp]:
  "subs (add_to_index conn sub fs comm chan r) = subs r"
  "subs (remove_from_index conn sub fs comm chan r) = subs r"
  by (simp_all add: add_to_index_eq remove_from_index_eq)

lemma sub_at_index_ops [simp]:
  "sub_at (add_to_index conn sub fs comm chan r) = sub_at r"
  "sub_at (remove_from_index conn sub fs comm chan r) = sub_at r"
  by (simp_all add: sub_at_def fun_eq_iff)

lemma indexes_exact_add:
  assumes "indexes_exact tab r" and "tab (conn, sub) = None"
  shows "indexes_exact (tab((conn, sub) \<mapsto> (fs, comm, chan))) (add_to_index conn sub fs comm chan r)"
  using assms unfolding indexes_exact_def add_to_index_eq
  by (simp add: bkt.exact_insert)

lemma indexes_exact_remove:
  assumes "indexes_exact tab r" and "tab (conn, sub) = Some (fs, comm, chan)"
  shows "indexes_exact (tab((conn, sub) := None)) (remove_from_index conn sub fs comm chan r)"
  using assms unfolding indexes_exact_def remove_from_index_eq
  by (simp add: bkt.exact_remove)

lemma indexes_tidy_ops [inv_intros]:
  "indexes_tidy r \<Longrightarrow> indexes_tidy (add_to_index conn sub fs comm chan r)"
  "indexes_tidy r \<Longrightarrow> indexes_tidy (remove_from_index conn sub fs comm chan r)"
  unfolding indexes_tidy_def add_to_index_eq remove_from_index_eq
  by (simp_all add: bkt.tidy_fold_add bkt.tidy_fold_take_out)

lemma distinct_fold_push:
  "distinct (hkeys m) \<Longrightarrow> distinct (hkeys (fold (bucket_push v) ks m))"
  by (induction ks arbitrary: m) (auto simp: bucket_push_def distinct_update)

lemma distinct_bucket_retain: "distinct (hkeys m) \<Longrightarrow> distinct (hkeys (bucket_retain v k m))"
  by (auto simp: bucket_retain_def Let_def distinct_update distinct_delete split: option.split)

lemma distinct_fold_retain:
  "distinct (hkeys m) \<Longrightarrow> distinct (hkeys (fold (bucket_retain v) ks m))"
  by (induction ks arbitrary: m) (auto simp: distinct_bucket_retain)

lemma index_keys_distinct_ops [inv_intros]:
  "index_keys_distinct r \<Longrightarrow> index_keys_distinct (add_to_index conn sub fs comm chan r)"
  "index_keys_distinct r \<Longrightarrow> index_keys_distinct (remove_from_index conn sub fs comm chan r)"
  unfolding index_keys_distinct_def add_to_index_eq remove_from_index_eq
  by (simp_all add: distinct_fold_push distinct_fold_retain)

lemma index_props_subs [simp]:
  "indexes_exact tab (r\<lparr>subs := x\<rparr>) = indexes_exact tab r"
  "indexes_tidy (r\<lparr>subs := x\<rparr>) = indexes_tidy r"
  "index_keys_distinct (r\<lparr>subs := x\<rparr>) = index_keys_distinct r"
  by (simp_all add: indexes_exact_def indexes_tidy_def index_keys_distinct_def)

subsection \<open>Every operation keeps the invariant\<close>

lemma registry_inv_new: "registry_inv registry_new"
  by (simp add: registry_inv_def registry_new_def table_ok_def indexes_exact_def
      indexes_tidy_def index_keys_distinct_def no_empty_bucket_def sub_at_def [abs_def])

lemma sub_at_hput:
  "sub_at (r\<lparr>subs := hput conn m (subs r)\<rparr>) =
     (\<lambda>ref. if fst ref = conn then hget m (snd ref) else sub_at r ref)"
  by (simp add: sub_at_def fun_eq_iff)

lemma table_ok_hput:
  assumes "table_ok r" and "distinct (hkeys m)"
  shows "table_ok (r\<lparr>subs := hput conn m (subs r)\<rparr>)"
  using assms
  by (auto simp: table_ok_def distinct_update dest: mem_hputD)

lemma table_ok_hdel: "table_ok r \<Longrightarrow> table_ok (r\<lparr>subs := hdel conn (subs r)\<rparr>)"
  by (auto simp: table_ok_def distinct_delete dest: mem_hdelD)

lemma table_ok_inner: "table_ok r \<Longrightarrow> hget (subs r) conn = Some m \<Longrightarrow> distinct (hkeys m)"
  by (auto simp: table_ok_def dest!: map_of_SomeD)

lemma sub_at_remove_subscription:
  "sub_at (snd (remove_subscription conn sub r)) = (sub_at r)((conn, sub) := None)"
  by (auto simp: remove_subscription_def sub_at_hput fun_eq_iff sub_at_def split: option.splits)

lemma table_ok_index_ops [simp]:
  "table_ok (add_to_index conn sub fs comm chan r) = table_ok r"
  "table_ok (remove_from_index conn sub fs comm chan r) = table_ok r"
  by (simp_all add: table_ok_def)

lemma registry_inv_remove_subscription [inv_intros]:
  assumes inv: "registry_inv r"
  shows "registry_inv (snd (remove_subscription conn sub r))"
proof (cases "sub_at r (conn, sub)")
  case None
  then have "snd (remove_subscription conn sub r) = r"
    by (auto simp: remove_subscription_def sub_at_def split: option.splits)
  with inv show ?thesis by simp
next
  case (Some e)
  obtain fs comm chan where e: "e = (fs, comm, chan)" by (cases e)
  from Some obtain m where m: "hget (subs r) conn = Some m" "hget m sub = Some e"
    by (auto simp: sub_at_def split: option.splits)
  let ?r0 = "r\<lparr>subs := hput conn (hdel sub m) (subs r)\<rparr>"
  have eq: "snd (remove_subscription conn sub r) = remove_from_index conn sub fs comm chan ?r0"
    using m e by (simp add: remove_subscription_def)
  have "table_ok ?r0"
    using inv m by (auto intro!: table_ok_hput distinct_delete dest: table_ok_inner simp: registry_inv_def)
  moreover have "indexes_exact ((sub_at r)((conn, sub) := None))
      (remove_from_index conn sub fs comm chan ?r0)"
    using inv Some e by (intro indexes_exact_remove) (auto simp: registry_inv_def)
  ultimately show ?thesis
    using inv sub_at_remove_subscription [of conn sub r] eq
    by (auto simp: registry_inv_def intro!: inv_intros)
qed

lemma registry_inv_register_scoped [inv_intros]:
  assumes inv: "registry_inv r"
  shows "registry_inv (snd (register_scoped comm conn sub fs chan r))"
proof -
  obtain removed r1 where r1: "remove_subscription conn sub r = (removed, r1)"
    by (cases "remove_subscription conn sub r")
  from registry_inv_remove_subscription [OF inv, of conn sub] r1 have inv1: "registry_inv r1"
    by simp
  from sub_at_remove_subscription [of conn sub r] r1 have gone: "sub_at r1 (conn, sub) = None"
    by simp
  let ?m = "case hget (subs r1) conn of None \<Rightarrow> [] | Some m \<Rightarrow> m"
  let ?r2 = "r1\<lparr>subs := hput conn (hput sub (fs, comm, chan) ?m) (subs r1)\<rparr>"
  have "distinct (hkeys ?m)"
    using inv1 by (auto simp: registry_inv_def dest: table_ok_inner split: option.splits)
  then have tab: "table_ok ?r2"
    using inv1 by (intro table_ok_hput distinct_update) (auto simp: registry_inv_def)
  have at: "sub_at ?r2 = (sub_at r1)((conn, sub) \<mapsto> (fs, comm, chan))"
    by (auto simp: sub_at_hput fun_eq_iff sub_at_def split: option.splits)
  have "indexes_exact ((sub_at r1)((conn, sub) \<mapsto> (fs, comm, chan)))
      (add_to_index conn sub fs comm chan ?r2)"
    using inv1 gone by (intro indexes_exact_add) (auto simp: registry_inv_def)
  with inv1 tab at r1 show ?thesis
    by (auto simp: register_scoped_def registry_inv_def intro!: inv_intros)
qed

lemma remove_conn_loop_inv:
  assumes "indexes_exact tab r" and "indexes_tidy r" and "index_keys_distinct r"
    and "distinct (hkeys rest)"
    and "\<forall>(sub, e)\<in>set rest. tab (conn, sub) = Some e"
  shows "indexes_exact (\<lambda>ref. if fst ref = conn \<and> snd ref \<in> set (hkeys rest) then None else tab ref)
           (snd (remove_conn_loop conn rest r)) \<and>
         indexes_tidy (snd (remove_conn_loop conn rest r)) \<and>
         index_keys_distinct (snd (remove_conn_loop conn rest r)) \<and>
         subs (snd (remove_conn_loop conn rest r)) = subs r"
  using assms
proof (induction rest arbitrary: r tab)
  case Nil
  then show ?case by (simp add: if_distrib)
next
  case (Cons a rest)
  obtain sub fs comm chan where a: "a = (sub, (fs, comm, chan))" by (metis prod_cases4)
  let ?r1 = "remove_from_index conn sub fs comm chan r"
  let ?tab1 = "tab((conn, sub) := None)"
  have ex: "indexes_exact ?tab1 ?r1"
    using Cons.prems a by (intro indexes_exact_remove) auto
  have rest: "\<forall>(s, e)\<in>set rest. ?tab1 (conn, s) = Some e"
    using Cons.prems a by (force simp: image_iff)
  have "indexes_tidy ?r1" and "index_keys_distinct ?r1"
    using Cons.prems by (simp_all add: inv_intros)
  note IH = Cons.IH [OF ex this _ rest]
  have "(\<lambda>ref. if fst ref = conn \<and> snd ref \<in> set (hkeys rest) then None else ?tab1 ref) =
      (\<lambda>ref. if fst ref = conn \<and> snd ref \<in> set (hkeys (a # rest)) then None else tab ref)"
    using a by (auto simp: fun_eq_iff)
  with IH Cons.prems(4) a show ?case by (simp add: split_beta Let_def)
qed

lemma sub_at_remove_connection:
  "sub_at (r\<lparr>subs := hdel conn (subs r)\<rparr>) = (\<lambda>ref. if fst ref = conn then None else sub_at r ref)"
  by (simp add: sub_at_def fun_eq_iff)

lemma remove_connection_effect:
  assumes inv: "registry_inv r"
  shows "registry_inv (snd (remove_connection conn r)) \<and>
         sub_at (snd (remove_connection conn r)) =
           (\<lambda>ref. if fst ref = conn then None else sub_at r ref)"
proof (cases "hget (subs r) conn")
  case None
  then have "sub_at r = (\<lambda>ref. if fst ref = conn then None else sub_at r ref)"
    by (auto simp: sub_at_def fun_eq_iff)
  with None inv show ?thesis by (simp add: remove_connection_def)
next
  case (Some m)
  let ?r0 = "r\<lparr>subs := hdel conn (subs r)\<rparr>"
  let ?r1 = "snd (remove_conn_loop conn m ?r0)"
  let ?tab = "\<lambda>ref. if fst ref = conn \<and> snd ref \<in> set (hkeys m) then None else sub_at r ref"
  have dm: "distinct (hkeys m)" using inv Some by (auto simp: registry_inv_def dest: table_ok_inner)
  have loop: "indexes_exact ?tab ?r1 \<and> indexes_tidy ?r1 \<and> index_keys_distinct ?r1 \<and> subs ?r1 = subs ?r0"
  proof (rule remove_conn_loop_inv)
    show "indexes_exact (sub_at r) ?r0" "indexes_tidy ?r0" "index_keys_distinct ?r0"
      using inv by (simp_all add: registry_inv_def)
  qed (use dm Some in \<open>auto simp: sub_at_def\<close>)
  have tab: "?tab = (\<lambda>ref. if fst ref = conn then None else sub_at r ref)"
    using Some by (auto simp: fun_eq_iff sub_at_def map_of_eq_None_iff)
  have at: "sub_at ?r1 = (\<lambda>ref. if fst ref = conn then None else sub_at r ref)"
    using loop sub_at_remove_connection [where r = r and conn = conn] by (simp add: sub_at_def [abs_def])
  have "table_ok ?r1"
    using loop inv table_ok_hdel [where r = r and conn = conn] by (simp add: registry_inv_def table_ok_def)
  with loop tab at Some show ?thesis
    by (simp add: remove_connection_def registry_inv_def)
qed

lemma registry_inv_remove_connection [inv_intros]:
  "registry_inv r \<Longrightarrow> registry_inv (snd (remove_connection conn r))"
  using remove_connection_effect by blast

lemma remove_subs_loop_effect:
  "registry_inv r \<Longrightarrow>
     registry_inv (snd (remove_subs_loop conn ss r)) \<and>
     sub_at (snd (remove_subs_loop conn ss r)) =
       (\<lambda>ref. if fst ref = conn \<and> snd ref \<in> set ss then None else sub_at r ref)"
proof (induction ss arbitrary: r)
  case Nil
  then show ?case by simp
next
  case (Cons s ss)
  let ?r1 = "snd (remove_subscription conn s r)"
  have "registry_inv ?r1" using Cons.prems by (rule registry_inv_remove_subscription)
  from Cons.IH [OF this] show ?case
    by (auto simp: split_beta Let_def sub_at_remove_subscription fun_eq_iff split: option.splits)
qed

lemma registry_inv_remove_channel [inv_intros]:
  "registry_inv r \<Longrightarrow> registry_inv (snd (remove_channel_subscriptions_scoped comm conn ch r))"
  by (simp add: remove_channel_subscriptions_scoped_def remove_subs_loop_effect)

subsection \<open>Reachable registries\<close>

text \<open>Every registry the relay can build: any sequence of the public operations.\<close>

inductive registry_reachable :: "registry \<Rightarrow> bool" where
  new: "registry_reachable registry_new"
| register: "registry_reachable r \<Longrightarrow>
    registry_reachable (snd (register_scoped comm conn sub fs chan r))"
| remove_sub: "registry_reachable r \<Longrightarrow> registry_reachable (snd (remove_subscription conn sub r))"
| remove_conn: "registry_reachable r \<Longrightarrow> registry_reachable (snd (remove_connection conn r))"
| remove_chan: "registry_reachable r \<Longrightarrow>
    registry_reachable (snd (remove_channel_subscriptions_scoped comm conn ch r))"

lemma reachable_registry_inv: "registry_reachable r \<Longrightarrow> registry_inv r"
  by (induction rule: registry_reachable.induct) (auto intro: inv_intros registry_inv_new)

subsection \<open>What the extracted keys cover\<close>

lemma extract_kinds_loop_covers:
  "extract_kinds_loop acc fs = Some ks \<Longrightarrow>
     set acc \<subseteq> set ks \<and> (\<forall>f\<in>set fs. \<exists>fk. f_kinds f = Some fk \<and> set fk \<subseteq> set ks)"
  by (induction fs arbitrary: acc) (fastforce split: option.splits)+

lemma match_kind_extracted:
  assumes "filters_match fs ev" and "extract_kinds_from_filters fs = Some ks"
  shows "ev_kind (se_event ev) \<in> set ks"
proof -
  from assms(1) obtain f where f: "f \<in> set fs" "filter_match_one f ev"
    by (auto simp: filters_match_def list_ex_iff)
  with extract_kinds_loop_covers [of "[]" fs ks] assms(2) obtain fk
    where "f_kinds f = Some fk" and "set fk \<subseteq> set ks"
    by (auto simp: extract_kinds_from_filters_def)
  with filter_match_kind f show ?thesis by blast
qed

definition p_key :: "community_id \<Rightarrow> nat \<Rightarrow> string \<Rightarrow> global_p_kind_index_key" where
  "p_key c k p = \<lparr>gp_community_id = c, gp_kind = k, gp_p = p\<rparr>"

lemma extract_global_p_loop_ConsE:
  assumes "extract_global_p_loop c acc (f # fs) = Some keys"
  obtains (skip) "f_kinds f = Some []" and "extract_global_p_loop c acc fs = Some keys"
  | (keys) ks ps where "f_kinds f = Some ks" and "hget (f_generic_tags f) ''p'' = Some ps"
    and "extract_global_p_loop c (push_unseen acc (concat (map (\<lambda>k. map (p_key c k) ps) ks))) fs =
      Some keys"
  using assms by (auto simp: p_key_def [abs_def] split: option.splits if_splits)

lemma extract_global_p_loop_covers:
  "extract_global_p_loop c acc fs = Some keys \<Longrightarrow>
     set acc \<subseteq> set keys \<and>
     (\<forall>f\<in>set fs. \<exists>ks. f_kinds f = Some ks \<and>
        (ks = [] \<or> (\<exists>ps. hget (f_generic_tags f) ''p'' = Some ps \<and>
           (\<forall>k\<in>set ks. \<forall>p\<in>set ps. p_key c k p \<in> set keys))))"
proof (induction fs arbitrary: acc)
  case Nil
  then show ?case by simp
next
  case (Cons f fs)
  from Cons.prems show ?case
  proof (cases rule: extract_global_p_loop_ConsE)
    case skip
    with Cons.IH [of acc] show ?thesis by auto
  next
    case (keys ks ps)
    from Cons.IH [OF keys(3)] keys(1,2) show ?thesis by auto
  qed
qed

lemma event_p_loop_set:
  "set (event_p_loop acc ts) =
     set acc \<union> {v. \<exists>t\<in>set ts. tag_kind t = ''p'' \<and> tag_content t = Some v}"
  by (induction ts arbitrary: acc) (auto split: option.splits)

lemma match_p_extracted:
  assumes m: "filters_match fs ev" and keys: "extract_global_p_kind_index_keys c fs = Some keys"
  shows "\<exists>p\<in>set (event_p_tag_values ev). p_key c (ev_kind (se_event ev)) p \<in> set keys"
proof -
  from m obtain f where f: "f \<in> set fs" "filter_match_one f ev"
    by (auto simp: filters_match_def list_ex_iff)
  with extract_global_p_loop_covers [of c "[]" fs keys] keys obtain ks
    where ks: "f_kinds f = Some ks"
      and cov: "ks = [] \<or> (\<exists>ps. hget (f_generic_tags f) ''p'' = Some ps \<and>
           (\<forall>k\<in>set ks. \<forall>p\<in>set ps. p_key c k p \<in> set keys))"
    by (auto simp: extract_global_p_kind_index_keys_def)
  from filter_match_kind [OF f(2) ks] have k: "ev_kind (se_event ev) \<in> set ks" .
  with cov obtain ps where ps: "hget (f_generic_tags f) ''p'' = Some ps"
    and all: "\<forall>k\<in>set ks. \<forall>p\<in>set ps. p_key c k p \<in> set keys"
    by auto
  from filter_match_p_tag [OF f(2) ps] obtain v t where "v \<in> set ps"
    and "t \<in> set (ev_tags (se_event ev))" "tag_kind t = ''p''" "tag_content t = Some v" .
  with all k show ?thesis by (auto simp: event_p_tag_values_def event_p_loop_set)
qed

lemma extract_global_p_loop_comm:
  "extract_global_p_loop c acc fs = Some keys \<Longrightarrow> \<forall>k\<in>set acc. gp_community_id k = c \<Longrightarrow>
     \<forall>k\<in>set keys. gp_community_id k = c"
proof (induction fs arbitrary: acc)
  case Nil
  then show ?case by simp
next
  case (Cons f fs)
  from Cons.prems(1) show ?case
  proof (cases rule: extract_global_p_loop_ConsE)
    case skip
    with Cons.IH [of acc] Cons.prems(2) show ?thesis by simp
  next
    case (keys ks ps)
    show ?thesis by (rule Cons.IH [OF keys(3)]) (use Cons.prems(2) in \<open>auto simp: p_key_def\<close>)
  qed
qed

lemma gp_keys_comm: "k \<in> set (gp_keys (fs, comm, chan)) \<Longrightarrow> chan = None \<and> gp_community_id k = comm"
  using extract_global_p_loop_comm [of comm "[]" fs]
  by (cases "extract_global_p_loop comm [] fs")
    (auto simp: gp_keys_def extract_global_p_kind_index_keys_def split: option.splits)

subsection \<open>Fan-out against the table\<close>

definition delivers :: "registry \<Rightarrow> StoredEvent \<Rightarrow> sub_ref \<Rightarrow> bool" where
  "delivers r ev ref \<longleftrightarrow> (\<exists>fs comm chan. sub_at r ref = Some (fs, comm, chan) \<and> filters_match fs ev)"

lemma push_match_eq:
  "push_match r ev ref results = (if delivers r ev ref then push_new ref results else results)"
  by (auto simp: push_match_def delivers_def sub_at_def split: option.splits)

lemma set_fold_push_match:
  "set (fold (push_match r ev) refs acc) = set acc \<union> {ref \<in> set refs. delivers r ev ref}"
  by (induction refs arbitrary: acc) (auto simp: push_match_eq)

lemma distinct_fold_push_match:
  "distinct (fold (push_match r ev) refs acc) \<longleftrightarrow> distinct acc"
  by (induction refs arbitrary: acc) (auto simp: push_match_eq)

lemma set_fold_fold_push_match:
  "set (fold (\<lambda>p. fold (push_match r ev) (g p)) ps acc) =
     set acc \<union> {ref. delivers r ev ref \<and> (\<exists>p\<in>set ps. ref \<in> set (g p))}"
  by (induction ps arbitrary: acc) (auto simp: set_fold_push_match)

lemma distinct_fold_fold_push_match:
  "distinct (fold (\<lambda>p. fold (push_match r ev) (g p)) ps acc) \<longleftrightarrow> distinct acc"
  by (induction ps arbitrary: acc) (auto simp: distinct_fold_push_match)

lemma distinct_fan_out: "distinct (fan_out_scoped comm ev r)"
  by (simp add: fan_out_scoped_def Let_def distinct_fold_push_match distinct_fold_fold_push_match
      split: option.split)

text \<open>The reference: scan the whole table for subscriptions of the event's own scope.\<close>

definition scope_matches :: "community_id \<Rightarrow> StoredEvent \<Rightarrow> registry \<Rightarrow> sub_ref \<Rightarrow> bool" where
  "scope_matches comm ev r ref \<longleftrightarrow>
     (\<exists>fs. sub_at r ref = Some (fs, comm, se_channel_id ev) \<and> filters_match fs ev)"

lemma registry_inv_members:
  assumes inv: "registry_inv r"
  shows "ref \<in> set (bucket (channel_kind_index r) k1) \<longleftrightarrow>
      (\<exists>e. sub_at r ref = Some e \<and> k1 \<in> set (ck_keys e))"
    and "ref \<in> set (bucket (channel_wildcard_index r) k2) \<longleftrightarrow>
      (\<exists>e. sub_at r ref = Some e \<and> k2 \<in> set (cw_keys e))"
    and "ref \<in> set (bucket (global_kind_index r) k3) \<longleftrightarrow>
      (\<exists>e. sub_at r ref = Some e \<and> k3 \<in> set (gk_keys e))"
    and "ref \<in> set (bucket (global_p_kind_index r) k4) \<longleftrightarrow>
      (\<exists>e. sub_at r ref = Some e \<and> k4 \<in> set (gp_keys e))"
    and "ref \<in> set (bucket (global_wildcard_index r) k5) \<longleftrightarrow>
      (\<exists>e. sub_at r ref = Some e \<and> k5 \<in> set (gw_keys e))"
proof -
  from inv have ex: "indexes_exact (sub_at r) r" by (simp add: registry_inv_def)
  note X = ex [unfolded indexes_exact_def bkt.exact_def]
  from X show "ref \<in> set (bucket (channel_kind_index r) k1) \<longleftrightarrow>
      (\<exists>e. sub_at r ref = Some e \<and> k1 \<in> set (ck_keys e))" by blast
  from X show "ref \<in> set (bucket (channel_wildcard_index r) k2) \<longleftrightarrow>
      (\<exists>e. sub_at r ref = Some e \<and> k2 \<in> set (cw_keys e))" by blast
  from X show "ref \<in> set (bucket (global_kind_index r) k3) \<longleftrightarrow>
      (\<exists>e. sub_at r ref = Some e \<and> k3 \<in> set (gk_keys e))" by blast
  from X show "ref \<in> set (bucket (global_p_kind_index r) k4) \<longleftrightarrow>
      (\<exists>e. sub_at r ref = Some e \<and> k4 \<in> set (gp_keys e))" by blast
  from X show "ref \<in> set (bucket (global_wildcard_index r) k5) \<longleftrightarrow>
      (\<exists>e. sub_at r ref = Some e \<and> k5 \<in> set (gw_keys e))" by blast
qed

lemma in_ck_keys:
  "(c, \<lparr>ik_channel_id = ch, ik_kind = k\<rparr>) \<in> set (ck_keys (fs, comm, chan)) \<longleftrightarrow>
     c = comm \<and> chan = Some ch \<and> (\<exists>ks. extract_kinds_from_filters fs = Some ks \<and> k \<in> set ks)"
  by (cases "extract_kinds_from_filters fs"; cases chan) (auto simp: ck_keys_def)

lemma in_cw_keys:
  "(c, ch) \<in> set (cw_keys (fs, comm, chan)) \<longleftrightarrow>
     c = comm \<and> chan = Some ch \<and> extract_kinds_from_filters fs = None"
  by (cases "extract_kinds_from_filters fs"; cases chan) (auto simp: cw_keys_def)

lemma in_gk_keys:
  "(c, k) \<in> set (gk_keys (fs, comm, chan)) \<longleftrightarrow>
     c = comm \<and> chan = None \<and> extract_global_p_kind_index_keys comm fs = None \<and>
     (\<exists>ks. extract_kinds_from_filters fs = Some ks \<and> k \<in> set ks)"
  by (cases "extract_kinds_from_filters fs"; cases chan;
      cases "extract_global_p_kind_index_keys comm fs") (auto simp: gk_keys_def)

lemma in_gw_keys:
  "c \<in> set (gw_keys (fs, comm, chan)) \<longleftrightarrow>
     c = comm \<and> chan = None \<and> extract_global_p_kind_index_keys comm fs = None \<and>
     extract_kinds_from_filters fs = None"
  by (cases "extract_kinds_from_filters fs"; cases chan;
      cases "extract_global_p_kind_index_keys comm fs") (auto simp: gw_keys_def)

lemma fan_out_channel:
  assumes inv: "registry_inv r" and ch: "se_channel_id ev = Some ch"
  shows "ref \<in> set (fan_out_scoped comm ev r) \<longleftrightarrow> scope_matches comm ev r ref"
proof -
  let ?K = "ev_kind (se_event ev)"
  have mem: "ref \<in> set (fan_out_scoped comm ev r) \<longleftrightarrow>
      delivers r ev ref \<and>
      (ref \<in> set (bucket (channel_kind_index r) (comm, \<lparr>ik_channel_id = ch, ik_kind = ?K\<rparr>)) \<or>
       ref \<in> set (bucket (channel_wildcard_index r) (comm, ch)))"
    using ch by (auto simp: fan_out_scoped_def set_fold_push_match)
  show ?thesis
  proof (cases "sub_at r ref")
    case None
    then show ?thesis by (simp add: mem delivers_def scope_matches_def)
  next
    case (Some e)
    obtain fs c chan where "e = (fs, c, chan)" by (cases e)
    with Some show ?thesis
      unfolding mem registry_inv_members [OF inv] delivers_def scope_matches_def
      by (cases "extract_kinds_from_filters fs")
        (auto simp: in_ck_keys in_cw_keys ch dest: match_kind_extracted)
  qed
qed

lemma fan_out_global:
  assumes inv: "registry_inv r" and ch: "se_channel_id ev = None"
  shows "ref \<in> set (fan_out_scoped comm ev r) \<longleftrightarrow> scope_matches comm ev r ref"
proof -
  let ?K = "ev_kind (se_event ev)"
  note gp = registry_inv_members(4) [OF inv] and gk = registry_inv_members(3) [OF inv]
    and gw = registry_inv_members(5) [OF inv]
  have mem: "ref \<in> set (fan_out_scoped comm ev r) \<longleftrightarrow>
      delivers r ev ref \<and>
      ((\<exists>p\<in>set (event_p_tag_values ev). ref \<in> set (bucket (global_p_kind_index r) (p_key comm ?K p))) \<or>
       ref \<in> set (bucket (global_kind_index r) (comm, ?K)) \<or>
       ref \<in> set (bucket (global_wildcard_index r) comm))"
    using ch by (auto simp: fan_out_scoped_def set_fold_push_match set_fold_fold_push_match p_key_def)
  show ?thesis
  proof (cases "sub_at r ref")
    case None
    then show ?thesis by (simp add: mem delivers_def scope_matches_def)
  next
    case (Some e)
    obtain fs c chan where e: "e = (fs, c, chan)" by (cases e)
    let ?hit = "(\<exists>p\<in>set (event_p_tag_values ev). p_key comm ?K p \<in> set (gp_keys (fs, c, chan))) \<or>
      (comm, ?K) \<in> set (gk_keys (fs, c, chan)) \<or> comm \<in> set (gw_keys (fs, c, chan))"
    have "c = comm \<and> chan = None" if ?hit
      using that by (auto simp: in_gk_keys in_gw_keys p_key_def dest!: gp_keys_comm)
    moreover have ?hit if "c = comm" "chan = None" "filters_match fs ev"
      using that match_p_extracted [of fs ev comm] match_kind_extracted [of fs ev]
      by (cases "extract_global_p_kind_index_keys comm fs"; cases "extract_kinds_from_filters fs")
        (auto simp: gp_keys_def in_gk_keys in_gw_keys)
    ultimately show ?thesis
      using Some e ch unfolding mem gp gk gw delivers_def scope_matches_def by auto
  qed
qed

lemma fan_out_exact:
  "registry_inv r \<Longrightarrow> ref \<in> set (fan_out_scoped comm ev r) \<longleftrightarrow> scope_matches comm ev r ref"
  by (cases "se_channel_id ev") (auto simp: fan_out_channel fan_out_global)

subsection \<open>Properties\<close>

lemma get_filters_sub_at: "get_filters conn sub r = map_option fst (sub_at r (conn, sub))"
  by (simp add: get_filters_def sub_at_def split: option.split)

lemma sub_at_register_scoped:
  "sub_at (snd (register_scoped comm conn sub fs chan r)) =
     (sub_at r)((conn, sub) \<mapsto> (fs, comm, chan))"
proof -
  obtain removed r1 where r1: "remove_subscription conn sub r = (removed, r1)"
    by (cases "remove_subscription conn sub r")
  with sub_at_remove_subscription [of conn sub r] have "sub_at r1 = (sub_at r)((conn, sub) := None)"
    by simp
  moreover have "sub_at (r1\<lparr>subs := hput conn (hput sub (fs, comm, chan)
        (case hget (subs r1) conn of None \<Rightarrow> [] | Some m \<Rightarrow> m)) (subs r1)\<rparr>) =
      (sub_at r1)((conn, sub) \<mapsto> (fs, comm, chan))"
    by (auto simp: sub_at_hput fun_eq_iff sub_at_def split: option.splits)
  ultimately show ?thesis using r1 by (auto simp: register_scoped_def fun_eq_iff)
qed

lemma bucket_mem: "hget m k = Some vs \<Longrightarrow> v \<in> set (bucket m k) \<longleftrightarrow> v \<in> set vs"
  by (simp add: bucket_def)

lemma bucket_memE:
  assumes "v \<in> set (bucket m k)"
  obtains vs where "hget m k = Some vs" and "v \<in> set vs"
  using assms by (cases "hget m k") (auto simp: bucket_def)

lemma channel_kind_index_conns:
  assumes inv: "registry_inv r"
  shows "(\<exists>key entries. ((comm, key), entries) \<in> set (channel_kind_index r) \<and>
            ik_channel_id key = ch \<and> (conn, sub) \<in> set entries) \<longleftrightarrow>
         (\<exists>fs ks. sub_at r (conn, sub) = Some (fs, comm, Some ch) \<and>
            extract_kinds_from_filters fs = Some ks \<and> ks \<noteq> [])" (is "?L \<longleftrightarrow> ?R")
proof
  assume ?L
  then obtain key entries where k: "((comm, key), entries) \<in> set (channel_kind_index r)"
    "ik_channel_id key = ch" "(conn, sub) \<in> set entries" by blast
  with inv have "hget (channel_kind_index r) (comm, key) = Some entries"
    by (simp add: registry_inv_def index_keys_distinct_def)
  with k have "(conn, sub) \<in> set (bucket (channel_kind_index r) (comm, key))"
    by (simp add: bucket_mem)
  with k(2) show ?R
    by (cases key) (auto simp: registry_inv_members [OF inv] in_ck_keys)
next
  assume ?R
  then obtain fs ks k where at: "sub_at r (conn, sub) = Some (fs, comm, Some ch)"
    and ks: "extract_kinds_from_filters fs = Some ks" "k \<in> set ks"
    by (metis list.set_intros(1) neq_Nil_conv)
  let ?key = "\<lparr>ik_channel_id = ch, ik_kind = k\<rparr>"
  from at ks have mem: "(conn, sub) \<in> set (bucket (channel_kind_index r) (comm, ?key))"
    by (auto simp: registry_inv_members [OF inv] in_ck_keys)
  then obtain es where "hget (channel_kind_index r) (comm, ?key) = Some es" and es: "(conn, sub) \<in> set es"
    by (rule bucket_memE)
  then have "((comm, ?key), es) \<in> set (channel_kind_index r)"
    by (simp add: map_of_SomeD)
  with es show ?L by force
qed

lemma channel_subscriber_conns_exact:
  assumes inv: "registry_inv r"
  shows "conn \<in> set (channel_subscriber_conns_scoped comm ch r) \<longleftrightarrow>
     (\<exists>sub fs. sub_at r (conn, sub) = Some (fs, comm, Some ch) \<and>
        extract_kinds_from_filters fs \<noteq> Some [])"
proof -
  have "conn \<in> set (channel_subscriber_conns_scoped comm ch r) \<longleftrightarrow>
      (\<exists>sub. (\<exists>key entries. ((comm, key), entries) \<in> set (channel_kind_index r) \<and>
            ik_channel_id key = ch \<and> (conn, sub) \<in> set entries)) \<or>
      (\<exists>sub. (conn, sub) \<in> set (bucket (channel_wildcard_index r) (comm, ch)))"
    by (fastforce simp: channel_subscriber_conns_scoped_def image_iff)
  also have "\<dots> \<longleftrightarrow> (\<exists>sub. (\<exists>fs ks. sub_at r (conn, sub) = Some (fs, comm, Some ch) \<and>
            extract_kinds_from_filters fs = Some ks \<and> ks \<noteq> []) \<or>
        (\<exists>e. sub_at r (conn, sub) = Some e \<and> (comm, ch) \<in> set (cw_keys e)))"
    unfolding channel_kind_index_conns [OF inv] registry_inv_members [OF inv] by blast
  also have "\<dots> \<longleftrightarrow> (\<exists>sub fs. sub_at r (conn, sub) = Some (fs, comm, Some ch) \<and>
        extract_kinds_from_filters fs \<noteq> Some [])"
  proof (intro arg_cong [where f = Ex] ext)
    fix sub
    show "((\<exists>fs ks. sub_at r (conn, sub) = Some (fs, comm, Some ch) \<and>
            extract_kinds_from_filters fs = Some ks \<and> ks \<noteq> []) \<or>
        (\<exists>e. sub_at r (conn, sub) = Some e \<and> (comm, ch) \<in> set (cw_keys e))) =
      (\<exists>fs. sub_at r (conn, sub) = Some (fs, comm, Some ch) \<and>
        extract_kinds_from_filters fs \<noteq> Some [])"
    proof (cases "sub_at r (conn, sub)")
      case (Some e)
      obtain fs c chan where "e = (fs, c, chan)" by (cases e)
      with Some show ?thesis
        by (cases "extract_kinds_from_filters fs") (auto simp: in_cw_keys)
    qed simp
  qed
  finally show ?thesis .
qed

text \<open>A subscription of the witnesses below: kind 9 in channel \<open>ch\<close> of community \<open>A\<close>.\<close>

definition demo_filter :: nostr_filter where
  "demo_filter = \<lparr>f_ids = None, f_authors = None, f_kinds = Some [9], f_since = None,
     f_until = None, f_generic_tags = []\<rparr>"

definition demo_registry :: registry where
  "demo_registry = snd (register_scoped ''A'' ''c1'' ''s1'' [demo_filter] (Some ''ch'') registry_new)"

definition demo_event :: StoredEvent where
  "demo_event = StoredEvent_new 0
     \<lparr>ev_id = ''00'', ev_pubkey = ''ab'', ev_created_at = 7, ev_kind = 9, ev_tags = [],
      ev_content = ''hi''\<rparr> (Some ''ch'')"

lemma demo_reachable: "registry_reachable demo_registry"
  unfolding demo_registry_def by (intro registry_reachable.intros)

lemma demo_sub_at: "sub_at demo_registry =
    Map.empty((''c1'', ''s1'') \<mapsto> ([demo_filter], ''A'', Some ''ch''))"
  unfolding demo_registry_def sub_at_register_scoped
  by (simp add: sub_at_def registry_new_def fun_eq_iff)

text \<open>
  C1. Fan-out is exact. In every registry the relay can build, the indexed fan-out of an event
  in a community returns, without duplicates, precisely the subscriptions of that community
  whose scope is the event's own scope (the same channel, or no channel on both sides) and
  whose filters match the event: nothing is missed, nothing crosses a community or a channel.
\<close>

theorem fan_out_scoped_exact:
  assumes "registry_reachable r"
  shows "distinct (fan_out_scoped comm ev r) \<and>
         set (fan_out_scoped comm ev r) =
           {ref. \<exists>fs. sub_at r ref = Some (fs, comm, se_channel_id ev) \<and> filters_match fs ev}"
  using fan_out_exact [OF reachable_registry_inv [OF assms]]
  by (auto simp: distinct_fan_out scope_matches_def)

theorem fan_out_scoped_exact_witness:
  "registry_reachable demo_registry \<and>
   set (fan_out_scoped ''A'' demo_event demo_registry) = {(''c1'', ''s1'')} \<and>
   set (fan_out_scoped ''B'' demo_event demo_registry) = {}"
  using fan_out_scoped_exact [OF demo_reachable, of "''A''" demo_event]
    fan_out_scoped_exact [OF demo_reachable, of "''B''" demo_event]
  by (auto simp: demo_reachable demo_sub_at demo_event_def StoredEvent_new_def filters_match_def
      filter_match_one_def demo_filter_def split: if_splits)

text \<open>
  Registering is read back: after \<open>register_scoped\<close> the subscription holds exactly the new
  filters and scope, every other subscription of every connection is untouched, and the scope
  that is reported as replaced is the one the same id had before.
\<close>

theorem register_scoped_roundtrip:
  "sub_at (snd (register_scoped comm conn sub fs chan r)) =
     (sub_at r)((conn, sub) \<mapsto> (fs, comm, chan)) \<and>
   get_filters conn sub (snd (register_scoped comm conn sub fs chan r)) = Some fs \<and>
   fst (register_scoped comm conn sub fs chan r) =
     map_option (\<lambda>(_, c, ch). \<lparr>rs_community_id = c, rs_channel_id = ch\<rparr>) (sub_at r (conn, sub))"
  by (auto simp: get_filters_sub_at sub_at_register_scoped register_scoped_def
      remove_subscription_def sub_at_def split: option.splits)

text \<open>
  A closed connection leaves nothing behind: no index bucket names it, no subscription of
  it is left, every other connection keeps its subscriptions, and what is returned is the
  scope of each removed subscription.
\<close>

theorem remove_connection_complete:
  assumes "registry_reachable r"
  shows "sub_at (snd (remove_connection conn r)) =
           (\<lambda>ref. if fst ref = conn then None else sub_at r ref) \<and>
         (\<forall>sub k1 k2 k3 k4 k5.
            (conn, sub) \<notin> set (bucket (channel_kind_index (snd (remove_connection conn r))) k1) \<and>
            (conn, sub) \<notin> set (bucket (channel_wildcard_index (snd (remove_connection conn r))) k2) \<and>
            (conn, sub) \<notin> set (bucket (global_kind_index (snd (remove_connection conn r))) k3) \<and>
            (conn, sub) \<notin> set (bucket (global_p_kind_index (snd (remove_connection conn r))) k4) \<and>
            (conn, sub) \<notin> set (bucket (global_wildcard_index (snd (remove_connection conn r))) k5))"
  using remove_connection_effect [OF reachable_registry_inv [OF assms], of conn]
  by (auto simp: registry_inv_members)

theorem remove_connection_complete_witness:
  "registry_reachable demo_registry \<and>
   sub_at demo_registry (''c1'', ''s1'') \<noteq> None \<and>
   sub_at (snd (remove_connection ''c1'' demo_registry)) (''c1'', ''s1'') = None"
  using remove_connection_complete [OF demo_reachable, of "''c1''"]
  by (simp add: demo_reachable demo_sub_at)

text \<open>
  The indexes do not leak: when no subscription is left, none of the five index maps has
  any key left, so a long-running relay does not accumulate empty buckets.
\<close>

theorem idle_registry_indexes_empty:
  assumes "registry_reachable r" and "\<And>ref. sub_at r ref = None"
  shows "channel_kind_index r = [] \<and> channel_wildcard_index r = [] \<and> global_kind_index r = [] \<and>
         global_p_kind_index r = [] \<and> global_wildcard_index r = []"
proof -
  from reachable_registry_inv [OF assms(1)] have inv: "registry_inv r" .
  from assms(2) have "sub_at r = (\<lambda>_. None)" by auto
  with inv have ex: "indexes_exact (\<lambda>_. None) r" and tidy: "indexes_tidy r"
    by (simp_all add: registry_inv_def)
  then show ?thesis
    unfolding indexes_exact_def indexes_tidy_def by (auto dest: tidy_exact_empty)
qed

theorem idle_registry_indexes_empty_witness:
  "registry_reachable (snd (remove_subscription ''c1'' ''s1'' demo_registry)) \<and>
   channel_kind_index demo_registry \<noteq> [] \<and>
   channel_kind_index (snd (remove_subscription ''c1'' ''s1'' demo_registry)) = []"
proof -
  let ?r = "snd (remove_subscription ''c1'' ''s1'' demo_registry)"
  have reach: "registry_reachable ?r" by (intro registry_reachable.remove_sub demo_reachable)
  have "sub_at ?r ref = None" for ref
    by (simp add: sub_at_remove_subscription demo_sub_at)
  from idle_registry_indexes_empty [OF reach this] have "channel_kind_index ?r = []" by simp
  moreover have "channel_kind_index demo_registry \<noteq> []"
    unfolding demo_registry_def demo_filter_def registry_new_def by code_simp
  ultimately show ?thesis using reach by simp
qed

text \<open>
  Evicting a connection from a channel takes away exactly its subscriptions scoped to that
  channel in that community; its other subscriptions and everyone else's stay.
\<close>

theorem remove_channel_subscriptions_exact:
  assumes "registry_reachable r"
  shows "sub_at (snd (remove_channel_subscriptions_scoped comm conn ch r)) =
           (\<lambda>ref. if fst ref = conn \<and> (\<exists>fs. sub_at r ref = Some (fs, comm, Some ch)) then None
                  else sub_at r ref)"
proof -
  have inv: "registry_inv r" using assms by (rule reachable_registry_inv)
  define ids where "ids = (case hget (subs r) conn of
            None \<Rightarrow> []
          | Some conn_subs \<Rightarrow>
              map fst (filter (\<lambda>(sub, (fs, c, chan)). c = comm \<and> chan = Some ch) conn_subs))"
  have "s \<in> set ids \<longleftrightarrow> (\<exists>fs. sub_at r (conn, s) = Some (fs, comm, Some ch))" for s
  proof (cases "hget (subs r) conn")
    case (Some m)
    then have "distinct (hkeys m)" using inv by (auto simp: registry_inv_def dest: table_ok_inner)
    with Some show ?thesis by (force simp: ids_def sub_at_def)
  qed (simp add: ids_def sub_at_def)
  with remove_subs_loop_effect [OF inv, of conn ids] show ?thesis
    by (auto simp: remove_channel_subscriptions_scoped_def ids_def [symmetric] fun_eq_iff)
qed

theorem remove_channel_subscriptions_exact_witness:
  "registry_reachable demo_registry \<and>
   sub_at (snd (remove_channel_subscriptions_scoped ''A'' ''c1'' ''ch'' demo_registry)) (''c1'', ''s1'') = None \<and>
   sub_at (snd (remove_channel_subscriptions_scoped ''B'' ''c1'' ''ch'' demo_registry)) (''c1'', ''s1'') =
     Some ([demo_filter], ''A'', Some ''ch'')"
  using remove_channel_subscriptions_exact [OF demo_reachable, of "''A''" "''c1''" "''ch''"]
    remove_channel_subscriptions_exact [OF demo_reachable, of "''B''" "''c1''" "''ch''"]
  by (simp add: demo_reachable demo_sub_at)

text \<open>
  Whom an eviction has to visit: \<open>channel_subscriber_conns_scoped\<close> returns, once each,
  exactly the connections that have a subscription scoped to the channel in the community whose
  filters admit some kind. A subscription all of whose filters say \<open>kinds: []\<close> is in no index
  and is not reported, although the function's comment speaks of any subscription.
\<close>

theorem channel_subscriber_conns_spec:
  assumes "registry_reachable r"
  shows "distinct (channel_subscriber_conns_scoped comm ch r) \<and>
         set (channel_subscriber_conns_scoped comm ch r) =
           {conn. \<exists>sub fs. sub_at r (conn, sub) = Some (fs, comm, Some ch) \<and>
              extract_kinds_from_filters fs \<noteq> Some []}"
proof
  show "distinct (channel_subscriber_conns_scoped comm ch r)"
    by (simp add: channel_subscriber_conns_scoped_def)
qed (use channel_subscriber_conns_exact [OF reachable_registry_inv [OF assms]] in blast)

definition silent_filter :: nostr_filter where
  "silent_filter = demo_filter\<lparr>f_kinds := Some []\<rparr>"

definition silent_registry :: registry where
  "silent_registry = snd (register_scoped ''A'' ''c1'' ''s1'' [silent_filter] (Some ''ch'') registry_new)"

theorem channel_subscriber_conns_spec_witness:
  "registry_reachable demo_registry \<and>
   set (channel_subscriber_conns_scoped ''A'' ''ch'' demo_registry) = {''c1''} \<and>
   sub_at silent_registry (''c1'', ''s1'') = Some ([silent_filter], ''A'', Some ''ch'') \<and>
   set (channel_subscriber_conns_scoped ''A'' ''ch'' silent_registry) = {}"
proof -
  have reach: "registry_reachable silent_registry"
    unfolding silent_registry_def by (intro registry_reachable.intros)
  have at: "sub_at silent_registry = Map.empty((''c1'', ''s1'') \<mapsto> ([silent_filter], ''A'', Some ''ch''))"
    unfolding silent_registry_def sub_at_register_scoped
    by (simp add: sub_at_def registry_new_def fun_eq_iff)
  have "extract_kinds_from_filters [demo_filter] = Some [9]"
    and "extract_kinds_from_filters [silent_filter] = Some []"
    by (simp_all add: extract_kinds_from_filters_def demo_filter_def silent_filter_def push_new_def)
  then show ?thesis
    using channel_subscriber_conns_spec [OF demo_reachable, of "''A''" "''ch''"]
      channel_subscriber_conns_spec [OF reach, of "''A''" "''ch''"]
    by (auto simp: demo_reachable demo_sub_at at split: if_splits)
qed

end
