(* ===== verification/Git_Perms.thy ===== *)
theory Git_Perms
  imports Prelude
begin

text \<open>
  Channel roles (\<open>buzz-core/src/channel.rs\<close>) and the git permission engine
  (\<open>buzz-core/src/git_perms.rs\<close>): ref patterns, protection tags, the union of the rules that
  match a ref, and the decision on a push. The code's \<open>unreachable!()\<close> is kept as the value
  \<^const>\<open>None\<close>; that no parsed pattern reaches it is part of the theorems.
\<close>

subsection \<open>Channel enums and roles\<close>

text \<open>The error of a \<open>from_str\<close> is represented by the text it could not read.\<close>

datatype ChannelVisibility = Open | Private

fun visibility_as_str :: "ChannelVisibility \<Rightarrow> string" where
  "visibility_as_str Open = ''open''"
| "visibility_as_str Private = ''private''"

definition visibility_from_str :: "string \<Rightarrow> string + ChannelVisibility" where
  "visibility_from_str s =
     (if s = ''open'' then Inr Open
      else if s = ''private'' then Inr Private
      else Inl s)"

datatype ChannelType = Stream | Forum | Dm | Workflow

fun channel_type_as_str :: "ChannelType \<Rightarrow> string" where
  "channel_type_as_str Stream = ''stream''"
| "channel_type_as_str Forum = ''forum''"
| "channel_type_as_str Dm = ''dm''"
| "channel_type_as_str Workflow = ''workflow''"

definition channel_type_from_str :: "string \<Rightarrow> string + ChannelType" where
  "channel_type_from_str s =
     (if s = ''stream'' then Inr Stream
      else if s = ''forum'' then Inr Forum
      else if s = ''dm'' then Inr Dm
      else if s = ''workflow'' then Inr Workflow
      else Inl s)"

datatype MemberRole = Owner | Admin | Member | Guest | Bot

fun role_as_str :: "MemberRole \<Rightarrow> string" where
  "role_as_str Owner = ''owner''"
| "role_as_str Admin = ''admin''"
| "role_as_str Member = ''member''"
| "role_as_str Guest = ''guest''"
| "role_as_str Bot = ''bot''"

definition role_from_str :: "string \<Rightarrow> string + MemberRole" where
  "role_from_str s =
     (if s = ''owner'' then Inr Owner
      else if s = ''admin'' then Inr Admin
      else if s = ''member'' then Inr Member
      else if s = ''guest'' then Inr Guest
      else if s = ''bot'' then Inr Bot
      else Inl s)"

fun is_elevated :: "MemberRole \<Rightarrow> bool" where
  "is_elevated Owner = True"
| "is_elevated Admin = True"
| "is_elevated _ = False"

fun permission_level :: "MemberRole \<Rightarrow> nat" where
  "permission_level Owner = 4"
| "permission_level Admin = 3"
| "permission_level Member = 2"
| "permission_level Guest = 1"
| "permission_level Bot = 0"

definition has_at_least :: "MemberRole \<Rightarrow> MemberRole \<Rightarrow> bool" where
  "has_at_least role required \<longleftrightarrow> permission_level role \<ge> permission_level required"

text \<open>The levels order the roles, so the library's \<^const>\<open>max\<close> is ``the stricter role''.\<close>

lemma permission_level_inj: "permission_level a = permission_level b \<Longrightarrow> a = b"
  by (cases a; cases b) auto

instantiation MemberRole :: linorder
begin

definition less_eq_MemberRole :: "MemberRole \<Rightarrow> MemberRole \<Rightarrow> bool" where
  "less_eq_MemberRole a b \<longleftrightarrow> permission_level a \<le> permission_level b"

definition less_MemberRole :: "MemberRole \<Rightarrow> MemberRole \<Rightarrow> bool" where
  "less_MemberRole a b \<longleftrightarrow> permission_level a < permission_level b"

instance
  by standard
    (auto simp: less_eq_MemberRole_def less_MemberRole_def intro: permission_level_inj)

end

lemma has_at_least_le: "has_at_least role required \<longleftrightarrow> required \<le> role"
  by (simp add: has_at_least_def less_eq_MemberRole_def)

subsection \<open>Ref patterns\<close>

definition MAX_PROTECTION_RULES :: nat where "MAX_PROTECTION_RULES = 50"
definition MAX_PATTERN_LENGTH :: nat where "MAX_PATTERN_LENGTH = 256"
definition MAX_WILDCARDS_PER_PATTERN :: nat where "MAX_WILDCARDS_PER_PATTERN = 3"

datatype PatternSegment = Literal string | Wildcard | RecursiveWildcard

record RefPattern =
  raw :: string
  segments :: "PatternSegment list"

datatype PatternError =
    Empty | TooLong | MissingRefsPrefix | InvalidSegment string | TooManyWildcards

definition ascii_alphanumeric :: "char \<Rightarrow> bool" where
  "ascii_alphanumeric c \<longleftrightarrow>
     (let n = (of_char c :: nat)
      in (48 \<le> n \<and> n \<le> 57) \<or> (65 \<le> n \<and> n \<le> 90) \<or> (97 \<le> n \<and> n \<le> 122))"

definition literal_char :: "char \<Rightarrow> bool" where
  "literal_char c \<longleftrightarrow> ascii_alphanumeric c \<or> c = CHR ''.'' \<or> c = CHR ''_'' \<or> c = CHR ''-''"

text \<open>The loop over the parts of the pattern; \<open>n\<close> is \<open>wildcard_count\<close>.\<close>

fun parse_parts :: "nat \<Rightarrow> string list \<Rightarrow> PatternError + PatternSegment list" where
  "parse_parts n [] = Inr []"
| "parse_parts n (part # rest) =
     (if part = ''**'' then
        (if rest \<noteq> [] then Inl (InvalidSegment ''** must be the last segment'')
         else if n + 1 > MAX_WILDCARDS_PER_PATTERN then Inl TooManyWildcards
         else map_sum id (\<lambda>segs. RecursiveWildcard # segs) (parse_parts (n + 1) rest))
      else if part = ''*'' then
        (if n + 1 > MAX_WILDCARDS_PER_PATTERN then Inl TooManyWildcards
         else map_sum id (\<lambda>segs. Wildcard # segs) (parse_parts (n + 1) rest))
      else if part = [] then Inl (InvalidSegment [])
      else if CHR ''*'' \<in> set part \<or> CHR ''?'' \<in> set part \<or> CHR ''['' \<in> set part \<or> CHR '']'' \<in> set part
      then Inl (InvalidSegment part)
      else if \<not> list_all literal_char part then Inl (InvalidSegment part)
      else map_sum id (\<lambda>segs. Literal part # segs) (parse_parts n rest))"

definition RefPattern_parse :: "string \<Rightarrow> PatternError + RefPattern" where
  "RefPattern_parse pattern =
     (if pattern = [] then Inl Empty
      else if length pattern > MAX_PATTERN_LENGTH then Inl TooLong
      else if \<not> starts_with pattern ''refs/'' then Inl MissingRefsPrefix
      else map_sum id (\<lambda>segs. \<lparr>raw = pattern, segments = segs\<rparr>)
             (parse_parts 0 (split_on CHR ''/'' pattern)))"

text \<open>The zipped \<open>all\<close> of \<open>matches\<close>; \<^const>\<open>None\<close> is the \<open>unreachable!()\<close> arm.\<close>

fun zip_all :: "PatternSegment list \<Rightarrow> string list \<Rightarrow> bool option" where
  "zip_all (Wildcard # ps) (s # ss) = zip_all ps ss"
| "zip_all (Literal lit # ps) (s # ss) = (if lit = s then zip_all ps ss else Some False)"
| "zip_all (RecursiveWildcard # ps) (s # ss) = None"
| "zip_all _ _ = Some True"

definition matches :: "RefPattern \<Rightarrow> string \<Rightarrow> bool option" where
  "matches p ref_name =
     (let ref_segments = split_on CHR ''/'' ref_name
      in if segments p \<noteq> [] \<and> last (segments p) = RecursiveWildcard then
           (let prefix_len = length (segments p) - 1
            in if length ref_segments \<le> prefix_len then Some False
               else zip_all (take prefix_len (segments p)) (take prefix_len ref_segments))
         else if length ref_segments \<noteq> length (segments p) then Some False
         else zip_all (segments p) ref_segments)"

subsection \<open>Updates and rules\<close>

datatype UpdateKind = Create | FastForward | NonFastForward | Delete

definition ZERO_OID :: string where
  "ZERO_OID = replicate 40 CHR ''0''"

definition classify :: "string \<Rightarrow> string \<Rightarrow> bool \<Rightarrow> UpdateKind" where
  "classify old_oid new_oid is_ancestor =
     (if old_oid = ZERO_OID then Create
      else if new_oid = ZERO_OID then Delete
      else if is_ancestor then FastForward
      else NonFastForward)"

record RefUpdate =
  ref_name :: string
  kind :: UpdateKind
  old_oid :: string
  new_oid :: string

record ProtectionRule =
  pattern :: RefPattern
  push_role :: "MemberRole option"
  no_force_push :: bool
  no_delete :: bool
  require_patch :: bool

datatype RuleParseError =
    TooFewValues | TooManyRules | InvalidPattern PatternError | UnknownRule string
  | InvalidRole string

text \<open>\<open>take the strictest\<close>, as both the tag parser and the union of rules write it.\<close>

definition stricter :: "MemberRole option \<Rightarrow> MemberRole \<Rightarrow> MemberRole" where
  "stricter acc role =
     (case acc of
        None \<Rightarrow> role
      | Some existing \<Rightarrow>
          if permission_level role > permission_level existing then role else existing)"

fun parse_rules :: "string list \<Rightarrow> ProtectionRule \<Rightarrow> string list
    \<Rightarrow> RuleParseError + (ProtectionRule \<times> string list)" where
  "parse_rules [] rule unknown = Inr (rule, unknown)"
| "parse_rules (s # ss) rule unknown =
     (case strip_prefix s ''push:'' of
        Some role_str \<Rightarrow>
          (case role_from_str role_str of
             Inl _ \<Rightarrow> Inl (InvalidRole role_str)
           | Inr role \<Rightarrow>
               if role = Bot \<or> role = Guest then Inl (InvalidRole role_str)
               else parse_rules ss (rule\<lparr>push_role := Some (stricter (push_role rule) role)\<rparr>) unknown)
      | None \<Rightarrow>
          if s = ''no-force-push'' then parse_rules ss (rule\<lparr>no_force_push := True\<rparr>) unknown
          else if s = ''no-delete'' then parse_rules ss (rule\<lparr>no_delete := True\<rparr>) unknown
          else if s = ''require-patch'' then parse_rules ss (rule\<lparr>require_patch := True\<rparr>) unknown
          else parse_rules ss rule (unknown @ [s]))"

definition parse_protection_tag_with_warnings ::
  "string list \<Rightarrow> RuleParseError + (ProtectionRule \<times> string list)" where
  "parse_protection_tag_with_warnings values =
     (case values of
        p # r # rs \<Rightarrow>
          (case RefPattern_parse p of
             Inl e \<Rightarrow> Inl (InvalidPattern e)
           | Inr pat \<Rightarrow>
               parse_rules (r # rs)
                 \<lparr>pattern = pat, push_role = None, no_force_push = False, no_delete = False,
                  require_patch = False\<rparr> [])
      | _ \<Rightarrow> Inl TooFewValues)"

definition parse_protection_tag :: "string list \<Rightarrow> RuleParseError + ProtectionRule" where
  "parse_protection_tag values = map_sum id fst (parse_protection_tag_with_warnings values)"

record ParsedProtection =
  rules :: "ProtectionRule list"
  unknown_rules :: "string list"

fun parse_tags_loop :: "string list list \<Rightarrow> ParsedProtection \<Rightarrow> RuleParseError + ParsedProtection" where
  "parse_tags_loop [] acc = Inr acc"
| "parse_tags_loop (tag # tags) acc =
     (if (case tag of [] \<Rightarrow> True | h # _ \<Rightarrow> h \<noteq> ''buzz-protect'') then parse_tags_loop tags acc
      else if length (rules acc) \<ge> MAX_PROTECTION_RULES then Inl TooManyRules
      else (case parse_protection_tag_with_warnings (tl tag) of
              Inl e \<Rightarrow> Inl e
            | Inr (rule, unknowns) \<Rightarrow>
                parse_tags_loop tags
                  (acc\<lparr>rules := rules acc @ [rule], unknown_rules := unknown_rules acc @ unknowns\<rparr>)))"

definition parse_protection_tags :: "string list list \<Rightarrow> RuleParseError + ParsedProtection" where
  "parse_protection_tags tags = parse_tags_loop tags \<lparr>rules = [], unknown_rules = []\<rparr>"

definition default_min_role :: "string \<Rightarrow> UpdateKind \<Rightarrow> MemberRole" where
  "default_min_role name k =
     (let is_branch = starts_with name ''refs/heads/'';
          is_tag = starts_with name ''refs/tags/''
      in (case k of
            Create \<Rightarrow> if is_branch \<or> is_tag then Member else Admin
          | FastForward \<Rightarrow> if is_branch then Member else if is_tag then Admin else Admin
          | NonFastForward \<Rightarrow> Admin
          | Delete \<Rightarrow> Admin))"

record EffectiveRules =
  e_push_role :: "MemberRole option"
  e_no_force_push :: bool
  e_no_delete :: bool
  e_require_patch :: bool
  e_has_explicit_match :: bool

fun for_ref_loop :: "string \<Rightarrow> ProtectionRule list \<Rightarrow> EffectiveRules \<Rightarrow> EffectiveRules option" where
  "for_ref_loop name [] eff = Some eff"
| "for_ref_loop name (r # rs) eff =
     (case matches (pattern r) name of
        None \<Rightarrow> None
      | Some False \<Rightarrow> for_ref_loop name rs eff
      | Some True \<Rightarrow>
          for_ref_loop name rs
            \<lparr>e_push_role = (case push_role r of
                 Some role \<Rightarrow> Some (stricter (e_push_role eff) role)
               | None \<Rightarrow> e_push_role eff),
             e_no_force_push = (e_no_force_push eff \<or> no_force_push r),
             e_no_delete = (e_no_delete eff \<or> no_delete r),
             e_require_patch = (e_require_patch eff \<or> require_patch r),
             e_has_explicit_match = True\<rparr>)"

definition for_ref :: "string \<Rightarrow> ProtectionRule list \<Rightarrow> EffectiveRules option" where
  "for_ref name rs = for_ref_loop name rs
     \<lparr>e_push_role = None, e_no_force_push = False, e_no_delete = False,
      e_require_patch = False, e_has_explicit_match = False\<rparr>"

record Denial =
  d_ref_name :: string
  d_reason :: string

definition deny :: "RefUpdate \<Rightarrow> string \<Rightarrow> Denial + unit" where
  "deny u reason = Inl \<lparr>d_ref_name = ref_name u, d_reason = reason\<rparr>"

definition evaluate_ref_update ::
  "RefUpdate \<Rightarrow> MemberRole \<Rightarrow> ProtectionRule list \<Rightarrow> (Denial + unit) option" where
  "evaluate_ref_update u role rs =
     (case for_ref (ref_name u) rs of
        None \<Rightarrow> None
      | Some eff \<Rightarrow> Some
          (let default_role = default_min_role (ref_name u) (kind u) in
           if \<not> e_has_explicit_match eff then
             (if \<not> has_at_least role default_role
              then deny u (''requires '' @ role_as_str default_role @ '' role (you have '' @
                     role_as_str role @ ''), using built-in defaults'')
              else Inr ())
           else if e_require_patch eff then
             deny u ''direct push denied: require-patch is set, submit a NIP-34 patch''
           else
             (let min_role = (case e_push_role eff of
                  Some explicit \<Rightarrow>
                    if permission_level explicit \<ge> permission_level default_role then explicit
                    else default_role
                | None \<Rightarrow> default_role)
              in if \<not> has_at_least role min_role
                 then deny u (''requires '' @ role_as_str min_role @ '' role (you have '' @
                        role_as_str role @ '')'')
                 else if e_no_force_push eff \<and> kind u = NonFastForward
                 then deny u ''non-fast-forward update denied: no-force-push is set''
                 else if e_no_delete eff \<and> kind u = Delete
                 then deny u ''ref deletion denied: no-delete is set''
                 else Inr ())))"

fun collect_denials ::
  "RefUpdate list \<Rightarrow> MemberRole \<Rightarrow> ProtectionRule list \<Rightarrow> Denial list option" where
  "collect_denials [] role rs = Some []"
| "collect_denials (u # us) role rs =
     (case evaluate_ref_update u role rs of
        None \<Rightarrow> None
      | Some res \<Rightarrow>
          map_option (\<lambda>ds. (case res of Inl d \<Rightarrow> d # ds | Inr _ \<Rightarrow> ds)) (collect_denials us role rs))"

definition evaluate_push ::
  "RefUpdate list \<Rightarrow> MemberRole \<Rightarrow> ProtectionRule list \<Rightarrow> (Denial list + unit) option" where
  "evaluate_push us role rs =
     map_option (\<lambda>denials. if denials = [] then Inr () else Inl denials) (collect_denials us role rs)"

subsection \<open>Well-formed patterns\<close>

fun segment_text :: "PatternSegment \<Rightarrow> string" where
  "segment_text (Literal s) = s"
| "segment_text Wildcard = ''*''"
| "segment_text RecursiveWildcard = ''**''"

definition wildcards :: "PatternSegment list \<Rightarrow> nat" where
  "wildcards segs = length (filter (\<lambda>p. p = Wildcard \<or> p = RecursiveWildcard) segs)"

fun segment_ok :: "PatternSegment \<Rightarrow> bool" where
  "segment_ok (Literal s) \<longleftrightarrow> s \<noteq> [] \<and> list_all literal_char s"
| "segment_ok _ \<longleftrightarrow> True"

definition segments_wf :: "PatternSegment list \<Rightarrow> bool" where
  "segments_wf segs \<longleftrightarrow>
     list_all segment_ok segs \<and> RecursiveWildcard \<notin> set (butlast segs) \<and>
     wildcards segs \<le> MAX_WILDCARDS_PER_PATTERN"

lemma parse_parts_sound:
  "parse_parts n parts = Inr segs \<Longrightarrow>
     map segment_text segs = parts \<and> list_all segment_ok segs \<and>
     RecursiveWildcard \<notin> set (butlast segs) \<and>
     (wildcards segs = 0 \<or> n + wildcards segs \<le> MAX_WILDCARDS_PER_PATTERN)"
proof (induction parts arbitrary: n segs)
  case Nil
  then show ?case by (simp add: wildcards_def)
next
  case (Cons part rest)
  consider (rec) "part = ''**''" "rest = []" "segs = [RecursiveWildcard]"
      "n + 1 \<le> MAX_WILDCARDS_PER_PATTERN"
    | (wild) tl' where "part = ''*''" "segs = Wildcard # tl'" "parse_parts (n + 1) rest = Inr tl'"
      "n + 1 \<le> MAX_WILDCARDS_PER_PATTERN"
    | (lit) tl' where "segs = Literal part # tl'" "parse_parts n rest = Inr tl'"
      "part \<noteq> []" "list_all literal_char part"
    using Cons.prems by (auto split: if_splits)
  then show ?case
  proof cases
    case rec
    then show ?thesis by (simp add: wildcards_def)
  next
    case wild
    with Cons.IH [OF wild(3)] show ?thesis by (auto simp: wildcards_def)
  next
    case lit
    with Cons.IH [OF lit(2)] show ?thesis by (auto simp: wildcards_def)
  qed
qed

lemma parsed_pattern_wf:
  "RefPattern_parse s = Inr p \<Longrightarrow> RecursiveWildcard \<notin> set (butlast (segments p))"
  using parse_parts_sound [of 0 "split_on CHR ''/'' s"]
  by (auto simp: RefPattern_parse_def split: if_splits)

text \<open>
  Parsing a ref pattern is faithful and safe: a pattern that parses has at most 256
  characters, at most three wildcards, only non-empty literal segments over the allowed
  alphabet, \<open>**\<close> at most as its last segment, and printing its segments with \<open>/\<close> gives back
  exactly the text that was parsed.
\<close>

theorem RefPattern_parse_sound:
  assumes "RefPattern_parse s = Inr p"
  shows "raw p = s \<and> length s \<le> MAX_PATTERN_LENGTH \<and> segments_wf (segments p) \<and>
         join_with CHR ''/'' (map segment_text (segments p)) = s"
  using assms parse_parts_sound [of 0 "split_on CHR ''/'' s"]
  by (auto simp: RefPattern_parse_def segments_wf_def split: if_splits)

theorem RefPattern_parse_sound_witness:
  "RefPattern_parse ''refs/heads/*'' =
     Inr \<lparr>raw = ''refs/heads/*'', segments = [Literal ''refs'', Literal ''heads'', Wildcard]\<rparr> \<and>
   join_with CHR ''/'' (map segment_text [Literal ''refs'', Literal ''heads'', Wildcard]) =
     ''refs/heads/*''"
proof -
  have "RefPattern_parse ''refs/heads/*'' =
     Inr \<lparr>raw = ''refs/heads/*'', segments = [Literal ''refs'', Literal ''heads'', Wildcard]\<rparr>"
    by code_simp
  with RefPattern_parse_sound [OF this] show ?thesis by simp
qed

subsection \<open>Matching\<close>

text \<open>What a pattern means, segment by segment.\<close>

fun glob :: "PatternSegment list \<Rightarrow> string list \<Rightarrow> bool" where
  "glob [] ss \<longleftrightarrow> ss = []"
| "glob [RecursiveWildcard] ss \<longleftrightarrow> ss \<noteq> []"
| "glob (Wildcard # ps) (s # ss) \<longleftrightarrow> glob ps ss"
| "glob (Literal lit # ps) (s # ss) \<longleftrightarrow> lit = s \<and> glob ps ss"
| "glob _ _ \<longleftrightarrow> False"

lemma zip_all_glob:
  "RecursiveWildcard \<notin> set ps \<Longrightarrow> length ps = length ss \<Longrightarrow> zip_all ps ss = Some (glob ps ss)"
  by (induction ps ss rule: glob.induct) auto

lemma zip_all_glob_rec:
  "RecursiveWildcard \<notin> set ps \<Longrightarrow> length ps < length ss \<Longrightarrow>
     zip_all ps (take (length ps) ss) = Some (glob (ps @ [RecursiveWildcard]) ss)"
proof (induction ps arbitrary: ss)
  case Nil
  then show ?case by simp
next
  case (Cons p ps)
  then obtain s ss' where ss: "ss = s # ss'" by (cases ss) auto
  have ne: "ps @ [RecursiveWildcard] \<noteq> []" by simp
  with Cons ss show ?case by (cases p) auto
qed

lemma glob_length: "glob ps ss \<Longrightarrow> length ps \<le> length ss"
  by (induction ps ss rule: glob.induct) (auto simp: Suc_le_eq)

lemma glob_length_eq:
  "glob ps ss \<Longrightarrow> RecursiveWildcard \<notin> set ps \<Longrightarrow> length ps = length ss"
  by (induction ps ss rule: glob.induct) auto

lemma matches_glob:
  assumes wf: "RecursiveWildcard \<notin> set (butlast (segments p))"
  shows "matches p name = Some (glob (segments p) (split_on CHR ''/'' name))"
proof (cases "segments p \<noteq> [] \<and> last (segments p) = RecursiveWildcard")
  case True
  then obtain ps where ps: "segments p = ps @ [RecursiveWildcard]"
    by (metis append_butlast_last_id)
  with wf have "RecursiveWildcard \<notin> set ps" by simp
  with ps zip_all_glob_rec [of ps "split_on CHR ''/'' name"]
    glob_length [of "ps @ [RecursiveWildcard]" "split_on CHR ''/'' name"]
  show ?thesis by (auto simp: matches_def Let_def)
next
  case False
  then have "RecursiveWildcard \<notin> set (segments p)"
    using wf by (auto dest: in_set_butlast_or_last)
  with False zip_all_glob [of "segments p" "split_on CHR ''/'' name"]
    glob_length_eq [of "segments p" "split_on CHR ''/'' name"]
  show ?thesis by (auto simp: matches_def Let_def)
qed

text \<open>
  Matching agrees with the meaning of the pattern: for every pattern the parser accepts,
  \<open>matches\<close> never reaches \<open>unreachable!()\<close> and answers whether the segments of the ref fit the
  pattern, \<open>*\<close> standing for one segment and a final \<open>**\<close> for one or more.
\<close>

theorem matches_parsed_pattern:
  assumes "RefPattern_parse s = Inr p"
  shows "matches p name = Some (glob (segments p) (split_on CHR ''/'' name))"
  using assms by (intro matches_glob parsed_pattern_wf)

theorem matches_parsed_pattern_witness:
  "\<exists>p. RefPattern_parse ''refs/heads/**'' = Inr p \<and>
     matches p ''refs/heads/a/b'' = Some True \<and> matches p ''refs/heads'' = Some False"
proof -
  have p: "RefPattern_parse ''refs/heads/**'' =
     Inr \<lparr>raw = ''refs/heads/**'', segments = [Literal ''refs'', Literal ''heads'', RecursiveWildcard]\<rparr>"
    by code_simp
  show ?thesis
    using matches_parsed_pattern [OF p, of "''refs/heads/a/b''"]
      matches_parsed_pattern [OF p, of "''refs/heads''"] p by auto
qed

subsection \<open>The union of the matching rules\<close>

definition rules_wf :: "ProtectionRule list \<Rightarrow> bool" where
  "rules_wf rs \<longleftrightarrow> (\<forall>r\<in>set rs. RecursiveWildcard \<notin> set (butlast (segments (pattern r))))"

definition applies :: "string \<Rightarrow> ProtectionRule \<Rightarrow> bool" where
  "applies name r \<longleftrightarrow> glob (segments (pattern r)) (split_on CHR ''/'' name)"

lemma parse_rules_pattern: "parse_rules ss r u = Inr (r', u') \<Longrightarrow> pattern r' = pattern r"
  by (induction ss r u rule: parse_rules.induct) (auto split: option.splits sum.splits if_splits)

lemma parsed_rule_wf:
  assumes "parse_protection_tag_with_warnings vs = Inr (rule, u)"
  shows "RecursiveWildcard \<notin> set (butlast (segments (pattern rule)))"
proof -
  from assms obtain p pat where "RefPattern_parse p = Inr pat" and "pattern rule = pat"
    by (auto simp: parse_protection_tag_with_warnings_def simp del: parse_rules.simps
        dest: parse_rules_pattern split: list.splits sum.splits)
  then show ?thesis by (simp add: parsed_pattern_wf)
qed

lemma parse_tags_loop_inv:
  "parse_tags_loop tags acc = Inr pp \<Longrightarrow> rules_wf (rules acc) \<Longrightarrow>
     length (rules acc) \<le> MAX_PROTECTION_RULES \<Longrightarrow>
     rules_wf (rules pp) \<and> length (rules pp) \<le> MAX_PROTECTION_RULES"
proof (induction tags arbitrary: acc)
  case Nil
  then show ?case by simp
next
  case (Cons tag tags)
  show ?case
  proof (cases "case tag of [] \<Rightarrow> True | h # _ \<Rightarrow> h \<noteq> ''buzz-protect''")
    case True
    with Cons.prems(1) have "parse_tags_loop tags acc = Inr pp" by simp
    from Cons.IH [OF this Cons.prems(2,3)] show ?thesis .
  next
    case False
    with Cons.prems(1) obtain rule u where len: "length (rules acc) < MAX_PROTECTION_RULES"
      and parsed: "parse_protection_tag_with_warnings (tl tag) = Inr (rule, u)"
      and rest: "parse_tags_loop tags (acc\<lparr>rules := rules acc @ [rule],
        unknown_rules := unknown_rules acc @ u\<rparr>) = Inr pp"
      by (simp split: if_splits sum.splits prod.splits)
    from Cons.IH [OF rest] len Cons.prems(2) parsed_rule_wf [OF parsed] show ?thesis
      by (simp add: rules_wf_def)
  qed
qed

text \<open>A role requirement, with no requirement below every role.\<close>

definition role_ok :: "MemberRole \<Rightarrow> MemberRole option \<Rightarrow> bool" where
  "role_ok role req \<longleftrightarrow> (case req of None \<Rightarrow> True | Some q \<Rightarrow> q \<le> role)"

lemma role_ok_None [simp]: "role_ok role None"
  by (simp add: role_ok_def)

lemma stricter_ok: "stricter acc q \<le> role \<longleftrightarrow> role_ok role acc \<and> q \<le> role"
  by (cases acc) (auto simp: stricter_def role_ok_def less_eq_MemberRole_def)

lemma for_ref_loop_spec:
  "rules_wf rs \<Longrightarrow> \<exists>e. for_ref_loop name rs eff = Some e \<and>
     (\<forall>role. role_ok role (e_push_role e) \<longleftrightarrow>
        role_ok role (e_push_role eff) \<and> (\<forall>r\<in>set rs. applies name r \<longrightarrow> role_ok role (push_role r))) \<and>
     (e_no_force_push e \<longleftrightarrow> e_no_force_push eff \<or> (\<exists>r\<in>set rs. applies name r \<and> no_force_push r)) \<and>
     (e_no_delete e \<longleftrightarrow> e_no_delete eff \<or> (\<exists>r\<in>set rs. applies name r \<and> no_delete r)) \<and>
     (e_require_patch e \<longleftrightarrow> e_require_patch eff \<or> (\<exists>r\<in>set rs. applies name r \<and> require_patch r)) \<and>
     (e_has_explicit_match e \<longleftrightarrow> e_has_explicit_match eff \<or> (\<exists>r\<in>set rs. applies name r))"
proof (induction rs arbitrary: eff)
  case Nil
  then show ?case by simp
next
  case (Cons r rs)
  then have m: "matches (pattern r) name = Some (applies name r)" and wf: "rules_wf rs"
    by (auto simp: rules_wf_def applies_def matches_glob)
  show ?case
  proof (cases "applies name r")
    case False
    with m Cons.IH [OF wf, of eff] show ?thesis by auto
  next
    case True
    let ?eff = "\<lparr>e_push_role = (case push_role r of
                 Some role \<Rightarrow> Some (stricter (e_push_role eff) role)
               | None \<Rightarrow> e_push_role eff),
             e_no_force_push = (e_no_force_push eff \<or> no_force_push r),
             e_no_delete = (e_no_delete eff \<or> no_delete r),
             e_require_patch = (e_require_patch eff \<or> require_patch r),
             e_has_explicit_match = True\<rparr>"
    have "role_ok role (e_push_role ?eff) \<longleftrightarrow>
        role_ok role (e_push_role eff) \<and> role_ok role (push_role r)" for role
      by (cases "push_role r") (simp_all add: role_ok_def stricter_ok)
    with True m Cons.IH [OF wf, of ?eff] show ?thesis by auto
  qed
qed

lemma for_ref_spec:
  assumes "rules_wf rs"
  obtains e where "for_ref name rs = Some e"
    and "\<forall>role. role_ok role (e_push_role e) \<longleftrightarrow>
        (\<forall>r\<in>set rs. applies name r \<longrightarrow> role_ok role (push_role r))"
    and "e_no_force_push e \<longleftrightarrow> (\<exists>r\<in>set rs. applies name r \<and> no_force_push r)"
    and "e_no_delete e \<longleftrightarrow> (\<exists>r\<in>set rs. applies name r \<and> no_delete r)"
    and "e_require_patch e \<longleftrightarrow> (\<exists>r\<in>set rs. applies name r \<and> require_patch r)"
    and "e_has_explicit_match e \<longleftrightarrow> (\<exists>r\<in>set rs. applies name r)"
  using for_ref_loop_spec [OF assms, of name "\<lparr>e_push_role = None, e_no_force_push = False,
      e_no_delete = False, e_require_patch = False, e_has_explicit_match = False\<rparr>"]
  by (auto simp: for_ref_def)

subsection \<open>The decision\<close>

definition allowed_by :: "RefUpdate \<Rightarrow> MemberRole \<Rightarrow> ProtectionRule \<Rightarrow> bool" where
  "allowed_by u role r \<longleftrightarrow>
     \<not> require_patch r \<and> role_ok role (push_role r) \<and>
     \<not> (no_force_push r \<and> kind u = NonFastForward) \<and> \<not> (no_delete r \<and> kind u = Delete)"

lemma evaluate_ref_update_iff:
  assumes "rules_wf rs"
  shows "\<exists>res. evaluate_ref_update u role rs = Some res \<and>
     ((res = Inr ()) \<longleftrightarrow> default_min_role (ref_name u) (kind u) \<le> role \<and>
       (\<forall>r\<in>set rs. applies (ref_name u) r \<longrightarrow> allowed_by u role r))"
proof -
  let ?d = "default_min_role (ref_name u) (kind u)"
  obtain e where e: "for_ref (ref_name u) rs = Some e"
    and pr: "\<forall>role. role_ok role (e_push_role e) \<longleftrightarrow>
        (\<forall>r\<in>set rs. applies (ref_name u) r \<longrightarrow> role_ok role (push_role r))"
    and flags: "e_no_force_push e \<longleftrightarrow> (\<exists>r\<in>set rs. applies (ref_name u) r \<and> no_force_push r)"
      "e_no_delete e \<longleftrightarrow> (\<exists>r\<in>set rs. applies (ref_name u) r \<and> no_delete r)"
      "e_require_patch e \<longleftrightarrow> (\<exists>r\<in>set rs. applies (ref_name u) r \<and> require_patch r)"
      "e_has_explicit_match e \<longleftrightarrow> (\<exists>r\<in>set rs. applies (ref_name u) r)"
    using for_ref_spec [OF assms, of "ref_name u"] by blast
  have mr: "has_at_least role (case e_push_role e of
        Some explicit \<Rightarrow> if permission_level explicit \<ge> permission_level ?d then explicit else ?d
      | None \<Rightarrow> ?d) \<longleftrightarrow> ?d \<le> role \<and>
        (\<forall>r\<in>set rs. applies (ref_name u) r \<longrightarrow> role_ok role (push_role r))"
    unfolding pr [rule_format, symmetric]
    by (cases "e_push_role e") (auto simp: has_at_least_def role_ok_def less_eq_MemberRole_def)
  show ?thesis
  proof (cases "e_has_explicit_match e")
    case False
    then show ?thesis
      using e flags(4) by (auto simp: evaluate_ref_update_def Let_def deny_def has_at_least_le)
  next
    case True
    then show ?thesis
      using e unfolding evaluate_ref_update_def Let_def deny_def allowed_by_def e option.case mr flags
      by auto
  qed
qed

lemma collect_denials_spec:
  assumes "rules_wf rs"
  shows "\<exists>ds. collect_denials us role rs = Some ds \<and>
     (ds = [] \<longleftrightarrow> (\<forall>u\<in>set us. default_min_role (ref_name u) (kind u) \<le> role \<and>
       (\<forall>r\<in>set rs. applies (ref_name u) r \<longrightarrow> allowed_by u role r)))"
proof (induction us)
  case Nil
  then show ?case by simp
next
  case (Cons u us)
  then obtain ds where "collect_denials us role rs = Some ds"
    and "ds = [] \<longleftrightarrow> (\<forall>u\<in>set us. default_min_role (ref_name u) (kind u) \<le> role \<and>
       (\<forall>r\<in>set rs. applies (ref_name u) r \<longrightarrow> allowed_by u role r))" by blast
  moreover obtain res where "evaluate_ref_update u role rs = Some res"
    and "(res = Inr ()) \<longleftrightarrow> default_min_role (ref_name u) (kind u) \<le> role \<and>
       (\<forall>r\<in>set rs. applies (ref_name u) r \<longrightarrow> allowed_by u role r)"
    using evaluate_ref_update_iff [OF assms] by blast
  ultimately show ?case by (cases res) auto
qed

lemma evaluate_push_iff:
  assumes "rules_wf rs"
  shows "evaluate_push us role rs = Some (Inr ()) \<longleftrightarrow>
     (\<forall>u\<in>set us. default_min_role (ref_name u) (kind u) \<le> role \<and>
       (\<forall>r\<in>set rs. applies (ref_name u) r \<longrightarrow> allowed_by u role r))"
  using collect_denials_spec [OF assms, of us role] by (auto simp: evaluate_push_def split: if_splits)

text \<open>
  C22. The decision on a push, in closed form. With rules read from \<open>buzz-protect\<close> tags the
  engine always answers, and it accepts a push if and only if every update in it satisfies the
  built-in minimum role and every single rule whose pattern fits the ref: no \<open>require-patch\<close>,
  the rule's own push role, no force push and no deletion where the rule forbids them. The
  explicit rules are thus a conjunction with the defaults and never replace them, and no role,
  not even the owner, passes a forbidding rule.
\<close>

theorem evaluate_push_decision:
  assumes "parse_protection_tags tags = Inr pp"
  shows "\<exists>res. evaluate_push us role (rules pp) = Some res \<and>
     (res = Inr () \<longleftrightarrow>
       (\<forall>u\<in>set us. has_at_least role (default_min_role (ref_name u) (kind u)) \<and>
         (\<forall>r\<in>set (rules pp). glob (segments (pattern r)) (split_on CHR ''/'' (ref_name u)) \<longrightarrow>
            \<not> require_patch r \<and>
            (\<forall>q. push_role r = Some q \<longrightarrow> has_at_least role q) \<and>
            \<not> (no_force_push r \<and> kind u = NonFastForward) \<and>
            \<not> (no_delete r \<and> kind u = Delete))))"
proof -
  from parse_tags_loop_inv [of tags _ pp] assms have wf: "rules_wf (rules pp)"
    by (simp add: parse_protection_tags_def rules_wf_def)
  obtain ds where "evaluate_push us role (rules pp) = Some (if ds = [] then Inr () else Inl ds)"
    using collect_denials_spec [OF wf, of us role] by (auto simp: evaluate_push_def)
  with evaluate_push_iff [OF wf, of us role] show ?thesis
    by (auto simp: has_at_least_le applies_def allowed_by_def role_ok_def split: option.splits)
qed

definition demo_tags :: "string list list" where
  "demo_tags = [[''buzz-protect'', ''refs/heads/main'', ''push:admin'', ''no-force-push'']]"

definition demo_update :: "UpdateKind \<Rightarrow> RefUpdate" where
  "demo_update k = \<lparr>ref_name = ''refs/heads/main'', kind = k, old_oid = ''1'', new_oid = ''2''\<rparr>"

definition demo_rules :: ParsedProtection where
  "demo_rules = \<lparr>rules = [\<lparr>pattern = \<lparr>raw = ''refs/heads/main'',
        segments = [Literal ''refs'', Literal ''heads'', Literal ''main'']\<rparr>,
      push_role = Some Admin, no_force_push = True, no_delete = False, require_patch = False\<rparr>],
    unknown_rules = []\<rparr>"

lemma demo_tags_parse: "parse_protection_tags demo_tags = Inr demo_rules"
  unfolding demo_tags_def demo_rules_def by code_simp

theorem evaluate_push_decision_witness:
  "parse_protection_tags demo_tags = Inr demo_rules \<and>
   evaluate_push [demo_update FastForward] Admin (rules demo_rules) = Some (Inr ()) \<and>
   evaluate_push [demo_update NonFastForward] Owner (rules demo_rules) \<noteq> Some (Inr ())"
  using evaluate_push_decision [OF demo_tags_parse, of "[demo_update FastForward]" Admin]
    evaluate_push_decision [OF demo_tags_parse, of "[demo_update NonFastForward]" Owner]
  by (auto simp: demo_tags_parse demo_rules_def demo_update_def default_min_role_def has_at_least_def
      starts_with_def)

text \<open>
  Protection only restricts: taking rules away never turns an accepted push into a
  refused one, so adding a \<open>buzz-protect\<close> rule, in any position and to any set of rules, can
  never permit a push that was denied without it.
\<close>

theorem evaluate_push_antitone:
  assumes "rules_wf rs'" and "set rs \<subseteq> set rs'"
    and "evaluate_push us role rs' = Some (Inr ())"
  shows "evaluate_push us role rs = Some (Inr ())"
proof -
  from assms(1,2) have "rules_wf rs" by (auto simp: rules_wf_def)
  with assms show ?thesis by (auto simp: evaluate_push_iff)
qed

theorem evaluate_push_antitone_witness:
  "rules_wf (rules demo_rules) \<and>
   evaluate_push [demo_update FastForward] Admin (rules demo_rules) = Some (Inr ()) \<and>
   evaluate_push [demo_update FastForward] Admin [] = Some (Inr ())"
proof -
  have wf: "rules_wf (rules demo_rules)" by (simp add: rules_wf_def demo_rules_def)
  have ok: "evaluate_push [demo_update FastForward] Admin (rules demo_rules) = Some (Inr ())"
    unfolding demo_rules_def demo_update_def by code_simp
  from evaluate_push_antitone [OF wf _ ok, of "[]"] wf ok show ?thesis by simp
qed

text \<open>
  Reading the tags of a repository: whatever the tags are, the parser yields at most 50
  rules, each with a pattern that is safe to match, and reports an error otherwise.
\<close>

theorem parse_protection_tags_bounded:
  assumes "parse_protection_tags tags = Inr pp"
  shows "length (rules pp) \<le> MAX_PROTECTION_RULES \<and> rules_wf (rules pp)"
  using parse_tags_loop_inv [of tags _ pp] assms
  by (simp add: parse_protection_tags_def rules_wf_def MAX_PROTECTION_RULES_def)

theorem parse_protection_tags_bounded_witness:
  "parse_protection_tags demo_tags = Inr demo_rules \<and> length (rules demo_rules) \<le> 50"
  using parse_protection_tags_bounded [OF demo_tags_parse]
  by (simp add: demo_tags_parse MAX_PROTECTION_RULES_def)

lemma role_roundtrip: "role_from_str (role_as_str r) = Inr r"
  by (cases r) (simp_all add: role_from_str_def)

lemma channel_type_roundtrip: "channel_type_from_str (channel_type_as_str t) = Inr t"
  by (cases t) (simp_all add: channel_type_from_str_def)

lemma visibility_roundtrip: "visibility_from_str (visibility_as_str v) = Inr v"
  by (cases v) (simp_all add: visibility_from_str_def)

text \<open>
  The textual forms of roles, channel types and visibilities read back to the same value,
  and nothing else reads as a role: each text has at most one meaning.
\<close>

theorem channel_enum_roundtrip:
  "role_from_str (role_as_str r) = Inr r \<and>
   channel_type_from_str (channel_type_as_str t) = Inr t \<and>
   visibility_from_str (visibility_as_str v) = Inr v \<and>
   (role_from_str s = Inr r \<longleftrightarrow> s = role_as_str r) \<and>
   (channel_type_from_str s = Inr t \<longleftrightarrow> s = channel_type_as_str t) \<and>
   (visibility_from_str s = Inr v \<longleftrightarrow> s = visibility_as_str v)"
  by (cases r; cases t; cases v)
    (auto simp: role_from_str_def channel_type_from_str_def visibility_from_str_def)

end
