(* ===== verification/Acp_Queue.thy ===== *)
theory Acp_Queue
  imports Events "HOL-Library.Multiset"
begin

text \<open>
  The event queue of the agent harness (\<open>buzz-acp/src/queue.rs\<close>): per-channel queues, the
  in-flight channels with their deadlines, retry backoff, cancelled batches and the side table
  of events withheld while a steer is in flight. Every method that reads the clock takes the
  instant \<open>now\<close> as an argument; instants and durations are nanoseconds. Log calls are left out.
\<close>

subsection \<open>State\<close>

definition MAX_PENDING_PER_CHANNEL :: nat where "MAX_PENDING_PER_CHANNEL = 500"
definition MAX_BATCH_EVENTS :: nat where "MAX_BATCH_EVENTS = 50"
definition MAX_RETRIES :: nat where "MAX_RETRIES = 10"
definition BASE_RETRY_DELAY_SECS :: nat where "BASE_RETRY_DELAY_SECS = 5"
definition MAX_RETRY_DELAY_SECS :: nat where "MAX_RETRY_DELAY_SECS = 300"
definition IN_FLIGHT_DEADLINE_BUFFER_SECS :: nat where "IN_FLIGHT_DEADLINE_BUFFER_SECS = 100"
definition DEFAULT_IN_FLIGHT_DEADLINE_SECS :: nat where "DEFAULT_IN_FLIGHT_DEADLINE_SECS = 7300"

abbreviation secs :: "nat \<Rightarrow> nat" where "secs n \<equiv> n * 1000000000"

datatype DedupMode = Drop | Queue
datatype CancelReason = Interrupt | Steer

record QueuedEvent =
  qe_channel_id :: uuid
  qe_event :: nostr_event
  qe_received_at :: instant
  qe_prompt_tag :: string

record BatchEvent =
  be_event :: nostr_event
  be_prompt_tag :: string
  be_received_at :: instant

record FlushBatch =
  fb_channel_id :: uuid
  fb_events :: "BatchEvent list"
  fb_cancelled_events :: "BatchEvent list"
  fb_cancel_reason :: "CancelReason option"

record EventQueue =
  queues :: "(uuid, QueuedEvent list) hmap"
  in_flight_channels :: "uuid set"
  in_flight_deadlines :: "(uuid, instant) hmap"
  in_flight_batch_sizes :: "(uuid, nat) hmap"
  retry_after :: "(uuid, instant) hmap"
  retry_counts :: "(uuid, nat) hmap"
  dedup_mode :: DedupMode
  cancelled_batches :: "(uuid, BatchEvent list) hmap"
  cancel_reasons :: "(uuid, CancelReason) hmap"
  withheld_native_steer :: "(uuid, QueuedEvent list) hmap"
  in_flight_deadline :: nat

definition EventQueue_new :: "DedupMode \<Rightarrow> EventQueue" where
  "EventQueue_new m =
     \<lparr>queues = [], in_flight_channels = {}, in_flight_deadlines = [], in_flight_batch_sizes = [],
      retry_after = [], retry_counts = [], dedup_mode = m, cancelled_batches = [],
      cancel_reasons = [], withheld_native_steer = [],
      in_flight_deadline = secs DEFAULT_IN_FLIGHT_DEADLINE_SECS\<rparr>"

definition with_in_flight_deadline :: "nat \<Rightarrow> EventQueue \<Rightarrow> EventQueue" where
  "with_in_flight_deadline max_turn q =
     q\<lparr>in_flight_deadline := secs (max_turn + IN_FLIGHT_DEADLINE_BUFFER_SECS)\<rparr>"

definition extend_in_flight_deadline :: "instant \<Rightarrow> uuid \<Rightarrow> nat \<Rightarrow> EventQueue \<Rightarrow> EventQueue" where
  "extend_in_flight_deadline now ch max_turn q =
     (case hget (in_flight_deadlines q) ch of
        None \<Rightarrow> q
      | Some current \<Rightarrow>
          (let extended = now + secs (max_turn + IN_FLIGHT_DEADLINE_BUFFER_SECS)
           in if extended > current
              then q\<lparr>in_flight_deadlines := hput ch extended (in_flight_deadlines q)\<rparr> else q))"

subsection \<open>Queue surgery\<close>

definition chan_queue :: "EventQueue \<Rightarrow> uuid \<Rightarrow> QueuedEvent list" where
  "chan_queue q ch = (case hget (queues q) ch of None \<Rightarrow> [] | Some es \<Rightarrow> es)"

text \<open>\<open>while queue.len() > MAX_PENDING_PER_CHANNEL { queue.pop_back() }\<close>\<close>

function trim_back :: "'a list \<Rightarrow> 'a list" where
  "trim_back es = (if length es > MAX_PENDING_PER_CHANNEL then trim_back (butlast es) else es)"
  by pat_completeness auto
termination
  by (relation "measure length") auto

declare trim_back.simps [simp del]

text \<open>\<open>for e in events.rev() { queue.push_front(e) }\<close>\<close>

definition push_front_all :: "'a list \<Rightarrow> 'a list \<Rightarrow> 'a list" where
  "push_front_all es queue = fold (\<lambda>e acc. e # acc) (rev es) queue"

definition to_queued :: "uuid \<Rightarrow> BatchEvent \<Rightarrow> QueuedEvent" where
  "to_queued ch be = \<lparr>qe_channel_id = ch, qe_event = be_event be,
     qe_received_at = be_received_at be, qe_prompt_tag = be_prompt_tag be\<rparr>"

definition to_batch :: "QueuedEvent \<Rightarrow> BatchEvent" where
  "to_batch qe = \<lparr>be_event = qe_event qe, be_prompt_tag = qe_prompt_tag qe,
     be_received_at = qe_received_at qe\<rparr>"

definition push :: "QueuedEvent \<Rightarrow> EventQueue \<Rightarrow> bool \<times> EventQueue" where
  "push e q =
     (if dedup_mode q = Drop \<and> qe_channel_id e \<in> in_flight_channels q then (False, q)
      else (let queue = chan_queue q (qe_channel_id e);
                queue' = (if length queue \<ge> MAX_PENDING_PER_CHANNEL then tl queue else queue)
            in (True, q\<lparr>queues := hput (qe_channel_id e) (queue' @ [e]) (queues q)\<rparr>)))"

definition recover_withheld_for_expired_channel :: "uuid \<Rightarrow> EventQueue \<Rightarrow> EventQueue" where
  "recover_withheld_for_expired_channel ch q =
     (case hget (withheld_native_steer q) ch of
        None \<Rightarrow> q
      | Some entries \<Rightarrow>
          q\<lparr>withheld_native_steer := hdel ch (withheld_native_steer q),
            queues := hput ch (trim_back (push_front_all entries (chan_queue q ch))) (queues q)\<rparr>)"

text \<open>One round of the expiry loop shared by \<open>flush_next\<close> and \<open>has_flushable_work\<close>.\<close>

definition expire_one :: "uuid \<Rightarrow> EventQueue \<Rightarrow> EventQueue" where
  "expire_one ch q =
     recover_withheld_for_expired_channel ch
       (q\<lparr>in_flight_batch_sizes := hdel ch (in_flight_batch_sizes q),
          in_flight_channels := in_flight_channels q - {ch},
          in_flight_deadlines := hdel ch (in_flight_deadlines q)\<rparr>)"

definition expire_stuck :: "instant \<Rightarrow> EventQueue \<Rightarrow> EventQueue" where
  "expire_stuck now q =
     fold expire_one (map fst (filter (\<lambda>(ch, deadline). now \<ge> deadline) (in_flight_deadlines q))) q"

definition ready :: "instant \<Rightarrow> EventQueue \<Rightarrow> uuid \<times> QueuedEvent list \<Rightarrow> bool" where
  "ready now q entry =
     (case entry of (ch, es) \<Rightarrow>
        es \<noteq> [] \<and> ch \<notin> in_flight_channels q \<and>
        (case hget (retry_after q) ch of None \<Rightarrow> True | Some t \<Rightarrow> t \<le> now))"

text \<open>\<open>Iterator::min_by_key\<close>: the first of the minimal elements.\<close>

fun min_by_key :: "('a \<Rightarrow> nat) \<Rightarrow> 'a list \<Rightarrow> 'a option" where
  "min_by_key f [] = None"
| "min_by_key f (x # xs) =
     (case min_by_key f xs of
        None \<Rightarrow> Some x
      | Some y \<Rightarrow> if f y < f x then Some y else Some x)"

definition oldest_ready :: "instant \<Rightarrow> EventQueue \<Rightarrow> uuid option" where
  "oldest_ready now q =
     map_option fst (min_by_key (\<lambda>(ch, es). qe_received_at (hd es)) (filter (ready now q) (queues q)))"

definition mark_in_flight :: "instant \<Rightarrow> uuid \<Rightarrow> nat \<Rightarrow> EventQueue \<Rightarrow> EventQueue" where
  "mark_in_flight now ch n q =
     q\<lparr>in_flight_channels := insert ch (in_flight_channels q),
       in_flight_deadlines := hput ch (now + in_flight_deadline q) (in_flight_deadlines q),
       in_flight_batch_sizes := hput ch n (in_flight_batch_sizes q)\<rparr>"

text \<open>The fallback of \<open>flush_next\<close>: re-dispatch a cancelled batch when no queue is ready.\<close>

definition flush_cancelled :: "instant \<Rightarrow> EventQueue \<Rightarrow> FlushBatch option \<times> EventQueue" where
  "flush_cancelled now q =
     (case List.find (\<lambda>ch. ch \<notin> in_flight_channels q) (hkeys (cancelled_batches q)) of
        None \<Rightarrow> (None, q)
      | Some ch \<Rightarrow>
          (let cancelled = (case hget (cancelled_batches q) ch of None \<Rightarrow> [] | Some es \<Rightarrow> es)
           in (Some \<lparr>fb_channel_id = ch, fb_events = cancelled, fb_cancelled_events = [],
                     fb_cancel_reason = hget (cancel_reasons q) ch\<rparr>,
               mark_in_flight now ch (length cancelled)
                 (q\<lparr>cancelled_batches := hdel ch (cancelled_batches q),
                    cancel_reasons := hdel ch (cancel_reasons q)\<rparr>))))"

text \<open>The main path of \<open>flush_next\<close>, once the channel is chosen.\<close>

definition flush_channel :: "instant \<Rightarrow> uuid \<Rightarrow> EventQueue \<Rightarrow> FlushBatch \<times> EventQueue" where
  "flush_channel now ch q =
     (let queue = chan_queue q ch;
          drain_count = min MAX_BATCH_EVENTS (length queue);
          events = sort_key (\<lambda>be. ev_created_at (be_event be)) (map to_batch (take drain_count queue));
          rest = drop drain_count queue;
          q1 = q\<lparr>queues := (if rest = [] then hdel ch (queues q) else hput ch rest (queues q))\<rparr>;
          q2 = mark_in_flight now ch (length events) q1;
          cancelled = (case hget (cancelled_batches q) ch of None \<Rightarrow> [] | Some es \<Rightarrow> es);
          reason = (if cancelled = [] then None else hget (cancel_reasons q) ch)
      in (\<lparr>fb_channel_id = ch, fb_events = events, fb_cancelled_events = cancelled,
           fb_cancel_reason = reason\<rparr>,
          q2\<lparr>cancelled_batches := hdel ch (cancelled_batches q),
             cancel_reasons := hdel ch (cancel_reasons q)\<rparr>))"

definition flush_next :: "instant \<Rightarrow> EventQueue \<Rightarrow> FlushBatch option \<times> EventQueue" where
  "flush_next now q =
     (let q1 = expire_stuck now q
      in (case oldest_ready now q1 of
            Some ch \<Rightarrow> (let (batch, q2) = flush_channel now ch q1 in (Some batch, q2))
          | None \<Rightarrow> flush_cancelled now q1))"

definition mark_complete :: "instant \<Rightarrow> uuid \<Rightarrow> EventQueue \<Rightarrow> EventQueue" where
  "mark_complete now ch q =
     (let q1 = q\<lparr>in_flight_channels := in_flight_channels q - {ch},
                 in_flight_deadlines := hdel ch (in_flight_deadlines q),
                 in_flight_batch_sizes := hdel ch (in_flight_batch_sizes q)\<rparr>
      in (case hget (retry_after q1) ch of
            Some deadline \<Rightarrow>
              if deadline > now then q1
              else q1\<lparr>retry_after := hdel ch (retry_after q1), retry_counts := hdel ch (retry_counts q1)\<rparr>
          | None \<Rightarrow> q1\<lparr>retry_counts := hdel ch (retry_counts q1)\<rparr>))"

text \<open>
  The retry delay: base times a power of two, capped, times a jitter of
  \<open>0.8 + nanos / u32::MAX * 0.4\<close> where \<open>nanos\<close> is the sub-second part of the wall clock. The
  product is computed exactly and cut to whole nanoseconds; the rounding of the \<open>f64\<close>
  arithmetic is not modelled.
\<close>

definition capped_secs :: "nat \<Rightarrow> nat" where
  "capped_secs attempt =
     min (BASE_RETRY_DELAY_SECS * 2 ^ min (attempt - 1) 6) MAX_RETRY_DELAY_SECS"

definition u32_max :: nat where "u32_max = 4294967295"

definition retry_delay :: "nat \<Rightarrow> nat \<Rightarrow> nat" where
  "retry_delay attempt nanos =
     secs (capped_secs attempt) * (8 * u32_max + 4 * nanos) div (10 * u32_max)"

definition requeue :: "instant \<Rightarrow> nat \<Rightarrow> FlushBatch \<Rightarrow> EventQueue \<Rightarrow> FlushBatch option \<times> EventQueue" where
  "requeue now nanos batch q =
     (let ch = fb_channel_id batch;
          attempt = (case hget (retry_counts q) ch of None \<Rightarrow> 0 | Some n \<Rightarrow> n) + 1;
          q1 = q\<lparr>retry_counts := hput ch attempt (retry_counts q)\<rparr>
      in if attempt > MAX_RETRIES then
           (Some batch, q1\<lparr>retry_counts := hdel ch (retry_counts q1),
                           retry_after := hdel ch (retry_after q1)\<rparr>)
         else
           (None,
            q1\<lparr>queues := hput ch (trim_back (push_front_all (map (to_queued ch) (fb_events batch))
                                   (chan_queue q ch))) (queues q1),
               retry_after := hput ch (now + retry_delay attempt nanos) (retry_after q1)\<rparr>))"

definition requeue_preserve_timestamps :: "FlushBatch \<Rightarrow> EventQueue \<Rightarrow> EventQueue" where
  "requeue_preserve_timestamps batch q =
     (let ch = fb_channel_id batch
      in q\<lparr>queues := hput ch (trim_back (push_front_all (map (to_queued ch) (fb_events batch))
                                 (chan_queue q ch))) (queues q)\<rparr>)"

definition requeue_as_cancelled :: "FlushBatch \<Rightarrow> CancelReason \<Rightarrow> EventQueue \<Rightarrow> EventQueue" where
  "requeue_as_cancelled batch reason q =
     (let ch = fb_channel_id batch;
          entry = (case hget (cancelled_batches q) ch of None \<Rightarrow> [] | Some es \<Rightarrow> es)
      in q\<lparr>cancelled_batches := hput ch (entry @ fb_cancelled_events batch @ fb_events batch)
             (cancelled_batches q),
           cancel_reasons := hput ch reason (cancel_reasons q)\<rparr>)"

definition has_flushable_work :: "instant \<Rightarrow> EventQueue \<Rightarrow> bool \<times> EventQueue" where
  "has_flushable_work now q =
     (let q1 = expire_stuck now q
      in (list_ex (ready now q1) (queues q1) \<or>
          list_ex (\<lambda>ch. ch \<notin> in_flight_channels q1) (hkeys (cancelled_batches q1)), q1))"

definition pending_channels :: "EventQueue \<Rightarrow> nat" where
  "pending_channels q = length (queues q)"

definition drain_channel :: "uuid \<Rightarrow> EventQueue \<Rightarrow> string list \<times> EventQueue" where
  "drain_channel ch q =
     (map (\<lambda>e. ev_id (qe_event e)) (chan_queue q ch),
      q\<lparr>queues := hdel ch (queues q), retry_after := hdel ch (retry_after q),
        retry_counts := hdel ch (retry_counts q), cancelled_batches := hdel ch (cancelled_batches q),
        cancel_reasons := hdel ch (cancel_reasons q),
        withheld_native_steer := hdel ch (withheld_native_steer q)\<rparr>)"

definition is_channel_in_flight :: "uuid \<Rightarrow> EventQueue \<Rightarrow> bool" where
  "is_channel_in_flight ch q \<longleftrightarrow> ch \<in> in_flight_channels q"

text \<open>\<open>position\<close> followed by \<open>remove\<close>: the first element with the property, and the rest.\<close>

fun take_first :: "('a \<Rightarrow> bool) \<Rightarrow> 'a list \<Rightarrow> ('a \<times> 'a list) option" where
  "take_first P [] = None"
| "take_first P (x # xs) =
     (if P x then Some (x, xs)
      else map_option (\<lambda>(y, ys). (y, x # ys)) (take_first P xs))"

definition mark_native_steer_pending :: "uuid \<Rightarrow> string \<Rightarrow> EventQueue \<Rightarrow> bool \<times> EventQueue" where
  "mark_native_steer_pending ch event_id q =
     (case hget (queues q) ch of
        None \<Rightarrow> (False, q)
      | Some es \<Rightarrow>
          (case take_first (\<lambda>e. ev_id (qe_event e) = event_id) es of
             None \<Rightarrow> (False, q)
           | Some (e, rest) \<Rightarrow>
               (True,
                q\<lparr>queues := (if rest = [] then hdel ch (queues q) else hput ch rest (queues q)),
                  withheld_native_steer := hput ch
                    ((case hget (withheld_native_steer q) ch of None \<Rightarrow> [] | Some ws \<Rightarrow> ws) @ [e])
                    (withheld_native_steer q)\<rparr>)))"

definition release_native_steer :: "uuid \<Rightarrow> string \<Rightarrow> EventQueue \<Rightarrow> EventQueue" where
  "release_native_steer ch event_id q =
     (case hget (withheld_native_steer q) ch of
        None \<Rightarrow> q
      | Some entries \<Rightarrow>
          (case take_first (\<lambda>e. ev_id (qe_event e) = event_id) entries of
             None \<Rightarrow> q
           | Some (e, rest) \<Rightarrow>
               q\<lparr>withheld_native_steer :=
                   (if rest = [] then hdel ch (withheld_native_steer q)
                    else hput ch rest (withheld_native_steer q)),
                 queues := hput ch (trim_back (e # chan_queue q ch)) (queues q)\<rparr>))"

definition remove_event_from ::
  "uuid \<Rightarrow> string \<Rightarrow> (uuid, QueuedEvent list) hmap \<Rightarrow> (uuid, QueuedEvent list) hmap" where
  "remove_event_from ch event_id m =
     (case hget m ch of
        None \<Rightarrow> m
      | Some es \<Rightarrow>
          (let es' = filter (\<lambda>e. ev_id (qe_event e) \<noteq> event_id) es
           in if es' = [] then hdel ch m else hput ch es' m))"

definition remove_event :: "uuid \<Rightarrow> string \<Rightarrow> EventQueue \<Rightarrow> EventQueue" where
  "remove_event ch event_id q =
     q\<lparr>withheld_native_steer := remove_event_from ch event_id (withheld_native_steer q),
       queues := remove_event_from ch event_id (queues q)\<rparr>"

definition compact_expired_state :: "instant \<Rightarrow> EventQueue \<Rightarrow> EventQueue" where
  "compact_expired_state now q =
     (let ra = filter (\<lambda>(ch, deadline). deadline > now) (retry_after q)
      in q\<lparr>retry_after := ra,
           retry_counts := filter (\<lambda>(ch, n). ch \<in> set (hkeys ra) \<or>
               (case hget (queues q) ch of None \<Rightarrow> False | Some es \<Rightarrow> es \<noteq> []) \<or>
               ch \<in> in_flight_channels q) (retry_counts q)\<rparr>)"

text \<open>
  The pool-exhausted branch of \<open>dispatch_pending\<close> (\<open>buzz-acp/src/lib.rs\<close>): the batch that
  found no agent goes back to its queue and its channel is released.
\<close>

definition return_undispatched :: "instant \<Rightarrow> FlushBatch \<Rightarrow> EventQueue \<Rightarrow> EventQueue" where
  "return_undispatched now batch q =
     mark_complete now (fb_channel_id batch) (requeue_preserve_timestamps batch q)"

subsection \<open>Laws of the helpers\<close>

lemma trim_back_take [simp]: "trim_back es = take MAX_PENDING_PER_CHANNEL es"
  by (induction es rule: trim_back.induct)
     (subst trim_back.simps, auto simp: butlast_conv_take min_def)

lemma push_front_all_append [simp]: "push_front_all es queue = es @ queue"
  by (induction es arbitrary: queue) (simp_all add: push_front_all_def)

lemma to_queued_fields [simp]:
  "qe_channel_id (to_queued ch be) = ch" "to_batch (to_queued ch be) = be"
  by (simp_all add: to_queued_def to_batch_def)

lemma to_queued_to_batch: "qe_channel_id e = ch \<Longrightarrow> to_queued ch (to_batch e) = e"
  by (simp add: to_queued_def to_batch_def)

lemma chan_queue_update [simp]:
  "chan_queue (q\<lparr>queues := hput ch es m\<rparr>) c =
     (if c = ch then es else chan_queue (q\<lparr>queues := m\<rparr>) c)"
  "chan_queue (q\<lparr>queues := hdel ch m\<rparr>) c =
     (if c = ch then [] else chan_queue (q\<lparr>queues := m\<rparr>) c)"
  "chan_queue (q\<lparr>queues := queues q'\<rparr>) c = chan_queue q' c"
  by (auto simp: chan_queue_def)

lemma chan_queue_cong: "queues q = queues q' \<Longrightarrow> chan_queue q c = chan_queue q' c"
  by (simp add: chan_queue_def)

lemma min_by_key_None [simp]: "min_by_key f xs = None \<longleftrightarrow> xs = []"
  by (cases xs) (auto split: option.splits)

lemma min_by_key_SomeD:
  "min_by_key f xs = Some m \<Longrightarrow> m \<in> set xs \<and> (\<forall>x\<in>set xs. f m \<le> f x)"
  by (induction xs arbitrary: m) (fastforce split: option.splits if_splits)+

lemma take_first_Some:
  "take_first P xs = Some (y, ys) \<Longrightarrow>
     P y \<and> (\<exists>us vs. xs = us @ y # vs \<and> ys = us @ vs \<and> (\<forall>u\<in>set us. \<not> P u))"
  by (induction xs arbitrary: ys) (fastforce simp: split: if_splits intro: exI [of _ "_ # _"])+

lemma take_first_None: "take_first P xs = None \<longleftrightarrow> (\<forall>x\<in>set xs. \<not> P x)"
  by (induction xs) auto

lemma take_first_mset: "take_first P xs = Some (y, ys) \<Longrightarrow> mset xs = add_mset y (mset ys)"
  by (drule take_first_Some) auto

subsection \<open>Expiry of stuck channels\<close>

definition recovered :: "EventQueue \<Rightarrow> uuid \<Rightarrow> QueuedEvent list" where
  "recovered q c =
     (case hget (withheld_native_steer q) c of
        None \<Rightarrow> chan_queue q c
      | Some ws \<Rightarrow> take MAX_PENDING_PER_CHANNEL (ws @ chan_queue q c))"

lemma expire_one_fields [simp]:
  "in_flight_channels (expire_one ch q) = in_flight_channels q - {ch}"
  "in_flight_deadlines (expire_one ch q) = hdel ch (in_flight_deadlines q)"
  "in_flight_batch_sizes (expire_one ch q) = hdel ch (in_flight_batch_sizes q)"
  "retry_after (expire_one ch q) = retry_after q"
  "retry_counts (expire_one ch q) = retry_counts q"
  "dedup_mode (expire_one ch q) = dedup_mode q"
  "cancelled_batches (expire_one ch q) = cancelled_batches q"
  "cancel_reasons (expire_one ch q) = cancel_reasons q"
  "in_flight_deadline (expire_one ch q) = in_flight_deadline q"
  by (simp_all add: expire_one_def recover_withheld_for_expired_channel_def split: option.split)

lemma expire_one_withheld [simp]:
  "hget (withheld_native_steer (expire_one ch q)) c =
     (if c = ch then None else hget (withheld_native_steer q) c)"
  by (auto simp: expire_one_def recover_withheld_for_expired_channel_def split: option.split)

lemma expire_one_queue [simp]:
  "chan_queue (expire_one ch q) c = (if c = ch then recovered q c else chan_queue q c)"
  by (auto simp: expire_one_def recover_withheld_for_expired_channel_def recovered_def chan_queue_def
           split: option.split)

lemma recovered_expire_one [simp]: "recovered (expire_one ch q) c = recovered q c"
  by (cases "c = ch") (auto simp: recovered_def [of "expire_one ch q"] recovered_def [of q] split: option.split)

lemma expire_fold_fields [simp]:
  "in_flight_channels (fold expire_one ids q) = in_flight_channels q - set ids"
  "hget (in_flight_deadlines (fold expire_one ids q)) c =
     (if c \<in> set ids then None else hget (in_flight_deadlines q) c)"
  "hget (in_flight_batch_sizes (fold expire_one ids q)) c =
     (if c \<in> set ids then None else hget (in_flight_batch_sizes q) c)"
  "retry_after (fold expire_one ids q) = retry_after q"
  "retry_counts (fold expire_one ids q) = retry_counts q"
  "dedup_mode (fold expire_one ids q) = dedup_mode q"
  "cancelled_batches (fold expire_one ids q) = cancelled_batches q"
  "cancel_reasons (fold expire_one ids q) = cancel_reasons q"
  "in_flight_deadline (fold expire_one ids q) = in_flight_deadline q"
  "hget (withheld_native_steer (fold expire_one ids q)) c =
     (if c \<in> set ids then None else hget (withheld_native_steer q) c)"
  "chan_queue (fold expire_one ids q) c = (if c \<in> set ids then recovered q c else chan_queue q c)"
  by (induction ids arbitrary: q) auto

definition expired :: "instant \<Rightarrow> EventQueue \<Rightarrow> uuid set" where
  "expired now q = {c. \<exists>d. hget (in_flight_deadlines q) c = Some d \<and> d \<le> now}"

lemma expired_ids:
  assumes "distinct (hkeys (in_flight_deadlines q))"
  shows "set (map fst (filter (\<lambda>(ch, deadline). now \<ge> deadline) (in_flight_deadlines q))) = expired now q"
  using assms by (force simp: expired_def)

lemma expire_stuck_unchanged [simp]:
  "retry_after (expire_stuck now q) = retry_after q"
  "retry_counts (expire_stuck now q) = retry_counts q"
  "dedup_mode (expire_stuck now q) = dedup_mode q"
  "cancelled_batches (expire_stuck now q) = cancelled_batches q"
  "cancel_reasons (expire_stuck now q) = cancel_reasons q"
  "in_flight_deadline (expire_stuck now q) = in_flight_deadline q"
  by (simp_all add: expire_stuck_def)

lemma expire_stuck_fields:
  assumes "distinct (hkeys (in_flight_deadlines q))"
  shows "in_flight_channels (expire_stuck now q) = in_flight_channels q - expired now q"
    and "hget (in_flight_deadlines (expire_stuck now q)) c =
           (if c \<in> expired now q then None else hget (in_flight_deadlines q) c)"
    and "hget (in_flight_batch_sizes (expire_stuck now q)) c =
           (if c \<in> expired now q then None else hget (in_flight_batch_sizes q) c)"
    and "hget (withheld_native_steer (expire_stuck now q)) c =
           (if c \<in> expired now q then None else hget (withheld_native_steer q) c)"
    and "chan_queue (expire_stuck now q) c =
           (if c \<in> expired now q then recovered q c else chan_queue q c)"
  unfolding expire_stuck_def expired_ids [OF assms, symmetric] by (rule expire_fold_fields)+

subsection \<open>The invariant of the queue\<close>

declare map_of_eq_Some_iff [simp del]

text \<open>
  Every queue and every withheld list sits under the channel of its events, no queue exceeds
  the cap, a channel is in flight exactly while it has a deadline and a batch size (so that
  expiry can always release it), and no retry counter passes the dead-letter threshold.
\<close>

definition queue_ok :: "uuid \<Rightarrow> QueuedEvent list \<Rightarrow> bool" where
  "queue_ok ch es \<longleftrightarrow> length es \<le> MAX_PENDING_PER_CHANNEL \<and> (\<forall>e\<in>set es. qe_channel_id e = ch)"

definition keys_distinct :: "EventQueue \<Rightarrow> bool" where
  "keys_distinct q \<longleftrightarrow>
     distinct (hkeys (queues q)) \<and> distinct (hkeys (in_flight_deadlines q)) \<and>
     distinct (hkeys (retry_after q)) \<and> distinct (hkeys (retry_counts q))"

definition queues_ok :: "EventQueue \<Rightarrow> bool" where
  "queues_ok q \<longleftrightarrow> (\<forall>c. queue_ok c (chan_queue q c)) \<and>
     (\<forall>c ws. hget (withheld_native_steer q) c = Some ws \<longrightarrow> (\<forall>e\<in>set ws. qe_channel_id e = c))"

definition flights_ok :: "EventQueue \<Rightarrow> bool" where
  "flights_ok q \<longleftrightarrow>
     (\<forall>c. (c \<in> in_flight_channels q) = (hget (in_flight_deadlines q) c \<noteq> None) \<and>
          (c \<in> in_flight_channels q) = (hget (in_flight_batch_sizes q) c \<noteq> None))"

definition retries_ok :: "EventQueue \<Rightarrow> bool" where
  "retries_ok q \<longleftrightarrow> (\<forall>c n. hget (retry_counts q) c = Some n \<longrightarrow> n \<le> MAX_RETRIES)"

definition queue_inv :: "EventQueue \<Rightarrow> bool" where
  "queue_inv q \<longleftrightarrow> keys_distinct q \<and> queues_ok q \<and> flights_ok q \<and> retries_ok q"

lemmas queue_inv_defs = keys_distinct_def queues_ok_def flights_ok_def retries_ok_def queue_ok_def

lemma queue_invI [intro]:
  "keys_distinct q \<Longrightarrow> queues_ok q \<Longrightarrow> flights_ok q \<Longrightarrow> retries_ok q \<Longrightarrow> queue_inv q"
  by (simp add: queue_inv_def)

lemma queue_ok_simps [simp]:
  "queue_ok c []"
  "queue_ok c (take MAX_PENDING_PER_CHANNEL es) \<longleftrightarrow>
     (\<forall>e\<in>set (take MAX_PENDING_PER_CHANNEL es). qe_channel_id e = c)"
  by (auto simp: queue_ok_def)

lemma queue_ok_drop: "queue_ok c es \<Longrightarrow> queue_ok c (drop n es)"
  by (auto simp: queue_ok_def dest: in_set_dropD)

lemma queue_ok_filter: "queue_ok c es \<Longrightarrow> queue_ok c (filter P es)"
  by (auto simp: queue_ok_def intro: order_trans [OF length_filter_le])

lemma queue_ok_requeue:
  "queue_ok ch es \<Longrightarrow>
   queue_ok ch (take MAX_PENDING_PER_CHANNEL (map (to_queued ch) bs @ es))"
  by (auto simp: queue_ok_def dest!: in_set_takeD)

lemma queue_inv_cong:
  assumes "queue_inv q"
    and "queues q' = queues q" "in_flight_channels q' = in_flight_channels q"
    and "in_flight_deadlines q' = in_flight_deadlines q"
    and "in_flight_batch_sizes q' = in_flight_batch_sizes q"
    and "retry_after q' = retry_after q" "retry_counts q' = retry_counts q"
    and "withheld_native_steer q' = withheld_native_steer q"
  shows "queue_inv q'"
  using assms by (auto simp: queue_inv_def queue_inv_defs chan_queue_def)

lemma queue_inv_new [inv_intros]: "queue_inv (EventQueue_new m)"
  by (auto simp: EventQueue_new_def queue_inv_defs chan_queue_def)

lemma distinct_keys_expire_one:
  "keys_distinct q \<Longrightarrow> keys_distinct (expire_one ch q)"
  by (auto simp: keys_distinct_def expire_one_def recover_withheld_for_expired_channel_def
           split: option.split)

lemma distinct_keys_expire: "keys_distinct q \<Longrightarrow> keys_distinct (expire_stuck now q)"
proof -
  have "keys_distinct q \<Longrightarrow> keys_distinct (fold expire_one ids q)" for ids q
    by (induction ids arbitrary: q) (auto intro: distinct_keys_expire_one)
  then show "keys_distinct q \<Longrightarrow> ?thesis" by (simp add: expire_stuck_def)
qed

lemma recovered_ok: "queues_ok q \<Longrightarrow> queue_ok c (recovered q c)"
  by (auto simp: recovered_def queues_ok_def queue_ok_def split: option.split dest: in_set_takeD)

lemma queue_inv_expire [inv_intros]:
  assumes "queue_inv q"
  shows "queue_inv (expire_stuck now q)"
proof
  have d: "distinct (hkeys (in_flight_deadlines q))" and q: "queues_ok q" and f: "flights_ok q"
    using assms by (simp_all add: queue_inv_def keys_distinct_def)
  note fields = expire_stuck_fields [OF d]
  show "keys_distinct (expire_stuck now q)" using assms distinct_keys_expire by (simp add: queue_inv_def)
  show "queues_ok (expire_stuck now q)" using q recovered_ok [OF q] by (simp add: queues_ok_def fields)
  show "flights_ok (expire_stuck now q)" using f by (auto simp: flights_ok_def fields)
  show "retries_ok (expire_stuck now q)" using assms by (simp add: queue_inv_def retries_ok_def)
qed

lemma queue_inv_deadline [inv_intros]: "queue_inv q \<Longrightarrow> queue_inv (with_in_flight_deadline n q)"
  by (auto simp: queue_inv_def with_in_flight_deadline_def queue_inv_defs chan_queue_def)

lemma queue_inv_extend [inv_intros]:
  "queue_inv q \<Longrightarrow> queue_inv (extend_in_flight_deadline now ch n q)"
  by (auto simp: queue_inv_def extend_in_flight_deadline_def queue_inv_defs chan_queue_def Let_def
           split: option.split)

text \<open>The operations that replace one queue keep the invariant when the new queue is in order.\<close>

lemma queue_inv_put:
  assumes "queue_inv q" "queue_ok ch es"
  shows "queue_inv (q\<lparr>queues := hput ch es (queues q)\<rparr>)"
proof -
  have "chan_queue (q\<lparr>queues := hput ch es (queues q)\<rparr>) c = (if c = ch then es else chan_queue q c)" for c
    by (simp add: chan_queue_def)
  with assms show ?thesis
    by (auto simp: queue_inv_def queues_ok_def keys_distinct_def flights_ok_def retries_ok_def)
qed

lemma queue_inv_del:
  assumes "queue_inv q"
  shows "queue_inv (q\<lparr>queues := hdel ch (queues q)\<rparr>)"
proof -
  have "chan_queue (q\<lparr>queues := hdel ch (queues q)\<rparr>) c = (if c = ch then [] else chan_queue q c)" for c
    by (simp add: chan_queue_def)
  with assms show ?thesis
    by (auto simp: queue_inv_def queues_ok_def keys_distinct_def flights_ok_def retries_ok_def)
qed

lemma queue_inv_chan: "queue_inv q \<Longrightarrow> queue_ok c (chan_queue q c)"
  by (simp add: queue_inv_def queues_ok_def)

lemma queue_ok_push:
  "queue_ok (qe_channel_id e) es \<Longrightarrow>
   queue_ok (qe_channel_id e) ((if length es \<ge> MAX_PENDING_PER_CHANNEL then tl es else es) @ [e])"
  by (cases es) (auto simp: queue_ok_def MAX_PENDING_PER_CHANNEL_def)

lemma queue_inv_push [inv_intros]: "queue_inv q \<Longrightarrow> queue_inv (snd (push e q))"
  using queue_inv_put [OF _ queue_ok_push [OF queue_inv_chan]] by (auto simp: push_def Let_def)

lemma queue_inv_mark_in_flight:
  "queue_inv q \<Longrightarrow> queue_inv (mark_in_flight now ch n q)"
  by (auto simp: queue_inv_def mark_in_flight_def queue_inv_defs chan_queue_def)

text \<open>The invariant does not look at the cancelled batches.\<close>

lemma queue_inv_cancelled [simp]:
  "queue_inv (q\<lparr>cancelled_batches := cb, cancel_reasons := cr\<rparr>) = queue_inv q"
  by (simp add: queue_inv_def queue_inv_defs chan_queue_def)

lemma queue_inv_flush_cancelled: "queue_inv q \<Longrightarrow> queue_inv (snd (flush_cancelled now q))"
  by (auto simp: flush_cancelled_def Let_def intro!: queue_inv_mark_in_flight split: option.split)

lemma queue_inv_flush_channel: "queue_inv q \<Longrightarrow> queue_inv (snd (flush_channel now ch q))"
  by (auto simp: flush_channel_def Let_def
           intro!: queue_inv_mark_in_flight queue_inv_del queue_inv_put queue_ok_drop queue_inv_chan)

lemma queue_inv_flush_next [inv_intros]: "queue_inv q \<Longrightarrow> queue_inv (snd (flush_next now q))"
  using queue_inv_flush_channel queue_inv_flush_cancelled queue_inv_expire
  by (auto simp: flush_next_def Let_def split: option.split prod.split) (metis snd_conv)

lemma queue_inv_work [inv_intros]: "queue_inv q \<Longrightarrow> queue_inv (snd (has_flushable_work now q))"
  by (simp add: has_flushable_work_def Let_def queue_inv_expire)

text \<open>Nor does it look at the retry throttles, beyond the distinctness of their keys.\<close>

lemma queue_inv_retry:
  assumes "queue_inv q" "distinct (hkeys ra)" "distinct (hkeys rc)"
    and "\<And>c n. hget rc c = Some n \<Longrightarrow> n \<le> MAX_RETRIES"
  shows "queue_inv (q\<lparr>retry_after := ra, retry_counts := rc\<rparr>)"
  using assms by (auto simp: queue_inv_def queue_inv_defs chan_queue_def)

lemma queue_invD:
  assumes "queue_inv q"
  shows "distinct (hkeys (queues q))" "distinct (hkeys (in_flight_deadlines q))"
    and "distinct (hkeys (retry_after q))" "distinct (hkeys (retry_counts q))"
    and "hget (retry_counts q) c = Some n \<Longrightarrow> n \<le> MAX_RETRIES"
    and "c \<in> in_flight_channels q \<longleftrightarrow> (\<exists>d. hget (in_flight_deadlines q) c = Some d)"
    and "length (chan_queue q c) \<le> MAX_PENDING_PER_CHANNEL"
    and "e \<in> set (chan_queue q c) \<Longrightarrow> qe_channel_id e = c"
  using assms by (auto simp: queue_inv_def queue_inv_defs)

definition landed :: "uuid \<Rightarrow> EventQueue \<Rightarrow> EventQueue" where
  "landed ch q = q\<lparr>in_flight_channels := in_flight_channels q - {ch},
                   in_flight_deadlines := hdel ch (in_flight_deadlines q),
                   in_flight_batch_sizes := hdel ch (in_flight_batch_sizes q)\<rparr>"

lemma queue_inv_land: "queue_inv q \<Longrightarrow> queue_inv (landed ch q)"
  by (auto simp: landed_def queue_inv_def queue_inv_defs chan_queue_def)

lemma mark_complete_split:
  "mark_complete now ch q =
     (let drop_after = (\<exists>t. hget (retry_after q) ch = Some t \<and> t \<le> now);
          throttled = (\<exists>t. hget (retry_after q) ch = Some t \<and> t > now)
      in landed ch q\<lparr>retry_after := if drop_after then hdel ch (retry_after q) else retry_after q,
                     retry_counts := if throttled then retry_counts q else hdel ch (retry_counts q)\<rparr>)"
  by (cases "hget (retry_after q) ch") (auto simp: mark_complete_def Let_def landed_def)

lemma queue_inv_complete [inv_intros]:
  assumes "queue_inv q"
  shows "queue_inv (mark_complete now ch q)"
  unfolding mark_complete_split Let_def
  by (rule queue_inv_retry [OF queue_inv_land [OF assms]])
     (use queue_invD [OF assms] in \<open>auto split: if_splits\<close>)

lemma queue_inv_requeue [inv_intros]:
  assumes "queue_inv q"
  shows "queue_inv (snd (requeue now nanos batch q))"
proof -
  define ch where "ch = fb_channel_id batch"
  define n where "n = (case hget (retry_counts q) ch of None \<Rightarrow> 0 | Some k \<Rightarrow> k) + 1"
  define es where "es = map (to_queued ch) (fb_events batch) @ chan_queue q ch"
  note inv = queue_invD [OF assms]
  have ok: "queue_ok ch (take MAX_PENDING_PER_CHANNEL es)"
    unfolding es_def by (rule queue_ok_requeue [OF queue_inv_chan [OF assms]])
  show ?thesis
  proof (cases "n > MAX_RETRIES")
    case True
    have "queue_inv (q\<lparr>retry_after := hdel ch (retry_after q),
                       retry_counts := hdel ch (hput ch n (retry_counts q))\<rparr>)"
      by (rule queue_inv_retry [OF assms]) (use inv in \<open>auto split: if_splits\<close>)
    then show ?thesis
      by (rule queue_inv_cong) (use True in \<open>simp_all add: requeue_def Let_def ch_def n_def\<close>)
  next
    case False
    have "queue_inv (q\<lparr>queues := hput ch (take MAX_PENDING_PER_CHANNEL es) (queues q),
                       retry_after := hput ch (now + retry_delay n nanos) (retry_after q),
                       retry_counts := hput ch n (retry_counts q)\<rparr>)"
      by (rule queue_inv_retry [OF queue_inv_put [OF assms ok]])
         (use inv False in \<open>auto split: if_splits\<close>)
    then show ?thesis
      by (rule queue_inv_cong) (use False in \<open>simp_all add: requeue_def Let_def ch_def n_def es_def\<close>)
  qed
qed

lemma queue_inv_requeue_preserve [inv_intros]:
  assumes "queue_inv q"
  shows "queue_inv (requeue_preserve_timestamps batch q)"
  unfolding requeue_preserve_timestamps_def Let_def trim_back_take push_front_all_append
  by (rule queue_inv_put [OF assms queue_ok_requeue [OF queue_inv_chan [OF assms]]])

lemma queue_inv_as_cancelled [inv_intros]:
  "queue_inv q \<Longrightarrow> queue_inv (requeue_as_cancelled batch reason q)"
  by (simp add: requeue_as_cancelled_def Let_def)

text \<open>Replacing the withheld table by one that is in order.\<close>

lemma queue_inv_withheld:
  assumes "queue_inv q" "\<And>c ws. hget m c = Some ws \<Longrightarrow> \<forall>e\<in>set ws. qe_channel_id e = c"
  shows "queue_inv (q\<lparr>withheld_native_steer := m\<rparr>)"
  using assms by (auto simp: queue_inv_def queue_inv_defs chan_queue_def)

lemma queue_inv_withheldD:
  "queue_inv q \<Longrightarrow> hget (withheld_native_steer q) c = Some ws \<Longrightarrow> e \<in> set ws \<Longrightarrow> qe_channel_id e = c"
  by (auto simp: queue_inv_def queues_ok_def)

lemma queue_inv_drain [inv_intros]:
  assumes "queue_inv q"
  shows "queue_inv (snd (drain_channel ch q))"
proof -
  let ?w = "q\<lparr>withheld_native_steer := hdel ch (withheld_native_steer q)\<rparr>"
  let ?d = "?w\<lparr>queues := hdel ch (queues ?w)\<rparr>"
  have "queue_inv ?w"
    by (rule queue_inv_withheld [OF assms])
       (auto split: if_splits intro: queue_inv_withheldD [OF assms])
  then have d: "queue_inv ?d" by (rule queue_inv_del)
  have "queue_inv (?d\<lparr>retry_after := hdel ch (retry_after q), retry_counts := hdel ch (retry_counts q)\<rparr>)"
    by (rule queue_inv_retry [OF d])
       (use queue_invD [OF assms] in \<open>auto split: if_splits\<close>)
  then show ?thesis by (rule queue_inv_cong) (simp_all add: drain_channel_def)
qed

lemma queue_inv_steer_pending [inv_intros]:
  assumes "queue_inv q"
  shows "queue_inv (snd (mark_native_steer_pending ch event_id q))"
proof (cases "hget (queues q) ch")
  case (Some es)
  then have es: "es = chan_queue q ch" by (simp add: chan_queue_def)
  show ?thesis
  proof (cases "take_first (\<lambda>e. ev_id (qe_event e) = event_id) es")
    case found: (Some ew)
    obtain e rest where ew: "ew = (e, rest)" by force
    from take_first_Some [OF found [unfolded ew]] queue_inv_chan [OF assms, of ch]
    have e: "qe_channel_id e = ch" and rest: "queue_ok ch rest"
      by (auto simp: es queue_ok_def)
    let ?m = "hput ch ((case hget (withheld_native_steer q) ch of None \<Rightarrow> [] | Some ws \<Rightarrow> ws) @ [e])
                (withheld_native_steer q)"
    have w: "queue_inv (q\<lparr>withheld_native_steer := ?m\<rparr>)"
      by (rule queue_inv_withheld [OF assms])
         (use e queue_inv_withheldD [OF assms] in \<open>auto split: if_splits option.splits\<close>)
    show ?thesis
    proof (cases "rest = []")
      case True
      show ?thesis
        by (rule queue_inv_cong [OF queue_inv_del [OF w, of ch]])
           (simp_all add: mark_native_steer_pending_def Some found ew True)
    next
      case False
      show ?thesis
        by (rule queue_inv_cong [OF queue_inv_put [OF w rest]])
           (simp_all add: mark_native_steer_pending_def Some found ew False)
    qed
  qed (simp add: mark_native_steer_pending_def Some assms)
qed (simp add: mark_native_steer_pending_def assms)

lemma queue_inv_release [inv_intros]:
  assumes "queue_inv q"
  shows "queue_inv (release_native_steer ch event_id q)"
proof (cases "hget (withheld_native_steer q) ch")
  case (Some es)
  show ?thesis
  proof (cases "take_first (\<lambda>e. ev_id (qe_event e) = event_id) es")
    case found: (Some ew)
    obtain e rest where ew: "ew = (e, rest)" by force
    from take_first_Some [OF found [unfolded ew]] queue_inv_withheldD [OF assms Some]
    have e: "qe_channel_id e = ch" and rest: "\<forall>x\<in>set rest. qe_channel_id x = ch"
      by auto
    let ?m = "if rest = [] then hdel ch (withheld_native_steer q)
              else hput ch rest (withheld_native_steer q)"
    have w: "queue_inv (q\<lparr>withheld_native_steer := ?m\<rparr>)"
      by (rule queue_inv_withheld [OF assms])
         (use rest queue_inv_withheldD [OF assms] in \<open>auto split: if_splits\<close>)
    have "queue_ok ch (take MAX_PENDING_PER_CHANNEL (e # chan_queue q ch))"
      using e queue_invD(8) [OF assms] by (auto dest!: in_set_takeD)
    from queue_inv_put [OF w this] show ?thesis
      by (rule queue_inv_cong) (simp_all add: release_native_steer_def Some found ew)
  qed (simp add: release_native_steer_def Some assms)
qed (simp add: release_native_steer_def assms)

lemma hget_remove_event_from:
  "hget (remove_event_from ch event_id m) c =
     (if c = ch then
        (case hget m ch of None \<Rightarrow> None
         | Some es \<Rightarrow> (let es' = filter (\<lambda>e. ev_id (qe_event e) \<noteq> event_id) es
                      in if es' = [] then None else Some es'))
      else hget m c)"
  by (auto simp: remove_event_from_def Let_def split: option.split)

lemma queue_inv_remove_event [inv_intros]:
  assumes "queue_inv q"
  shows "queue_inv (remove_event ch event_id q)"
proof -
  let ?keep = "filter (\<lambda>e. ev_id (qe_event e) \<noteq> event_id)"
  have w: "queue_inv (q\<lparr>withheld_native_steer := remove_event_from ch event_id (withheld_native_steer q)\<rparr>)"
    by (rule queue_inv_withheld [OF assms])
       (auto simp: hget_remove_event_from Let_def split: if_splits option.splits
             dest: queue_inv_withheldD [OF assms])
  have ok: "queue_ok ch (?keep (chan_queue q ch))"
    by (rule queue_ok_filter [OF queue_inv_chan [OF assms]])
  show ?thesis
  proof (cases "hget (queues q) ch")
    case None
    with w show ?thesis by (simp add: remove_event_def remove_event_from_def)
  next
    case (Some es)
    then have q: "queues (remove_event ch event_id q) =
        (if ?keep (chan_queue q ch) = [] then hdel ch (queues q)
         else hput ch (?keep (chan_queue q ch)) (queues q))"
      by (simp add: remove_event_def remove_event_from_def [of _ _ "queues q"] chan_queue_def Let_def)
    show ?thesis
    proof (cases "?keep (chan_queue q ch) = []")
      case True
      show ?thesis
        by (rule queue_inv_cong [OF queue_inv_del [OF w, of ch]])
           (simp_all only: q True, simp_all add: remove_event_def)
    next
      case False
      show ?thesis
        by (rule queue_inv_cong [OF queue_inv_put [OF w ok]])
           (simp_all only: q False, simp_all add: remove_event_def)
    qed
  qed
qed

lemma queue_inv_compact [inv_intros]:
  assumes "queue_inv q"
  shows "queue_inv (compact_expired_state now q)"
  unfolding compact_expired_state_def Let_def
  by (rule queue_inv_retry [OF assms])
     (use queue_invD [OF assms] in \<open>auto simp: map_of_eq_Some_iff distinct_map_filter\<close>)

subsection \<open>The queue as a machine\<close>

inductive queue_step :: "EventQueue \<Rightarrow> EventQueue \<Rightarrow> bool" where
  step_extend: "queue_step q (extend_in_flight_deadline now ch n q)"
| step_push: "queue_step q (snd (push e q))"
| step_flush: "queue_step q (snd (flush_next now q))"
| step_complete: "queue_step q (mark_complete now ch q)"
| step_requeue: "queue_step q (snd (requeue now nanos batch q))"
| step_requeue_preserve: "queue_step q (requeue_preserve_timestamps batch q)"
| step_cancelled: "queue_step q (requeue_as_cancelled batch reason q)"
| step_work: "queue_step q (snd (has_flushable_work now q))"
| step_drain: "queue_step q (snd (drain_channel ch q))"
| step_pending: "queue_step q (snd (mark_native_steer_pending ch i q))"
| step_release: "queue_step q (release_native_steer ch i q)"
| step_remove: "queue_step q (remove_event ch i q)"
| step_compact: "queue_step q (compact_expired_state now q)"

inductive_cases queue_stepE: "queue_step q q'"

definition queue_start :: "EventQueue \<Rightarrow> bool" where
  "queue_start q \<longleftrightarrow> (\<exists>m. q = EventQueue_new m \<or> (\<exists>n. q = with_in_flight_deadline n (EventQueue_new m)))"

interpretation aq: inv_machine queue_start queue_step queue_inv
proof
  show "queue_start s \<Longrightarrow> queue_inv s" for s
    by (auto simp: queue_start_def intro: inv_intros)
  show "queue_inv s \<Longrightarrow> queue_step s t \<Longrightarrow> queue_inv t" for s t
    by (auto elim!: queue_stepE intro: inv_intros)
qed

subsection \<open>What a flush delivers\<close>

lemma in_queues_chan: "distinct (hkeys (queues q)) \<Longrightarrow> (c, es) \<in> set (queues q) \<Longrightarrow> chan_queue q c = es"
  by (simp add: chan_queue_def)

definition flushable :: "instant \<Rightarrow> EventQueue \<Rightarrow> uuid \<Rightarrow> bool" where
  "flushable now q c \<longleftrightarrow> ready now q (c, chan_queue q c)"

lemma flushable_in_queues: "flushable now q c \<Longrightarrow> (c, chan_queue q c) \<in> set (queues q)"
  by (auto simp: flushable_def ready_def chan_queue_def split: option.splits dest: map_of_SomeD)

lemma ready_flushable:
  "distinct (hkeys (queues q)) \<Longrightarrow> (c, es) \<in> set (queues q) \<Longrightarrow> ready now q (c, es) \<longleftrightarrow> flushable now q c"
  by (simp add: flushable_def in_queues_chan)

lemma oldest_ready_None:
  assumes "distinct (hkeys (queues q))"
  shows "oldest_ready now q = None \<longleftrightarrow> (\<forall>c. \<not> flushable now q c)"
proof
  assume n: "oldest_ready now q = None"
  show "\<forall>c. \<not> flushable now q c"
  proof (intro allI notI)
    fix c assume "flushable now q c"
    then have "(c, chan_queue q c) \<in> set (filter (ready now q) (queues q))"
      using flushable_in_queues by (simp add: flushable_def)
    with n show False unfolding oldest_ready_def by (auto simp: filter_empty_conv)
  qed
next
  assume "\<forall>c. \<not> flushable now q c"
  then have "filter (ready now q) (queues q) = []"
    using ready_flushable [OF assms] by (auto simp: filter_empty_conv)
  then show "oldest_ready now q = None" unfolding oldest_ready_def by simp
qed

lemma oldest_ready_Some:
  assumes "distinct (hkeys (queues q))" "oldest_ready now q = Some ch"
  shows "flushable now q ch"
    and "flushable now q c \<Longrightarrow>
         qe_received_at (hd (chan_queue q ch)) \<le> qe_received_at (hd (chan_queue q c))"
proof -
  let ?f = "\<lambda>(ch, es). qe_received_at (hd es)"
  obtain es where m: "min_by_key ?f (filter (ready now q) (queues q)) = Some (ch, es)"
    using assms(2) by (auto simp: oldest_ready_def)
  from min_by_key_SomeD [OF m]
  have mem: "(ch, es) \<in> set (queues q)" "ready now q (ch, es)"
    and least: "\<And>x. x \<in> set (queues q) \<Longrightarrow> ready now q x \<Longrightarrow> ?f (ch, es) \<le> ?f x"
    by auto
  then show "flushable now q ch" using ready_flushable [OF assms(1)] by blast
  assume c: "flushable now q c"
  from least [OF flushable_in_queues [OF c]] c in_queues_chan [OF assms(1) mem(1)]
  show "qe_received_at (hd (chan_queue q ch)) \<le> qe_received_at (hd (chan_queue q c))"
    by (simp add: flushable_def)
qed

definition cancelled_of :: "EventQueue \<Rightarrow> uuid \<Rightarrow> BatchEvent list" where
  "cancelled_of q ch = (case hget (cancelled_batches q) ch of None \<Rightarrow> [] | Some es \<Rightarrow> es)"

lemma flush_channel_spec:
  assumes "flush_channel now ch q = (b, q')"
  shows "fb_channel_id b = ch"
    and "fb_events b = sort_key (\<lambda>be. ev_created_at (be_event be))
                         (map to_batch (take MAX_BATCH_EVENTS (chan_queue q ch)))"
    and "chan_queue q' c = (if c = ch then drop MAX_BATCH_EVENTS (chan_queue q ch) else chan_queue q c)"
    and "fb_cancelled_events b = cancelled_of q ch"
    and "cancelled_of q' c = (if c = ch then [] else cancelled_of q c)"
    and "in_flight_channels q' = insert ch (in_flight_channels q)"
    and "hget (in_flight_deadlines q') c =
           (if c = ch then Some (now + in_flight_deadline q) else hget (in_flight_deadlines q) c)"
proof -
  let ?es = "chan_queue q ch"
  have n: "take (min MAX_BATCH_EVENTS (length ?es)) ?es = take MAX_BATCH_EVENTS ?es"
    "drop (min MAX_BATCH_EVENTS (length ?es)) ?es = drop MAX_BATCH_EVENTS ?es"
    by (auto simp: min_def)
  note eq = assms [symmetric, unfolded flush_channel_def Let_def n mark_in_flight_def]
  show "fb_channel_id b = ch" "fb_cancelled_events b = cancelled_of q ch"
    "fb_events b = sort_key (\<lambda>be. ev_created_at (be_event be)) (map to_batch (take MAX_BATCH_EVENTS ?es))"
    "in_flight_channels q' = insert ch (in_flight_channels q)"
    "hget (in_flight_deadlines q') c =
       (if c = ch then Some (now + in_flight_deadline q) else hget (in_flight_deadlines q) c)"
    using eq by (simp_all add: cancelled_of_def)
  show "cancelled_of q' c = (if c = ch then [] else cancelled_of q c)"
    using eq by (simp add: cancelled_of_def)
  show "chan_queue q' c = (if c = ch then drop MAX_BATCH_EVENTS ?es else chan_queue q c)"
    using eq by (auto simp: chan_queue_def)
qed

lemma flush_cancelled_spec:
  assumes "flush_cancelled now q = (Some b, q')"
  shows "fb_channel_id b \<notin> in_flight_channels q"
    and "fb_events b = cancelled_of q (fb_channel_id b)" "fb_cancelled_events b = []"
    and "chan_queue q' c = chan_queue q c"
    and "cancelled_of q' c = (if c = fb_channel_id b then [] else cancelled_of q c)"
    and "in_flight_channels q' = insert (fb_channel_id b) (in_flight_channels q)"
    and "hget (in_flight_deadlines q') c =
           (if c = fb_channel_id b then Some (now + in_flight_deadline q)
            else hget (in_flight_deadlines q) c)"
proof -
  obtain ch where ch: "List.find (\<lambda>ch. ch \<notin> in_flight_channels q) (hkeys (cancelled_batches q)) = Some ch"
    using assms by (auto simp: flush_cancelled_def split: option.splits)
  then have "ch \<notin> in_flight_channels q" by (auto simp: find_Some_iff)
  note eq = this assms [symmetric, unfolded flush_cancelled_def ch option.case Let_def mark_in_flight_def]
  show "fb_channel_id b \<notin> in_flight_channels q" "fb_cancelled_events b = []"
    "fb_events b = cancelled_of q (fb_channel_id b)"
    "cancelled_of q' c = (if c = fb_channel_id b then [] else cancelled_of q c)"
    "in_flight_channels q' = insert (fb_channel_id b) (in_flight_channels q)"
    "hget (in_flight_deadlines q') c =
       (if c = fb_channel_id b then Some (now + in_flight_deadline q)
        else hget (in_flight_deadlines q) c)"
    using eq by (simp_all add: cancelled_of_def)
  show "chan_queue q' c = chan_queue q c" using eq by (simp add: chan_queue_def)
qed

lemma flush_cancelled_None:
  "fst (flush_cancelled now q) = None \<longleftrightarrow>
     (\<forall>c. hget (cancelled_batches q) c \<noteq> None \<longrightarrow> c \<in> in_flight_channels q)"
proof -
  have "fst (flush_cancelled now q) = None \<longleftrightarrow>
      List.find (\<lambda>ch. ch \<notin> in_flight_channels q) (hkeys (cancelled_batches q)) = None"
    by (auto simp: flush_cancelled_def Let_def split: option.split)
  then show ?thesis unfolding find_None_iff hkeys_hget [symmetric] by blast
qed

text \<open>The two ways \<open>flush_next\<close> returns a batch.\<close>

lemma flush_next_cases:
  assumes inv: "queue_inv q" and res: "flush_next now q = (Some b, q')"
  obtains (queued) ch where "oldest_ready now (expire_stuck now q) = Some ch"
      "flush_channel now ch (expire_stuck now q) = (b, q')"
  | (cancelled) "\<forall>c. \<not> flushable now (expire_stuck now q) c"
      "flush_cancelled now (expire_stuck now q) = (Some b, q')"
proof (cases "oldest_ready now (expire_stuck now q)")
  case None
  with res have "flush_cancelled now (expire_stuck now q) = (Some b, q')"
    by (simp add: flush_next_def Let_def)
  with None cancelled oldest_ready_None [OF queue_invD(1) [OF queue_inv_expire [OF inv]]]
  show thesis by blast
next
  case (Some ch)
  then show thesis
    using res queued by (auto simp: flush_next_def Let_def split: prod.splits)
qed

lemma has_work_iff:
  assumes "queue_inv q"
  shows "fst (has_flushable_work now q) \<longleftrightarrow> fst (flush_next now q) \<noteq> None"
proof -
  let ?q = "expire_stuck now q"
  have d: "distinct (hkeys (queues ?q))" using queue_invD(1) [OF queue_inv_expire [OF assms]] .
  have "list_ex (ready now ?q) (queues ?q) \<longleftrightarrow> (\<exists>c. flushable now ?q c)"
    using flushable_in_queues ready_flushable [OF d] unfolding list_ex_iff
    by (metis flushable_def surj_pair)
  moreover have "list_ex (\<lambda>ch. ch \<notin> in_flight_channels ?q) (hkeys (cancelled_batches ?q)) \<longleftrightarrow>
      fst (flush_cancelled now ?q) \<noteq> None"
    unfolding flush_cancelled_None list_ex_iff Bex_def hkeys_hget by blast
  moreover have "fst (flush_next now q) \<noteq> None \<longleftrightarrow>
      (\<exists>c. flushable now ?q c) \<or> fst (flush_cancelled now ?q) \<noteq> None"
    using oldest_ready_None [OF d, of now]
    by (cases "oldest_ready now ?q") (auto simp: flush_next_def Let_def split: prod.split)
  ultimately show ?thesis by (simp add: has_flushable_work_def Let_def)
qed

lemma flush_conserves:
  assumes "flush_channel now ch q = (b, q')"
  shows "mset (map to_batch (chan_queue q ch)) = mset (fb_events b) + mset (map to_batch (chan_queue q' ch))"
    and "length (fb_events b) \<le> MAX_BATCH_EVENTS"
    and "sorted (map (\<lambda>be. ev_created_at (be_event be)) (fb_events b))"
proof -
  let ?es = "chan_queue q ch"
  have "mset (map to_batch ?es) =
      mset (map to_batch (take MAX_BATCH_EVENTS ?es)) + mset (map to_batch (drop MAX_BATCH_EVENTS ?es))"
    by (metis append_take_drop_id map_append mset_append)
  then show "mset (map to_batch ?es) = mset (fb_events b) + mset (map to_batch (chan_queue q' ch))"
    by (simp add: flush_channel_spec [OF assms])
  show "length (fb_events b) \<le> MAX_BATCH_EVENTS"
    "sorted (map (\<lambda>be. ev_created_at (be_event be)) (fb_events b))"
    by (simp_all add: flush_channel_spec [OF assms])
qed

subsection \<open>Properties\<close>

definition sample_event :: "string \<Rightarrow> nat \<Rightarrow> nostr_event" where
  "sample_event i t = \<lparr>ev_id = i, ev_pubkey = ''aa'', ev_created_at = t, ev_kind = 9, ev_tags = [],
                       ev_content = ''hi''\<rparr>"

definition sample_queued :: "string \<Rightarrow> string \<Rightarrow> nat \<Rightarrow> QueuedEvent" where
  "sample_queued ch i t = \<lparr>qe_channel_id = ch, qe_event = sample_event i t, qe_received_at = t,
                           qe_prompt_tag = ''all''\<rparr>"

definition sample_queue :: EventQueue where
  "sample_queue = snd (push (sample_queued ''c2'' ''e2'' 3) (snd (push (sample_queued ''c1'' ''e1'' 7)
     (EventQueue_new Queue))))"

lemma sample_queue_reachable: "queue_start (EventQueue_new Queue)" "queue_step\<^sup>*\<^sup>* (EventQueue_new Queue) sample_queue"
proof -
  show "queue_start (EventQueue_new Queue)" by (auto simp: queue_start_def)
  show "queue_step\<^sup>*\<^sup>* (EventQueue_new Queue) sample_queue"
    unfolding sample_queue_def
    by (rule rtranclp.rtrancl_into_rtrancl [OF r_into_rtranclp]) (rule step_push)+
qed

lemmas sample_defs = sample_queue_def sample_queued_def sample_event_def push_def EventQueue_new_def
  Let_def MAX_PENDING_PER_CHANNEL_def

lemmas flush_defs = flush_next_def flush_channel_def expire_stuck_def oldest_ready_def ready_def
  flush_cancelled_def mark_in_flight_def chan_queue_def MAX_BATCH_EVENTS_def

lemma sample_flush:
  "flush_next 9 sample_queue =
     (Some (the (fst (flush_next 9 sample_queue))), snd (flush_next 9 sample_queue))"
proof -
  have "fst (flush_next 9 sample_queue) \<noteq> None" by (simp add: sample_defs flush_defs)
  then show ?thesis by (cases "flush_next 9 sample_queue") auto
qed

text \<open>
  C31. The queue stays bounded and no channel gets stuck: in every state the harness can reach
  from a fresh queue, by any sequence of operations at any clock readings, each channel's queue
  holds at most 500 events, all of that channel; a channel is in flight exactly while it has an
  expiry deadline and a recorded batch size; and no retry counter exceeds the dead-letter
  threshold.
\<close>

theorem queue_bounded_and_releasable:
  assumes "queue_start q0" "queue_step\<^sup>*\<^sup>* q0 q"
  shows "length (chan_queue q c) \<le> 500 \<and> (\<forall>e\<in>set (chan_queue q c). qe_channel_id e = c) \<and>
    (c \<in> in_flight_channels q \<longleftrightarrow> hget (in_flight_deadlines q) c \<noteq> None) \<and>
    (c \<in> in_flight_channels q \<longleftrightarrow> hget (in_flight_batch_sizes q) c \<noteq> None) \<and>
    (\<forall>n. hget (retry_counts q) c = Some n \<longrightarrow> n \<le> 10)"
proof -
  have inv: "queue_inv q" using aq.reachable_inv [OF assms] .
  have "queue_ok c (chan_queue q c)" "flights_ok q" "retries_ok q"
    using inv by (auto simp: queue_inv_def queues_ok_def)
  then show ?thesis
    unfolding queue_ok_def flights_ok_def retries_ok_def MAX_PENDING_PER_CHANNEL_def MAX_RETRIES_def
    by blast
qed

theorem queue_bounded_and_releasable_witness:
  "length (chan_queue sample_queue ''c1'') \<le> 500 \<and> chan_queue sample_queue ''c1'' \<noteq> []"
proof
  show "length (chan_queue sample_queue ''c1'') \<le> 500"
    using queue_bounded_and_releasable [OF sample_queue_reachable, of "''c1''"] by blast
  show "chan_queue sample_queue ''c1'' \<noteq> []" by (simp add: sample_defs chan_queue_def)
qed

text \<open>
  C11. A flush is fair and exclusive: the batch that \<open>flush_next\<close> returns is for a channel that
  was not in flight (once stuck channels have been released), that channel is in flight
  afterwards with a deadline, and no other channel that could have been flushed has an older
  head event.
\<close>

theorem flush_next_fair:
  assumes "queue_start q0" "queue_step\<^sup>*\<^sup>* q0 q" "flush_next now q = (Some b, q')"
  shows "fb_channel_id b \<notin> in_flight_channels (expire_stuck now q) \<and>
    in_flight_channels q' = insert (fb_channel_id b) (in_flight_channels (expire_stuck now q)) \<and>
    hget (in_flight_deadlines q') (fb_channel_id b) = Some (now + in_flight_deadline q) \<and>
    (\<forall>c. flushable now (expire_stuck now q) c \<longrightarrow>
         flushable now (expire_stuck now q) (fb_channel_id b) \<and>
         qe_received_at (hd (chan_queue (expire_stuck now q) (fb_channel_id b)))
           \<le> qe_received_at (hd (chan_queue (expire_stuck now q) c)))"
proof -
  have inv: "queue_inv q" using aq.reachable_inv [OF assms(1,2)] .
  from inv assms(3) show ?thesis
  proof (cases rule: flush_next_cases)
    case (queued ch)
    note d = queue_invD(1) [OF queue_inv_expire [OF inv]]
    from oldest_ready_Some [OF d queued(1)] flush_channel_spec [OF queued(2)]
    show ?thesis by (simp add: flushable_def ready_def)
  next
    case cancelled
    from cancelled(1) flush_cancelled_spec [OF cancelled(2)] show ?thesis by simp
  qed
qed

theorem flush_next_fair_witness:
  "fb_channel_id (the (fst (flush_next 9 sample_queue))) = ''c2'' \<and>
   fb_channel_id (the (fst (flush_next 9 sample_queue))) \<notin> in_flight_channels (expire_stuck 9 sample_queue)"
proof -
  note res = sample_flush
  have "fb_channel_id (the (fst (flush_next 9 sample_queue))) = ''c2''"
    by (simp add: sample_defs flush_defs)
  then show ?thesis using flush_next_fair [OF sample_queue_reachable res] by blast
qed



text \<open>
  The cheap test agrees with the real operation: \<open>has_flushable_work\<close> answers true exactly
  when \<open>flush_next\<close>, called at the same instant, returns a batch, and it leaves the state the
  flush would have started from.
\<close>

theorem has_flushable_work_agrees:
  assumes "queue_start q0" "queue_step\<^sup>*\<^sup>* q0 q"
  shows "(fst (has_flushable_work now q) \<longleftrightarrow> fst (flush_next now q) \<noteq> None) \<and>
    flush_next now (snd (has_flushable_work now q)) = flush_next now q"
proof -
  have inv: "queue_inv q" using aq.reachable_inv [OF assms] .
  have "expired now (expire_stuck now q) = {}"
    unfolding expired_def [of _ "expire_stuck now q"] expire_stuck_fields [OF queue_invD(2) [OF inv]]
    by (auto simp: expired_def split: if_splits)
  then have "filter (\<lambda>(ch, deadline). now \<ge> deadline) (in_flight_deadlines (expire_stuck now q)) = []"
    using expired_ids [OF queue_invD(2) [OF queue_inv_expire [OF inv, of now]], of now]
    by (metis list.set_map set_empty image_is_empty)
  then have "expire_stuck now (expire_stuck now q) = expire_stuck now q"
    by (simp add: expire_stuck_def [of now "expire_stuck now q"])
  then have "flush_next now (snd (has_flushable_work now q)) = flush_next now q"
    by (simp add: flush_next_def has_flushable_work_def Let_def)
  with has_work_iff [OF inv] show ?thesis by simp
qed

theorem has_flushable_work_agrees_witness:
  "fst (has_flushable_work 9 sample_queue) \<and> fst (flush_next 9 sample_queue) \<noteq> None"
proof -
  have "fst (flush_next 9 sample_queue) \<noteq> None" by (simp add: sample_defs flush_defs)
  then show ?thesis using has_flushable_work_agrees [OF sample_queue_reachable, of 9] by blast
qed

text \<open>
  No event is stranded by a turn that never reports back: once the deadline of an in-flight
  channel has passed, the channel is released, every event withheld for it is back in its queue
  (up to the cap), and if it has anything to deliver and no throttle is active, the next flush
  returns a batch.
\<close>

theorem expiry_releases_channel:
  assumes "queue_start q0" "queue_step\<^sup>*\<^sup>* q0 q"
    and "hget (in_flight_deadlines q) ch = Some d" "d \<le> now"
    and "case hget (retry_after q) ch of None \<Rightarrow> True | Some t \<Rightarrow> t \<le> now"
    and "chan_queue q ch \<noteq> [] \<or> (\<exists>w ws. hget (withheld_native_steer q) ch = Some (w # ws))"
  shows "ch \<notin> in_flight_channels (expire_stuck now q) \<and>
    chan_queue (expire_stuck now q) ch =
      (case hget (withheld_native_steer q) ch of None \<Rightarrow> chan_queue q ch
       | Some ws \<Rightarrow> take 500 (ws @ chan_queue q ch)) \<and>
    hget (withheld_native_steer (expire_stuck now q)) ch = None \<and>
    fst (flush_next now q) \<noteq> None"
proof -
  have inv: "queue_inv q" using aq.reachable_inv [OF assms(1,2)] .
  have ex: "ch \<in> expired now q" using assms(3,4) by (auto simp: expired_def)
  note fields = expire_stuck_fields [OF queue_invD(2) [OF inv], of now]
  have "recovered q ch \<noteq> []"
    using assms(6) by (auto simp: recovered_def MAX_PENDING_PER_CHANNEL_def split: option.split)
  then have "flushable now (expire_stuck now q) ch"
    using ex assms(5) by (simp add: flushable_def ready_def fields)
  then have "oldest_ready now (expire_stuck now q) \<noteq> None"
    using oldest_ready_None [OF queue_invD(1) [OF queue_inv_expire [OF inv]], of now now] by blast
  then have "fst (flush_next now q) \<noteq> None"
    by (auto simp: flush_next_def Let_def split: prod.split)
  with ex show ?thesis
    by (simp add: fields recovered_def MAX_PENDING_PER_CHANNEL_def split: option.split)
qed

definition stuck_queue :: EventQueue where
  "stuck_queue = snd (push (sample_queued ''c2'' ''e3'' 5) (snd (flush_next 9 sample_queue)))"

lemma stuck_queue_reachable: "queue_step\<^sup>*\<^sup>* (EventQueue_new Queue) stuck_queue"
  unfolding stuck_queue_def
  by (rule rtranclp.rtrancl_into_rtrancl [OF
        rtranclp.rtrancl_into_rtrancl [OF sample_queue_reachable(2) step_flush] step_push])

theorem expiry_releases_channel_witness:
  "fst (flush_next 7300000000009 stuck_queue) \<noteq> None \<and> ''c2'' \<in> in_flight_channels stuck_queue"
proof -
  have hyps: "hget (in_flight_deadlines stuck_queue) ''c2'' = Some 7300000000009"
    "chan_queue stuck_queue ''c2'' \<noteq> []" "hget (retry_after stuck_queue) ''c2'' = None"
    "''c2'' \<in> in_flight_channels stuck_queue"
    by (simp_all add: stuck_queue_def sample_defs flush_defs DEFAULT_IN_FLIGHT_DEADLINE_SECS_def)
  show ?thesis
    using expiry_releases_channel [OF sample_queue_reachable(1) stuck_queue_reachable hyps(1), of 7300000000009]
      hyps(2-4) by simp
qed

lemma capped_secs_bounds: "5 \<le> capped_secs n" "capped_secs n \<le> 300"
proof -
  have "(1::nat) \<le> 2 ^ min (n - 1) 6" by simp
  then show "5 \<le> capped_secs n"
    unfolding capped_secs_def BASE_RETRY_DELAY_SECS_def MAX_RETRY_DELAY_SECS_def by linarith
  show "capped_secs n \<le> 300" by (simp add: capped_secs_def MAX_RETRY_DELAY_SECS_def)
qed

lemma retry_delay_bounds:
  assumes "nanos < 1000000000"
  shows "8 * secs (capped_secs n) \<le> 10 * retry_delay n nanos"
    and "10 * retry_delay n nanos < 9 * secs (capped_secs n)"
proof -
  let ?c = "capped_secs n"
  let ?x = "secs ?c * (8 * u32_max + 4 * nanos)"
  have "8 * (?c * 100000000) * (10 * u32_max) \<le> ?x" by (simp add: algebra_simps)
  then have "8 * (?c * 100000000) \<le> retry_delay n nanos"
    unfolding retry_delay_def
    by (metis div_le_mono div_mult_self_is_m mult_pos_pos u32_max_def zero_less_numeral)
  then show "8 * secs ?c \<le> 10 * retry_delay n nanos" by simp
  have "4 * nanos < u32_max" using assms by (simp add: u32_max_def)
  then have "?x < secs ?c * (9 * u32_max)"
    using capped_secs_bounds(1) [of n] by simp
  moreover have "10 * u32_max * retry_delay n nanos \<le> ?x"
    unfolding retry_delay_def by (rule times_div_less_eq_dividend)
  ultimately have "10 * u32_max * retry_delay n nanos < secs ?c * (9 * u32_max)"
    by (rule le_less_trans [rotated])
  then show "10 * retry_delay n nanos < 9 * secs ?c" unfolding u32_max_def by linarith
qed

text \<open>
  Retries end and back off: \<open>requeue\<close> hands the batch back for dead-lettering exactly when
  ten attempts were counted for its channel, and then clears the channel's retry state;
  otherwise it counts the attempt, puts the batch's events back in front of the queue in their
  order (the back of the queue is cut at 500), and throttles the channel for a delay
  between 80 and 90 percent of \<open>5 * 2 ^ (attempt - 1)\<close> seconds, capped at 300. The delay never
  reaches the nominal value: the jitter only shortens it.
\<close>

theorem requeue_backoff:
  assumes "nanos < 1000000000"
    and "k = (case hget (retry_counts q) (fb_channel_id b) of None \<Rightarrow> 0 | Some n \<Rightarrow> n)"
    and "requeue now nanos b q = (r, q')"
  shows "(r = Some b \<longleftrightarrow> k \<ge> 10) \<and> (r = None \<longleftrightarrow> k < 10) \<and>
    (k \<ge> 10 \<longrightarrow> hget (retry_counts q') (fb_channel_id b) = None \<and>
                hget (retry_after q') (fb_channel_id b) = None \<and>
                (\<forall>c. chan_queue q' c = chan_queue q c)) \<and>
    (k < 10 \<longrightarrow> hget (retry_counts q') (fb_channel_id b) = Some (k + 1) \<and>
               chan_queue q' (fb_channel_id b) =
                 take 500 (map (to_queued (fb_channel_id b)) (fb_events b) @ chan_queue q (fb_channel_id b)) \<and>
               (\<exists>delay. hget (retry_after q') (fb_channel_id b) = Some (now + delay) \<and>
                  8 * secs (min (5 * 2 ^ min k 6) 300) \<le> 10 * delay \<and>
                  10 * delay < 9 * secs (min (5 * 2 ^ min k 6) 300)))"
proof (cases "k < 10")
  case True
  have "capped_secs (Suc k) = min (5 * 2 ^ min k 6) 300"
    by (simp add: capped_secs_def BASE_RETRY_DELAY_SECS_def MAX_RETRY_DELAY_SECS_def)
  with retry_delay_bounds [OF assms(1), of "Suc k"] True assms(2,3) show ?thesis
    by (auto simp: requeue_def Let_def MAX_RETRIES_def MAX_PENDING_PER_CHANNEL_def chan_queue_def)
next
  case False
  with assms(2,3) show ?thesis
    by (auto simp: requeue_def Let_def MAX_RETRIES_def chan_queue_def)
qed

definition sample_batch :: FlushBatch where
  "sample_batch = \<lparr>fb_channel_id = ''c1'', fb_events = [to_batch (sample_queued ''c1'' ''e1'' 7)],
                   fb_cancelled_events = [], fb_cancel_reason = None\<rparr>"

theorem requeue_backoff_witness:
  "fst (requeue 9 0 sample_batch sample_queue) = None \<and>
   hget (retry_counts (snd (requeue 9 0 sample_batch sample_queue))) ''c1'' = Some 1"
proof -
  have k: "0 = (case hget (retry_counts sample_queue) (fb_channel_id sample_batch) of None \<Rightarrow> 0 | Some n \<Rightarrow> n)"
    and ch: "fb_channel_id sample_batch = ''c1''"
    by (simp_all add: sample_defs sample_batch_def)
  show ?thesis
    using requeue_backoff [OF _ k surjective_pairing, of 0 9] unfolding ch by simp
qed

lemma take_le_length: "length xs \<le> n \<Longrightarrow> take n xs = xs"
  by simp

lemma return_undispatched_fields:
  "in_flight_channels (return_undispatched now b q) = in_flight_channels q - {fb_channel_id b}"
  "cancelled_of (return_undispatched now b q) c = cancelled_of q c"
  "chan_queue (return_undispatched now b q) c =
     (if c = fb_channel_id b
      then take MAX_PENDING_PER_CHANNEL (map (to_queued c) (fb_events b) @ chan_queue q c)
      else chan_queue q c)"
  by (simp_all add: return_undispatched_def mark_complete_split landed_def Let_def
        requeue_preserve_timestamps_def cancelled_of_def chan_queue_def)

text \<open>
  A batch that finds no free agent goes back without loss of its queued events: after
  \<open>flush_next\<close> returned a batch of queued events and \<open>dispatch_pending\<close> gave it back, the channel
  is no longer in flight and its queue holds the same events as before the flush. The cancelled
  events merged into the batch are not put back: the channel has none afterwards, although the
  flush took them from it.
\<close>

theorem undispatched_batch_returns:
  assumes "queue_start q0" "queue_step\<^sup>*\<^sup>* q0 q" "flush_next now q = (Some b, q')"
    and "flushable now (expire_stuck now q) (fb_channel_id b)"
  defines "q1 \<equiv> expire_stuck now q"
  defines "q2 \<equiv> return_undispatched now b q'"
  shows "fb_channel_id b \<notin> in_flight_channels q2 \<and>
    mset (map to_batch (chan_queue q2 (fb_channel_id b))) =
      mset (map to_batch (chan_queue q1 (fb_channel_id b))) \<and>
    fb_cancelled_events b = cancelled_of q1 (fb_channel_id b) \<and>
    cancelled_of q2 (fb_channel_id b) = []"
proof -
  have inv: "queue_inv q" using aq.reachable_inv [OF assms(1,2)] .
  from inv assms(3) show ?thesis
  proof (cases rule: flush_next_cases)
    case (queued ch)
    note spec = flush_channel_spec [OF queued(2)] and cons = flush_conserves(1) [OF queued(2)]
    let ?given = "map (to_queued ch) (fb_events b) @ chan_queue q' ch"
    have m: "mset (map to_batch ?given) = mset (map to_batch (chan_queue q1 ch))"
      using cons by (simp add: q1_def comp_def)
    then have "length ?given = length (chan_queue q1 ch)"
      by (metis length_map size_mset)
    then have "length ?given \<le> MAX_PENDING_PER_CHANNEL"
      using queue_invD(7) [OF queue_inv_expire [OF inv]] by (simp add: q1_def)
    then have "chan_queue q2 ch = ?given"
      unfolding q2_def return_undispatched_fields spec(1) if_P [OF refl] by (rule take_le_length)
    with m show ?thesis
      by (simp add: spec q1_def q2_def return_undispatched_fields)
  next
    case cancelled
    with assms(4) show ?thesis by blast
  qed
qed

definition merged_queue :: EventQueue where
  "merged_queue = requeue_as_cancelled sample_batch Steer
     (snd (push (sample_queued ''c1'' ''e9'' 8) (EventQueue_new Queue)))"

lemma merged_queue_reachable: "queue_step\<^sup>*\<^sup>* (EventQueue_new Queue) merged_queue"
  unfolding merged_queue_def
  by (rule rtranclp.rtrancl_into_rtrancl [OF r_into_rtranclp]) (rule step_push step_cancelled)+

theorem undispatched_batch_returns_witness:
  "\<exists>b q'. flush_next 9 merged_queue = (Some b, q') \<and> fb_cancelled_events b \<noteq> [] \<and>
     cancelled_of (return_undispatched 9 b q') ''c1'' = []"
proof -
  define b where "b = the (fst (flush_next 9 merged_queue))"
  have facts: "fst (flush_next 9 merged_queue) \<noteq> None" "fb_channel_id b = ''c1''"
    "fb_cancelled_events b \<noteq> []" "flushable 9 (expire_stuck 9 merged_queue) ''c1''"
    by (simp_all add: b_def merged_queue_def requeue_as_cancelled_def sample_batch_def sample_defs
          flush_defs flushable_def)
  then have res: "flush_next 9 merged_queue = (Some b, snd (flush_next 9 merged_queue))"
    by (cases "flush_next 9 merged_queue") (auto simp: b_def)
  show ?thesis
    using undispatched_batch_returns [OF sample_queue_reachable(1) merged_queue_reachable res]
      facts res by metis
qed

subsection \<open>Withholding an event while a steer is in flight\<close>

definition withheld_of :: "EventQueue \<Rightarrow> uuid \<Rightarrow> QueuedEvent list" where
  "withheld_of q ch = (case hget (withheld_native_steer q) ch of None \<Rightarrow> [] | Some ws \<Rightarrow> ws)"

lemma take_first_snoc:
  "\<forall>w\<in>set ws. \<not> P w \<Longrightarrow> P e \<Longrightarrow> take_first P (ws @ [e]) = Some (e, ws)"
  by (induction ws) auto

lemma steer_pending_fields:
  assumes "mark_native_steer_pending ch i q = (True, q')"
  obtains e rest where "take_first (\<lambda>e. ev_id (qe_event e) = i) (chan_queue q ch) = Some (e, rest)"
    "chan_queue q' ch = rest" "hget (withheld_native_steer q') ch = Some (withheld_of q ch @ [e])"
    "\<And>c. c \<noteq> ch \<Longrightarrow> chan_queue q' c = chan_queue q c"
proof (cases "hget (queues q) ch")
  case None
  with assms show thesis by (simp add: mark_native_steer_pending_def)
next
  case (Some es)
  show thesis
  proof (cases "take_first (\<lambda>e. ev_id (qe_event e) = i) es")
    case None
    with assms Some show thesis by (simp add: mark_native_steer_pending_def)
  next
    case found: (Some er)
    obtain e rest where er: "er = (e, rest)" by force
    show thesis
      by (rule that [of e rest])
         (use assms in \<open>auto simp: mark_native_steer_pending_def Some found er chan_queue_def
            withheld_of_def\<close>)
  qed
qed

lemma release_fields:
  assumes "hget (withheld_native_steer q) ch = Some ws"
    and "take_first (\<lambda>e. ev_id (qe_event e) = i) ws = Some (e, rest)"
  shows "chan_queue (release_native_steer ch i q) c =
           (if c = ch then take MAX_PENDING_PER_CHANNEL (e # chan_queue q ch) else chan_queue q c)"
    and "withheld_of (release_native_steer ch i q) ch = rest"
  using assms by (auto simp: release_native_steer_def chan_queue_def withheld_of_def)

lemma remove_event_fields:
  "chan_queue (remove_event ch i q) c =
     (if c = ch then filter (\<lambda>e. ev_id (qe_event e) \<noteq> i) (chan_queue q c) else chan_queue q c)"
  "withheld_of (remove_event ch i q) c =
     (if c = ch then filter (\<lambda>e. ev_id (qe_event e) \<noteq> i) (withheld_of q c) else withheld_of q c)"
  by (auto simp: remove_event_def chan_queue_def withheld_of_def hget_remove_event_from Let_def
           split: option.split)

text \<open>
  Withholding an event for a native steer keeps it exactly once: when
  \<open>mark_native_steer_pending\<close> finds the event, it leaves the queue (so no flush can deliver it)
  and waits in the side table; if the steer fails, \<open>release_native_steer\<close> puts it at the head of
  its queue and the queue holds the same events as at first; if the steer succeeds,
  \<open>remove_event\<close> leaves neither the queue nor the side table with an event of that id.
\<close>

theorem native_steer_keeps_event_once:
  assumes "queue_start q0" "queue_step\<^sup>*\<^sup>* q0 q"
    and "mark_native_steer_pending ch i q = (True, q1)"
    and "\<forall>w\<in>set (withheld_of q ch). ev_id (qe_event w) \<noteq> i"
  shows "(\<exists>e. ev_id (qe_event e) = i \<and>
            mset (chan_queue q ch) = add_mset e (mset (chan_queue q1 ch)) \<and>
            withheld_of q1 ch = withheld_of q ch @ [e] \<and>
            hd (chan_queue (release_native_steer ch i q1) ch) = e) \<and>
    mset (chan_queue (release_native_steer ch i q1) ch) = mset (chan_queue q ch) \<and>
    withheld_of (release_native_steer ch i q1) ch = withheld_of q ch \<and>
    (\<forall>e\<in>set (chan_queue (remove_event ch i q1) ch) \<union> set (withheld_of (remove_event ch i q1) ch).
       ev_id (qe_event e) \<noteq> i)"
proof -
  have inv: "queue_inv q" using aq.reachable_inv [OF assms(1,2)] .
  obtain e rest where e: "take_first (\<lambda>e. ev_id (qe_event e) = i) (chan_queue q ch) = Some (e, rest)"
    "chan_queue q1 ch = rest" "hget (withheld_native_steer q1) ch = Some (withheld_of q ch @ [e])"
    using steer_pending_fields [OF assms(3)] by metis
  have id: "ev_id (qe_event e) = i" and m: "mset (chan_queue q ch) = add_mset e (mset rest)"
    using take_first_Some [OF e(1)] take_first_mset [OF e(1)] by simp_all
  have "length (chan_queue q ch) = length (e # rest)"
    using m by (metis size_mset mset.simps(2))
  then have "length (e # rest) \<le> MAX_PENDING_PER_CHANNEL" using queue_invD(7) [OF inv] by metis
  then have cut: "take MAX_PENDING_PER_CHANNEL (e # rest) = e # rest" by (rule take_le_length)
  have w: "take_first (\<lambda>e. ev_id (qe_event e) = i) (withheld_of q ch @ [e]) = Some (e, withheld_of q ch)"
    using assms(4) id by (simp add: take_first_snoc)
  have rel: "chan_queue (release_native_steer ch i q1) ch = e # rest"
    "withheld_of (release_native_steer ch i q1) ch = withheld_of q ch"
    using release_fields [OF e(3) w] cut e(2) by simp_all
  have "withheld_of q1 ch = withheld_of q ch @ [e]" using e(3) by (simp add: withheld_of_def)
  with id m rel e(2) show ?thesis by (auto simp: remove_event_fields)
qed

theorem native_steer_keeps_event_once_witness:
  "fst (mark_native_steer_pending ''c1'' ''e1'' sample_queue) \<and>
   mset (chan_queue (release_native_steer ''c1'' ''e1'' (snd (mark_native_steer_pending ''c1'' ''e1'' sample_queue))) ''c1'')
     = mset (chan_queue sample_queue ''c1'')"
proof -
  have hyps: "fst (mark_native_steer_pending ''c1'' ''e1'' sample_queue)"
    "withheld_of sample_queue ''c1'' = []"
    by (simp_all add: sample_defs mark_native_steer_pending_def withheld_of_def chan_queue_def)
  then have "mark_native_steer_pending ''c1'' ''e1'' sample_queue =
      (True, snd (mark_native_steer_pending ''c1'' ''e1'' sample_queue))"
    by (simp add: prod_eq_iff)
  from native_steer_keeps_event_once [OF sample_queue_reachable this] hyps show ?thesis by simp
qed

subsection \<open>Compaction\<close>

lemma compact_fields:
  "queues (compact_expired_state now q) = queues q"
  "in_flight_channels (compact_expired_state now q) = in_flight_channels q"
  "in_flight_deadlines (compact_expired_state now q) = in_flight_deadlines q"
  "in_flight_deadline (compact_expired_state now q) = in_flight_deadline q"
  "withheld_native_steer (compact_expired_state now q) = withheld_native_steer q"
  "cancelled_batches (compact_expired_state now q) = cancelled_batches q"
  "cancel_reasons (compact_expired_state now q) = cancel_reasons q"
  by (simp_all add: compact_expired_state_def Let_def)

lemma compact_throttle:
  assumes "distinct (hkeys (retry_after q))" "now \<le> later"
  shows "(case hget (retry_after (compact_expired_state now q)) c of None \<Rightarrow> True | Some t \<Rightarrow> t \<le> later)
       = (case hget (retry_after q) c of None \<Rightarrow> True | Some t \<Rightarrow> t \<le> later)"
proof -
  have "hget (filter (\<lambda>(ch, deadline). deadline > now) m) c =
      (case hget m c of None \<Rightarrow> None | Some t \<Rightarrow> if t > now then Some t else None)"
    if "distinct (hkeys m)" for m
    using that by (induction m) (auto split: option.splits dest: map_of_SomeD simp: rev_image_eqI)
  with assms show ?thesis
    by (auto simp: compact_expired_state_def Let_def split: option.split)
qed

text \<open>Two queues that agree on what a flush reads, up to throttles that are over.\<close>

definition flush_similar :: "instant \<Rightarrow> EventQueue \<Rightarrow> EventQueue \<Rightarrow> bool" where
  "flush_similar now q q' \<longleftrightarrow>
     queues q' = queues q \<and> in_flight_channels q' = in_flight_channels q \<and>
     in_flight_deadlines q' = in_flight_deadlines q \<and> cancelled_batches q' = cancelled_batches q \<and>
     withheld_native_steer q' = withheld_native_steer q \<and> cancel_reasons q' = cancel_reasons q \<and>
     (\<forall>c. (case hget (retry_after q') c of None \<Rightarrow> True | Some t \<Rightarrow> t \<le> now) =
          (case hget (retry_after q) c of None \<Rightarrow> True | Some t \<Rightarrow> t \<le> now))"

lemma flush_similar_expire_one:
  "flush_similar now q q' \<Longrightarrow> flush_similar now (expire_one ch q) (expire_one ch q')"
  by (auto simp: flush_similar_def expire_one_def recover_withheld_for_expired_channel_def
        chan_queue_def split: option.split)

lemma flush_similar_expire:
  assumes "flush_similar now q q'"
  shows "flush_similar now (expire_stuck now q) (expire_stuck now q')"
proof -
  have "flush_similar now (fold expire_one ids q) (fold expire_one ids q')" for ids
    using assms by (induction ids arbitrary: q q') (simp_all add: flush_similar_expire_one)
  moreover have "in_flight_deadlines q' = in_flight_deadlines q"
    using assms by (simp add: flush_similar_def)
  ultimately show ?thesis by (simp add: expire_stuck_def)
qed

lemma flush_similar_flush:
  assumes "flush_similar now q q'"
  shows "fst (flush_next now q) = fst (flush_next now q')"
proof -
  let ?q = "expire_stuck now q" and ?q' = "expire_stuck now q'"
  have s: "flush_similar now ?q ?q'" by (rule flush_similar_expire [OF assms])
  then have "ready now ?q' = ready now ?q"
    by (intro ext) (simp add: flush_similar_def ready_def split: prod.split)
  with s have o: "oldest_ready now ?q' = oldest_ready now ?q"
    by (simp add: oldest_ready_def flush_similar_def)
  have "fst (flush_channel now ch ?q') = fst (flush_channel now ch ?q)" for ch
    using s by (simp add: flush_channel_def Let_def flush_similar_def chan_queue_def)
  moreover have "fst (flush_cancelled now ?q') = fst (flush_cancelled now ?q)"
    using s by (simp add: flush_cancelled_def Let_def flush_similar_def split: option.split)
  ultimately show ?thesis
    by (auto simp: flush_next_def Let_def o split: option.split prod.split) (metis fst_conv)+
qed

text \<open>
  Compaction is invisible to dispatch: dropping the expired throttles and the orphaned retry
  counters at one instant does not change the batch returned by a flush at that or any later
  instant, and it never forgets the retry count of a channel with queued events, an active
  throttle or a turn in flight.
\<close>

theorem compaction_invisible:
  assumes "queue_start q0" "queue_step\<^sup>*\<^sup>* q0 q" "now \<le> later"
  shows "fst (flush_next later (compact_expired_state now q)) = fst (flush_next later q) \<and>
    (chan_queue q c \<noteq> [] \<or> c \<in> in_flight_channels q \<or> (\<exists>t > now. hget (retry_after q) c = Some t) \<longrightarrow>
       hget (retry_counts (compact_expired_state now q)) c = hget (retry_counts q) c)"
proof -
  have inv: "queue_inv q" using aq.reachable_inv [OF assms(1,2)] .
  have "flush_similar later q (compact_expired_state now q)"
    using compact_throttle [OF queue_invD(3) [OF inv] assms(3)]
    by (simp add: flush_similar_def compact_fields)
  then have flush: "fst (flush_next later (compact_expired_state now q)) = fst (flush_next later q)"
    by (rule flush_similar_flush [symmetric])
  let ?ra = "filter (\<lambda>(ch, deadline). deadline > now) (retry_after q)"
  let ?keep = "\<lambda>ch. ch \<in> set (hkeys ?ra) \<or>
      (case hget (queues q) ch of None \<Rightarrow> False | Some es \<Rightarrow> es \<noteq> []) \<or> ch \<in> in_flight_channels q"
  have rc: "hget (retry_counts (compact_expired_state now q)) c =
      (if ?keep c then hget (retry_counts q) c else None)"
    using filter_fst_hget [of ?keep "retry_counts q" c]
    by (simp add: compact_expired_state_def Let_def case_prod_unfold)
  have "?keep c" if "chan_queue q c \<noteq> [] \<or> c \<in> in_flight_channels q \<or> (\<exists>t > now. hget (retry_after q) c = Some t)"
    using that by (force simp: chan_queue_def split: option.splits dest: map_of_SomeD)
  with rc flush show ?thesis by simp
qed

theorem compaction_invisible_witness:
  "fst (flush_next 9 (compact_expired_state 8 sample_queue)) = fst (flush_next 9 sample_queue)"
  using compaction_invisible [OF sample_queue_reachable, of 8 9] by simp

end
