(* ===== verification/Pairing.thy ===== *)
theory Pairing
  imports Kinds Bytes
begin

text \<open>
  Device pairing (NIP-AB), \<open>buzz-core/src/pairing\<close>: the messages (\<open>types.rs\<close>), the derivations
  (\<open>crypto.rs\<close>) and the session of one device (\<open>session.rs\<close>) with every handler. Time and
  randomness are arguments. What the packages \<open>nostr\<close>, \<open>hex\<close> and \<open>serde_json\<close> compute is the
  record \<open>pairing_env\<close>, an argument of every operation that uses it.
\<close>

unbundle bit_operations_syntax

subsection \<open>Messages and errors\<close>

datatype PayloadType = Nsec | Bunker | Connect | Custom

datatype AbortReason = AbortSasMismatch | UserDenied | Timeout | ProtocolError | Unknown

datatype PairingMessage =
    Offer string nat
  | SasConfirm string
  | Payload PayloadType string
  | Complete bool
  | Abort AbortReason

text \<open>Texts that come from an error of another package are left out.\<close>

datatype PairingError =
    InvalidQr string
  | InvalidSessionId
  | SasMismatch
  | TranscriptMismatch
  | UnexpectedMessage string string
  | SessionExpired
  | Nip44
  | Json
  | InvalidPubkey string
  | SigningError

definition unexpected :: "string \<Rightarrow> PairingMessage \<Rightarrow> PairingError" where
  "unexpected expected got =
     UnexpectedMessage expected
       (case got of Offer _ _ \<Rightarrow> ''offer'' | SasConfirm _ \<Rightarrow> ''sas-confirm''
        | Payload _ _ \<Rightarrow> ''payload'' | Complete _ \<Rightarrow> ''complete'' | Abort _ \<Rightarrow> ''abort'')"

subsection \<open>What other packages compute\<close>

text \<open>
  A secret key is an opaque text, a public key its hex form. Encryption and signing consume
  randomness, given as a number.
\<close>

record pairing_env =
  hkdf_extract :: "bytes \<Rightarrow> bytes \<Rightarrow> bytes"
  hkdf_expand :: "bytes \<Rightarrow> bytes \<Rightarrow> nat \<Rightarrow> bytes"
  public_key :: "string \<Rightarrow> string"
  pk_to_bytes :: "string \<Rightarrow> bytes"
  generate_shared_key :: "string \<Rightarrow> string \<Rightarrow> bytes option"
  nip44_encrypt :: "nat \<Rightarrow> string \<Rightarrow> string \<Rightarrow> string \<Rightarrow> string option"
  nip44_decrypt :: "string \<Rightarrow> string \<Rightarrow> string \<Rightarrow> string option"
  to_json :: "PairingMessage \<Rightarrow> string option"
  from_json :: "string \<Rightarrow> PairingMessage option"
  hex_encode :: "bytes \<Rightarrow> string"
  hex_decode :: "string \<Rightarrow> bytes option"
  sign_with_keys :: "nat \<Rightarrow> string \<Rightarrow> nat \<Rightarrow> nostr_tag list \<Rightarrow> nat \<Rightarrow> string \<Rightarrow> nostr_event option"
  event_verify :: "nostr_event \<Rightarrow> bool"

text \<open>\<open>Tag::public_key\<close>\<close>

definition p_tag :: "string \<Rightarrow> nostr_tag" where
  "p_tag pk = \<lparr>tag_kind = ''p'', tag_content = Some pk, tag_slice = [''p'', pk]\<rparr>"

subsection \<open>Key derivation\<close>

definition INFO_SESSION_ID :: bytes where "INFO_SESSION_ID = ascii_bytes ''nostr-pair-session-id''"
definition INFO_SAS :: bytes where "INFO_SAS = ascii_bytes ''nostr-pair-sas-v1''"
definition INFO_TRANSCRIPT :: bytes where "INFO_TRANSCRIPT = ascii_bytes ''nostr-pair-transcript-v1''"

definition hkdf32 :: "pairing_env \<Rightarrow> bytes \<Rightarrow> bytes \<Rightarrow> bytes \<Rightarrow> bytes" where
  "hkdf32 E salt ikm info = take 32 (hkdf_expand E (hkdf_extract E salt ikm) info 32)"

definition derive_session_id :: "pairing_env \<Rightarrow> bytes \<Rightarrow> bytes" where
  "derive_session_id E session_secret = hkdf32 E [] session_secret INFO_SESSION_ID"

definition u32_from_be_bytes :: "byte \<Rightarrow> byte \<Rightarrow> byte \<Rightarrow> byte \<Rightarrow> 32 word" where
  "u32_from_be_bytes a b c d =
     push_bit 24 (ucast a) OR push_bit 16 (ucast b) OR push_bit 8 (ucast c) OR ucast d"

definition derive_sas :: "pairing_env \<Rightarrow> bytes \<Rightarrow> bytes \<Rightarrow> 32 word \<times> bytes" where
  "derive_sas E ecdh_shared session_secret =
     (let sas_input = hkdf32 E session_secret ecdh_shared INFO_SAS
      in (u32_from_be_bytes (sas_input ! 0) (sas_input ! 1) (sas_input ! 2) (sas_input ! 3) mod 1000000,
          sas_input))"

definition derive_transcript_hash ::
  "pairing_env \<Rightarrow> bytes \<Rightarrow> bytes \<Rightarrow> bytes \<Rightarrow> bytes \<Rightarrow> bytes \<Rightarrow> bytes" where
  "derive_transcript_hash E session_id source_pubkey target_pubkey sas_input session_secret =
     hkdf32 E session_secret (session_id @ source_pubkey @ target_pubkey @ sas_input) INFO_TRANSCRIPT"

text \<open>\<open>format!("{code:06}")\<close>: decimal, padded with zeros to six characters.\<close>

definition format_sas :: "32 word \<Rightarrow> string" where
  "format_sas code = replicate (6 - length (dec (unat code))) CHR ''0'' @ dec (unat code)"

definition ct_eq :: "bytes \<Rightarrow> bytes \<Rightarrow> bool" where
  "ct_eq a b \<longleftrightarrow> a = b"

subsection \<open>The session\<close>

definition DEFAULT_TIMEOUT :: nat where "DEFAULT_TIMEOUT = 120000000000"
definition PAIRING_KIND :: nat where "PAIRING_KIND = KIND_PAIRING"

datatype Role = Source | Target

datatype SessionState =
    Waiting | Confirming | AwaitingConfirmation | Transferring | PayloadExchanged | Completed | Aborted

record PairingSession =
  ps_role :: Role
  ps_state :: SessionState
  ps_keys :: string
  ps_session_secret :: bytes
  ps_relay_urls :: "string list"
  ps_peer_pubkey :: "string option"
  ps_session_id :: bytes
  ps_sas_code :: "32 word option"
  ps_sas_input :: "bytes option"
  ps_processed_ids :: "string set"
  ps_created_at :: instant
  ps_timeout :: nat

record QrPayload =
  qr_source_pubkey :: string
  qr_session_secret :: bytes
  qr_relays :: "string list"
  qr_version :: nat

text \<open>
  A handler returns its result and the session after it. \<open>ques\<close> is the \<open>?\<close> of a handler: an
  error returns at once with the session as it is.
\<close>

type_synonym 'a outcome = "(PairingError + 'a) \<times> PairingSession"

definition ques :: "PairingError + 'a \<Rightarrow> PairingSession \<Rightarrow> ('a \<Rightarrow> 'b outcome) \<Rightarrow> 'b outcome" where
  "ques r s k = (case r of Inl e \<Rightarrow> (Inl e, s) | Inr a \<Rightarrow> k a)"

definition ok_or :: "'a option \<Rightarrow> PairingError \<Rightarrow> PairingError + 'a" where
  "ok_or x e = (case x of None \<Rightarrow> Inl e | Some a \<Rightarrow> Inr a)"

definition state_debug :: "SessionState \<Rightarrow> string" where
  "state_debug st =
     (case st of Waiting \<Rightarrow> ''Waiting'' | Confirming \<Rightarrow> ''Confirming''
      | AwaitingConfirmation \<Rightarrow> ''AwaitingConfirmation'' | Transferring \<Rightarrow> ''Transferring''
      | PayloadExchanged \<Rightarrow> ''PayloadExchanged'' | Completed \<Rightarrow> ''Completed'' | Aborted \<Rightarrow> ''Aborted'')"

definition role_debug :: "Role \<Rightarrow> string" where
  "role_debug r = (case r of Source \<Rightarrow> ''Source'' | Target \<Rightarrow> ''Target'')"

definition is_expired :: "instant \<Rightarrow> PairingSession \<Rightarrow> bool" where
  "is_expired now s \<longleftrightarrow> now - ps_created_at s > ps_timeout s"

definition check_expired :: "instant \<Rightarrow> PairingSession \<Rightarrow> PairingError + unit" where
  "check_expired now s = (if is_expired now s then Inl SessionExpired else Inr ())"

definition expect_state :: "SessionState \<Rightarrow> PairingSession \<Rightarrow> PairingError + unit" where
  "expect_state expected s =
     (if ps_state s \<noteq> expected
      then Inl (UnexpectedMessage (''state '' @ state_debug expected) (''state '' @ state_debug (ps_state s)))
      else Inr ())"

definition expect_role :: "Role \<Rightarrow> PairingSession \<Rightarrow> PairingError + unit" where
  "expect_role expected s =
     (if ps_role s \<noteq> expected
      then Inl (UnexpectedMessage (''role '' @ role_debug expected) (''role '' @ role_debug (ps_role s)))
      else Inr ())"

definition pubkey :: "pairing_env \<Rightarrow> PairingSession \<Rightarrow> string" where
  "pubkey E s = public_key E (ps_keys s)"

text \<open>The wall clock in seconds, the random \<open>u64\<close> of the jitter and the randomness of encryption and signing.\<close>

record build_input =
  bi_now :: nat
  bi_jitter :: nat
  bi_nonce :: nat
  bi_aux :: nat

definition build_event :: "pairing_env \<Rightarrow> build_input \<Rightarrow> PairingMessage \<Rightarrow> PairingSession \<Rightarrow> PairingError + nostr_event" where
  "build_event E bi message s =
     (case ps_peer_pubkey s of
        None \<Rightarrow> Inl (InvalidPubkey ''no peer pubkey set'')
      | Some peer \<Rightarrow>
          (case to_json E message of
             None \<Rightarrow> Inl Json
           | Some plaintext \<Rightarrow>
               (case nip44_encrypt E (bi_nonce bi) (ps_keys s) peer plaintext of
                  None \<Rightarrow> Inl Nip44
                | Some encrypted \<Rightarrow>
                    (let ts = bi_now bi - bi_jitter bi mod 31
                     in ok_or (sign_with_keys E (bi_aux bi) (ps_keys s) PAIRING_KIND [p_tag peer] ts encrypted)
                          SigningError))))"

definition decrypt_message :: "pairing_env \<Rightarrow> nostr_event \<Rightarrow> PairingSession \<Rightarrow> PairingError + PairingMessage" where
  "decrypt_message E ev s =
     (let content_len = length (ev_content ev)
      in if \<not> (132 \<le> content_len \<and> content_len \<le> 87472) then
           Inl (UnexpectedMessage ''NIP-44 content (132-87472 chars)'' (dec content_len @ '' chars''))
         else
           (case nip44_decrypt E (ps_keys s) (ev_pubkey ev) (ev_content ev) of
              None \<Rightarrow> Inl Nip44
            | Some decrypted \<Rightarrow>
                if length decrypted > 65535 then
                  Inl (UnexpectedMessage ''plaintext <= 65535 bytes'' (dec (length decrypted) @ '' bytes''))
                else ok_or (from_json E decrypted) Json))"

definition has_p_tag_for :: "string \<Rightarrow> nostr_event \<Rightarrow> bool" where
  "has_p_tag_for pk ev =
     list_ex (\<lambda>t. case tag_slice t of k # v # _ \<Rightarrow> k = ''p'' \<and> v = pk | _ \<Rightarrow> False) (ev_tags ev)"

definition validate_event_basics :: "pairing_env \<Rightarrow> nostr_event \<Rightarrow> PairingSession \<Rightarrow> PairingError + unit" where
  "validate_event_basics E ev s =
     (if \<not> event_verify E ev then Inl (InvalidPubkey ''event verification failed'')
      else if ev_id ev \<in> ps_processed_ids s then Inl (UnexpectedMessage ''new event'' ''duplicate event id'')
      else if ev_kind ev \<noteq> PAIRING_KIND then
        Inl (UnexpectedMessage (''kind '' @ dec PAIRING_KIND) (''kind '' @ dec (ev_kind ev)))
      else if \<not> has_p_tag_for (pubkey E s) ev then
        Inl (InvalidPubkey ''event p-tag does not match our ephemeral pubkey'')
      else Inr ())"

definition record_event :: "nostr_event \<Rightarrow> PairingSession \<Rightarrow> PairingSession" where
  "record_event ev s = s\<lparr>ps_processed_ids := insert (ev_id ev) (ps_processed_ids s)\<rparr>"

definition validate_event_from_peer :: "pairing_env \<Rightarrow> nostr_event \<Rightarrow> PairingSession \<Rightarrow> PairingError + unit" where
  "validate_event_from_peer E ev s =
     (case validate_event_basics E ev s of
        Inl e \<Rightarrow> Inl e
      | Inr _ \<Rightarrow>
          (case ps_peer_pubkey s of
             None \<Rightarrow> Inr ()
           | Some expected \<Rightarrow>
               if ev_pubkey ev \<noteq> expected
               then Inl (InvalidPubkey (''event from '' @ ev_pubkey ev @ '' but expected '' @ expected))
               else Inr ()))"

subsection \<open>The source device\<close>

definition new_source ::
  "pairing_env \<Rightarrow> instant \<Rightarrow> string \<Rightarrow> bytes \<Rightarrow> string \<Rightarrow> PairingSession \<times> QrPayload" where
  "new_source E now keys session_secret relay_url =
     (\<lparr>ps_role = Source, ps_state = Waiting, ps_keys = keys, ps_session_secret = session_secret,
       ps_relay_urls = [relay_url], ps_peer_pubkey = None,
       ps_session_id = derive_session_id E session_secret, ps_sas_code = None, ps_sas_input = None,
       ps_processed_ids = {}, ps_created_at = now, ps_timeout = DEFAULT_TIMEOUT\<rparr>,
      \<lparr>qr_source_pubkey = public_key E keys, qr_session_secret = session_secret,
       qr_relays = [relay_url], qr_version = 1\<rparr>)"

text \<open>\<open>hex::decode(..).ok().and_then(|b| <[u8; 32]>::try_from(b).ok())\<close>\<close>

definition decode32 :: "pairing_env \<Rightarrow> string \<Rightarrow> bytes option" where
  "decode32 E s =
     (case hex_decode E s of None \<Rightarrow> None | Some b \<Rightarrow> if length b = 32 then Some b else None)"

definition handle_offer :: "pairing_env \<Rightarrow> instant \<Rightarrow> nostr_event \<Rightarrow> PairingSession \<Rightarrow> string outcome" where
  "handle_offer E now ev s =
     ques (check_expired now s) s (\<lambda>_.
     ques (expect_state Waiting s) s (\<lambda>_.
     ques (expect_role Source s) s (\<lambda>_.
     ques (validate_event_basics E ev s) s (\<lambda>_.
     ques (decrypt_message E ev s) s (\<lambda>msg.
       case msg of
         Offer session_id_hex version \<Rightarrow>
           if version \<noteq> 1 then (Inl (UnexpectedMessage ''version 1'' (''version '' @ dec version)), s)
           else if \<not> (case decode32 E session_id_hex of None \<Rightarrow> False | Some i \<Rightarrow> ct_eq i (ps_session_id s))
           then (Inl InvalidSessionId, s)
           else
             (let peer = ev_pubkey ev;
                  s1 = s\<lparr>ps_peer_pubkey := Some peer\<rparr>
              in ques (ok_or (generate_shared_key E (ps_keys s) peer) SigningError) s1 (\<lambda>ecdh.
                   let (code, sas_input) = derive_sas E ecdh (ps_session_secret s)
                   in (Inr (format_sas code),
                       record_event ev (s1\<lparr>ps_sas_code := Some code, ps_sas_input := Some sas_input,
                                           ps_state := Confirming\<rparr>))))
       | other \<Rightarrow> (Inl (unexpected ''offer'' other), s))))))"

definition confirm_sas :: "pairing_env \<Rightarrow> instant \<Rightarrow> build_input \<Rightarrow> PairingSession \<Rightarrow> nostr_event outcome" where
  "confirm_sas E now bi s =
     ques (check_expired now s) s (\<lambda>_.
     ques (expect_state Confirming s) s (\<lambda>_.
     ques (expect_role Source s) s (\<lambda>_.
     ques (ok_or (ps_sas_input s) SasMismatch) s (\<lambda>sas_input.
     ques (ok_or (ps_peer_pubkey s) (InvalidPubkey ''no peer'')) s (\<lambda>peer.
       let transcript_hash = derive_transcript_hash E (ps_session_id s) (pk_to_bytes E (pubkey E s))
             (pk_to_bytes E peer) sas_input (ps_session_secret s)
       in ques (build_event E bi (SasConfirm (hex_encode E transcript_hash)) s) s (\<lambda>ev.
            (Inr ev, s\<lparr>ps_state := Transferring\<rparr>)))))))"

definition send_payload ::
  "pairing_env \<Rightarrow> instant \<Rightarrow> build_input \<Rightarrow> PayloadType \<Rightarrow> string \<Rightarrow> PairingSession \<Rightarrow> nostr_event outcome" where
  "send_payload E now bi payload_type payload s =
     ques (check_expired now s) s (\<lambda>_.
     ques (expect_state Transferring s) s (\<lambda>_.
     ques (expect_role Source s) s (\<lambda>_.
     ques (build_event E bi (Payload payload_type payload) s) s (\<lambda>ev.
       (Inr ev, s\<lparr>ps_state := PayloadExchanged\<rparr>)))))"

definition handle_complete :: "pairing_env \<Rightarrow> instant \<Rightarrow> nostr_event \<Rightarrow> PairingSession \<Rightarrow> unit outcome" where
  "handle_complete E now ev s =
     ques (check_expired now s) s (\<lambda>_.
     ques (expect_state PayloadExchanged s) s (\<lambda>_.
     ques (expect_role Source s) s (\<lambda>_.
     ques (validate_event_from_peer E ev s) s (\<lambda>_.
     ques (decrypt_message E ev s) s (\<lambda>msg.
       case msg of
         Complete success \<Rightarrow>
           if success then (Inr (), record_event ev (s\<lparr>ps_state := Completed\<rparr>))
           else (Inl (UnexpectedMessage ''complete(success=true)'' ''complete(success=false)''),
                 s\<lparr>ps_state := Aborted\<rparr>)
       | other \<Rightarrow> (Inl (unexpected ''complete'' other), s))))))"

subsection \<open>The target device\<close>

definition new_target ::
  "pairing_env \<Rightarrow> instant \<Rightarrow> build_input \<Rightarrow> string \<Rightarrow> QrPayload \<Rightarrow> PairingError + PairingSession \<times> nostr_event" where
  "new_target E now bi keys qr =
     (let session_id = derive_session_id E (qr_session_secret qr)
      in case generate_shared_key E keys (qr_source_pubkey qr) of
           None \<Rightarrow> Inl SigningError
         | Some ecdh \<Rightarrow>
             (let (code, sas_input) = derive_sas E ecdh (qr_session_secret qr);
                  session = \<lparr>ps_role = Target, ps_state = Waiting, ps_keys = keys,
                    ps_session_secret = qr_session_secret qr, ps_relay_urls = qr_relays qr,
                    ps_peer_pubkey = Some (qr_source_pubkey qr), ps_session_id = session_id,
                    ps_sas_code = Some code, ps_sas_input = Some sas_input, ps_processed_ids = {},
                    ps_created_at = now, ps_timeout = DEFAULT_TIMEOUT\<rparr>
              in case build_event E bi (Offer (hex_encode E session_id) 1) session of
                   Inl e \<Rightarrow> Inl e
                 | Inr ev \<Rightarrow> Inr (session\<lparr>ps_state := Confirming\<rparr>, ev)))"

definition handle_sas_confirm :: "pairing_env \<Rightarrow> instant \<Rightarrow> nostr_event \<Rightarrow> PairingSession \<Rightarrow> string outcome" where
  "handle_sas_confirm E now ev s =
     ques (check_expired now s) s (\<lambda>_.
     ques (expect_state Confirming s) s (\<lambda>_.
     ques (expect_role Target s) s (\<lambda>_.
     ques (validate_event_from_peer E ev s) s (\<lambda>_.
     ques (decrypt_message E ev s) s (\<lambda>msg.
       case msg of
         SasConfirm received_hash \<Rightarrow>
           ques (ok_or (ps_sas_input s) SasMismatch) s (\<lambda>sas_input.
           ques (ok_or (ps_peer_pubkey s) (InvalidPubkey ''no peer'')) s (\<lambda>peer.
             let expected_hash = derive_transcript_hash E (ps_session_id s) (pk_to_bytes E peer)
                   (pk_to_bytes E (pubkey E s)) sas_input (ps_session_secret s)
             in if \<not> (case decode32 E received_hash of None \<Rightarrow> False | Some rb \<Rightarrow> ct_eq rb expected_hash)
                then (Inl TranscriptMismatch, s\<lparr>ps_state := Aborted\<rparr>)
                else
                  (let s1 = record_event ev (s\<lparr>ps_state := AwaitingConfirmation\<rparr>)
                   in ques (ok_or (ps_sas_code s) SasMismatch) s1 (\<lambda>code. (Inr (format_sas code), s1)))))
       | other \<Rightarrow> (Inl (unexpected ''sas-confirm'' other), s))))))"

definition confirm_target_sas :: "instant \<Rightarrow> PairingSession \<Rightarrow> unit outcome" where
  "confirm_target_sas now s =
     ques (check_expired now s) s (\<lambda>_.
     ques (expect_state AwaitingConfirmation s) s (\<lambda>_.
     ques (expect_role Target s) s (\<lambda>_. (Inr (), s\<lparr>ps_state := Transferring\<rparr>))))"

definition handle_payload ::
  "pairing_env \<Rightarrow> instant \<Rightarrow> nostr_event \<Rightarrow> PairingSession \<Rightarrow> (PayloadType \<times> string) outcome" where
  "handle_payload E now ev s =
     ques (check_expired now s) s (\<lambda>_.
     ques (expect_state Transferring s) s (\<lambda>_.
     ques (expect_role Target s) s (\<lambda>_.
     ques (validate_event_from_peer E ev s) s (\<lambda>_.
     ques (decrypt_message E ev s) s (\<lambda>msg.
       case msg of
         Payload payload_type payload \<Rightarrow>
           (Inr (payload_type, payload), record_event ev (s\<lparr>ps_state := PayloadExchanged\<rparr>))
       | other \<Rightarrow> (Inl (unexpected ''payload'' other), s))))))"

definition send_complete :: "pairing_env \<Rightarrow> instant \<Rightarrow> build_input \<Rightarrow> PairingSession \<Rightarrow> nostr_event outcome" where
  "send_complete E now bi s =
     ques (check_expired now s) s (\<lambda>_.
     ques (expect_state PayloadExchanged s) s (\<lambda>_.
     ques (expect_role Target s) s (\<lambda>_.
     ques (build_event E bi (Complete True) s) s (\<lambda>ev.
       (Inr ev, s\<lparr>ps_state := Completed\<rparr>)))))"

subsection \<open>Aborting\<close>

definition terminal :: "SessionState \<Rightarrow> bool" where
  "terminal st \<longleftrightarrow> st = Completed \<or> st = Aborted"

definition abort :: "pairing_env \<Rightarrow> build_input \<Rightarrow> AbortReason \<Rightarrow> PairingSession \<Rightarrow> nostr_event option outcome" where
  "abort E bi reason s =
     (if terminal (ps_state s) then
        (Inl (UnexpectedMessage ''non-terminal state'' (''state '' @ state_debug (ps_state s))), s)
      else if ps_peer_pubkey s = None then (Inr None, s\<lparr>ps_state := Aborted\<rparr>)
      else ques (build_event E bi (Abort reason) s) s (\<lambda>ev. (Inr (Some ev), s\<lparr>ps_state := Aborted\<rparr>)))"

definition handle_abort :: "pairing_env \<Rightarrow> nostr_event \<Rightarrow> PairingSession \<Rightarrow> AbortReason outcome" where
  "handle_abort E ev s =
     (if terminal (ps_state s) then
        (Inl (UnexpectedMessage ''non-terminal state'' (''state '' @ state_debug (ps_state s))), s)
      else if ps_peer_pubkey s = None then
        (Inl (InvalidPubkey ''cannot accept abort before peer is known''), s)
      else
        ques (validate_event_from_peer E ev s) s (\<lambda>_.
        ques (decrypt_message E ev s) s (\<lambda>msg.
          case msg of
            Abort reason \<Rightarrow> (Inr reason, record_event ev (s\<lparr>ps_state := Aborted\<rparr>))
          | other \<Rightarrow> (Inl (unexpected ''abort'' other), s))))"

subsection \<open>Reading the handlers\<close>

lemma ques_simps [simp]: "ques (Inl e) s k = (Inl e, s)" "ques (Inr a) s k = k a"
  by (simp_all add: ques_def)

lemma msg_cases:
  fixes r :: "PairingError + PairingMessage"
  obtains e where "r = Inl e" | h v where "r = Inr (Offer h v)" | h where "r = Inr (SasConfirm h)"
    | ty pl where "r = Inr (Payload ty pl)" | b where "r = Inr (Complete b)" | a where "r = Inr (Abort a)"
proof (cases r)
  case (Inl e)
  then show thesis by (rule that)
next
  case (Inr m)
  then show thesis by (cases m) (auto intro: that)
qed

lemma ques_Inr [simp]: "ques r s k = (Inr b, s') \<longleftrightarrow> (\<exists>a. r = Inr a \<and> k a = (Inr b, s'))"
  by (cases r) (auto simp: ques_def)

lemma ques_Inl: "ques r s k = (Inl e, s') \<longleftrightarrow> (r = Inl e \<and> s' = s) \<or> (\<exists>a. r = Inr a \<and> k a = (Inl e, s'))"
  by (cases r) (auto simp: ques_def)

lemma ok_or_simps [simp]:
  "ok_or x e = Inr a \<longleftrightarrow> x = Some a" "ok_or x e = Inl e' \<longleftrightarrow> x = None \<and> e' = e"
  by (auto simp: ok_or_def split: option.split)

lemma guard_simps [simp]:
  "check_expired now s = Inr u \<longleftrightarrow> \<not> is_expired now s"
  "expect_state st s = Inr u \<longleftrightarrow> ps_state s = st"
  "expect_role r s = Inr u \<longleftrightarrow> ps_role s = r"
  by (auto simp: check_expired_def expect_state_def expect_role_def)

definition fresh_event :: "pairing_env \<Rightarrow> nostr_event \<Rightarrow> PairingSession \<Rightarrow> bool" where
  "fresh_event E ev s \<longleftrightarrow>
     event_verify E ev \<and> ev_id ev \<notin> ps_processed_ids s \<and> ev_kind ev = PAIRING_KIND \<and>
     has_p_tag_for (pubkey E s) ev"

lemma validate_event_basics_Inr [simp]: "validate_event_basics E ev s = Inr u \<longleftrightarrow> fresh_event E ev s"
  by (simp add: validate_event_basics_def fresh_event_def)

lemma validate_event_from_peer_Inr [simp]:
  "validate_event_from_peer E ev s = Inr u \<longleftrightarrow>
     fresh_event E ev s \<and> (\<forall>p. ps_peer_pubkey s = Some p \<longrightarrow> ev_pubkey ev = p)"
proof (cases "validate_event_basics E ev s")
  case (Inl e)
  with validate_event_basics_Inr [of E ev s "()"] show ?thesis
    by (simp add: validate_event_from_peer_def)
next
  case (Inr u)
  then have "fresh_event E ev s" by simp
  then show ?thesis
    unfolding validate_event_from_peer_def Inr sum.case by (cases "ps_peer_pubkey s") simp_all
qed

lemma decode32_Some: "decode32 E h = Some b \<longleftrightarrow> hex_decode E h = Some b \<and> length b = 32"
  by (auto simp: decode32_def split: option.split)

lemma decode32_case:
  "(case decode32 E h of None \<Rightarrow> False | Some i \<Rightarrow> ct_eq i x) \<longleftrightarrow> decode32 E h = Some x"
  by (auto simp: ct_eq_def split: option.split)

definition offered :: "pairing_env \<Rightarrow> nostr_event \<Rightarrow> bytes \<Rightarrow> PairingSession \<Rightarrow> PairingSession" where
  "offered E ev ecdh s =
     record_event ev (s\<lparr>ps_peer_pubkey := Some (ev_pubkey ev),
       ps_sas_code := Some (fst (derive_sas E ecdh (ps_session_secret s))),
       ps_sas_input := Some (snd (derive_sas E ecdh (ps_session_secret s))),
       ps_state := Confirming\<rparr>)"

lemma handle_offer_Inr:
  "handle_offer E now ev s = (Inr c, s') \<longleftrightarrow>
     \<not> is_expired now s \<and> ps_state s = Waiting \<and> ps_role s = Source \<and> fresh_event E ev s \<and>
     (\<exists>h ecdh. decrypt_message E ev s = Inr (Offer h 1) \<and> decode32 E h = Some (ps_session_id s) \<and>
        generate_shared_key E (ps_keys s) (ev_pubkey ev) = Some ecdh \<and>
        c = format_sas (fst (derive_sas E ecdh (ps_session_secret s))) \<and> s' = offered E ev ecdh s)"
  unfolding handle_offer_def decode32_case
  by (cases "decrypt_message E ev s" rule: msg_cases)
     (auto simp: offered_def Let_def case_prod_unfold unexpected_def)

lemma confirm_sas_Inr:
  "confirm_sas E now bi s = (Inr ev, s') \<longleftrightarrow>
     \<not> is_expired now s \<and> ps_state s = Confirming \<and> ps_role s = Source \<and>
     (\<exists>i peer. ps_sas_input s = Some i \<and> ps_peer_pubkey s = Some peer \<and>
        build_event E bi (SasConfirm (hex_encode E (derive_transcript_hash E (ps_session_id s)
          (pk_to_bytes E (pubkey E s)) (pk_to_bytes E peer) i (ps_session_secret s)))) s = Inr ev) \<and>
     s' = s\<lparr>ps_state := Transferring\<rparr>"
  by (auto simp: confirm_sas_def Let_def)

lemma send_payload_Inr:
  "send_payload E now bi ty pl s = (Inr ev, s') \<longleftrightarrow>
     \<not> is_expired now s \<and> ps_state s = Transferring \<and> ps_role s = Source \<and>
     build_event E bi (Payload ty pl) s = Inr ev \<and> s' = s\<lparr>ps_state := PayloadExchanged\<rparr>"
  by (auto simp: send_payload_def)

lemma handle_complete_Inr:
  "handle_complete E now ev s = (Inr u, s') \<longleftrightarrow>
     \<not> is_expired now s \<and> ps_state s = PayloadExchanged \<and> ps_role s = Source \<and> fresh_event E ev s \<and>
     (\<forall>p. ps_peer_pubkey s = Some p \<longrightarrow> ev_pubkey ev = p) \<and>
     decrypt_message E ev s = Inr (Complete True) \<and> s' = record_event ev (s\<lparr>ps_state := Completed\<rparr>)"
  by (cases "decrypt_message E ev s" rule: msg_cases)
     (auto simp: handle_complete_def unexpected_def)

lemma handle_sas_confirm_Inr:
  "handle_sas_confirm E now ev s = (Inr c, s') \<longleftrightarrow>
     \<not> is_expired now s \<and> ps_state s = Confirming \<and> ps_role s = Target \<and> fresh_event E ev s \<and>
     (\<exists>h i peer code. decrypt_message E ev s = Inr (SasConfirm h) \<and> ps_sas_input s = Some i \<and>
        ps_peer_pubkey s = Some peer \<and> ev_pubkey ev = peer \<and> ps_sas_code s = Some code \<and>
        decode32 E h = Some (derive_transcript_hash E (ps_session_id s) (pk_to_bytes E peer)
          (pk_to_bytes E (pubkey E s)) i (ps_session_secret s)) \<and> c = format_sas code) \<and>
     s' = record_event ev (s\<lparr>ps_state := AwaitingConfirmation\<rparr>)"
  unfolding handle_sas_confirm_def decode32_case Let_def
  by (cases "decrypt_message E ev s" rule: msg_cases) (auto simp: unexpected_def)

lemma confirm_target_sas_Inr:
  "confirm_target_sas now s = (Inr u, s') \<longleftrightarrow>
     \<not> is_expired now s \<and> ps_state s = AwaitingConfirmation \<and> ps_role s = Target \<and>
     s' = s\<lparr>ps_state := Transferring\<rparr>"
  by (auto simp: confirm_target_sas_def)

lemma handle_payload_Inr:
  "handle_payload E now ev s = (Inr (ty, pl), s') \<longleftrightarrow>
     \<not> is_expired now s \<and> ps_state s = Transferring \<and> ps_role s = Target \<and> fresh_event E ev s \<and>
     (\<forall>p. ps_peer_pubkey s = Some p \<longrightarrow> ev_pubkey ev = p) \<and>
     decrypt_message E ev s = Inr (Payload ty pl) \<and>
     s' = record_event ev (s\<lparr>ps_state := PayloadExchanged\<rparr>)"
  by (cases "decrypt_message E ev s" rule: msg_cases) (auto simp: handle_payload_def)

lemma send_complete_Inr:
  "send_complete E now bi s = (Inr ev, s') \<longleftrightarrow>
     \<not> is_expired now s \<and> ps_state s = PayloadExchanged \<and> ps_role s = Target \<and>
     build_event E bi (Complete True) s = Inr ev \<and> s' = s\<lparr>ps_state := Completed\<rparr>"
  by (auto simp: send_complete_def)

lemma handle_abort_Inr:
  "handle_abort E ev s = (Inr r, s') \<longleftrightarrow>
     \<not> terminal (ps_state s) \<and> fresh_event E ev s \<and> ps_peer_pubkey s = Some (ev_pubkey ev) \<and>
     decrypt_message E ev s = Inr (Abort r) \<and> s' = record_event ev (s\<lparr>ps_state := Aborted\<rparr>)"
  by (cases "decrypt_message E ev s" rule: msg_cases) (auto simp: handle_abort_def)

lemma abort_Inr:
  "abort E bi r s = (Inr e, s') \<Longrightarrow> \<not> terminal (ps_state s) \<and> s' = s\<lparr>ps_state := Aborted\<rparr>"
  by (auto simp: abort_def split: if_splits)

lemmas handler_Inr = handle_offer_Inr confirm_sas_Inr send_payload_Inr handle_complete_Inr
  handle_sas_confirm_Inr confirm_target_sas_Inr handle_payload_Inr send_complete_Inr handle_abort_Inr

text \<open>
  What a refused call may change: nothing, except that a source still waiting remembers the
  sender of an offer whose key could not be used, and that a wrong transcript hash or a negative
  completion abort the session.
\<close>

definition refused :: "PairingSession \<Rightarrow> PairingSession \<Rightarrow> bool" where
  "refused s s' \<longleftrightarrow>
     s' = s \<or>
     (ps_role s = Source \<and> ps_state s = Waiting \<and> (\<exists>p. s' = s\<lparr>ps_peer_pubkey := Some p\<rparr>)) \<or>
     (ps_role s = Source \<and> ps_state s = PayloadExchanged \<and> s' = s\<lparr>ps_state := Aborted\<rparr>) \<or>
     (ps_role s = Target \<and> ps_state s = Confirming \<and>
        (s' = s\<lparr>ps_state := Aborted\<rparr> \<or>
         (ps_sas_code s = None \<and> (\<exists>ev. s' = record_event ev (s\<lparr>ps_state := AwaitingConfirmation\<rparr>)))))"

lemma refused_same [simp]: "refused s s"
  by (simp add: refused_def)

lemma refused_sent:
  "confirm_sas E now bi s = (Inl e, s') \<Longrightarrow> refused s s'"
  "send_payload E now bi ty pl s = (Inl e, s') \<Longrightarrow> refused s s'"
  "confirm_target_sas now s = (Inl e, s') \<Longrightarrow> refused s s'"
  "send_complete E now bi s = (Inl e, s') \<Longrightarrow> refused s s'"
  "abort E bi r s = (Inl e, s') \<Longrightarrow> refused s s'"
  by (auto simp: confirm_sas_def send_payload_def confirm_target_sas_def send_complete_def abort_def
        Let_def ques_Inl split: if_splits)

lemma refused_handle_offer: "handle_offer E now ev s = (Inl e, s') \<Longrightarrow> refused s s'"
  unfolding handle_offer_def decode32_case
  by (cases "decrypt_message E ev s" rule: msg_cases)
     (auto simp: Let_def case_prod_unfold ques_Inl refused_def split: if_splits)

lemma refused_handle_complete: "handle_complete E now ev s = (Inl e, s') \<Longrightarrow> refused s s'"
  by (cases "decrypt_message E ev s" rule: msg_cases)
     (auto simp: handle_complete_def ques_Inl refused_def split: if_splits)

lemma refused_handle_sas_confirm: "handle_sas_confirm E now ev s = (Inl e, s') \<Longrightarrow> refused s s'"
  unfolding handle_sas_confirm_def decode32_case
  by (cases "decrypt_message E ev s" rule: msg_cases)
     (auto simp: Let_def ques_Inl refused_def split: if_splits)

lemma refused_handle_payload: "handle_payload E now ev s = (Inl e, s') \<Longrightarrow> refused s s'"
  by (cases "decrypt_message E ev s" rule: msg_cases) (auto simp: handle_payload_def ques_Inl)

lemma refused_handle_abort: "handle_abort E ev s = (Inl e, s') \<Longrightarrow> refused s s'"
  by (cases "decrypt_message E ev s" rule: msg_cases)
     (auto simp: handle_abort_def ques_Inl split: if_splits)

lemmas refused_handlers = refused_sent refused_handle_offer refused_handle_complete
  refused_handle_sas_confirm refused_handle_payload refused_handle_abort

subsection \<open>A session as a state machine\<close>

datatype step_label =
    OfferAccepted | SasSent | PayloadSent | CompleteReceived
  | SasReceived | TargetConfirmed | PayloadReceived | CompleteSent
  | AbortSent | AbortReceived | Failed

inductive session_step :: "pairing_env \<Rightarrow> PairingSession \<Rightarrow> step_label \<Rightarrow> PairingSession \<Rightarrow> bool"
  for E where
  "handle_offer E now ev s = (Inr c, s') \<Longrightarrow> session_step E s OfferAccepted s'"
| "handle_offer E now ev s = (Inl e, s') \<Longrightarrow> session_step E s Failed s'"
| "confirm_sas E now bi s = (Inr ev, s') \<Longrightarrow> session_step E s SasSent s'"
| "confirm_sas E now bi s = (Inl e, s') \<Longrightarrow> session_step E s Failed s'"
| "send_payload E now bi ty pl s = (Inr ev, s') \<Longrightarrow> session_step E s PayloadSent s'"
| "send_payload E now bi ty pl s = (Inl e, s') \<Longrightarrow> session_step E s Failed s'"
| "handle_complete E now ev s = (Inr u, s') \<Longrightarrow> session_step E s CompleteReceived s'"
| "handle_complete E now ev s = (Inl e, s') \<Longrightarrow> session_step E s Failed s'"
| "handle_sas_confirm E now ev s = (Inr c, s') \<Longrightarrow> session_step E s SasReceived s'"
| "handle_sas_confirm E now ev s = (Inl e, s') \<Longrightarrow> session_step E s Failed s'"
| "confirm_target_sas now s = (Inr u, s') \<Longrightarrow> session_step E s TargetConfirmed s'"
| "confirm_target_sas now s = (Inl e, s') \<Longrightarrow> session_step E s Failed s'"
| "handle_payload E now ev s = (Inr p, s') \<Longrightarrow> session_step E s PayloadReceived s'"
| "handle_payload E now ev s = (Inl e, s') \<Longrightarrow> session_step E s Failed s'"
| "send_complete E now bi s = (Inr ev, s') \<Longrightarrow> session_step E s CompleteSent s'"
| "send_complete E now bi s = (Inl e, s') \<Longrightarrow> session_step E s Failed s'"
| "abort E bi r s = (Inr o_ev, s') \<Longrightarrow> session_step E s AbortSent s'"
| "abort E bi r s = (Inl e, s') \<Longrightarrow> session_step E s Failed s'"
| "handle_abort E ev s = (Inr r, s') \<Longrightarrow> session_step E s AbortReceived s'"
| "handle_abort E ev s = (Inl e, s') \<Longrightarrow> session_step E s Failed s'"

inductive session_run :: "pairing_env \<Rightarrow> PairingSession \<Rightarrow> step_label list \<Rightarrow> PairingSession \<Rightarrow> bool"
  for E s where
  run_nil: "session_run E s [] s"
| run_step: "session_run E s ls t \<Longrightarrow> session_step E t l u \<Longrightarrow> session_run E s (ls @ [l]) u"

text \<open>The successful steps of each role in the order of the protocol, and how far a state is along them.\<close>

definition protocol :: "Role \<Rightarrow> step_label list" where
  "protocol r = (case r of Source \<Rightarrow> [OfferAccepted, SasSent, PayloadSent, CompleteReceived]
                 | Target \<Rightarrow> [SasReceived, TargetConfirmed, PayloadReceived, CompleteSent])"

definition stage :: "Role \<Rightarrow> SessionState \<Rightarrow> nat option" where
  "stage r st =
     (case r of
        Source \<Rightarrow> (case st of Waiting \<Rightarrow> Some 0 | Confirming \<Rightarrow> Some 1 | Transferring \<Rightarrow> Some 2
                    | PayloadExchanged \<Rightarrow> Some 3 | Completed \<Rightarrow> Some 4 | _ \<Rightarrow> None)
      | Target \<Rightarrow> (case st of Confirming \<Rightarrow> Some 0 | AwaitingConfirmation \<Rightarrow> Some 1 | Transferring \<Rightarrow> Some 2
                    | PayloadExchanged \<Rightarrow> Some 3 | Completed \<Rightarrow> Some 4 | _ \<Rightarrow> None))"

definition progress :: "step_label \<Rightarrow> bool" where
  "progress l \<longleftrightarrow> l \<notin> {AbortSent, AbortReceived, Failed}"

lemma record_event_fields [simp]:
  "ps_role (record_event ev s) = ps_role s" "ps_state (record_event ev s) = ps_state s"
  "ps_peer_pubkey (record_event ev s) = ps_peer_pubkey s" "ps_keys (record_event ev s) = ps_keys s"
  "ps_session_secret (record_event ev s) = ps_session_secret s"
  "ps_session_id (record_event ev s) = ps_session_id s"
  "ps_sas_code (record_event ev s) = ps_sas_code s" "ps_sas_input (record_event ev s) = ps_sas_input s"
  "ps_created_at (record_event ev s) = ps_created_at s" "ps_timeout (record_event ev s) = ps_timeout s"
  "ps_processed_ids (record_event ev s) = insert (ev_id ev) (ps_processed_ids s)"
  by (simp_all add: record_event_def)

text \<open>The five shapes of a step.\<close>

lemma session_step_cases:
  assumes "session_step E s l s'"
  obtains (offer) ev h ecdh where "l = OfferAccepted" "ps_role s = Source" "ps_state s = Waiting"
      "fresh_event E ev s" "decrypt_message E ev s = Inr (Offer h 1)"
      "decode32 E h = Some (ps_session_id s)"
      "generate_shared_key E (ps_keys s) (ev_pubkey ev) = Some ecdh" "s' = offered E ev ecdh s"
  | (sent) st where "l \<in> {SasSent, PayloadSent, TargetConfirmed, CompleteSent}"
      "s' = s\<lparr>ps_state := st\<rparr>" "progress l"
      "\<exists>n. stage (ps_role s) (ps_state s) = Some n \<and> n < 4 \<and> protocol (ps_role s) ! n = l \<and>
           stage (ps_role s) st = Some (Suc n)" "ps_state s \<noteq> Waiting"
  | (received) ev st where "l \<in> {CompleteReceived, SasReceived, PayloadReceived}"
      "s' = record_event ev (s\<lparr>ps_state := st\<rparr>)" "progress l" "fresh_event E ev s"
      "\<forall>p. ps_peer_pubkey s = Some p \<longrightarrow> ev_pubkey ev = p"
      "\<exists>n. stage (ps_role s) (ps_state s) = Some n \<and> n < 4 \<and> protocol (ps_role s) ! n = l \<and>
           stage (ps_role s) st = Some (Suc n)" "ps_state s \<noteq> Waiting"
  | (aborting) "l \<in> {AbortSent, AbortReceived}" "\<not> terminal (ps_state s)"
      "s' = s\<lparr>ps_state := Aborted\<rparr> \<or>
       (\<exists>ev. fresh_event E ev s \<and> ps_peer_pubkey s = Some (ev_pubkey ev) \<and>
             s' = record_event ev (s\<lparr>ps_state := Aborted\<rparr>))"
  | (failed) "l = Failed" "refused s s'"
  using assms
proof cases
  case (1 now ev c)
  then show thesis using offer unfolding handle_offer_Inr by blast
next
  case (3 now bi ev)
  then show thesis using sent [of Transferring]
    unfolding confirm_sas_Inr by (simp add: stage_def protocol_def progress_def)
next
  case (5 now bi ty pl ev)
  then show thesis using sent [of PayloadExchanged]
    unfolding send_payload_Inr by (simp add: stage_def protocol_def progress_def)
next
  case (7 now ev u)
  then show thesis using received [of ev Completed]
    unfolding handle_complete_Inr by (simp add: stage_def protocol_def progress_def)
next
  case (9 now ev c)
  then show thesis using received [of ev AwaitingConfirmation]
    unfolding handle_sas_confirm_Inr by (auto simp: stage_def protocol_def progress_def)
next
  case (11 now u)
  then show thesis using sent [of Transferring]
    unfolding confirm_target_sas_Inr by (simp add: stage_def protocol_def progress_def)
next
  case (13 now ev p)
  then show thesis using received [of ev PayloadExchanged]
    by (cases p) (auto simp: handle_payload_Inr stage_def protocol_def progress_def)
next
  case (15 now bi ev)
  then show thesis using sent [of Completed]
    unfolding send_complete_Inr by (simp add: stage_def protocol_def progress_def)
next
  case (17 bi r o_ev)
  then show thesis using aborting abort_Inr by blast
next
  case (19 ev r)
  then show thesis using aborting unfolding handle_abort_Inr by blast
qed (auto intro: failed refused_handlers)

subsection \<open>Invariants of a session\<close>

definition session_start :: "pairing_env \<Rightarrow> PairingSession \<Rightarrow> bool" where
  "session_start E s \<longleftrightarrow>
     (\<exists>now keys secret url. s = fst (new_source E now keys secret url)) \<or>
     (\<exists>now bi keys qr ev. new_target E now bi keys qr = Inr (s, ev))"

text \<open>
  The short authentication string belongs to the peer the session is locked to: before the
  offer there is none, afterwards code and input are derived from the key shared with that peer.
\<close>

definition sas_bound :: "pairing_env \<Rightarrow> PairingSession \<Rightarrow> bool" where
  "sas_bound E s \<longleftrightarrow>
     ps_session_id s = derive_session_id E (ps_session_secret s) \<and>
     (ps_role s = Source \<and> ps_sas_input s = None \<and> ps_sas_code s = None \<and> ps_state s \<in> {Waiting, Aborted} \<or>
      (\<exists>peer ecdh. ps_peer_pubkey s = Some peer \<and> generate_shared_key E (ps_keys s) peer = Some ecdh \<and>
         ps_sas_code s = Some (fst (derive_sas E ecdh (ps_session_secret s))) \<and>
         ps_sas_input s = Some (snd (derive_sas E ecdh (ps_session_secret s))) \<and> ps_state s \<noteq> Waiting))"

lemma new_target_Inr:
  assumes "new_target E now bi keys qr = Inr (s, ev)"
  obtains ecdh where "generate_shared_key E keys (qr_source_pubkey qr) = Some ecdh"
    "s = \<lparr>ps_role = Target, ps_state = Confirming, ps_keys = keys,
          ps_session_secret = qr_session_secret qr, ps_relay_urls = qr_relays qr,
          ps_peer_pubkey = Some (qr_source_pubkey qr),
          ps_session_id = derive_session_id E (qr_session_secret qr),
          ps_sas_code = Some (fst (derive_sas E ecdh (qr_session_secret qr))),
          ps_sas_input = Some (snd (derive_sas E ecdh (qr_session_secret qr))),
          ps_processed_ids = {}, ps_created_at = now, ps_timeout = DEFAULT_TIMEOUT\<rparr>"
    "build_event E bi (Offer (hex_encode E (ps_session_id s)) 1) (s\<lparr>ps_state := Waiting\<rparr>) = Inr ev"
  using assms
  by (auto simp: new_target_def Let_def case_prod_unfold split: option.splits sum.splits)

lemma sas_bound_start: "session_start E s \<Longrightarrow> sas_bound E s"
  by (auto simp: session_start_def sas_bound_def new_source_def elim!: new_target_Inr)

lemma sas_bound_frame:
  assumes "sas_bound E s" "ps_state s \<noteq> Waiting \<or> st = Aborted" "ps_state s \<noteq> Aborted \<or> st = Aborted"
    "st \<noteq> Waiting"
  shows "sas_bound E (s\<lparr>ps_state := st\<rparr>)"
  using assms unfolding sas_bound_def by auto

lemma sas_bound_record [simp]: "sas_bound E (record_event ev s) = sas_bound E s"
  by (simp add: sas_bound_def)

lemma stage_not_waiting: "stage r st = Some (Suc n) \<Longrightarrow> st \<noteq> Waiting \<and> st \<noteq> Aborted"
  "stage r st = Some n \<Longrightarrow> st \<noteq> Aborted"
  by (auto simp: stage_def split: Role.splits SessionState.splits)

lemma sas_bound_aborted_or_locked:
  "sas_bound E s \<Longrightarrow> ps_state s \<noteq> Waiting \<Longrightarrow> ps_state s \<noteq> Aborted \<Longrightarrow> ps_peer_pubkey s \<noteq> None"
  by (auto simp: sas_bound_def)

lemma sas_bound_step:
  assumes "sas_bound E s" "session_step E s l s'"
  shows "sas_bound E s'"
  using assms(2)
proof (cases rule: session_step_cases)
  case (offer ev h ecdh)
  with assms(1) show ?thesis by (auto simp: offered_def sas_bound_def)
next
  case (sent st)
  obtain n where "stage (ps_role s) (ps_state s) = Some n" "stage (ps_role s) st = Some (Suc n)"
    using sent(4) by blast
  from stage_not_waiting(2) [OF this(1)] stage_not_waiting(1) [OF this(2)] sent(2,5)
  show ?thesis by (simp add: sas_bound_frame [OF assms(1)])
next
  case (received ev st)
  obtain n where "stage (ps_role s) (ps_state s) = Some n" "stage (ps_role s) st = Some (Suc n)"
    using received(6) by blast
  from stage_not_waiting(2) [OF this(1)] stage_not_waiting(1) [OF this(2)] received(2,7)
  show ?thesis by (simp add: sas_bound_frame [OF assms(1)])
next
  case aborting
  then show ?thesis
    using sas_bound_frame [OF assms(1)] by (auto simp: terminal_def)
next
  case failed
  with assms(1) show ?thesis
    unfolding refused_def
  proof (elim disjE conjE exE)
    fix p assume "ps_role s = Source" "ps_state s = Waiting" "s' = s\<lparr>ps_peer_pubkey := Some p\<rparr>"
    with assms(1) show ?thesis by (auto simp: sas_bound_def)
  next
    fix ev assume "ps_role s = Target" "ps_sas_code s = None"
    with assms(1) show ?thesis by (auto simp: sas_bound_def)
  qed (use sas_bound_frame [OF assms(1), of Aborted] in simp_all)
qed

abbreviation any_step :: "pairing_env \<Rightarrow> PairingSession \<Rightarrow> PairingSession \<Rightarrow> bool" where
  "any_step E s t \<equiv> \<exists>l. session_step E s l t"

interpretation pairing: inv_machine "session_start E" "any_step E" "sas_bound E" for E
  by unfold_locales (auto intro: sas_bound_start sas_bound_step)

lemma run_any_steps: "session_run E s ls t \<Longrightarrow> (any_step E)\<^sup>*\<^sup>* s t"
  by (induction rule: session_run.induct) (auto intro: rtranclp.rtrancl_into_rtrancl)

lemma run_sas_bound: "session_start E s \<Longrightarrow> session_run E s ls t \<Longrightarrow> sas_bound E t"
  using pairing.reachable_inv run_any_steps by blast

lemma start_stage: "session_start E s \<Longrightarrow> stage (ps_role s) (ps_state s) = Some 0"
  by (auto simp: session_start_def stage_def new_source_def elim!: new_target_Inr)

text \<open>How one step moves along the protocol.\<close>

lemma step_role: "session_step E s l s' \<Longrightarrow> ps_role s' = ps_role s"
  by (cases rule: session_step_cases) (auto simp: offered_def refused_def)

lemma step_progress:
  assumes "sas_bound E s" "session_step E s l s'" "progress l"
  obtains n where "stage (ps_role s) (ps_state s) = Some n" "n < 4" "protocol (ps_role s) ! n = l"
    "stage (ps_role s) (ps_state s') = Some (Suc n)"
  using assms(2)
proof (cases rule: session_step_cases)
  case (offer ev h ecdh)
  then show thesis using that [of 0] by (simp add: offered_def stage_def protocol_def)
qed (use that assms(3) in \<open>auto simp: progress_def\<close>)

lemma step_no_progress:
  assumes "sas_bound E s" "session_step E s l s'" "\<not> progress l"
  shows "ps_state s' = ps_state s \<or> ps_state s' = Aborted"
  using assms(2)
proof (cases rule: session_step_cases)
  case failed
  with assms(1) show ?thesis by (auto simp: refused_def sas_bound_def)
qed (use assms(3) in \<open>auto simp: progress_def\<close>)

lemma stage_terminal: "terminal st \<Longrightarrow> stage r st = Some n \<Longrightarrow> n = 4"
  by (auto simp: terminal_def stage_def split: Role.splits)

lemma step_terminal:
  assumes "session_step E s l s'" "terminal (ps_state s)"
  shows "l = Failed \<and> s' = s"
  using assms(1)
proof (cases rule: session_step_cases)
  case offer
  with assms(2) show ?thesis by (simp add: terminal_def)
next
  case sent
  with stage_terminal [OF assms(2)] show ?thesis by blast
next
  case received
  with stage_terminal [OF assms(2)] show ?thesis by blast
next
  case aborting
  with assms(2) show ?thesis by blast
next
  case failed
  with assms(2) show ?thesis by (auto simp: terminal_def refused_def)
qed

subsection \<open>Properties\<close>

lemma sas_code_bound: "unat (fst (derive_sas E ecdh secret)) < 1000000"
  by (simp add: derive_sas_def Let_def unat_mod)

lemma run_order:
  assumes "session_run E s0 ls s" "session_start E s0"
  shows "ps_role s = ps_role s0 \<and> prefix (filter progress ls) (protocol (ps_role s0)) \<and>
    (ps_state s \<noteq> Aborted \<longrightarrow> stage (ps_role s0) (ps_state s) = Some (length (filter progress ls)))"
  using assms(1)
proof (induction rule: session_run.induct)
  case run_nil
  show ?case using start_stage [OF assms(2)] by simp
next
  case (run_step ls t l u)
  have bound: "sas_bound E t" using run_sas_bound [OF assms(2) run_step(1)] .
  have role: "ps_role u = ps_role t" using step_role [OF run_step(2)] .
  show ?case
  proof (cases "progress l")
    case True
    obtain n where n: "stage (ps_role t) (ps_state t) = Some n" "n < 4"
      "protocol (ps_role t) ! n = l" "stage (ps_role t) (ps_state u) = Some (Suc n)"
      using step_progress [OF bound run_step(2) True] .
    have "ps_state t \<noteq> Aborted" using n(1) stage_not_waiting(2) by blast
    then have len: "length (filter progress ls) = n" using run_step(3) n(1) by simp
    have "length (protocol (ps_role t)) = 4" by (simp add: protocol_def split: Role.split)
    then have "filter progress ls @ [l] = take (Suc n) (protocol (ps_role t))"
      using run_step(3) n(2,3) len
      by (metis append_eq_conv_conj prefix_def take_Suc_conv_app_nth)
    then have "prefix (filter progress ls @ [l]) (protocol (ps_role t))"
      by (metis take_is_prefix)
    with True run_step(3) role n(4) len show ?thesis by simp
  next
    case False
    with run_step(3) role step_no_progress [OF bound run_step(2) False] show ?thesis by auto
  qed
qed

text \<open>
  C9. The protocol order holds in every run: whatever calls are made on a session, in any order,
  with any events and at any time, the calls that succeed (aborts aside) are a prefix of the
  role's sequence. For the source: offer accepted, SAS confirmed by the user, payload sent,
  completion received; for the target: SAS confirmation received, SAS approved by the user,
  payload received, completion sent. So the secret never leaves the source before the user
  confirmed the code, nothing happens twice, and unless it was aborted the session's state tells
  exactly how far it came.
\<close>

theorem pairing_protocol_order:
  assumes "session_start E s0" "session_run E s0 ls s"
  shows "prefix (filter progress ls) (protocol (ps_role s0)) \<and>
    (ps_state s \<noteq> Aborted \<longrightarrow> stage (ps_role s0) (ps_state s) = Some (length (filter progress ls)))"
  using run_order [OF assms(2,1)] by blast

text \<open>
  Terminal states are final: once a session is completed or aborted, every further call of
  any kind fails and leaves the session exactly as it was.
\<close>

theorem pairing_terminal_final:
  assumes "session_run E s ls t" "terminal (ps_state s)"
  shows "t = s \<and> set ls \<subseteq> {Failed}"
  using assms
proof (induction rule: session_run.induct)
  case (run_step ls t l u)
  then show ?case using step_terminal by auto
qed simp

text \<open>
  A session listens to one peer: a step that accepts an incoming message was caused by an
  event with a valid signature, of the pairing kind, addressed to this device, whose id was not
  processed before and is recorded now, and sent by the key the session is locked to
  afterwards; once past waiting, no step changes that key.
\<close>

theorem pairing_authentic_input:
  assumes "session_start E s0" "session_run E s0 ls s" "session_step E s l s'"
  shows "(l \<in> {OfferAccepted, SasReceived, PayloadReceived, CompleteReceived, AbortReceived} \<longrightarrow>
      (\<exists>ev. event_verify E ev \<and> ev_kind ev = KIND_PAIRING \<and> has_p_tag_for (pubkey E s) ev \<and>
         ev_id ev \<notin> ps_processed_ids s \<and> ps_processed_ids s' = insert (ev_id ev) (ps_processed_ids s) \<and>
         ps_peer_pubkey s' = Some (ev_pubkey ev))) \<and>
    (ps_state s \<noteq> Waiting \<longrightarrow> ps_peer_pubkey s' = ps_peer_pubkey s)"
proof -
  have bound: "sas_bound E s" using run_sas_bound [OF assms(1,2)] .
  note fresh = fresh_event_def PAIRING_KIND_def
  from assms(3) show ?thesis
  proof (cases rule: session_step_cases)
    case (offer ev h ecdh)
    then show ?thesis by (auto simp: offered_def fresh intro!: exI [of _ ev])
  next
    case (received ev st)
    then have "ps_state s \<noteq> Aborted" using stage_not_waiting(2) by blast
    then obtain p where "ps_peer_pubkey s = Some p"
      using sas_bound_aborted_or_locked [OF bound] received(7) by blast
    with received show ?thesis by (auto simp: fresh intro!: exI [of _ ev])
  next
    case failed
    then show ?thesis by (auto simp: refused_def)
  next
    case aborting
    from assms(3) show ?thesis
    proof (cases "l = AbortReceived")
      case True
      with assms(3) obtain ev r where "handle_abort E ev s = (Inr r, s')"
        by (auto elim: session_step.cases)
      then show ?thesis unfolding handle_abort_Inr by (auto simp: fresh intro!: exI [of _ ev])
    next
      case False
      with aborting show ?thesis by auto
    qed
  qed auto
qed

text \<open>
  The code on the screen is bound to the peer: in every session that has left the waiting
  state without being aborted, the session id is derived from the secret of the QR code, and
  the displayed code and the transcript input are derived from the key shared with exactly the
  peer that all messages are encrypted to. The code is below one million.
\<close>

theorem pairing_sas_bound_to_peer:
  assumes "session_start E s0" "session_run E s0 ls s" "ps_state s \<noteq> Waiting" "ps_state s \<noteq> Aborted"
  shows "ps_session_id s = derive_session_id E (ps_session_secret s) \<and>
    (\<exists>peer ecdh code. ps_peer_pubkey s = Some peer \<and> generate_shared_key E (ps_keys s) peer = Some ecdh \<and>
       ps_sas_code s = Some code \<and> unat code < 1000000 \<and>
       derive_sas E ecdh (ps_session_secret s) = (code, the (ps_sas_input s)))"
  using run_sas_bound [OF assms(1,2)] assms(3,4) sas_code_bound
  by (auto simp: sas_bound_def)

text \<open>
  The target accepts a confirmation only with the right transcript: in the confirming state
  and in time, a confirmation from the peer that decrypts to a hash is accepted exactly when the
  hash decodes to the transcript hash the target computes from its own session id, the two
  public keys, its SAS input and the shared secret; any other hash aborts the session.
\<close>

theorem handle_sas_confirm_exact:
  assumes "session_start E s0" "session_run E s0 ls s" "ps_role s = Target" "ps_state s = Confirming"
    and "\<not> is_expired now s" "fresh_event E ev s" "ps_peer_pubkey s = Some (ev_pubkey ev)"
    and "decrypt_message E ev s = Inr (SasConfirm h)"
  defines "expected \<equiv> derive_transcript_hash E (ps_session_id s) (pk_to_bytes E (ev_pubkey ev))
      (pk_to_bytes E (pubkey E s)) (the (ps_sas_input s)) (ps_session_secret s)"
  shows "handle_sas_confirm E now ev s =
    (if hex_decode E h = Some expected \<and> length expected = 32
     then (Inr (format_sas (the (ps_sas_code s))),
           record_event ev (s\<lparr>ps_state := AwaitingConfirmation\<rparr>))
     else (Inl TranscriptMismatch, s\<lparr>ps_state := Aborted\<rparr>))"
proof -
  obtain i code where i: "ps_sas_input s = Some i" "ps_sas_code s = Some code"
    using run_sas_bound [OF assms(1,2)] assms(4) by (auto simp: sas_bound_def)
  have valid: "validate_event_from_peer E ev s = Inr ()" using assms(6,7) by simp
  from i assms(3-5,7,8) show ?thesis
    unfolding handle_sas_confirm_def decode32_case expected_def decode32_Some valid
    by (simp add: check_expired_def expect_state_def expect_role_def ok_or_def Let_def)
qed

text \<open>
  A SAS code is shown as exactly six digits, and two different codes below one million are
  shown differently.
\<close>

theorem format_sas_faithful:
  assumes "unat a < 1000000" "unat b < 1000000"
  shows "length (format_sas a) = 6 \<and> list_all is_digit (format_sas a) \<and> undec (format_sas a) = unat a \<and>
    (format_sas a = format_sas b \<longleftrightarrow> a = b)"
proof -
  have zeros: "undec (replicate n CHR ''0'' @ s) = undec s" for n s
    by (induction n) (simp_all add: undec_def)
  have un: "undec (format_sas c) = unat c" for c by (simp add: format_sas_def zeros)
  have "length (dec (unat a)) \<le> Suc 5" using length_dec [of "unat a" 5] assms(1) by simp
  then have "length (format_sas a) = 6" by (simp add: format_sas_def)
  moreover have "list_all is_digit (format_sas a)"
    using dec_digits [of "unat a"] by (auto simp: format_sas_def list_all_iff is_digit_def)
  ultimately show ?thesis using un by (metis word_unat_eq_iff)
qed

theorem format_sas_faithful_witness: "length (format_sas 47291) = 6"
  using format_sas_faithful [of 47291 0] by simp

subsection \<open>Two honest devices\<close>

text \<open>
  What the packages promise: HKDF output has the requested length, Diffie-Hellman is symmetric,
  NIP-44 decrypts what it encrypted and pads within its size range, JSON and hex read back, and
  a signed event verifies, carries what was signed and has an id that determines its content.
\<close>

definition env_ok :: "pairing_env \<Rightarrow> bool" where
  "env_ok E \<longleftrightarrow>
     (\<forall>prk info. length (hkdf_expand E prk info 32) = 32) \<and>
     (\<forall>a b. generate_shared_key E a (public_key E b) = generate_shared_key E b (public_key E a) \<and>
            generate_shared_key E a (public_key E b) \<noteq> None) \<and>
     (\<forall>n a b m. m \<noteq> [] \<and> length m \<le> 65535 \<longrightarrow>
        (\<exists>c. nip44_encrypt E n a (public_key E b) m = Some c \<and> 132 \<le> length c \<and> length c \<le> 87472 \<and>
             nip44_decrypt E b (public_key E a) c = Some m)) \<and>
     (\<forall>m. \<exists>j. to_json E m = Some j \<and> j \<noteq> [] \<and> from_json E j = Some m) \<and>
     (\<forall>b. hex_decode E (hex_encode E b) = Some b) \<and>
     (\<forall>x k kind tags ts c. \<exists>ev. sign_with_keys E x k kind tags ts c = Some ev \<and> event_verify E ev \<and>
        ev_pubkey ev = public_key E k \<and> ev_kind ev = kind \<and> ev_tags ev = tags \<and> ev_content ev = c)"

lemma env_okD:
  assumes "env_ok E"
  shows "length (hkdf_expand E prk info 32) = 32"
    and "generate_shared_key E a (public_key E b) = generate_shared_key E b (public_key E a)"
    and "\<exists>k. generate_shared_key E a (public_key E b) = Some k"
    and "m \<noteq> [] \<Longrightarrow> length m \<le> 65535 \<Longrightarrow>
        \<exists>c. nip44_encrypt E n a (public_key E b) m = Some c \<and> 132 \<le> length c \<and> length c \<le> 87472 \<and>
             nip44_decrypt E b (public_key E a) c = Some m"
    and "\<exists>j. to_json E msg = Some j \<and> j \<noteq> [] \<and> from_json E j = Some msg"
    and "hex_decode E (hex_encode E bs) = Some bs"
    and "\<exists>ev. sign_with_keys E x k kind tags ts c = Some ev \<and> event_verify E ev \<and>
        ev_pubkey ev = public_key E k \<and> ev_kind ev = kind \<and> ev_tags ev = tags \<and> ev_content ev = c"
  using assms unfolding env_ok_def by blast+

definition fits :: "pairing_env \<Rightarrow> PairingMessage \<Rightarrow> bool" where
  "fits E m \<longleftrightarrow> (case to_json E m of None \<Rightarrow> False | Some j \<Rightarrow> length j \<le> 65535)"

lemma hkdf32_length: "env_ok E \<Longrightarrow> length (hkdf32 E salt ikm info) = 32"
  by (simp add: hkdf32_def env_okD)

lemma decode32_hex: "env_ok E \<Longrightarrow> length b = 32 \<Longrightarrow> decode32 E (hex_encode E b) = Some b"
  by (simp add: decode32_def env_okD)

text \<open>What one device builds for the other arrives there as the same message.\<close>

lemma build_deliver:
  assumes ok: "env_ok E" and peer: "ps_peer_pubkey s = Some (public_key E kb)" and "fits E m"
  obtains ev where "build_event E bi m s = Inr ev" "ev_pubkey ev = public_key E (ps_keys s)"
    "event_verify E ev"
    "\<And>r. ps_keys r = kb \<Longrightarrow> decrypt_message E ev r = Inr m"
    "\<And>r. ps_keys r = kb \<Longrightarrow> ev_id ev \<notin> ps_processed_ids r \<Longrightarrow> fresh_event E ev r"
proof -
  obtain j where j: "to_json E m = Some j" "j \<noteq> []" "from_json E j = Some m"
    using env_okD(5) [OF ok] by blast
  have "length j \<le> 65535" using assms(3) j(1) by (simp add: fits_def)
  then obtain c where c: "nip44_encrypt E (bi_nonce bi) (ps_keys s) (public_key E kb) j = Some c"
    "132 \<le> length c" "length c \<le> 87472" "nip44_decrypt E kb (public_key E (ps_keys s)) c = Some j"
    using env_okD(4) [OF ok j(2)] by blast
  obtain ev where ev: "sign_with_keys E (bi_aux bi) (ps_keys s) PAIRING_KIND [p_tag (public_key E kb)]
      (bi_now bi - bi_jitter bi mod 31) c = Some ev"
    "event_verify E ev" "ev_pubkey ev = public_key E (ps_keys s)" "ev_kind ev = PAIRING_KIND"
    "ev_tags ev = [p_tag (public_key E kb)]" "ev_content ev = c"
    using env_okD(7) [OF ok] by blast
  show thesis
  proof (rule that)
    show "build_event E bi m s = Inr ev"
      by (simp add: build_event_def peer j c ev Let_def)
    show "decrypt_message E ev r = Inr m" if "ps_keys r = kb" for r
      using that \<open>length j \<le> 65535\<close> by (simp add: decrypt_message_def ev c j Let_def)
    show "fresh_event E ev r" if "ps_keys r = kb" "ev_id ev \<notin> ps_processed_ids r" for r
      using that by (simp add: fresh_event_def ev has_p_tag_for_def p_tag_def pubkey_def)
  qed (use ev in auto)
qed

text \<open>
  The four messages of the flow, the events the two devices build for them, and the one thing
  the flow needs of event ids: among these events, equal ids mean equal contents.
\<close>

definition flow_hash :: "pairing_env \<Rightarrow> string \<Rightarrow> string \<Rightarrow> bytes \<Rightarrow> bytes" where
  "flow_hash E ka kb secret =
     (case generate_shared_key E ka (public_key E kb) of
        None \<Rightarrow> []
      | Some k \<Rightarrow> derive_transcript_hash E (derive_session_id E secret) (pk_to_bytes E (public_key E ka))
                   (pk_to_bytes E (public_key E kb)) (snd (derive_sas E k secret)) secret)"

definition flow_messages :: "pairing_env \<Rightarrow> string \<Rightarrow> string \<Rightarrow> bytes \<Rightarrow> PayloadType \<Rightarrow> string \<Rightarrow> PairingMessage set" where
  "flow_messages E ka kb secret ty pl =
     {Offer (hex_encode E (derive_session_id E secret)) 1, SasConfirm (hex_encode E (flow_hash E ka kb secret)),
      Payload ty pl, Complete True}"

definition flow_events ::
  "pairing_env \<Rightarrow> string \<Rightarrow> string \<Rightarrow> (nat \<Rightarrow> build_input) \<Rightarrow> PairingMessage set \<Rightarrow> nostr_event set" where
  "flow_events E ka kb B ms =
     {ev. \<exists>i\<in>{1, 3, 6, 8}. \<exists>m\<in>ms. \<exists>s. build_event E (B i) m s = Inr ev \<and>
        (ps_keys s, ps_peer_pubkey s) \<in> {(ka, Some (public_key E kb)), (kb, Some (public_key E ka))}}"

definition no_clash :: "nostr_event set \<Rightarrow> bool" where
  "no_clash C \<longleftrightarrow> (\<forall>x\<in>C. \<forall>y\<in>C. ev_id x = ev_id y \<longrightarrow> ev_content x = ev_content y)"

text \<open>
  Every event a device has processed so far came from the peer and carried a message of a
  kind it no longer expects; so the next message is not a duplicate.
\<close>

definition seen ::
  "pairing_env \<Rightarrow> nostr_event set \<Rightarrow> PairingSession \<Rightarrow> string \<Rightarrow> (PairingMessage \<Rightarrow> bool) \<Rightarrow> bool" where
  "seen E C r pk P \<longleftrightarrow>
     (\<forall>i\<in>ps_processed_ids r. \<exists>e\<in>C. \<exists>m. ev_id e = i \<and> ev_pubkey e = pk \<and> decrypt_message E e r = Inr m \<and> P m)"

lemma decrypt_message_cong:
  "ev_content e = ev_content e' \<Longrightarrow> ev_pubkey e = ev_pubkey e' \<Longrightarrow>
   decrypt_message E e r = decrypt_message E e' r"
  by (simp add: decrypt_message_def Let_def cong: if_cong option.case_cong)

lemma seen_new:
  assumes "no_clash C" "seen E C r pk P" "ev \<in> C" "ev_pubkey ev = pk"
    and "decrypt_message E ev r = Inr m" "\<not> P m"
  shows "ev_id ev \<notin> ps_processed_ids r"
proof
  assume "ev_id ev \<in> ps_processed_ids r"
  then obtain e m' where e: "ev_id e = ev_id ev" "e \<in> C" "ev_pubkey e = pk"
    "decrypt_message E e r = Inr m'" "P m'"
    using assms(2) by (auto simp: seen_def)
  have "ev_content e = ev_content ev"
    using assms(1) e(1,2) assms(3) unfolding no_clash_def by blast
  then have "decrypt_message E e r = decrypt_message E ev r"
    by (rule decrypt_message_cong) (simp add: e(3) assms(4))
  with e assms(5,6) show False by simp
qed

definition linked :: "pairing_env \<Rightarrow> string \<Rightarrow> string \<Rightarrow> instant \<Rightarrow> PairingSession \<Rightarrow> PairingSession \<Rightarrow> bool" where
  "linked E ka kb t src tgt \<longleftrightarrow>
     ps_role src = Source \<and> ps_keys src = ka \<and> ps_peer_pubkey src = Some (public_key E kb) \<and>
     ps_role tgt = Target \<and> ps_keys tgt = kb \<and> ps_peer_pubkey tgt = Some (public_key E ka) \<and>
     ps_timeout src = DEFAULT_TIMEOUT \<and> ps_timeout tgt = DEFAULT_TIMEOUT \<and>
     t \<le> ps_created_at src \<and> t \<le> ps_created_at tgt"

lemma in_time:
  "ps_timeout s = DEFAULT_TIMEOUT \<Longrightarrow> t \<le> ps_created_at s \<Longrightarrow> now \<le> t + 120000000000 \<Longrightarrow> \<not> is_expired now s"
  by (simp add: is_expired_def DEFAULT_TIMEOUT_def)

lemma linked_in_time:
  "linked E ka kb t src tgt \<Longrightarrow> now \<le> t + 120000000000 \<Longrightarrow> \<not> is_expired now src"
  "linked E ka kb t src tgt \<Longrightarrow> now \<le> t + 120000000000 \<Longrightarrow> \<not> is_expired now tgt"
  unfolding linked_def using in_time by blast+

lemma linked_state [simp]:
  "linked E ka kb t (src\<lparr>ps_state := x\<rparr>) tgt = linked E ka kb t src tgt"
  "linked E ka kb t src (tgt\<lparr>ps_state := x\<rparr>) = linked E ka kb t src tgt"
  "linked E ka kb t (record_event ev src) tgt = linked E ka kb t src tgt"
  "linked E ka kb t src (record_event ev tgt) = linked E ka kb t src tgt"
  by (simp_all add: linked_def)

lemma decrypt_message_state [simp]: "decrypt_message E e (r\<lparr>ps_state := x\<rparr>) = decrypt_message E e r"
  by (simp add: decrypt_message_def Let_def cong: if_cong option.case_cong)

lemma seen_state [simp]: "seen E C (r\<lparr>ps_state := x\<rparr>) pk P = seen E C r pk P"
  by (simp add: seen_def)

text \<open>The second half of the flow: the transfer.\<close>

lemma honest_transfer:
  assumes ok: "env_ok E" and ln: "linked E ka kb t src tgt" and T: "\<And>i::nat. T i \<le> t + 120000000000"
    and st: "ps_state src = Transferring" "ps_state tgt = Transferring"
    and C: "no_clash C" "flow_events E ka kb B {Payload ty pl, Complete True} \<subseteq> C"
    and seen: "seen E C src (public_key E kb) (\<lambda>m. \<exists>h v. m = Offer h v)"
      "seen E C tgt (public_key E ka) (\<lambda>m. \<exists>h. m = SasConfirm h)"
    and fits: "fits E (Payload ty pl)" "fits E (Complete True)"
  shows "\<exists>pay src3 tgt3 done_ev tgt4 src4.
    send_payload E (T 6) (B 6) ty pl src = (Inr pay, src3) \<and>
    handle_payload E (T 7) pay tgt = (Inr (ty, pl), tgt3) \<and>
    send_complete E (T 8) (B 8) tgt3 = (Inr done_ev, tgt4) \<and>
    handle_complete E (T 9) done_ev src3 = (Inr (), src4) \<and>
    ps_state src4 = Completed \<and> ps_state tgt4 = Completed"
proof -
  have peers: "ps_peer_pubkey src = Some (public_key E kb)" "ps_peer_pubkey tgt = Some (public_key E ka)"
    "ps_keys src = ka" "ps_keys tgt = kb" "ps_role src = Source" "ps_role tgt = Target"
    using ln by (simp_all add: linked_def)
  obtain pay where pay: "build_event E (B 6) (Payload ty pl) src = Inr pay"
    "ev_pubkey pay = public_key E ka" "event_verify E pay"
    "\<And>r. ps_keys r = kb \<Longrightarrow> decrypt_message E pay r = Inr (Payload ty pl)"
    "\<And>r. ps_keys r = kb \<Longrightarrow> ev_id pay \<notin> ps_processed_ids r \<Longrightarrow> fresh_event E pay r"
    using build_deliver [OF ok peers(1) fits(1), of "B 6"] peers(3) by metis
  define src3 where "src3 = src\<lparr>ps_state := PayloadExchanged\<rparr>"
  define tgt3 where "tgt3 = record_event pay (tgt\<lparr>ps_state := PayloadExchanged\<rparr>)"
  have 1: "send_payload E (T 6) (B 6) ty pl src = (Inr pay, src3)"
    unfolding send_payload_Inr using linked_in_time [OF ln T] st peers pay(1) by (simp add: src3_def)
  have "pay \<in> flow_events E ka kb B {Payload ty pl, Complete True}"
    using pay(1) peers(1,3) unfolding flow_events_def by blast
  then have payC: "pay \<in> C" using C(2) by blast
  have "ev_id pay \<notin> ps_processed_ids tgt"
    using seen_new [OF C(1) seen(2) payC pay(2) pay(4) [OF peers(4)]] by simp
  then have 2: "handle_payload E (T 7) pay tgt = (Inr (ty, pl), tgt3)"
    unfolding handle_payload_Inr using linked_in_time [OF ln T] st peers pay by (simp add: tgt3_def)
  have tgt3: "ps_peer_pubkey tgt3 = Some (public_key E ka)" "ps_keys tgt3 = kb" "ps_role tgt3 = Target"
    "ps_state tgt3 = PayloadExchanged" and ln3: "linked E ka kb t src3 tgt3"
    using peers ln by (simp_all add: tgt3_def src3_def)
  obtain fin where fin: "build_event E (B 8) (Complete True) tgt3 = Inr fin"
    "ev_pubkey fin = public_key E kb" "event_verify E fin"
    "\<And>r. ps_keys r = ka \<Longrightarrow> decrypt_message E fin r = Inr (Complete True)"
    "\<And>r. ps_keys r = ka \<Longrightarrow> ev_id fin \<notin> ps_processed_ids r \<Longrightarrow> fresh_event E fin r"
    using build_deliver [OF ok tgt3(1) fits(2), of "B 8"] tgt3(2) by metis
  have 3: "send_complete E (T 8) (B 8) tgt3 = (Inr fin, tgt3\<lparr>ps_state := Completed\<rparr>)"
    unfolding send_complete_Inr using linked_in_time [OF ln3 T] tgt3 fin(1) by simp
  have src3: "ps_keys src3 = ka" "ps_role src3 = Source" "ps_state src3 = PayloadExchanged"
    "ps_peer_pubkey src3 = Some (public_key E kb)" "seen E C src3 (public_key E kb) (\<lambda>m. \<exists>h v. m = Offer h v)"
    using peers seen(1) by (simp_all add: src3_def)
  have "fin \<in> flow_events E ka kb B {Payload ty pl, Complete True}"
    using fin(1) tgt3(1,2) unfolding flow_events_def by blast
  then have finC: "fin \<in> C" using C(2) by blast
  have "ev_id fin \<notin> ps_processed_ids src3"
    using seen_new [OF C(1) src3(5) finC fin(2) fin(4) [OF src3(1)]] by simp
  then have "handle_complete E (T 9) fin src3 = (Inr (), record_event fin (src3\<lparr>ps_state := Completed\<rparr>))"
    unfolding handle_complete_Inr using linked_in_time [OF ln3 T] src3 fin by simp
  with 1 2 3 show ?thesis by force
qed

text \<open>The first half of the flow: the handshake up to the approval of both users.\<close>

lemma honest_offer:
  assumes ok: "env_ok E" and T: "t \<le> t1" "t2 \<le> t + 120000000000"
    and src0: "src0 = fst (new_source E t ka secret url)" and qr: "qr = snd (new_source E t ka secret url)"
    and fits: "fits E (Offer (hex_encode E (derive_session_id E secret)) 1)"
    and C: "\<And>ev s. ps_keys s = kb \<Longrightarrow> ps_peer_pubkey s = Some (public_key E ka) \<Longrightarrow>
      build_event E bi (Offer (hex_encode E (derive_session_id E secret)) 1) s = Inr ev \<Longrightarrow> ev \<in> C"
  obtains tgt0 offer sas src1 where "new_target E t1 bi kb qr = Inr (tgt0, offer)"
    "handle_offer E t2 offer src0 = (Inr (format_sas (fst sas)), src1)" "linked E ka kb t src1 tgt0"
    "ps_state src1 = Confirming" "ps_state tgt0 = Confirming"
    "seen E C src1 (public_key E kb) (\<lambda>m. \<exists>h v. m = Offer h v)" "ps_processed_ids tgt0 = {}"
    "ps_session_secret src1 = secret" "ps_session_id src1 = derive_session_id E secret"
    "ps_session_secret tgt0 = secret" "ps_session_id tgt0 = derive_session_id E secret"
    "ps_sas_input src1 = Some (snd sas)" "ps_sas_input tgt0 = Some (snd sas)" "ps_sas_code tgt0 = Some (fst sas)"
    "flow_hash E ka kb secret = derive_transcript_hash E (derive_session_id E secret)
       (pk_to_bytes E (public_key E ka)) (pk_to_bytes E (public_key E kb)) (snd sas) secret"
proof -
  let ?sid = "derive_session_id E secret"
  obtain k where k: "generate_shared_key E kb (public_key E ka) = Some k"
    "generate_shared_key E ka (public_key E kb) = Some k"
    using env_okD(2,3) [OF ok] by metis
  define sas where "sas = derive_sas E k secret"
  define w where "w = \<lparr>ps_role = Target, ps_state = Waiting, ps_keys = kb, ps_session_secret = secret,
      ps_relay_urls = [url], ps_peer_pubkey = Some (public_key E ka), ps_session_id = ?sid,
      ps_sas_code = Some (fst sas), ps_sas_input = Some (snd sas), ps_processed_ids = {},
      ps_created_at = t1, ps_timeout = DEFAULT_TIMEOUT\<rparr>"
  have w: "ps_peer_pubkey w = Some (public_key E ka)" "ps_keys w = kb" by (simp_all add: w_def)
  obtain offer where offer: "build_event E bi (Offer (hex_encode E ?sid) 1) w = Inr offer"
    "ev_pubkey offer = public_key E kb" "event_verify E offer"
    "\<And>r. ps_keys r = ka \<Longrightarrow> decrypt_message E offer r = Inr (Offer (hex_encode E ?sid) 1)"
    "\<And>r. ps_keys r = ka \<Longrightarrow> ev_id offer \<notin> ps_processed_ids r \<Longrightarrow> fresh_event E offer r"
    using build_deliver [OF ok w(1) fits, of bi] w(2) by metis
  define src1 where "src1 = offered E offer k src0"
  have s0: "ps_keys src0 = ka" "ps_processed_ids src0 = {}" "ps_session_id src0 = ?sid"
    "ps_session_secret src0 = secret" "ps_role src0 = Source" "ps_state src0 = Waiting"
    "ps_timeout src0 = DEFAULT_TIMEOUT" "ps_created_at src0 = t"
    by (simp_all add: src0 new_source_def)
  have s1: "ps_keys src1 = ka" "ps_processed_ids src1 = {ev_id offer}" "ps_session_id src1 = ?sid"
    "ps_session_secret src1 = secret" "ps_role src1 = Source" "ps_state src1 = Confirming"
    "ps_timeout src1 = DEFAULT_TIMEOUT" "ps_created_at src1 = t" "ps_sas_input src1 = Some (snd sas)"
    "ps_peer_pubkey src1 = Some (public_key E kb)"
    by (simp_all add: src1_def offered_def s0 sas_def offer)
  show thesis
  proof (rule that [of "w\<lparr>ps_state := Confirming\<rparr>" offer sas src1])
    show "new_target E t1 bi kb qr = Inr (w\<lparr>ps_state := Confirming\<rparr>, offer)"
      using offer(1) by (simp add: new_target_def qr new_source_def Let_def k sas_def [symmetric] w_def case_prod_unfold)
    have "decode32 E (hex_encode E ?sid) = Some ?sid"
      by (rule decode32_hex [OF ok]) (simp add: derive_session_id_def hkdf32_length [OF ok])
    then show "handle_offer E t2 offer src0 = (Inr (format_sas (fst sas)), src1)"
      unfolding handle_offer_Inr using in_time [of src0 t t2] T offer(2) offer(4,5) [OF s0(1)] k
      by (simp add: s0 src1_def sas_def)
    show "seen E C src1 (public_key E kb) (\<lambda>m. \<exists>h v. m = Offer h v)"
      using C [OF w(2,1) offer(1)] offer(2) offer(4) [OF s1(1)] by (auto simp: seen_def s1)
  qed (use T(1) in \<open>simp_all add: linked_def s1 w_def flow_hash_def k sas_def\<close>)
qed

text \<open>
  C3. Two honest devices always pair: given what the packages promise, from a fresh source
  session and the QR code it shows, if the four messages fit a NIP-44 plaintext, their events have
  no colliding ids and the exchange takes at most 120 seconds, then each call of the documented flow succeeds, both users see the
  same code, the target receives exactly the payload the source sent, and both sessions end
  completed.
\<close>

theorem honest_pairing_completes:
  fixes T :: "nat \<Rightarrow> instant" and B :: "nat \<Rightarrow> build_input"
  assumes ok: "env_ok E" and T: "T 0 \<le> T 1" "\<And>i. T i \<le> T 0 + 120000000000"
    and new: "new_source E (T 0) ka secret url = (src0, qr)"
    and fits: "\<And>m. m \<in> flow_messages E ka kb secret ty pl \<Longrightarrow> fits E m"
    and clash: "no_clash (flow_events E ka kb B (flow_messages E ka kb secret ty pl))"
  shows "\<exists>tgt0 offer code src1 confirm src2 tgt1 tgt2 pay src3 tgt3 done_ev tgt4 src4.
    new_target E (T 1) (B 1) kb qr = Inr (tgt0, offer) \<and>
    handle_offer E (T 2) offer src0 = (Inr code, src1) \<and>
    confirm_sas E (T 3) (B 3) src1 = (Inr confirm, src2) \<and>
    handle_sas_confirm E (T 4) confirm tgt0 = (Inr code, tgt1) \<and>
    confirm_target_sas (T 5) tgt1 = (Inr (), tgt2) \<and>
    send_payload E (T 6) (B 6) ty pl src2 = (Inr pay, src3) \<and>
    handle_payload E (T 7) pay tgt2 = (Inr (ty, pl), tgt3) \<and>
    send_complete E (T 8) (B 8) tgt3 = (Inr done_ev, tgt4) \<and>
    handle_complete E (T 9) done_ev src3 = (Inr (), src4) \<and>
    ps_state src4 = Completed \<and> ps_state tgt4 = Completed"
proof -
  have src0: "src0 = fst (new_source E (T 0) ka secret url)" and qr: "qr = snd (new_source E (T 0) ka secret url)"
    using new by simp_all
  let ?C = "flow_events E ka kb B (flow_messages E ka kb secret ty pl)"
  have fit: "fits E (Offer (hex_encode E (derive_session_id E secret)) 1)"
    "fits E (SasConfirm (hex_encode E (flow_hash E ka kb secret)))" "fits E (Payload ty pl)" "fits E (Complete True)"
    by (rule fits, simp add: flow_messages_def)+
  have offC: "ev \<in> ?C" if "ps_keys s = kb" "ps_peer_pubkey s = Some (public_key E ka)"
    "build_event E (B 1) (Offer (hex_encode E (derive_session_id E secret)) 1) s = Inr ev" for ev s
    using that unfolding flow_events_def flow_messages_def by blast
  obtain tgt0 offer sas src1 where o: "new_target E (T 1) (B 1) kb qr = Inr (tgt0, offer)"
    "handle_offer E (T 2) offer src0 = (Inr (format_sas (fst sas)), src1)" and ln: "linked E ka kb (T 0) src1 tgt0"
    and st: "ps_state src1 = Confirming" "ps_state tgt0 = Confirming"
    and seen: "seen E ?C src1 (public_key E kb) (\<lambda>m. \<exists>h v. m = Offer h v)" "ps_processed_ids tgt0 = {}"
    and d: "ps_session_secret src1 = secret" "ps_session_id src1 = derive_session_id E secret"
      "ps_session_secret tgt0 = secret" "ps_session_id tgt0 = derive_session_id E secret"
      "ps_sas_input src1 = Some (snd sas)" "ps_sas_input tgt0 = Some (snd sas)" "ps_sas_code tgt0 = Some (fst sas)"
    and fh: "flow_hash E ka kb secret = derive_transcript_hash E (derive_session_id E secret)
       (pk_to_bytes E (public_key E ka)) (pk_to_bytes E (public_key E kb)) (snd sas) secret"
    using honest_offer [OF ok T(1) T(2) [of 2] src0 qr fit(1), of kb "B 1" ?C, OF offC] .
  have ln': "ps_role src1 = Source" "ps_keys src1 = ka" "ps_peer_pubkey src1 = Some (public_key E kb)"
    "ps_role tgt0 = Target" "ps_keys tgt0 = kb" "ps_peer_pubkey tgt0 = Some (public_key E ka)"
    using ln by (simp_all add: linked_def)
  let ?h = "derive_transcript_hash E (derive_session_id E secret) (pk_to_bytes E (public_key E ka))
      (pk_to_bytes E (public_key E kb)) (snd sas) secret"
  have h: "length ?h = 32" by (simp add: derive_transcript_hash_def hkdf32_length [OF ok])
  obtain confirm where c: "build_event E (B 3) (SasConfirm (hex_encode E ?h)) src1 = Inr confirm"
    "ev_pubkey confirm = public_key E ka" "event_verify E confirm"
    "\<And>r. ps_keys r = kb \<Longrightarrow> decrypt_message E confirm r = Inr (SasConfirm (hex_encode E ?h))"
    "\<And>r. ps_keys r = kb \<Longrightarrow> ev_id confirm \<notin> ps_processed_ids r \<Longrightarrow> fresh_event E confirm r"
    using build_deliver [OF ok ln'(3) fit(2) [unfolded fh], of "B 3"] ln'(2) by metis
  have 3: "confirm_sas E (T 3) (B 3) src1 = (Inr confirm, src1\<lparr>ps_state := Transferring\<rparr>)"
    unfolding confirm_sas_Inr using linked_in_time(1) [OF ln T(2)] c(1) by (simp add: st d ln' pubkey_def)
  define tgt1 where "tgt1 = record_event confirm (tgt0\<lparr>ps_state := AwaitingConfirmation\<rparr>)"
  have 4: "handle_sas_confirm E (T 4) confirm tgt0 = (Inr (format_sas (fst sas)), tgt1)"
    unfolding handle_sas_confirm_Inr
    using linked_in_time(2) [OF ln T(2)] c(2) c(4,5) [OF ln'(5)] decode32_hex [OF ok h] seen(2)
    by (simp add: st d ln' pubkey_def tgt1_def)
  have ln1: "linked E ka kb (T 0) src1 tgt1" using ln by (simp add: tgt1_def)
  have 5: "confirm_target_sas (T 5) tgt1 = (Inr (), tgt1\<lparr>ps_state := Transferring\<rparr>)"
    unfolding confirm_target_sas_Inr using linked_in_time(2) [OF ln1 T(2)] by (simp add: tgt1_def ln')
  have cC: "confirm \<in> ?C"
    using c(1) ln'(2,3) fh unfolding flow_events_def flow_messages_def by auto
  have subC: "flow_events E ka kb B {Payload ty pl, Complete True} \<subseteq> ?C"
    unfolding flow_events_def flow_messages_def by blast
  have s1: "seen E ?C tgt1 (public_key E ka) (\<lambda>m. \<exists>h. m = SasConfirm h)"
    using cC c(2) c(4) [of tgt1] by (auto simp: seen_def tgt1_def seen(2) ln')
  have "linked E ka kb (T 0) (src1\<lparr>ps_state := Transferring\<rparr>) (tgt1\<lparr>ps_state := Transferring\<rparr>)"
    using ln1 by simp
  from honest_transfer [where B = B and T = T, OF ok this T(2) _ _ clash subC _ _ fit(3,4)] seen(1) s1
  obtain pay src3 tgt3 fin tgt4 src4 where
    "send_payload E (T 6) (B 6) ty pl (src1\<lparr>ps_state := Transferring\<rparr>) = (Inr pay, src3)"
    "handle_payload E (T 7) pay (tgt1\<lparr>ps_state := Transferring\<rparr>) = (Inr (ty, pl), tgt3)"
    "send_complete E (T 8) (B 8) tgt3 = (Inr fin, tgt4)" "handle_complete E (T 9) fin src3 = (Inr (), src4)"
    "ps_state src4 = Completed" "ps_state tgt4 = Completed"
    by auto
  with o 3 4 5 show ?thesis by (intro exI conjI) assumption+
qed

subsection \<open>A concrete environment\<close>

text \<open>An environment that keeps every promise, in which the theorems are applied.\<close>

definition hex_digit :: "nat \<Rightarrow> char" where
  "hex_digit n = (if n < 10 then char_of (48 + n) else char_of (87 + n))"

definition hex_value :: "char \<Rightarrow> nat" where
  "hex_value c = (if of_char c < (58::nat) then of_char c - 48 else of_char c - 87)"

fun unhex :: "string \<Rightarrow> bytes" where
  "unhex (a # b # s) = of_nat (16 * hex_value a + hex_value b) # unhex s"
| "unhex _ = []"

definition demo_hex_text :: "bytes \<Rightarrow> string" where
  "demo_hex_text bs = concat (map (\<lambda>b. [hex_digit (unat b div 16), hex_digit (unat b mod 16)]) bs)"

lemma hex_value_digit: "n < 16 \<Longrightarrow> hex_value (hex_digit n) = n"
  by (auto simp: hex_value_def hex_digit_def)

lemma unhex_demo_hex_text: "unhex (demo_hex_text bs) = bs"
proof (induction bs)
  case (Cons b bs)
  have "unat b < 256" using unsigned_less [of b] by simp
  then have "16 * hex_value (hex_digit (unat b div 16)) + hex_value (hex_digit (unat b mod 16)) = unat b"
    by (simp add: hex_value_digit)
  with Cons show ?case by (simp add: demo_hex_text_def)
qed (simp add: demo_hex_text_def)

definition demo_to_json :: "PairingMessage \<Rightarrow> string" where
  "demo_to_json m =
     (case m of Offer h v \<Rightarrow> CHR ''O'' # dec v @ CHR ''-'' # h | SasConfirm h \<Rightarrow> CHR ''S'' # h
      | Payload ty p \<Rightarrow> (case ty of Nsec \<Rightarrow> CHR ''N'' | Bunker \<Rightarrow> CHR ''B'' | Connect \<Rightarrow> CHR ''L'' | Custom \<Rightarrow> CHR ''U'') # p
      | Complete b \<Rightarrow> (if b then ''Ct'' else ''Cf'')
      | Abort r \<Rightarrow> (case r of AbortSasMismatch \<Rightarrow> ''A1'' | UserDenied \<Rightarrow> ''A2'' | Timeout \<Rightarrow> ''A3''
                    | ProtocolError \<Rightarrow> ''A4'' | Unknown \<Rightarrow> ''A5''))"

definition demo_from_json :: "string \<Rightarrow> PairingMessage option" where
  "demo_from_json j =
     (case j of
        [] \<Rightarrow> None
      | c # s \<Rightarrow>
          if c = CHR ''O'' then map_option (\<lambda>(a, b). Offer b (undec a)) (split_once CHR ''-'' s)
          else if c = CHR ''S'' then Some (SasConfirm s)
          else if c = CHR ''N'' then Some (Payload Nsec s)
          else if c = CHR ''B'' then Some (Payload Bunker s)
          else if c = CHR ''L'' then Some (Payload Connect s)
          else if c = CHR ''U'' then Some (Payload Custom s)
          else if c = CHR ''C'' then Some (Complete (s = ''t''))
          else if s = ''1'' then Some (Abort AbortSasMismatch)
          else if s = ''2'' then Some (Abort UserDenied)
          else if s = ''3'' then Some (Abort Timeout)
          else if s = ''4'' then Some (Abort ProtocolError) else Some (Abort Unknown))"

lemma dash_not_in_dec: "CHR ''-'' \<notin> set (dec n)"
  using dec_digits [of n] by (auto simp: list_all_iff is_digit_def)

lemma demo_json: "demo_from_json (demo_to_json m) = Some m" "demo_to_json m \<noteq> []"
  by (auto simp: demo_to_json_def demo_from_json_def split_once_append dash_not_in_dec
        split: PairingMessage.split PayloadType.split AbortReason.split)

definition demo_env :: pairing_env where
  "demo_env = \<lparr>hkdf_extract = (\<lambda>salt ikm. salt @ ikm),
     hkdf_expand = (\<lambda>prk info n. take n (prk @ info @ replicate n 0)),
     public_key = (\<lambda>k. ''pk-'' @ k), pk_to_bytes = ascii_bytes,
     generate_shared_key = (\<lambda>k p. Some [of_nat (length k + (length p - 3))]),
     nip44_encrypt = (\<lambda>n k p m. Some (replicate 132 CHR ''.'' @ m)),
     nip44_decrypt = (\<lambda>k p c. Some (drop 132 c)),
     to_json = (\<lambda>m. Some (demo_to_json m)), from_json = demo_from_json,
     hex_encode = demo_hex_text, hex_decode = (\<lambda>s. Some (unhex s)),
     sign_with_keys = (\<lambda>x k kind tags ts c. Some \<lparr>ev_id = c, ev_pubkey = ''pk-'' @ k, ev_created_at = ts,
       ev_kind = kind, ev_tags = tags, ev_content = c\<rparr>),
     event_verify = (\<lambda>e. ev_id e = ev_content e)\<rparr>"

lemma demo_env_ok: "env_ok demo_env"
  unfolding env_ok_def by (auto simp: demo_env_def unhex_demo_hex_text demo_json add.commute min_def)

lemma demo_hex_text_length: "length (demo_hex_text bs) = 2 * length bs"
  by (simp add: demo_hex_text_def length_concat comp_def sum_list_triv)

definition demo_bi :: build_input where
  "demo_bi = \<lparr>bi_now = 1000, bi_jitter = 7, bi_nonce = 1, bi_aux = 2\<rparr>"

definition demo_source :: PairingSession where
  "demo_source = fst (new_source demo_env 0 ''ka'' [1, 2, 3] ''wss://r'')"

definition demo_qr :: QrPayload where
  "demo_qr = snd (new_source demo_env 0 ''ka'' [1, 2, 3] ''wss://r'')"

lemma demo_new: "new_source demo_env 0 ''ka'' [1, 2, 3] ''wss://r'' = (demo_source, demo_qr)"
  by (simp add: demo_source_def demo_qr_def)

lemma demo_fits:
  "length bs = 32 \<Longrightarrow> fits demo_env (SasConfirm (hex_encode demo_env bs))"
  "length bs = 32 \<Longrightarrow> fits demo_env (Offer (hex_encode demo_env bs) 1)"
  "fits demo_env (Payload Nsec ''nsec1abc'')" "fits demo_env (Complete True)"
  by (simp_all add: fits_def demo_env_def demo_to_json_def demo_hex_text_length dec.simps)

lemma demo_flow_fits: "m \<in> flow_messages demo_env ka kb secret Nsec ''nsec1abc'' \<Longrightarrow> fits demo_env m"
proof -
  have "length (derive_session_id demo_env secret) = 32" "length (flow_hash demo_env ka kb secret) = 32"
    using env_okD(3) [OF demo_env_ok, of ka kb]
    by (auto simp: derive_session_id_def flow_hash_def derive_transcript_hash_def hkdf32_length [OF demo_env_ok])
  then show "m \<in> flow_messages demo_env ka kb secret Nsec ''nsec1abc'' \<Longrightarrow> fits demo_env m"
    using demo_fits unfolding flow_messages_def by blast
qed

lemma demo_no_clash: "no_clash (flow_events demo_env ka kb B ms)"
  by (auto simp: no_clash_def flow_events_def build_event_def demo_env_def ok_or_def Let_def split: option.splits)

theorem honest_pairing_completes_witness:
  "(\<exists>tgt0 offer code src1. new_target demo_env 0 demo_bi ''kb'' demo_qr = Inr (tgt0, offer) \<and>
      handle_offer demo_env 0 offer demo_source = (Inr code, src1)) \<and>
   (\<exists>pay tgt2 tgt3. handle_payload demo_env 0 pay tgt2 = (Inr (Nsec, ''nsec1abc''), tgt3))"
proof -
  note flow = honest_pairing_completes [where T = "\<lambda>_. 0" and B = "\<lambda>_. demo_bi" and kb = "''kb''" and
      ty = Nsec and pl = "''nsec1abc''", OF demo_env_ok _ _ demo_new _ demo_no_clash]
  from flow [OF _ _ demo_flow_fits [of _ "''ka''" "''kb''" "[1, 2, 3]"]] show ?thesis by simp blast
qed

lemma demo_offer:
  obtains tgt0 offer code src1 where "new_target demo_env 0 demo_bi ''kb'' demo_qr = Inr (tgt0, offer)"
    "handle_offer demo_env 0 offer demo_source = (Inr code, src1)" "ps_state src1 = Confirming"
    "ps_role tgt0 = Target" "ps_state tgt0 = Confirming" "ps_created_at tgt0 = 0"
    "ps_peer_pubkey tgt0 = Some ''pk-ka''" "ps_keys tgt0 = ''kb''" "ps_processed_ids tgt0 = {}"
proof -
  have "fits demo_env (Offer (hex_encode demo_env (derive_session_id demo_env [1, 2, 3])) 1)"
    by (rule demo_fits) (simp add: derive_session_id_def hkdf32_length [OF demo_env_ok])
  note prems = honest_offer [OF demo_env_ok le0 le0 demo_source_def demo_qr_def this,
      where bi = demo_bi and kb = "''kb''" and C = UNIV]
  have f: "ps_role t = Target \<and> ps_created_at t = 0 \<and> ps_peer_pubkey t = Some ''pk-ka'' \<and> ps_keys t = ''kb''"
    if "new_target demo_env 0 demo_bi ''kb'' demo_qr = Inr (t, ev)" for t ev
    by (rule new_target_Inr [OF that]) (simp add: demo_qr_def new_source_def demo_env_def)
  show thesis
  proof (rule prems)
    fix tgt0 offer sas src1
    assume "new_target demo_env 0 demo_bi ''kb'' demo_qr = Inr (tgt0, offer)"
      "handle_offer demo_env 0 offer demo_source = (Inr (format_sas (fst sas)), src1)"
      "ps_state src1 = Confirming" "ps_state tgt0 = Confirming" "ps_processed_ids tgt0 = {}"
    then show thesis using f that by blast
  qed simp
qed

lemma demo_source_start: "session_start demo_env demo_source"
  unfolding session_start_def demo_source_def by blast

theorem pairing_protocol_order_witness:
  "\<exists>s. session_run demo_env demo_source [OfferAccepted] s \<and> ps_state s = Confirming \<and>
       stage Source (ps_state s) = Some 1"
proof -
  obtain offer code src1 where o: "handle_offer demo_env 0 offer demo_source = (Inr code, src1)"
    "ps_state src1 = Confirming"
    using demo_offer by metis
  then have run: "session_run demo_env demo_source [OfferAccepted] src1"
    using run_step [OF run_nil session_step.intros(1)] by fastforce
  have "ps_role demo_source = Source" by (simp add: demo_source_def new_source_def)
  with pairing_protocol_order [OF demo_source_start run] o(2) run show ?thesis
    by (auto simp: progress_def)
qed

theorem pairing_terminal_final_witness:
  "\<exists>s. session_run demo_env (demo_source\<lparr>ps_state := Aborted\<rparr>) [Failed] s \<and> s = demo_source\<lparr>ps_state := Aborted\<rparr>"
proof -
  let ?s = "demo_source\<lparr>ps_state := Aborted\<rparr>"
  have "abort demo_env demo_bi UserDenied ?s =
      (Inl (UnexpectedMessage ''non-terminal state'' ''state Aborted''), ?s)"
    by (simp add: abort_def terminal_def state_debug_def)
  then have run: "session_run demo_env ?s [Failed] ?s"
    using run_step [OF run_nil session_step.intros(18)] by fastforce
  with pairing_terminal_final [OF run] show ?thesis by (auto simp: terminal_def)
qed

theorem pairing_authentic_input_witness:
  "\<exists>src1 ev. session_step demo_env demo_source OfferAccepted src1 \<and> event_verify demo_env ev \<and>
     ps_peer_pubkey src1 = Some (ev_pubkey ev)"
proof -
  obtain offer code src1 where "handle_offer demo_env 0 offer demo_source = (Inr code, src1)"
    using demo_offer by metis
  then have step: "session_step demo_env demo_source OfferAccepted src1"
    by (rule session_step.intros(1))
  from pairing_authentic_input [OF demo_source_start run_nil step] step show ?thesis by auto
qed

theorem pairing_sas_bound_to_peer_witness:
  "\<exists>tgt0 offer code. new_target demo_env 0 demo_bi ''kb'' demo_qr = Inr (tgt0, offer) \<and>
     ps_sas_code tgt0 = Some code \<and> unat code < 1000000"
proof -
  obtain tgt0 offer where t: "new_target demo_env 0 demo_bi ''kb'' demo_qr = Inr (tgt0, offer)"
    "ps_state tgt0 = Confirming"
    using demo_offer by metis
  have "session_start demo_env tgt0" unfolding session_start_def using t(1) by blast
  from pairing_sas_bound_to_peer [OF this run_nil] t show ?thesis by auto
qed

theorem handle_sas_confirm_exact_witness:
  "\<exists>tgt0 ev. fst (handle_sas_confirm demo_env 0 ev tgt0) = Inl TranscriptMismatch"
proof -
  obtain tgt0 offer where t: "new_target demo_env 0 demo_bi ''kb'' demo_qr = Inr (tgt0, offer)"
    "ps_role tgt0 = Target" "ps_state tgt0 = Confirming" "ps_created_at tgt0 = 0"
    "ps_peer_pubkey tgt0 = Some ''pk-ka''" "ps_keys tgt0 = ''kb''" "ps_processed_ids tgt0 = {}"
    using demo_offer by metis
  have start: "session_start demo_env tgt0" unfolding session_start_def using t(1) by blast
  define c where "c = replicate 132 CHR ''.'' @ ''Szz''"
  define ev where "ev = \<lparr>ev_id = c, ev_pubkey = ''pk-ka'', ev_created_at = 0, ev_kind = KIND_PAIRING,
      ev_tags = [p_tag ''pk-kb''], ev_content = c\<rparr>"
  have hyps: "\<not> is_expired 0 tgt0" "fresh_event demo_env ev tgt0" "ps_peer_pubkey tgt0 = Some (ev_pubkey ev)"
    "decrypt_message demo_env ev tgt0 = Inr (SasConfirm ''zz'')"
    using t by (simp_all add: is_expired_def fresh_event_def ev_def demo_env_def PAIRING_KIND_def
        has_p_tag_for_def p_tag_def pubkey_def decrypt_message_def c_def demo_from_json_def ok_or_def)
  have "hex_decode demo_env ''zz'' = Some x \<Longrightarrow> length x \<noteq> 32" for x by (auto simp: demo_env_def)
  with handle_sas_confirm_exact [OF start run_nil t(2,3) hyps]
  have "handle_sas_confirm demo_env 0 ev tgt0 = (Inl TranscriptMismatch, tgt0\<lparr>ps_state := Aborted\<rparr>)"
    by (auto split: if_splits)
  then show ?thesis by (metis fst_conv)
qed

end
