(* ===== verification/Pairing_Qr.thy ===== *)
theory Pairing_Qr
  imports Pairing
begin

text \<open>
  The QR code of a pairing (\<open>buzz-core/src/pairing/qr.rs\<close>): the \<open>nostrpair://\<close> URI, its encoder and
  its decoder with all the checks, and \<open>qr_uri\<close> of the session. Percent coding, hex, the parsing
  of keys and of URLs belong to other packages and are fields of the environment. Error texts
  are kept up to the values quoted in them.
\<close>

record qr_env = pairing_env +
  pk_from_hex :: "string \<Rightarrow> string option"
  percent_encode :: "string \<Rightarrow> string"
  percent_decode :: "string \<Rightarrow> string"
  url_parse :: "string \<Rightarrow> (string \<times> string option) option"

definition url_encode :: "qr_env \<Rightarrow> string \<Rightarrow> string" where
  "url_encode E s = percent_encode E s"

definition url_decode :: "qr_env \<Rightarrow> string \<Rightarrow> string" where
  "url_decode E s = percent_decode E s"

definition is_lowercase_hex :: "char \<Rightarrow> bool" where
  "is_lowercase_hex c \<longleftrightarrow> is_digit c \<or> (97 \<le> (of_char c :: nat) \<and> (of_char c :: nat) \<le> 102)"

definition encode_qr :: "qr_env \<Rightarrow> QrPayload \<Rightarrow> string" where
  "encode_qr E payload =
     (let uri = ''nostrpair://'' @ qr_source_pubkey payload @ ''?secret='' @ hex_encode E (qr_session_secret payload)
      in foldl (\<lambda>u relay. u @ ''&relay='' @ url_encode E relay) uri (qr_relays payload) @ ''&v=1'')"

text \<open>The loop over the query parameters: secret, relays and version seen so far.\<close>

fun parse_params ::
  "qr_env \<Rightarrow> string list \<Rightarrow> string option \<times> string list \<times> nat option \<Rightarrow>
   string option \<times> string list \<times> nat option" where
  "parse_params E [] acc = acc"
| "parse_params E (pair # pairs) (secret, relays, version) =
     parse_params E pairs
       (case split_once CHR ''='' pair of
          None \<Rightarrow> (secret, relays, version)
        | Some (key, value) \<Rightarrow>
            if key = ''secret'' then (Some value, relays, version)
            else if key = ''relay'' then (secret, relays @ [url_decode E value], version)
            else if key = ''v'' then (secret, relays, parse_u32 value)
            else (secret, relays, version))"

definition relay_error :: "qr_env \<Rightarrow> string \<Rightarrow> PairingError option" where
  "relay_error E relay =
     (case url_parse E relay of
        None \<Rightarrow> Some (InvalidQr ''invalid relay URL'')
      | Some (scheme, host) \<Rightarrow>
          if scheme \<noteq> ''wss'' \<and> scheme \<noteq> ''ws'' then Some (InvalidQr ''relay URL must use wss:// or ws:// scheme'')
          else if host = None then Some (InvalidQr ''relay URL has no host'') else None)"

fun check_relays :: "qr_env \<Rightarrow> string list \<Rightarrow> PairingError option" where
  "check_relays E [] = None"
| "check_relays E (relay # relays) =
     (case relay_error E relay of Some e \<Rightarrow> Some e | None \<Rightarrow> check_relays E relays)"

definition decode_qr :: "qr_env \<Rightarrow> string \<Rightarrow> PairingError + QrPayload" where
  "decode_qr E uri =
     (if length uri > 2048 then
        Inl (InvalidQr (''URI exceeds 2048-character limit ('' @ dec (length uri) @ '' chars)''))
      else case strip_prefix uri ''nostrpair://'' of
        None \<Rightarrow> Inl (InvalidQr ''URI must start with nostrpair://'')
      | Some rest \<Rightarrow>
      (case split_once CHR ''?'' rest of
        None \<Rightarrow> Inl (InvalidQr ''missing query string'')
      | Some (pubkey_hex, query) \<Rightarrow>
      if length pubkey_hex \<noteq> 64 \<or> \<not> list_all is_lowercase_hex pubkey_hex then
        Inl (InvalidQr ''pubkey must be 64 lowercase hex chars'')
      else case pk_from_hex E pubkey_hex of
        None \<Rightarrow> Inl (InvalidQr ''invalid pubkey'')
      | Some source_pubkey \<Rightarrow>
      (case parse_params E (split_on CHR ''&'' query) (None, [], None) of
        (secret_hex, relays, version) \<Rightarrow>
      let version = (case version of None \<Rightarrow> 1 | Some v \<Rightarrow> v)
      in if version \<noteq> 1 then
        Inl (InvalidQr (''unsupported protocol version '' @ dec version @ '', expected 1''))
      else case secret_hex of
        None \<Rightarrow> Inl (InvalidQr ''missing secret query parameter'')
      | Some secret_str \<Rightarrow>
      if length secret_str \<noteq> 64 \<or> \<not> list_all is_lowercase_hex secret_str then
        Inl (InvalidQr ''secret must be 64 lowercase hex chars'')
      else case hex_decode E secret_str of
        None \<Rightarrow> Inl (InvalidQr ''invalid secret hex'')
      | Some session_secret \<Rightarrow>
      if length session_secret \<noteq> 32 then Inl (InvalidQr ''secret must be exactly 32 bytes'')
      else if session_secret = replicate 32 0 then Inl (InvalidQr ''session_secret must not be all zeros'')
      else if relays = [] then Inl (InvalidQr ''at least one relay query parameter is required'')
      else case check_relays E relays of
        Some e \<Rightarrow> Inl e
      | None \<Rightarrow> Inr \<lparr>qr_source_pubkey = source_pubkey, qr_session_secret = session_secret,
                     qr_relays = relays, qr_version = version\<rparr>)))"

definition qr_uri :: "qr_env \<Rightarrow> PairingSession \<Rightarrow> string option" where
  "qr_uri E s =
     (if ps_role s \<noteq> Source then None
      else Some (encode_qr E \<lparr>qr_source_pubkey = public_key E (ps_keys s),
             qr_session_secret = ps_session_secret s, qr_relays = ps_relay_urls s, qr_version = 1\<rparr>))"

subsection \<open>Lemmas\<close>

lemma check_relays_None: "check_relays E rs = None \<longleftrightarrow> (\<forall>r\<in>set rs. relay_error E r = None)"
  by (induction rs) (auto split: option.split)

lemma foldl_append: "foldl (\<lambda>u r. u @ f r) a rs = a @ concat (map f rs)"
  by (induction rs arbitrary: a) auto

lemma join_with_Cons: "ps \<noteq> [] \<Longrightarrow> join_with d (p # ps) = p @ d # join_with d ps"
  by (cases ps) auto

lemma join_with_params:
  "join_with d (p # ps @ [q]) = p @ concat (map (\<lambda>x. d # x) ps) @ d # q"
  by (induction ps arbitrary: p) (simp_all add: join_with_Cons)

text \<open>What the codecs promise: they read back, and they write only harmless characters.\<close>

definition qr_env_ok :: "qr_env \<Rightarrow> bool" where
  "qr_env_ok E \<longleftrightarrow>
     (\<forall>s. percent_decode E (percent_encode E s) = s \<and> CHR ''&'' \<notin> set (percent_encode E s)) \<and>
     (\<forall>b. hex_decode E (hex_encode E b) = Some b \<and> length (hex_encode E b) = 2 * length b \<and>
          list_all is_lowercase_hex (hex_encode E b))"

definition payload_ok :: "qr_env \<Rightarrow> QrPayload \<Rightarrow> bool" where
  "payload_ok E p \<longleftrightarrow>
     length (qr_source_pubkey p) = 64 \<and> list_all is_lowercase_hex (qr_source_pubkey p) \<and>
     pk_from_hex E (qr_source_pubkey p) = Some (qr_source_pubkey p) \<and>
     length (qr_session_secret p) = 32 \<and> qr_session_secret p \<noteq> replicate 32 0 \<and>
     qr_relays p \<noteq> [] \<and> (\<forall>r\<in>set (qr_relays p). relay_error E r = None) \<and> qr_version p = 1"

definition uri_with_version :: "qr_env \<Rightarrow> QrPayload \<Rightarrow> string \<Rightarrow> string" where
  "uri_with_version E p v =
     ''nostrpair://'' @ qr_source_pubkey p @ CHR ''?'' #
       join_with CHR ''&'' ((''secret='' @ hex_encode E (qr_session_secret p)) #
         map (\<lambda>r. ''relay='' @ url_encode E r) (qr_relays p) @ [''v='' @ v])"

lemma encode_qr_uri: "encode_qr E p = uri_with_version E p ''1''"
  by (simp add: encode_qr_def uri_with_version_def foldl_append join_with_params comp_def)

lemma hex_no_sep: "list_all is_lowercase_hex s \<Longrightarrow> CHR ''?'' \<notin> set s \<and> CHR ''&'' \<notin> set s"
  by (auto simp: list_all_iff is_lowercase_hex_def is_digit_def)

lemma parse_params_relays:
  assumes "qr_env_ok E"
  shows "parse_params E (map (\<lambda>r. ''relay='' @ url_encode E r) rs @ ps) (s, rs', v) =
    parse_params E ps (s, rs' @ rs, v)"
  using assms
  by (induction rs arbitrary: rs') (simp_all add: url_decode_def url_encode_def qr_env_ok_def)

lemma decode_uri_with_version:
  assumes ok: "qr_env_ok E" and p: "payload_ok E p" and v: "CHR ''&'' \<notin> set v"
    and ver: "parse_u32 v = None \<or> parse_u32 v = Some 1" and len: "length (uri_with_version E p v) \<le> 2048"
  shows "decode_qr E (uri_with_version E p v) = Inr p"
proof -
  let ?parts = "(''secret='' @ hex_encode E (qr_session_secret p)) #
         map (\<lambda>r. ''relay='' @ url_encode E r) (qr_relays p) @ [''v='' @ v]"
  have hex: "list_all is_lowercase_hex (hex_encode E b)" "hex_decode E (hex_encode E b) = Some b"
    "length (hex_encode E b) = 2 * length b" for b
    using ok by (simp_all add: qr_env_ok_def)
  have "\<forall>q\<in>set ?parts. CHR ''&'' \<notin> set q"
    using ok v hex_no_sep [OF hex(1)] by (auto simp: url_encode_def qr_env_ok_def)
  then have split: "split_on CHR ''&'' (join_with CHR ''&'' ?parts) = ?parts"
    by (intro split_join) simp_all
  have rest: "strip_prefix (uri_with_version E p v) ''nostrpair://'' =
      Some (qr_source_pubkey p @ CHR ''?'' # join_with CHR ''&'' ?parts)"
    by (simp add: uri_with_version_def strip_prefix_def starts_with_def)
  have pk: "split_once CHR ''?'' (qr_source_pubkey p @ CHR ''?'' # q) = Some (qr_source_pubkey p, q)" for q
    using p hex_no_sep by (intro split_once_append) (auto simp: payload_ok_def)
  have params: "parse_params E ?parts (None, [], None) =
      (Some (hex_encode E (qr_session_secret p)), qr_relays p, parse_u32 v)"
    using parse_params_relays [OF ok, of "qr_relays p" "[''v='' @ v]"] by simp
  have c: "check_relays E (qr_relays p) = None" using p by (simp add: check_relays_None payload_ok_def)
  have one: "(case parse_u32 v of None \<Rightarrow> 1 | Some n \<Rightarrow> n) = 1" using ver by auto
  show ?thesis
    unfolding decode_qr_def rest option.case pk split params prod.case Let_def one
    using p len hex c by (simp add: payload_ok_def)
qed

subsection \<open>Properties\<close>

text \<open>
  The QR code reads back: given that the codecs read back what they write, a payload with
  a valid key, a secret of 32 bytes that is not all zeros, at least one relay and only web
  socket relays with a host, whose URI is at most 2048 characters long, decodes from its own
  URI to exactly the same payload.
\<close>

theorem qr_roundtrip:
  assumes "qr_env_ok E" "payload_ok E p" "length (encode_qr E p) \<le> 2048"
  shows "decode_qr E (encode_qr E p) = Inr p"
proof -
  have "parse_u32 ''1'' = Some 1" by (simp add: parse_u32_def starts_with_def undec_def is_digit_def)
  then show ?thesis
    using assms decode_uri_with_version [of E p "''1''"] by (simp add: encode_qr_uri)
qed

text \<open>
  Only well-formed pairings come out of the decoder: whatever the text, a decoded payload
  has protocol version 1, a secret of 32 bytes that is not all zeros and at least one relay, and
  every relay is a parseable URL with a web socket scheme and a host.
\<close>

theorem decode_qr_sound:
  assumes "decode_qr E uri = Inr p"
  shows "qr_version p = 1 \<and> length (qr_session_secret p) = 32 \<and> qr_session_secret p \<noteq> replicate 32 0 \<and>
    qr_relays p \<noteq> [] \<and> length uri \<le> 2048 \<and>
    (\<forall>r\<in>set (qr_relays p). \<exists>scheme host. url_parse E r = Some (scheme, Some host) \<and>
        (scheme = ''wss'' \<or> scheme = ''ws''))"
proof -
  have ok: "relay_error E r = None \<Longrightarrow>
      \<exists>scheme host. url_parse E r = Some (scheme, Some host) \<and> (scheme = ''wss'' \<or> scheme = ''ws'')" for r
    by (auto simp: relay_error_def split: option.splits if_splits)
  from assms have "qr_version p = 1" "length (qr_session_secret p) = 32" "qr_relays p \<noteq> []"
    "qr_session_secret p \<noteq> replicate 32 0" "length uri \<le> 2048" "check_relays E (qr_relays p) = None"
    unfolding decode_qr_def Let_def by (auto split: if_splits option.splits prod.splits)
  with ok show ?thesis by (simp add: check_relays_None)
qed

text \<open>
  An unreadable version is read as version 1: a URI whose version parameter is not a
  32-bit number, for instance because the version is 4294967296 or more, is accepted exactly like
  version 1, although versions above 1 are documented to be rejected.
\<close>

theorem qr_huge_version_accepted:
  assumes "qr_env_ok E" "payload_ok E p" "n \<ge> 2 ^ 32"
    and "length (uri_with_version E p (dec n)) \<le> 2048"
  shows "decode_qr E (uri_with_version E p (dec n)) = Inr p"
proof (rule decode_uri_with_version [OF assms(1,2) _ _ assms(4)])
  have "\<not> starts_with (dec n) ''+''"
    using dec_digits [of n] by (cases "dec n") (auto simp: starts_with_def is_digit_def)
  then show "parse_u32 (dec n) = None \<or> parse_u32 (dec n) = Some 1"
    using assms(3) by (simp add: parse_u32_def)
  show "CHR ''&'' \<notin> set (dec n)"
    using dec_digits [of n] by (auto simp: list_all_iff is_digit_def)
qed

text \<open>A concrete environment for the codecs: hex as it is, and percent coding by hex pairs.\<close>

fun demo_pct :: "string \<Rightarrow> string" where
  "demo_pct [] = []"
| "demo_pct (c # s) =
     (if c = CHR ''&'' then ''%26'' @ demo_pct s
      else if c = CHR ''%'' then ''%25'' @ demo_pct s else c # demo_pct s)"

fun demo_unpct :: "string \<Rightarrow> string" where
  "demo_unpct [] = []"
| "demo_unpct [c] = [c]"
| "demo_unpct [c, d] = [c, d]"
| "demo_unpct (c # d # e # s) =
     (if c = CHR ''%'' then (if e = CHR ''6'' then CHR ''&'' else CHR ''%'') # demo_unpct s
      else c # demo_unpct (d # e # s))"

lemma demo_unpct_plain: "c \<noteq> CHR ''%'' \<Longrightarrow> demo_unpct (c # s) = c # demo_unpct s"
  by (cases s rule: list.exhaust; cases "tl s"; simp)

lemma demo_pct_roundtrip: "demo_unpct (demo_pct s) = s" "CHR ''&'' \<notin> set (demo_pct s)"
  by (induction s) (auto simp: demo_unpct_plain)

definition demo_qr_env :: qr_env where
  "demo_qr_env = pairing_env.extend demo_env \<lparr>pk_from_hex = Some, percent_encode = demo_pct,
     percent_decode = demo_unpct, url_parse = (\<lambda>u. Some (''wss'', Some u))\<rparr>"

definition demo_payload :: QrPayload where
  "demo_payload = \<lparr>qr_source_pubkey = replicate 64 CHR ''a'', qr_session_secret = replicate 32 7,
     qr_relays = [''wss://relay?a&b''], qr_version = 1\<rparr>"

lemma demo_qr_fields [simp]:
  "hex_encode demo_qr_env = demo_hex_text" "hex_decode demo_qr_env = (\<lambda>s. Some (unhex s))"
  "pk_from_hex demo_qr_env = Some" "percent_encode demo_qr_env = demo_pct"
  "percent_decode demo_qr_env = demo_unpct" "url_parse demo_qr_env = (\<lambda>u. Some (''wss'', Some u))"
  by (simp_all add: demo_qr_env_def demo_env_def pairing_env.extend_def)

lemma hex_digit_lowercase: "n < 16 \<Longrightarrow> is_lowercase_hex (hex_digit n)"
  by (auto simp: is_lowercase_hex_def is_digit_def hex_digit_def)

lemma demo_qr_env_ok: "qr_env_ok demo_qr_env"
proof -
  have "unat b < 256" for b :: byte using unsigned_less [of b] by simp
  then have "unat b div 16 < 16" for b :: byte by (simp add: less_mult_imp_div_less)
  then have "list_all is_lowercase_hex (demo_hex_text bs)" for bs
    by (induction bs) (simp_all add: demo_hex_text_def hex_digit_lowercase)
  then show ?thesis
    by (simp add: qr_env_ok_def unhex_demo_hex_text demo_hex_text_length demo_pct_roundtrip)
qed

lemma demo_payload_ok: "payload_ok demo_qr_env demo_payload"
  by (simp add: payload_ok_def demo_payload_def relay_error_def list_all_iff is_lowercase_hex_def
        is_digit_def replicate_eq_replicate)

lemma demo_uri_length: "length (uri_with_version demo_qr_env demo_payload v) = 175 + length v"
  by (simp add: uri_with_version_def demo_payload_def url_encode_def demo_hex_text_length)

theorem qr_roundtrip_witness:
  "decode_qr demo_qr_env (encode_qr demo_qr_env demo_payload) = Inr demo_payload"
  by (rule qr_roundtrip [OF demo_qr_env_ok demo_payload_ok])
     (simp add: encode_qr_uri demo_uri_length)

theorem decode_qr_sound_witness: "qr_version demo_payload = 1 \<and> length (qr_session_secret demo_payload) = 32"
proof -
  have "parse_u32 ''1'' = Some 1" by (simp add: parse_u32_def starts_with_def undec_def is_digit_def)
  then have "decode_qr demo_qr_env (uri_with_version demo_qr_env demo_payload ''1'') = Inr demo_payload"
    by (intro decode_uri_with_version [OF demo_qr_env_ok demo_payload_ok]) (simp_all add: demo_uri_length)
  from decode_qr_sound [OF this] show ?thesis by blast
qed

theorem qr_huge_version_accepted_witness:
  "decode_qr demo_qr_env (uri_with_version demo_qr_env demo_payload (dec 4294967297)) = Inr demo_payload"
proof (rule qr_huge_version_accepted [OF demo_qr_env_ok demo_payload_ok])
  have "length (dec 4294967297) \<le> Suc 9" by (rule length_dec) simp
  then show "length (uri_with_version demo_qr_env demo_payload (dec 4294967297)) \<le> 2048"
    by (simp add: demo_uri_length)
qed simp

end
