(* ===== verification/Conformance.thy ===== *)
theory Conformance
  imports Prelude
begin

text \<open>
  The trace checker of the tenant fence (\<open>buzz-conformance\<close>): the trace schema (\<open>lib.rs\<close>), the
  check of one step (\<open>transitions.rs\<close>) and the replay of a scenario (\<open>checker.rs\<close>). Opaque labels
  are texts. Of an error the variant and the step index are kept, its human-readable detail is not.
\<close>

subsection \<open>The trace schema\<close>

type_synonym community_label = string
type_synonym channel_label = string

definition SCHEMA_VERSION :: nat where "SCHEMA_VERSION = 1"

datatype Verdict = Allow | Deny
datatype SanitizedReason = Restricted | Invalid | ServerError

record AbstractState =
  resolved_community :: community_label
  bound_host :: string
  actor :: string

datatype TraceAction =
    WriteInsert string channel_label "community_label option"
  | WriteInsertGlobal string "community_label option"
  | WriteDuplicate string channel_label "community_label option"
  | SanitizedError SanitizedReason
  | AuthCheck channel_label "community_label option" Verdict
  | ReadMessageRows "channel_label option" "community_label list"
  | ReadByIdRows "channel_label option" "community_label list"
  | ReadHostFeedRows "community_label list"
  | ImplBug string

fun action_kind :: "TraceAction \<Rightarrow> string" where
  "action_kind (WriteInsert _ _ _) = ''write_insert''"
| "action_kind (WriteInsertGlobal _ _) = ''write_insert_global''"
| "action_kind (WriteDuplicate _ _ _) = ''write_duplicate''"
| "action_kind (SanitizedError _) = ''sanitized_error''"
| "action_kind (AuthCheck _ _ _) = ''auth_check''"
| "action_kind (ReadMessageRows _ _) = ''read_message_rows''"
| "action_kind (ReadByIdRows _ _) = ''read_by_id_rows''"
| "action_kind (ReadHostFeedRows _) = ''read_host_feed_rows''"
| "action_kind (ImplBug _) = ''impl_bug''"

record TraceStep =
  schema_version :: nat
  ts_action :: TraceAction
  state_after :: AbstractState

definition TraceStep_new :: "TraceAction \<Rightarrow> AbstractState \<Rightarrow> TraceStep" where
  "TraceStep_new a s = \<lparr>schema_version = SCHEMA_VERSION, ts_action = a, state_after = s\<rparr>"

subsection \<open>Checking one step\<close>

datatype TransitionError =
    IllegalTransition nat
  | StateMismatch nat
  | NonInterference nat
  | CoverageBreach

record ModelState =
  ms_resolved_community :: community_label
  ms_bound_host :: string
  ms_actor :: string

definition bootstrap :: "AbstractState \<Rightarrow> ModelState" where
  "bootstrap s = \<lparr>ms_resolved_community = resolved_community s, ms_bound_host = bound_host s, ms_actor = actor s\<rparr>"

definition check_row_labels :: "nat \<Rightarrow> ModelState \<Rightarrow> community_label list \<Rightarrow> TransitionError + unit" where
  "check_row_labels i model row_communities =
     (case List.find (\<lambda>c. c \<noteq> ms_resolved_community model) row_communities of
        Some foreign \<Rightarrow> Inl (NonInterference i)
      | None \<Rightarrow> Inr ())"

definition check_step :: "nat \<Rightarrow> ModelState \<Rightarrow> TraceStep \<Rightarrow> TransitionError + unit" where
  "check_step i model step =
     (if resolved_community (state_after step) \<noteq> ms_resolved_community model then Inl (StateMismatch i)
      else if bound_host (state_after step) \<noteq> ms_bound_host model then Inl (StateMismatch i)
      else if actor (state_after step) \<noteq> ms_actor model then Inl (StateMismatch i)
      else case ts_action step of
        WriteInsert _ _ _ \<Rightarrow> Inr ()
      | WriteInsertGlobal _ _ \<Rightarrow> Inr ()
      | WriteDuplicate _ _ _ \<Rightarrow> Inr ()
      | SanitizedError reason \<Rightarrow> (case reason of Restricted \<Rightarrow> Inr () | Invalid \<Rightarrow> Inr () | ServerError \<Rightarrow> Inr ())
      | AuthCheck _ claimed verdict \<Rightarrow>
          (case (verdict, claimed) of
             (Allow, Some c) \<Rightarrow> if c \<noteq> ms_resolved_community model then Inl (IllegalTransition i) else Inr ()
           | _ \<Rightarrow> Inr ())
      | ReadMessageRows _ rows \<Rightarrow> check_row_labels i model rows
      | ReadByIdRows _ rows \<Rightarrow> check_row_labels i model rows
      | ReadHostFeedRows rows \<Rightarrow> check_row_labels i model rows
      | ImplBug _ \<Rightarrow> Inl CoverageBreach)"

fun action_channel :: "TraceAction \<Rightarrow> channel_label option" where
  "action_channel (WriteInsert _ ch _) = Some ch"
| "action_channel (WriteDuplicate _ ch _) = Some ch"
| "action_channel (AuthCheck ch _ _) = Some ch"
| "action_channel (ReadMessageRows ch _) = ch"
| "action_channel (ReadByIdRows ch _) = ch"
| "action_channel (WriteInsertGlobal _ _) = None"
| "action_channel (ReadHostFeedRows _) = None"
| "action_channel (SanitizedError _) = None"
| "action_channel (ImplBug _) = None"

subsection \<open>Checking a scenario\<close>

record Scenario =
  sc_trace :: "TraceStep list"
  required_critical_actions :: "string list"

definition unstructured :: "TraceStep list \<Rightarrow> Scenario" where
  "unstructured tr = \<lparr>sc_trace = tr, required_critical_actions = []\<rparr>"

definition require_action :: "Scenario \<Rightarrow> string \<Rightarrow> Scenario" where
  "require_action sc kind = sc\<lparr>required_critical_actions := List.insert kind (required_critical_actions sc)\<rparr>"

text \<open>The loop over the steps, from index \<open>i\<close>.\<close>

fun check_steps :: "nat \<Rightarrow> ModelState \<Rightarrow> TraceStep list \<Rightarrow> TransitionError + unit" where
  "check_steps i model [] = Inr ()"
| "check_steps i model (step # steps) =
     (if schema_version step \<noteq> SCHEMA_VERSION then Inl (IllegalTransition i)
      else case check_step i model step of
        Inl e \<Rightarrow> Inl e
      | Inr _ \<Rightarrow> check_steps (Suc i) model steps)"

definition check_trace :: "Scenario \<Rightarrow> TransitionError + unit" where
  "check_trace sc =
     (case sc_trace sc of
        [] \<Rightarrow> Inl CoverageBreach
      | first # _ \<Rightarrow>
          if schema_version first \<noteq> SCHEMA_VERSION then Inl (IllegalTransition 0)
          else
            (let model = bootstrap (state_after first)
             in case check_steps 0 model (sc_trace sc) of
                  Inl e \<Rightarrow> Inl e
                | Inr _ \<Rightarrow>
                    (let seen = map (action_kind \<circ> ts_action) (sc_trace sc);
                         missing = filter (\<lambda>k. k \<notin> set seen) (required_critical_actions sc)
                     in if missing \<noteq> [] then Inl CoverageBreach else Inr ())))"

subsection \<open>What conformance means\<close>

text \<open>
  The specification of a request: one tenant context for the whole trace, no row of another
  community in any observation, no permission granted on a foreign claim, and no unlabelled exit.
\<close>

fun row_labels :: "TraceAction \<Rightarrow> community_label set" where
  "row_labels (ReadMessageRows _ rows) = set rows"
| "row_labels (ReadByIdRows _ rows) = set rows"
| "row_labels (ReadHostFeedRows rows) = set rows"
| "row_labels _ = {}"

definition step_ok :: "AbstractState \<Rightarrow> TraceStep \<Rightarrow> bool" where
  "step_ok s step \<longleftrightarrow>
     state_after step = s \<and> schema_version step = SCHEMA_VERSION \<and>
     row_labels (ts_action step) \<subseteq> {resolved_community s} \<and>
     (\<forall>ch c. ts_action step = AuthCheck ch (Some c) Allow \<longrightarrow> c = resolved_community s) \<and>
     (\<forall>k. ts_action step \<noteq> ImplBug k)"

lemma check_row_labels_ok:
  "check_row_labels i model rows = Inr () \<longleftrightarrow> set rows \<subseteq> {ms_resolved_community model}"
  unfolding check_row_labels_def by (induction rows) auto

lemma check_step_ok:
  assumes "schema_version step = SCHEMA_VERSION"
  shows "check_step i (bootstrap s) step = Inr () \<longleftrightarrow> step_ok s step"
proof (cases "state_after step = s")
  case True
  then show ?thesis using assms
    by (cases "ts_action step")
       (auto simp: check_step_def step_ok_def bootstrap_def check_row_labels_ok
             split: SanitizedReason.split Verdict.split option.split)
next
  case False
  then have "resolved_community (state_after step) \<noteq> resolved_community s \<or>
      bound_host (state_after step) \<noteq> bound_host s \<or> actor (state_after step) \<noteq> actor s"
    by auto
  with False show ?thesis by (auto simp: check_step_def step_ok_def bootstrap_def)
qed

lemma check_steps_ok: "check_steps i (bootstrap s) steps = Inr () \<longleftrightarrow> (\<forall>step\<in>set steps. step_ok s step)"
proof (induction steps arbitrary: i)
  case (Cons step steps)
  show ?case
  proof (cases "schema_version step = SCHEMA_VERSION")
    case True
    with Cons check_step_ok [OF True, of i s] show ?thesis
      by (cases "check_step i (bootstrap s) step") auto
  qed (simp add: step_ok_def)
qed simp

definition first_state :: "Scenario \<Rightarrow> AbstractState" where
  "first_state sc = state_after (hd (sc_trace sc))"

text \<open>
  C2. The checker decides conformance: a scenario passes exactly when its trace is not empty,
  every step has the checker's schema version and the tenant context of the first step, no
  observation contains a row of a community other than the resolved one, no permission was
  granted on a claim to another community, no step reports an unlabelled exit, and every action
  the scenario requires occurs.
\<close>

theorem check_trace_decides_conformance:
  "check_trace sc = Inr () \<longleftrightarrow>
     sc_trace sc \<noteq> [] \<and> (\<forall>step\<in>set (sc_trace sc). step_ok (first_state sc) step) \<and>
     set (required_critical_actions sc) \<subseteq> (action_kind \<circ> ts_action) ` set (sc_trace sc)"
proof (cases "sc_trace sc")
  case Nil
  then show ?thesis by (simp add: check_trace_def)
next
  case (Cons first rest)
  let ?m = "bootstrap (state_after first)"
  have fs: "first_state sc = state_after first" by (simp add: first_state_def Cons)
  note steps = check_steps_ok [of 0 "state_after first" "sc_trace sc", folded fs]
  show ?thesis
  proof (cases "schema_version first = SCHEMA_VERSION")
    case False
    then show ?thesis by (auto simp: check_trace_def Cons step_ok_def)
  next
    case v: True
    have unfold: "check_trace sc =
        (case check_steps 0 (bootstrap (first_state sc)) (sc_trace sc) of
           Inl e \<Rightarrow> Inl e
         | Inr _ \<Rightarrow> if filter (\<lambda>k. k \<notin> set (map (action_kind \<circ> ts_action) (sc_trace sc)))
               (required_critical_actions sc) \<noteq> [] then Inl CoverageBreach else Inr ())"
      unfolding check_trace_def Let_def fs by (simp add: Cons v del: check_steps.simps)
    show ?thesis
      by (cases "check_steps 0 (bootstrap (first_state sc)) (sc_trace sc)")
         (use steps Cons in \<open>auto simp: unfold filter_empty_conv simp del: check_steps.simps\<close>)
  qed
qed

definition leak_scenario :: Scenario where
  "leak_scenario = (let s = \<lparr>resolved_community = ''c1'', bound_host = ''h'', actor = ''a''\<rparr>
     in unstructured [TraceStep_new (AuthCheck ''ch'' (Some ''c1'') Allow) s,
                      TraceStep_new (ReadMessageRows (Some ''ch'') [''c1'', ''c2'']) s])"

definition clean_scenario :: Scenario where
  "clean_scenario = (let s = \<lparr>resolved_community = ''c1'', bound_host = ''h'', actor = ''a''\<rparr>
     in unstructured [TraceStep_new (AuthCheck ''ch'' (Some ''c1'') Allow) s,
                      TraceStep_new (ReadMessageRows (Some ''ch'') [''c1'', ''c1'']) s])"

theorem check_trace_decides_conformance_witness:
  "check_trace clean_scenario = Inr () \<and> check_trace leak_scenario \<noteq> Inr ()"
  unfolding check_trace_decides_conformance
  by (simp add: clean_scenario_def leak_scenario_def unstructured_def TraceStep_new_def Let_def
      first_state_def step_ok_def)

lemma check_steps_first_error:
  "check_steps i (bootstrap s) steps = Inl e \<Longrightarrow>
   \<exists>n<length steps. \<not> step_ok s (steps ! n) \<and> (\<forall>m<n. step_ok s (steps ! m)) \<and>
     e \<in> {IllegalTransition (i + n), StateMismatch (i + n), NonInterference (i + n), CoverageBreach}"
proof (induction steps arbitrary: i)
  case (Cons step steps)
  have here: "\<exists>n<length (step # steps). \<not> step_ok s ((step # steps) ! n) \<and>
      (\<forall>m<n. step_ok s ((step # steps) ! m)) \<and>
      e \<in> {IllegalTransition (i + n), StateMismatch (i + n), NonInterference (i + n), CoverageBreach}"
    if "\<not> step_ok s step" "e \<in> {IllegalTransition i, StateMismatch i, NonInterference i, CoverageBreach}"
    using that by (intro exI [of _ 0]) auto
  show ?case
  proof (cases "schema_version step = SCHEMA_VERSION")
    case False
    with Cons.prems here show ?thesis by (simp add: step_ok_def)
  next
    case v: True
    show ?thesis
    proof (cases "check_step i (bootstrap s) step")
      case (Inl e')
      moreover have "e' \<in> {IllegalTransition i, StateMismatch i, NonInterference i, CoverageBreach}"
        using Inl by (auto simp: check_step_def check_row_labels_def
            split: if_splits TraceAction.splits SanitizedReason.splits Verdict.splits option.splits)
      moreover have "\<not> step_ok s step" using check_step_ok [OF v, of i s] Inl by auto
      ultimately show ?thesis using Cons.prems v here by simp
    next
      case (Inr u)
      then have "step_ok s step" using check_step_ok [OF v, of i s] by simp
      moreover obtain n where "n < length steps" "\<not> step_ok s (steps ! n)" "\<forall>m<n. step_ok s (steps ! m)"
        "e \<in> {IllegalTransition (Suc i + n), StateMismatch (Suc i + n), NonInterference (Suc i + n), CoverageBreach}"
        using Cons.IH [of "Suc i"] Cons.prems v Inr by auto
      ultimately show ?thesis
        by (intro exI [of _ "Suc n"]) (auto simp: less_Suc_eq_0_disj)
    qed
  qed
qed simp

text \<open>
  The checker reports the first violation: when a scenario is rejected with an error that
  carries a step index, every step before that index satisfies the specification and the step
  at the index violates it.
\<close>

theorem check_trace_first_violation:
  assumes "check_trace sc = Inl e" "e \<in> {IllegalTransition i, StateMismatch i, NonInterference i}"
  shows "i < length (sc_trace sc) \<and> \<not> step_ok (first_state sc) (sc_trace sc ! i) \<and>
    (\<forall>m<i. step_ok (first_state sc) (sc_trace sc ! m))"
proof (cases "sc_trace sc")
  case Nil
  with assms show ?thesis by (auto simp: check_trace_def)
next
  case (Cons first rest)
  have fs: "first_state sc = state_after first" by (simp add: first_state_def Cons)
  show ?thesis
  proof (cases "schema_version first = SCHEMA_VERSION")
    case False
    with assms Cons show ?thesis by (auto simp: check_trace_def step_ok_def)
  next
    case True
    then have "check_steps 0 (bootstrap (first_state sc)) (sc_trace sc) = Inl e"
      using assms by (auto simp: check_trace_def Cons fs Let_def split: sum.splits if_splits)
    from check_steps_first_error [OF this] assms(2) show ?thesis by auto
  qed
qed

theorem check_trace_first_violation_witness:
  "check_trace leak_scenario = Inl (NonInterference 1) \<and>
   \<not> step_ok (first_state leak_scenario) (sc_trace leak_scenario ! 1)"
proof -
  have "check_trace leak_scenario = Inl (NonInterference 1)" by code_simp
  with check_trace_first_violation [OF this, of 1] show ?thesis by simp
qed

end
