(* ===== verification/Mesh.thy ===== *)
theory Mesh
  imports Complex_Main Prelude "HOL-Library.List_Lexorder" "HOL-Library.Char_ord"
begin

text \<open>
  Membership of the relay mesh (\<open>buzz-relay-mesh\<close>): gossip records and the suspicion level of a
  peer (\<open>gossip.rs\<close>), the membership table fed by attested ready records and by gossip
  (\<open>membership.rs\<close>, \<open>registry.rs\<close>) and the status it reports (\<open>status.rs\<close>).

  A runtime id is its hex form. The locks and atomic counters of the table are the fields of
  one state that every operation updates at once, which is what the write lock gives. The clock
  is an argument, in milliseconds; the advisory load is its bit pattern. The suspicion level is
  computed in the reals instead of \<open>f64\<close>.
\<close>

type_synonym runtime_id = string

definition u64_max :: nat where "u64_max = 18446744073709551615"

definition saturating_inc :: "nat \<Rightarrow> nat" where "saturating_inc n = min u64_max (n + 1)"

definition GOSSIP_PAYLOAD_VERSION :: nat where "GOSSIP_PAYLOAD_VERSION = 1"

record GossipRecord =
  gr_runtime_id :: runtime_id
  gr_endpoint_addrs :: "string list"
  gr_proto_version :: nat
  gr_load :: nat
  gr_draining :: bool
  gr_capabilities :: "string list"
  gr_version :: nat
  gr_heartbeat_millis :: nat

definition GossipRecord_new :: "nat \<Rightarrow> runtime_id \<Rightarrow> string list \<Rightarrow> nat \<Rightarrow> GossipRecord" where
  "GossipRecord_new now_millis rid addrs proto =
     \<lparr>gr_runtime_id = rid, gr_endpoint_addrs = addrs, gr_proto_version = proto, gr_load = 0,
      gr_draining = False, gr_capabilities = [], gr_version = 1, gr_heartbeat_millis = now_millis\<rparr>"

record GossipDigestEntry =
  de_runtime_id :: runtime_id
  de_version :: nat

datatype GossipMessage = Digest nat "GossipDigestEntry list" | Delta nat "GossipRecord list"

subsection \<open>Suspicion\<close>

record PhiAccrual =
  phi_samples :: "nat list"
  phi_last_heartbeat :: "nat option"
  phi_max_samples :: nat

definition PhiAccrual_new :: "nat \<Rightarrow> PhiAccrual" where
  "PhiAccrual_new max_samples =
     \<lparr>phi_samples = [], phi_last_heartbeat = None, phi_max_samples = max max_samples 1\<rparr>"

definition PhiAccrual_default :: PhiAccrual where
  "PhiAccrual_default = PhiAccrual_new 100"

definition phi_observe :: "nat \<Rightarrow> PhiAccrual \<Rightarrow> PhiAccrual" where
  "phi_observe t p =
     (let p1 = (case phi_last_heartbeat p of
                  None \<Rightarrow> p
                | Some prev \<Rightarrow>
                    if t > prev
                    then (let s = phi_samples p @ [t - prev]
                          in p\<lparr>phi_samples := (if length s > phi_max_samples p then tl s else s)\<rparr>)
                    else p)
      in p1\<lparr>phi_last_heartbeat := Some t\<rparr>)"

definition mean_secs :: "PhiAccrual \<Rightarrow> real" where
  "mean_secs p = (real (sum_list (phi_samples p)) / 1000) / real (length (phi_samples p))"

definition phi_at :: "nat \<Rightarrow> PhiAccrual \<Rightarrow> real option" where
  "phi_at now p =
     (case phi_last_heartbeat p of
        None \<Rightarrow> None
      | Some prev \<Rightarrow>
          if phi_samples p = [] then None
          else if now < prev then None
          else (let elapsed = real (now - prev) / 1000; mean = mean_secs p
                in if mean \<le> 2 powr (- 52) then None else Some (elapsed / mean / ln 10)))"

subsection \<open>The membership table\<close>

datatype ConnectionState = Disconnected | Connecting | Connected | Suspect

record MeshPeerCounters =
  pc_runtime_id :: string
  streams_opened :: nat
  streams_received :: nat
  datagrams_sent :: nat
  datagrams_received :: nat
  gossip_frames_sent :: nat
  gossip_frames_received :: nat
  pc_stale_generation_rejections :: nat

definition MeshPeerCounters_default :: MeshPeerCounters where
  "MeshPeerCounters_default =
     \<lparr>pc_runtime_id = [], streams_opened = 0, streams_received = 0, datagrams_sent = 0,
      datagrams_received = 0, gossip_frames_sent = 0, gossip_frames_received = 0,
      pc_stale_generation_rejections = 0\<rparr>"

record PeerState =
  peer_record :: GossipRecord
  peer_phi :: PhiAccrual
  connection_state :: ConnectionState
  counters :: MeshPeerCounters

record MeshMembership =
  local_runtime_id :: runtime_id
  local_record :: GossipRecord
  peers :: "(runtime_id, PeerState) hmap"
  draining :: bool
  stale_generation_rejections :: nat
  foreign_relay_rejections :: nat
  expected_relay_pubkey :: "string option"
  phi_suspect_threshold :: real

definition DEFAULT_PHI_SUSPECT_THRESHOLD :: real where "DEFAULT_PHI_SUSPECT_THRESHOLD = 8"

definition MeshMembership_new :: "GossipRecord \<Rightarrow> MeshMembership" where
  "MeshMembership_new r =
     \<lparr>local_runtime_id = gr_runtime_id r, local_record = r, peers = [], draining = False,
      stale_generation_rejections = 0, foreign_relay_rejections = 0, expected_relay_pubkey = None,
      phi_suspect_threshold = DEFAULT_PHI_SUSPECT_THRESHOLD\<rparr>"

definition with_expected_relay_pubkey :: "string \<Rightarrow> MeshMembership \<Rightarrow> MeshMembership" where
  "with_expected_relay_pubkey pk m = m\<lparr>expected_relay_pubkey := Some pk\<rparr>"

definition with_phi_suspect_threshold :: "real \<Rightarrow> MeshMembership \<Rightarrow> MeshMembership" where
  "with_phi_suspect_threshold t m = m\<lparr>phi_suspect_threshold := t\<rparr>"

text \<open>A gossiped record is applied when it is newer than the copy at hand.\<close>

definition apply_gossip_record :: "GossipRecord \<Rightarrow> MeshMembership \<Rightarrow> bool \<times> MeshMembership" where
  "apply_gossip_record r m =
     (if gr_runtime_id r = local_runtime_id m then (False, m)
      else
        (let heartbeat = gr_heartbeat_millis r
         in case hget (peers m) (gr_runtime_id r) of
              Some peer \<Rightarrow>
                if gr_version r \<le> gr_version (peer_record peer) then (False, m)
                else (True, m\<lparr>peers := hput (gr_runtime_id r)
                        (peer\<lparr>peer_record := r, connection_state := Connected,
                              peer_phi := phi_observe heartbeat (peer_phi peer)\<rparr>) (peers m)\<rparr>)
            | None \<Rightarrow>
                (True, m\<lparr>peers := hput (gr_runtime_id r)
                   \<lparr>peer_record = r, peer_phi = phi_observe heartbeat PhiAccrual_default,
                    connection_state = Connected,
                    counters = MeshPeerCounters_default\<lparr>pc_runtime_id := gr_runtime_id r\<rparr>\<rparr> (peers m)\<rparr>)))"

subsection \<open>Ready records\<close>

definition READY_KEY_PREFIX :: string where "READY_KEY_PREFIX = ''mesh:ready:''"
definition ATTESTATION_CONTEXT :: string where "ATTESTATION_CONTEXT = ''buzz-relay-mesh-ready-v1''"

record ReadyRecord =
  rr_runtime_id :: runtime_id
  rr_runtime_pubkey :: string
  rr_relay_pubkey :: string
  rr_relay_sig :: string
  rr_endpoint_addrs :: "string list"
  rr_proto_version :: nat
  rr_capabilities :: "string list"

definition attestation_preimage :: "runtime_id \<Rightarrow> string \<Rightarrow> string" where
  "attestation_preimage rid relay_pubkey =
     ATTESTATION_CONTEXT @ [CHR 0x0A] @ ''runtime_pubkey='' @ rid @ [CHR 0x0A] @ ''relay_pubkey='' @ relay_pubkey"

definition ready_key :: "runtime_id \<Rightarrow> string" where
  "ready_key rid = READY_KEY_PREFIX @ rid"

text \<open>
  \<open>verify_attestation\<close> of a ready record. The Schnorr verification over the SHA-256 digest of the
  preimage, with the parsing of key and signature, is the parameter \<open>sig_ok\<close>.
\<close>

definition verify_attestation :: "(string \<Rightarrow> string \<Rightarrow> string \<Rightarrow> bool) \<Rightarrow> ReadyRecord \<Rightarrow> bool" where
  "verify_attestation sig_ok r \<longleftrightarrow>
     rr_runtime_pubkey r = rr_runtime_id r \<and>
     sig_ok (rr_relay_pubkey r) (rr_relay_sig r) (attestation_preimage (rr_runtime_id r) (rr_relay_pubkey r))"

definition record_of_ready :: "nat \<Rightarrow> ReadyRecord \<Rightarrow> GossipRecord" where
  "record_of_ready now r =
     (GossipRecord_new now (rr_runtime_id r) (rr_endpoint_addrs r) (rr_proto_version r))
       \<lparr>gr_capabilities := rr_capabilities r\<rparr>"

fun apply_ready_records ::
  "(string \<Rightarrow> string \<Rightarrow> string \<Rightarrow> bool) \<Rightarrow> nat \<Rightarrow> ReadyRecord list \<Rightarrow> MeshMembership \<Rightarrow> MeshMembership" where
  "apply_ready_records sig_ok now [] m = m"
| "apply_ready_records sig_ok now (ready # rs) m =
     apply_ready_records sig_ok now rs
       (if rr_runtime_id ready = local_runtime_id m then m
        else if expected_relay_pubkey m \<noteq> Some (rr_relay_pubkey ready)
        then m\<lparr>foreign_relay_rejections := (foreign_relay_rejections m + 1) mod 2 ^ 64\<rparr>
        else if \<not> verify_attestation sig_ok ready then m
        else snd (apply_gossip_record (record_of_ready now ready) m))"

subsection \<open>Local changes and queries\<close>

definition mark_connection_state :: "runtime_id \<Rightarrow> ConnectionState \<Rightarrow> MeshMembership \<Rightarrow> MeshMembership" where
  "mark_connection_state rid st m =
     (case hget (peers m) rid of
        None \<Rightarrow> m
      | Some peer \<Rightarrow> m\<lparr>peers := hput rid (peer\<lparr>connection_state := st\<rparr>) (peers m)\<rparr>)"

definition update_local ::
  "nat \<Rightarrow> (GossipRecord \<Rightarrow> GossipRecord) \<Rightarrow> MeshMembership \<Rightarrow> GossipRecord \<times> MeshMembership" where
  "update_local now update m =
     (let l = update (local_record m);
          l' = l\<lparr>gr_version := saturating_inc (gr_version l), gr_heartbeat_millis := now\<rparr>
      in (l', m\<lparr>local_record := l'\<rparr>))"

definition begin_drain :: "nat \<Rightarrow> MeshMembership \<Rightarrow> MeshMembership" where
  "begin_drain now m = snd (update_local now (\<lambda>r. r\<lparr>gr_draining := True\<rparr>) (m\<lparr>draining := True\<rparr>))"

definition has_peer :: "runtime_id \<Rightarrow> MeshMembership \<Rightarrow> bool" where
  "has_peer rid m \<longleftrightarrow> hget (peers m) rid \<noteq> None"

definition records :: "MeshMembership \<Rightarrow> GossipRecord list" where
  "records m = map (\<lambda>(_, peer). peer_record peer) (peers m) @ [local_record m]"

definition digest :: "MeshMembership \<Rightarrow> GossipMessage" where
  "digest m =
     Digest GOSSIP_PAYLOAD_VERSION
       (sort_key de_runtime_id
          (map (\<lambda>r. \<lparr>de_runtime_id = gr_runtime_id r, de_version = gr_version r\<rparr>) (records m)))"

definition delta_for :: "GossipDigestEntry list \<Rightarrow> MeshMembership \<Rightarrow> GossipMessage" where
  "delta_for entries m =
     (let remote = map_of (rev (map (\<lambda>e. (de_runtime_id e, de_version e)) entries))
      in Delta GOSSIP_PAYLOAD_VERSION
           (sort_key gr_runtime_id
              (filter (\<lambda>r. case remote (gr_runtime_id r) of None \<Rightarrow> True | Some v \<Rightarrow> v < gr_version r)
                 (records m))))"

text \<open>The version gate of \<open>decode_message\<close>, after the parsing done by \<open>postcard\<close>.\<close>

definition accept_message :: "GossipMessage \<Rightarrow> GossipMessage option" where
  "accept_message msg =
     (let version = (case msg of Digest v _ \<Rightarrow> v | Delta v _ \<Rightarrow> v)
      in if version \<noteq> GOSSIP_PAYLOAD_VERSION then None else Some msg)"

definition update_peer_counters ::
  "runtime_id \<Rightarrow> (MeshPeerCounters \<Rightarrow> MeshPeerCounters) \<Rightarrow> MeshMembership \<Rightarrow> MeshMembership" where
  "update_peer_counters rid update m =
     (case hget (peers m) rid of
        None \<Rightarrow> m
      | Some peer \<Rightarrow> m\<lparr>peers := hput rid (peer\<lparr>counters := update (counters peer)\<rparr>) (peers m)\<rparr>)"

definition record_stream_opened :: "runtime_id \<Rightarrow> MeshMembership \<Rightarrow> MeshMembership" where
  "record_stream_opened rid = update_peer_counters rid (\<lambda>c. c\<lparr>streams_opened := saturating_inc (streams_opened c)\<rparr>)"

definition record_stream_received :: "runtime_id \<Rightarrow> MeshMembership \<Rightarrow> MeshMembership" where
  "record_stream_received rid = update_peer_counters rid (\<lambda>c. c\<lparr>streams_received := saturating_inc (streams_received c)\<rparr>)"

definition record_datagram_sent :: "runtime_id \<Rightarrow> MeshMembership \<Rightarrow> MeshMembership" where
  "record_datagram_sent rid = update_peer_counters rid (\<lambda>c. c\<lparr>datagrams_sent := saturating_inc (datagrams_sent c)\<rparr>)"

definition record_datagram_received :: "runtime_id \<Rightarrow> MeshMembership \<Rightarrow> MeshMembership" where
  "record_datagram_received rid = update_peer_counters rid (\<lambda>c. c\<lparr>datagrams_received := saturating_inc (datagrams_received c)\<rparr>)"

definition record_gossip_frame_sent :: "runtime_id \<Rightarrow> MeshMembership \<Rightarrow> MeshMembership" where
  "record_gossip_frame_sent rid = update_peer_counters rid (\<lambda>c. c\<lparr>gossip_frames_sent := saturating_inc (gossip_frames_sent c)\<rparr>)"

definition record_gossip_frame_received :: "runtime_id \<Rightarrow> MeshMembership \<Rightarrow> MeshMembership" where
  "record_gossip_frame_received rid = update_peer_counters rid (\<lambda>c. c\<lparr>gossip_frames_received := saturating_inc (gossip_frames_received c)\<rparr>)"

definition record_stale_generation_rejection :: "runtime_id option \<Rightarrow> MeshMembership \<Rightarrow> MeshMembership" where
  "record_stale_generation_rejection rid m =
     (let m1 = m\<lparr>stale_generation_rejections := (stale_generation_rejections m + 1) mod 2 ^ 64\<rparr>
      in case rid of
           None \<Rightarrow> m1
         | Some r \<Rightarrow> update_peer_counters r
             (\<lambda>c. c\<lparr>pc_stale_generation_rejections := saturating_inc (pc_stale_generation_rejections c)\<rparr>) m1)"

record PeerInfo =
  pi_runtime_id :: runtime_id
  pi_draining :: bool
  pi_phi :: "real option"
  pi_load :: nat

definition suspected :: "nat \<Rightarrow> MeshMembership \<Rightarrow> PeerState \<Rightarrow> bool" where
  "suspected now m peer \<longleftrightarrow>
     (case phi_at now (peer_phi peer) of None \<Rightarrow> False | Some p \<Rightarrow> p \<ge> phi_suspect_threshold m)"

definition live_peers :: "nat \<Rightarrow> MeshMembership \<Rightarrow> PeerInfo list" where
  "live_peers now m =
     map (\<lambda>(_, peer). \<lparr>pi_runtime_id = gr_runtime_id (peer_record peer),
            pi_draining = gr_draining (peer_record peer), pi_phi = phi_at now (peer_phi peer),
            pi_load = gr_load (peer_record peer)\<rparr>)
       (filter (\<lambda>(_, peer). \<not> suspected now m peer) (peers m))"

text \<open>The gossip exchange on a control stream: one received message, and one tick.\<close>

definition handle_gossip :: "runtime_id \<Rightarrow> GossipMessage \<Rightarrow> MeshMembership \<Rightarrow> GossipMessage option \<times> MeshMembership" where
  "handle_gossip remote msg m =
     (let m1 = record_gossip_frame_received remote m
      in case accept_message msg of
           None \<Rightarrow> (None, m1)
         | Some (Digest _ entries) \<Rightarrow> (Some (delta_for entries m1), m1)
         | Some (Delta _ rs) \<Rightarrow> (None, fold (\<lambda>r. snd \<circ> apply_gossip_record r) rs m1))"

definition gossip_tick :: "nat \<Rightarrow> MeshMembership \<Rightarrow> GossipMessage \<times> MeshMembership" where
  "gossip_tick now m = (let m1 = snd (update_local now id m) in (digest m1, m1))"

subsection \<open>The invariant\<close>

text \<open>
  Every entry sits under the id of its record, the table never lists the local runtime, and the
  local record carries the local id.
\<close>

definition mesh_inv :: "MeshMembership \<Rightarrow> bool" where
  "mesh_inv m \<longleftrightarrow>
     distinct (hkeys (peers m)) \<and> gr_runtime_id (local_record m) = local_runtime_id m \<and>
     (\<forall>r p. hget (peers m) r = Some p \<longrightarrow> gr_runtime_id (peer_record p) = r \<and> r \<noteq> local_runtime_id m)"

definition known :: "MeshMembership \<Rightarrow> runtime_id \<Rightarrow> GossipRecord option" where
  "known m x = (if x = local_runtime_id m then Some (local_record m) else map_option peer_record (hget (peers m) x))"

lemma mesh_inv_new: "mesh_inv (MeshMembership_new r)"
  by (simp add: mesh_inv_def MeshMembership_new_def)

lemma mesh_inv_put:
  assumes "mesh_inv m" "gr_runtime_id (peer_record p) = x" "x \<noteq> local_runtime_id m"
  shows "mesh_inv (m\<lparr>peers := hput x p (peers m)\<rparr>)"
  using assms unfolding mesh_inv_def by (auto simp del: map_of_eq_Some_iff split: if_splits)

lemma mesh_inv_peer:
  "mesh_inv m \<Longrightarrow> hget (peers m) x = Some p \<Longrightarrow> gr_runtime_id (peer_record p) = x \<and> x \<noteq> local_runtime_id m"
  by (simp add: mesh_inv_def del: map_of_eq_Some_iff)

lemma mesh_inv_apply: "mesh_inv m \<Longrightarrow> mesh_inv (snd (apply_gossip_record r m))"
  by (auto simp: apply_gossip_record_def Let_def simp del: map_of_eq_Some_iff
           intro!: mesh_inv_put split: option.split)

lemma mesh_inv_frame [simp]:
  "mesh_inv (m\<lparr>foreign_relay_rejections := n\<rparr>) = mesh_inv m"
  "mesh_inv (m\<lparr>stale_generation_rejections := n\<rparr>) = mesh_inv m"
  "mesh_inv (m\<lparr>expected_relay_pubkey := pk\<rparr>) = mesh_inv m"
  "mesh_inv (m\<lparr>phi_suspect_threshold := th\<rparr>) = mesh_inv m"
  "mesh_inv (m\<lparr>draining := d\<rparr>) = mesh_inv m"
  by (simp_all add: mesh_inv_def)

lemma mesh_inv_ready: "mesh_inv m \<Longrightarrow> mesh_inv (apply_ready_records sig_ok now rs m)"
  by (induction rs arbitrary: m) (simp_all add: mesh_inv_apply)

lemma mesh_inv_counters: "mesh_inv m \<Longrightarrow> mesh_inv (update_peer_counters x f m)"
  using mesh_inv_peer [of m x]
  by (auto simp: update_peer_counters_def simp del: map_of_eq_Some_iff intro!: mesh_inv_put split: option.split)

lemma mesh_inv_mark: "mesh_inv m \<Longrightarrow> mesh_inv (mark_connection_state x st m)"
  using mesh_inv_peer [of m x]
  by (auto simp: mark_connection_state_def simp del: map_of_eq_Some_iff intro!: mesh_inv_put split: option.split)

lemma mesh_inv_local:
  "mesh_inv m \<Longrightarrow> (\<And>r. gr_runtime_id (f r) = gr_runtime_id r) \<Longrightarrow> mesh_inv (snd (update_local now f m))"
  by (simp add: update_local_def Let_def mesh_inv_def del: map_of_eq_Some_iff)

inductive mesh_step :: "MeshMembership \<Rightarrow> MeshMembership \<Rightarrow> bool" where
  "mesh_step m (apply_ready_records sig_ok now rs m)"
| "mesh_step m (snd (apply_gossip_record r m))"
| "mesh_step m (snd (handle_gossip remote msg m))"
| "mesh_step m (snd (gossip_tick now m))"
| "mesh_step m (mark_connection_state x st m)"
| "(\<And>r. gr_runtime_id (f r) = gr_runtime_id r) \<Longrightarrow> mesh_step m (snd (update_local now f m))"
| "mesh_step m (begin_drain now m)"
| "mesh_step m (update_peer_counters x f m)"
| "mesh_step m (record_stale_generation_rejection rid m)"

definition mesh_start :: "MeshMembership \<Rightarrow> bool" where
  "mesh_start m \<longleftrightarrow> (\<exists>r pk th. m = MeshMembership_new r \<or> m = with_expected_relay_pubkey pk (MeshMembership_new r) \<or>
     m = with_phi_suspect_threshold th (with_expected_relay_pubkey pk (MeshMembership_new r)))"

lemma mesh_inv_fold: "mesh_inv m \<Longrightarrow> mesh_inv (fold (\<lambda>r. snd \<circ> apply_gossip_record r) rs m)"
  by (induction rs arbitrary: m) (simp_all add: mesh_inv_apply)

lemma mesh_inv_handle: "mesh_inv m \<Longrightarrow> mesh_inv (snd (handle_gossip remote msg m))"
  by (simp add: handle_gossip_def Let_def record_gossip_frame_received_def mesh_inv_counters mesh_inv_fold
           split: option.split GossipMessage.split)

lemma mesh_inv_stale: "mesh_inv m \<Longrightarrow> mesh_inv (record_stale_generation_rejection rid m)"
  by (auto simp: record_stale_generation_rejection_def Let_def split: option.split
           intro!: mesh_inv_counters)

lemma mesh_inv_drain: "mesh_inv m \<Longrightarrow> mesh_inv (begin_drain now m)"
  unfolding begin_drain_def by (rule mesh_inv_local) simp_all

lemma mesh_inv_tick: "mesh_inv m \<Longrightarrow> mesh_inv (snd (gossip_tick now m))"
  by (simp add: gossip_tick_def Let_def mesh_inv_local)

lemma mesh_inv_start: "mesh_start m \<Longrightarrow> mesh_inv m"
  by (auto simp: mesh_start_def with_expected_relay_pubkey_def with_phi_suspect_threshold_def
           intro: mesh_inv_new)

interpretation mesh: inv_machine mesh_start mesh_step mesh_inv
proof
  show "mesh_start s \<Longrightarrow> mesh_inv s" for s by (rule mesh_inv_start)
  show "mesh_inv s \<Longrightarrow> mesh_step s t \<Longrightarrow> mesh_inv t" for s t
    by (auto elim!: mesh_step.cases intro: mesh_inv_ready mesh_inv_apply mesh_inv_handle mesh_inv_tick mesh_inv_mark
          mesh_inv_local mesh_inv_drain mesh_inv_counters mesh_inv_stale)
qed

subsection \<open>What a table knows\<close>

lemma known_apply:
  assumes "mesh_inv m"
  shows "known (snd (apply_gossip_record r m)) x =
    (if x = gr_runtime_id r \<and> x \<noteq> local_runtime_id m \<and>
        (case known m x of None \<Rightarrow> True | Some old \<Rightarrow> gr_version old < gr_version r)
     then Some r else known m x)"
  by (auto simp: known_def apply_gossip_record_def Let_def simp del: map_of_eq_Some_iff split: option.split)

lemma local_apply [simp]:
  "local_runtime_id (snd (apply_gossip_record r m)) = local_runtime_id m"
  "local_record (snd (apply_gossip_record r m)) = local_record m"
  by (auto simp: apply_gossip_record_def Let_def split: option.split)

lemma known_counters [simp]:
  "known (update_peer_counters y f m) x = known m x"
  "local_runtime_id (update_peer_counters y f m) = local_runtime_id m"
  by (auto simp: known_def update_peer_counters_def simp del: map_of_eq_Some_iff split: option.split)









text \<open>One digest sent by \<open>a\<close>, the delta \<open>b\<close> answers with, and its application by \<open>a\<close>.\<close>

definition pull :: "MeshMembership \<Rightarrow> MeshMembership \<Rightarrow> MeshMembership" where
  "pull a b =
     (case fst (handle_gossip (local_runtime_id a) (digest a) b) of
        None \<Rightarrow> a
      | Some reply \<Rightarrow> snd (handle_gossip (local_runtime_id b) reply a))"



lemma local_fold [simp]:
  "local_runtime_id (fold (\<lambda>r. snd \<circ> apply_gossip_record r) rs m) = local_runtime_id m"
  by (induction rs arbitrary: m) simp_all

lemma local_pull [simp]: "local_runtime_id (pull a b) = local_runtime_id a"
  by (auto simp: pull_def handle_gossip_def Let_def record_gossip_frame_received_def
        split: option.split GossipMessage.split)

subsection \<open>Properties\<close>


lemma gossip_record_inv: "mesh_step\<^sup>*\<^sup>* (MeshMembership_new r) (snd (apply_gossip_record g (MeshMembership_new r)))"
  by (rule r_into_rtranclp) (rule mesh_step.intros(2))

definition demo_record :: "string \<Rightarrow> nat \<Rightarrow> GossipRecord" where
  "demo_record rid v = (GossipRecord_new 100 rid [''addr''] 1)\<lparr>gr_version := v\<rparr>"

definition demo_mesh :: "string \<Rightarrow> nat \<Rightarrow> GossipRecord \<Rightarrow> MeshMembership" where
  "demo_mesh rid v g = snd (apply_gossip_record g (MeshMembership_new (demo_record rid v)))"

lemma demo_mesh_reachable:
  "mesh_start (MeshMembership_new (demo_record rid v))"
  "mesh_step\<^sup>*\<^sup>* (MeshMembership_new (demo_record rid v)) (demo_mesh rid v g)"
  unfolding demo_mesh_def mesh_start_def by (blast, rule gossip_record_inv)


definition foreign :: "MeshMembership \<Rightarrow> ReadyRecord \<Rightarrow> bool" where
  "foreign m r \<longleftrightarrow> rr_runtime_id r \<noteq> local_runtime_id m \<and> expected_relay_pubkey m \<noteq> Some (rr_relay_pubkey r)"

definition admissible :: "(string \<Rightarrow> string \<Rightarrow> string \<Rightarrow> bool) \<Rightarrow> MeshMembership \<Rightarrow> ReadyRecord \<Rightarrow> bool" where
  "admissible sig_ok m r \<longleftrightarrow>
     rr_runtime_id r \<noteq> local_runtime_id m \<and> expected_relay_pubkey m = Some (rr_relay_pubkey r) \<and>
     verify_attestation sig_ok r"

lemma apply_gossip_fields [simp]:
  "expected_relay_pubkey (snd (apply_gossip_record r m)) = expected_relay_pubkey m"
  "foreign_relay_rejections (snd (apply_gossip_record r m)) = foreign_relay_rejections m"
  by (auto simp: apply_gossip_record_def Let_def split: option.split)

lemma record_of_ready_fields [simp]:
  "gr_runtime_id (record_of_ready now r) = rr_runtime_id r" "gr_version (record_of_ready now r) = 1"
  by (simp_all add: record_of_ready_def GossipRecord_new_def)

lemma known_ready:
  assumes "mesh_inv m"
  shows "known (apply_ready_records sig_ok now rs m) x = known m x \<or>
    (\<exists>r\<in>set rs. rr_runtime_id r = x \<and> admissible sig_ok m r \<and>
       known (apply_ready_records sig_ok now rs m) x = Some (record_of_ready now r) \<and>
       (\<forall>old. known m x = Some old \<longrightarrow> gr_version old < 1))"
  using assms
proof (induction rs arbitrary: m)
  case (Cons r rs)
  have frame: "known (m\<lparr>foreign_relay_rejections := n\<rparr>) x = known m x"
    "admissible sig_ok (m\<lparr>foreign_relay_rejections := n\<rparr>) q = admissible sig_ok m q" for n q
    by (simp_all add: known_def admissible_def)
  have adm: "admissible sig_ok (snd (apply_gossip_record g m)) q = admissible sig_ok m q" for g q
    by (simp add: admissible_def)
  show ?case
  proof (cases "admissible sig_ok m r")
    case False
    then have step: "apply_ready_records sig_ok now (r # rs) m =
        apply_ready_records sig_ok now rs
          (if foreign m r then m\<lparr>foreign_relay_rejections := (foreign_relay_rejections m + 1) mod 2 ^ 64\<rparr> else m)"
      by (auto simp: admissible_def foreign_def)
    show ?thesis
    proof (cases "foreign m r")
      case True
      let ?m = "m\<lparr>foreign_relay_rejections := (foreign_relay_rejections m + 1) mod 2 ^ 64\<rparr>"
      from Cons.IH [of ?m] Cons.prems True show ?thesis unfolding step frame by auto
    next
      case False
      with Cons.IH [of m] Cons.prems show ?thesis unfolding step by auto
    qed
  next
    case True
    let ?g = "record_of_ready now r"
    let ?m = "snd (apply_gossip_record ?g m)"
    have step: "apply_ready_records sig_ok now (r # rs) m = apply_ready_records sig_ok now rs ?m"
      using True by (simp add: admissible_def)
    note IH = Cons.IH [OF mesh_inv_apply [OF Cons.prems], of ?g, unfolded adm]
    note k = known_apply [OF Cons.prems, of ?g x]
    show ?thesis
    proof (cases "known ?m x = known m x")
      case True
      with IH show ?thesis unfolding step True by (metis list.set_intros(2))
    next
      case False
      with k have x: "x = rr_runtime_id r" "known ?m x = Some ?g" "\<forall>old. known m x = Some old \<longrightarrow> gr_version old < 1"
        by (auto split: if_splits option.splits)
      with IH have "known (apply_ready_records sig_ok now rs ?m) x = Some ?g" by auto
      with x \<open>admissible sig_ok m r\<close> show ?thesis unfolding step by auto
    qed
  qed
qed simp

lemma foreign_count:
  "foreign_relay_rejections (apply_ready_records sig_ok now rs m) mod 2 ^ 64 =
     (foreign_relay_rejections m + length (filter (foreign m) rs)) mod 2 ^ 64"
proof (induction rs arbitrary: m)
  case (Cons r rs)
  define m1 where "m1 =
      (if rr_runtime_id r = local_runtime_id m then m
       else if expected_relay_pubkey m \<noteq> Some (rr_relay_pubkey r)
       then m\<lparr>foreign_relay_rejections := (foreign_relay_rejections m + 1) mod 2 ^ 64\<rparr>
       else if \<not> verify_attestation sig_ok r then m
       else snd (apply_gossip_record (record_of_ready now r) m))"
  have step: "apply_ready_records sig_ok now (r # rs) m = apply_ready_records sig_ok now rs m1"
    by (simp only: apply_ready_records.simps m1_def)
  have f: "foreign m1 = foreign m" by (simp add: m1_def foreign_def fun_eq_iff)
  have c: "foreign_relay_rejections m1 =
      (if foreign m r then (foreign_relay_rejections m + 1) mod 2 ^ 64 else foreign_relay_rejections m)"
    by (simp add: m1_def foreign_def)
  show ?case
    unfolding step Cons.IH [of m1] f c by (simp add: mod_add_left_eq)
qed simp

text \<open>
  Only attested seeds enter the mesh: applying ready records changes what is known of a
  runtime only to a record whose seed names the expected relay key and carries a valid
  attestation of that very runtime id under it, and only where nothing newer was known; without
  an expected key nothing changes at all; and every seed of another relay is counted.
\<close>

theorem ready_records_attested:
  assumes "mesh_start m0" "mesh_step\<^sup>*\<^sup>* m0 m"
    and m'_def: "m' = apply_ready_records sig_ok now rs m"
  shows "(known m' x \<noteq> known m x \<longrightarrow>
      (\<exists>r\<in>set rs. rr_runtime_id r = x \<and> rr_runtime_pubkey r = x \<and> x \<noteq> local_runtime_id m \<and>
         expected_relay_pubkey m = Some (rr_relay_pubkey r) \<and>
         sig_ok (rr_relay_pubkey r) (rr_relay_sig r) (attestation_preimage x (rr_relay_pubkey r)) \<and>
         known m' x = Some (record_of_ready now r) \<and>
         (\<forall>old. known m x = Some old \<longrightarrow> gr_version old < 1))) \<and>
    (expected_relay_pubkey m = None \<longrightarrow> known m' x = known m x) \<and>
    foreign_relay_rejections m' mod 2 ^ 64 =
      (foreign_relay_rejections m + length (filter (foreign m) rs)) mod 2 ^ 64"
proof -
  have inv: "mesh_inv m" using mesh.reachable_inv [OF assms(1,2)] .
  have "known m' x = known m x \<or> (\<exists>r\<in>set rs. rr_runtime_id r = x \<and> admissible sig_ok m r \<and>
       known m' x = Some (record_of_ready now r) \<and> (\<forall>old. known m x = Some old \<longrightarrow> gr_version old < 1))"
    unfolding m'_def by (rule known_ready [OF inv])
  then show ?thesis
    unfolding m'_def foreign_count by (auto simp: admissible_def verify_attestation_def)
qed

definition demo_seed :: ReadyRecord where
  "demo_seed = \<lparr>rr_runtime_id = ''n'', rr_runtime_pubkey = ''n'', rr_relay_pubkey = ''relay'', rr_relay_sig = ''sig'',
     rr_endpoint_addrs = [], rr_proto_version = 1, rr_capabilities = []\<rparr>"

theorem ready_records_attested_witness:
  "\<exists>m'. m' = apply_ready_records (\<lambda>_ _ _. True) 7 [demo_seed]
      (with_expected_relay_pubkey ''relay'' (MeshMembership_new (demo_record ''l'' 1))) \<and>
     known m' ''n'' = Some (record_of_ready 7 demo_seed)"
proof -
  let ?m = "with_expected_relay_pubkey ''relay'' (MeshMembership_new (demo_record ''l'' 1))"
  have start: "mesh_start ?m" unfolding mesh_start_def by blast
  let ?m' = "apply_ready_records (\<lambda>_ _ _. True) 7 [demo_seed] ?m"
  have "known ?m' ''n'' \<noteq> known ?m ''n''"
    by (simp add: demo_seed_def with_expected_relay_pubkey_def MeshMembership_new_def demo_record_def
        GossipRecord_new_def verify_attestation_def apply_gossip_record_def record_of_ready_def known_def Let_def)
  with ready_records_attested [OF start rtranclp.rtrancl_refl refl, of "\<lambda>_ _ _. True" 7 "[demo_seed]" "''n''"]
  show ?thesis by (auto simp: demo_seed_def)
qed

subsection \<open>Routing hints\<close>

lemma phi_at_mono:
  assumes "phi_at t p = Some v" "t \<le> t'"
  shows "\<exists>v'. phi_at t' p = Some v' \<and> v \<le> v'"
proof -
  obtain prev where prev: "phi_last_heartbeat p = Some prev" "phi_samples p \<noteq> []" "prev \<le> t"
    "2 powr (- 52) < mean_secs p" "v = real (t - prev) / 1000 / mean_secs p / ln 10"
    using assms(1) by (auto simp: phi_at_def Let_def split: option.splits if_splits)
  have "(0::real) < 2 powr (- 52)" by simp
  then have "0 < mean_secs p" using prev(4) by linarith
  then have "real (t - prev) / 1000 / mean_secs p / ln 10 \<le> real (t' - prev) / 1000 / mean_secs p / ln 10"
    using assms(2) by (intro divide_right_mono) auto
  with prev assms(2) show ?thesis by (auto simp: phi_at_def Let_def)
qed

text \<open>
  The peers offered for routing are exactly the known peers that are not suspected, never
  the local runtime, and once a peer is suspected it stays so until another heartbeat arrives:
  with the same table a later look offers no more peers.
\<close>

theorem live_peers_exact:
  assumes "mesh_start m0" "mesh_step\<^sup>*\<^sup>* m0 m"
  shows "(x \<in> pi_runtime_id ` set (live_peers now m) \<longleftrightarrow>
      (\<exists>p. hget (peers m) x = Some p \<and> \<not> suspected now m p)) \<and>
    local_runtime_id m \<notin> pi_runtime_id ` set (live_peers now m) \<and>
    (now \<le> later \<longrightarrow> pi_runtime_id ` set (live_peers later m) \<subseteq> pi_runtime_id ` set (live_peers now m))"
proof -
  have inv: "mesh_inv m" using mesh.reachable_inv [OF assms] .
  then have d: "distinct (hkeys (peers m))" by (simp add: mesh_inv_def)
  have iff: "y \<in> pi_runtime_id ` set (live_peers t m) \<longleftrightarrow> (\<exists>p. hget (peers m) y = Some p \<and> \<not> suspected t m p)" for y t
    using mesh_inv_peer [OF inv] d by (force simp: live_peers_def)
  have "\<not> suspected later m p \<Longrightarrow> \<not> suspected now m p" if "now \<le> later" for p
    using phi_at_mono [OF _ that, of "peer_phi p"]
    by (force simp: suspected_def split: option.splits)
  then have "pi_runtime_id ` set (live_peers later m) \<subseteq> pi_runtime_id ` set (live_peers now m)" if "now \<le> later"
    using that iff by blast
  moreover have "local_runtime_id m \<notin> pi_runtime_id ` set (live_peers now m)"
    unfolding iff using mesh_inv_peer [OF inv] by blast
  ultimately show ?thesis using iff by blast
qed

theorem live_peers_exact_witness:
  "''c'' \<in> pi_runtime_id ` set (live_peers 900 (demo_mesh ''a'' 3 (demo_record ''c'' 4)))"
proof -
  have "\<exists>p. hget (peers (demo_mesh ''a'' 3 (demo_record ''c'' 4))) ''c'' = Some p \<and>
      \<not> suspected 900 (demo_mesh ''a'' 3 (demo_record ''c'' 4)) p"
    by (simp add: demo_mesh_def apply_gossip_record_def MeshMembership_new_def demo_record_def GossipRecord_new_def
        Let_def suspected_def phi_at_def phi_observe_def PhiAccrual_default_def PhiAccrual_new_def)
  then show ?thesis using live_peers_exact [OF demo_mesh_reachable, of "''c''" 900] by blast
qed

end
