(* ===== verification/Mesh_Wire.thy ===== *)
theory Mesh_Wire
  imports Bytes
begin

text \<open>
  The frames of the relay mesh (\<open>buzz-relay-mesh/src/wire.rs\<close>): the fenced tuple every
  session-bearing frame carries, datagrams, stream frames, and the version byte in front of an
  encoded frame. The \<open>postcard\<close> coding of the body is a parameter. A runtime id is its bytes.
\<close>

type_synonym RuntimeId = bytes

definition WIRE_VERSION :: byte where "WIRE_VERSION = 1"

record FencedHeader =
  fh_session_id :: uuid
  fh_generation :: nat
  fh_owner_runtime_id :: RuntimeId

datatype Profile = ReliableStream | RealtimeMedia | HuddleControl

record MeshDatagram =
  md_fenced :: FencedHeader
  md_seq :: "64 word"
  md_payload :: bytes

datatype StreamRole = Control | Session FencedHeader Profile

record StreamHello =
  sh_sender :: RuntimeId
  sh_role :: StreamRole

datatype GoodbyeReason = SessionEnded | Draining | StaleGeneration

datatype MeshStreamFrame =
    Hello StreamHello
  | Data FencedHeader bytes
  | Goodbye FencedHeader GoodbyeReason
  | Gossip bytes

text \<open>The errors of the mesh; what comes from \<open>postcard\<close> or \<open>redis\<close> keeps no detail.\<close>

datatype MeshError =
    EncodeError
  | DecodeError
  | UnknownWireVersion byte
  | EmptyFrame
  | FrameTooLarge nat nat
  | DatagramTooLarge nat nat
  | PeerNotConnected RuntimeId
  | PeerDraining RuntimeId
  | StaleGenerationError uuid nat nat
  | NoActiveLease uuid nat nat RuntimeId
  | OwnerMismatch uuid nat RuntimeId RuntimeId
  | FutureGeneration uuid nat nat
  | Disabled
  | Transport string
  | RedisError

text \<open>\<open>encode\<close> and \<open>decode\<close> around a serializer of the frame type.\<close>

definition wire_encode :: "('f \<Rightarrow> bytes option) \<Rightarrow> 'f \<Rightarrow> MeshError + bytes" where
  "wire_encode to_postcard frame =
     (case to_postcard frame of None \<Rightarrow> Inl EncodeError | Some body \<Rightarrow> Inr (WIRE_VERSION # body))"

definition wire_decode :: "(bytes \<Rightarrow> 'f option) \<Rightarrow> bytes \<Rightarrow> MeshError + 'f" where
  "wire_decode from_postcard bs =
     (case bs of
        [] \<Rightarrow> Inl EmptyFrame
      | v # rest \<Rightarrow>
          if v = WIRE_VERSION then
            (case from_postcard rest of None \<Rightarrow> Inl DecodeError | Some f \<Rightarrow> Inr f)
          else Inl (UnknownWireVersion v))"

lemma wire_roundtrip:
  "(\<And>f b. to_postcard f = Some b \<Longrightarrow> from_postcard b = Some f) \<Longrightarrow>
   wire_encode to_postcard f = Inr bs \<Longrightarrow> wire_decode from_postcard bs = Inr f"
  by (auto simp: wire_encode_def wire_decode_def split: option.splits)

end
