(* ===== verification/Mesh_Stream.thy ===== *)
theory Mesh_Stream
  imports Mesh_Wire
begin

text \<open>
  The framing of the relay mesh (\<open>buzz-relay-mesh/src/peer.rs\<close> and the stream types of its
  \<open>lib.rs\<close>): frames with a length prefix on a QUIC stream, datagrams checked against the size
  the connection allows, and the counters of a peer.

  The QUIC connection belongs to another package: its calls are a record of functions on the
  states of the two halves of a stream. What the code relies on is \<open>quic_ok\<close>: a write that
  succeeds appends its bytes, and a read of bytes that have arrived returns them in order. The
  texts of transport errors are not kept.
\<close>

subsection \<open>Framing\<close>

definition MAX_STREAM_FRAME :: nat where "MAX_STREAM_FRAME = 16 * 1024 * 1024"

datatype read_exact_result = ReadDone bytes | FinishedEarly nat | ReadFailed

record ('t, 'r) quic =
  q_write_all :: "'t \<Rightarrow> bytes \<Rightarrow> (unit + unit) \<times> 't"
  q_finish :: "'t \<Rightarrow> (unit + unit) \<times> 't"
  q_read_exact :: "'r \<Rightarrow> nat \<Rightarrow> read_exact_result \<times> 'r"

record postcard =
  pc_frame :: "MeshStreamFrame \<Rightarrow> bytes option"
  pc_unframe :: "bytes \<Rightarrow> MeshStreamFrame option"

text \<open>\<open>IrohSendHalf\<close>\<close>

definition send_frame ::
  "('t, 'r) quic \<Rightarrow> postcard \<Rightarrow> MeshStreamFrame \<Rightarrow> 't \<Rightarrow> (MeshError + unit) \<times> 't" where
  "send_frame Q P frame t =
     (case wire_encode (pc_frame P) frame of
        Inl e \<Rightarrow> (Inl e, t)
      | Inr bs \<Rightarrow>
          if length bs > MAX_STREAM_FRAME then (Inl (FrameTooLarge (length bs) MAX_STREAM_FRAME), t)
          else
            (case q_write_all Q t (u32_to_le (of_nat (length bs))) of
               (Inl _, t1) \<Rightarrow> (Inl (Transport []), t1)
             | (Inr _, t1) \<Rightarrow>
                 (case q_write_all Q t1 bs of
                    (Inl _, t2) \<Rightarrow> (Inl (Transport []), t2)
                  | (Inr _, t2) \<Rightarrow> (Inr (), t2))))"

definition send_finish :: "('t, 'r) quic \<Rightarrow> 't \<Rightarrow> (MeshError + unit) \<times> 't" where
  "send_finish Q t = (case q_finish Q t of (Inl _, t1) \<Rightarrow> (Inl (Transport []), t1) | (Inr _, t1) \<Rightarrow> (Inr (), t1))"

text \<open>\<open>IrohRecvHalf\<close>\<close>

definition recv_frame ::
  "('t, 'r) quic \<Rightarrow> postcard \<Rightarrow> 'r \<Rightarrow> (MeshError + MeshStreamFrame option) \<times> 'r" where
  "recv_frame Q P r =
     (case q_read_exact Q r 4 of
        (FinishedEarly n, r1) \<Rightarrow> if n = 0 then (Inr None, r1) else (Inl (Transport []), r1)
      | (ReadFailed, r1) \<Rightarrow> (Inl (Transport []), r1)
      | (ReadDone len_bytes, r1) \<Rightarrow>
          (let len = unat (u32_from_le len_bytes)
           in if len > MAX_STREAM_FRAME then (Inl (FrameTooLarge len MAX_STREAM_FRAME), r1)
              else
                (case q_read_exact Q r1 len of
                   (ReadDone bs, r2) \<Rightarrow> (map_sum id Some (wire_decode (pc_unframe P) bs), r2)
                 | (_, r2) \<Rightarrow> (Inl (Transport []), r2))))"

text \<open>\<open>encode_datagram_checked\<close>\<close>

definition encode_datagram_checked ::
  "(MeshDatagram \<Rightarrow> bytes option) \<Rightarrow> MeshDatagram \<Rightarrow> nat \<Rightarrow> MeshError + bytes" where
  "encode_datagram_checked to_postcard dgram max_datagram_size =
     (case wire_encode to_postcard dgram of
        Inl e \<Rightarrow> Inl e
      | Inr bs \<Rightarrow>
          if length bs > max_datagram_size then Inl (DatagramTooLarge (length bs) max_datagram_size) else Inr bs)"

subsection \<open>Peers\<close>

record PeerCounters =
  streams_opened :: "64 word"
  streams_accepted :: "64 word"
  datagrams_sent :: "64 word"
  datagrams_received :: "64 word"

definition PeerCounters_default :: PeerCounters where
  "PeerCounters_default = \<lparr>streams_opened = 0, streams_accepted = 0, datagrams_sent = 0, datagrams_received = 0\<rparr>"

text \<open>What the connection answers is an argument: a new stream, the size limit, a datagram.\<close>

definition open_bi :: "unit + 'm \<Rightarrow> PeerCounters \<Rightarrow> (MeshError + 'm) \<times> PeerCounters" where
  "open_bi opened c =
     (case opened of
        Inl _ \<Rightarrow> (Inl (Transport []), c)
      | Inr s \<Rightarrow> (Inr s, c\<lparr>streams_opened := streams_opened c + 1\<rparr>))"

definition accept_bi :: "unit + 'm \<Rightarrow> PeerCounters \<Rightarrow> (MeshError + 'm) \<times> PeerCounters" where
  "accept_bi accepted c =
     (case accepted of
        Inl _ \<Rightarrow> (Inl (Transport []), c)
      | Inr s \<Rightarrow> (Inr s, c\<lparr>streams_accepted := streams_accepted c + 1\<rparr>))"

definition peer_send_datagram ::
  "(MeshDatagram \<Rightarrow> bytes option) \<Rightarrow> nat option \<Rightarrow> (bytes \<Rightarrow> bool) \<Rightarrow> MeshDatagram \<Rightarrow> PeerCounters \<Rightarrow>
   (MeshError + bytes) \<times> PeerCounters" where
  "peer_send_datagram to_postcard max_size conn_sends dgram c =
     (case max_size of
        None \<Rightarrow> (Inl (Transport ''peer does not support QUIC datagrams''), c)
      | Some m \<Rightarrow>
          (case encode_datagram_checked to_postcard dgram m of
             Inl e \<Rightarrow> (Inl e, c)
           | Inr bs \<Rightarrow>
               if conn_sends bs then (Inr bs, c\<lparr>datagrams_sent := datagrams_sent c + 1\<rparr>)
               else (Inl (Transport []), c)))"

definition peer_recv_datagram ::
  "(bytes \<Rightarrow> MeshDatagram option) \<Rightarrow> unit + bytes \<Rightarrow> PeerCounters \<Rightarrow> (MeshError + MeshDatagram) \<times> PeerCounters" where
  "peer_recv_datagram from_postcard arrived c =
     (case arrived of
        Inl _ \<Rightarrow> (Inl (Transport []), c)
      | Inr bs \<Rightarrow>
          (case wire_decode from_postcard bs of
             Inl e \<Rightarrow> (Inl e, c)
           | Inr d \<Rightarrow> (Inr d, c\<lparr>datagrams_received := datagrams_received c + 1\<rparr>)))"

subsection \<open>What the framing relies on\<close>

text \<open>
  \<open>written\<close> is what the sending half has accepted so far, \<open>pending\<close> what has arrived at the
  receiving half and is not read yet.
\<close>

definition quic_ok :: "('t, 'r) quic \<Rightarrow> ('t \<Rightarrow> bytes) \<Rightarrow> ('r \<Rightarrow> bytes) \<Rightarrow> bool" where
  "quic_ok Q written pending \<longleftrightarrow>
     (\<forall>t bs t'. q_write_all Q t bs = (Inr (), t') \<longrightarrow> written t' = written t @ bs) \<and>
     (\<forall>r n. n \<le> length (pending r) \<longrightarrow>
       (\<exists>r'. q_read_exact Q r n = (ReadDone (take n (pending r)), r') \<and> pending r' = drop n (pending r)))"

definition postcard_ok :: "postcard \<Rightarrow> bool" where
  "postcard_ok P \<longleftrightarrow> (\<forall>f bs. pc_frame P f = Some bs \<longrightarrow> pc_unframe P bs = Some f)"

text \<open>The bytes a frame takes on the stream.\<close>

definition frame_bytes :: "postcard \<Rightarrow> MeshStreamFrame \<Rightarrow> bytes" where
  "frame_bytes P f =
     (case pc_frame P f of
        None \<Rightarrow> []
      | Some body \<Rightarrow> u32_to_le (of_nat (Suc (length body))) @ WIRE_VERSION # body)"

lemma send_frame_bytes:
  assumes "quic_ok Q written pending" "send_frame Q P f t = (Inr (), t')"
  shows "written t' = written t @ frame_bytes P f"
    and "\<exists>body. pc_frame P f = Some body \<and> Suc (length body) \<le> MAX_STREAM_FRAME"
  using assms by (auto simp: send_frame_def frame_bytes_def wire_encode_def quic_ok_def
      split: option.splits sum.splits prod.splits if_splits)

lemma unat_frame_len: "n \<le> MAX_STREAM_FRAME \<Longrightarrow> unat (of_nat n :: 32 word) = n"
  by (simp add: unat_of_nat MAX_STREAM_FRAME_def)

lemma recv_frame_bytes:
  assumes Q: "quic_ok Q written pending" and P: "postcard_ok P"
    and body: "pc_frame P f = Some body" "Suc (length body) \<le> MAX_STREAM_FRAME"
    and arrived: "pending r = frame_bytes P f @ rest"
  shows "\<exists>r'. recv_frame Q P r = (Inr (Some f), r') \<and> pending r' = rest"
proof -
  define len where "len = u32_to_le (of_nat (Suc (length body)))"
  have pr: "pending r = len @ WIRE_VERSION # body @ rest"
    using arrived body(1) by (simp add: frame_bytes_def len_def)
  obtain r1 where r1: "q_read_exact Q r 4 = (ReadDone len, r1)" "pending r1 = WIRE_VERSION # body @ rest"
    using Q pr unfolding quic_ok_def by (metis append_eq_conv_conj le_add1 length_append length_u32_to_le len_def)
  have n: "unat (u32_from_le len) = Suc (length body)"
    using unat_frame_len [OF body(2)] by (simp only: len_def u32_le_roundtrip)
  obtain r2 where r2: "q_read_exact Q r1 (Suc (length body)) = (ReadDone (WIRE_VERSION # body), r2)" "pending r2 = rest"
    using Q r1(2) unfolding quic_ok_def
    by (metis (no_types, lifting) append_Cons append_eq_conv_conj le_add1 length_Cons length_append)
  have "wire_decode (pc_unframe P) (WIRE_VERSION # body) = Inr f"
    using P body(1) by (simp add: wire_decode_def postcard_ok_def)
  then have "recv_frame Q P r = (Inr (Some f), r2)"
    using body(2) by (simp add: recv_frame_def r1(1) n r2(1) Let_def)
  with r2(2) show ?thesis by blast
qed

end
