(* ===== verification/Audio_Room.thy ===== *)
theory Audio_Room
  imports Mesh_Wire
begin

text \<open>
  Huddle audio in the relay: the room of one channel with its admission gate, its fan-out and
  its roster (\<open>buzz-relay/src/audio/room.rs\<close>), the registry of rooms, the generation floor and
  the delivery of media datagrams that arrive over the mesh (\<open>audio/mesh.rs\<close>) and the header of
  a media frame (\<open>audio/wire.rs\<close>).

  The room's mutex makes every operation one step. Rooms are shared (\<open>Arc\<close>): the registry holds
  references into a store of rooms. A bounded channel is the list of messages its receiver has
  not taken yet. A fresh \<open>peer_id\<close> is an argument of the two admissions.
\<close>

unbundle bit_operations_syntax

subsection \<open>Channels\<close>

record 'a mpsc =
  ch_buffer :: "'a list"
  ch_capacity :: nat
  ch_closed :: bool

definition channel :: "nat \<Rightarrow> 'a mpsc" where
  "channel n = \<lparr>ch_buffer = [], ch_capacity = n, ch_closed = False\<rparr>"

text \<open>\<open>try_send\<close>: whether the message was taken, and the channel afterwards.\<close>

definition try_send :: "'a \<Rightarrow> 'a mpsc \<Rightarrow> bool \<times> 'a mpsc" where
  "try_send x c =
     (if ch_closed c \<or> ch_capacity c \<le> length (ch_buffer c) then (False, c)
      else (True, c\<lparr>ch_buffer := ch_buffer c @ [x]\<rparr>))"

subsection \<open>Peers, rosters and the admission gate\<close>

datatype PeerCtrl = Json string | Close

record AudioPeer =
  ap_pubkey :: string
  ap_audio_tx :: "bytes mpsc"
  ap_ctrl_tx :: "PeerCtrl mpsc"
  ap_peer_index :: byte

definition AUDIO_CHANNEL_CAPACITY :: nat where "AUDIO_CHANNEL_CAPACITY = 8"
definition CTRL_CHANNEL_CAPACITY :: nat where "CTRL_CHANNEL_CAPACITY = 32"
definition MAX_PEERS_PER_ROOM :: nat where "MAX_PEERS_PER_ROOM = 25"

record RosterPeer =
  rp_pubkey :: string
  rp_peer_index :: byte

record RosterSnapshot =
  rs_revision :: "64 word"
  rs_peers :: "RosterPeer list"

record RosterDelta =
  rd_revision :: "64 word"
  rd_joined :: "RosterPeer option"
  rd_left :: "RosterPeer option"

datatype AdmissionError = Ended | Full | VersionMismatch byte byte

record AdmissionGuard =
  ag_next_fresh :: byte
  ag_free :: "byte list"
  ag_ended :: bool
  ag_pinned_version :: "byte option"
  ag_roster_revision :: "64 word"

definition AdmissionGuard_new :: AdmissionGuard where
  "AdmissionGuard_new = \<lparr>ag_next_fresh = 0, ag_free = [], ag_ended = False,
     ag_pinned_version = None, ag_roster_revision = 0\<rparr>"

text \<open>\<open>free\<close> is a stack: \<open>release\<close> pushes at its end, \<open>alloc\<close> pops from there.\<close>

definition alloc :: "AdmissionGuard \<Rightarrow> byte option \<times> AdmissionGuard" where
  "alloc g =
     (if ag_free g \<noteq> [] then (Some (last (ag_free g)), g\<lparr>ag_free := butlast (ag_free g)\<rparr>)
      else if ag_next_fresh g = 255 then (None, g)
      else (Some (ag_next_fresh g), g\<lparr>ag_next_fresh := ag_next_fresh g + 1\<rparr>))"

definition release_index :: "byte \<Rightarrow> AdmissionGuard \<Rightarrow> AdmissionGuard" where
  "release_index i g = g\<lparr>ag_free := ag_free g @ [i]\<rparr>"

subsection \<open>Rooms\<close>

text \<open>
  \<open>rm_poisoned\<close> says that a thread panicked while it held the lock: then \<open>lock\<close> fails.
  \<open>rm_roster_sent\<close> is what was sent on the roster channel, oldest first.
\<close>

record Room =
  rm_community_id :: uuid
  rm_channel_id :: uuid
  rm_peers :: "(uuid, AudioPeer) hmap"
  rm_guard :: AdmissionGuard
  rm_poisoned :: bool
  rm_roster_sent :: "RosterDelta list"

definition Room_new :: "uuid \<Rightarrow> uuid \<Rightarrow> Room" where
  "Room_new community channel_id =
     \<lparr>rm_community_id = community, rm_channel_id = channel_id, rm_peers = [],
      rm_guard = AdmissionGuard_new, rm_poisoned = False, rm_roster_sent = []\<rparr>"

definition mark_ended :: "Room \<Rightarrow> bool \<times> Room" where
  "mark_ended r =
     (if rm_poisoned r then (False, r)
      else (rm_peers r = [], r\<lparr>rm_guard := (rm_guard r)\<lparr>ag_ended := True\<rparr>\<rparr>))"

definition clear_ended :: "Room \<Rightarrow> Room" where
  "clear_ended r =
     (if rm_poisoned r then r else r\<lparr>rm_guard := (rm_guard r)\<lparr>ag_ended := False\<rparr>\<rparr>)"

text \<open>The common tail of the two admissions: insert the peer and publish the delta.\<close>

definition new_peer :: "string \<Rightarrow> byte \<Rightarrow> AudioPeer" where
  "new_peer pubkey i =
     \<lparr>ap_pubkey = pubkey, ap_audio_tx = channel AUDIO_CHANNEL_CAPACITY,
      ap_ctrl_tx = channel CTRL_CHANNEL_CAPACITY, ap_peer_index = i\<rparr>"

definition publish :: "RosterPeer option \<Rightarrow> RosterPeer option \<Rightarrow> Room \<Rightarrow> Room" where
  "publish joined left r =
     (let rev = ag_roster_revision (rm_guard r) + 1
      in r\<lparr>rm_guard := (rm_guard r)\<lparr>ag_roster_revision := rev\<rparr>,
           rm_roster_sent := rm_roster_sent r @ [\<lparr>rd_revision = rev, rd_joined = joined, rd_left = left\<rparr>]\<rparr>)"

definition admit :: "uuid \<Rightarrow> string \<Rightarrow> byte \<Rightarrow> AdmissionGuard \<Rightarrow> Room \<Rightarrow> Room" where
  "admit peer_id pubkey i g r =
     publish (Some \<lparr>rp_pubkey = pubkey, rp_peer_index = i\<rparr>) None
       (r\<lparr>rm_guard := g, rm_peers := hput peer_id (new_peer pubkey i) (rm_peers r)\<rparr>)"

definition pin :: "byte \<Rightarrow> AdmissionGuard \<Rightarrow> AdmissionGuard" where
  "pin v g = (case ag_pinned_version g of
     None \<Rightarrow> g\<lparr>ag_pinned_version := Some v\<rparr> | Some _ \<Rightarrow> g)"

definition version_conflict :: "byte \<Rightarrow> AdmissionGuard \<Rightarrow> AdmissionError option" where
  "version_conflict requested g =
     (case ag_pinned_version g of
        Some pinned \<Rightarrow> if pinned \<noteq> requested then Some (VersionMismatch pinned requested) else None
      | None \<Rightarrow> None)"

definition add_peer ::
  "uuid \<Rightarrow> string \<Rightarrow> byte \<Rightarrow> Room \<Rightarrow> (AdmissionError + (uuid \<times> byte)) \<times> Room" where
  "add_peer peer_id pubkey requested r =
     (let g = rm_guard r
      in if rm_poisoned r then (Inl Ended, r)
         else if ag_ended g then (Inl Ended, r)
         else if MAX_PEERS_PER_ROOM \<le> length (rm_peers r) then (Inl Full, r)
         else case version_conflict requested g of
             Some e \<Rightarrow> (Inl e, r)
           | None \<Rightarrow>
               (case alloc g of
                  (None, _) \<Rightarrow> (Inl Full, r)
                | (Some i, g') \<Rightarrow> (Inr (peer_id, i), admit peer_id pubkey i (pin requested g') r)))"

definition add_peer_at_index ::
  "uuid \<Rightarrow> string \<Rightarrow> byte \<Rightarrow> byte \<Rightarrow> Room \<Rightarrow> (AdmissionError + uuid) \<times> Room" where
  "add_peer_at_index peer_id pubkey requested i r =
     (let g = rm_guard r
      in if rm_poisoned r then (Inl Ended, r)
         else if ag_ended g then (Inl Ended, r)
         else if MAX_PEERS_PER_ROOM \<le> length (rm_peers r) \<or>
                 list_ex (\<lambda>(_, p). ap_peer_index p = i) (rm_peers r)
         then (Inl Full, r)
         else case version_conflict requested g of
             Some e \<Rightarrow> (Inl e, r)
           | None \<Rightarrow>
               (let g' = pin requested g;
                    g' = g'\<lparr>ag_free := filter (\<lambda>idx. idx \<noteq> i) (ag_free g')\<rparr>;
                    g' = (if ag_next_fresh g' \<le> i then g'\<lparr>ag_next_fresh := saturating_add8 i 1\<rparr> else g')
                in (Inr peer_id, admit peer_id pubkey i g' r)))"

text \<open>Taking a peer out recycles its index and publishes its leaving.\<close>

definition depart :: "uuid \<Rightarrow> AudioPeer \<Rightarrow> Room \<Rightarrow> Room" where
  "depart peer_id p r =
     publish None (Some \<lparr>rp_pubkey = ap_pubkey p, rp_peer_index = ap_peer_index p\<rparr>)
       (r\<lparr>rm_peers := hdel peer_id (rm_peers r), rm_guard := release_index (ap_peer_index p) (rm_guard r)\<rparr>)"

definition remove_peer :: "uuid \<Rightarrow> Room \<Rightarrow> Room" where
  "remove_peer peer_id r =
     (if rm_poisoned r then r
      else case hget (rm_peers r) peer_id of None \<Rightarrow> r | Some p \<Rightarrow> depart peer_id p r)"

definition remove_peer_and_check_ended :: "uuid \<Rightarrow> Room \<Rightarrow> (byte \<times> bool) option \<times> Room" where
  "remove_peer_and_check_ended peer_id r =
     (if rm_poisoned r then (None, r)
      else case hget (rm_peers r) peer_id of
          None \<Rightarrow> (None, r)
        | Some p \<Rightarrow>
            (let r' = depart peer_id p r;
                 should_end = (\<not> ag_ended (rm_guard r') \<and> rm_peers r' = []);
                 r' = (if should_end then r'\<lparr>rm_guard := (rm_guard r')\<lparr>ag_ended := True\<rparr>\<rparr> else r')
             in (Some (ap_peer_index p, should_end), r')))"

text \<open>The fan-outs: a frame or a control message is offered to the peers that a condition selects.\<close>

definition send_audio :: "bytes \<Rightarrow> AudioPeer \<Rightarrow> AudioPeer" where
  "send_audio frame p = p\<lparr>ap_audio_tx := snd (try_send frame (ap_audio_tx p))\<rparr>"

definition broadcast_frame :: "uuid \<Rightarrow> bytes \<Rightarrow> Room \<Rightarrow> Room" where
  "broadcast_frame sender_id frame r =
     (case hget (rm_peers r) sender_id of
        None \<Rightarrow> r
      | Some s \<Rightarrow>
          (let prefixed = [ap_peer_index s] @ frame
           in r\<lparr>rm_peers := map (\<lambda>(k, p). if k = sender_id then (k, p) else (k, send_audio prefixed p))
                  (rm_peers r)\<rparr>))"

definition deliver_prefixed :: "byte \<Rightarrow> bytes \<Rightarrow> Room \<Rightarrow> Room" where
  "deliver_prefixed author prefixed r =
     r\<lparr>rm_peers := map (\<lambda>(k, p). if ap_peer_index p = author then (k, p) else (k, send_audio prefixed p))
         (rm_peers r)\<rparr>"

definition broadcast_control :: "string \<Rightarrow> Room \<Rightarrow> Room" where
  "broadcast_control json r =
     r\<lparr>rm_peers := map (\<lambda>(k, p). (k, p\<lparr>ap_ctrl_tx := snd (try_send (Json json) (ap_ctrl_tx p))\<rparr>)) (rm_peers r)\<rparr>"

definition roster_snapshot :: "Room \<Rightarrow> RosterSnapshot" where
  "roster_snapshot r =
     \<lparr>rs_revision = ag_roster_revision (rm_guard r),
      rs_peers = sort_key rp_peer_index
        (map (\<lambda>(_, p). \<lparr>rp_pubkey = ap_pubkey p, rp_peer_index = ap_peer_index p\<rparr>) (rm_peers r))\<rparr>"

definition peer_pubkeys :: "Room \<Rightarrow> (string \<times> byte) list" where
  "peer_pubkeys r = map (\<lambda>(_, p). (ap_pubkey p, ap_peer_index p)) (rm_peers r)"

definition room_is_empty :: "Room \<Rightarrow> bool" where "room_is_empty r \<longleftrightarrow> rm_peers r = []"

subsection \<open>The invariant of a room\<close>

definition indexes :: "Room \<Rightarrow> byte list" where
  "indexes r = map (\<lambda>(_, p). ap_peer_index p) (rm_peers r)"

definition roster :: "Room \<Rightarrow> byte \<Rightarrow> string option" where
  "roster r = map_of (map (\<lambda>(_, p). (ap_peer_index p, ap_pubkey p)) (rm_peers r))"

text \<open>
  Seats: peer ids and indexes are unique, the room is not overfull, no index is both taken and
  free, and whatever the allocator takes fresh was never handed out (255 is never fresh).
\<close>

definition seats_ok :: "Room \<Rightarrow> bool" where
  "seats_ok r \<longleftrightarrow>
     distinct (hkeys (rm_peers r)) \<and> distinct (indexes r) \<and> length (rm_peers r) \<le> MAX_PEERS_PER_ROOM \<and>
     distinct (ag_free (rm_guard r)) \<and> set (ag_free (rm_guard r)) \<inter> set (indexes r) = {} \<and>
     (\<forall>i \<in> set (ag_free (rm_guard r)) \<union> set (indexes r). i < ag_next_fresh (rm_guard r) \<or> i = 255) \<and>
     (rm_peers r \<noteq> [] \<longrightarrow> ag_pinned_version (rm_guard r) \<noteq> None)"

text \<open>What a delta means for a copy of the roster, and that the deltas sent make up the roster.\<close>

definition apply_delta :: "RosterDelta \<Rightarrow> (byte \<Rightarrow> string option) \<Rightarrow> byte \<Rightarrow> string option" where
  "apply_delta d m =
     (let m = (case rd_left d of None \<Rightarrow> m | Some p \<Rightarrow> m(rp_peer_index p := None))
      in case rd_joined d of None \<Rightarrow> m | Some p \<Rightarrow> m(rp_peer_index p \<mapsto> rp_pubkey p))"

definition log_ok :: "Room \<Rightarrow> bool" where
  "log_ok r \<longleftrightarrow>
     fold apply_delta (rm_roster_sent r) (\<lambda>_. None) = roster r \<and>
     ag_roster_revision (rm_guard r) = of_nat (length (rm_roster_sent r)) \<and>
     (\<forall>k<length (rm_roster_sent r). rd_revision (rm_roster_sent r ! k) = of_nat (Suc k))"

definition room_inv :: "Room \<Rightarrow> bool" where
  "room_inv r \<longleftrightarrow> seats_ok r \<and> log_ok r"

lemma hput_fresh: "k \<notin> set (hkeys m) \<Longrightarrow> hput k v m = m @ [(k, v)]"
  by (induction m) auto

lemma roster_iff:
  assumes "distinct (indexes r)"
  shows "roster r i = Some pk \<longleftrightarrow> (\<exists>k p. (k, p) \<in> set (rm_peers r) \<and> ap_peer_index p = i \<and> ap_pubkey p = pk)"
proof -
  have "distinct (map fst (map (\<lambda>(_, p). (ap_peer_index p, ap_pubkey p)) (rm_peers r)))"
    using assms by (simp add: indexes_def comp_def case_prod_unfold)
  from map_of_eq_Some_iff [OF this] show ?thesis unfolding roster_def by force
qed

lemma roster_append:
  assumes "i \<notin> set (map (\<lambda>(_, p). ap_peer_index p) ps)" "ap_peer_index p = i"
  shows "map_of (map (\<lambda>(_, p). (ap_peer_index p, ap_pubkey p)) (ps @ [(k, p)])) =
    (map_of (map (\<lambda>(_, p). (ap_peer_index p, ap_pubkey p)) ps))(i \<mapsto> ap_pubkey p)"
proof -
  have "i \<notin> dom (map_of (map (\<lambda>(_, p). (ap_peer_index p, ap_pubkey p)) ps))"
    using assms by (auto simp: dom_map_of_conv_image_fst)
  then show ?thesis using assms(2)
    by (auto simp: map_of_append map_add_def fun_eq_iff split: option.splits)
qed

lemma distinct_imageD: "distinct (map f xs) \<Longrightarrow> x \<in> set xs \<Longrightarrow> y \<in> set xs \<Longrightarrow> f x = f y \<Longrightarrow> x = y"
  by (meson distinct_map inj_onD)

lemma roster_delete:
  assumes "distinct (indexes r)" "distinct (hkeys (rm_peers r))" "hget (rm_peers r) k = Some p"
  shows "roster (r\<lparr>rm_peers := hdel k (rm_peers r)\<rparr>) = (roster r)(ap_peer_index p := None)"
proof
  fix i
  let ?r = "r\<lparr>rm_peers := hdel k (rm_peers r)\<rparr>"
  have sub: "set (hdel k (rm_peers r)) = {kv \<in> set (rm_peers r). fst kv \<noteq> k}"
    by (auto simp: AList.delete_eq)
  have d: "distinct (indexes ?r)"
    using assms(1) by (auto simp: indexes_def AList.delete_eq distinct_map intro: inj_on_subset)
  have kp: "(k, p) \<in> set (rm_peers r)" using assms(3) by (rule map_of_SomeD)
  have out: "ap_peer_index q \<noteq> ap_peer_index p" if "(k', q) \<in> set (rm_peers r)" "k' \<noteq> k" for k' q
    using distinct_imageD [OF assms(1) [unfolded indexes_def] that(1) kp] that(2) by auto
  have same: "q = p" if "(k, q) \<in> set (rm_peers r)" for q
    using assms(2,3) that by simp
  have "roster ?r i = Some pk \<longleftrightarrow> ((roster r)(ap_peer_index p := None)) i = Some pk" for pk
  proof (cases "i = ap_peer_index p")
    case True
    then show ?thesis using out by (auto simp: roster_iff [OF d] sub)
  next
    case False
    then show ?thesis using same
      by (auto simp: roster_iff [OF d] roster_iff [OF assms(1)] sub)
  qed
  then show "roster ?r i = ((roster r)(ap_peer_index p := None)) i" by (metis not_Some_eq)
qed

text \<open>The allocator hands out an index nobody has, and keeps its bookkeeping.\<close>

definition gate_ok :: "AdmissionGuard \<Rightarrow> byte set \<Rightarrow> bool" where
  "gate_ok g used \<longleftrightarrow>
     distinct (ag_free g) \<and> set (ag_free g) \<inter> used = {} \<and>
     (\<forall>i \<in> set (ag_free g) \<union> used. i < ag_next_fresh g \<or> i = 255)"

lemma seats_ok_gate:
  "seats_ok r \<longleftrightarrow> distinct (hkeys (rm_peers r)) \<and> distinct (indexes r) \<and>
     length (rm_peers r) \<le> MAX_PEERS_PER_ROOM \<and> gate_ok (rm_guard r) (set (indexes r)) \<and>
     (rm_peers r \<noteq> [] \<longrightarrow> ag_pinned_version (rm_guard r) \<noteq> None)"
  unfolding seats_ok_def gate_ok_def by blast

lemma alloc_gate:
  assumes "gate_ok g used" "alloc g = (Some i, g')"
  shows "i \<notin> used" "gate_ok g' (insert i used)"
proof -
  have "i \<notin> used \<and> gate_ok g' (insert i used)"
  proof (cases "ag_free g = []")
    case True
    then have i: "i = ag_next_fresh g" "ag_next_fresh g \<noteq> 255" "g' = g\<lparr>ag_next_fresh := ag_next_fresh g + 1\<rparr>"
      using assms(2) by (auto simp: alloc_def split: if_splits)
    then have "j < i + 1" if "j < i \<or> j = i" for j
      using that unat_Suc_byte [of i] by (auto simp: byte_less_iff)
    with i True assms(1) show ?thesis by (auto simp: gate_ok_def)
  next
    case False
    then obtain fs where fs: "ag_free g = fs @ [i]" "g' = g\<lparr>ag_free := fs\<rparr>"
      using assms(2) by (metis alloc_def append_butlast_last_id option.inject prod.inject)
    with assms(1) show ?thesis by (auto simp: gate_ok_def)
  qed
  then show "i \<notin> used" "gate_ok g' (insert i used)" by blast+
qed

lemma alloc_fields:
  "alloc g = (x, g') \<Longrightarrow> ag_pinned_version g' = ag_pinned_version g"
  "alloc g = (x, g') \<Longrightarrow> ag_roster_revision g' = ag_roster_revision g"
  "alloc g = (x, g') \<Longrightarrow> ag_ended g' = ag_ended g"
  by (auto simp: alloc_def split: if_splits)

lemma pin_fields [simp]:
  "ag_roster_revision (pin v g) = ag_roster_revision g" "ag_next_fresh (pin v g) = ag_next_fresh g"
  "ag_free (pin v g) = ag_free g" "ag_ended (pin v g) = ag_ended g" "ag_pinned_version (pin v g) \<noteq> None"
  by (simp_all add: pin_def split: option.splits)

lemma gate_pin [simp]: "gate_ok (pin v g) used = gate_ok g used"
  by (simp add: gate_ok_def)

lemma gate_reserve:
  fixes i :: byte
  assumes "gate_ok g used"
  defines "h \<equiv> g\<lparr>ag_free := filter (\<lambda>j. j \<noteq> i) (ag_free g)\<rparr>"
  shows "gate_ok (if ag_next_fresh h \<le> i then h\<lparr>ag_next_fresh := saturating_add8 i 1\<rparr> else h) (insert i used)"
proof -
  have "j < saturating_add8 i 1 \<or> j = 255" if "ag_next_fresh g \<le> i" "j < ag_next_fresh g \<or> j = i" for j
  proof -
    have "j \<le> i" using that by auto
    then have "unat j \<le> unat i" by (simp add: word_le_nat_alt)
    then show ?thesis using saturating_add8_1 [of i] unat_byte_le [of j] byte_255_iff [of j]
      by (auto simp: byte_less_iff)
  qed
  with assms(1) show ?thesis unfolding h_def gate_ok_def by (auto simp: not_le)
qed

lemma gate_release:
  assumes "gate_ok g (insert i used)" "i \<notin> used"
  shows "gate_ok (release_index i g) used"
  using assms by (auto simp: gate_ok_def release_index_def)

lemma publish_fields [simp]:
  "rm_peers (publish a b r) = rm_peers r" "indexes (publish a b r) = indexes r" "roster (publish a b r) = roster r"
  "rm_poisoned (publish a b r) = rm_poisoned r" "ag_ended (rm_guard (publish a b r)) = ag_ended (rm_guard r)"
  "ag_pinned_version (rm_guard (publish a b r)) = ag_pinned_version (rm_guard r)"
  "ag_free (rm_guard (publish a b r)) = ag_free (rm_guard r)"
  "ag_next_fresh (rm_guard (publish a b r)) = ag_next_fresh (rm_guard r)"
  "gate_ok (rm_guard (publish a b r)) used = gate_ok (rm_guard r) used"
  by (simp_all add: publish_def Let_def indexes_def roster_def gate_ok_def)

lemma log_ok_publish:
  assumes "fold apply_delta (rm_roster_sent r) (\<lambda>_. None) = m"
    and "ag_roster_revision (rm_guard r) = of_nat (length (rm_roster_sent r))"
    and "\<forall>k<length (rm_roster_sent r). rd_revision (rm_roster_sent r ! k) = of_nat (Suc k)"
    and "apply_delta \<lparr>rd_revision = ag_roster_revision (rm_guard r) + 1, rd_joined = a, rd_left = b\<rparr> m = roster r"
  shows "log_ok (publish a b r)"
  unfolding log_ok_def publish_fields
  using assms by (auto simp: publish_def Let_def nth_append less_Suc_eq)

lemma admit_inv:
  assumes "room_inv r" "peer_id \<notin> set (hkeys (rm_peers r))" "i \<notin> set (indexes r)"
    and "length (rm_peers r) < MAX_PEERS_PER_ROOM" "gate_ok g' (insert i (set (indexes r)))"
    and "ag_pinned_version g' \<noteq> None" "ag_roster_revision g' = ag_roster_revision (rm_guard r)"
  shows "room_inv (admit peer_id pubkey i g' r)"
proof -
  let ?r = "r\<lparr>rm_guard := g', rm_peers := hput peer_id (new_peer pubkey i) (rm_peers r)\<rparr>"
  have peers: "rm_peers ?r = rm_peers r @ [(peer_id, new_peer pubkey i)]"
    by (simp add: hput_fresh [OF assms(2)])
  have idx: "indexes ?r = indexes r @ [i]" unfolding indexes_def peers by (simp add: new_peer_def)
  have "roster ?r = (roster r)(i \<mapsto> pubkey)"
    unfolding roster_def peers using assms(3)
    by (subst roster_append) (auto simp: new_peer_def indexes_def)
  then have "log_ok (admit peer_id pubkey i g' r)"
    unfolding admit_def using assms(1,7)
    by (intro log_ok_publish [where m = "roster r"]) (auto simp: room_inv_def log_ok_def apply_delta_def)
  moreover have "seats_ok (admit peer_id pubkey i g' r)"
    unfolding admit_def seats_ok_gate publish_fields idx peers
    using assms by (auto simp: room_inv_def seats_ok_gate)
  ultimately show ?thesis by (simp add: room_inv_def)
qed

lemma depart_inv:
  assumes "room_inv r" "hget (rm_peers r) k = Some p"
  shows "room_inv (depart k p r)"
proof -
  let ?r = "r\<lparr>rm_peers := hdel k (rm_peers r), rm_guard := release_index (ap_peer_index p) (rm_guard r)\<rparr>"
  have inv: "distinct (hkeys (rm_peers r))" "distinct (indexes r)" "gate_ok (rm_guard r) (set (indexes r))"
    "length (rm_peers r) \<le> MAX_PEERS_PER_ROOM" "rm_peers r \<noteq> [] \<Longrightarrow> ag_pinned_version (rm_guard r) \<noteq> None"
    using assms(1) by (simp_all add: room_inv_def seats_ok_gate)
  have pinned: "ag_pinned_version (rm_guard r) \<noteq> None" using inv(5) assms(2) by (cases "rm_peers r") auto
  have kp: "(k, p) \<in> set (rm_peers r)" using assms(2) by (rule map_of_SomeD)
  have del: "rm_peers ?r = filter (\<lambda>kv. fst kv \<noteq> k) (rm_peers r)" by (auto simp: AList.delete_eq intro!: filter_cong)
  have idx: "set (indexes r) = insert (ap_peer_index p) (set (indexes ?r))" and out: "ap_peer_index p \<notin> set (indexes ?r)"
    and d: "distinct (indexes ?r)"
  proof -
    have same: "q = p" if "(k, q) \<in> set (rm_peers r)" for q using inv(1) assms(2) that by simp
    have out: "ap_peer_index q \<noteq> ap_peer_index p" if "(k', q) \<in> set (rm_peers r)" "k' \<noteq> k" for k' q
      using distinct_imageD [OF inv(2) [unfolded indexes_def] that(1) kp] that(2) by auto
    have mem: "j \<in> set (indexes ?r) \<longleftrightarrow> (\<exists>k' q. (k', q) \<in> set (rm_peers r) \<and> k' \<noteq> k \<and> j = ap_peer_index q)"
      "j \<in> set (indexes r) \<longleftrightarrow> (\<exists>k' q. (k', q) \<in> set (rm_peers r) \<and> j = ap_peer_index q)" for j
      unfolding indexes_def del by (force simp: image_iff)+
    show "ap_peer_index p \<notin> set (indexes ?r)" unfolding mem(1) using out by metis
    show "set (indexes r) = insert (ap_peer_index p) (set (indexes ?r))"
    proof (rule set_eqI)
      show "j \<in> set (indexes r) \<longleftrightarrow> j \<in> insert (ap_peer_index p) (set (indexes ?r))" for j
        unfolding insert_iff mem using kp same by metis
    qed
    show "distinct (indexes ?r)"
      using inv(2) unfolding indexes_def del by (auto simp: distinct_map intro: inj_on_subset)
  qed
  have ros: "roster ?r = (roster r)(ap_peer_index p := None)"
    using roster_delete [OF inv(2,1) assms(2)] by (simp add: roster_def)
  have "log_ok (depart k p r)"
    unfolding depart_def using assms(1) ros
    by (intro log_ok_publish [where m = "roster r"])
       (auto simp: room_inv_def log_ok_def apply_delta_def release_index_def)
  moreover have "seats_ok (depart k p r)"
    unfolding depart_def seats_ok_gate publish_fields
    using inv(1-3) order_trans [OF length_delete_le inv(4)] pinned d out idx gate_release [of "rm_guard r" "ap_peer_index p" "set (indexes ?r)"]
    by (auto simp: release_index_def)
  ultimately show ?thesis by (simp add: room_inv_def)
qed

lemma add_peer_cases:
  obtains (refused) e where "add_peer peer_id pubkey v r = (Inl e, r)"
  | (admitted) i g' where "alloc (rm_guard r) = (Some i, g')"
      "add_peer peer_id pubkey v r = (Inr (peer_id, i), admit peer_id pubkey i (pin v g') r)"
      "length (rm_peers r) < MAX_PEERS_PER_ROOM" "\<not> ag_ended (rm_guard r)" "\<not> rm_poisoned r"
      "version_conflict v (rm_guard r) = None"
proof -
  have "(\<exists>e. add_peer peer_id pubkey v r = (Inl e, r)) \<or>
    (\<exists>i g'. alloc (rm_guard r) = (Some i, g') \<and>
      add_peer peer_id pubkey v r = (Inr (peer_id, i), admit peer_id pubkey i (pin v g') r) \<and>
      length (rm_peers r) < MAX_PEERS_PER_ROOM \<and> \<not> ag_ended (rm_guard r) \<and> \<not> rm_poisoned r \<and>
      version_conflict v (rm_guard r) = None)"
    by (simp add: add_peer_def Let_def not_le split: option.split prod.split)
  with that show thesis by blast
qed

lemma add_peer_inv [inv_intros]:
  assumes "room_inv r" "peer_id \<notin> set (hkeys (rm_peers r))"
  shows "room_inv (snd (add_peer peer_id pubkey v r))"
proof (cases rule: add_peer_cases [of peer_id pubkey v r])
  case (admitted i g')
  have "gate_ok (rm_guard r) (set (indexes r))" using assms(1) by (simp add: room_inv_def seats_ok_gate)
  from alloc_gate [OF this admitted(1)] show ?thesis
    unfolding admitted(2) snd_conv using alloc_fields(2) [OF admitted(1)] admitted(3) assms
    by (intro admit_inv) simp_all
qed (use assms in simp)

definition reserved :: "byte \<Rightarrow> AdmissionGuard \<Rightarrow> AdmissionGuard" where
  "reserved i g =
     (let h = g\<lparr>ag_free := filter (\<lambda>j. j \<noteq> i) (ag_free g)\<rparr>
      in if ag_next_fresh h \<le> i then h\<lparr>ag_next_fresh := saturating_add8 i 1\<rparr> else h)"

lemma reserved_fields [simp]:
  "ag_pinned_version (reserved i g) = ag_pinned_version g" "ag_ended (reserved i g) = ag_ended g"
  "ag_roster_revision (reserved i g) = ag_roster_revision g"
  by (simp_all add: reserved_def Let_def)

lemma add_peer_at_index_cases:
  obtains (refused) e where "add_peer_at_index peer_id pubkey v i r = (Inl e, r)"
  | (admitted) "add_peer_at_index peer_id pubkey v i r =
        (Inr peer_id, admit peer_id pubkey i (reserved i (pin v (rm_guard r))) r)"
      "i \<notin> set (indexes r)" "length (rm_peers r) < MAX_PEERS_PER_ROOM"
      "\<not> ag_ended (rm_guard r)" "\<not> rm_poisoned r" "version_conflict v (rm_guard r) = None"
proof -
  have idx: "list_ex (\<lambda>(_, p). ap_peer_index p = i) (rm_peers r) \<longleftrightarrow> i \<in> set (indexes r)"
    by (auto simp: list_ex_iff indexes_def)
  have "(\<exists>e. add_peer_at_index peer_id pubkey v i r = (Inl e, r)) \<or>
    add_peer_at_index peer_id pubkey v i r = (Inr peer_id, admit peer_id pubkey i (reserved i (pin v (rm_guard r))) r) \<and>
      i \<notin> set (indexes r) \<and> length (rm_peers r) < MAX_PEERS_PER_ROOM \<and> \<not> ag_ended (rm_guard r) \<and>
      \<not> rm_poisoned r \<and> version_conflict v (rm_guard r) = None"
    unfolding add_peer_at_index_def idx by (simp add: reserved_def Let_def not_le split: option.split)
  with that(1) that(2) show thesis by (elim disjE exE conjE) simp_all
qed

lemma add_peer_at_index_inv [inv_intros]:
  assumes "room_inv r" "peer_id \<notin> set (hkeys (rm_peers r))"
  shows "room_inv (snd (add_peer_at_index peer_id pubkey v i r))"
proof (cases rule: add_peer_at_index_cases [of peer_id pubkey v i r])
  case admitted
  have "gate_ok (pin v (rm_guard r)) (set (indexes r))"
    using assms(1) by (simp add: room_inv_def seats_ok_gate)
  from gate_reserve [OF this, of i] have "gate_ok (reserved i (pin v (rm_guard r))) (insert i (set (indexes r)))"
    by (simp add: reserved_def Let_def cong: if_cong)
  with admitted assms show ?thesis unfolding admitted(1) snd_conv by (intro admit_inv) simp_all
qed (use assms in simp)

lemma remove_peer_inv [inv_intros]: "room_inv r \<Longrightarrow> room_inv (remove_peer peer_id r)"
  by (simp add: remove_peer_def depart_inv split: option.split)

lemma room_inv_ended [simp]: "room_inv (r\<lparr>rm_guard := (rm_guard r)\<lparr>ag_ended := b\<rparr>\<rparr>) = room_inv r"
  by (simp add: room_inv_def seats_ok_def log_ok_def indexes_def roster_def)

lemma remove_peer_and_check_ended_inv [inv_intros]:
  "room_inv r \<Longrightarrow> room_inv (snd (remove_peer_and_check_ended peer_id r))"
  by (simp add: remove_peer_and_check_ended_def Let_def depart_inv split: option.split)

text \<open>
  The fan-outs, and the receivers at the other ends, change only what is in the channels.
\<close>

definition same_seats :: "(uuid \<Rightarrow> AudioPeer \<Rightarrow> AudioPeer) \<Rightarrow> bool" where
  "same_seats f \<longleftrightarrow> (\<forall>k p. ap_pubkey (f k p) = ap_pubkey p \<and> ap_peer_index (f k p) = ap_peer_index p)"

definition map_peers :: "(uuid \<Rightarrow> AudioPeer \<Rightarrow> AudioPeer) \<Rightarrow> Room \<Rightarrow> Room" where
  "map_peers f r = r\<lparr>rm_peers := map (\<lambda>(k, p). (k, f k p)) (rm_peers r)\<rparr>"

lemma map_peers_fields [simp]:
  "rm_guard (map_peers f r) = rm_guard r" "rm_poisoned (map_peers f r) = rm_poisoned r"
  "rm_roster_sent (map_peers f r) = rm_roster_sent r"
  "hkeys (rm_peers (map_peers f r)) = hkeys (rm_peers r)" "rm_peers (map_peers f r) = [] \<longleftrightarrow> rm_peers r = []"
  "length (rm_peers (map_peers f r)) = length (rm_peers r)"
  by (auto simp: map_peers_def)

lemma map_peers_view [simp]:
  assumes "same_seats f"
  shows "indexes (map_peers f r) = indexes r" "roster (map_peers f r) = roster r"
  using assms by (simp_all add: same_seats_def map_peers_def indexes_def roster_def case_prod_unfold comp_def)

lemma map_peers_inv [inv_intros]: "same_seats f \<Longrightarrow> room_inv r \<Longrightarrow> room_inv (map_peers f r)"
  unfolding room_inv_def seats_ok_def log_ok_def by simp

lemma fan_outs_map_peers:
  "broadcast_frame s frame r = r \<or> (\<exists>f. same_seats f \<and> broadcast_frame s frame r = map_peers f r)"
  "\<exists>f. same_seats f \<and> deliver_prefixed i frame r = map_peers f r"
  "\<exists>f. same_seats f \<and> broadcast_control json r = map_peers f r"
proof -
  have f: "same_seats (\<lambda>k p. if P k p then p else send_audio fr p)" for P :: "uuid \<Rightarrow> AudioPeer \<Rightarrow> bool" and fr
    by (simp add: same_seats_def send_audio_def)
  have e: "(\<lambda>(k, p). if P k p then (k, p) else (k, send_audio fr p)) =
      (\<lambda>(k, p). (k, if P k p then p else send_audio fr p))" for P :: "uuid \<Rightarrow> AudioPeer \<Rightarrow> bool" and fr
    by (auto simp: fun_eq_iff)
  show "broadcast_frame s frame r = r \<or> (\<exists>f. same_seats f \<and> broadcast_frame s frame r = map_peers f r)"
  proof (cases "hget (rm_peers r) s")
    case (Some p)
    have "same_seats (\<lambda>k q. if k = s then q else send_audio ([ap_peer_index p] @ frame) q) \<and> broadcast_frame s frame r =
        map_peers (\<lambda>k q. if k = s then q else send_audio ([ap_peer_index p] @ frame) q) r"
      using f [of "\<lambda>k _. k = s"] unfolding broadcast_frame_def Some option.case Let_def e map_peers_def by simp
    then have "\<exists>f. same_seats f \<and> broadcast_frame s frame r = map_peers f r"
      by (rule exI [of _ "\<lambda>k q. if k = s then q else send_audio ([ap_peer_index p] @ frame) q"])
    then show ?thesis by (rule disjI2)
  qed (simp add: broadcast_frame_def)
  show "\<exists>f. same_seats f \<and> deliver_prefixed i frame r = map_peers f r"
    unfolding deliver_prefixed_def e map_peers_def
    by (rule exI [of _ "\<lambda>k p. if ap_peer_index p = i then p else send_audio frame p"])
       (simp add: f [of "\<lambda>_ p. ap_peer_index p = i"])
  show "\<exists>f. same_seats f \<and> broadcast_control json r = map_peers f r"
    unfolding broadcast_control_def map_peers_def
    by (rule exI [of _ "\<lambda>_ p. p\<lparr>ap_ctrl_tx := snd (try_send (Json json) (ap_ctrl_tx p))\<rparr>"]) (simp add: same_seats_def)
qed

subsection \<open>Rooms as a state machine\<close>

inductive room_step :: "Room \<Rightarrow> Room \<Rightarrow> bool" where
  step_add: "peer_id \<notin> set (hkeys (rm_peers r)) \<Longrightarrow> room_step r (snd (add_peer peer_id pk v r))"
| step_add_at: "peer_id \<notin> set (hkeys (rm_peers r)) \<Longrightarrow> room_step r (snd (add_peer_at_index peer_id pk v i r))"
| step_remove: "room_step r (remove_peer peer_id r)"
| step_remove_check: "room_step r (snd (remove_peer_and_check_ended peer_id r))"
| step_mark: "room_step r (snd (mark_ended r))"
| step_clear: "room_step r (clear_ended r)"
| step_broadcast: "room_step r (broadcast_frame s frame r)"
| step_deliver: "room_step r (deliver_prefixed i frame r)"
| step_control: "room_step r (broadcast_control json r)"
| step_receivers: "same_seats f \<Longrightarrow> room_step r (map_peers f r)"
| step_panic: "room_step r (r\<lparr>rm_poisoned := True\<rparr>)"

inductive_cases room_stepE: "room_step r r'"

definition room_start :: "Room \<Rightarrow> bool" where
  "room_start r \<longleftrightarrow> (\<exists>community ch. r = Room_new community ch)"

lemma room_inv_fan_outs [inv_intros]:
  assumes "room_inv r"
  shows "room_inv (broadcast_frame s frame r)" "room_inv (deliver_prefixed i frame r)"
    "room_inv (broadcast_control json r)"
  using fan_outs_map_peers assms map_peers_inv by metis+

lemma room_inv_gate [inv_intros]:
  assumes "room_inv r"
  shows "room_inv (snd (mark_ended r))" "room_inv (clear_ended r)" "room_inv (r\<lparr>rm_poisoned := True\<rparr>)"
  using assms by (simp_all add: mark_ended_def clear_ended_def)
    (simp add: room_inv_def seats_ok_def log_ok_def indexes_def roster_def)

lemma room_step_inv: "room_inv r \<Longrightarrow> room_step r r' \<Longrightarrow> room_inv r'"
  by (erule room_stepE) (auto intro: inv_intros simp del: list.set_map)

interpretation room: inv_machine room_start room_step room_inv
proof
  show "room_inv r" if "room_start r" for r
    using that by (auto simp: room_start_def Room_new_def AdmissionGuard_new_def room_inv_def seats_ok_def
        log_ok_def indexes_def roster_def)
  show "room_inv t" if "room_inv s" "room_step s t" for s t using room_step_inv that .
qed

subsection \<open>The registry of rooms\<close>

text \<open>
  An \<open>Arc<Room>\<close> is a position in the store; an operation through any of its holders changes the
  room at that position, whether the registry still lists it or not.
\<close>

record AudioRoomManager =
  am_rooms :: "(uuid \<times> uuid, nat) hmap"
  am_store :: "Room list"

definition AudioRoomManager_new :: AudioRoomManager where
  "AudioRoomManager_new = \<lparr>am_rooms = [], am_store = []\<rparr>"

definition get_or_create :: "uuid \<Rightarrow> uuid \<Rightarrow> AudioRoomManager \<Rightarrow> nat \<times> AudioRoomManager" where
  "get_or_create community ch m =
     (case hget (am_rooms m) (community, ch) of
        Some a \<Rightarrow> (a, m)
      | None \<Rightarrow>
          (let a = length (am_store m)
           in (a, m\<lparr>am_rooms := hput (community, ch) a (am_rooms m),
                    am_store := am_store m @ [Room_new community ch]\<rparr>)))"

definition get_room :: "uuid \<Rightarrow> uuid \<Rightarrow> AudioRoomManager \<Rightarrow> nat option" where
  "get_room community ch m = hget (am_rooms m) (community, ch)"

definition get_unambiguous_by_channel :: "uuid \<Rightarrow> AudioRoomManager \<Rightarrow> nat option" where
  "get_unambiguous_by_channel ch m =
     (case map snd (filter (\<lambda>((_, ch'), _). ch' = ch) (am_rooms m)) of
        [] \<Rightarrow> None
      | room # others \<Rightarrow> if others \<noteq> [] then None else Some room)"

definition cleanup_if_empty :: "uuid \<Rightarrow> uuid \<Rightarrow> AudioRoomManager \<Rightarrow> bool \<times> AudioRoomManager" where
  "cleanup_if_empty community ch m =
     (case hget (am_rooms m) (community, ch) of
        None \<Rightarrow> (False, m)
      | Some a \<Rightarrow>
          if room_is_empty (am_store m ! a) then (True, m\<lparr>am_rooms := hdel (community, ch) (am_rooms m)\<rparr>)
          else (False, m))"

text \<open>What a holder of a room does with it.\<close>

definition with_room :: "nat \<Rightarrow> (Room \<Rightarrow> Room) \<Rightarrow> AudioRoomManager \<Rightarrow> AudioRoomManager" where
  "with_room a f m = m\<lparr>am_store := (am_store m)[a := f (am_store m ! a)]\<rparr>"

subsection \<open>Media over the mesh\<close>

datatype FenceVerdict = Accept bool | RejectStale nat

type_synonym GenerationFloor = "(uuid, nat) hmap"

definition fence_check :: "uuid \<Rightarrow> nat \<Rightarrow> GenerationFloor \<Rightarrow> FenceVerdict \<times> GenerationFloor" where
  "fence_check session_id generation seen =
     (case hget seen session_id of
        Some known \<Rightarrow>
          if generation < known then (RejectStale known, seen)
          else (Accept (generation > known),
                if generation > known then hput session_id generation seen else seen)
      | None \<Rightarrow> (Accept False, hput session_id generation seen))"

definition fence_forget :: "uuid \<Rightarrow> GenerationFloor \<Rightarrow> GenerationFloor" where
  "fence_forget session_id seen = hdel session_id seen"

record MeshAudioRouter =
  mr_rooms :: AudioRoomManager
  mr_fence :: GenerationFloor
  mr_local_runtime_id :: RuntimeId

definition on_media_datagram :: "MeshDatagram \<Rightarrow> MeshAudioRouter \<Rightarrow> FenceVerdict \<times> MeshAudioRouter" where
  "on_media_datagram d m =
     (let session_id = fh_session_id (md_fenced d);
          (verdict, floor) = fence_check session_id (fh_generation (md_fenced d)) (mr_fence m);
          m = m\<lparr>mr_fence := floor\<rparr>
      in case verdict of
           RejectStale _ \<Rightarrow> (verdict, m)
         | Accept _ \<Rightarrow>
             (case get_unambiguous_by_channel session_id (mr_rooms m) of
                None \<Rightarrow> (verdict, m)
              | Some a \<Rightarrow>
                  (case md_payload d of
                     [] \<Rightarrow> (verdict, m)
                   | author # rest \<Rightarrow>
                       (verdict, m\<lparr>mr_rooms := with_room a (deliver_prefixed author ([author] @ rest)) (mr_rooms m)\<rparr>))))"

text \<open>
  The task that sends a remote peer's frames over the mesh: the datagrams it makes of the
  frames it takes from the peer's channel, in order.
\<close>

fun remote_peer_sink :: "FencedHeader \<Rightarrow> 64 word \<Rightarrow> bytes list \<Rightarrow> MeshDatagram list" where
  "remote_peer_sink fenced seq [] = []"
| "remote_peer_sink fenced seq (frame # frames) =
     \<lparr>md_fenced = fenced, md_seq = seq, md_payload = frame\<rparr> # remote_peer_sink fenced (seq + 1) frames"

subsection \<open>The header of a media frame\<close>

definition V2_HEADER_LEN :: nat where "V2_HEADER_LEN = 8"
definition FLAG_DTX :: byte where "FLAG_DTX = 1"

record FrameHeader =
  fr_seq :: "16 word"
  fr_ts_48k :: "32 word"
  fr_level_dbov :: int
  fr_flags :: byte

definition is_dtx :: "FrameHeader \<Rightarrow> bool" where
  "is_dtx h \<longleftrightarrow> fr_flags h AND FLAG_DTX \<noteq> 0"

definition FrameHeader_parse :: "bytes \<Rightarrow> (FrameHeader \<times> bytes) option" where
  "FrameHeader_parse bs =
     (if length bs < V2_HEADER_LEN then None
      else
        (let raw_level = sint (bs ! 6);
             level = (if -127 \<le> raw_level \<and> raw_level \<le> 0 then raw_level else -127)
         in Some (\<lparr>fr_seq = u16_from_be (bs ! 0) (bs ! 1),
                   fr_ts_48k = u32_from_be (bs ! 2) (bs ! 3) (bs ! 4) (bs ! 5),
                   fr_level_dbov = level, fr_flags = bs ! 7\<rparr>,
                  drop V2_HEADER_LEN bs)))"

subsection \<open>Admission\<close>

lemma room_reachable_inv: "room_start r0 \<Longrightarrow> room_step\<^sup>*\<^sup>* r0 r \<Longrightarrow> room_inv r"
  by (rule room.reachable_inv)

lemma admit_effect:
  assumes "peer_id \<notin> set (hkeys (rm_peers r))" "i \<notin> set (indexes r)"
  shows "rm_peers (admit peer_id pubkey i g r) = rm_peers r @ [(peer_id, new_peer pubkey i)]"
    and "indexes (admit peer_id pubkey i g r) = indexes r @ [i]"
    and "roster (admit peer_id pubkey i g r) = (roster r)(i \<mapsto> pubkey)"
    and "ag_pinned_version (rm_guard (admit peer_id pubkey i g r)) = ag_pinned_version g"
proof -
  show peers: "rm_peers (admit peer_id pubkey i g r) = rm_peers r @ [(peer_id, new_peer pubkey i)]"
    by (simp add: admit_def hput_fresh [OF assms(1)])
  show "indexes (admit peer_id pubkey i g r) = indexes r @ [i]"
    unfolding indexes_def peers by (simp add: new_peer_def)
  show "roster (admit peer_id pubkey i g r) = (roster r)(i \<mapsto> pubkey)"
    unfolding roster_def peers using assms(2)
    by (subst roster_append) (auto simp: new_peer_def indexes_def)
qed (simp add: admit_def)

lemma pinned_pin: "version_conflict v g = None \<Longrightarrow> ag_pinned_version (pin v g) = Some v"
  by (auto simp: version_conflict_def pin_def split: option.splits if_splits)

text \<open>
  Admission to a huddle is exact: in every state a room can reach, a join with a fresh peer
  id either gives the peer an index that nobody in the room has, adds exactly that entry to the
  roster and leaves the room pinned to the version asked for, within the cap of 25 peers; or
  it changes nothing and reports the first obstacle in the documented order (ended, full,
  version mismatch), where full also covers an exhausted index space.
\<close>

theorem add_peer_exact:
  assumes "room_start r0" "room_step\<^sup>*\<^sup>* r0 r" "peer_id \<notin> set (hkeys (rm_peers r))"
  shows "case add_peer peer_id pubkey v r of
      (Inr (k, i), r') \<Rightarrow> k = peer_id \<and> i \<notin> set (indexes r) \<and> distinct (indexes r') \<and>
        set (indexes r') = insert i (set (indexes r)) \<and> length (rm_peers r') \<le> 25 \<and>
        roster r' = (roster r)(i \<mapsto> pubkey) \<and> ag_pinned_version (rm_guard r') = Some v \<and>
        \<not> ag_ended (rm_guard r) \<and> \<not> rm_poisoned r
    | (Inl e, r') \<Rightarrow> r' = r \<and>
        e = (if rm_poisoned r \<or> ag_ended (rm_guard r) then Ended
             else if 25 \<le> length (rm_peers r) then Full
             else case version_conflict v (rm_guard r) of Some e' \<Rightarrow> e' | None \<Rightarrow> Full) \<and>
        (e = Full \<longrightarrow> 25 \<le> length (rm_peers r) \<or>
           ag_free (rm_guard r) = [] \<and> ag_next_fresh (rm_guard r) = 255)"
proof -
  have inv: "room_inv r" using assms(1,2) by (rule room_reachable_inv)
  have gate: "gate_ok (rm_guard r) (set (indexes r))" using inv by (simp add: room_inv_def seats_ok_gate)
  show ?thesis
  proof (cases rule: add_peer_cases [of peer_id pubkey v r])
    case (refused e)
    then show ?thesis
      by (auto simp: add_peer_def Let_def MAX_PEERS_PER_ROOM_def version_conflict_def alloc_def
          split: if_splits option.splits prod.splits)
  next
    case (admitted i g')
    have new: "i \<notin> set (indexes r)" using alloc_gate(1) [OF gate admitted(1)] .
    have "room_inv (admit peer_id pubkey i (pin v g') r)"
      using add_peer_inv [OF inv assms(3), of pubkey v] by (simp add: admitted(2))
    then have "distinct (indexes (admit peer_id pubkey i (pin v g') r))"
      "length (rm_peers (admit peer_id pubkey i (pin v g') r)) \<le> 25"
      by (simp_all add: room_inv_def seats_ok_def MAX_PEERS_PER_ROOM_def)
    moreover have "ag_pinned_version (pin v g') = Some v"
      using admitted(6) alloc_fields(1) [OF admitted(1)] by (intro pinned_pin) (simp add: version_conflict_def)
    ultimately show ?thesis
      using admitted admit_effect [OF assms(3) new, of pubkey "pin v g'"] new by simp
  qed
qed

definition demo_room :: Room where
  "demo_room = snd (add_peer ''p1'' ''alice'' 2 (Room_new ''c'' ''ch''))"

lemma demo_room_reachable: "room_start (Room_new ''c'' ''ch'')" "room_step\<^sup>*\<^sup>* (Room_new ''c'' ''ch'') demo_room"
  unfolding demo_room_def
  by (auto simp: room_start_def Room_new_def intro!: r_into_rtranclp step_add)

lemma demo_room_eq: "rm_peers demo_room = [(''p1'', new_peer ''alice'' 0)]"
  "\<not> rm_poisoned demo_room" "rm_roster_sent demo_room =
     [\<lparr>rd_revision = 1, rd_joined = Some \<lparr>rp_pubkey = ''alice'', rp_peer_index = 0\<rparr>, rd_left = None\<rparr>]"
  "rm_guard demo_room = \<lparr>ag_next_fresh = 1, ag_free = [], ag_ended = False, ag_pinned_version = Some 2, ag_roster_revision = 1\<rparr>"
  by (simp_all add: demo_room_def add_peer_def Room_new_def AdmissionGuard_new_def version_conflict_def alloc_def
      MAX_PEERS_PER_ROOM_def admit_def publish_def pin_def Let_def)

theorem add_peer_exact_witness:
  "\<exists>r'. add_peer ''p2'' ''bob'' 2 demo_room = (Inr (''p2'', 1), r') \<and> roster r' 1 = Some ''bob''"
proof -
  have fresh: "''p2'' \<notin> set (hkeys (rm_peers demo_room))" by (simp add: demo_room_eq)
  obtain r' where r': "add_peer ''p2'' ''bob'' 2 demo_room = (Inr (''p2'', 1), r')"
    by (simp add: add_peer_def demo_room_eq version_conflict_def alloc_def MAX_PEERS_PER_ROOM_def)
  with add_peer_exact [OF demo_room_reachable fresh, where pubkey = "''bob''" and v = 2] show ?thesis by simp
qed

subsection \<open>The roster of a subscriber\<close>

definition snapshot_map :: "RosterSnapshot \<Rightarrow> byte \<Rightarrow> string option" where
  "snapshot_map s = map_of (map (\<lambda>p. (rp_peer_index p, rp_pubkey p)) (rs_peers s))"

lemma map_of_eq_by_set:
  assumes "distinct (map fst xs)" "distinct (map fst ys)" "set xs = set ys"
  shows "map_of xs = map_of ys"
proof
  fix k
  have "map_of xs k = Some v \<longleftrightarrow> map_of ys k = Some v" for v
    using assms by (simp add: map_of_eq_Some_iff)
  then show "map_of xs k = map_of ys k" by (metis option.exhaust)
qed

lemma distinct_map_sort: "distinct (map f xs) \<Longrightarrow> distinct (map f (sort_key g xs))"
  by (simp add: distinct_map)

lemma snapshot_map_roster:
  assumes "room_inv r"
  shows "snapshot_map (roster_snapshot r) = roster r"
proof -
  let ?ps = "map (\<lambda>(_, p). \<lparr>rp_pubkey = ap_pubkey p, rp_peer_index = ap_peer_index p\<rparr>) (rm_peers r)"
  let ?f = "\<lambda>p. (rp_peer_index p, rp_pubkey p)"
  have view: "map ?f ?ps = map (\<lambda>(_, p). (ap_peer_index p, ap_pubkey p)) (rm_peers r)"
    by (simp add: case_prod_unfold comp_def)
  have "map fst (map ?f ?ps) = indexes r" by (simp add: indexes_def case_prod_unfold comp_def)
  then have d: "distinct (map fst (map ?f ?ps))" using assms by (simp only: room_inv_def seats_ok_def)
  then have "distinct (map rp_peer_index ?ps)" by (simp add: comp_def case_prod_unfold)
  from distinct_map_sort [OF this, of rp_peer_index]
  have sorted: "distinct (map fst (map ?f (sort_key rp_peer_index ?ps)))" by (simp add: comp_def)
  have "set (map ?f (sort_key rp_peer_index ?ps)) = set (map ?f ?ps)" by (simp only: list.set_map set_sort)
  from map_of_eq_by_set [OF sorted d this]
  have "map_of (map ?f (sort_key rp_peer_index ?ps)) = map_of (map ?f ?ps)" .
  then show ?thesis unfolding view by (simp add: snapshot_map_def roster_snapshot_def roster_def)
qed

definition extends_log :: "Room \<Rightarrow> Room \<Rightarrow> bool" where
  "extends_log r r' \<longleftrightarrow> prefix (rm_roster_sent r) (rm_roster_sent r')"

lemma extends_publish: "rm_roster_sent (publish a b r) = rm_roster_sent r @
    [\<lparr>rd_revision = ag_roster_revision (rm_guard r) + 1, rd_joined = a, rd_left = b\<rparr>]"
  by (simp add: publish_def Let_def)

lemma step_extends_log: "room_step r r' \<Longrightarrow> extends_log r r'"
proof (erule room_stepE, goal_cases)
  case (1 peer_id pk v)
  then show ?case by (cases rule: add_peer_cases [of peer_id pk v r]) (simp_all add: extends_log_def admit_def extends_publish)
next
  case (2 peer_id pk v i)
  then show ?case
    by (cases rule: add_peer_at_index_cases [of peer_id pk v i r]) (simp_all add: extends_log_def admit_def extends_publish)
next
  case (7 s frame)
  then show ?case using fan_outs_map_peers(1) [of s frame r] by (auto simp: extends_log_def)
next
  case (8 i frame)
  then show ?case using fan_outs_map_peers(2) [of i frame r] by (auto simp: extends_log_def)
next
  case (9 json)
  then show ?case using fan_outs_map_peers(3) [of json r] by (auto simp: extends_log_def)
qed (auto simp: extends_log_def remove_peer_def remove_peer_and_check_ended_def depart_def extends_publish
      mark_ended_def clear_ended_def Let_def split: option.splits)

lemma steps_extend_log: "room_step\<^sup>*\<^sup>* r r' \<Longrightarrow> room_inv r \<Longrightarrow> prefix (rm_roster_sent r) (rm_roster_sent r')"
  using room.path_fact [of extends_log r r'] step_extends_log prefix_order.trans
  unfolding extends_log_def by blast

lemma of_nat_less_64: "m < 2 ^ 64 \<Longrightarrow> n < 2 ^ 64 \<Longrightarrow> (of_nat m :: 64 word) < of_nat n \<longleftrightarrow> m < n"
  by (simp add: word_less_nat_alt unat_of_nat)

text \<open>
  A subscriber to the roster always catches up: if it subscribes, later takes a snapshot,
  and then applies the deltas it was sent since it subscribed, ignoring those at or below the
  revision of the snapshot, its copy is the roster of the room (fewer than 2^64 changes in the
  life of the room). So the delta stream refines the one-line specification that a copy holds
  the current map from index to participant.
\<close>

theorem roster_subscriber_converges:
  assumes "room_start r0" "room_step\<^sup>*\<^sup>* r0 subscribed" "room_step\<^sup>*\<^sup>* subscribed snapped" "room_step\<^sup>*\<^sup>* snapped now"
    and "length (rm_roster_sent now) < 2 ^ 64"
  shows "fold apply_delta
      (filter (\<lambda>d. rs_revision (roster_snapshot snapped) < rd_revision d)
        (drop (length (rm_roster_sent subscribed)) (rm_roster_sent now)))
      (snapshot_map (roster_snapshot snapped)) = snapshot_map (roster_snapshot now)"
proof -
  have inv: "room_inv subscribed" "room_inv snapped" "room_inv now"
    using assms(1-4) room_reachable_inv by (meson rtranclp_trans)+
  obtain ds1 ds2 where ds: "rm_roster_sent snapped = rm_roster_sent subscribed @ ds1"
    "rm_roster_sent now = rm_roster_sent snapped @ ds2"
    using steps_extend_log [OF assms(3) inv(1)] steps_extend_log [OF assms(4) inv(2)] by (auto simp: prefix_def)
  let ?n = "length (rm_roster_sent snapped)"
  have rev: "rd_revision (rm_roster_sent now ! k) = of_nat (Suc k)" if "k < length (rm_roster_sent now)" for k
    using inv(3) that by (simp add: room_inv_def log_ok_def)
  have snap: "rs_revision (roster_snapshot snapped) = of_nat ?n"
    using inv(2) by (simp add: room_inv_def log_ok_def roster_snapshot_def)
  have "\<not> rs_revision (roster_snapshot snapped) < rd_revision d" if "d \<in> set ds1" for d
  proof -
    obtain k where k: "k < length ds1" "d = ds1 ! k" using \<open>d \<in> set ds1\<close> by (metis in_set_conv_nth)
    then have at: "d = rm_roster_sent now ! (length (rm_roster_sent subscribed) + k)" by (simp add: ds nth_append)
    have lt: "length (rm_roster_sent subscribed) + k < length (rm_roster_sent now)" using k(1) by (simp add: ds)
    show ?thesis
      unfolding snap at rev [OF lt] using k(1) lt assms(5)
      by (subst of_nat_less_64) (simp_all add: ds)
  qed
  moreover have "rs_revision (roster_snapshot snapped) < rd_revision d" if "d \<in> set ds2" for d
  proof -
    obtain k where k: "k < length ds2" "d = ds2 ! k" using \<open>d \<in> set ds2\<close> by (metis in_set_conv_nth)
    then have at: "d = rm_roster_sent now ! (?n + k)" by (simp add: ds nth_append)
    have lt: "?n + k < length (rm_roster_sent now)" using k(1) by (simp add: ds)
    show ?thesis
      unfolding snap at rev [OF lt] using lt assms(5) by (subst of_nat_less_64) simp_all
  qed
  ultimately have "filter (\<lambda>d. rs_revision (roster_snapshot snapped) < rd_revision d)
      (drop (length (rm_roster_sent subscribed)) (rm_roster_sent now)) = ds2"
    by (simp add: ds filter_id_conv filter_empty_conv)
  moreover have "fold apply_delta ds2 (roster snapped) = roster now"
    using inv(2,3) by (auto simp: room_inv_def log_ok_def ds)
  ultimately show ?thesis using inv by (simp add: snapshot_map_roster)
qed

theorem roster_subscriber_converges_witness:
  "fold apply_delta (rm_roster_sent demo_room) (snapshot_map (roster_snapshot (Room_new ''c'' ''ch''))) 0 = Some ''alice'' \<and>
   snapshot_map (roster_snapshot demo_room) 0 = Some ''alice''"
proof -
  have sent: "length (rm_roster_sent demo_room) < 2 ^ 64" by (simp add: demo_room_eq)
  have "fold apply_delta (filter (\<lambda>d. rs_revision (roster_snapshot (Room_new ''c'' ''ch'')) < rd_revision d)
      (drop (length (rm_roster_sent (Room_new ''c'' ''ch''))) (rm_roster_sent demo_room)))
      (snapshot_map (roster_snapshot (Room_new ''c'' ''ch''))) = snapshot_map (roster_snapshot demo_room)"
    using roster_subscriber_converges [OF demo_room_reachable(1) _ _ demo_room_reachable(2) sent] by blast
  moreover have "filter (\<lambda>d. rs_revision (roster_snapshot (Room_new ''c'' ''ch'')) < rd_revision d)
      (drop (length (rm_roster_sent (Room_new ''c'' ''ch''))) (rm_roster_sent demo_room)) = rm_roster_sent demo_room"
    by (simp add: demo_room_eq Room_new_def AdmissionGuard_new_def roster_snapshot_def)
  moreover have "snapshot_map (roster_snapshot demo_room) 0 = Some ''alice''"
    by (simp add: snapshot_map_def roster_snapshot_def demo_room_eq new_peer_def)
  ultimately show ?thesis by simp
qed

subsection \<open>The end of a huddle\<close>

definition over :: "Room \<Rightarrow> bool" where
  "over r \<longleftrightarrow> ag_ended (rm_guard r) \<and> rm_peers r = []"

lemma over_refuses:
  assumes "over r"
  shows "add_peer k pk v r = (Inl Ended, r)" "add_peer_at_index k pk v i r = (Inl Ended, r)"
    "remove_peer_and_check_ended k r = (None, r)"
  using assms
  by (simp_all add: over_def add_peer_def add_peer_at_index_def remove_peer_and_check_ended_def Let_def)

lemma over_step: "over r \<Longrightarrow> room_step r r' \<Longrightarrow> over r' \<or> r' = clear_ended r"
  by (erule room_stepE; simp add: over_refuses)
     (auto simp: over_def remove_peer_def mark_ended_def broadcast_frame_def deliver_prefixed_def
        broadcast_control_def map_peers_def)

text \<open>Runs in which nobody calls \<open>clear_ended\<close>.\<close>

inductive settled_run :: "Room \<Rightarrow> Room \<Rightarrow> bool" where
  settled_refl: "settled_run r r"
| settled_step: "settled_run r r' \<Longrightarrow> room_step r' r'' \<Longrightarrow> r'' \<noteq> clear_ended r' \<Longrightarrow> settled_run r r''"

lemma over_settled: "settled_run r r' \<Longrightarrow> over r \<Longrightarrow> over r'"
  by (induction rule: settled_run.induct) (use over_step in blast)+

text \<open>
  A huddle is ended by exactly one leaver and stays ended: when a departure reports that the
  huddle should end, the room is empty, every later join (local or remote) is refused as ended,
  no later departure reports anything, and this lasts until the end is explicitly rolled back.
\<close>

theorem huddle_ends_once:
  assumes "remove_peer_and_check_ended k r = (Some (i, True), r1)" "settled_run r1 r2"
  shows "rm_peers r2 = [] \<and> fst (add_peer k' pk v r2) = Inl Ended \<and>
    fst (add_peer_at_index k' pk v j r2) = Inl Ended \<and> fst (remove_peer_and_check_ended k' r2) = None"
proof -
  have "over r1"
    using assms(1) by (auto simp: remove_peer_and_check_ended_def over_def Let_def split: if_splits option.splits)
  from over_settled [OF assms(2) this] have "over r2" .
  then show ?thesis using over_refuses by (simp add: over_def)
qed

theorem huddle_ends_once_witness:
  "fst (remove_peer_and_check_ended ''p1'' demo_room) = Some (0, True) \<and>
   fst (add_peer ''p3'' ''carol'' 2 (snd (remove_peer_and_check_ended ''p1'' demo_room))) = Inl Ended"
proof -
  have fst: "fst (remove_peer_and_check_ended ''p1'' demo_room) = Some (0, True)"
    by (simp add: remove_peer_and_check_ended_def demo_room_eq depart_def publish_def release_index_def new_peer_def Let_def)
  then have "remove_peer_and_check_ended ''p1'' demo_room =
      (Some (0, True), snd (remove_peer_and_check_ended ''p1'' demo_room))"
    by (metis prod.collapse)
  from huddle_ends_once [OF this settled_refl] fst show ?thesis by simp
qed

subsection \<open>Rooms that the registry has lost\<close>

text \<open>
  The registry can split a huddle: a pod that mirrors a remote huddle looks the room up, and
  dials the owner before it admits its client. If another failed join cleans the (still empty)
  room up in between, the admission still succeeds on the first handle; but the registry no
  longer lists that room, the next join gets a different, empty one, and no media datagram that
  arrives over the mesh reaches the admitted peer.
\<close>

theorem cleanup_orphans_pending_join:
  assumes "hget (am_rooms m) (community, ch) = Some a" "a < length (am_store m)"
    and "room_is_empty (am_store m ! a)" "\<not> ag_ended (rm_guard (am_store m ! a))" "\<not> rm_poisoned (am_store m ! a)"
    and "version_conflict v (rm_guard (am_store m ! a)) = None" "distinct (map snd (am_rooms m))" "distinct (hkeys (am_rooms m))"
    and "cleanup_if_empty community ch m = (removed, m1)"
    and "m2 = with_room a (\<lambda>r. snd (add_peer_at_index k pk v i r)) m1"
    and "get_or_create community ch m2 = (b, m3)"
  shows "removed \<and> fst (add_peer_at_index k pk v i (am_store m1 ! a)) = Inr k \<and>
    hkeys (rm_peers (am_store m2 ! a)) = [k] \<and> b \<noteq> a \<and> rm_peers (am_store m3 ! b) = [] \<and>
    (\<forall>d router. mr_rooms router = m2 \<longrightarrow>
       am_store (mr_rooms (snd (on_media_datagram d router))) ! a = am_store m2 ! a)"
proof -
  let ?r = "am_store m ! a"
  have m1: "removed" "m1 = m\<lparr>am_rooms := hdel (community, ch) (am_rooms m)\<rparr>"
    using assms(1,3,9) by (auto simp: cleanup_if_empty_def)
  have empty: "rm_peers ?r = []" using assms(3) by (simp add: room_is_empty_def)
  have adm: "add_peer_at_index k pk v i ?r = (Inr k, admit k pk i (reserved i (pin v (rm_guard ?r))) ?r)"
    using assms(4-6) empty by (simp add: add_peer_at_index_def reserved_def MAX_PEERS_PER_ROOM_def Let_def)
  have store: "am_store m2 ! a = admit k pk i (reserved i (pin v (rm_guard ?r))) ?r"
    "length (am_store m2) = length (am_store m)" "am_rooms m2 = hdel (community, ch) (am_rooms m)"
    using assms(2,10) adm by (simp_all add: with_room_def m1)
  have keys: "hkeys (rm_peers (am_store m2 ! a)) = [k]" unfolding store(1) by (simp add: admit_def empty)
  have b: "b = length (am_store m)" "m3 = m2\<lparr>am_rooms := hput (community, ch) b (am_rooms m2),
      am_store := am_store m2 @ [Room_new community ch]\<rparr>"
    using assms(11) store by (auto simp: get_or_create_def Let_def)
  have unlisted: "a \<notin> snd ` set (am_rooms m2)"
  proof
    assume "a \<in> snd ` set (am_rooms m2)"
    then obtain kv where kv: "kv \<in> set (am_rooms m)" "fst kv \<noteq> (community, ch)" "snd kv = a"
      unfolding store(3) AList.delete_eq image_iff set_filter case_prod_unfold by (elim bexE CollectE conjE) simp
    have "((community, ch), a) \<in> set (am_rooms m)" using assms(1) by (rule map_of_SomeD)
    from distinct_imageD [OF assms(7) kv(1) this] kv show False by simp
  qed
  have media: "am_store (mr_rooms (snd (on_media_datagram d router))) ! a = am_store m2 ! a"
    if "mr_rooms router = m2" for d router
  proof -
    have "c \<noteq> a" if "get_unambiguous_by_channel x m2 = Some c" for c x
    proof -
      have "c \<in> snd ` set (am_rooms m2)"
        using that by (auto simp: get_unambiguous_by_channel_def image_iff Cons_eq_map_conv filter_eq_Cons_iff
            split: list.splits if_splits)
      with unlisted show ?thesis by auto
    qed
    then show ?thesis using that
      by (auto simp: on_media_datagram_def Let_def with_room_def split: prod.split FenceVerdict.split option.split list.split)
  qed
  show ?thesis using m1 adm keys b assms(2) media store(2) by (simp add: nth_append Room_new_def)
qed

definition demo_manager :: AudioRoomManager where
  "demo_manager = snd (get_or_create ''c'' ''ch'' AudioRoomManager_new)"

theorem cleanup_orphans_pending_join_witness:
  "let m1 = snd (cleanup_if_empty ''c'' ''ch'' demo_manager);
       m2 = with_room 0 (\<lambda>r. snd (add_peer_at_index ''p1'' ''alice'' 2 7 r)) m1
   in hkeys (rm_peers (am_store m2 ! 0)) = [''p1''] \<and> fst (get_or_create ''c'' ''ch'' m2) \<noteq> 0"
proof -
  have d: "hget (am_rooms demo_manager) (''c'', ''ch'') = Some 0" "am_store demo_manager = [Room_new ''c'' ''ch'']"
    "am_rooms demo_manager = [((''c'', ''ch''), 0)]"
    by (simp_all add: demo_manager_def get_or_create_def AudioRoomManager_new_def)
  have hyps: "0 < length (am_store demo_manager)" "room_is_empty (am_store demo_manager ! 0)"
    "\<not> ag_ended (rm_guard (am_store demo_manager ! 0))" "\<not> rm_poisoned (am_store demo_manager ! 0)"
    "version_conflict 2 (rm_guard (am_store demo_manager ! 0)) = None"
    "distinct (map snd (am_rooms demo_manager))" "distinct (hkeys (am_rooms demo_manager))"
    by (simp_all add: d Room_new_def AdmissionGuard_new_def room_is_empty_def version_conflict_def)
  obtain removed m1 where c: "cleanup_if_empty ''c'' ''ch'' demo_manager = (removed, m1)" by fastforce
  obtain b m3 where g: "get_or_create ''c'' ''ch'' (with_room 0 (\<lambda>r. snd (add_peer_at_index ''p1'' ''alice'' 2 7 r)) m1) = (b, m3)"
    by fastforce
  from cleanup_orphans_pending_join [OF d(1) hyps c refl g] show ?thesis by (simp add: c g Let_def)
qed

subsection \<open>The fence of the media path\<close>

definition deliver_all :: "MeshDatagram list \<Rightarrow> MeshAudioRouter \<Rightarrow> MeshAudioRouter" where
  "deliver_all ds router = fold (\<lambda>d router. snd (on_media_datagram d router)) ds router"

text \<open>The highest generation a list of datagrams carries for a session.\<close>

definition highest_generation :: "uuid \<Rightarrow> MeshDatagram list \<Rightarrow> nat option" where
  "highest_generation sid ds =
     (let gs = map (fh_generation \<circ> md_fenced) (filter (\<lambda>d. fh_session_id (md_fenced d) = sid) ds)
      in if gs = [] then None else Some (Max (set gs)))"

lemma on_media_datagram_fence:
  "fst (on_media_datagram d router) = fst (fence_check (fh_session_id (md_fenced d)) (fh_generation (md_fenced d)) (mr_fence router))"
  "mr_fence (snd (on_media_datagram d router)) =
     snd (fence_check (fh_session_id (md_fenced d)) (fh_generation (md_fenced d)) (mr_fence router))"
  by (auto simp: on_media_datagram_def Let_def split: prod.split FenceVerdict.split option.split list.split)

lemma highest_generation_snoc:
  "highest_generation sid (ds @ [d]) =
     (if fh_session_id (md_fenced d) \<noteq> sid then highest_generation sid ds
      else case highest_generation sid ds of
          None \<Rightarrow> Some (fh_generation (md_fenced d))
        | Some g \<Rightarrow> Some (max g (fh_generation (md_fenced d))))"
proof (cases "filter (\<lambda>d. fh_session_id (md_fenced d) = sid) ds = []")
  case False
  then have "(fh_generation \<circ> md_fenced) ` set (filter (\<lambda>d. fh_session_id (md_fenced d) = sid) ds) \<noteq> {}"
    by (simp only: image_is_empty set_empty not_False_eq_True)
  from Max_insert [OF _ this] False show ?thesis
    by (simp add: highest_generation_def Let_def max.commute)
qed (simp add: highest_generation_def Let_def)

lemma fence_tracks_highest:
  "mr_fence router = [] \<Longrightarrow> hget (mr_fence (deliver_all ds router)) sid = highest_generation sid ds"
proof (induction ds rule: rev_induct)
  case (snoc d ds)
  from snoc.IH [OF snoc.prems] show ?case
    by (auto simp: deliver_all_def on_media_datagram_fence(2) fence_check_def highest_generation_snoc max_def
        split: option.split)
qed (simp add: deliver_all_def highest_generation_def)

text \<open>
  No stale media reaches a client: after any sequence of datagrams, the next datagram of a
  session is rejected exactly when an earlier one of the same session carried a higher
  generation, and then no room changes; it is accepted otherwise, and reported as a takeover
  exactly when it raises the highest generation seen.
\<close>

theorem media_fence_exact:
  assumes "mr_fence router = []"
  shows "case highest_generation (fh_session_id (md_fenced d)) ds of
      None \<Rightarrow> fst (on_media_datagram d (deliver_all ds router)) = Accept False
    | Some g \<Rightarrow>
        if fh_generation (md_fenced d) < g then
          fst (on_media_datagram d (deliver_all ds router)) = RejectStale g \<and>
          mr_rooms (snd (on_media_datagram d (deliver_all ds router))) = mr_rooms (deliver_all ds router)
        else fst (on_media_datagram d (deliver_all ds router)) = Accept (g < fh_generation (md_fenced d))"
proof -
  have floor: "hget (mr_fence (deliver_all ds router)) (fh_session_id (md_fenced d)) =
      highest_generation (fh_session_id (md_fenced d)) ds"
    using fence_tracks_highest [OF assms] .
  show ?thesis
  proof (cases "highest_generation (fh_session_id (md_fenced d)) ds")
    case None
    with floor show ?thesis by (simp add: on_media_datagram_fence(1) fence_check_def)
  next
    case (Some g)
    with floor have "fence_check (fh_session_id (md_fenced d)) (fh_generation (md_fenced d)) (mr_fence (deliver_all ds router)) =
      (if fh_generation (md_fenced d) < g then (RejectStale g, mr_fence (deliver_all ds router))
       else (Accept (g < fh_generation (md_fenced d)),
             if g < fh_generation (md_fenced d)
             then hput (fh_session_id (md_fenced d)) (fh_generation (md_fenced d)) (mr_fence (deliver_all ds router))
             else mr_fence (deliver_all ds router)))"
      by (simp add: fence_check_def)
    then show ?thesis unfolding Some
      by (auto simp: on_media_datagram_fence(1)) (simp add: on_media_datagram_def Let_def)
  qed
qed

definition demo_datagram :: "nat \<Rightarrow> MeshDatagram" where
  "demo_datagram g = \<lparr>md_fenced = \<lparr>fh_session_id = ''ch'', fh_generation = g, fh_owner_runtime_id = []\<rparr>,
     md_seq = 0, md_payload = [0]\<rparr>"

theorem media_fence_exact_witness:
  "fst (on_media_datagram (demo_datagram 3)
     (deliver_all [demo_datagram 4] \<lparr>mr_rooms = AudioRoomManager_new, mr_fence = [], mr_local_runtime_id = []\<rparr>)) = RejectStale 4"
  using media_fence_exact [of "\<lparr>mr_rooms = AudioRoomManager_new, mr_fence = [], mr_local_runtime_id = []\<rparr>"
      "demo_datagram 3" "[demo_datagram 4]"]
  by (simp add: highest_generation_def demo_datagram_def Let_def)

end
