(* ===== verification/Text.thy ===== *)
theory Text
  imports Prelude
begin

text \<open>
  Text and JSON as the Rust standard library and \<open>serde_json\<close> present them: trimming white
  space, searching for a substring, counting characters, parsing 64-bit numbers, JSON values,
  and the operator \<open>?\<close> on results. A \<^typ>\<open>string\<close> is the sequence of the UTF-8 bytes of the
  text, so its length is what \<open>str::len\<close> returns.
\<close>

subsection \<open>Results\<close>

text \<open>The operator \<open>?\<close>: an error leaves the function, a value goes on.\<close>

definition and_then :: "'e + 'a \<Rightarrow> ('a \<Rightarrow> 'e + 'b) \<Rightarrow> 'e + 'b" where
  "and_then m f = (case m of Inl e \<Rightarrow> Inl e | Inr x \<Rightarrow> f x)"

lemma and_then_simps [simp]:
  "and_then (Inl e) f = Inl e"
  "and_then (Inr x) f = f x"
  by (simp_all add: and_then_def)

lemma and_then_cong [fundef_cong]:
  "m = m' \<Longrightarrow> (\<And>x. m' = Inr x \<Longrightarrow> f x = g x) \<Longrightarrow> and_then m f = and_then m' g"
  by (auto simp: and_then_def split: sum.split)

lemma and_then_eq_Inr: "and_then m f = Inr y \<longleftrightarrow> (\<exists>x. m = Inr x \<and> f x = Inr y)"
  by (cases m) auto

lemma and_then_eq_Inl: "and_then m f = Inl e \<longleftrightarrow> m = Inl e \<or> (\<exists>x. m = Inr x \<and> f x = Inl e)"
  by (cases m) auto

text \<open>A Rust loop that pushes the results of a fallible function and returns at the first error.\<close>

fun map_ok :: "('a \<Rightarrow> 'e + 'b) \<Rightarrow> 'a list \<Rightarrow> 'e + 'b list" where
  "map_ok f [] = Inr []"
| "map_ok f (x # xs) =
     (case f x of
        Inl e \<Rightarrow> Inl e
      | Inr y \<Rightarrow> (case map_ok f xs of Inl e \<Rightarrow> Inl e | Inr ys \<Rightarrow> Inr (y # ys)))"

lemma map_ok_cong [fundef_cong]:
  "xs = ys \<Longrightarrow> (\<And>x. x \<in> set ys \<Longrightarrow> f x = g x) \<Longrightarrow> map_ok f xs = map_ok g ys"
  by (induction ys arbitrary: xs) (auto split: sum.splits)

subsection \<open>White space\<close>

text \<open>
  \<open>char::is_whitespace\<close> on UTF-8: the number of bytes of the white space character that a text
  starts with (0 when it starts with another character), and the same at the end of a text,
  given in reverse.
\<close>

fun ws_start :: "nat list \<Rightarrow> nat" where
  "ws_start (a # b # c # _) =
     (if a = 32 \<or> 9 \<le> a \<and> a \<le> 13 then 1
      else if a = 194 \<and> (b = 133 \<or> b = 160) then 2
      else if a = 225 \<and> b = 154 \<and> c = 128 \<or>
              a = 226 \<and> b = 128 \<and> (128 \<le> c \<and> c \<le> 138 \<or> c = 168 \<or> c = 169 \<or> c = 175) \<or>
              a = 226 \<and> b = 129 \<and> c = 159 \<or> a = 227 \<and> b = 128 \<and> c = 128 then 3
      else 0)"
| "ws_start [a, b] =
     (if a = 32 \<or> 9 \<le> a \<and> a \<le> 13 then 1
      else if a = 194 \<and> (b = 133 \<or> b = 160) then 2 else 0)"
| "ws_start [a] = (if a = 32 \<or> 9 \<le> a \<and> a \<le> 13 then 1 else 0)"
| "ws_start [] = 0"

definition ws_first :: "string \<Rightarrow> nat" where
  "ws_first s = ws_start (map of_char (take 3 s))"

definition ws_last :: "string \<Rightarrow> nat" where
  "ws_last r =
     (if ws_start (map of_char (take 1 r)) = 1 then 1
      else if ws_start (map of_char (rev (take 2 r))) = 2 then 2
      else if ws_start (map of_char (rev (take 3 r))) = 3 then 3 else 0)"

function trim_start :: "string \<Rightarrow> string" where
  "trim_start s = (if ws_first s = 0 \<or> s = [] then s else trim_start (drop (ws_first s) s))"
  by pat_completeness auto
termination
  by (relation "measure length") auto

function trim_end_rev :: "string \<Rightarrow> string" where
  "trim_end_rev r = (if ws_last r = 0 \<or> r = [] then r else trim_end_rev (drop (ws_last r) r))"
  by pat_completeness auto
termination
  by (relation "measure length") auto

definition trim :: "string \<Rightarrow> string" where
  "trim s = rev (trim_end_rev (rev (trim_start s)))"

declare trim_start.simps [simp del] trim_end_rev.simps [simp del]

text \<open>\<open>split_whitespace().count()\<close>: how many non-empty stretches without white space.\<close>

function count_words :: "bool \<Rightarrow> string \<Rightarrow> nat" where
  "count_words inside s =
     (if s = [] then 0
      else if ws_first s = 0 then (if inside then 0 else 1) + count_words True (drop 1 s)
      else count_words False (drop (ws_first s) s))"
  by pat_completeness auto
termination
  by (relation "measure (\<lambda>(_, s). length s)") auto

declare count_words.simps [simp del]

subsection \<open>Substrings\<close>

text \<open>
  \<open>str::find\<close> of a pattern together with the slices the callers take: what precedes the first
  occurrence, and what follows it.
\<close>

fun split_at_sub :: "string \<Rightarrow> string \<Rightarrow> (string \<times> string) option" where
  "split_at_sub p [] = (if p = [] then Some ([], []) else None)"
| "split_at_sub p (c # cs) =
     (if starts_with (c # cs) p then Some ([], drop (length p) (c # cs))
      else map_option (\<lambda>(a, b). (c # a, b)) (split_at_sub p cs))"

definition str_contains :: "string \<Rightarrow> string \<Rightarrow> bool" where
  "str_contains s p \<longleftrightarrow> split_at_sub p s \<noteq> None"

lemma split_at_sub_Some: "split_at_sub p s = Some (a, b) \<Longrightarrow> s = a @ p @ b"
proof (induction s arbitrary: a)
  case (Cons c cs)
  show ?case
  proof (cases "starts_with (c # cs) p")
    case True
    with Cons.prems show ?thesis by (metis append_Nil append_take_drop_id fst_conv option.sel
      snd_conv split_at_sub.simps(2) starts_with_def)
  qed (use Cons in auto)
qed (auto split: if_splits)

lemma split_at_sub_shorter:
  "split_at_sub p s = Some (a, b) \<Longrightarrow> p \<noteq> [] \<Longrightarrow> length b < length s"
  by (auto dest!: split_at_sub_Some)

lemma split_at_sub_before: "p \<noteq> [] \<Longrightarrow> split_at_sub p s = Some (a, b) \<Longrightarrow> \<not> str_contains a p"
proof (induction s arbitrary: a)
  case (Cons c cs)
  show ?case
  proof (cases "starts_with (c # cs) p")
    case True
    with Cons.prems show ?thesis by (simp add: str_contains_def)
  next
    case False
    with Cons.prems obtain a' where a': "split_at_sub p cs = Some (a', b)" "a = c # a'"
      by auto
    then have "cs = a' @ p @ b" by (rule_tac split_at_sub_Some)
    then have "c # cs = (c # a') @ p @ b" by simp
    with False have "\<not> starts_with (c # a') p"
      by (metis prefix_prefix starts_with_iff_prefix)
    moreover have "\<not> str_contains a' p" using Cons a' by blast
    ultimately show ?thesis using a'(2) by (simp add: str_contains_def)
  qed
qed auto

text \<open>
  The first occurrence is found where it is when the text before it, together with the start of
  the occurrence, has no other one.
\<close>

lemma split_at_sub_first:
  assumes "p \<noteq> []" and "\<not> str_contains (a @ butlast p) p"
  shows "split_at_sub p (a @ p @ b) = Some (a, b)"
  using assms(2)
proof (induction a)
  case Nil
  have "split_at_sub p s = Some ([], drop (length p) s)" if "starts_with s p" for s
    using that assms(1) by (cases s) (auto simp: starts_with_def)
  then show ?case by simp
next
  case (Cons c a)
  have "\<not> starts_with (c # a @ p @ b) p"
  proof
    assume "starts_with (c # a @ p @ b) p"
    moreover have "p @ b = butlast p @ last p # b"
      using assms(1) by simp
    ultimately have "take (length p) ((c # a @ butlast p) @ last p # b) = p"
      by (simp add: starts_with_def)
    moreover have "length p \<le> length (c # a @ butlast p)" using assms(1) by simp
    ultimately have "starts_with (c # a @ butlast p) p"
      by (metis append_Nil2 diff_is_0_eq take0 take_append starts_with_def)
    with Cons.prems show False by (simp add: str_contains_def)
  qed
  moreover have "\<not> str_contains (a @ butlast p) p"
    using Cons.prems by (auto simp: str_contains_def split: if_splits)
  ultimately show ?case using Cons.IH by simp
qed

text \<open>\<open>chars().take(n)\<close>: a character starts at every byte that is not a continuation byte.\<close>

definition continuation :: "char \<Rightarrow> bool" where
  "continuation c \<longleftrightarrow> 128 \<le> (of_char c :: nat) \<and> (of_char c :: nat) < 192"

fun take_chars :: "nat \<Rightarrow> string \<Rightarrow> string" where
  "take_chars n [] = []"
| "take_chars n (c # cs) =
     (if continuation c then c # take_chars n cs
      else if n = 0 then [] else c # take_chars (n - 1) cs)"

definition count_chars :: "string \<Rightarrow> nat" where
  "count_chars s = length (filter (\<lambda>c. \<not> continuation c) s)"

lemma take_chars_prefix: "prefix (take_chars n s) s"
  by (induction n s rule: take_chars.induct) auto

lemma count_take_chars: "count_chars (take_chars n s) = min n (count_chars s)"
  by (induction n s rule: take_chars.induct) (auto simp: count_chars_def)

text \<open>\<open>Display\<close> of a signed integer.\<close>

definition int_text :: "int \<Rightarrow> string" where
  "int_text n = (if n < 0 then ''-'' @ dec (nat (- n)) else dec (nat n))"

text \<open>\<open>str::parse\<close> for \<open>u64\<close> (and for \<open>usize\<close>, which has 64 bits where the program runs).\<close>

definition parse_u64 :: "string \<Rightarrow> nat option" where
  "parse_u64 s =
     (let ds = (if starts_with s ''+'' then drop 1 s else s)
      in if ds \<noteq> [] \<and> list_all is_digit ds \<and> undec ds < 2 ^ 64 then Some (undec ds) else None)"

lemma parse_u64_bound: "parse_u64 s = Some n \<Longrightarrow> n < 2 ^ 64"
  by (auto simp: parse_u64_def Let_def split: if_splits)

lemma parse_u64_dec: "n < 2 ^ 64 \<Longrightarrow> parse_u64 (dec n) = Some n"
proof -
  assume n: "n < 2 ^ 64"
  have "dec n \<noteq> []" by (subst dec.simps) simp
  moreover have "\<not> starts_with (dec n) ''+''"
  proof
    assume "starts_with (dec n) ''+''"
    with dec_digits [of n] have "is_digit (CHR ''+'')"
      by (cases "dec n") (auto simp: starts_with_def)
    then show False by (simp add: is_digit_def)
  qed
  ultimately show ?thesis using n dec_digits [of n] by (simp add: parse_u64_def)
qed

text \<open>\<open>to_lowercase\<close> on ASCII, the ASCII classes, and the characters a literal cannot hold.\<close>

definition is_ascii_alphanumeric :: "char \<Rightarrow> bool" where
  "is_ascii_alphanumeric c =
     (let n = of_char c :: nat in 48 \<le> n \<and> n \<le> 57 \<or> 65 \<le> n \<and> n \<le> 90 \<or> 97 \<le> n \<and> n \<le> 122)"

definition is_ascii_hexdigit :: "char \<Rightarrow> bool" where
  "is_ascii_hexdigit c =
     (let n = of_char c :: nat in 48 \<le> n \<and> n \<le> 57 \<or> 65 \<le> n \<and> n \<le> 70 \<or> 97 \<le> n \<and> n \<le> 102)"

definition ascii_lower :: "char \<Rightarrow> char" where
  "ascii_lower c =
     (let n = of_char c :: nat in if 65 \<le> n \<and> n \<le> 90 then char_of (n + 32) else c)"

definition quoted :: "string \<Rightarrow> string" where
  "quoted s = CHR 0x27 # s @ [CHR 0x27]"

definition em_dash :: string where
  "em_dash = [CHR 0xE2, CHR 0x80, CHR 0x94]"

subsection \<open>JSON values\<close>

text \<open>A number is its text; an object is the list of its entries in iteration order.\<close>

datatype json =
    JNull | JBool bool | JNumber string | JString string | JArray "json list" | JObject "(string \<times> json) list"

subsection \<open>Text without white space\<close>

definition plain :: "string \<Rightarrow> bool" where
  "plain s \<longleftrightarrow> list_all (\<lambda>c. 32 < (of_char c :: nat) \<and> (of_char c :: nat) < 128) s"

lemma ws_start_plain: "32 < a \<Longrightarrow> a < 128 \<Longrightarrow> ws_start (a # xs) = 0"
  by (cases xs rule: remdups_adj.cases) auto

lemma plain_ws_first: "plain s \<Longrightarrow> ws_first s = 0"
  by (cases s) (auto simp: plain_def ws_first_def ws_start_plain)

lemma plain_ws_last: "plain s \<Longrightarrow> ws_last s = 0"
  by (cases s rule: remdups_adj.cases; (cases "drop 2 s")?)
    (auto simp: plain_def ws_last_def ws_start_plain numeral_2_eq_2 numeral_3_eq_3)

lemma plain_rev: "plain (rev s) = plain s"
  by (auto simp: plain_def list_all_iff)

lemma trim_plain: "plain s \<Longrightarrow> trim s = s"
  by (simp add: trim_def trim_start.simps [of s] trim_end_rev.simps [of "rev s"]
      plain_ws_first plain_ws_last plain_rev)

lemma digits_plain: "list_all is_digit s \<Longrightarrow> plain s"
  by (auto simp: plain_def list_all_iff is_digit_def)

lemma plain_append: "plain (a @ b) \<longleftrightarrow> plain a \<and> plain b"
  by (simp add: plain_def)

end
