(* ===== verification/Session_Directory.thy ===== *)
theory Session_Directory
  imports Mesh_Wire Text
begin

text \<open>
  The fenced session directory of the relay (\<open>buzz-relay/src/tunnel/directory.rs\<close>): the Redis
  scripts, the operations of \<open>SessionDirectory\<close> around them, and the parsing of a lease.

  Redis is a map from keys to string values with an optional expiry; a script runs atomically.
  The clock (milliseconds) is an argument. The coding of runtime ids in hex belongs to another
  package and is a parameter. Lua prints an integer in decimal, which holds below 10^14. Failures
  of the connection leave Redis as it is and are left out. A call of \<open>expect\<close> that would
  panic is the value \<^const>\<open>None\<close>.
\<close>

subsection \<open>Redis\<close>

type_synonym Redis = "(string, string \<times> instant option) hmap"

definition redis_get :: "instant \<Rightarrow> string \<Rightarrow> Redis \<Rightarrow> string option" where
  "redis_get now k r =
     (case hget r k of
        None \<Rightarrow> None
      | Some (v, None) \<Rightarrow> Some v
      | Some (v, Some t) \<Rightarrow> if now < t then Some v else None)"

definition redis_set_px :: "instant \<Rightarrow> string \<Rightarrow> string \<Rightarrow> nat \<Rightarrow> Redis \<Rightarrow> Redis" where
  "redis_set_px now k v ttl r = hput k (v, Some (now + ttl)) r"

definition redis_pexpire :: "instant \<Rightarrow> string \<Rightarrow> nat \<Rightarrow> Redis \<Rightarrow> Redis" where
  "redis_pexpire now k ttl r =
     (case redis_get now k r of None \<Rightarrow> r | Some v \<Rightarrow> hput k (v, Some (now + ttl)) r)"

definition redis_del :: "string \<Rightarrow> Redis \<Rightarrow> Redis" where
  "redis_del k r = hdel k r"

text \<open>\<open>INCR\<close>: an absent key counts as 0; a value that is no integer or the largest one is an error.\<close>

definition redis_incr :: "instant \<Rightarrow> string \<Rightarrow> Redis \<Rightarrow> nat option \<times> Redis" where
  "redis_incr now k r =
     (case redis_get now k r of
        None \<Rightarrow> (Some 1, hput k (dec 1, None) r)
      | Some v \<Rightarrow>
          if dec (undec v) = v \<and> undec v + 1 < 2 ^ 63
          then (Some (undec v + 1), hput k (dec (undec v + 1), snd (the (hget r k))) r)
          else (None, r))"

definition or_empty :: "string option \<Rightarrow> string" where
  "or_empty x = (case x of None \<Rightarrow> [] | Some s \<Rightarrow> s)"

subsection \<open>The scripts\<close>

definition bar :: char where "bar = CHR ''|''"

text \<open>\<open>string.match(current, '^([^|]+)|([^|]+)|([^|]+)$')\<close>\<close>

definition match_lease :: "string \<Rightarrow> (string \<times> string \<times> string) option" where
  "match_lease v =
     (case split_on bar v of
        [a, b, c] \<Rightarrow> if a \<noteq> [] \<and> b \<noteq> [] \<and> c \<noteq> [] then Some (a, b, c) else None
      | _ \<Rightarrow> None)"

definition lease_value :: "string \<Rightarrow> string \<Rightarrow> string \<Rightarrow> string" where
  "lease_value owner generation profile = owner @ [bar] @ generation @ [bar] @ profile"

definition acquire_script ::
  "instant \<Rightarrow> string \<Rightarrow> string \<Rightarrow> string \<Rightarrow> string \<Rightarrow> nat \<Rightarrow> Redis \<Rightarrow> (string \<times> string \<times> string) option \<times> Redis" where
  "acquire_script now lease_key generation_key owner profile ttl r =
     (case redis_get now lease_key r of
        Some current \<Rightarrow> (Some (''exists'', current, or_empty (redis_get now generation_key r)), r)
      | None \<Rightarrow>
          (case redis_incr now generation_key r of
             (None, r') \<Rightarrow> (None, r')
           | (Some generation, r') \<Rightarrow>
               (let v = lease_value owner (dec generation) profile
                in (Some (''acquired'', v, dec generation), redis_set_px now lease_key v ttl r'))))"

definition owned_by :: "string \<Rightarrow> string \<Rightarrow> string \<Rightarrow> bool" where
  "owned_by owner generation current \<longleftrightarrow>
     (case match_lease current of None \<Rightarrow> False | Some (o', g', _) \<Rightarrow> o' = owner \<and> g' = generation)"

text \<open>\<open>redis.call('GET', generation_key) or current_generation or ''\<close>\<close>

definition known_or :: "instant \<Rightarrow> string \<Rightarrow> string \<Rightarrow> Redis \<Rightarrow> string" where
  "known_or now generation_key current r =
     (case redis_get now generation_key r of
        Some g \<Rightarrow> g
      | None \<Rightarrow> (case match_lease current of None \<Rightarrow> [] | Some (_, g, _) \<Rightarrow> g))"

definition renew_script ::
  "instant \<Rightarrow> string \<Rightarrow> string \<Rightarrow> string \<Rightarrow> string \<Rightarrow> nat \<Rightarrow> Redis \<Rightarrow> (string \<times> string \<times> string) \<times> Redis" where
  "renew_script now lease_key generation_key owner generation ttl r =
     (case redis_get now lease_key r of
        None \<Rightarrow> ((''missing'', [], or_empty (redis_get now generation_key r)), r)
      | Some current \<Rightarrow>
          if owned_by owner generation current
          then ((''renewed'', current, known_or now generation_key current r), redis_pexpire now lease_key ttl r)
          else ((''lost'', current, known_or now generation_key current r), r))"

definition release_script ::
  "instant \<Rightarrow> string \<Rightarrow> string \<Rightarrow> string \<Rightarrow> string \<Rightarrow> Redis \<Rightarrow> (string \<times> string \<times> string) \<times> Redis" where
  "release_script now lease_key generation_key owner generation r =
     (case redis_get now lease_key r of
        None \<Rightarrow> ((''missing'', [], or_empty (redis_get now generation_key r)), r)
      | Some current \<Rightarrow>
          if owned_by owner generation current
          then ((''released'', current, known_or now generation_key current r), redis_del lease_key r)
          else ((''lost'', current, known_or now generation_key current r), r))"

definition validate_script :: "instant \<Rightarrow> string \<Rightarrow> string \<Rightarrow> Redis \<Rightarrow> string \<times> string" where
  "validate_script now lease_key generation_key r =
     (or_empty (redis_get now lease_key r), or_empty (redis_get now generation_key r))"

subsection \<open>Leases\<close>

record hex_codec =
  to_hex :: "bytes \<Rightarrow> string"
  from_hex :: "string \<Rightarrow> bytes option"

record SessionLease =
  sl_community_id :: uuid
  sl_session_id :: uuid
  sl_owner_runtime_id :: RuntimeId
  sl_generation :: nat
  sl_profile :: Profile

datatype AcquireResult = Acquired SessionLease | Exists SessionLease
datatype RenewResult = Renewed SessionLease | Lost "SessionLease option" "nat option"
datatype ReleaseResult = Released SessionLease | NotOwner "SessionLease option" "nat option"

datatype DirectoryError =
    RedisFailure
  | MalformedLease uuid uuid string
  | MalformedGeneration uuid uuid string
  | UnexpectedScriptStatus string
  | InvalidLeaseTtl

definition fenced_header :: "SessionLease \<Rightarrow> FencedHeader" where
  "fenced_header l = \<lparr>fh_session_id = sl_session_id l, fh_generation = sl_generation l,
     fh_owner_runtime_id = sl_owner_runtime_id l\<rparr>"

definition session_key_base :: "uuid \<Rightarrow> uuid \<Rightarrow> string" where
  "session_key_base community session_id = ''buzz:'' @ community @ '':tunnel:'' @ session_id"

definition lease_key :: "uuid \<Rightarrow> uuid \<Rightarrow> string" where
  "lease_key community session_id = session_key_base community session_id @ '':lease''"

definition generation_key :: "uuid \<Rightarrow> uuid \<Rightarrow> string" where
  "generation_key community session_id = session_key_base community session_id @ '':generation''"

fun profile_as_wire_str :: "Profile \<Rightarrow> string" where
  "profile_as_wire_str ReliableStream = ''reliable-stream''"
| "profile_as_wire_str RealtimeMedia = ''realtime-media''"
| "profile_as_wire_str HuddleControl = ''huddle-control''"

definition profile_from_wire :: "string \<Rightarrow> Profile option" where
  "profile_from_wire v =
     (if v = ''reliable-stream'' then Some ReliableStream
      else if v = ''realtime-media'' then Some RealtimeMedia
      else if v = ''huddle-control'' then Some HuddleControl
      else None)"

definition parse_lease :: "hex_codec \<Rightarrow> uuid \<Rightarrow> uuid \<Rightarrow> string \<Rightarrow> DirectoryError + SessionLease" where
  "parse_lease H community session_id v =
     (let malformed = Inl (MalformedLease community session_id v)
      in case split_on bar v of
           owner_hex # g # p # others \<Rightarrow>
             (case parse_u64 g of
                None \<Rightarrow> malformed
              | Some generation \<Rightarrow>
                  if generation = 0 then malformed
                  else
                    (case profile_from_wire p of
                       None \<Rightarrow> malformed
                     | Some profile \<Rightarrow>
                         if others \<noteq> [] then malformed
                         else
                           (case from_hex H owner_hex of
                              None \<Rightarrow> malformed
                            | Some owner \<Rightarrow>
                                if length owner \<noteq> 32 then malformed
                                else Inr \<lparr>sl_community_id = community, sl_session_id = session_id,
                                       sl_owner_runtime_id = owner, sl_generation = generation, sl_profile = profile\<rparr>)))
         | _ \<Rightarrow> malformed)"

definition parse_optional_lease ::
  "hex_codec \<Rightarrow> uuid \<Rightarrow> uuid \<Rightarrow> string \<Rightarrow> DirectoryError + SessionLease option" where
  "parse_optional_lease H community session_id v =
     (if v = [] then Inr None else map_sum id Some (parse_lease H community session_id v))"

definition parse_optional_generation :: "uuid \<Rightarrow> uuid \<Rightarrow> string \<Rightarrow> DirectoryError + nat option" where
  "parse_optional_generation community session_id v =
     (if v = [] then Inr None
      else case parse_u64 v of
          None \<Rightarrow> Inl (MalformedGeneration community session_id v)
        | Some g \<Rightarrow> if g = 0 then Inl (MalformedGeneration community session_id v) else Inr (Some g))"

definition ttl_ms :: "nat \<Rightarrow> DirectoryError + nat" where
  "ttl_ms ttl = (if ttl < 2 ^ 63 \<and> 0 < ttl then Inr ttl else Inl InvalidLeaseTtl)"

subsection \<open>The operations of the directory\<close>

definition acquire ::
  "hex_codec \<Rightarrow> nat \<Rightarrow> instant \<Rightarrow> uuid \<Rightarrow> uuid \<Rightarrow> RuntimeId \<Rightarrow> Profile \<Rightarrow> Redis \<Rightarrow> (DirectoryError + AcquireResult) \<times> Redis" where
  "acquire H ttl now community session_id owner profile r =
     (case ttl_ms ttl of
        Inl e \<Rightarrow> (Inl e, r)
      | Inr ms \<Rightarrow>
          (case acquire_script now (lease_key community session_id) (generation_key community session_id)
                  (to_hex H owner) (profile_as_wire_str profile) ms r of
             (None, r') \<Rightarrow> (Inl RedisFailure, r')
           | (Some (status, v, _), r') \<Rightarrow>
               (case parse_lease H community session_id v of
                  Inl e \<Rightarrow> (Inl e, r')
                | Inr lease \<Rightarrow>
                    (if status = ''acquired'' then (Inr (Acquired lease), r')
                     else if status = ''exists'' then (Inr (Exists lease), r')
                     else (Inl (UnexpectedScriptStatus status), r')))))"

definition takeover ::
  "hex_codec \<Rightarrow> nat \<Rightarrow> instant \<Rightarrow> uuid \<Rightarrow> uuid \<Rightarrow> RuntimeId \<Rightarrow> Profile \<Rightarrow> Redis \<Rightarrow> (DirectoryError + AcquireResult) \<times> Redis" where
  "takeover H ttl now community session_id owner profile r = acquire H ttl now community session_id owner profile r"

definition renew ::
  "hex_codec \<Rightarrow> nat \<Rightarrow> instant \<Rightarrow> SessionLease \<Rightarrow> Redis \<Rightarrow> (DirectoryError + RenewResult) option \<times> Redis" where
  "renew H ttl now lease r =
     (let community = sl_community_id lease; session_id = sl_session_id lease
      in case ttl_ms ttl of
           Inl e \<Rightarrow> (Some (Inl e), r)
         | Inr ms \<Rightarrow>
             (case renew_script now (lease_key community session_id) (generation_key community session_id)
                     (to_hex H (sl_owner_runtime_id lease)) (dec (sl_generation lease)) ms r of
                ((status, v, known), r') \<Rightarrow>
                  (case parse_optional_lease H community session_id v of
                     Inl e \<Rightarrow> (Some (Inl e), r')
                   | Inr current \<Rightarrow>
                       if status = ''renewed'' then (map_option (Inr \<circ> Renewed) current, r')
                       else if status = ''missing'' \<or> status = ''lost'' then
                         (Some (map_sum id (Lost current) (parse_optional_generation community session_id known)), r')
                       else (Some (Inl (UnexpectedScriptStatus status)), r'))))"

definition release ::
  "hex_codec \<Rightarrow> instant \<Rightarrow> SessionLease \<Rightarrow> Redis \<Rightarrow> (DirectoryError + ReleaseResult) option \<times> Redis" where
  "release H now lease r =
     (let community = sl_community_id lease; session_id = sl_session_id lease
      in case release_script now (lease_key community session_id) (generation_key community session_id)
                (to_hex H (sl_owner_runtime_id lease)) (dec (sl_generation lease)) r of
           ((status, v, known), r') \<Rightarrow>
             (case parse_optional_lease H community session_id v of
                Inl e \<Rightarrow> (Some (Inl e), r')
              | Inr current \<Rightarrow>
                  if status = ''released'' then (map_option (Inr \<circ> Released) current, r')
                  else if status = ''missing'' \<or> status = ''lost'' then
                    (Some (map_sum id (NotOwner current) (parse_optional_generation community session_id known)), r')
                  else (Some (Inl (UnexpectedScriptStatus status)), r')))"

definition lookup_lease :: "hex_codec \<Rightarrow> instant \<Rightarrow> uuid \<Rightarrow> uuid \<Rightarrow> Redis \<Rightarrow> DirectoryError + SessionLease option" where
  "lookup_lease H now community session_id r =
     (case redis_get now (lease_key community session_id) r of
        None \<Rightarrow> Inr None
      | Some v \<Rightarrow> map_sum id Some (parse_lease H community session_id v))"

definition known_generation :: "instant \<Rightarrow> uuid \<Rightarrow> uuid \<Rightarrow> Redis \<Rightarrow> DirectoryError + nat option" where
  "known_generation now community session_id r =
     (case redis_get now (generation_key community session_id) r of
        Some v \<Rightarrow> parse_optional_generation community session_id v
      | None \<Rightarrow> Inr None)"

text \<open>The texts of transport errors are not kept.\<close>

definition validate_fenced_header ::
  "hex_codec \<Rightarrow> instant \<Rightarrow> uuid \<Rightarrow> FencedHeader \<Rightarrow> Redis \<Rightarrow> MeshError + unit" where
  "validate_fenced_header H now community fenced r =
     (let sid = fh_session_id fenced;
          (v, known_text) = validate_script now (lease_key community sid) (generation_key community sid) r
      in case parse_optional_generation community sid known_text of
           Inl _ \<Rightarrow> Inl (Transport [])
         | Inr g \<Rightarrow>
             (let known_from_counter = (case g of None \<Rightarrow> 0 | Some n \<Rightarrow> n)
              in case parse_optional_lease H community sid v of
                   Inl _ \<Rightarrow> Inl (Transport [])
                 | Inr current \<Rightarrow>
                     (let known = max (case current of Some l \<Rightarrow> sl_generation l | None \<Rightarrow> known_from_counter)
                            known_from_counter
                      in if 0 < known \<and> fh_generation fenced < known
                         then Inl (StaleGenerationError sid (fh_generation fenced) known)
                         else case current of
                             None \<Rightarrow> Inl (NoActiveLease sid (fh_generation fenced) known (fh_owner_runtime_id fenced))
                           | Some l \<Rightarrow>
                               if fh_generation fenced \<noteq> sl_generation l
                               then Inl (FutureGeneration sid (fh_generation fenced) (sl_generation l))
                               else if fh_owner_runtime_id fenced \<noteq> sl_owner_runtime_id l
                               then Inl (OwnerMismatch sid (fh_generation fenced) (fh_owner_runtime_id fenced)
                                      (sl_owner_runtime_id l))
                               else Inr ())))"

subsection \<open>The specification: one fence per session\<close>

text \<open>
  A session of a community has a counter that only grows and at most one holder, whose
  generation is the counter and whose hold ends at an instant.
\<close>

record fence =
  fc_counter :: nat
  fc_holder :: "(RuntimeId \<times> Profile \<times> instant) option"

definition live_holder :: "instant \<Rightarrow> fence \<Rightarrow> (RuntimeId \<times> Profile) option" where
  "live_holder now f =
     (case fc_holder f of None \<Rightarrow> None | Some (o', p, t) \<Rightarrow> if now < t then Some (o', p) else None)"

definition take_fence :: "instant \<Rightarrow> nat \<Rightarrow> RuntimeId \<Rightarrow> Profile \<Rightarrow> fence \<Rightarrow> fence" where
  "take_fence now ttl own p f =
     (if live_holder now f = None \<and> fc_counter f + 1 < 2 ^ 63
      then \<lparr>fc_counter = fc_counter f + 1, fc_holder = Some (own, p, now + ttl)\<rparr> else f)"

definition owns_fence :: "instant \<Rightarrow> RuntimeId \<Rightarrow> nat \<Rightarrow> fence \<Rightarrow> bool" where
  "owns_fence now own g f \<longleftrightarrow> map_option fst (live_holder now f) = Some own \<and> fc_counter f = g"

definition keep_fence :: "instant \<Rightarrow> nat \<Rightarrow> RuntimeId \<Rightarrow> nat \<Rightarrow> fence \<Rightarrow> fence" where
  "keep_fence now ttl own g f =
     (if owns_fence now own g f
      then f\<lparr>fc_holder := map_option (\<lambda>(o', p, _). (o', p, now + ttl)) (fc_holder f)\<rparr> else f)"

definition drop_fence :: "instant \<Rightarrow> RuntimeId \<Rightarrow> nat \<Rightarrow> fence \<Rightarrow> fence" where
  "drop_fence now own g f = (if owns_fence now own g f then f\<lparr>fc_holder := None\<rparr> else f)"

text \<open>The fence that the strings in Redis stand for.\<close>

definition fence_of :: "hex_codec \<Rightarrow> uuid \<Rightarrow> uuid \<Rightarrow> Redis \<Rightarrow> fence" where
  "fence_of H community sid r =
     \<lparr>fc_counter = (case hget r (generation_key community sid) of None \<Rightarrow> 0 | Some (g, _) \<Rightarrow> undec g),
      fc_holder =
        (case hget r (lease_key community sid) of
           Some (v, Some t) \<Rightarrow>
             (case parse_lease H community sid v of
                Inr l \<Rightarrow> Some (sl_owner_runtime_id l, sl_profile l, t)
              | Inl _ \<Rightarrow> None)
         | _ \<Rightarrow> None)\<rparr>"

subsection \<open>Reading back what was written\<close>

definition hex_ok :: "hex_codec \<Rightarrow> bool" where
  "hex_ok H \<longleftrightarrow> (\<forall>b. from_hex H (to_hex H b) = Some b \<and> bar \<notin> set (to_hex H b) \<and> (b \<noteq> [] \<longrightarrow> to_hex H b \<noteq> []))"

definition uuid_ok :: "uuid \<Rightarrow> bool" where "uuid_ok u \<longleftrightarrow> length u = 36"

lemma dec_no_bar: "bar \<notin> set (dec n)"
  using dec_digits [of n] by (auto simp: list_all_iff is_digit_def bar_def)

lemma dec_nonempty [simp]: "dec n \<noteq> []"
  by (subst dec.simps) simp

lemma profile_wire [simp]:
  "profile_from_wire (profile_as_wire_str p) = Some p" "bar \<notin> set (profile_as_wire_str p)" "profile_as_wire_str p \<noteq> []"
  by (cases p; simp add: profile_from_wire_def bar_def)+

lemma split_lease_value:
  "bar \<notin> set a \<Longrightarrow> bar \<notin> set b \<Longrightarrow> bar \<notin> set c \<Longrightarrow> split_on bar (lease_value a b c) = [a, b, c]"
  by (simp add: lease_value_def split_on_append split_on_id)

abbreviation lease_text :: "hex_codec \<Rightarrow> RuntimeId \<Rightarrow> nat \<Rightarrow> Profile \<Rightarrow> string" where
  "lease_text H own g p \<equiv> lease_value (to_hex H own) (dec g) (profile_as_wire_str p)"

lemma lease_text_split: "hex_ok H \<Longrightarrow> split_on bar (lease_text H own g p) = [to_hex H own, dec g, profile_as_wire_str p]"
  by (rule split_lease_value) (simp_all add: hex_ok_def dec_no_bar)

lemma match_lease_text:
  "hex_ok H \<Longrightarrow> length own = 32 \<Longrightarrow>
   match_lease (lease_text H own g p) = Some (to_hex H own, dec g, profile_as_wire_str p)"
proof -
  assume "hex_ok H" "length own = 32"
  have "own \<noteq> []" using \<open>length own = 32\<close> by auto
  then have "to_hex H own \<noteq> []" using \<open>hex_ok H\<close> by (simp add: hex_ok_def)
  with \<open>hex_ok H\<close> show ?thesis by (simp add: match_lease_def lease_text_split)
qed

abbreviation mk_lease :: "uuid \<Rightarrow> uuid \<Rightarrow> RuntimeId \<Rightarrow> nat \<Rightarrow> Profile \<Rightarrow> SessionLease" where
  "mk_lease c s own g p \<equiv> \<lparr>sl_community_id = c, sl_session_id = s, sl_owner_runtime_id = own,
     sl_generation = g, sl_profile = p\<rparr>"

lemma parse_lease_text:
  "hex_ok H \<Longrightarrow> length own = 32 \<Longrightarrow> 0 < g \<Longrightarrow> g < 2 ^ 64 \<Longrightarrow>
   parse_lease H c s (lease_text H own g p) = Inr (mk_lease c s own g p)"
  by (simp add: parse_lease_def lease_text_split parse_u64_dec) (simp add: hex_ok_def)

lemma lease_text_nonempty [simp]: "lease_value a b c \<noteq> []"
  by (simp add: lease_value_def)

lemma parse_generation_dec: "0 < g \<Longrightarrow> g < 2 ^ 64 \<Longrightarrow> parse_optional_generation c s (dec g) = Inr (Some g)"
  by (simp add: parse_optional_generation_def parse_u64_dec)

lemma owned_by_text:
  "hex_ok H \<Longrightarrow> length o' = 32 \<Longrightarrow>
   owned_by (to_hex H own) (dec g) (lease_text H o' g' p) \<longleftrightarrow> o' = own \<and> g' = g"
  by (simp add: owned_by_def match_lease_text dec_inj) (metis hex_ok_def option.inject)

text \<open>Different sessions use different keys.\<close>

lemma session_keys_inj:
  assumes "uuid_ok c" "uuid_ok s" "uuid_ok c'" "uuid_ok s'"
  shows "lease_key c s = lease_key c' s' \<longleftrightarrow> c = c' \<and> s = s'"
    and "generation_key c s = generation_key c' s' \<longleftrightarrow> c = c' \<and> s = s'"
    and "lease_key c s \<noteq> generation_key c' s'"
proof -
  have len: "length (session_key_base c s) = length (session_key_base c' s')"
    using assms by (simp add: session_key_base_def uuid_ok_def)
  have base: "session_key_base c s = session_key_base c' s' \<longleftrightarrow> c = c' \<and> s = s'"
    using assms by (simp add: session_key_base_def uuid_ok_def)
  show "lease_key c s = lease_key c' s' \<longleftrightarrow> c = c' \<and> s = s'" by (simp add: lease_key_def base)
  show "generation_key c s = generation_key c' s' \<longleftrightarrow> c = c' \<and> s = s'" by (simp add: generation_key_def base)
  have "length (lease_key c s) \<noteq> length (generation_key c' s')"
    using len by (simp add: lease_key_def generation_key_def)
  then show "lease_key c s \<noteq> generation_key c' s'" by metis
qed

subsection \<open>Redis holds a fence for every session\<close>

definition represents :: "hex_codec \<Rightarrow> uuid \<Rightarrow> uuid \<Rightarrow> fence \<Rightarrow> Redis \<Rightarrow> bool" where
  "represents H c s f r \<longleftrightarrow>
     fc_counter f < 2 ^ 63 \<and>
     hget r (generation_key c s) = (if fc_counter f = 0 then None else Some (dec (fc_counter f), None)) \<and>
     (case fc_holder f of
        None \<Rightarrow> hget r (lease_key c s) = None
      | Some (own, p, t) \<Rightarrow> length own = 32 \<and> 0 < fc_counter f \<and>
          hget r (lease_key c s) = Some (lease_text H own (fc_counter f) p, Some t))"

definition dir_inv :: "hex_codec \<Rightarrow> Redis \<Rightarrow> bool" where
  "dir_inv H r \<longleftrightarrow> hex_ok H \<and> (\<forall>c s. uuid_ok c \<longrightarrow> uuid_ok s \<longrightarrow> represents H c s (fence_of H c s r) r)"

lemma represents_fence_of:
  assumes "hex_ok H" "represents H c s f r"
  shows "fence_of H c s r = f"
proof (cases "fc_holder f")
  case None
  with assms(2) show ?thesis by (cases f) (auto simp: represents_def fence_of_def)
next
  case (Some h)
  obtain own p t where h: "h = (own, p, t)" by (cases h)
  with Some assms(2) have "parse_lease H c s (lease_text H own (fc_counter f) p) = Inr (mk_lease c s own (fc_counter f) p)"
    by (intro parse_lease_text [OF assms(1)]) (auto simp: represents_def)
  with Some h assms(2) show ?thesis by (cases f) (auto simp: represents_def fence_of_def)
qed

lemma dir_inv_iff:
  "hex_ok H \<Longrightarrow> dir_inv H r \<longleftrightarrow> (\<forall>c s. uuid_ok c \<longrightarrow> uuid_ok s \<longrightarrow> (\<exists>f. represents H c s f r))"
  unfolding dir_inv_def using represents_fence_of by blast

lemma represents_frame:
  assumes "represents H c' s' f r" "uuid_ok c" "uuid_ok s" "uuid_ok c'" "uuid_ok s'" "(c', s') \<noteq> (c, s)"
    and "\<And>k. k \<noteq> lease_key c s \<Longrightarrow> k \<noteq> generation_key c s \<Longrightarrow> hget r' k = hget r k"
  shows "represents H c' s' f r'"
proof -
  have "lease_key c' s' \<noteq> lease_key c s" "lease_key c' s' \<noteq> generation_key c s"
    "generation_key c' s' \<noteq> lease_key c s" "generation_key c' s' \<noteq> generation_key c s"
    using session_keys_inj [OF assms(4,5,2,3)] session_keys_inj(3) [OF assms(2,3,4,5)] assms(6) by auto
  with assms(1,7) show ?thesis by (cases "fc_holder f") (auto simp: represents_def)
qed

lemma redis_get_represents:
  assumes "represents H c s f r"
  shows "redis_get now (generation_key c s) r = (if fc_counter f = 0 then None else Some (dec (fc_counter f)))"
    and "redis_get now (lease_key c s) r =
      map_option (\<lambda>(own, p). lease_text H own (fc_counter f) p) (live_holder now f)"
    and "hget r (lease_key c s) = None \<or> snd (the (hget r (lease_key c s))) \<noteq> None"
  using assms by (auto simp: represents_def redis_get_def live_holder_def split: option.splits prod.splits)

lemma live_holder_facts:
  assumes "represents H c s f r" "live_holder now f = Some (own, p)"
  shows "length own = 32" "0 < fc_counter f" "fc_counter f < 2 ^ 64"
    "\<exists>t. fc_holder f = Some (own, p, t) \<and> now < t"
  using assms by (auto simp: represents_def live_holder_def split: option.splits if_splits)

subsection \<open>The operations implement the specification\<close>

definition untouched :: "uuid \<Rightarrow> uuid \<Rightarrow> Redis \<Rightarrow> Redis \<Rightarrow> bool" where
  "untouched c s r r' \<longleftrightarrow> (\<forall>k. k \<noteq> lease_key c s \<longrightarrow> k \<noteq> generation_key c s \<longrightarrow> hget r' k = hget r k)"

lemma untouched_refl [simp]: "untouched c s r r" by (simp add: untouched_def)

lemma acquire_represents:
  assumes H: "hex_ok H" and rep: "represents H c s f r" and own: "length own = 32" and ms: "ttl_ms ttl = Inr ttl"
    and keys: "lease_key c s \<noteq> generation_key c s"
  shows "represents H c s (take_fence now ttl own p f) (snd (acquire H ttl now c s own p r))"
    and "fst (acquire H ttl now c s own p r) =
      (case live_holder now f of
         Some (o', p') \<Rightarrow> Inr (Exists (mk_lease c s o' (fc_counter f) p'))
       | None \<Rightarrow> if fc_counter f + 1 < 2 ^ 63 then Inr (Acquired (mk_lease c s own (fc_counter f + 1) p))
                 else Inl RedisFailure)"
    and "untouched c s r (snd (acquire H ttl now c s own p r))"
proof -
  note get = redis_get_represents [OF rep]
  have cnt: "fc_counter f < 2 ^ 63" using rep by (simp add: represents_def)
  have "represents H c s (take_fence now ttl own p f) (snd (acquire H ttl now c s own p r)) \<and>
    fst (acquire H ttl now c s own p r) =
      (case live_holder now f of
         Some (o', p') \<Rightarrow> Inr (Exists (mk_lease c s o' (fc_counter f) p'))
       | None \<Rightarrow> if fc_counter f + 1 < 2 ^ 63 then Inr (Acquired (mk_lease c s own (fc_counter f + 1) p))
                 else Inl RedisFailure) \<and>
    untouched c s r (snd (acquire H ttl now c s own p r))"
  proof (cases "live_holder now f")
    case (Some h)
    obtain o' p' where h: "h = (o', p')" by (cases h)
    note live = live_holder_facts [OF rep Some [unfolded h]]
    have "acquire H ttl now c s own p r = (Inr (Exists (mk_lease c s o' (fc_counter f) p')), r)"
      using live parse_lease_text [OF H live(1,2,3)]
      by (simp add: acquire_def ms acquire_script_def get Some h)
    with rep show ?thesis by (simp add: take_fence_def Some h)
  next
    case None
    show ?thesis
    proof (cases "fc_counter f + 1 < 2 ^ 63")
      case False
      with cnt have "redis_incr now (generation_key c s) r = (None, r)"
        by (simp add: redis_incr_def get)
      then have "acquire H ttl now c s own p r = (Inl RedisFailure, r)"
        by (simp add: acquire_def ms acquire_script_def get None)
      with rep False None show ?thesis by (simp add: take_fence_def)
    next
      case True
      let ?n = "fc_counter f + 1"
      let ?r1 = "hput (generation_key c s) (dec ?n, None) r"
      have "hget r (generation_key c s) = (if fc_counter f = 0 then None else Some (dec (fc_counter f), None))"
        using rep by (simp add: represents_def)
      with True have incr: "redis_incr now (generation_key c s) r = (Some ?n, ?r1)"
        by (simp add: redis_incr_def get)
      have parse: "parse_lease H c s (lease_text H own ?n p) = Inr (mk_lease c s own ?n p)"
        using True by (intro parse_lease_text [OF H own]) simp_all
      have "acquire H ttl now c s own p r = (Inr (Acquired (mk_lease c s own ?n p)),
          redis_set_px now (lease_key c s) (lease_text H own ?n p) ttl ?r1)"
        using parse by (simp add: acquire_def ms acquire_script_def get None incr Let_def)
      moreover have "represents H c s (take_fence now ttl own p f)
          (redis_set_px now (lease_key c s) (lease_text H own ?n p) ttl ?r1)"
        using True None own keys by (simp add: represents_def take_fence_def redis_set_px_def)
      ultimately show ?thesis using None True by (simp add: untouched_def redis_set_px_def)
    qed
  qed
  then show "represents H c s (take_fence now ttl own p f) (snd (acquire H ttl now c s own p r))"
    and "fst (acquire H ttl now c s own p r) =
      (case live_holder now f of
         Some (o', p') \<Rightarrow> Inr (Exists (mk_lease c s o' (fc_counter f) p'))
       | None \<Rightarrow> if fc_counter f + 1 < 2 ^ 63 then Inr (Acquired (mk_lease c s own (fc_counter f + 1) p))
                 else Inl RedisFailure)"
    and "untouched c s r (snd (acquire H ttl now c s own p r))" by blast+
qed

text \<open>What the directory reports about a session it does not let the caller keep.\<close>

definition current_lease :: "uuid \<Rightarrow> uuid \<Rightarrow> instant \<Rightarrow> fence \<Rightarrow> SessionLease option" where
  "current_lease c s now f = map_option (\<lambda>(o', p'). mk_lease c s o' (fc_counter f) p') (live_holder now f)"

definition known_counter :: "fence \<Rightarrow> nat option" where
  "known_counter f = (if fc_counter f = 0 then None else Some (fc_counter f))"

lemma known_or_represents:
  assumes "represents H c s f r" "live_holder now f = Some h"
  shows "known_or now (generation_key c s) v r = dec (fc_counter f)"
proof -
  obtain own p where "h = (own, p)" by (cases h)
  with assms live_holder_facts(2) [of H c s f r now own p] redis_get_represents(1) [OF assms(1), of now]
  show ?thesis by (simp add: known_or_def)
qed

lemma parse_known:
  assumes "represents H c s f r"
  shows "parse_optional_generation c s (or_empty (redis_get now (generation_key c s) r)) = Inr (known_counter f)"
  using redis_get_represents(1) [OF assms] assms parse_generation_dec [of "fc_counter f" c s]
  by (auto simp: or_empty_def known_counter_def represents_def parse_optional_generation_def [of c s "[]"])

lemma renew_represents:
  assumes H: "hex_ok H" and rep: "represents H c s f r" and l: "sl_community_id l = c" "sl_session_id l = s"
    and ms: "ttl_ms ttl = Inr ttl" and keys: "lease_key c s \<noteq> generation_key c s"
  shows "represents H c s (keep_fence now ttl (sl_owner_runtime_id l) (sl_generation l) f) (snd (renew H ttl now l r)) \<and>
    fst (renew H ttl now l r) = Some (Inr
      (if owns_fence now (sl_owner_runtime_id l) (sl_generation l) f then Renewed (the (current_lease c s now f))
       else Lost (current_lease c s now f) (known_counter f))) \<and>
    untouched c s r (snd (renew H ttl now l r))"
proof (cases "live_holder now f")
  case None
  have "renew H ttl now l r = (Some (Inr (Lost None (known_counter f))), r)"
    using parse_known [OF rep, of now] redis_get_represents(1,2) [OF rep, of now] None
    by (simp add: renew_def l ms renew_script_def parse_optional_lease_def)
  with rep None show ?thesis by (simp add: keep_fence_def owns_fence_def current_lease_def)
next
  case (Some h)
  obtain o' p' where h: "h = (o', p')" by (cases h)
  note live = live_holder_facts [OF rep Some [unfolded h]]
  obtain t where t: "fc_holder f = Some (o', p', t)" using live(4) by blast
  have get: "redis_get now (lease_key c s) r = Some (lease_text H o' (fc_counter f) p')"
    using redis_get_represents(2) [OF rep, of now] by (simp add: Some h)
  have parse: "parse_optional_lease H c s (lease_text H o' (fc_counter f) p') = Inr (Some (mk_lease c s o' (fc_counter f) p'))"
    using parse_lease_text [OF H live(1,2,3)] by (simp add: parse_optional_lease_def)
  have owned: "owned_by (to_hex H (sl_owner_runtime_id l)) (dec (sl_generation l)) (lease_text H o' (fc_counter f) p') \<longleftrightarrow>
      owns_fence now (sl_owner_runtime_id l) (sl_generation l) f"
    using owned_by_text [OF H live(1)] by (auto simp: owns_fence_def Some h)
  have known: "parse_optional_generation c s (known_or now (generation_key c s) v r) = Inr (Some (fc_counter f))" for v
    using known_or_represents [OF rep Some] parse_generation_dec live(2,3) by simp
  show ?thesis
  proof (cases "owns_fence now (sl_owner_runtime_id l) (sl_generation l) f")
    case True
    have "renew H ttl now l r = (Some (Inr (Renewed (mk_lease c s o' (fc_counter f) p'))),
        hput (lease_key c s) (lease_text H o' (fc_counter f) p', Some (now + ttl)) r)"
      using parse owned True
      by (simp add: renew_def l ms renew_script_def get redis_pexpire_def)
    moreover have "represents H c s (keep_fence now ttl (sl_owner_runtime_id l) (sl_generation l) f)
        (hput (lease_key c s) (lease_text H o' (fc_counter f) p', Some (now + ttl)) r)"
      using rep True t keys by (simp add: represents_def keep_fence_def)
    ultimately show ?thesis using True by (simp add: current_lease_def Some h untouched_def)
  next
    case False
    have "renew H ttl now l r = (Some (Inr (Lost (Some (mk_lease c s o' (fc_counter f) p')) (Some (fc_counter f)))), r)"
      using parse owned False known
      by (simp add: renew_def l ms renew_script_def get)
    with rep False live(2) show ?thesis by (simp add: keep_fence_def current_lease_def Some h known_counter_def)
  qed
qed

lemma release_represents:
  assumes H: "hex_ok H" and rep: "represents H c s f r" and l: "sl_community_id l = c" "sl_session_id l = s"
    and keys: "lease_key c s \<noteq> generation_key c s"
  shows "represents H c s (drop_fence now (sl_owner_runtime_id l) (sl_generation l) f) (snd (release H now l r)) \<and>
    fst (release H now l r) = Some (Inr
      (if owns_fence now (sl_owner_runtime_id l) (sl_generation l) f then Released (the (current_lease c s now f))
       else NotOwner (current_lease c s now f) (known_counter f))) \<and>
    untouched c s r (snd (release H now l r))"
proof (cases "live_holder now f")
  case None
  have "release H now l r = (Some (Inr (NotOwner None (known_counter f))), r)"
    using parse_known [OF rep, of now] redis_get_represents(1,2) [OF rep, of now] None
    by (simp add: release_def l release_script_def parse_optional_lease_def)
  with rep None show ?thesis by (simp add: drop_fence_def owns_fence_def current_lease_def)
next
  case (Some h)
  obtain o' p' where h: "h = (o', p')" by (cases h)
  note live = live_holder_facts [OF rep Some [unfolded h]]
  have get: "redis_get now (lease_key c s) r = Some (lease_text H o' (fc_counter f) p')"
    using redis_get_represents(2) [OF rep, of now] by (simp add: Some h)
  have parse: "parse_optional_lease H c s (lease_text H o' (fc_counter f) p') = Inr (Some (mk_lease c s o' (fc_counter f) p'))"
    using parse_lease_text [OF H live(1,2,3)] by (simp add: parse_optional_lease_def)
  have owned: "owned_by (to_hex H (sl_owner_runtime_id l)) (dec (sl_generation l)) (lease_text H o' (fc_counter f) p') \<longleftrightarrow>
      owns_fence now (sl_owner_runtime_id l) (sl_generation l) f"
    using owned_by_text [OF H live(1)] by (auto simp: owns_fence_def Some h)
  have known: "parse_optional_generation c s (known_or now (generation_key c s) v r) = Inr (Some (fc_counter f))" for v
    using known_or_represents [OF rep Some] parse_generation_dec live(2,3) by simp
  show ?thesis
    using parse owned known rep live(2) keys
    by (simp add: release_def l release_script_def get drop_fence_def current_lease_def Some h known_counter_def
        untouched_def redis_del_def) (auto simp: represents_def)
qed

text \<open>The verdict on a frame is a function of the fence.\<close>

definition fence_verdict :: "instant \<Rightarrow> FencedHeader \<Rightarrow> fence \<Rightarrow> MeshError + unit" where
  "fence_verdict now h f =
     (if fh_generation h < fc_counter f
      then Inl (StaleGenerationError (fh_session_id h) (fh_generation h) (fc_counter f))
      else case live_holder now f of
          None \<Rightarrow> Inl (NoActiveLease (fh_session_id h) (fh_generation h) (fc_counter f) (fh_owner_runtime_id h))
        | Some (own, _) \<Rightarrow>
            if fh_generation h \<noteq> fc_counter f
            then Inl (FutureGeneration (fh_session_id h) (fh_generation h) (fc_counter f))
            else if fh_owner_runtime_id h \<noteq> own
            then Inl (OwnerMismatch (fh_session_id h) (fh_generation h) (fh_owner_runtime_id h) own)
            else Inr ())"

lemma validate_represents:
  assumes H: "hex_ok H" and rep: "represents H c (fh_session_id h) f r"
  shows "validate_fenced_header H now c h r = fence_verdict now h f"
proof (cases "live_holder now f")
  case None
  have "redis_get now (lease_key c (fh_session_id h)) r = None"
    using redis_get_represents(2) [OF rep, of now] by (simp add: None)
  then show ?thesis
    using parse_known [OF rep, of now] None
    by (simp add: validate_fenced_header_def validate_script_def fence_verdict_def or_empty_def [of None]
        parse_optional_lease_def known_counter_def Let_def)
next
  case (Some hd')
  obtain o' p' where hd': "hd' = (o', p')" by (cases hd')
  note live = live_holder_facts [OF rep Some [unfolded hd']]
  have "redis_get now (lease_key c (fh_session_id h)) r = Some (lease_text H o' (fc_counter f) p')"
    using redis_get_represents(2) [OF rep, of now] by (simp add: Some hd')
  then show ?thesis
    using parse_known [OF rep, of now] Some hd' live parse_lease_text [OF H live(1,2,3)]
    by (simp add: validate_fenced_header_def validate_script_def fence_verdict_def or_empty_def [of "Some _"]
        parse_optional_lease_def known_counter_def Let_def)
qed

lemma lookup_represents:
  assumes H: "hex_ok H" and rep: "represents H c s f r"
  shows "lookup_lease H now c s r = Inr (current_lease c s now f)"
    and "known_generation now c s r = Inr (known_counter f)"
proof -
  show "lookup_lease H now c s r = Inr (current_lease c s now f)"
  proof (cases "live_holder now f")
    case None
    then show ?thesis
      using redis_get_represents(2) [OF rep, of now] by (simp add: lookup_lease_def current_lease_def)
  next
    case (Some hd')
    obtain o' p' where hd': "hd' = (o', p')" by (cases hd')
    note live = live_holder_facts [OF rep Some [unfolded hd']]
    show ?thesis
      using redis_get_represents(2) [OF rep, of now] parse_lease_text [OF H live(1,2,3)]
      by (simp add: lookup_lease_def current_lease_def Some hd')
  qed
  show "known_generation now c s r = Inr (known_counter f)"
    using parse_known [OF rep, of now] redis_get_represents(1) [OF rep, of now]
    by (simp add: known_generation_def or_empty_def known_counter_def split: if_splits)
qed

subsection \<open>The directory as a machine\<close>

text \<open>
  Time passes, Redis drops a value whose expiry is over, and any runtime acquires, renews or
  releases any session with any arguments.
\<close>

inductive dir_step :: "hex_codec \<Rightarrow> instant \<times> Redis \<Rightarrow> instant \<times> Redis \<Rightarrow> bool" for H where
  tick: "now \<le> now' \<Longrightarrow> dir_step H (now, r) (now', r)"
| evict: "hget r k = Some (v, Some t) \<Longrightarrow> t \<le> now \<Longrightarrow> dir_step H (now, r) (now, hdel k r)"
| acquire: "uuid_ok c \<Longrightarrow> uuid_ok s \<Longrightarrow> length own = 32 \<Longrightarrow>
    dir_step H (now, r) (now, snd (acquire H ttl now c s own p r))"
| renew: "uuid_ok (sl_community_id l) \<Longrightarrow> uuid_ok (sl_session_id l) \<Longrightarrow>
    dir_step H (now, r) (now, snd (renew H ttl now l r))"
| release: "uuid_ok (sl_community_id l) \<Longrightarrow> uuid_ok (sl_session_id l) \<Longrightarrow>
    dir_step H (now, r) (now, snd (release H now l r))"

inductive_cases dir_stepE: "dir_step H x y"

definition dir_start :: "hex_codec \<Rightarrow> instant \<times> Redis \<Rightarrow> bool" where
  "dir_start H x \<longleftrightarrow> hex_ok H \<and> snd x = []"

text \<open>What a step may do to a fence: its counter never falls, and a holder of an unchanged
  counter is the holder the fence had.\<close>

definition fence_le :: "fence \<Rightarrow> fence \<Rightarrow> bool" where
  "fence_le f f' \<longleftrightarrow> fc_counter f \<le> fc_counter f' \<and>
     (fc_counter f' = fc_counter f \<longrightarrow>
       (\<forall>own p t. fc_holder f' = Some (own, p, t) \<longrightarrow> (\<exists>t'. fc_holder f = Some (own, p, t'))))"

lemma fence_le_refl [simp]: "fence_le f f" by (simp add: fence_le_def)

lemma fence_le_trans:
  assumes "fence_le f g" "fence_le g h"
  shows "fence_le f h"
proof -
  have "fc_counter g = fc_counter f \<and> fc_counter h = fc_counter g" if "fc_counter h = fc_counter f"
    using assms that by (simp add: fence_le_def)
  moreover have "fc_counter f \<le> fc_counter h" using assms by (simp add: fence_le_def)
  ultimately show ?thesis using assms unfolding fence_le_def by blast
qed

lemma fence_le_ops:
  "fence_le f (take_fence now ttl own p f)" "fence_le f (keep_fence now ttl own g f)"
  "fence_le f (drop_fence now own g f)" "fence_le f (f\<lparr>fc_holder := None\<rparr>)"
  by (auto simp: fence_le_def take_fence_def keep_fence_def drop_fence_def)

text \<open>A step that leaves the keys of other sessions alone moves every fence forward.\<close>

lemma session_step:
  assumes inv: "dir_inv H r" and ok: "uuid_ok c" "uuid_ok s"
    and rep: "represents H c s f' r'" and le: "fence_le (fence_of H c s r) f'" and other: "untouched c s r r'"
  shows "dir_inv H r' \<and> (\<forall>c' s'. uuid_ok c' \<longrightarrow> uuid_ok s' \<longrightarrow> fence_le (fence_of H c' s' r) (fence_of H c' s' r'))"
proof -
  have H: "hex_ok H" using inv by (simp add: dir_inv_def)
  have "represents H c' s' (if (c', s') = (c, s) then f' else fence_of H c' s' r) r'"
    if "uuid_ok c'" "uuid_ok s'" for c' s'
    using rep represents_frame [of H c' s' "fence_of H c' s' r" r c s r'] that ok inv other
    by (auto simp: dir_inv_def untouched_def)
  note reps = this
  have "fence_le (fence_of H c' s' r) (fence_of H c' s' r')" if "uuid_ok c'" "uuid_ok s'" for c' s'
    using represents_fence_of [OF H reps [OF that]] le by (auto split: if_splits)
  moreover have "dir_inv H r'" using dir_inv_iff [OF H] reps by blast
  ultimately show ?thesis by blast
qed

lemma evict_represents:
  assumes "represents H c s f r" "hget r k = Some (v, Some t)"
  shows "represents H c s (if k = lease_key c s then f\<lparr>fc_holder := None\<rparr> else f) (hdel k r)"
  using assms by (auto simp: represents_def split: if_splits option.splits)

lemma dir_step_forward:
  assumes inv: "dir_inv H (snd x)" and "dir_step H x y"
  shows "dir_inv H (snd y) \<and>
    (\<forall>c s. uuid_ok c \<longrightarrow> uuid_ok s \<longrightarrow> fence_le (fence_of H c s (snd x)) (fence_of H c s (snd y)))"
proof -
  have H: "hex_ok H" using inv by (simp add: dir_inv_def)
  have rep: "represents H c s (fence_of H c s (snd x)) (snd x)" if "uuid_ok c" "uuid_ok s" for c s
    using inv that by (simp add: dir_inv_def)
  have keys: "lease_key c s \<noteq> generation_key c s" if "uuid_ok c" "uuid_ok s" for c s
    using session_keys_inj(3) [OF that that] .
  from assms(2) show ?thesis
  proof cases
    case (tick now now' r)
    with inv show ?thesis by simp
  next
    case (evict r k v t now)
    have "represents H c s (if k = lease_key c s then fence_of H c s r\<lparr>fc_holder := None\<rparr> else fence_of H c s r)
        (hdel k r)" if "uuid_ok c" "uuid_ok s" for c s
      using evict_represents [of H c s "fence_of H c s r" r k v t] rep [OF that] evict by simp
    note reps = this
    have "fence_le (fence_of H c s r) (fence_of H c s (hdel k r))" if "uuid_ok c" "uuid_ok s" for c s
      using represents_fence_of [OF H reps [OF that]] by (auto simp: fence_le_ops)
    moreover have "dir_inv H (hdel k r)" using dir_inv_iff [OF H] reps by blast
    ultimately show ?thesis using evict by simp
  next
    case (acquire c s own now r ttl p)
    show ?thesis
    proof (cases "ttl_ms ttl")
      case (Inl e)
      with acquire inv show ?thesis by (simp add: acquire_def)
    next
      case (Inr ms)
      then have "ttl_ms ttl = Inr ttl" by (auto simp: ttl_ms_def split: if_splits)
      note ar = acquire_represents [OF H rep [OF acquire(3,4)] acquire(5) this keys [OF acquire(3,4)]]
      show ?thesis
        using session_step [OF inv acquire(3,4) ar(1) fence_le_ops(1) ar(3)] acquire(1,2) by simp
    qed
  next
    case (renew l now r ttl)
    show ?thesis
    proof (cases "ttl_ms ttl")
      case (Inl e)
      with renew inv show ?thesis by (simp add: renew_def)
    next
      case (Inr ms)
      then have "ttl_ms ttl = Inr ttl" by (auto simp: ttl_ms_def split: if_splits)
      note ar = renew_represents [OF H rep [OF renew(3,4)] refl refl this keys [OF renew(3,4)]]
      show ?thesis
        using session_step [OF inv renew(3,4) conjunct1 [OF ar] fence_le_ops(2)] ar renew(1,2) by simp
    qed
  next
    case (release l now r)
    note ar = release_represents [OF H rep [OF release(3,4)] refl refl keys [OF release(3,4)]]
    show ?thesis
      using session_step [OF inv release(3,4) conjunct1 [OF ar] fence_le_ops(3)] ar release(1,2) by simp
  qed
qed


interpretation directory: inv_machine "dir_start H" "dir_step H" "\<lambda>x. dir_inv H (snd x)" for H
proof unfold_locales
  fix x :: "instant \<times> Redis"
  assume "dir_start H x"
  moreover have "represents H c s \<lparr>fc_counter = 0, fc_holder = None\<rparr> []" for c s by (simp add: represents_def)
  ultimately show "dir_inv H (snd x)" using dir_inv_iff by (auto simp: dir_start_def)
qed (simp add: dir_step_forward)

lemma run_fence_le:
  assumes "(dir_step H)\<^sup>*\<^sup>* x y" "dir_inv H (snd x)" "uuid_ok c" "uuid_ok s"
  shows "fence_le (fence_of H c s (snd x)) (fence_of H c s (snd y))"
  using assms(1,2)
  by (rule directory.path_fact [where R = "\<lambda>x y. fence_le (fence_of H c s (snd x)) (fence_of H c s (snd y))", rotated 3])
    (use dir_step_forward assms(3,4) fence_le_trans in \<open>auto\<close>)

text \<open>
  C4. The directory implements one fence per session. In every state a run can reach, each operation on
  a session changes that session's fence as specified (acquire takes it exactly when nobody holds it,
  with the next generation; renew prolongs and release ends the hold of the exact owner and
  generation only), reports what the fence says, and leaves the fences of all other sessions alone;
  no operation reaches an \<open>expect\<close> that fails, and look-ups read the fence.
\<close>

theorem directory_refines_fence:
  assumes "dir_start H x" "(dir_step H)\<^sup>*\<^sup>* x (now, r)" and ok: "uuid_ok c" "uuid_ok s" "length own = 32" "ttl_ms ttl = Inr ttl"
    and l_def: "l = mk_lease c s own g p" and f_def: "f = fence_of H c s r"
  shows "fence_of H c s (snd (acquire H ttl now c s own p r)) = take_fence now ttl own p f \<and>
    fst (acquire H ttl now c s own p r) =
      (case live_holder now f of
         Some (o', p') \<Rightarrow> Inr (Exists (mk_lease c s o' (fc_counter f) p'))
       | None \<Rightarrow> if fc_counter f + 1 < 2 ^ 63 then Inr (Acquired (mk_lease c s own (fc_counter f + 1) p))
                 else Inl RedisFailure) \<and>
    fence_of H c s (snd (renew H ttl now l r)) = keep_fence now ttl own g f \<and>
    fst (renew H ttl now l r) = Some (Inr
      (if owns_fence now own g f then Renewed (the (current_lease c s now f))
       else Lost (current_lease c s now f) (known_counter f))) \<and>
    fence_of H c s (snd (release H now l r)) = drop_fence now own g f \<and>
    fst (release H now l r) = Some (Inr
      (if owns_fence now own g f then Released (the (current_lease c s now f))
       else NotOwner (current_lease c s now f) (known_counter f))) \<and>
    lookup_lease H now c s r = Inr (current_lease c s now f) \<and>
    known_generation now c s r = Inr (known_counter f) \<and>
    (\<forall>c' s'. uuid_ok c' \<longrightarrow> uuid_ok s' \<longrightarrow> (c', s') \<noteq> (c, s) \<longrightarrow>
      fence_of H c' s' (snd (acquire H ttl now c s own p r)) = fence_of H c' s' r \<and>
      fence_of H c' s' (snd (renew H ttl now l r)) = fence_of H c' s' r \<and>
      fence_of H c' s' (snd (release H now l r)) = fence_of H c' s' r)"
proof -
  have inv: "dir_inv H r" using directory.reachable_inv [OF assms(1,2)] by simp
  then have H: "hex_ok H" and rep: "represents H c s f r" using ok by (simp_all add: dir_inv_def f_def)
  have l: "sl_community_id l = c" "sl_session_id l = s" "sl_owner_runtime_id l = own" "sl_generation l = g"
    by (simp_all add: l_def)
  note keys = session_keys_inj(3) [OF ok(1,2,1,2)]
  note a = acquire_represents [OF H rep ok(3,4) keys]
  note n = renew_represents [OF H rep l(1,2) ok(4) keys, unfolded l]
  note d = release_represents [OF H rep l(1,2) keys, unfolded l]
  have other: "fence_of H c' s' r' = fence_of H c' s' r"
    if "uuid_ok c'" "uuid_ok s'" "(c', s') \<noteq> (c, s)" "untouched c s r r'" for c' s' r'
    using represents_fence_of [OF H represents_frame [of H c' s' "fence_of H c' s' r" r c s r']] that inv ok
    by (auto simp: dir_inv_def untouched_def)
  note fences = represents_fence_of [OF H a(1)] represents_fence_of [OF H conjunct1 [OF n]]
    represents_fence_of [OF H conjunct1 [OF d]]
  note results = a(2) conjunct1 [OF conjunct2 [OF n]] conjunct1 [OF conjunct2 [OF d]]
  note others = a(3) conjunct2 [OF conjunct2 [OF n]] conjunct2 [OF conjunct2 [OF d]]
  show ?thesis
    by (intro conjI allI impI; (rule fences results lookup_represents [OF H rep] | rule other, assumption+, rule others))
qed

text \<open>
  The guard of every hop decides a frame by the fence of its session: in every reachable state
  it accepts exactly the frames of the live holder under the current generation; an older
  generation is stale, a frame without live holder, with a newer generation or from another
  runtime is refused with the error that says so.
\<close>

theorem validate_fenced_header_exact:
  assumes "dir_start H x" "(dir_step H)\<^sup>*\<^sup>* x (now, r)" "uuid_ok c" "uuid_ok (fh_session_id h)"
  shows "validate_fenced_header H now c h r = fence_verdict now h (fence_of H c (fh_session_id h) r) \<and>
    (validate_fenced_header H now c h r = Inr () \<longleftrightarrow>
      (\<exists>l. lookup_lease H now c (fh_session_id h) r = Inr (Some l) \<and> h = fenced_header l))"
proof -
  have inv: "dir_inv H r" using directory.reachable_inv [OF assms(1,2)] by simp
  let ?f = "fence_of H c (fh_session_id h) r"
  from inv have H: "hex_ok H" and rep: "represents H c (fh_session_id h) ?f r"
    using assms(3,4) by (simp_all add: dir_inv_def)
  have v: "validate_fenced_header H now c h r = fence_verdict now h ?f"
    by (rule validate_represents [OF H rep])
  have "fence_verdict now h ?f = Inr () \<longleftrightarrow>
      (\<exists>l. current_lease c (fh_session_id h) now ?f = Some l \<and> h = fenced_header l)"
  proof (cases "live_holder now ?f")
    case None
    then show ?thesis by (auto simp: fence_verdict_def current_lease_def)
  next
    case (Some hd')
    obtain o' p' where "hd' = (o', p')" by (cases hd')
    with Some show ?thesis by (cases h) (auto simp: fence_verdict_def current_lease_def fenced_header_def)
  qed
  with v lookup_represents(1) [OF H rep, of now] show ?thesis by simp
qed

text \<open>The fence after an acquisition and any further run, and what it says about frames.\<close>

lemma fence_after_acquire:
  assumes "dir_start H x" "(dir_step H)\<^sup>*\<^sup>* x (now, r)" "uuid_ok c" "uuid_ok s" "length own = 32" "ttl_ms ttl = Inr ttl"
    and got: "acquire H ttl now c s own p r = (Inr (Acquired l), r')"
    and later: "(dir_step H)\<^sup>*\<^sup>* (now, r') (now'', r'')"
  shows "dir_inv H r''" and "represents H c s (fence_of H c s r'') r''"
    and "sl_generation l \<le> fc_counter (fence_of H c s r'')"
    and "fc_counter (fence_of H c s r'') = sl_generation l \<Longrightarrow>
      live_holder now'' (fence_of H c s r'') = Some (own', p') \<Longrightarrow> own' = own"
    and "fh_session_id h = s \<Longrightarrow> validate_fenced_header H now'' c h r'' = fence_verdict now'' h (fence_of H c s r'')"
proof -
  have inv: "dir_inv H r" using directory.reachable_inv [OF assms(1,2)] by simp
  then have H: "hex_ok H" and rep: "represents H c s (fence_of H c s r) r" using assms(3,4) by (simp_all add: dir_inv_def)
  let ?f = "fence_of H c s r"
  let ?f' = "\<lparr>fc_counter = fc_counter ?f + 1, fc_holder = Some (own, p, now + ttl)\<rparr>"
  note a = acquire_represents [OF H rep assms(5,6) session_keys_inj(3) [OF assms(3,4,3,4)], of now p]
  have none: "live_holder now ?f = None" and small: "fc_counter ?f + 1 < 2 ^ 63" and l: "sl_generation l = fc_counter ?f + 1"
    using a(2) got by (auto split: option.splits if_splits)
  have f': "fence_of H c s r' = ?f'"
    using represents_fence_of [OF H a(1)] got none small by (simp add: take_fence_def)
  have step: "dir_step H (now, r) (now, r')"
    using dir_step.acquire [of c s own H now r ttl p] assms(3,4,5) got by simp
  have inv': "dir_inv H (snd (now, r'))" using directory.step_inv [OF _ step] inv by simp
  have le: "fence_le ?f' (fence_of H c s r'')" (is "fence_le _ ?g")
    using run_fence_le [OF later inv' assms(3,4)] by (simp add: f')
  show inv'': "dir_inv H r''" using directory.steps_inv [OF later] inv' by simp
  then show rep'': "represents H c s ?g r''" using assms(3,4) by (simp add: dir_inv_def)
  show "validate_fenced_header H now'' c h r'' = fence_verdict now'' h ?g" if "fh_session_id h = s"
    using validate_represents [OF H, of c h ?g r''] rep'' that by simp
  show "sl_generation l \<le> fc_counter ?g" using le by (simp add: fence_le_def l)
  show "own' = own" if "fc_counter ?g = sl_generation l" "live_holder now'' ?g = Some (own', p')"
    using le that by (auto simp: fence_le_def l live_holder_def split: option.splits if_splits)
qed

text \<open>
  C13. Fencing: once a runtime has acquired a session, whatever happens afterwards (expiry, eviction,
  renewals, releases, other runtimes taking over) no frame of an older generation passes the guard
  again, no other runtime's frame passes under the acquired generation, and whoever acquires the
  session later gets a strictly larger generation.
\<close>

theorem fenced_out_forever:
  assumes "dir_start H x" "(dir_step H)\<^sup>*\<^sup>* x (now, r)" "uuid_ok c" "uuid_ok s" "length own = 32" "ttl_ms ttl = Inr ttl"
    and got: "acquire H ttl now c s own p r = (Inr (Acquired l), r')"
    and later: "(dir_step H)\<^sup>*\<^sup>* (now, r') (now'', r'')"
  shows "(\<forall>h. fh_session_id h = s \<longrightarrow> fh_generation h < sl_generation l \<longrightarrow>
      (\<exists>known. sl_generation l \<le> known \<and>
        validate_fenced_header H now'' c h r'' = Inl (StaleGenerationError s (fh_generation h) known))) \<and>
    (\<forall>h. fh_session_id h = s \<longrightarrow> fh_generation h = sl_generation l \<longrightarrow>
      validate_fenced_header H now'' c h r'' = Inr () \<longrightarrow> fh_owner_runtime_id h = own) \<and>
    (\<forall>ttl' own' p' l' r3. length own' = 32 \<longrightarrow> ttl_ms ttl' = Inr ttl' \<longrightarrow>
      acquire H ttl' now'' c s own' p' r'' = (Inr (Acquired l'), r3) \<longrightarrow> sl_generation l < sl_generation l')"
proof -
  note after = fence_after_acquire [OF assms]
  let ?g = "fence_of H c s r''"
  have H: "hex_ok H" using assms(1) by (simp add: dir_start_def)
  have gen: "sl_generation l < sl_generation l'"
    if "acquire H ttl' now'' c s own' p' r'' = (Inr (Acquired l'), r3)" "length own' = 32" "ttl_ms ttl' = Inr ttl'"
    for ttl' own' p' l' r3
    using acquire_represents(2) [OF H after(2) that(2,3) session_keys_inj(3) [OF assms(3,4,3,4)], of now'' p'] that(1) after(3)
    by (auto split: option.splits if_splits)
  have stale: "\<exists>known. sl_generation l \<le> known \<and>
      fence_verdict now'' h ?g = Inl (StaleGenerationError s (fh_generation h) known)"
    if "fh_session_id h = s" "fh_generation h < sl_generation l" for h
    using that after(3) by (auto simp: fence_verdict_def)
  have owner: "fh_owner_runtime_id h = own"
    if "fence_verdict now'' h ?g = Inr ()" "fh_generation h = sl_generation l" for h
    using that after(4) by (auto simp: fence_verdict_def split: option.splits if_splits)
  show ?thesis
    by (intro conjI allI impI) (simp_all only: after(5) stale, rule owner, simp_all only: after(5), rule gen)
qed

subsection \<open>A concrete run\<close>

definition demo_nib :: "nat \<Rightarrow> char" where "demo_nib n = char_of (if n < 10 then 48 + n else 87 + n)"

definition demo_unnib :: "char \<Rightarrow> nat" where
  "demo_unnib ch = (let n = of_char ch in if n < 58 then n - 48 else n - 87)"

definition demo_to_hex :: "bytes \<Rightarrow> string" where
  "demo_to_hex b = concat (map (\<lambda>x. [demo_nib (unat x div 16), demo_nib (unat x mod 16)]) b)"

fun demo_from_hex :: "string \<Rightarrow> bytes option" where
  "demo_from_hex [] = Some []"
| "demo_from_hex [_] = None"
| "demo_from_hex (x # y # s) = map_option ((#) (word_of_nat (16 * demo_unnib x + demo_unnib y))) (demo_from_hex s)"

definition demo_hex :: hex_codec where "demo_hex = \<lparr>to_hex = demo_to_hex, from_hex = demo_from_hex\<rparr>"

lemma demo_nib: "n < 16 \<Longrightarrow> demo_unnib (demo_nib n) = n" "n < 16 \<Longrightarrow> demo_nib n \<noteq> bar"
  by (auto simp: demo_nib_def demo_unnib_def bar_def Let_def char_of_eq_iff take_bit_eq_mod dest: arg_cong [where f = of_char])

lemma demo_hex_ok [simp]: "hex_ok demo_hex"
proof -
  have lt: "unat (x :: byte) div 16 < 16" for x using unat_byte_bound [of x] by (simp add: less_mult_imp_div_less)
  have "demo_from_hex (demo_to_hex b) = Some b" for b
    by (induction b) (simp_all add: demo_to_hex_def demo_nib lt)
  moreover have "bar \<notin> set (demo_to_hex b)" for b
    using demo_nib(2) [OF lt, THEN not_sym] demo_nib(2) [of "unat _ mod 16", THEN not_sym] by (auto simp: demo_to_hex_def)
  moreover have "b \<noteq> [] \<longrightarrow> demo_to_hex b \<noteq> []" for b by (cases b) (simp_all add: demo_to_hex_def)
  ultimately show ?thesis by (simp add: hex_ok_def demo_hex_def)
qed

definition demo_uuid :: "char \<Rightarrow> uuid" where "demo_uuid ch = replicate 36 ch"
definition demo_runtime :: "nat \<Rightarrow> RuntimeId" where "demo_runtime n = replicate 32 (word_of_nat n)"

definition demo_header :: "nat \<Rightarrow> FencedHeader" where
  "demo_header g = \<lparr>fh_session_id = demo_uuid (CHR ''s''), fh_generation = g, fh_owner_runtime_id = demo_runtime 1\<rparr>"

lemma demo_ok [simp]: "uuid_ok (demo_uuid ch)" "length (demo_runtime n) = 32" "dir_start demo_hex (0, [])"
  by (simp_all add: uuid_ok_def demo_uuid_def demo_runtime_def dir_start_def)

lemma demo_ttl [simp]: "ttl_ms 30000 = Inr 30000" by (simp add: ttl_ms_def)

definition demo_taken :: Redis where
  "demo_taken = snd (acquire demo_hex 30000 0 (demo_uuid (CHR ''c'')) (demo_uuid (CHR ''s'')) (demo_runtime 1) HuddleControl [])"

lemma demo_taken_facts:
  "fence_of demo_hex (demo_uuid (CHR ''c'')) (demo_uuid (CHR ''s'')) demo_taken =
     \<lparr>fc_counter = 1, fc_holder = Some (demo_runtime 1, HuddleControl, 30000)\<rparr>"
  "acquire demo_hex 30000 0 (demo_uuid (CHR ''c'')) (demo_uuid (CHR ''s'')) (demo_runtime 1) HuddleControl [] =
     (Inr (Acquired (mk_lease (demo_uuid (CHR ''c'')) (demo_uuid (CHR ''s'')) (demo_runtime 1) 1 HuddleControl)), demo_taken)"
  "(dir_step demo_hex)\<^sup>*\<^sup>* (0, []) (0, demo_taken)"
proof -
  have rep: "represents demo_hex c s \<lparr>fc_counter = 0, fc_holder = None\<rparr> []" for c s by (simp add: represents_def)
  note a = acquire_represents [OF demo_hex_ok rep demo_ok(2) demo_ttl session_keys_inj(3) [OF demo_ok(1,1,1,1)]]
  show "fence_of demo_hex (demo_uuid (CHR ''c'')) (demo_uuid (CHR ''s'')) demo_taken =
     \<lparr>fc_counter = 1, fc_holder = Some (demo_runtime 1, HuddleControl, 30000)\<rparr>"
    unfolding demo_taken_def
    using represents_fence_of [OF demo_hex_ok a(1)] by (simp add: take_fence_def live_holder_def)
  show "acquire demo_hex 30000 0 (demo_uuid (CHR ''c'')) (demo_uuid (CHR ''s'')) (demo_runtime 1) HuddleControl [] =
     (Inr (Acquired (mk_lease (demo_uuid (CHR ''c'')) (demo_uuid (CHR ''s'')) (demo_runtime 1) 1 HuddleControl)), demo_taken)"
    unfolding demo_taken_def by (intro prod_eqI) (simp_all add: a(2) live_holder_def)
  show "(dir_step demo_hex)\<^sup>*\<^sup>* (0, []) (0, demo_taken)"
    unfolding demo_taken_def by (intro r_into_rtranclp dir_step.acquire) simp_all
qed

lemma directory_refines_fence_witness:
  "fst (acquire demo_hex 30000 100 (demo_uuid (CHR ''c'')) (demo_uuid (CHR ''s'')) (demo_runtime 2) HuddleControl demo_taken) =
     Inr (Exists (mk_lease (demo_uuid (CHR ''c'')) (demo_uuid (CHR ''s'')) (demo_runtime 1) 1 HuddleControl)) \<and>
   fst (acquire demo_hex 30000 30000 (demo_uuid (CHR ''c'')) (demo_uuid (CHR ''s'')) (demo_runtime 2) HuddleControl demo_taken) =
     Inr (Acquired (mk_lease (demo_uuid (CHR ''c'')) (demo_uuid (CHR ''s'')) (demo_runtime 2) 2 HuddleControl))"
proof -
  have run: "(dir_step demo_hex)\<^sup>*\<^sup>* (0, []) (n, demo_taken)" for n
    using demo_taken_facts(3) dir_step.tick [of 0 n demo_hex demo_taken] by (simp add: rtranclp.rtrancl_into_rtrancl)
  show ?thesis
    using directory_refines_fence [where now = 100 and c = "demo_uuid (CHR ''c'')" and s = "demo_uuid (CHR ''s'')"
          and own = "demo_runtime 2" and p = HuddleControl, OF demo_ok(3) run demo_ok(1,1,2) demo_ttl refl refl]
      directory_refines_fence [where now = 30000 and c = "demo_uuid (CHR ''c'')" and s = "demo_uuid (CHR ''s'')"
          and own = "demo_runtime 2" and p = HuddleControl, OF demo_ok(3) run demo_ok(1,1,2) demo_ttl refl refl]
    by (simp add: demo_taken_facts(1) live_holder_def)
qed

lemma validate_fenced_header_exact_witness:
  "validate_fenced_header demo_hex 0 (demo_uuid (CHR ''c''))
     \<lparr>fh_session_id = demo_uuid (CHR ''s''), fh_generation = 1, fh_owner_runtime_id = demo_runtime 1\<rparr> demo_taken = Inr ()"
  using validate_fenced_header_exact [OF demo_ok(3) demo_taken_facts(3) demo_ok(1), of
      "\<lparr>fh_session_id = demo_uuid (CHR ''s''), fh_generation = 1, fh_owner_runtime_id = demo_runtime 1\<rparr>" "CHR ''c''"]
  by (simp add: demo_taken_facts(1) fence_verdict_def live_holder_def)

lemma fenced_out_forever_witness:
  "\<exists>known. 1 \<le> known \<and> validate_fenced_header demo_hex 0 (demo_uuid (CHR ''c''))
     \<lparr>fh_session_id = demo_uuid (CHR ''s''), fh_generation = 0, fh_owner_runtime_id = demo_runtime 1\<rparr> demo_taken =
       Inl (StaleGenerationError (demo_uuid (CHR ''s'')) 0 known)"
  using fenced_out_forever [OF demo_ok(3) rtranclp.rtrancl_refl demo_ok(1,1,2) demo_ttl demo_taken_facts(2) rtranclp.rtrancl_refl]
  by (force elim!: allE [of _ "\<lparr>fh_session_id = demo_uuid (CHR ''s''), fh_generation = 0, fh_owner_runtime_id = demo_runtime 1\<rparr>"])

end
