(* ===== verification/Reliable_Stream.thy ===== *)
theory Reliable_Stream
  imports Session_Directory Mesh_Stream
begin

text \<open>
  The reliable tunnel of the relay (\<open>buzz-relay/src/tunnel/reliable.rs\<close>): joining a session,
  accepting an inbound stream, the application frames inside mesh frames, the stream that is
  pinned to one fence and latches its community, and the renewer of a lease.

  The byte form of a UUID belongs to another package and is a parameter.
\<close>

subsection \<open>Application frames\<close>

definition MAX_RELIABLE_PAYLOAD_BYTES :: nat where "MAX_RELIABLE_PAYLOAD_BYTES = 1024 * 1024"

datatype ReliableWireFrame =
    WireData uuid bytes
  | WireGoodbye uuid GoodbyeReason

datatype ReliableFrame = FrameData bytes | FrameGoodbye GoodbyeReason

datatype ReliableStreamError =
    DirectoryFailure DirectoryError
  | MeshFailure MeshError
  | ProfileMismatch uuid Profile Profile
  | SenderMismatch RuntimeId RuntimeId
  | UnexpectedStreamRole
  | OwnerIsNotLocal uuid RuntimeId RuntimeId
  | UnexpectedFrame string
  | FrameFenceMismatch FencedHeader FencedHeader
  | CommunityMismatch uuid uuid
  | MalformedReliableFrame string

fun reason_to_wire_byte :: "GoodbyeReason \<Rightarrow> byte" where
  "reason_to_wire_byte SessionEnded = 1"
| "reason_to_wire_byte Draining = 2"
| "reason_to_wire_byte StaleGeneration = 3"

definition reason_from_wire_byte :: "byte \<Rightarrow> ReliableStreamError + GoodbyeReason" where
  "reason_from_wire_byte b =
     (if b = 1 then Inr SessionEnded
      else if b = 2 then Inr Draining
      else if b = 3 then Inr StaleGeneration
      else Inl (MalformedReliableFrame ''unknown goodbye reason''))"

fun wire_community_id :: "ReliableWireFrame \<Rightarrow> uuid" where
  "wire_community_id (WireData c _) = c"
| "wire_community_id (WireGoodbye c _) = c"

fun reliable_encode :: "uuid_codec \<Rightarrow> ReliableWireFrame \<Rightarrow> bytes" where
  "reliable_encode U (WireData community payload) = [1, 1] @ uuid_as_bytes U community @ payload"
| "reliable_encode U (WireGoodbye community reason) =
     [1, 2] @ uuid_as_bytes U community @ [reason_to_wire_byte reason]"

definition reliable_decode :: "uuid_codec \<Rightarrow> bytes \<Rightarrow> ReliableStreamError + ReliableWireFrame" where
  "reliable_decode U bs =
     (if length bs < 18 then Inl (MalformedReliableFrame ''too short'')
      else if bs ! 0 \<noteq> 1 then Inl (MalformedReliableFrame ''unknown version'')
      else
        (let community_id = uuid_from_bytes U (take 16 (drop 2 bs))
         in if bs ! 1 = 1 then Inr (WireData community_id (drop 18 bs))
            else if bs ! 1 = 2 then
              (if length bs \<noteq> 19 then Inl (MalformedReliableFrame ''bad goodbye length'')
               else map_sum id (WireGoodbye community_id) (reason_from_wire_byte (bs ! 18)))
            else Inl (MalformedReliableFrame ''unknown kind'')))"

subsection \<open>Streams pinned to a fence\<close>

record 'm ReliableMeshStream =
  rs_fenced :: FencedHeader
  rs_stream :: 'm
  rs_community_id :: "uuid option"

record ('t, 'r) MeshStream =
  ms_send :: 't
  ms_recv :: 'r

definition ReliableMeshStream_new :: "FencedHeader \<Rightarrow> 'm \<Rightarrow> 'm ReliableMeshStream" where
  "ReliableMeshStream_new fenced stream = \<lparr>rs_fenced = fenced, rs_stream = stream, rs_community_id = None\<rparr>"

definition with_community :: "uuid \<Rightarrow> 'm ReliableMeshStream \<Rightarrow> 'm ReliableMeshStream" where
  "with_community community s = s\<lparr>rs_community_id := Some community\<rparr>"

definition ensure_outbound_community ::
  "uuid \<Rightarrow> 'm ReliableMeshStream \<Rightarrow> (ReliableStreamError + unit) \<times> 'm ReliableMeshStream" where
  "ensure_outbound_community community s =
     (case rs_community_id s of
        Some expected \<Rightarrow>
          if expected \<noteq> community then (Inl (CommunityMismatch expected community), s) else (Inr (), s)
      | None \<Rightarrow> (Inr (), s\<lparr>rs_community_id := Some community\<rparr>))"

text \<open>\<open>slice::chunks\<close> with a positive size.\<close>

function chunks :: "nat \<Rightarrow> 'a list \<Rightarrow> 'a list list" where
  "chunks n xs = (if xs = [] \<or> n = 0 then [] else take n xs # chunks n (drop n xs))"
  by pat_completeness auto
termination by (relation "measure (\<lambda>(n, xs). length xs)") auto

declare chunks.simps [simp del]

abbreviation send_on ::
  "('t, 'r) quic \<Rightarrow> postcard \<Rightarrow> MeshStreamFrame \<Rightarrow> ('t, 'r) MeshStream ReliableMeshStream \<Rightarrow>
   (MeshError + unit) \<times> ('t, 'r) MeshStream ReliableMeshStream" where
  "send_on Q P f s \<equiv>
     (case send_frame Q P f (ms_send (rs_stream s)) of
        (res, t') \<Rightarrow> (res, s\<lparr>rs_stream := rs_stream s\<lparr>ms_send := t'\<rparr>\<rparr>))"

fun send_chunks ::
  "('t, 'r) quic \<Rightarrow> postcard \<Rightarrow> uuid_codec \<Rightarrow> uuid \<Rightarrow> bytes list \<Rightarrow> ('t, 'r) MeshStream ReliableMeshStream \<Rightarrow>
   (ReliableStreamError + unit) \<times> ('t, 'r) MeshStream ReliableMeshStream" where
  "send_chunks Q P U community [] s = (Inr (), s)"
| "send_chunks Q P U community (chunk # rest) s =
     (case send_on Q P (Data (rs_fenced s) (reliable_encode U (WireData community chunk))) s of
        (Inl e, s') \<Rightarrow> (Inl (MeshFailure e), s')
      | (Inr _, s') \<Rightarrow> send_chunks Q P U community rest s')"

definition send_bytes ::
  "('t, 'r) quic \<Rightarrow> postcard \<Rightarrow> uuid_codec \<Rightarrow> uuid \<Rightarrow> bytes \<Rightarrow> ('t, 'r) MeshStream ReliableMeshStream \<Rightarrow>
   (ReliableStreamError + unit) \<times> ('t, 'r) MeshStream ReliableMeshStream" where
  "send_bytes Q P U community bs s =
     (case ensure_outbound_community community s of
        (Inl e, s') \<Rightarrow> (Inl e, s')
      | (Inr _, s') \<Rightarrow> send_chunks Q P U community (chunks MAX_RELIABLE_PAYLOAD_BYTES bs) s')"

definition finish_stream ::
  "('t, 'r) quic \<Rightarrow> ('t, 'r) MeshStream ReliableMeshStream \<Rightarrow>
   (ReliableStreamError + unit) \<times> ('t, 'r) MeshStream ReliableMeshStream" where
  "finish_stream Q s =
     (case send_finish Q (ms_send (rs_stream s)) of
        (res, t') \<Rightarrow> (map_sum MeshFailure id res, s\<lparr>rs_stream := rs_stream s\<lparr>ms_send := t'\<rparr>\<rparr>))"

definition send_goodbye ::
  "('t, 'r) quic \<Rightarrow> postcard \<Rightarrow> uuid_codec \<Rightarrow> uuid \<Rightarrow> GoodbyeReason \<Rightarrow> ('t, 'r) MeshStream ReliableMeshStream \<Rightarrow>
   (ReliableStreamError + unit) \<times> ('t, 'r) MeshStream ReliableMeshStream" where
  "send_goodbye Q P U community reason s =
     (case ensure_outbound_community community s of
        (Inl e, s1) \<Rightarrow> (Inl e, s1)
      | (Inr _, s1) \<Rightarrow>
          (case send_on Q P (Data (rs_fenced s1) (reliable_encode U (WireGoodbye community reason))) s1 of
             (Inl e, s2) \<Rightarrow> (Inl (MeshFailure e), s2)
           | (Inr _, s2) \<Rightarrow> finish_stream Q s2))"

definition validate_frame_fence ::
  "hex_codec \<Rightarrow> instant \<Rightarrow> Redis \<Rightarrow> uuid \<Rightarrow> FencedHeader \<Rightarrow> 'm ReliableMeshStream \<Rightarrow>
   (ReliableStreamError + unit) \<times> 'm ReliableMeshStream" where
  "validate_frame_fence H now r community_id fenced s =
     (if fenced \<noteq> rs_fenced s then (Inl (FrameFenceMismatch (rs_fenced s) fenced), s)
      else
        (case rs_community_id s of
           Some expected \<Rightarrow>
             if expected \<noteq> community_id then (Inl (CommunityMismatch expected community_id), s)
             else
               (case validate_fenced_header H now community_id fenced r of
                  Inl e \<Rightarrow> (Inl (MeshFailure e), s)
                | Inr _ \<Rightarrow> (Inr (), s))
         | None \<Rightarrow>
             (case validate_fenced_header H now community_id fenced r of
                Inl e \<Rightarrow> (Inl (MeshFailure e), s)
              | Inr _ \<Rightarrow> (Inr (), s\<lparr>rs_community_id := Some community_id\<rparr>))))"

definition recv_validated ::
  "('t, 'r) quic \<Rightarrow> postcard \<Rightarrow> uuid_codec \<Rightarrow> hex_codec \<Rightarrow> instant \<Rightarrow> Redis \<Rightarrow> ('t, 'r) MeshStream ReliableMeshStream \<Rightarrow>
   (ReliableStreamError + ReliableFrame option) \<times> ('t, 'r) MeshStream ReliableMeshStream" where
  "recv_validated Q P U H now r s =
     (case recv_frame Q P (ms_recv (rs_stream s)) of
        (received, q) \<Rightarrow>
          (let s1 = s\<lparr>rs_stream := rs_stream s\<lparr>ms_recv := q\<rparr>\<rparr>
           in case received of
                Inl e \<Rightarrow> (Inl (MeshFailure e), s1)
              | Inr None \<Rightarrow> (Inr None, s1)
              | Inr (Some (Data fenced payload)) \<Rightarrow>
                  (case reliable_decode U payload of
                     Inl e \<Rightarrow> (Inl e, s1)
                   | Inr frame \<Rightarrow>
                       (case validate_frame_fence H now r (wire_community_id frame) fenced s1 of
                          (Inl e, s2) \<Rightarrow> (Inl e, s2)
                        | (Inr _, s2) \<Rightarrow>
                            (case frame of
                               WireData _ p \<Rightarrow> (Inr (Some (FrameData p)), s2)
                             | WireGoodbye _ reason \<Rightarrow> (Inr (Some (FrameGoodbye reason)), s2))))
              | Inr (Some (Goodbye _ _)) \<Rightarrow> (Inl (UnexpectedFrame ''goodbye''), s1)
              | Inr (Some (Hello _)) \<Rightarrow> (Inl (UnexpectedFrame ''hello''), s1)
              | Inr (Some (Gossip _)) \<Rightarrow> (Inl (UnexpectedFrame ''gossip''), s1)))"

subsection \<open>Joining and accepting\<close>

datatype 'm ReliableJoin = Owned SessionLease | Forwarded SessionLease "'m ReliableMeshStream"

record 'm ReliableInbound =
  ri_fenced :: FencedHeader
  ri_from :: RuntimeId
  ri_stream :: "'m ReliableMeshStream"

text \<open>\<open>open_session_stream\<close> of the transport is an argument.\<close>

definition join ::
  "hex_codec \<Rightarrow> nat \<Rightarrow> (RuntimeId \<Rightarrow> StreamHello \<Rightarrow> MeshError + 'm) \<Rightarrow> RuntimeId \<Rightarrow> instant \<Rightarrow> uuid \<Rightarrow> uuid \<Rightarrow> Redis \<Rightarrow>
   (ReliableStreamError + 'm ReliableJoin) \<times> Redis" where
  "join H ttl open_session_stream local now community_id session_id r =
     (case acquire H ttl now community_id session_id local ReliableStream r of
        (Inl e, r') \<Rightarrow> (Inl (DirectoryFailure e), r')
      | (Inr (Acquired lease), r') \<Rightarrow> (Inr (Owned lease), r')
      | (Inr (Exists lease), r') \<Rightarrow>
          if sl_profile lease \<noteq> ReliableStream
          then (Inl (ProfileMismatch session_id ReliableStream (sl_profile lease)), r')
          else if sl_owner_runtime_id lease = local then (Inr (Owned lease), r')
          else
            (let fenced = fenced_header lease
             in case open_session_stream (sl_owner_runtime_id lease)
                       \<lparr>sh_sender = local, sh_role = Session fenced ReliableStream\<rparr> of
                  Inl e \<Rightarrow> (Inl (MeshFailure e), r')
                | Inr stream \<Rightarrow> (Inr (Forwarded lease (ReliableMeshStream_new fenced stream)), r')))"

definition accept_inbound ::
  "RuntimeId \<Rightarrow> RuntimeId \<Rightarrow> StreamHello \<Rightarrow> 'm \<Rightarrow> ReliableStreamError + 'm ReliableInbound" where
  "accept_inbound local from hello stream =
     (if sh_sender hello \<noteq> from then Inl (SenderMismatch from (sh_sender hello))
      else
        (case sh_role hello of
           Control \<Rightarrow> Inl UnexpectedStreamRole
         | Session fenced profile \<Rightarrow>
             if profile \<noteq> ReliableStream
             then Inl (ProfileMismatch (fh_session_id fenced) ReliableStream profile)
             else if fh_owner_runtime_id fenced \<noteq> local
             then Inl (OwnerIsNotLocal (fh_session_id fenced) (fh_owner_runtime_id fenced) local)
             else Inr \<lparr>ri_fenced = fenced, ri_from = from, ri_stream = ReliableMeshStream_new fenced stream\<rparr>))"

subsection \<open>Frames and chunks\<close>

text \<open>What is relied on of the byte form of a UUID.\<close>

lemma reason_wire [simp]: "reason_from_wire_byte (reason_to_wire_byte x) = Inr x"
  by (cases x) (simp_all add: reason_from_wire_byte_def)

lemma reliable_decode_encode:
  "uuid_codec_ok U (wire_community_id f) \<Longrightarrow> reliable_decode U (reliable_encode U f) = Inr f"
  by (cases f) (auto simp: reliable_decode_def uuid_codec_ok_def nth_append numeral_nat Let_def)

lemma concat_chunks: "0 < n \<Longrightarrow> concat (chunks n xs) = xs"
  by (induction n xs rule: chunks.induct) (subst chunks.simps, auto)

lemma chunk_sizes: "ch \<in> set (chunks n xs) \<Longrightarrow> ch \<noteq> [] \<and> length ch \<le> n"
proof (induction n xs rule: chunks.induct)
  case (1 n xs)
  then show ?case by (subst (asm) (2) chunks.simps) (auto split: if_splits)
qed

subsection \<open>What is sent is what is delivered\<close>

abbreviation data_frame :: "uuid_codec \<Rightarrow> uuid \<Rightarrow> FencedHeader \<Rightarrow> bytes \<Rightarrow> MeshStreamFrame" where
  "data_frame U c h ch \<equiv> Data h (reliable_encode U (WireData c ch))"

definition frame_fits :: "postcard \<Rightarrow> MeshStreamFrame \<Rightarrow> bool" where
  "frame_fits P f \<longleftrightarrow> (\<exists>body. pc_frame P f = Some body \<and> Suc (length body) \<le> MAX_STREAM_FRAME)"

lemma send_chunks_bytes:
  assumes Q: "quic_ok Q written pending" and "send_chunks Q P U c cs s = (Inr (), s')"
  shows "written (ms_send (rs_stream s')) =
      written (ms_send (rs_stream s)) @ concat (map (\<lambda>ch. frame_bytes P (data_frame U c (rs_fenced s) ch)) cs) \<and>
    (\<forall>ch\<in>set cs. frame_fits P (data_frame U c (rs_fenced s) ch)) \<and>
    rs_fenced s' = rs_fenced s \<and> rs_community_id s' = rs_community_id s \<and> ms_recv (rs_stream s') = ms_recv (rs_stream s)"
  using assms(2)
proof (induction cs arbitrary: s)
  case (Cons ch cs)
  obtain res t1 where one: "send_frame Q P (data_frame U c (rs_fenced s) ch) (ms_send (rs_stream s)) = (res, t1)"
    by fastforce
  with Cons.prems have ok: "res = Inr ()" by (cases res) simp_all
  let ?s1 = "s\<lparr>rs_stream := rs_stream s\<lparr>ms_send := t1\<rparr>\<rparr>"
  have rest: "send_chunks Q P U c cs ?s1 = (Inr (), s')" using Cons.prems one ok by simp
  note sent = send_frame_bytes [OF Q one [unfolded ok]]
  from Cons.IH [OF rest] sent show ?case by (simp add: frame_fits_def)
qed simp

lemma recv_data_frame:
  assumes Q: "quic_ok Q written pending" and P: "postcard_ok P" and U: "uuid_codec_ok U c"
    and fits: "frame_fits P (data_frame U c (rs_fenced s) ch)"
    and arrived: "pending (ms_recv (rs_stream s)) = frame_bytes P (data_frame U c (rs_fenced s) ch) @ rest"
    and valid: "validate_fenced_header H now c (rs_fenced s) r = Inr ()"
    and comm: "rs_community_id s \<in> {None, Some c}"
  shows "\<exists>q. recv_validated Q P U H now r s =
      (Inr (Some (FrameData ch)), s\<lparr>rs_stream := rs_stream s\<lparr>ms_recv := q\<rparr>, rs_community_id := Some c\<rparr>) \<and>
    pending q = rest"
proof -
  obtain body where body: "pc_frame P (data_frame U c (rs_fenced s) ch) = Some body" "Suc (length body) \<le> MAX_STREAM_FRAME"
    using fits by (auto simp: frame_fits_def)
  obtain q where q: "recv_frame Q P (ms_recv (rs_stream s)) = (Inr (Some (data_frame U c (rs_fenced s) ch)), q)"
    "pending q = rest"
    using recv_frame_bytes [OF Q P body arrived] by blast
  have dec: "reliable_decode U (reliable_encode U (WireData c ch)) = Inr (WireData c ch)"
    by (rule reliable_decode_encode) (simp_all add: U)
  have latched: "s\<lparr>rs_stream := x\<rparr> = s\<lparr>rs_stream := x, rs_community_id := Some c\<rparr>" if "rs_community_id s = Some c" for x
    using that by (cases s) simp
  from comm latched show ?thesis
    by (intro exI [of _ q])
      (auto simp: recv_validated_def q dec validate_frame_fence_def valid Let_def simp del: reliable_encode.simps)
qed

text \<open>A consumer that reads up to \<open>n\<close> frames.\<close>

fun recv_many ::
  "('t, 'r) quic \<Rightarrow> postcard \<Rightarrow> uuid_codec \<Rightarrow> hex_codec \<Rightarrow> instant \<Rightarrow> Redis \<Rightarrow> nat \<Rightarrow> ('t, 'r) MeshStream ReliableMeshStream \<Rightarrow>
   (ReliableStreamError + ReliableFrame list) \<times> ('t, 'r) MeshStream ReliableMeshStream" where
  "recv_many Q P U H now r 0 s = (Inr [], s)"
| "recv_many Q P U H now r (Suc n) s =
     (case recv_validated Q P U H now r s of
        (Inl e, s1) \<Rightarrow> (Inl e, s1)
      | (Inr None, s1) \<Rightarrow> (Inr [], s1)
      | (Inr (Some f), s1) \<Rightarrow>
          (case recv_many Q P U H now r n s1 of (res, s2) \<Rightarrow> (map_sum id ((#) f) res, s2)))"

lemma recv_many_chunks:
  assumes Q: "quic_ok Q written pending" and P: "postcard_ok P" and U: "uuid_codec_ok U c"
    and fits: "\<forall>ch\<in>set cs. frame_fits P (data_frame U c (rs_fenced s) ch)"
    and arrived: "pending (ms_recv (rs_stream s)) =
      concat (map (\<lambda>ch. frame_bytes P (data_frame U c (rs_fenced s) ch)) cs) @ rest"
    and valid: "validate_fenced_header H now c (rs_fenced s) r = Inr ()"
    and comm: "rs_community_id s \<in> {None, Some c}"
  shows "\<exists>s'. recv_many Q P U H now r (length cs) s = (Inr (map FrameData cs), s') \<and>
    pending (ms_recv (rs_stream s')) = rest"
  using fits arrived valid comm
proof (induction cs arbitrary: s)
  case (Cons ch cs)
  obtain q where q: "recv_validated Q P U H now r s =
      (Inr (Some (FrameData ch)), s\<lparr>rs_stream := rs_stream s\<lparr>ms_recv := q\<rparr>, rs_community_id := Some c\<rparr>)"
    "pending q = concat (map (\<lambda>ch. frame_bytes P (data_frame U c (rs_fenced s) ch)) cs) @ rest"
    using recv_data_frame [OF Q P U, of s ch _ H now r] Cons.prems by (auto simp del: reliable_encode.simps)
  show ?case
    using Cons.IH [of "s\<lparr>rs_stream := rs_stream s\<lparr>ms_recv := q\<rparr>, rs_community_id := Some c\<rparr>"] Cons.prems q
    by (auto simp del: reliable_encode.simps)
qed simp

text \<open>
  C26. End to end, what one end sends over a reliable stream is what the other end delivers: when
  \<open>send_bytes\<close> succeeds, the bytes it put on the connection, once they have arrived at a
  receiver pinned to the same fence, are delivered by \<open>recv_validated\<close> as data frames in the
  same order, all bytes of the mesh framing are consumed, the payloads put together are the bytes
  sent, and none is empty or above the chunk limit; the directory must accept the fence.
\<close>

theorem reliable_stream_delivers:
  assumes Q: "quic_ok Q written pending" and P: "postcard_ok P" and U: "uuid_codec_ok U c"
    and sent: "send_bytes Q P U c bs s = (Inr (), s')"
    and arrived: "written (ms_send (rs_stream s')) = written (ms_send (rs_stream s)) @ pending (ms_recv (rs_stream t))"
    and fence: "rs_fenced t = rs_fenced s" "validate_fenced_header H now c (rs_fenced t) r = Inr ()"
    and comm: "rs_community_id t \<in> {None, Some c}"
  shows "\<exists>payloads t'.
    recv_many Q P U H now r (length payloads) t = (Inr (map FrameData payloads), t') \<and>
    pending (ms_recv (rs_stream t')) = [] \<and> concat payloads = bs \<and>
    (\<forall>p\<in>set payloads. p \<noteq> [] \<and> length p \<le> MAX_RELIABLE_PAYLOAD_BYTES)"
proof -
  obtain s1 where s1: "ensure_outbound_community c s = (Inr (), s1)" "rs_fenced s1 = rs_fenced s" "rs_stream s1 = rs_stream s"
    using sent by (auto simp: send_bytes_def ensure_outbound_community_def split: option.splits if_splits)
  let ?cs = "chunks MAX_RELIABLE_PAYLOAD_BYTES bs"
  have "send_chunks Q P U c ?cs s1 = (Inr (), s')" using sent s1 by (simp add: send_bytes_def)
  from send_chunks_bytes [OF Q this] s1 arrived fence
  have fits: "\<forall>ch\<in>set ?cs. frame_fits P (data_frame U c (rs_fenced t) ch)"
    and pend: "pending (ms_recv (rs_stream t)) = concat (map (\<lambda>ch. frame_bytes P (data_frame U c (rs_fenced t) ch)) ?cs) @ []"
    by (simp_all del: reliable_encode.simps)
  obtain t' where "recv_many Q P U H now r (length ?cs) t = (Inr (map FrameData ?cs), t')"
    "pending (ms_recv (rs_stream t')) = []"
    using recv_many_chunks [OF Q P U fits pend fence(2) comm] by blast
  then show ?thesis
    using concat_chunks [of MAX_RELIABLE_PAYLOAD_BYTES bs] chunk_sizes
    by (intro exI [of _ ?cs] exI [of _ t']) (auto simp: MAX_RELIABLE_PAYLOAD_BYTES_def)
qed

subsection \<open>Nothing is delivered outside the fence\<close>

text \<open>
  A reliable stream delivers a frame only while the directory accepts the fence the stream is
  pinned to, in the community the stream is latched to: the first delivery latches the community of
  its frame, no later call changes it, an inbound stream that failed validation stays unlatched,
  and frames of the mesh itself or under another fence end in an error.
\<close>

theorem recv_validated_fenced:
  assumes "recv_validated Q P U H now r s = (res, s')"
  shows "rs_fenced s' = rs_fenced s \<and>
    (rs_community_id s \<noteq> None \<longrightarrow> rs_community_id s' = rs_community_id s) \<and>
    (\<forall>f. res = Inr (Some f) \<longrightarrow>
      (\<exists>c. rs_community_id s' = Some c \<and> validate_fenced_header H now c (rs_fenced s) r = Inr ())) \<and>
    ((\<forall>f. res \<noteq> Inr (Some f)) \<longrightarrow> rs_community_id s' = rs_community_id s)"
  using assms
  by (auto simp: recv_validated_def validate_frame_fence_def Let_def
      split: prod.splits sum.splits option.splits MeshStreamFrame.splits ReliableWireFrame.splits if_splits)

text \<open>
  Split brain is cut at the receiver: a stream that is latched to a community and pinned to a
  generation older than the one a later owner acquired delivers nothing any more, whatever bytes
  arrive on it and whatever happened in the directory since.
\<close>

theorem stale_stream_delivers_nothing:
  assumes "dir_start H x" "(dir_step H)\<^sup>*\<^sup>* x (now, r)" "uuid_ok c" "uuid_ok s" "length own = 32" "ttl_ms ttl = Inr ttl"
    and got: "acquire H ttl now c s own p r = (Inr (Acquired l), r')"
    and later: "(dir_step H)\<^sup>*\<^sup>* (now, r') (now'', r'')"
    and pinned: "fh_session_id (rs_fenced st) = s" "fh_generation (rs_fenced st) < sl_generation l" "rs_community_id st = Some c"
  shows "\<forall>f. fst (recv_validated Q P U H now'' r'' st) \<noteq> Inr (Some f)"
proof (intro allI notI)
  fix f
  assume "fst (recv_validated Q P U H now'' r'' st) = Inr (Some f)"
  then have "validate_fenced_header H now'' c (rs_fenced st) r'' = Inr ()"
    using pinned(3)
    by (auto simp: recv_validated_def validate_frame_fence_def Let_def
        split: prod.splits sum.splits option.splits MeshStreamFrame.splits ReliableWireFrame.splits if_splits)
  with fence_after_acquire [OF assms(1-8)] pinned(1,2) show False by (auto simp: fence_verdict_def)
qed

subsection \<open>The renewer of a lease\<close>

text \<open>
  The worker of \<open>spawn_lease_renewer\<close>: a tick renews, losing the lease or an error ends the loop
  and trips \<open>lost\<close>; after the loop the lease is released. Whether a connection to Redis can be
  had is an argument per call; a panic of the worker is \<^const>\<open>None\<close>.
\<close>

record renewer =
  rn_lease :: SessionLease
  rn_lost :: bool
  rn_ended :: bool

definition renewer_new :: "SessionLease \<Rightarrow> renewer" where
  "renewer_new lease = \<lparr>rn_lease = lease, rn_lost = False, rn_ended = False\<rparr>"

definition renewer_release ::
  "hex_codec \<Rightarrow> bool \<Rightarrow> bool \<Rightarrow> instant \<Rightarrow> renewer \<Rightarrow> Redis \<Rightarrow> renewer option \<times> Redis" where
  "renewer_release H connected caller_cancelled now w r =
     (let w' = w\<lparr>rn_ended := True\<rparr>;
          failed = (if caller_cancelled then w' else w'\<lparr>rn_lost := True\<rparr>)
      in if \<not> connected then (Some failed, r)
         else
           (case release H now (rn_lease w) r of
              (None, r') \<Rightarrow> (None, r')
            | (Some (Inr (Released _)), r') \<Rightarrow> (Some w', r')
            | (Some (Inr (NotOwner _ _)), r') \<Rightarrow> (Some (w'\<lparr>rn_lost := True\<rparr>), r')
            | (Some (Inl _), r') \<Rightarrow> (Some failed, r')))"

definition renewer_tick ::
  "hex_codec \<Rightarrow> nat \<Rightarrow> bool \<Rightarrow> bool \<Rightarrow> instant \<Rightarrow> renewer \<Rightarrow> Redis \<Rightarrow> renewer option \<times> Redis" where
  "renewer_tick H ttl connected connected' now w r =
     (let lost = (\<lambda>r'. renewer_release H connected' False now (w\<lparr>rn_lost := True\<rparr>) r')
      in if \<not> connected then lost r
         else
           (case renew H ttl now (rn_lease w) r of
              (None, r') \<Rightarrow> (None, r')
            | (Some (Inr (Renewed _)), r') \<Rightarrow> (Some w, r')
            | (Some (Inr (Lost _ _)), r') \<Rightarrow> lost r'
            | (Some (Inl _), r') \<Rightarrow> lost r'))"

definition renewer_cancel ::
  "hex_codec \<Rightarrow> bool \<Rightarrow> instant \<Rightarrow> renewer \<Rightarrow> Redis \<Rightarrow> renewer option \<times> Redis" where
  "renewer_cancel H connected now w r = renewer_release H connected True now w r"

lemma renewer_release_exact:
  assumes inv: "dir_inv H r" and ok: "uuid_ok c" "uuid_ok s" and l: "rn_lease w = mk_lease c s own g p"
  shows "renewer_release H connected cc now w r = (Some (w\<lparr>rn_ended := True,
      rn_lost := rn_lost w \<or> (if connected then \<not> owns_fence now own g (fence_of H c s r) else \<not> cc)\<rparr>),
      if connected then snd (release H now (rn_lease w) r) else r)"
    and "connected \<Longrightarrow> fence_of H c s (snd (release H now (rn_lease w) r)) = drop_fence now own g (fence_of H c s r)"
proof -
  have H: "hex_ok H" and rep: "represents H c s (fence_of H c s r) r"
    using inv ok by (simp_all add: dir_inv_def)
  note d = release_represents [OF H rep _ _ session_keys_inj(3) [OF ok ok], of "rn_lease w" now, unfolded l, simplified, folded l]
  show "fence_of H c s (snd (release H now (rn_lease w) r)) = drop_fence now own g (fence_of H c s r)"
    using represents_fence_of [OF H conjunct1 [OF d]] .
  obtain out r' where rel: "release H now (rn_lease w) r = (Some (Inr out), r')"
    "out = (if owns_fence now own g (fence_of H c s r) then Released (the (current_lease c s now (fence_of H c s r)))
       else NotOwner (current_lease c s now (fence_of H c s r)) (known_counter (fence_of H c s r)))"
    using d by (cases "release H now (rn_lease w) r") auto
  show "renewer_release H connected cc now w r = (Some (w\<lparr>rn_ended := True,
      rn_lost := rn_lost w \<or> (if connected then \<not> owns_fence now own g (fence_of H c s r) else \<not> cc)\<rparr>),
      if connected then snd (release H now (rn_lease w) r) else r)"
    by (cases connected; cases cc; cases "owns_fence now own g (fence_of H c s r)"; cases w)
      (use rel in \<open>simp_all add: renewer_release_def Let_def\<close>)
qed

text \<open>
  The renewer and the lease it keeps. While the runtime holds the session under the lease and
  Redis answers, a tick keeps \<open>lost\<close> down, the worker alive and the hold extended; any other tick
  trips \<open>lost\<close> and ends the worker. Cancelling trips \<open>lost\<close> exactly when Redis answers that the
  hold was gone already. Once the worker has ended with Redis answering its release, the runtime
  holds the session under that generation no longer, and no panic is reached.
\<close>

theorem renewer_exact:
  assumes "dir_start H x" "(dir_step H)\<^sup>*\<^sup>* x (now, r)"
    and ok: "uuid_ok c" "uuid_ok s" "ttl_ms ttl = Inr ttl"
    and l: "rn_lease w = mk_lease c s own g p"
  shows "(owns_fence now own g (fence_of H c s r) \<longrightarrow>
      (\<exists>r'. renewer_tick H ttl True io now w r = (Some w, r') \<and>
        fence_of H c s r' = keep_fence now ttl own g (fence_of H c s r))) \<and>
    (\<not> owns_fence now own g (fence_of H c s r) \<or> \<not> up \<longrightarrow>
      (\<exists>r'. renewer_tick H ttl up io now w r = (Some (w\<lparr>rn_lost := True, rn_ended := True\<rparr>), r') \<and>
        (io \<longrightarrow> \<not> owns_fence now own g (fence_of H c s r')))) \<and>
    (\<exists>r'. renewer_cancel H io now w r = (Some (w\<lparr>rn_ended := True,
        rn_lost := rn_lost w \<or> (io \<and> \<not> owns_fence now own g (fence_of H c s r))\<rparr>), r') \<and>
      (io \<longrightarrow> \<not> owns_fence now own g (fence_of H c s r')))"
proof -
  have inv: "dir_inv H r" using directory.reachable_inv [OF assms(1,2)] by simp
  then have H: "hex_ok H" and rep: "represents H c s (fence_of H c s r) r" using ok by (simp_all add: dir_inv_def)
  let ?f = "fence_of H c s r"
  let ?rn = "renew H ttl now (rn_lease w) r"
  have fields: "sl_community_id (rn_lease w) = c" "sl_session_id (rn_lease w) = s"
    "sl_owner_runtime_id (rn_lease w) = own" "sl_generation (rn_lease w) = g" by (simp_all add: l)
  note n = renew_represents [where now = now, OF H rep fields(1,2) ok(3) session_keys_inj(3) [OF ok(1,2,1,2)], unfolded fields]
  have after: "fence_of H c s (snd ?rn) = keep_fence now ttl own g ?f" using represents_fence_of [OF H conjunct1 [OF n]] .
  have "dir_step H (now, r) (now, snd ?rn)" using ok fields by (intro dir_step.renew) simp_all
  then have inv': "dir_inv H (snd ?rn)" using directory.step_inv inv by fastforce
  have l': "rn_lease (w\<lparr>rn_lost := True\<rparr>) = mk_lease c s own g p" by (simp add: l)
  note rel = renewer_release_exact [OF _ ok(1,2) l', simplified]
  have gone: "\<not> owns_fence now own g (drop_fence now own g f)" for f
    by (simp add: drop_fence_def owns_fence_def live_holder_def)
  have kept: "\<not> owns_fence now own g ?f \<Longrightarrow> keep_fence now ttl own g ?f = ?f" by (simp add: keep_fence_def)
  have "\<exists>r'. renewer_tick H ttl True io now w r = (Some w, r') \<and> fence_of H c s r' = keep_fence now ttl own g ?f"
    if "owns_fence now own g ?f"
    using n after that by (cases ?rn) (auto simp: renewer_tick_def)
  moreover have "\<exists>r'. renewer_tick H ttl up io now w r = (Some (w\<lparr>rn_lost := True, rn_ended := True\<rparr>), r') \<and>
      (io \<longrightarrow> \<not> owns_fence now own g (fence_of H c s r'))" if "\<not> owns_fence now own g ?f \<or> \<not> up"
  proof (cases up)
    case True
    with that n have "fst ?rn = Some (Inr (Lost (current_lease c s now ?f) (known_counter ?f)))" by simp
    with True show ?thesis
      using rel(1) [OF inv'] rel(2) [OF inv'] gone
      by (cases ?rn) (auto simp: renewer_tick_def)
  next
    case False
    then show ?thesis
      using rel(1) [OF inv] rel(2) [OF inv] gone by (auto simp: renewer_tick_def)
  qed
  moreover have "\<exists>r'. renewer_cancel H io now w r = (Some (w\<lparr>rn_ended := True,
        rn_lost := rn_lost w \<or> (io \<and> \<not> owns_fence now own g ?f)\<rparr>), r') \<and>
      (io \<longrightarrow> \<not> owns_fence now own g (fence_of H c s r'))"
    using renewer_release_exact [OF inv ok(1,2) l] gone
    by (auto simp: renewer_cancel_def)
  ultimately show ?thesis by blast
qed

subsection \<open>Joining\<close>

text \<open>
  A join ends at the one owner of the session: with no live holder the caller becomes the owner
  under the next generation; the live holder itself is paired locally under its own lease; any
  other runtime gets a stream that was opened to the holder with a hello the holder accepts, pinned
  to a fence the directory accepts. A session held for another kind of traffic is refused.
\<close>

theorem join_routes_to_owner:
  assumes "dir_start H x" "(dir_step H)\<^sup>*\<^sup>* x (now, r)"
    and ok: "uuid_ok c" "uuid_ok s" "length local = 32" "ttl_ms ttl = Inr ttl"
    and j: "join H ttl connect local now c s r = (res, r')"
  shows "case live_holder now (fence_of H c s r) of
      None \<Rightarrow> res = (if fc_counter (fence_of H c s r) + 1 < 2 ^ 63
          then Inr (Owned (mk_lease c s local (fc_counter (fence_of H c s r) + 1) ReliableStream))
          else Inl (DirectoryFailure RedisFailure))
    | Some (own, p) \<Rightarrow>
        (let lease = mk_lease c s own (fc_counter (fence_of H c s r)) p;
             hello = \<lparr>sh_sender = local, sh_role = Session (fenced_header lease) ReliableStream\<rparr>
         in if p \<noteq> ReliableStream then res = Inl (ProfileMismatch s ReliableStream p)
            else if own = local then res = Inr (Owned lease)
            else (\<forall>e. connect own hello = Inl e \<longrightarrow> res = Inl (MeshFailure e)) \<and>
              (\<forall>m. connect own hello = Inr m \<longrightarrow>
                 res = Inr (Forwarded lease (ReliableMeshStream_new (fenced_header lease) m))) \<and>
              accept_inbound own local hello m' = Inr \<lparr>ri_fenced = fenced_header lease, ri_from = local,
                 ri_stream = ReliableMeshStream_new (fenced_header lease) m'\<rparr> \<and>
              validate_fenced_header H now c (fenced_header lease) r' = Inr ())"
proof -
  have "dir_inv H r" using directory.reachable_inv [OF assms(1,2)] by simp
  then have H: "hex_ok H" and rep: "represents H c s (fence_of H c s r) r" using ok by (simp_all add: dir_inv_def)
  let ?f = "fence_of H c s r"
  obtain ra r1 where ra: "acquire H ttl now c s local ReliableStream r = (ra, r1)" by fastforce
  note a = acquire_represents [OF H rep ok(3,4) session_keys_inj(3) [OF ok(1,2,1,2)], of now ReliableStream,
      unfolded ra fst_conv snd_conv]
  show ?thesis
  proof (cases "live_holder now ?f")
    case None
    with a(2) ra j show ?thesis by (auto simp: join_def)
  next
    case (Some hd')
    obtain own p where hd': "hd' = (own, p)" by (cases hd')
    have "represents H c s ?f r'"
      using a(1) Some j ra by (auto simp: join_def Let_def take_fence_def hd' a(2) split: sum.splits if_splits)
    then have "validate_fenced_header H now c (fenced_header (mk_lease c s own (fc_counter ?f) p)) r' = Inr ()"
      using validate_represents [OF H, of c "fenced_header (mk_lease c s own (fc_counter ?f) p)" ?f r' now] Some hd'
      by (simp add: fenced_header_def fence_verdict_def)
    with a(2) ra j Some hd' show ?thesis
      by (auto simp: join_def Let_def accept_inbound_def fenced_header_def split: sum.splits)
  qed
qed

subsection \<open>A concrete stream\<close>

definition demo_quic :: "(bytes, bytes) quic" where
  "demo_quic = \<lparr>q_write_all = (\<lambda>t bs. (Inr (), t @ bs)), q_finish = (\<lambda>t. (Inr (), t)),
     q_read_exact = (\<lambda>r n. if n \<le> length r then (ReadDone (take n r), drop n r) else (FinishedEarly (length r), []))\<rparr>"

definition demo_postcard :: postcard where
  "demo_postcard = \<lparr>pc_frame = (\<lambda>f. case f of Data h p \<Rightarrow> if h = demo_header 1 then Some p else None | _ \<Rightarrow> None),
     pc_unframe = (\<lambda>p. Some (Data (demo_header 1) p))\<rparr>"

definition demo_codec :: uuid_codec where
  "demo_codec = \<lparr>uuid_as_bytes = (\<lambda>u. replicate 16 (of_nat (of_char (hd u)))),
     uuid_from_bytes = (\<lambda>bs. replicate 36 (char_of (unat (hd bs))))\<rparr>"

lemma demo_stream_ok [simp]:
  "quic_ok demo_quic (\<lambda>t. t) (\<lambda>r. r)" "postcard_ok demo_postcard" "uuid_codec_ok demo_codec (demo_uuid (CHR ''c''))"
  by (auto simp: quic_ok_def demo_quic_def postcard_ok_def demo_postcard_def uuid_codec_ok_def demo_codec_def demo_uuid_def char_of_eq_iff take_bit_eq_mod
      split: MeshStreamFrame.splits if_splits)

abbreviation demo_end :: "bytes \<Rightarrow> bytes \<Rightarrow> (bytes, bytes) MeshStream ReliableMeshStream" where
  "demo_end out in' \<equiv> ReliableMeshStream_new (demo_header 1) \<lparr>ms_send = out, ms_recv = in'\<rparr>"

lemma demo_valid: "validate_fenced_header demo_hex 0 (demo_uuid (CHR ''c'')) (demo_header 1) demo_taken = Inr ()"
proof -
  have "dir_inv demo_hex demo_taken" using directory.reachable_inv [OF demo_ok(3) demo_taken_facts(3)] by simp
  then have "represents demo_hex (demo_uuid (CHR ''c'')) (fh_session_id (demo_header 1))
      \<lparr>fc_counter = 1, fc_holder = Some (demo_runtime 1, HuddleControl, 30000)\<rparr> demo_taken"
    using demo_ok(1) unfolding dir_inv_def demo_taken_facts(1) [symmetric] by (simp add: demo_header_def)
  then show ?thesis
    using validate_represents [OF demo_hex_ok] by (simp add: demo_header_def fence_verdict_def live_holder_def)
qed

lemma reliable_stream_delivers_witness:
  "\<exists>out payloads t'. send_bytes demo_quic demo_postcard demo_codec (demo_uuid (CHR ''c'')) [7, 8, 9] (demo_end [] []) = (Inr (), out) \<and>
    recv_many demo_quic demo_postcard demo_codec demo_hex 0 demo_taken (length payloads)
      (demo_end [] (ms_send (rs_stream out))) = (Inr (map FrameData payloads), t') \<and> concat payloads = [7, 8, 9]"
proof -
  obtain out where out: "send_bytes demo_quic demo_postcard demo_codec (demo_uuid (CHR ''c'')) [7, 8, 9] (demo_end [] []) = (Inr (), out)"
    by (simp add: send_bytes_def ensure_outbound_community_def ReliableMeshStream_new_def chunks.simps MAX_RELIABLE_PAYLOAD_BYTES_def
        send_frame_def wire_encode_def demo_postcard_def demo_codec_def demo_quic_def MAX_STREAM_FRAME_def)
  then show ?thesis
    using reliable_stream_delivers [OF demo_stream_ok out, of "demo_end [] (ms_send (rs_stream out))" demo_hex 0 demo_taken] demo_valid
    by (auto simp: ReliableMeshStream_new_def)
qed

lemma recv_validated_fenced_witness:
  "rs_community_id (snd (recv_validated demo_quic demo_postcard demo_codec demo_hex 0 demo_taken (demo_end [] []))) = None"
proof -
  obtain res s' where out: "recv_validated demo_quic demo_postcard demo_codec demo_hex 0 demo_taken (demo_end [] []) = (res, s')"
    by fastforce
  moreover from out have "res = Inl (MeshFailure (Transport [])) \<or> res = Inr None"
    by (auto simp: recv_validated_def recv_frame_def demo_quic_def ReliableMeshStream_new_def)
  ultimately show ?thesis
    using recv_validated_fenced [OF out] by (auto simp: ReliableMeshStream_new_def)
qed

lemma stale_stream_delivers_nothing_witness:
  "\<forall>f. fst (recv_validated demo_quic demo_postcard demo_codec demo_hex 0 demo_taken
     (with_community (demo_uuid (CHR ''c'')) (ReliableMeshStream_new (demo_header 0) \<lparr>ms_send = [], ms_recv = [1, 2]\<rparr>))) \<noteq> Inr (Some f)"
  by (rule stale_stream_delivers_nothing [OF demo_ok(3) rtranclp.rtrancl_refl demo_ok(1,1,2) demo_ttl demo_taken_facts(2)
        rtranclp.rtrancl_refl])
    (simp_all add: with_community_def ReliableMeshStream_new_def demo_header_def)

lemma renewer_exact_witness:
  "\<exists>r'. renewer_tick demo_hex 30000 True True 0
     (renewer_new (mk_lease (demo_uuid (CHR ''c'')) (demo_uuid (CHR ''s'')) (demo_runtime 1) 1 HuddleControl)) demo_taken =
     (Some (renewer_new (mk_lease (demo_uuid (CHR ''c'')) (demo_uuid (CHR ''s'')) (demo_runtime 1) 1 HuddleControl)), r')"
proof -
  let ?l = "mk_lease (demo_uuid (CHR ''c'')) (demo_uuid (CHR ''s'')) (demo_runtime 1) 1 HuddleControl"
  have l: "rn_lease (renewer_new ?l) = ?l" by (simp add: renewer_new_def)
  have "owns_fence 0 (demo_runtime 1) 1 (fence_of demo_hex (demo_uuid (CHR ''c'')) (demo_uuid (CHR ''s'')) demo_taken)"
    by (simp add: owns_fence_def demo_taken_facts(1) live_holder_def)
  then show ?thesis
    using renewer_exact [OF demo_ok(3) demo_taken_facts(3) demo_ok(1,1) demo_ttl l, THEN conjunct1, THEN mp] by blast
qed

lemma join_routes_to_owner_witness:
  "fst (join demo_hex 30000 (\<lambda>_ _. Inl Disabled) (demo_runtime 2) 0 (demo_uuid (CHR ''c'')) (demo_uuid (CHR ''s'')) demo_taken
     :: (ReliableStreamError + unit ReliableJoin) \<times> Redis) =
     Inl (ProfileMismatch (demo_uuid (CHR ''s'')) ReliableStream HuddleControl)"
proof -
  obtain res :: "ReliableStreamError + unit ReliableJoin" and r' where j: "join demo_hex 30000 (\<lambda>_ _. Inl Disabled) (demo_runtime 2) 0 (demo_uuid (CHR ''c'')) (demo_uuid (CHR ''s'')) demo_taken
     = (res, r')"
    by fastforce
  show ?thesis
    using join_routes_to_owner [OF demo_ok(3) demo_taken_facts(3) demo_ok(1,1,2) demo_ttl j] j
    by (simp add: demo_taken_facts(1) live_holder_def)
qed

end
