(* ===== verification/Huddle_Owner.thy ===== *)
theory Huddle_Owner
  imports Session_Directory
begin

text \<open>
  Who owns a huddle (first half of \<open>buzz-relay/src/audio/join.rs\<close>): the view of the session
  directory a huddle needs, the resolution of a join, the registry of the leases this relay holds
  with its attach, release and drain, and the retry loop that joins the two.

  A cancellation token is a number; \<open>ow_fired\<close> lists the cancelled ones. Spawning a renewer is
  recorded with its lease and its two tokens; what the worker does is in \<open>Reliable_Stream\<close>
  (the huddle's worker is the same loop). Other tasks run between two awaits: there the
  resolution hands its world to an environment function.
\<close>

subsection \<open>The directory as a huddle sees it\<close>

record Ownership =
  os_owner_runtime_id :: RuntimeId
  os_generation :: nat

type_synonym HuddleLease = SessionLease

datatype HuddleRenewOutcome = HuddleRenewed HuddleLease | HuddleLost
datatype HuddleReleaseOutcome = HuddleReleased | HuddleNotOwner
datatype AcquireOutcome = HuddleAcquired HuddleLease | Held Ownership
datatype JoinOutcome = LocalOwner nat | RemoteOwner RuntimeId nat

record ResolvedJoin =
  rj_outcome :: JoinOutcome
  rj_acquired :: "HuddleLease option"

definition ownership_of :: "SessionLease \<Rightarrow> Ownership" where
  "ownership_of l = \<lparr>os_owner_runtime_id = sl_owner_runtime_id l, os_generation = sl_generation l\<rparr>"

text \<open>The texts of transport errors are not kept.\<close>

definition owner_of :: "hex_codec \<Rightarrow> instant \<Rightarrow> uuid \<Rightarrow> uuid \<Rightarrow> Redis \<Rightarrow> MeshError + Ownership option" where
  "owner_of H now community session_id r =
     map_sum (\<lambda>_. Transport []) (map_option ownership_of) (lookup_lease H now community session_id r)"

definition huddle_acquire ::
  "hex_codec \<Rightarrow> nat \<Rightarrow> instant \<Rightarrow> uuid \<Rightarrow> uuid \<Rightarrow> RuntimeId \<Rightarrow> Redis \<Rightarrow> (MeshError + AcquireOutcome) \<times> Redis" where
  "huddle_acquire H ttl now community session_id owner r =
     (case acquire H ttl now community session_id owner HuddleControl r of
        (Inl _, r') \<Rightarrow> (Inl (Transport []), r')
      | (Inr (Acquired l), r') \<Rightarrow> (Inr (HuddleAcquired l), r')
      | (Inr (Exists l), r') \<Rightarrow> (Inr (Held (ownership_of l)), r'))"

definition huddle_renew ::
  "hex_codec \<Rightarrow> nat \<Rightarrow> instant \<Rightarrow> HuddleLease \<Rightarrow> Redis \<Rightarrow> (MeshError + HuddleRenewOutcome) option \<times> Redis" where
  "huddle_renew H ttl now lease r =
     (case renew H ttl now lease r of
        (None, r') \<Rightarrow> (None, r')
      | (Some (Inl _), r') \<Rightarrow> (Some (Inl (Transport [])), r')
      | (Some (Inr (Renewed l)), r') \<Rightarrow> (Some (Inr (HuddleRenewed l)), r')
      | (Some (Inr (Lost _ _)), r') \<Rightarrow> (Some (Inr HuddleLost), r'))"

definition huddle_release ::
  "hex_codec \<Rightarrow> instant \<Rightarrow> HuddleLease \<Rightarrow> Redis \<Rightarrow> (MeshError + HuddleReleaseOutcome) option \<times> Redis" where
  "huddle_release H now lease r =
     (case release H now lease r of
        (None, r') \<Rightarrow> (None, r')
      | (Some (Inl _), r') \<Rightarrow> (Some (Inl (Transport [])), r')
      | (Some (Inr (Released _)), r') \<Rightarrow> (Some (Inr HuddleReleased), r')
      | (Some (Inr (NotOwner _ _)), r') \<Rightarrow> (Some (Inr HuddleNotOwner), r'))"

fun outcome_fenced_header :: "uuid \<Rightarrow> RuntimeId \<Rightarrow> JoinOutcome \<Rightarrow> FencedHeader" where
  "outcome_fenced_header session_id local (LocalOwner g) =
     \<lparr>fh_session_id = session_id, fh_generation = g, fh_owner_runtime_id = local\<rparr>"
| "outcome_fenced_header session_id local (RemoteOwner own g) =
     \<lparr>fh_session_id = session_id, fh_generation = g, fh_owner_runtime_id = own\<rparr>"

subsection \<open>The registry of owned huddles\<close>

type_synonym token = nat

record HuddleOwnerEntry =
  oe_lost :: token
  oe_draining :: token
  oe_cancel :: token
  oe_generation :: nat

record spawned_renewer =
  sr_lease :: HuddleLease
  sr_cancel :: token
  sr_lost :: token

record HuddleOwnerRegistry =
  ow_entries :: "(uuid, HuddleOwnerEntry) hmap"
  ow_draining :: bool
  ow_fired :: "token list"
  ow_fresh :: token
  ow_renewers :: "spawned_renewer list"

definition HuddleOwnerRegistry_new :: HuddleOwnerRegistry where
  "HuddleOwnerRegistry_new = \<lparr>ow_entries = [], ow_draining = False, ow_fired = [], ow_fresh = 0, ow_renewers = []\<rparr>"

definition is_draining :: "HuddleOwnerRegistry \<Rightarrow> bool" where "is_draining w = ow_draining w"

definition lost_for :: "uuid \<Rightarrow> HuddleOwnerRegistry \<Rightarrow> token option" where
  "lost_for session_id w = map_option oe_lost (hget (ow_entries w) session_id)"

definition drain_for :: "uuid \<Rightarrow> HuddleOwnerRegistry \<Rightarrow> token option" where
  "drain_for session_id w = map_option oe_draining (hget (ow_entries w) session_id)"

definition new_token :: "HuddleOwnerRegistry \<Rightarrow> token \<times> HuddleOwnerRegistry" where
  "new_token w = (ow_fresh w, w\<lparr>ow_fresh := Suc (ow_fresh w)\<rparr>)"

definition fire :: "token \<Rightarrow> HuddleOwnerRegistry \<Rightarrow> HuddleOwnerRegistry" where
  "fire t w = w\<lparr>ow_fired := t # ow_fired w\<rparr>"

definition spawn_renewer :: "HuddleLease \<Rightarrow> token \<Rightarrow> HuddleOwnerRegistry \<Rightarrow> token \<times> HuddleOwnerRegistry" where
  "spawn_renewer lease cancel w =
     (case new_token w of
        (lost, w') \<Rightarrow> (lost, w'\<lparr>ow_renewers := \<lparr>sr_lease = lease, sr_cancel = cancel, sr_lost = lost\<rparr> # ow_renewers w'\<rparr>))"

text \<open>A lease that is not kept: a renewer whose cancel token has fired already.\<close>

definition release_unkept :: "HuddleLease \<Rightarrow> HuddleOwnerRegistry \<Rightarrow> HuddleOwnerRegistry" where
  "release_unkept lease w = (case new_token w of (cancel, w1) \<Rightarrow> snd (spawn_renewer lease cancel (fire cancel w1)))"

text \<open>
  \<open>attach_signals\<close> in the pieces between which another thread may run: the answer of a draining
  registry, the look-up of a live entry, the publication of the new entry, the second check.
\<close>

definition attach_refused :: "HuddleLease \<Rightarrow> HuddleOwnerRegistry \<Rightarrow> (token \<times> token) \<times> HuddleOwnerRegistry" where
  "attach_refused lease w =
     (case new_token (release_unkept lease w) of
        (draining, w1) \<Rightarrow> (case new_token (fire draining w1) of (lost, w2) \<Rightarrow> ((lost, draining), w2)))"

definition attach_existing ::
  "uuid \<Rightarrow> HuddleLease \<Rightarrow> HuddleOwnerRegistry \<Rightarrow> (token \<times> token) option \<times> HuddleOwnerRegistry" where
  "attach_existing session_id lease w =
     (case hget (ow_entries w) session_id of
        Some existing \<Rightarrow> (Some (oe_lost existing, oe_draining existing), release_unkept lease w)
      | None \<Rightarrow> (None, w))"

definition attach_install ::
  "uuid \<Rightarrow> HuddleLease \<Rightarrow> HuddleOwnerRegistry \<Rightarrow> HuddleOwnerEntry \<times> HuddleOwnerRegistry" where
  "attach_install session_id lease w =
     (case new_token w of
        (cancel, w1) \<Rightarrow>
          (case spawn_renewer lease cancel w1 of
             (lost, w2) \<Rightarrow>
               (case new_token w2 of
                  (draining, w3) \<Rightarrow>
                    (let e = \<lparr>oe_lost = lost, oe_draining = draining, oe_cancel = cancel, oe_generation = sl_generation lease\<rparr>
                     in (e, w3\<lparr>ow_entries := hput session_id e (ow_entries w3)\<rparr>)))))"

text \<open>\<open>remove_if\<close> on the generation, firing the given tokens of the entry it removes.\<close>

definition remove_epoch ::
  "uuid \<Rightarrow> nat \<Rightarrow> (HuddleOwnerEntry \<Rightarrow> HuddleOwnerRegistry \<Rightarrow> HuddleOwnerRegistry) \<Rightarrow> HuddleOwnerRegistry \<Rightarrow> bool \<times> HuddleOwnerRegistry" where
  "remove_epoch session_id generation signal w =
     (case hget (ow_entries w) session_id of
        Some e \<Rightarrow>
          if oe_generation e = generation
          then (True, signal e (w\<lparr>ow_entries := hdel session_id (ow_entries w)\<rparr>)) else (False, w)
      | None \<Rightarrow> (False, w))"

definition fire_both :: "HuddleOwnerEntry \<Rightarrow> HuddleOwnerRegistry \<Rightarrow> HuddleOwnerRegistry" where
  "fire_both e w = fire (oe_cancel e) (fire (oe_draining e) w)"

definition attach_recheck :: "uuid \<Rightarrow> HuddleOwnerEntry \<Rightarrow> HuddleOwnerRegistry \<Rightarrow> HuddleOwnerRegistry" where
  "attach_recheck session_id e w =
     (if is_draining w then fire_both e (snd (remove_epoch session_id (oe_generation e) fire_both w)) else w)"


definition owners_release :: "uuid \<Rightarrow> nat \<Rightarrow> HuddleOwnerRegistry \<Rightarrow> HuddleOwnerRegistry" where
  "owners_release session_id generation w =
     snd (remove_epoch session_id generation (\<lambda>e. fire (oe_cancel e)) w)"

definition owners_drain :: "uuid \<Rightarrow> nat \<Rightarrow> HuddleOwnerRegistry \<Rightarrow> bool \<times> HuddleOwnerRegistry" where
  "owners_drain session_id generation w = remove_epoch session_id generation fire_both w"

definition drain_flag :: "HuddleOwnerRegistry \<Rightarrow> HuddleOwnerRegistry" where
  "drain_flag w = w\<lparr>ow_draining := True\<rparr>"

definition drain_rooms :: "HuddleOwnerRegistry \<Rightarrow> (uuid \<times> nat) list" where
  "drain_rooms w = map (\<lambda>(s, e). (s, oe_generation e)) (ow_entries w)"

fun drain_each :: "(uuid \<times> nat) list \<Rightarrow> HuddleOwnerRegistry \<Rightarrow> nat \<times> HuddleOwnerRegistry" where
  "drain_each [] w = (0, w)"
| "drain_each ((s, g) # rooms) w =
     (case owners_drain s g w of
        (drained, w1) \<Rightarrow> (case drain_each rooms w1 of (n, w2) \<Rightarrow> ((if drained then Suc n else n), w2)))"

definition drain_all :: "HuddleOwnerRegistry \<Rightarrow> nat \<times> HuddleOwnerRegistry" where
  "drain_all w = (let w1 = drain_flag w in drain_each (drain_rooms w1) w1)"

subsection \<open>Resolving a join\<close>

record huddle_world =
  hw_now :: instant
  hw_redis :: Redis
  hw_owners :: HuddleOwnerRegistry

type_synonym huddle_env = "nat \<Rightarrow> huddle_world \<Rightarrow> huddle_world"

text \<open>The tail of \<open>resolve_join\<close>, from the ownership it found.\<close>

definition route_join ::
  "hex_codec \<Rightarrow> (huddle_world \<Rightarrow> huddle_world) \<Rightarrow> uuid \<Rightarrow> uuid \<Rightarrow> RuntimeId \<Rightarrow> Ownership \<Rightarrow> huddle_world \<Rightarrow>
   (MeshError + ResolvedJoin) \<times> huddle_world" where
  "route_join H others community session_id local o' w =
     (if os_owner_runtime_id o' = local
      then (Inr \<lparr>rj_outcome = LocalOwner (os_generation o'), rj_acquired = None\<rparr>, w)
      else
        (let w' = others w
         in case validate_fenced_header H (hw_now w') community
                   \<lparr>fh_session_id = session_id, fh_generation = os_generation o', fh_owner_runtime_id = os_owner_runtime_id o'\<rparr>
                   (hw_redis w') of
              Inl e \<Rightarrow> (Inl e, w')
            | Inr _ \<Rightarrow> (Inr \<lparr>rj_outcome = RemoteOwner (os_owner_runtime_id o') (os_generation o'), rj_acquired = None\<rparr>, w')))"

definition resolve_join ::
  "hex_codec \<Rightarrow> nat \<Rightarrow> huddle_env \<Rightarrow> uuid \<Rightarrow> uuid \<Rightarrow> RuntimeId \<Rightarrow> huddle_world \<Rightarrow> (MeshError + ResolvedJoin) \<times> huddle_world" where
  "resolve_join H ttl others community session_id local w =
     (case owner_of H (hw_now w) community session_id (hw_redis w) of
        Inl e \<Rightarrow> (Inl e, w)
      | Inr (Some o') \<Rightarrow> route_join H (others 1) community session_id local o' w
      | Inr None \<Rightarrow>
          (let w1 = others 0 w
           in case huddle_acquire H ttl (hw_now w1) community session_id local (hw_redis w1) of
                (Inl e, r') \<Rightarrow> (Inl e, w1\<lparr>hw_redis := r'\<rparr>)
              | (Inr (HuddleAcquired l), r') \<Rightarrow>
                  (Inr \<lparr>rj_outcome = LocalOwner (sl_generation l), rj_acquired = Some l\<rparr>, w1\<lparr>hw_redis := r'\<rparr>)
              | (Inr (Held o'), r') \<Rightarrow>
                  route_join H (others 1) community session_id local o' (w1\<lparr>hw_redis := r'\<rparr>)))"

definition OWNER_READY_MAX_ATTEMPTS :: nat where "OWNER_READY_MAX_ATTEMPTS = 25"

text \<open>Attempt by attempt; what others do in attempt \<open>n\<close> is \<open>others n\<close>, the last of it during the sleep.\<close>

fun owner_ready_loop ::
  "hex_codec \<Rightarrow> nat \<Rightarrow> (nat \<Rightarrow> huddle_env) \<Rightarrow> uuid \<Rightarrow> uuid \<Rightarrow> RuntimeId \<Rightarrow> nat \<Rightarrow> huddle_world \<Rightarrow>
   (MeshError + ResolvedJoin) \<times> huddle_world" where
  "owner_ready_loop H ttl others community session_id local 0 w =
     (Inl (Transport ''huddle owner not ready''), w)"
| "owner_ready_loop H ttl others community session_id local (Suc n) w =
     (case resolve_join H ttl (others n) community session_id local w of
        (Inl e, w') \<Rightarrow> (Inl e, w')
      | (Inr resolved, w') \<Rightarrow>
          (case (rj_outcome resolved, rj_acquired resolved) of
             (LocalOwner _, None) \<Rightarrow>
               if lost_for session_id (hw_owners w') \<noteq> None then (Inr resolved, w')
               else owner_ready_loop H ttl others community session_id local n (others n 2 w')
           | _ \<Rightarrow> (Inr resolved, w')))"

definition resolve_join_owner_ready ::
  "hex_codec \<Rightarrow> nat \<Rightarrow> (nat \<Rightarrow> huddle_env) \<Rightarrow> uuid \<Rightarrow> uuid \<Rightarrow> RuntimeId \<Rightarrow> huddle_world \<Rightarrow>
   (MeshError + ResolvedJoin) \<times> huddle_world" where
  "resolve_join_owner_ready H ttl others community session_id local w =
     owner_ready_loop H ttl others community session_id local OWNER_READY_MAX_ATTEMPTS w"

subsection \<open>A join is routed to the owner\<close>

definition dir_of :: "huddle_world \<Rightarrow> instant \<times> Redis" where "dir_of w = (hw_now w, hw_redis w)"

text \<open>What other tasks and pods do between two calls are steps of the directory.\<close>

definition huddle_env_ok :: "hex_codec \<Rightarrow> huddle_env \<Rightarrow> bool" where
  "huddle_env_ok H others \<longleftrightarrow> (\<forall>n w. (dir_step H)\<^sup>*\<^sup>* (dir_of w) (dir_of (others n w)))"

definition join_sound :: "hex_codec \<Rightarrow> uuid \<Rightarrow> uuid \<Rightarrow> RuntimeId \<Rightarrow> huddle_world \<Rightarrow> ResolvedJoin \<Rightarrow> huddle_world \<Rightarrow> bool" where
  "join_sound H c s local w rj w' \<longleftrightarrow>
     (dir_step H)\<^sup>*\<^sup>* (dir_of w) (dir_of w') \<and>
     (case rj_outcome rj of
        LocalOwner g \<Rightarrow> owns_fence (hw_now w') local g (fence_of H c s (hw_redis w'))
      | RemoteOwner own g \<Rightarrow> own \<noteq> local \<and> owns_fence (hw_now w') own g (fence_of H c s (hw_redis w'))) \<and>
     (\<forall>l. rj_acquired rj = Some l \<longrightarrow> rj_outcome rj = LocalOwner (sl_generation l) \<and>
        l = mk_lease c s local (sl_generation l) HuddleControl \<and>
        fc_counter (fence_of H c s (hw_redis w)) < sl_generation l)"

lemma verdict_ok: "fence_verdict now h f = Inr () \<longleftrightarrow> owns_fence now (fh_owner_runtime_id h) (fh_generation h) f"
  by (auto simp: fence_verdict_def owns_fence_def split: option.splits)

lemma env_run:
  assumes "huddle_env_ok H others" "dir_inv H (hw_redis w)"
  shows "(dir_step H)\<^sup>*\<^sup>* (dir_of w) (dir_of (others n w))" "dir_inv H (hw_redis (others n w))"
  using assms directory.steps_inv [of H "dir_of w" "dir_of (others n w)"] by (auto simp: huddle_env_ok_def dir_of_def)

lemma route_join_sound:
  assumes inv: "dir_inv H (hw_redis w)" and others: "huddle_env_ok H others" and ok: "uuid_ok c" "uuid_ok s"
    and here: "owns_fence (hw_now w) (os_owner_runtime_id o') (os_generation o') (fence_of H c s (hw_redis w))"
    and res: "route_join H (others n) c s local o' w = (Inr rj, w')"
  shows "join_sound H c s local w rj w' \<and> rj_acquired rj = None"
proof (cases "os_owner_runtime_id o' = local")
  case True
  with res here show ?thesis by (auto simp: route_join_def join_sound_def)
next
  case False
  note run = env_run [OF others inv, of n]
  then have H: "hex_ok H" and rep: "represents H c s (fence_of H c s (hw_redis (others n w))) (hw_redis (others n w))"
    using ok by (simp_all add: dir_inv_def)
  let ?h = "\<lparr>fh_session_id = s, fh_generation = os_generation o', fh_owner_runtime_id = os_owner_runtime_id o'\<rparr>"
  have v: "validate_fenced_header H now c ?h (hw_redis (others n w)) =
      fence_verdict now ?h (fence_of H c s (hw_redis (others n w)))" for now
    using validate_represents [OF H, of c ?h] rep by simp
  from res False run(1) show ?thesis
    using verdict_ok [of _ ?h] by (auto simp: route_join_def join_sound_def Let_def v split: sum.splits)
qed

lemma resolve_join_sound:
  assumes inv: "dir_inv H (hw_redis w)" and others: "huddle_env_ok H others"
    and ok: "uuid_ok c" "uuid_ok s" "length local = 32" "ttl_ms ttl = Inr ttl"
    and res: "resolve_join H ttl others c s local w = (Inr rj, w')"
  shows "join_sound H c s local w rj w'"
proof -
  have H: "hex_ok H" and rep: "represents H c s (fence_of H c s (hw_redis w)) (hw_redis w)"
    using inv ok by (simp_all add: dir_inv_def)
  have owner: "owner_of H (hw_now w) c s (hw_redis w) =
      Inr (map_option ownership_of (current_lease c s (hw_now w) (fence_of H c s (hw_redis w))))"
    by (simp add: owner_of_def lookup_represents [OF H rep])
  show ?thesis
  proof (cases "live_holder (hw_now w) (fence_of H c s (hw_redis w))")
    case (Some hd')
    obtain own p where hd': "hd' = (own, p)" by (cases hd')
    let ?o = "\<lparr>os_owner_runtime_id = own, os_generation = fc_counter (fence_of H c s (hw_redis w))\<rparr>"
    have "route_join H (others 1) c s local ?o w = (Inr rj, w')"
      using res owner Some hd' by (simp add: resolve_join_def current_lease_def ownership_of_def)
    moreover have "owns_fence (hw_now w) own (fc_counter (fence_of H c s (hw_redis w))) (fence_of H c s (hw_redis w))"
      using Some hd' by (simp add: owns_fence_def)
    ultimately show ?thesis using route_join_sound [OF inv others ok(1,2), of ?o] by simp
  next
    case None
    let ?w1 = "others 0 w"
    note run = env_run [OF others inv, of 0]
    have rep1: "represents H c s (fence_of H c s (hw_redis ?w1)) (hw_redis ?w1)"
      using run(2) ok by (simp add: dir_inv_def)
    let ?f = "fence_of H c s (hw_redis ?w1)"
    obtain ra r2 where ra: "acquire H ttl (hw_now ?w1) c s local HuddleControl (hw_redis ?w1) = (ra, r2)" by fastforce
    note a = acquire_represents [OF H rep1 ok(3,4) session_keys_inj(3) [OF ok(1,2,1,2)], of "hw_now ?w1" HuddleControl,
        unfolded ra fst_conv snd_conv]
    have f2: "fence_of H c s r2 = take_fence (hw_now ?w1) ttl local HuddleControl ?f"
      using represents_fence_of [OF H a(1)] .
    have "dir_step H (dir_of ?w1) (hw_now ?w1, r2)"
      using dir_step.acquire [of c s local H "hw_now ?w1" "hw_redis ?w1" ttl HuddleControl] ok ra by (simp add: dir_of_def)
    then have to2: "(dir_step H)\<^sup>*\<^sup>* (dir_of w) (dir_of (?w1\<lparr>hw_redis := r2\<rparr>))"
      using run(1) by (simp add: dir_of_def)
    then have inv2: "dir_inv H r2" using directory.steps_inv [OF to2] inv by (simp add: dir_of_def)
    have res': "(case ra of
          Inl _ \<Rightarrow> (Inl (Transport []), ?w1\<lparr>hw_redis := r2\<rparr>)
        | Inr (Acquired l) \<Rightarrow>
            (Inr \<lparr>rj_outcome = LocalOwner (sl_generation l), rj_acquired = Some l\<rparr>, ?w1\<lparr>hw_redis := r2\<rparr>)
        | Inr (Exists l) \<Rightarrow> route_join H (others 1) c s local (ownership_of l) (?w1\<lparr>hw_redis := r2\<rparr>)) = (Inr rj, w')"
      using res owner None ra
      by (auto simp: resolve_join_def current_lease_def huddle_acquire_def Let_def split: sum.splits AcquireResult.splits)
    show ?thesis
    proof (cases "live_holder (hw_now ?w1) ?f")
      case None
      with a(2) res' have small: "fc_counter ?f + 1 < 2 ^ 63" by (auto split: if_splits)
      have "fc_counter (fence_of H c s (hw_redis w)) \<le> fc_counter ?f"
        using run_fence_le [OF run(1) _ ok(1,2)] inv by (simp add: dir_of_def fence_le_def)
      moreover have "0 < ttl" using ok(4) by (auto simp: ttl_ms_def split: if_splits)
      ultimately show ?thesis
        using a(2) res' small None to2
        by (auto simp: join_sound_def f2 take_fence_def owns_fence_def live_holder_def)
    next
      case (Some hd')
      obtain own p where hd': "hd' = (own, p)" by (cases hd')
      have "route_join H (others 1) c s local \<lparr>os_owner_runtime_id = own, os_generation = fc_counter ?f\<rparr>
          (?w1\<lparr>hw_redis := r2\<rparr>) = (Inr rj, w')"
        using res' a(2) Some hd' by (simp add: ownership_of_def)
      moreover have "owns_fence (hw_now ?w1) own (fc_counter ?f) (fence_of H c s r2)"
        using Some hd' by (simp add: owns_fence_def f2 take_fence_def)
      ultimately have "join_sound H c s local (?w1\<lparr>hw_redis := r2\<rparr>) rj w' \<and> rj_acquired rj = None"
        using inv2 by (intro route_join_sound [OF _ others ok(1,2)]) auto
      with to2 show ?thesis by (auto simp: join_sound_def)
    qed
  qed
qed

lemma join_sound_later:
  assumes "(dir_step H)\<^sup>*\<^sup>* (dir_of w) (dir_of w1)" "dir_inv H (hw_redis w)" "uuid_ok c" "uuid_ok s"
    and "join_sound H c s local w1 rj w'"
  shows "join_sound H c s local w rj w'"
proof -
  have "fc_counter (fence_of H c s (hw_redis w)) \<le> fc_counter (fence_of H c s (hw_redis w1))"
    using run_fence_le [OF assms(1) _ assms(3,4)] assms(2) by (simp add: dir_of_def fence_le_def)
  with assms(1,5) show ?thesis by (auto simp: join_sound_def)
qed

lemma owner_ready_sound:
  assumes "dir_inv H (hw_redis w)" and others: "\<And>n. huddle_env_ok H (others n)"
    and ok: "uuid_ok c" "uuid_ok s" "length local = 32" "ttl_ms ttl = Inr ttl"
    and "owner_ready_loop H ttl others c s local n w = (Inr rj, w')"
  shows "join_sound H c s local w rj w' \<and>
    (\<forall>g. rj_outcome rj = LocalOwner g \<longrightarrow> rj_acquired rj = None \<longrightarrow> lost_for s (hw_owners w') \<noteq> None)"
  using assms(1,7)
proof (induction n arbitrary: w)
  case (Suc n)
  obtain res w1 where r: "resolve_join H ttl (others n) c s local w = (res, w1)" by fastforce
  show ?case
  proof (cases res)
    case (Inl e)
    with Suc.prems r show ?thesis by simp
  next
    case (Inr resolved)
    note sound = resolve_join_sound [OF Suc.prems(1) others ok r [unfolded Inr]]
    show ?thesis
    proof (cases "\<exists>g. rj_outcome resolved = LocalOwner g \<and> rj_acquired resolved = None \<and> lost_for s (hw_owners w1) = None")
      case True
      then have loop: "owner_ready_loop H ttl others c s local n (others n 2 w1) = (Inr rj, w')"
        using Suc.prems(2) r Inr by auto
      have run: "(dir_step H)\<^sup>*\<^sup>* (dir_of w) (dir_of w1)" using sound by (simp add: join_sound_def)
      then have inv1: "dir_inv H (hw_redis w1)" using directory.steps_inv [OF run] Suc.prems(1) by (simp add: dir_of_def)
      note later = env_run [OF others inv1, of n 2]
      from Suc.IH [OF later(2) loop] join_sound_later [OF rtranclp_trans [OF run later(1)] Suc.prems(1) ok(1,2)]
      show ?thesis by blast
    next
      case False
      then have "rj = resolved \<and> w' = w1"
        using Suc.prems(2) r Inr by (auto split: JoinOutcome.splits option.splits if_splits)
      with sound False show ?thesis by auto
    qed
  qed
qed simp

text \<open>
  A join never splits a huddle: whatever other pods and tasks do to the directory and to the
  registry between the calls of the resolution, a join that succeeds names the runtime that holds
  the fence of the huddle at that moment, under its current generation; a lease is handed out only
  to the call that took a new generation; and a local owner without a lease of its own is admitted
  only while the registry has the live entry whose loss signal it will watch. The loop makes at
  most 25 attempts and fails closed.
\<close>

theorem join_resolution_sound:
  assumes "dir_start H x" "(dir_step H)\<^sup>*\<^sup>* x (dir_of w)" and others: "\<And>n. huddle_env_ok H (others n)"
    and ok: "uuid_ok c" "uuid_ok s" "length local = 32" "ttl_ms ttl = Inr ttl"
    and res: "resolve_join_owner_ready H ttl others c s local w = (Inr rj, w')"
  shows "(case rj_outcome rj of
      LocalOwner g \<Rightarrow> owns_fence (hw_now w') local g (fence_of H c s (hw_redis w')) \<and>
        (rj_acquired rj = None \<longrightarrow> lost_for s (hw_owners w') \<noteq> None)
    | RemoteOwner own g \<Rightarrow> own \<noteq> local \<and> owns_fence (hw_now w') own g (fence_of H c s (hw_redis w'))) \<and>
    (\<forall>l. rj_acquired rj = Some l \<longrightarrow> rj_outcome rj = LocalOwner (sl_generation l) \<and>
      l = mk_lease c s local (sl_generation l) HuddleControl \<and>
      fc_counter (fence_of H c s (hw_redis w)) < sl_generation l)"
proof -
  have "dir_inv H (hw_redis w)" using directory.reachable_inv [OF assms(1,2)] by (simp add: dir_of_def)
  from owner_ready_sound [OF this others ok res [unfolded resolve_join_owner_ready_def]]
  show ?thesis by (auto simp: join_sound_def split: JoinOutcome.splits)
qed

definition demo_world :: huddle_world where
  "demo_world = \<lparr>hw_now = 0, hw_redis = [], hw_owners = HuddleOwnerRegistry_new\<rparr>"

lemma join_resolution_sound_witness:
  "\<exists>rj w'. resolve_join_owner_ready demo_hex 30000 (\<lambda>_ _ w. w) (demo_uuid (CHR ''c'')) (demo_uuid (CHR ''s'')) (demo_runtime 1)
      demo_world = (Inr rj, w') \<and> rj_outcome rj = LocalOwner 1 \<and>
    owns_fence 0 (demo_runtime 1) 1 (fence_of demo_hex (demo_uuid (CHR ''c'')) (demo_uuid (CHR ''s'')) (hw_redis w'))"
proof -
  let ?c = "demo_uuid (CHR ''c'')" and ?s = "demo_uuid (CHR ''s'')"
  let ?rj = "\<lparr>rj_outcome = LocalOwner 1, rj_acquired = Some (mk_lease ?c ?s (demo_runtime 1) 1 HuddleControl)\<rparr>"
  have res: "resolve_join_owner_ready demo_hex 30000 (\<lambda>_ _ w. w) ?c ?s (demo_runtime 1) demo_world =
      (Inr ?rj, demo_world\<lparr>hw_redis := demo_taken\<rparr>)"
  proof -
    have n: "OWNER_READY_MAX_ATTEMPTS = Suc 24" by (simp add: OWNER_READY_MAX_ATTEMPTS_def)
    have "resolve_join demo_hex 30000 (\<lambda>_ w. w) ?c ?s (demo_runtime 1) demo_world = (Inr ?rj, demo_world\<lparr>hw_redis := demo_taken\<rparr>)"
      using demo_taken_facts(2)
      by (simp add: resolve_join_def owner_of_def lookup_lease_def redis_get_def demo_world_def huddle_acquire_def)
    then show ?thesis unfolding resolve_join_owner_ready_def n owner_ready_loop.simps(2) by simp
  qed
  have "huddle_env_ok demo_hex (\<lambda>_ w. w)" by (simp add: huddle_env_ok_def)
  from join_resolution_sound [OF demo_ok(3) _ this demo_ok(1,1,2) demo_ttl res] res show ?thesis
    by (auto simp: demo_world_def dir_of_def)
qed

subsection \<open>Attach, release and drain as they interleave\<close>

text \<open>
  Each call is a thread that moves from one access of the registry to the next; any number of
  calls run at once. A second \<open>attach\<close> of the same session starts only when the first is done:
  Redis grants a session to one acquirer at a time, and the grant is attached without an await.
\<close>

datatype owner_pc =
    AttachStart uuid HuddleLease
  | AttachOpen uuid HuddleLease
  | AttachVacant uuid HuddleLease
  | AttachInstalled uuid HuddleOwnerEntry
  | AttachDone token token
  | DrainStart
  | DrainFlagged
  | DrainRooms "(uuid \<times> nat) list" nat
  | DrainDone nat
  | ReleaseStart uuid nat
  | ReleaseDone

fun pc_step :: "owner_pc \<Rightarrow> HuddleOwnerRegistry \<Rightarrow> (owner_pc \<times> HuddleOwnerRegistry) option" where
  "pc_step (AttachStart s l) w =
     (if is_draining w then (case attach_refused l w of ((lost, draining), w') \<Rightarrow> Some (AttachDone lost draining, w'))
      else Some (AttachOpen s l, w))"
| "pc_step (AttachOpen s l) w =
     (case attach_existing s l w of
        (Some (lost, draining), w') \<Rightarrow> Some (AttachDone lost draining, w')
      | (None, w') \<Rightarrow> Some (AttachVacant s l, w'))"
| "pc_step (AttachVacant s l) w = (case attach_install s l w of (e, w') \<Rightarrow> Some (AttachInstalled s e, w'))"
| "pc_step (AttachInstalled s e) w = Some (AttachDone (oe_lost e) (oe_draining e), attach_recheck s e w)"
| "pc_step (AttachDone _ _) w = None"
| "pc_step DrainStart w = Some (DrainFlagged, drain_flag w)"
| "pc_step DrainFlagged w = Some (DrainRooms (drain_rooms w) 0, w)"
| "pc_step (DrainRooms [] n) w = Some (DrainDone n, w)"
| "pc_step (DrainRooms ((s, g) # rooms) n) w =
     (case owners_drain s g w of (drained, w') \<Rightarrow> Some (DrainRooms rooms (if drained then Suc n else n), w'))"
| "pc_step (DrainDone _) w = None"
| "pc_step (ReleaseStart s g) w = Some (ReleaseDone, owners_release s g w)"
| "pc_step ReleaseDone w = None"

fun attaching :: "owner_pc \<Rightarrow> uuid option" where
  "attaching (AttachStart s _) = Some s"
| "attaching (AttachOpen s _) = Some s"
| "attaching (AttachVacant s _) = Some s"
| "attaching (AttachInstalled s _) = Some s"
| "attaching _ = None"

type_synonym owners_state = "HuddleOwnerRegistry \<times> owner_pc list"

inductive thread_step :: "owners_state \<Rightarrow> owners_state \<Rightarrow> bool" where
  "i < length ps \<Longrightarrow> pc_step (ps ! i) w = Some (p', w') \<Longrightarrow> thread_step (w, ps) (w', ps[i := p'])"

inductive owners_step :: "owners_state \<Rightarrow> owners_state \<Rightarrow> bool" where
  run_thread: "thread_step x y \<Longrightarrow> owners_step x y"
| call_attach: "\<forall>p\<in>set ps. attaching p \<noteq> Some s \<Longrightarrow> owners_step (w, ps) (w, ps @ [AttachStart s l])"
| call_drain: "owners_step (w, ps) (w, ps @ [DrainStart])"
| call_release: "owners_step (w, ps) (w, ps @ [ReleaseStart s g])"

inductive_cases thread_stepE: "thread_step x y"
inductive_cases owners_stepE: "owners_step x y"






text \<open>Effects that take entries away, cancelling them, and add only cancelled renewers.\<close>

definition calm :: "HuddleOwnerRegistry \<Rightarrow> HuddleOwnerRegistry \<Rightarrow> bool" where
  "calm w w' \<longleftrightarrow> ow_draining w' = ow_draining w \<and> set (ow_fired w) \<subseteq> set (ow_fired w') \<and>
     (\<forall>s e. hget (ow_entries w') s = Some e \<longrightarrow> hget (ow_entries w) s = Some e) \<and>
     (\<forall>s e. hget (ow_entries w) s = Some e \<longrightarrow> hget (ow_entries w') s = Some e \<or> oe_cancel e \<in> set (ow_fired w')) \<and>
     (\<forall>sr\<in>set (ow_renewers w'). sr \<in> set (ow_renewers w) \<or> sr_cancel sr \<in> set (ow_fired w'))"

lemma calm_refl [simp]: "calm w w" by (simp add: calm_def)




















definition finished :: "owner_pc \<Rightarrow> bool" where "finished p \<longleftrightarrow> (\<forall>w. pc_step p w = None)"

lemma finished_iff: "finished p \<longleftrightarrow> (\<exists>a b. p = AttachDone a b) \<or> (\<exists>n. p = DrainDone n) \<or> p = ReleaseDone"
proof (cases p)
  case (DrainRooms rooms n)
  then show ?thesis by (cases rooms) (auto simp: finished_def split: prod.splits)
qed (auto simp: finished_def attach_refused_def attach_existing_def split: prod.splits option.splits if_splits)







subsection \<open>The calls on the registry end\<close>

definition pending :: "owner_pc \<Rightarrow> bool" where
  "pending p \<longleftrightarrow> (case p of AttachStart _ _ \<Rightarrow> True | AttachOpen _ _ \<Rightarrow> True | AttachVacant _ _ \<Rightarrow> True | _ \<Rightarrow> False)"

definition room_bound :: "owners_state \<Rightarrow> nat" where
  "room_bound x = length (ow_entries (fst x)) + sum_list (map (\<lambda>p. of_bool (pending p)) (snd x))"

fun pc_work :: "nat \<Rightarrow> owner_pc \<Rightarrow> nat" where
  "pc_work n (AttachStart _ _) = 4"
| "pc_work n (AttachOpen _ _) = 3"
| "pc_work n (AttachVacant _ _) = 2"
| "pc_work n (AttachInstalled _ _) = 1"
| "pc_work n DrainStart = n + 3"
| "pc_work n DrainFlagged = n + 2"
| "pc_work n (DrainRooms rooms _) = length rooms + 1"
| "pc_work n (ReleaseStart _ _) = 1"
| "pc_work n _ = 0"

definition work :: "owners_state \<Rightarrow> nat" where
  "work x = sum_list (map (pc_work (room_bound x)) (snd x))"

lemma pc_work_mono: "m \<le> n \<Longrightarrow> pc_work m p \<le> pc_work n p"
  by (cases p) simp_all

lemma sum_map_update:
  fixes f :: "'a \<Rightarrow> nat"
  assumes "i < length xs"
  shows "sum_list (map f (xs[i := x])) + f (xs ! i) = sum_list (map f xs) + f x"
  using assms
proof (induction xs arbitrary: i)
  case (Cons y ys)
  then show ?case by (cases i) (auto simp: add.assoc add.left_commute)
qed simp

lemma length_hput: "length (hput k v m) \<le> Suc (length m)"
  by (induction m) auto

lemma length_remove_epoch:
  "length (ow_entries (snd (remove_epoch s g fire_both w))) \<le> length (ow_entries w)"
  "length (ow_entries (snd (remove_epoch s g (\<lambda>e. fire (oe_cancel e)) w))) \<le> length (ow_entries w)"
  by (auto simp: remove_epoch_def fire_both_def fire_def length_delete_le split: option.split)

lemma pc_step_entries:
  assumes "pc_step p w = Some (p', w')"
  shows "length (ow_entries w') + of_bool (pending p') \<le> length (ow_entries w) + of_bool (pending p)"
    and "length (ow_entries w) \<le> n \<Longrightarrow> pc_work n p' < pc_work n p"
proof -
  have "length (ow_entries w') + of_bool (pending p') \<le> length (ow_entries w) + of_bool (pending p) \<and>
    (length (ow_entries w) \<le> n \<longrightarrow> pc_work n p' < pc_work n p)"
  proof (cases p)
    case (AttachStart s l)
    with assms show ?thesis
      by (auto simp: pending_def attach_refused_def release_unkept_def spawn_renewer_def new_token_def fire_def split: if_splits)
  next
    case (AttachOpen s l)
    with assms show ?thesis
      by (auto simp: pending_def attach_existing_def release_unkept_def spawn_renewer_def new_token_def fire_def split: option.splits)
  next
    case (AttachVacant s l)
    with assms length_hput [of s _ "ow_entries w"] show ?thesis
      by (auto simp: pending_def attach_install_def spawn_renewer_def new_token_def Let_def)
  next
    case (AttachInstalled s e)
    with assms length_remove_epoch(1) [of s "oe_generation e" w] show ?thesis
      by (auto simp: pending_def attach_recheck_def fire_both_def fire_def)
  next
    case (DrainRooms rooms k)
    show ?thesis
    proof (cases rooms)
      case Nil
      with assms DrainRooms show ?thesis by (auto simp: pending_def)
    next
      case (Cons sg rooms')
      with assms DrainRooms length_remove_epoch(1) [of "fst sg" "snd sg" w] show ?thesis
        by (cases sg) (auto simp: pending_def owners_drain_def split: prod.splits)
    qed
  next
    case (ReleaseStart s g)
    with assms length_remove_epoch(2) [of s g w] show ?thesis by (auto simp: pending_def owners_release_def)
  qed (use assms in \<open>auto simp: pending_def drain_flag_def drain_rooms_def\<close>)
  then show "length (ow_entries w') + of_bool (pending p') \<le> length (ow_entries w) + of_bool (pending p)"
    "length (ow_entries w) \<le> n \<Longrightarrow> pc_work n p' < pc_work n p" by blast+
qed

lemma thread_step_work:
  assumes "thread_step x y"
  shows "work y < work x"
  using assms
proof (cases rule: thread_step.cases)
  case (1 i ps w p' w')
  note step = pc_step_entries [OF 1(4)]
  have bound: "room_bound y \<le> room_bound x"
    using step(1) sum_map_update [OF 1(3), of "\<lambda>p. of_bool (pending p)" p'] by (simp add: room_bound_def 1(1,2))
  have "pc_work (room_bound x) p' < pc_work (room_bound x) (ps ! i)"
    by (rule step(2)) (simp add: room_bound_def 1(1))
  then have "sum_list (map (pc_work (room_bound x)) (ps[i := p'])) < sum_list (map (pc_work (room_bound x)) ps)"
    using sum_map_update [OF 1(3), of "pc_work (room_bound x)" p'] by simp
  moreover have "sum_list (map (pc_work (room_bound y)) (ps[i := p'])) \<le> sum_list (map (pc_work (room_bound x)) (ps[i := p']))"
    by (intro sum_list_mono pc_work_mono bound)
  ultimately show ?thesis by (simp add: work_def 1(1,2))
qed

text \<open>
  Every call on the registry ends: with no further calls, the threads of any state make at most
  \<open>work\<close> steps in all, in whatever order they run, and when none of them can move every call has
  returned; no interleaving of attach, release and drain blocks or spins.
\<close>

theorem owner_calls_terminate:
  assumes "(thread_step ^^ n) x (w, ps)"
  shows "n \<le> work x \<and> ((\<nexists>y. thread_step (w, ps) y) \<longrightarrow> (\<forall>p\<in>set ps. finished p))"
proof
  have "n + work (w, ps) \<le> work x" using assms
  proof (induction n arbitrary: x)
    case (Suc n)
    then obtain y where "thread_step x y" "(thread_step ^^ n) y (w, ps)" by (meson relpowp_Suc_D2)
    with Suc.IH thread_step_work [of x y] show ?case by fastforce
  qed simp
  then show "n \<le> work x" by simp
  show "(\<nexists>y. thread_step (w, ps) y) \<longrightarrow> (\<forall>p\<in>set ps. finished p)"
  proof (intro impI ballI)
    fix p
    assume stuck: "\<nexists>y. thread_step (w, ps) y" and "p \<in> set ps"
    then obtain i where i: "i < length ps" "ps ! i = p" by (auto simp: in_set_conv_nth)
    have "pc_step p w = None"
    proof (rule ccontr)
      assume "pc_step p w \<noteq> None"
      then obtain p' w' where "pc_step (ps ! i) w = Some (p', w')" using i(2) by (cases "pc_step p w") auto
      from thread_step.intros [OF i(1) this] stuck show False by blast
    qed
    moreover have "pc_step p v = None \<longleftrightarrow> finished p" for v
    proof (cases p)
      case (DrainRooms rooms k)
      then show ?thesis by (cases rooms) (auto simp: finished_iff split: prod.splits)
    qed (auto simp: finished_iff split: prod.splits option.splits if_splits)
    ultimately show "finished p" by blast
  qed
qed

lemma owner_calls_terminate_witness:
  "(thread_step ^^ 1) (HuddleOwnerRegistry_new, [DrainStart]) (drain_flag HuddleOwnerRegistry_new, [DrainFlagged]) \<and>
   (1::nat) \<le> work (HuddleOwnerRegistry_new, [DrainStart])"
proof -
  have one: "(thread_step ^^ 1) (HuddleOwnerRegistry_new, [DrainStart]) (drain_flag HuddleOwnerRegistry_new, [DrainFlagged])"
    using thread_step.intros [of 0 "[DrainStart]" HuddleOwnerRegistry_new DrainFlagged "drain_flag HuddleOwnerRegistry_new"] by (simp only: relpowp_1) simp
  with owner_calls_terminate [OF one] show ?thesis by blast
qed

end
