(* ===== verification/Huddle_Control.thy ===== *)
theory Huddle_Control
  imports Audio_Room Huddle_Owner
begin

text \<open>
  The control plane of a huddle that spans relays (second half of
  \<open>buzz-relay/src/audio/join.rs\<close>): the messages, the owner's loop that serves one remote relay,
  the remote relay's dial, its reader of the owner's stream and the media it forwards.

  The \<open>postcard\<close> coding of messages and the JSON text shown to clients belong to other packages
  and are parameters. One turn of the owner's loop is one step: what the turn sees of its
  surroundings (the clock, Redis, whether the registry drains, the peer id drawn, what became of
  the frame it sends) is a record of arguments. The remote relay's roster types have the fields
  of the room's and are not repeated.
\<close>

subsection \<open>Messages\<close>

datatype FenceRejection = FrStaleGeneration | FrNoActiveLease | FrOwnerMismatch | FrFutureGeneration

datatype RegisterRejection =
    RoomFull
  | RoomEnded
  | RejectVersionMismatch byte byte
  | Fenced FenceRejection

datatype HuddleControlMsg =
    RegisterPeer uuid string byte
  | PeerRegistered string byte RosterSnapshot
  | SnapshotMsg "64 word" "RosterPeer list"
  | DeltaMsg "64 word" "RosterPeer option" "RosterPeer option"
  | RosterResync
  | RegisterRejected string RegisterRejection
  | UnregisterPeer string

fun from_mesh_error :: "MeshError \<Rightarrow> FenceRejection option" where
  "from_mesh_error (StaleGenerationError _ _ _) = Some FrStaleGeneration"
| "from_mesh_error (NoActiveLease _ _ _ _) = Some FrNoActiveLease"
| "from_mesh_error (OwnerMismatch _ _ _ _) = Some FrOwnerMismatch"
| "from_mesh_error (FutureGeneration _ _ _) = Some FrFutureGeneration"
| "from_mesh_error _ = None"

fun rejection_code :: "FenceRejection \<Rightarrow> string" where
  "rejection_code FrStaleGeneration = ''stale_generation''"
| "rejection_code FrNoActiveLease = ''no_active_lease''"
| "rejection_code FrOwnerMismatch = ''owner_mismatch''"
| "rejection_code FrFutureGeneration = ''future_generation''"

fun admission_to_rejection :: "AdmissionError \<Rightarrow> RegisterRejection" where
  "admission_to_rejection Full = RoomFull"
| "admission_to_rejection Ended = RoomEnded"
| "admission_to_rejection (VersionMismatch pinned requested) = RejectVersionMismatch pinned requested"

definition roster_delta_msg :: "RosterDelta \<Rightarrow> HuddleControlMsg" where
  "roster_delta_msg d = DeltaMsg (rd_revision d) (rd_joined d) (rd_left d)"

definition roster_snapshot_msg :: "Room \<Rightarrow> HuddleControlMsg" where
  "roster_snapshot_msg r = SnapshotMsg (rs_revision (roster_snapshot r)) (rs_peers (roster_snapshot r))"

record control_codec =
  cc_to_postcard :: "HuddleControlMsg \<Rightarrow> bytes option"
  cc_from_postcard :: "bytes \<Rightarrow> HuddleControlMsg option"
  cc_json :: "string \<Rightarrow> string \<Rightarrow> byte \<Rightarrow> string"

definition encode_control :: "control_codec \<Rightarrow> HuddleControlMsg \<Rightarrow> MeshError + bytes" where
  "encode_control C msg = (case cc_to_postcard C msg of None \<Rightarrow> Inl EncodeError | Some b \<Rightarrow> Inr b)"

definition decode_control :: "control_codec \<Rightarrow> bytes \<Rightarrow> MeshError + HuddleControlMsg" where
  "decode_control C b = (case cc_from_postcard C b of None \<Rightarrow> Inl DecodeError | Some msg \<Rightarrow> Inr msg)"

subsection \<open>The owner's side\<close>

record control_stream =
  cs_registered :: "(string, uuid) hmap"
  cs_community :: "uuid option"
  cs_subscribed :: bool
  cs_teardown_reason :: "GoodbyeReason option"
  cs_sent :: "MeshStreamFrame list"

definition control_stream_new :: control_stream where
  "control_stream_new = \<lparr>cs_registered = [], cs_community = None, cs_subscribed = False,
     cs_teardown_reason = None, cs_sent = []\<rparr>"

record turn =
  tn_now :: instant
  tn_redis :: Redis
  tn_draining :: bool
  tn_peer_id :: uuid
  tn_send :: "MeshError + unit"

datatype control_event =
    DrainFired
  | LostFired
  | RosterNext RosterDelta
  | RosterLagged
  | RosterClosed
  | Incoming "MeshError + MeshStreamFrame option"

text \<open>
  How a turn ends: the loop goes on, \<open>break\<close> with the result of the loop, or the \<open>?\<close> operator
  returns from the whole function.
\<close>

datatype turn_end = Continue | Break "MeshError + unit" | Return MeshError

definition send_msg ::
  "FencedHeader \<Rightarrow> turn \<Rightarrow> bytes \<Rightarrow> control_stream \<Rightarrow> (MeshError + unit) \<times> control_stream" where
  "send_msg fenced t payload st =
     (case tn_send t of
        Inl e \<Rightarrow> (Inl e, st)
      | Inr _ \<Rightarrow> (Inr (), st\<lparr>cs_sent := cs_sent st @ [Data fenced payload]\<rparr>))"

text \<open>\<open>stream.send_frame(..encode_control(\&msg)?..).await?\<close>\<close>

definition send_or_return ::
  "control_codec \<Rightarrow> FencedHeader \<Rightarrow> turn \<Rightarrow> HuddleControlMsg \<Rightarrow> control_stream \<Rightarrow> turn_end \<times> control_stream" where
  "send_or_return C fenced t msg st =
     (case encode_control C msg of
        Inl e \<Rightarrow> (Return e, st)
      | Inr payload \<Rightarrow>
          (case send_msg fenced t payload st of
             (Inl e, st') \<Rightarrow> (Return e, st')
           | (Inr _, st') \<Rightarrow> (Continue, st')))"

definition room_of :: "control_stream \<Rightarrow> uuid \<Rightarrow> AudioRoomManager \<Rightarrow> nat option" where
  "room_of st session_id m = (case cs_community st of None \<Rightarrow> None | Some c \<Rightarrow> get_room c session_id m)"

definition register_remote_peer ::
  "control_codec \<Rightarrow> nat \<Rightarrow> uuid \<Rightarrow> string \<Rightarrow> byte \<Rightarrow> control_stream \<Rightarrow> AudioRoomManager \<Rightarrow>
   HuddleControlMsg \<times> control_stream \<times> AudioRoomManager" where
  "register_remote_peer C a peer_id pubkey version st m =
     (case add_peer peer_id pubkey version (am_store m ! a) of
        (Inr (k, i), r) \<Rightarrow>
          (let r' = broadcast_control (cc_json C ''joined'' pubkey i) r
           in (PeerRegistered pubkey i (roster_snapshot r'),
               st\<lparr>cs_registered := hput pubkey k (cs_registered st)\<rparr>, with_room a (\<lambda>_. r') m))
      | (Inl reason, r) \<Rightarrow>
          (RegisterRejected pubkey (admission_to_rejection reason), st, with_room a (\<lambda>_. r) m))"

text \<open>Taking a registered peer out of its room, with the message to the others.\<close>

definition drop_registered ::
  "control_codec \<Rightarrow> nat \<Rightarrow> string \<Rightarrow> uuid \<Rightarrow> AudioRoomManager \<Rightarrow> AudioRoomManager" where
  "drop_registered C a pubkey peer_id m =
     with_room a
       (\<lambda>r. case hget (rm_peers r) peer_id of
            None \<Rightarrow> remove_peer peer_id r
          | Some p \<Rightarrow> broadcast_control (cc_json C ''left'' pubkey (ap_peer_index p)) (remove_peer peer_id r)) m"

definition handle_register ::
  "control_codec \<Rightarrow> hex_codec \<Rightarrow> FencedHeader \<Rightarrow> turn \<Rightarrow> uuid \<Rightarrow> string \<Rightarrow> byte \<Rightarrow> control_stream \<Rightarrow> AudioRoomManager \<Rightarrow>
   turn_end \<times> control_stream \<times> AudioRoomManager" where
  "handle_register C H fenced t community_id pubkey version st m =
     (if cs_community st \<noteq> None \<and> cs_community st \<noteq> Some community_id
      then (Break (Inl (Transport ''huddle-control stream community changed'')), st, m)
      else
        (let st = st\<lparr>cs_community := Some community_id\<rparr>
         in if tn_draining t then (Break (Inr ()), st\<lparr>cs_teardown_reason := Some Draining\<rparr>, m)
            else
              (case get_or_create community_id (fh_session_id fenced) m of
                 (a, m1) \<Rightarrow>
                   (let reply_state =
                          (case validate_fenced_header H (tn_now t) community_id fenced (tn_redis t) of
                             Inr _ \<Rightarrow> Inr (register_remote_peer C a (tn_peer_id t) pubkey version st m1)
                           | Inl e \<Rightarrow>
                               (case from_mesh_error e of
                                  Some reason \<Rightarrow> Inr (RegisterRejected pubkey (Fenced reason), st, m1)
                                | None \<Rightarrow> Inl e))
                    in case reply_state of
                         Inl e \<Rightarrow> (Break (Inl e), st, m1)
                       | Inr (reply, st2, m2) \<Rightarrow>
                           (case encode_control C reply of
                              Inl e \<Rightarrow> (Return e, st2, m2)
                            | Inr payload \<Rightarrow>
                                (case send_msg fenced t payload st2 of
                                   (Inl e, st3) \<Rightarrow> (Break (Inl e), st3, m2)
                                 | (Inr _, st3) \<Rightarrow>
                                     (Continue,
                                      (case reply of PeerRegistered _ _ _ \<Rightarrow> st3\<lparr>cs_subscribed := True\<rparr> | _ \<Rightarrow> st3), m2)))))))"

definition handle_unregister ::
  "control_codec \<Rightarrow> uuid \<Rightarrow> string \<Rightarrow> control_stream \<Rightarrow> AudioRoomManager \<Rightarrow> control_stream \<times> AudioRoomManager" where
  "handle_unregister C session_id pubkey st m =
     (case hget (cs_registered st) pubkey of
        None \<Rightarrow> (st, m)
      | Some peer_id \<Rightarrow>
          (let st' = st\<lparr>cs_registered := hdel pubkey (cs_registered st)\<rparr>
           in case room_of st session_id m of
                None \<Rightarrow> (st', m)
              | Some a \<Rightarrow> (st', drop_registered C a pubkey peer_id m)))"

definition handle_frame ::
  "control_codec \<Rightarrow> hex_codec \<Rightarrow> RuntimeId \<Rightarrow> FencedHeader \<Rightarrow> turn \<Rightarrow> FencedHeader \<Rightarrow> bytes \<Rightarrow> control_stream \<Rightarrow>
   AudioRoomManager \<Rightarrow> turn_end \<times> control_stream \<times> AudioRoomManager" where
  "handle_frame C H local fenced t f payload st m =
     (let session_id = fh_session_id fenced
      in if f \<noteq> fenced
         then (Break (Inl (OwnerMismatch session_id (fh_generation f) (fh_owner_runtime_id f) local)), st, m)
         else
           (case decode_control C payload of
              Inl e \<Rightarrow> (Break (Inl e), st, m)
            | Inr (RegisterPeer community_id pubkey version) \<Rightarrow>
                handle_register C H fenced t community_id pubkey version st m
            | Inr (UnregisterPeer pubkey) \<Rightarrow>
                (case handle_unregister C session_id pubkey st m of (st', m') \<Rightarrow> (Continue, st', m'))
            | Inr RosterResync \<Rightarrow>
                (case room_of st session_id m of
                   None \<Rightarrow> (Break (Inr ()), st, m)
                 | Some a \<Rightarrow>
                     (case send_or_return C fenced t (roster_snapshot_msg (am_store m ! a)) st of
                        (res, st') \<Rightarrow> (res, st', m)))
            | Inr _ \<Rightarrow>
                (Break (Inl (Transport ''huddle-control owner received an owner-to-non-owner reply'')), st, m)))"

text \<open>One turn of \<open>serve_control_loop\<close>.\<close>

definition control_turn ::
  "control_codec \<Rightarrow> hex_codec \<Rightarrow> RuntimeId \<Rightarrow> FencedHeader \<Rightarrow> turn \<Rightarrow> control_event \<Rightarrow> control_stream \<Rightarrow> AudioRoomManager \<Rightarrow>
   turn_end \<times> control_stream \<times> AudioRoomManager" where
  "control_turn C H local fenced t ev st m =
     (let session_id = fh_session_id fenced
      in case ev of
           DrainFired \<Rightarrow> (Break (Inr ()), st\<lparr>cs_teardown_reason := Some Draining\<rparr>, m)
         | LostFired \<Rightarrow> (Break (Inr ()), st\<lparr>cs_teardown_reason := Some StaleGeneration\<rparr>, m)
         | RosterNext d \<Rightarrow>
             (case send_or_return C fenced t (roster_delta_msg d) st of (res, st') \<Rightarrow> (res, st', m))
         | RosterLagged \<Rightarrow>
             (case room_of st session_id m of
                None \<Rightarrow> (Break (Inr ()), st, m)
              | Some a \<Rightarrow>
                  (case send_or_return C fenced t (roster_snapshot_msg (am_store m ! a)) st of
                     (res, st') \<Rightarrow> (res, st', m)))
         | RosterClosed \<Rightarrow> (Break (Inr ()), st, m)
         | Incoming (Inr (Some (Data f payload))) \<Rightarrow> handle_frame C H local fenced t f payload st m
         | Incoming (Inr (Some (Goodbye _ _))) \<Rightarrow> (Break (Inr ()), st, m)
         | Incoming (Inr None) \<Rightarrow> (Break (Inr ()), st, m)
         | Incoming (Inr (Some _)) \<Rightarrow>
             (Break (Inl (Transport ''huddle-control stream got unexpected frame'')), st, m)
         | Incoming (Inl e) \<Rightarrow> (Break (Inl e), st, m))"

text \<open>What comes after the loop; the goodbye is best effort.\<close>

definition control_teardown ::
  "control_codec \<Rightarrow> FencedHeader \<Rightarrow> turn \<Rightarrow> control_stream \<Rightarrow> AudioRoomManager \<Rightarrow> control_stream \<times> AudioRoomManager" where
  "control_teardown C fenced t st m =
     (let st' = (case cs_teardown_reason st of
                   Some reason \<Rightarrow>
                     (case tn_send t of
                        Inl _ \<Rightarrow> st
                      | Inr _ \<Rightarrow> st\<lparr>cs_sent := cs_sent st @ [Goodbye fenced reason]\<rparr>)
                 | None \<Rightarrow> st)
      in case room_of st (fh_session_id fenced) m of
           None \<Rightarrow> (st', m)
         | Some a \<Rightarrow> (st', fold (\<lambda>(pubkey, peer_id). drop_registered C a pubkey peer_id) (cs_registered st) m))"

text \<open>
  The whole of \<open>serve_control_loop\<close> over the events it sees; \<^const>\<open>None\<close> when it still waits.
  Other tasks may change the rooms between two turns.
\<close>

type_synonym rooms_env = "AudioRoomManager \<Rightarrow> AudioRoomManager"

fun serve_control_loop ::
  "control_codec \<Rightarrow> hex_codec \<Rightarrow> RuntimeId \<Rightarrow> FencedHeader \<Rightarrow> (rooms_env \<times> turn \<times> control_event) list \<Rightarrow> control_stream \<Rightarrow>
   AudioRoomManager \<Rightarrow> (MeshError + unit) option \<times> control_stream \<times> AudioRoomManager" where
  "serve_control_loop C H local fenced [] st m = (None, st, m)"
| "serve_control_loop C H local fenced ((others, t, ev) # evs) st m =
     (case control_turn C H local fenced t ev st (others m) of
        (Continue, st', m') \<Rightarrow> serve_control_loop C H local fenced evs st' m'
      | (Break res, st', m') \<Rightarrow> (case control_teardown C fenced t st' m' of (st2, m2) \<Rightarrow> (Some res, st2, m2))
      | (Return e, st', m') \<Rightarrow> (Some (Inl e), st', m'))"

text \<open>The checks of the \<open>Hello\<close>, after which the loop is served.\<close>

definition huddle_accept_inbound :: "RuntimeId \<Rightarrow> RuntimeId \<Rightarrow> StreamHello \<Rightarrow> MeshError + FencedHeader" where
  "huddle_accept_inbound local from hello =
     (if sh_sender hello \<noteq> from then Inl (Transport ''huddle-control hello.sender'')
      else
        (case sh_role hello of
           Control \<Rightarrow> Inl (Transport ''huddle-control stream Hello was not a session role'')
         | Session fenced profile \<Rightarrow>
             if profile \<noteq> HuddleControl then Inl (Transport ''huddle-control acceptor got profile'')
             else if fh_owner_runtime_id fenced \<noteq> local
             then Inl (OwnerMismatch (fh_session_id fenced) (fh_generation fenced) (fh_owner_runtime_id fenced) local)
             else Inr fenced))"

subsection \<open>The remote relay's side\<close>

datatype HuddleTeardownCause = CauseOwnerLost | CauseOwnerDraining | CauseSessionEnded | CauseStreamClosed

fun from_goodbye :: "GoodbyeReason \<Rightarrow> HuddleTeardownCause" where
  "from_goodbye StaleGeneration = CauseOwnerLost"
| "from_goodbye Draining = CauseOwnerDraining"
| "from_goodbye SessionEnded = CauseSessionEnded"

record RemoteHuddleSession =
  rh_peer_index :: byte
  rh_roster :: RosterSnapshot
  rh_fenced :: FencedHeader
  rh_owner :: RuntimeId
  rh_pubkey :: string
  rh_seq :: "64 word"

datatype DialError = Rejected RegisterRejection | DialMesh MeshError

text \<open>
  \<open>dial_remote_owner\<close>: what opening the stream, sending the registration and receiving the reply
  came to are arguments.
\<close>

definition dial_remote_owner ::
  "control_codec \<Rightarrow> RuntimeId \<Rightarrow> RuntimeId \<Rightarrow> FencedHeader \<Rightarrow> uuid \<Rightarrow> string \<Rightarrow> byte \<Rightarrow>
   (RuntimeId \<Rightarrow> StreamHello \<Rightarrow> MeshError + unit) \<Rightarrow> (MeshStreamFrame \<Rightarrow> MeshError + unit) \<Rightarrow> MeshError + MeshStreamFrame option \<Rightarrow>
   DialError + RemoteHuddleSession" where
  "dial_remote_owner C local owner fenced community_id pubkey version open_session_stream send received =
     (case open_session_stream owner \<lparr>sh_sender = local, sh_role = Session fenced HuddleControl\<rparr> of
        Inl e \<Rightarrow> Inl (DialMesh e)
      | Inr _ \<Rightarrow>
          (case encode_control C (RegisterPeer community_id pubkey version) of
             Inl e \<Rightarrow> Inl (DialMesh e)
           | Inr payload \<Rightarrow>
               (case send (Data fenced payload) of
                  Inl e \<Rightarrow> Inl (DialMesh e)
                | Inr _ \<Rightarrow>
                    (case received of
                       Inl e \<Rightarrow> Inl (DialMesh e)
                     | Inr (Some (Data _ reply)) \<Rightarrow>
                         (case decode_control C reply of
                            Inl e \<Rightarrow> Inl (DialMesh e)
                          | Inr (PeerRegistered _ i snapshot) \<Rightarrow>
                              Inr \<lparr>rh_peer_index = i, rh_roster = snapshot, rh_fenced = fenced, rh_owner = owner,
                                rh_pubkey = pubkey, rh_seq = 0\<rparr>
                          | Inr (RegisterRejected _ reason) \<Rightarrow> Inl (Rejected reason)
                          | Inr _ \<Rightarrow> Inl (DialMesh (Transport ''expected PeerRegistered/RegisterRejected'')))
                     | Inr (Some (Goodbye _ _)) \<Rightarrow>
                         Inl (DialMesh (Transport ''owner closed HuddleControl stream before replying''))
                     | Inr None \<Rightarrow> Inl (DialMesh (Transport ''owner closed HuddleControl stream before replying''))
                     | Inr (Some _) \<Rightarrow> Inl (DialMesh (Transport ''unexpected HuddleControl frame from owner''))))))"

definition media_datagram :: "byte \<Rightarrow> FencedHeader \<Rightarrow> 64 word \<Rightarrow> bytes \<Rightarrow> MeshDatagram" where
  "media_datagram i fenced seq frame = \<lparr>md_fenced = fenced, md_seq = seq, md_payload = [i] @ frame\<rparr>"

text \<open>The datagram handed to the transport, whose answer is only logged.\<close>

definition forward_media :: "bytes \<Rightarrow> RemoteHuddleSession \<Rightarrow> MeshDatagram \<times> RemoteHuddleSession" where
  "forward_media frame s =
     (media_datagram (rh_peer_index s) (rh_fenced s) (rh_seq s) frame, s\<lparr>rh_seq := rh_seq s + 1\<rparr>)"

text \<open>The frames \<open>send_clean_close\<close> tries to send before it finishes the stream.\<close>

definition send_clean_close :: "control_codec \<Rightarrow> FencedHeader \<Rightarrow> string \<Rightarrow> MeshStreamFrame list" where
  "send_clean_close C fenced pubkey =
     (case encode_control C (UnregisterPeer pubkey) of Inl _ \<Rightarrow> [] | Inr payload \<Rightarrow> [Data fenced payload]) @
     [Goodbye fenced SessionEnded]"

text \<open>What the reader shows to its client; the JSON text is not kept.\<close>

datatype client_msg =
    ClientRoster "64 word" "RosterPeer list"
  | ClientJoined "64 word" RosterPeer
  | ClientLeft "64 word" RosterPeer

record owner_reader =
  or_revision :: "64 word"
  or_shown :: "client_msg list"
  or_resyncs :: nat

definition show_client :: "bool \<Rightarrow> client_msg \<Rightarrow> owner_reader \<Rightarrow> HuddleTeardownCause option \<times> owner_reader" where
  "show_client ctrl_open msg s =
     (if ctrl_open then (None, s\<lparr>or_shown := or_shown s @ [msg]\<rparr>) else (Some CauseSessionEnded, s))"

text \<open>One turn of \<open>read_owner_control\<close>: whether the client's channel is open, what sending came to, what was received.\<close>

definition reader_msg ::
  "control_codec \<Rightarrow> bool \<Rightarrow> MeshError + unit \<Rightarrow> HuddleControlMsg \<Rightarrow> owner_reader \<Rightarrow>
   HuddleTeardownCause option \<times> owner_reader" where
  "reader_msg C ctrl_open sent msg s =
     (case msg of
        SnapshotMsg next peers \<Rightarrow> show_client ctrl_open (ClientRoster next peers) (s\<lparr>or_revision := next\<rparr>)
      | DeltaMsg next joined left \<Rightarrow>
          if next = or_revision s + 1 then
            (let s' = s\<lparr>or_revision := next\<rparr>
             in case joined of
                  Some p \<Rightarrow> show_client ctrl_open (ClientJoined next p) s'
                | None \<Rightarrow>
                    (case left of
                       Some p \<Rightarrow> show_client ctrl_open (ClientLeft next p) s'
                     | None \<Rightarrow> (None, s')))
          else if next \<le> or_revision s then (None, s)
          else
            (case encode_control C RosterResync of
               Inl _ \<Rightarrow> (Some CauseStreamClosed, s)
             | Inr _ \<Rightarrow>
                 (case sent of
                    Inl _ \<Rightarrow> (Some CauseStreamClosed, s)
                  | Inr _ \<Rightarrow> (None, s\<lparr>or_resyncs := Suc (or_resyncs s)\<rparr>)))
      | _ \<Rightarrow> (None, s))"

definition reader_turn ::
  "control_codec \<Rightarrow> bool \<Rightarrow> MeshError + unit \<Rightarrow> MeshError + MeshStreamFrame option \<Rightarrow> owner_reader \<Rightarrow>
   HuddleTeardownCause option \<times> owner_reader" where
  "reader_turn C ctrl_open sent received s =
     (case received of
        Inr (Some (Goodbye _ reason)) \<Rightarrow> (Some (from_goodbye reason), s)
      | Inr (Some (Data _ payload)) \<Rightarrow>
          (case decode_control C payload of
             Inl _ \<Rightarrow> (None, s)
           | Inr msg \<Rightarrow> reader_msg C ctrl_open sent msg s)
      | Inr (Some _) \<Rightarrow> (None, s)
      | Inr None \<Rightarrow> (Some CauseStreamClosed, s)
      | Inl _ \<Rightarrow> (Some CauseStreamClosed, s))"

fun read_owner_control ::
  "control_codec \<Rightarrow> (bool \<times> (MeshError + unit) \<times> (MeshError + MeshStreamFrame option)) list \<Rightarrow> owner_reader \<Rightarrow>
   HuddleTeardownCause option \<times> owner_reader" where
  "read_owner_control C [] s = (None, s)"
| "read_owner_control C ((ctrl_open, sent, received) # turns) s =
     (case reader_turn C ctrl_open sent received s of
        (None, s') \<Rightarrow> read_owner_control C turns s'
      | (Some cause, s') \<Rightarrow> (Some cause, s'))"

fun read_teardown_cause :: "(MeshError + MeshStreamFrame option) list \<Rightarrow> HuddleTeardownCause option" where
  "read_teardown_cause [] = None"
| "read_teardown_cause (received # turns) =
     (case received of
        Inr (Some (Goodbye _ reason)) \<Rightarrow> Some (from_goodbye reason)
      | Inr (Some _) \<Rightarrow> read_teardown_cause turns
      | Inr None \<Rightarrow> Some CauseStreamClosed
      | Inl _ \<Rightarrow> Some CauseStreamClosed)"

subsection \<open>The roster a remote client sees\<close>

fun client_apply :: "client_msg \<Rightarrow> (byte \<Rightarrow> string option) \<Rightarrow> byte \<Rightarrow> string option" where
  "client_apply (ClientRoster n peers) m = snapshot_map \<lparr>rs_revision = n, rs_peers = peers\<rparr>"
| "client_apply (ClientJoined n p) m = m(rp_peer_index p \<mapsto> rp_pubkey p)"
| "client_apply (ClientLeft n p) m = m(rp_peer_index p := None)"

text \<open>Every delta of a room says that one participant joined or that one left.\<close>

definition one_sided :: "RosterDelta \<Rightarrow> bool" where
  "one_sided d \<longleftrightarrow> (rd_joined d = None) \<noteq> (rd_left d = None)"

lemma step_one_sided:
  "room_step r r' \<Longrightarrow> \<forall>d\<in>set (rm_roster_sent r). one_sided d \<Longrightarrow> \<forall>d\<in>set (rm_roster_sent r'). one_sided d"
proof (erule room_stepE, goal_cases)
  case (1 peer_id pk v)
  then show ?case
    by (cases rule: add_peer_cases [of peer_id pk v r]) (auto simp: admit_def extends_publish one_sided_def)
next
  case (2 peer_id pk v i)
  then show ?case
    by (cases rule: add_peer_at_index_cases [of peer_id pk v i r]) (auto simp: admit_def extends_publish one_sided_def)
next
  case (7 s frame)
  then show ?case using fan_outs_map_peers(1) [of s frame r] by auto
next
  case (8 i frame)
  then show ?case using fan_outs_map_peers(2) [of i frame r] by auto
next
  case (9 json)
  then show ?case using fan_outs_map_peers(3) [of json r] by auto
qed (auto simp: remove_peer_def remove_peer_and_check_ended_def depart_def extends_publish one_sided_def
      mark_ended_def clear_ended_def Let_def split: option.splits)

lemma steps_one_sided:
  "room_step\<^sup>*\<^sup>* r0 r \<Longrightarrow> room_start r0 \<Longrightarrow> \<forall>d\<in>set (rm_roster_sent r). one_sided d"
  by (induction rule: rtranclp_induct) (auto simp: room_start_def Room_new_def dest: step_one_sided)

text \<open>What an owner whose room went from \<open>r0\<close> to \<open>r\<close> may have put on the stream.\<close>

definition owner_sent :: "Room \<Rightarrow> Room \<Rightarrow> HuddleControlMsg \<Rightarrow> bool" where
  "owner_sent r0 r msg \<longleftrightarrow>
     (case msg of
        SnapshotMsg _ _ \<Rightarrow> \<exists>r1. room_step\<^sup>*\<^sup>* r0 r1 \<and> room_step\<^sup>*\<^sup>* r1 r \<and> msg = roster_snapshot_msg r1
      | DeltaMsg _ _ _ \<Rightarrow> \<exists>d\<in>set (rm_roster_sent r). msg = roster_delta_msg d
      | _ \<Rightarrow> True)"

definition roster_at :: "Room \<Rightarrow> nat \<Rightarrow> byte \<Rightarrow> string option" where
  "roster_at r k = fold apply_delta (take k (rm_roster_sent r)) (\<lambda>_. None)"

lemma past_snapshot:
  assumes "room_start r0" "room_step\<^sup>*\<^sup>* r0 r1" "room_step\<^sup>*\<^sup>* r1 r"
  shows "rs_revision (roster_snapshot r1) = of_nat (length (rm_roster_sent r1))"
    and "length (rm_roster_sent r1) \<le> length (rm_roster_sent r)"
    and "snapshot_map (roster_snapshot r1) = roster_at r (length (rm_roster_sent r1))"
proof -
  have inv: "room_inv r1" using room_reachable_inv assms(1,2) by blast
  show "rs_revision (roster_snapshot r1) = of_nat (length (rm_roster_sent r1))"
    using inv by (simp add: room_inv_def log_ok_def roster_snapshot_def)
  have "prefix (rm_roster_sent r1) (rm_roster_sent r)" by (rule steps_extend_log [OF assms(3) inv])
  then show "length (rm_roster_sent r1) \<le> length (rm_roster_sent r)" by (rule prefix_length_le)
  show "snapshot_map (roster_snapshot r1) = roster_at r (length (rm_roster_sent r1))"
    using inv \<open>prefix _ _\<close> snapshot_map_roster [OF inv] by (auto simp: roster_at_def room_inv_def log_ok_def prefix_def)
qed

definition reader_ok :: "(byte \<Rightarrow> string option) \<Rightarrow> Room \<Rightarrow> owner_reader \<Rightarrow> bool" where
  "reader_ok v0 r s \<longleftrightarrow> unat (or_revision s) \<le> length (rm_roster_sent r) \<and>
     fold client_apply (or_shown s) v0 = roster_at r (unat (or_revision s))"

lemma unat_small: "n < 2 ^ 64 \<Longrightarrow> unat (of_nat n :: 64 word) = n"
  by (simp add: unat_of_nat)

lemma reader_msg_ok:
  assumes r: "room_start r0" "room_step\<^sup>*\<^sup>* r0 r" "length (rm_roster_sent r) < 2 ^ 64"
    and msg: "owner_sent r0 r msg" and ok: "reader_ok v0 r s" and step: "reader_msg C True sent msg s = (res, s')"
  shows "reader_ok v0 r s'"
proof (cases msg)
  case (SnapshotMsg rv peers)
  with msg obtain r1 where r1: "room_step\<^sup>*\<^sup>* r0 r1" "room_step\<^sup>*\<^sup>* r1 r"
    "rv = rs_revision (roster_snapshot r1)" "peers = rs_peers (roster_snapshot r1)"
    by (auto simp: owner_sent_def roster_snapshot_msg_def)
  note past = past_snapshot [OF r(1) r1(1,2)]
  have "unat rv = length (rm_roster_sent r1)" using past(1,2) r(3) r1(3) by (simp add: unat_of_nat)
  with step SnapshotMsg past r1(3,4) show ?thesis
    by (cases "roster_snapshot r1") (auto simp: reader_msg_def show_client_def reader_ok_def)
next
  case (DeltaMsg rv joined left)
  with msg obtain d where d: "d \<in> set (rm_roster_sent r)" "rv = rd_revision d" "joined = rd_joined d" "left = rd_left d"
    by (auto simp: owner_sent_def roster_delta_msg_def)
  then obtain k where k: "k < length (rm_roster_sent r)" "rm_roster_sent r ! k = d" by (auto simp: in_set_conv_nth)
  have inv: "room_inv r" using room_reachable_inv r(1,2) by blast
  then have rv: "rv = of_nat (Suc k)" using k d(2) by (auto simp: room_inv_def log_ok_def)
  have sided: "one_sided d" using steps_one_sided [OF r(2,1)] d(1) by blast
  show ?thesis
  proof (cases "rv = or_revision s + 1")
    case True
    then have "or_revision s = of_nat k" using rv by simp
    then have rev: "unat (or_revision s) = k" using k(1) r(3) by (simp add: unat_of_nat)
    have "unat rv = Suc k" unfolding rv using k(1) r(3) by (intro unat_small) simp
    moreover have "roster_at r (Suc k) = apply_delta d (roster_at r k)"
      using k by (simp add: roster_at_def take_Suc_conv_app_nth)
    ultimately show ?thesis
      using step DeltaMsg True ok rev k(1) sided d
      by (auto simp: reader_msg_def show_client_def reader_ok_def one_sided_def apply_delta_def Let_def split: option.splits)
  next
    case False
    with step DeltaMsg ok show ?thesis
      by (auto simp: reader_msg_def reader_ok_def split: if_splits sum.splits)
  qed
qed (use step ok in \<open>auto simp: reader_msg_def\<close>)

text \<open>
  C19. The roster a client sees through another relay is always a roster the owner had. Whatever the
  stream loses, repeats or reorders, after any number of messages the joins, leaves and snapshots
  shown to the client add up to the owner's roster at the revision the reader stands at; in
  particular, once it stands at the owner's last revision, the client sees the owner's roster.
  (Fewer than 2^64 changes in the life of the room.)
\<close>

theorem remote_roster_consistent:
  assumes r: "room_start r0" "room_step\<^sup>*\<^sup>* r0 r1" "room_step\<^sup>*\<^sup>* r1 r" "length (rm_roster_sent r) < 2 ^ 64"
    and turns: "\<forall>(ctrl_open, _, received)\<in>set turns. ctrl_open \<and>
      (\<forall>h payload msg. received = Inr (Some (Data h payload)) \<longrightarrow> decode_control C payload = Inr msg \<longrightarrow> owner_sent r0 r msg)"
    and s: "s = \<lparr>or_revision = rs_revision (roster_snapshot r1), or_shown = [], or_resyncs = 0\<rparr>"
    and run: "read_owner_control C turns s = (res, s')"
  shows "unat (or_revision s') \<le> length (rm_roster_sent r) \<and>
    fold client_apply (or_shown s') (snapshot_map (roster_snapshot r1)) = roster_at r (unat (or_revision s')) \<and>
    (unat (or_revision s') = length (rm_roster_sent r) \<longrightarrow>
       fold client_apply (or_shown s') (snapshot_map (roster_snapshot r1)) = snapshot_map (roster_snapshot r))"
proof -
  have r0r: "room_step\<^sup>*\<^sup>* r0 r" using r(2,3) by (rule rtranclp_trans)
  note past = past_snapshot [OF r(1-3)]
  let ?v0 = "snapshot_map (roster_snapshot r1)"
  have "unat (or_revision s) = length (rm_roster_sent r1)"
    using past(1,2) r(4) by (simp add: s unat_of_nat)
  then have "reader_ok ?v0 r s" using past by (simp add: reader_ok_def s)
  with turns run have ok: "reader_ok ?v0 r s'"
  proof (induction turns arbitrary: s)
    case (Cons turn turns)
    obtain ctrl_open sent received where turn: "turn = (ctrl_open, sent, received)" by (cases turn)
    obtain res1 s1 where one: "reader_turn C ctrl_open sent received s = (res1, s1)" by fastforce
    have "reader_ok ?v0 r s1"
    proof (cases "\<exists>h payload msg. received = Inr (Some (Data h payload)) \<and> decode_control C payload = Inr msg")
      case True
      then obtain h payload msg where m: "received = Inr (Some (Data h payload))" "decode_control C payload = Inr msg" by blast
      with Cons.prems(1) turn have "ctrl_open" "owner_sent r0 r msg" by auto
      moreover have "reader_msg C ctrl_open sent msg s = (res1, s1)" using one m by (simp add: reader_turn_def)
      ultimately show ?thesis using reader_msg_ok [OF r(1) r0r r(4) _ Cons.prems(3)] by simp
    next
      case False
      with one have "s1 = s" by (auto simp: reader_turn_def split: sum.splits option.splits MeshStreamFrame.splits)
      with Cons.prems(3) show ?thesis by simp
    qed
    with Cons.IH [of s1] Cons.prems one turn show ?case by (auto split: option.splits)
  qed simp
  have "snapshot_map (roster_snapshot r) = roster_at r (length (rm_roster_sent r))"
    using past_snapshot(3) [OF r(1) r0r rtranclp.rtrancl_refl] .
  with ok show ?thesis by (auto simp: reader_ok_def)
qed

subsection \<open>Admission of remote peers\<close>

definition peer_ids :: "Room \<Rightarrow> uuid set" where "peer_ids r = dom (hget (rm_peers r))"

definition room_ids :: "AudioRoomManager \<Rightarrow> nat \<Rightarrow> uuid set" where
  "room_ids m a = (if a < length (am_store m) then peer_ids (am_store m ! a) else {})"

lemma ids_add_peer: "peer_ids (snd (add_peer k pk v r)) \<subseteq> insert k (peer_ids r)"
  by (cases rule: add_peer_cases [of k pk v r]) (auto simp: peer_ids_def admit_def publish_def Let_def split: if_splits)

lemma ids_broadcast [simp]: "peer_ids (broadcast_control json r) = peer_ids r"
proof -
  have "map_of (map (\<lambda>(k, p). (k, f p)) m) = map_option f \<circ> map_of m" for f :: "AudioPeer \<Rightarrow> AudioPeer" and m :: "(uuid, AudioPeer) hmap"
    by (rule map_of_map)
  then show ?thesis by (auto simp: peer_ids_def broadcast_control_def)
qed

lemma ids_remove_peer: "peer_ids (remove_peer k r) = (if rm_poisoned r then peer_ids r else peer_ids r - {k})"
  by (auto simp: peer_ids_def remove_peer_def depart_def publish_def Let_def split: option.splits if_splits)

lemma room_ids_with_room:
  "room_ids (with_room a f m) b = (if b = a \<and> a < length (am_store m) then peer_ids (f (am_store m ! a)) else room_ids m b)"
  by (simp add: room_ids_def with_room_def)

lemma room_ids_get_or_create: "get_or_create c ch m = (a, m') \<Longrightarrow> room_ids m' b = room_ids m b"
  by (auto simp: get_or_create_def room_ids_def peer_ids_def nth_append Room_new_def Let_def split: option.splits)

lemma ids_drop:
  "peer_ids (case hget (rm_peers r) k of None \<Rightarrow> remove_peer k r | Some p \<Rightarrow> broadcast_control (j p) (remove_peer k r)) =
     (if rm_poisoned r then peer_ids r else peer_ids r - {k})"
  by (cases "hget (rm_peers r) k") (simp_all add: ids_remove_peer)

lemma room_ids_drop: "room_ids (drop_registered C a pk k m) b \<subseteq> room_ids m b"
  by (simp add: drop_registered_def room_ids_with_room ids_drop) (auto simp: room_ids_def)

lemma room_ids_register:
  "register_remote_peer C a k pk v st m = (reply, st', m') \<Longrightarrow>
   cs_community st' = cs_community st \<and> room_ids m' b \<subseteq> room_ids m b \<union> (if b = a then {k} else {})"
  using ids_add_peer [of k pk v "am_store m ! a"]
  by (cases "add_peer k pk v (am_store m ! a)")
    (auto simp: register_remote_peer_def Let_def room_ids_with_room split: sum.splits, auto simp: room_ids_def split: if_splits)

lemma send_or_return_community [simp]: "cs_community (snd (send_or_return C fenced t msg st)) = cs_community st"
  by (auto simp: send_or_return_def send_msg_def split: sum.splits)

lemma get_or_create_get: "get_or_create c ch m = (a, m') \<Longrightarrow> get_room c ch m' = Some a"
  by (auto simp: get_or_create_def get_room_def Let_def split: option.splits)

lemma register_rooms: "register_remote_peer C a k pk v st m = (reply, st', m') \<Longrightarrow> am_rooms m' = am_rooms m"
  by (auto simp: register_remote_peer_def Let_def with_room_def split: prod.splits sum.splits)

lemma handle_register_fenced:
  assumes reg: "handle_register C H fenced t c pk v st m = (res, st', m')"
  shows "(\<forall>a k. k \<in> room_ids m' a \<longrightarrow> k \<in> room_ids m a \<or>
      (k = tn_peer_id t \<and> \<not> tn_draining t \<and> (\<exists>c. cs_community st' = Some c \<and>
        get_room c (fh_session_id fenced) m' = Some a \<and>
        validate_fenced_header H (tn_now t) c fenced (tn_redis t) = Inr ()))) \<and>
    (cs_community st \<noteq> None \<longrightarrow> cs_community st' = cs_community st)"
proof -
  obtain a m1 where goc: "get_or_create c (fh_session_id fenced) m = (a, m1)" by fastforce
  note same = room_ids_get_or_create [OF goc]
  let ?st = "st\<lparr>cs_community := Some c\<rparr>"
  obtain reply st2 m2 where rr: "register_remote_peer C a (tn_peer_id t) pk v ?st m1 = (reply, st2, m2)"
    by (metis prod_cases3)
  have in_room: "get_room c (fh_session_id fenced) m2 = Some a"
    using get_or_create_get [OF goc] register_rooms [OF rr] by (simp add: get_room_def)
  have ids: "k \<in> room_ids m2 b \<Longrightarrow> k \<in> room_ids m b \<or> k = tn_peer_id t \<and> b = a" for k b
    using room_ids_register [OF rr, of b] same by (auto split: if_splits)
  have comm: "cs_community st2 = Some c" using room_ids_register [OF rr] by simp
  have out: "m' = m \<or> m' = m1 \<or>
      m' = m2 \<and> \<not> tn_draining t \<and> validate_fenced_header H (tn_now t) c fenced (tn_redis t) = Inr () \<and> cs_community st' = Some c"
    using reg comm
    by (auto simp: handle_register_def goc rr Let_def send_msg_def
        split: if_splits sum.splits option.splits HuddleControlMsg.splits)
  have "cs_community st \<noteq> None \<longrightarrow> cs_community st' = cs_community st"
    using reg comm
    by (auto simp: handle_register_def goc rr Let_def send_msg_def
        split: if_splits sum.splits option.splits HuddleControlMsg.splits)
  with out ids same in_room show ?thesis by metis
qed

text \<open>
  An owner admits a remote client only through the fence: whatever one turn of its loop sees, a
  peer that is in a room after the turn and was not before is the one the turn registered, the
  directory accepted the fence of the stream for the community the stream is latched to, the room
  is that community's room of the session, and the relay was not draining. The latch never changes.
\<close>

theorem remote_admission_fenced:
  assumes "control_turn C H local fenced t ev st m = (res, st', m')"
  shows "(\<forall>a k. k \<in> room_ids m' a \<longrightarrow> k \<in> room_ids m a \<or>
      (k = tn_peer_id t \<and> \<not> tn_draining t \<and> (\<exists>c. cs_community st' = Some c \<and>
        get_room c (fh_session_id fenced) m' = Some a \<and>
        validate_fenced_header H (tn_now t) c fenced (tn_redis t) = Inr ()))) \<and>
    (cs_community st \<noteq> None \<longrightarrow> cs_community st' = cs_community st)"
proof (cases "\<exists>f payload. ev = Incoming (Inr (Some (Data f payload)))")
  case False
  with assms send_or_return_community show ?thesis
    by (auto simp: control_turn_def Let_def split: control_event.splits sum.splits option.splits MeshStreamFrame.splits prod.splits)
      (metis send_or_return_community snd_conv)+
next
  case True
  then obtain f payload where "ev = Incoming (Inr (Some (Data f payload)))" by blast
  with assms have frame: "handle_frame C H local fenced t f payload st m = (res, st', m')"
    by (simp add: control_turn_def Let_def)
  show ?thesis
  proof (cases "\<exists>c pk v. decode_control C payload = Inr (RegisterPeer c pk v) \<and> f = fenced")
    case False
    have unreg: "cs_community (fst (handle_unregister C sid pk st m)) = cs_community st"
      "room_ids (snd (handle_unregister C sid pk st m)) a \<subseteq> room_ids m a" for sid pk a
      using room_ids_drop by (auto simp: handle_unregister_def Let_def split: option.splits)
    from frame False have "cs_community st' = cs_community st \<and> (\<forall>a. room_ids m' a \<subseteq> room_ids m a)"
      using unreg [of "fh_session_id fenced"]
      by (auto simp: handle_frame_def Let_def
          split: if_splits sum.splits HuddleControlMsg.splits option.splits prod.splits)
        (metis fst_conv snd_conv subsetD send_or_return_community)+
    then show ?thesis by blast
  next
    case True
    then obtain c pk v where "handle_register C H fenced t c pk v st m = (res, st', m')"
      using frame by (auto simp: handle_frame_def Let_def)
    then show ?thesis by (rule handle_register_fenced)
  qed
qed

subsection \<open>How the loop ends\<close>

lemma room_ids_drop_all:
  assumes "a < length (am_store m)" "\<not> rm_poisoned (am_store m ! a)"
  shows "room_ids (fold (\<lambda>(pk, k). drop_registered C a pk k) reg m) a = room_ids m a - set (map snd reg)"
proof -
  have pois: "rm_poisoned (case hget (rm_peers r) k of None \<Rightarrow> remove_peer k r
      | Some p \<Rightarrow> broadcast_control (j p) (remove_peer k r)) = rm_poisoned r" for r k and j :: "AudioPeer \<Rightarrow> string"
    by (auto simp: remove_peer_def depart_def publish_def broadcast_control_def Let_def split: option.splits)
  show ?thesis using assms
  proof (induction reg arbitrary: m)
    case (Cons x reg)
    obtain pk k where x: "x = (pk, k)" by (cases x)
    let ?m = "drop_registered C a pk k m"
    have "a < length (am_store ?m)" "\<not> rm_poisoned (am_store ?m ! a)"
      using Cons.prems pois by (simp_all add: drop_registered_def with_room_def)
    note rest = Cons.IH [OF this]
    have "room_ids ?m a = room_ids m a - {k}"
      using Cons.prems by (simp add: drop_registered_def room_ids_with_room ids_drop) (simp add: room_ids_def)
    with rest show ?case by (auto simp: x)
  qed simp
qed

text \<open>
  How the owner's loop ends decides whether remote peers leak. When the loop breaks (the owner
  drains or lost its lease, the stream closes or fails on receiving, the other side breaks the
  protocol) every peer the stream still has registered leaves the room. But when sending a roster
  change to the remote relay fails, \<open>serve_control_loop\<close> returns before its teardown: the rooms
  are as before, and the peers of the dead relay keep their seats and indexes.
\<close>

theorem failed_roster_send_leaks_peers:
  assumes room: "room_of st (fh_session_id fenced) m = Some a" "a < length (am_store m)" "\<not> rm_poisoned (am_store m ! a)"
    and link: "tn_send t = Inl e"
  shows "serve_control_loop C H local fenced ((\<lambda>m. m, t, RosterNext d) # evs) st m =
      (Some (Inl (case encode_control C (roster_delta_msg d) of Inl e' \<Rightarrow> e' | Inr _ \<Rightarrow> e)), st, m) \<and>
    (\<forall>ev\<in>{DrainFired, LostFired, RosterClosed, Incoming (Inl e), Incoming (Inr None)}.
      \<exists>res st' m'. serve_control_loop C H local fenced ((\<lambda>m. m, t, ev) # evs) st m = (Some res, st', m') \<and>
        room_ids m' a = room_ids m a - set (map snd (cs_registered st)))"
proof -
  have "serve_control_loop C H local fenced ((\<lambda>m. m, t, RosterNext d) # evs) st m =
      (Some (Inl (case encode_control C (roster_delta_msg d) of Inl e' \<Rightarrow> e' | Inr _ \<Rightarrow> e)), st, m)"
    using link by (simp add: control_turn_def send_or_return_def send_msg_def split: sum.split)
  moreover have "\<exists>res st' m'. serve_control_loop C H local fenced ((\<lambda>m. m, t, ev) # evs) st m = (Some res, st', m') \<and>
        room_ids m' a = room_ids m a - set (map snd (cs_registered st))"
    if ev: "ev \<in> {DrainFired, LostFired, RosterClosed, Incoming (Inl e), Incoming (Inr None)}" for ev
  proof -
    obtain res st1 where turn: "control_turn C H local fenced t ev st m = (Break res, st1, m)"
      "cs_registered st1 = cs_registered st" "cs_community st1 = cs_community st"
      using ev by (auto simp: control_turn_def Let_def)
    have "room_of st1 (fh_session_id fenced) m = Some a" using room(1) turn(3) by (simp add: room_of_def)
    then have "snd (control_teardown C fenced t st1 m) = fold (\<lambda>(pk, k). drop_registered C a pk k) (cs_registered st) m"
      using turn(2) by (simp add: control_teardown_def Let_def)
    with turn(1) room_ids_drop_all [OF room(2,3), of C "cs_registered st"] show ?thesis
      by (cases "control_teardown C fenced t st1 m") auto
  qed
  ultimately show ?thesis by blast
qed

text \<open>
  A registration that the fence rejects has created the room of its community all the same.
\<close>

theorem rejected_registration_leaves_room:
  assumes "hget (am_rooms m) (c, fh_session_id fenced) = None" "cs_community st = None" "\<not> tn_draining t"
    and "validate_fenced_header H (tn_now t) c fenced (tn_redis t) = Inl (NoActiveLease sid g n own)"
    and "handle_register C H fenced t c pk v st m = (res, st', m')"
  shows "hget (am_rooms m') (c, fh_session_id fenced) = Some (length (am_store m))"
    and "am_store m' = am_store m @ [Room_new c (fh_session_id fenced)]"
  using assms
  by (auto simp: handle_register_def get_or_create_def Let_def send_msg_def split: sum.splits)

subsection \<open>Concrete runs\<close>

definition demo_delta :: RosterDelta where
  "demo_delta = \<lparr>rd_revision = 1, rd_joined = Some \<lparr>rp_pubkey = ''alice'', rp_peer_index = 0\<rparr>, rd_left = None\<rparr>"

definition demo_control :: control_codec where
  "demo_control = \<lparr>cc_to_postcard = (\<lambda>_. Some [0]), cc_from_postcard = (\<lambda>_. Some (roster_delta_msg demo_delta)),
     cc_json = (\<lambda>kind pk _. kind @ pk)\<rparr>"

lemma remote_roster_consistent_witness:
  "fold client_apply (or_shown (snd (read_owner_control demo_control
       [(True, Inr (), Inr (Some (Data (demo_header 1) [0])))] \<lparr>or_revision = 0, or_shown = [], or_resyncs = 0\<rparr>)))
     (snapshot_map (roster_snapshot (Room_new ''c'' ''ch''))) = snapshot_map (roster_snapshot demo_room)"
proof -
  let ?turns = "[(True, Inr (), Inr (Some (Data (demo_header 1) [0])))] :: (bool \<times> (MeshError + unit) \<times> (MeshError + MeshStreamFrame option)) list"
  let ?s = "\<lparr>or_revision = 0, or_shown = [], or_resyncs = 0\<rparr> :: owner_reader"
  have log: "rm_roster_sent demo_room = [demo_delta]" by (simp add: demo_room_eq demo_delta_def)
  have s: "?s = \<lparr>or_revision = rs_revision (roster_snapshot (Room_new ''c'' ''ch'')), or_shown = [], or_resyncs = 0\<rparr>"
    by (simp add: roster_snapshot_def Room_new_def AdmissionGuard_new_def)
  have run: "read_owner_control demo_control ?turns ?s =
      (None, \<lparr>or_revision = 1, or_shown = [ClientJoined 1 \<lparr>rp_pubkey = ''alice'', rp_peer_index = 0\<rparr>], or_resyncs = 0\<rparr>)"
    by (simp add: reader_turn_def decode_control_def demo_control_def roster_delta_msg_def demo_delta_def reader_msg_def
        show_client_def)
  have turns: "\<forall>(ctrl_open, _, received)\<in>set ?turns. ctrl_open \<and>
      (\<forall>h payload msg. received = Inr (Some (Data h payload)) \<longrightarrow> decode_control demo_control payload = Inr msg \<longrightarrow>
        owner_sent (Room_new ''c'' ''ch'') demo_room msg)"
    by (simp add: decode_control_def demo_control_def owner_sent_def roster_delta_msg_def log)
  have len: "length (rm_roster_sent demo_room) < 2 ^ 64" by (simp add: log)
  have "unat (1 :: 64 word) = length (rm_roster_sent demo_room)" by (simp add: log)
  then show ?thesis
    using remote_roster_consistent [OF demo_room_reachable(1) rtranclp.rtrancl_refl demo_room_reachable(2) len turns s run,
        THEN conjunct2, THEN conjunct2, THEN mp]
    unfolding run by simp
qed

definition demo_turn :: "MeshError + unit \<Rightarrow> turn" where
  "demo_turn link = \<lparr>tn_now = 0, tn_redis = demo_taken, tn_draining = False, tn_peer_id = ''p1'', tn_send = link\<rparr>"

definition demo_rooms :: AudioRoomManager where
  "demo_rooms = \<lparr>am_rooms = [((demo_uuid (CHR ''c''), demo_uuid (CHR ''s'')), 0)], am_store = [demo_room]\<rparr>"

definition demo_stream :: control_stream where
  "demo_stream = control_stream_new\<lparr>cs_registered := [(''alice'', ''p1'')], cs_community := Some (demo_uuid (CHR ''c'')),
     cs_subscribed := True\<rparr>"

lemma remote_admission_fenced_witness:
  "cs_community (fst (snd (control_turn demo_control demo_hex (demo_runtime 1) (demo_header 1) (demo_turn (Inr ())) DrainFired
     demo_stream demo_rooms))) = Some (demo_uuid (CHR ''c''))"
proof -
  obtain res st' m' where out: "control_turn demo_control demo_hex (demo_runtime 1) (demo_header 1) (demo_turn (Inr ())) DrainFired
     demo_stream demo_rooms = (res, st', m')" by (metis prod_cases3)
  from remote_admission_fenced [OF out] out show ?thesis by (simp add: demo_stream_def)
qed

lemma failed_roster_send_leaks_peers_witness:
  "''p1'' \<in> room_ids (snd (snd (serve_control_loop demo_control demo_hex (demo_runtime 1) (demo_header 1)
     [(\<lambda>m. m, demo_turn (Inl Disabled), RosterNext demo_delta)] demo_stream demo_rooms))) 0"
proof -
  have "room_of demo_stream (fh_session_id (demo_header 1)) demo_rooms = Some 0" "0 < length (am_store demo_rooms)"
    "\<not> rm_poisoned (am_store demo_rooms ! 0)" "tn_send (demo_turn (Inl Disabled)) = Inl Disabled"
    by (simp_all add: room_of_def demo_stream_def demo_rooms_def get_room_def demo_header_def demo_room_eq demo_turn_def)
  note leak = failed_roster_send_leaks_peers [OF this, THEN conjunct1, of demo_control demo_hex "demo_runtime 1" demo_delta "[]"]
  show ?thesis unfolding leak by (simp add: room_ids_def demo_rooms_def peer_ids_def demo_room_eq dom_def)
qed

end
