(* ===== verification/Audit_Log.thy ===== *)
theory Audit_Log
  imports Bytes Text "HOL-Library.List_Lexorder" "HOL-Library.Char_ord"
begin

text \<open>
  The audit log of \<open>buzz-audit\<close>: the entries, their canonical JSON and their hash
  (\<open>entry.rs\<close>, \<open>action.rs\<close>, \<open>hash.rs\<close>), and \<open>AuditService\<close> over the table \<open>audit_log\<close>
  (\<open>service.rs\<close>). SHA-256, the JSON of scalars, the text of instants and what Postgres keeps of
  an instant and of a JSON value are parameters, in \<open>audit_env\<close>.
\<close>

subsection \<open>Actions\<close>

datatype AuditAction =
    EventCreated | EventDeleted | ChannelCreated | ChannelUpdated | ChannelDeleted | MemberAdded
  | MemberRemoved | AuthSuccess | AuthFailure | RateLimitExceeded | MediaUploaded

fun action_as_str :: "AuditAction \<Rightarrow> string" where
  "action_as_str EventCreated = ''event_created''"
| "action_as_str EventDeleted = ''event_deleted''"
| "action_as_str ChannelCreated = ''channel_created''"
| "action_as_str ChannelUpdated = ''channel_updated''"
| "action_as_str ChannelDeleted = ''channel_deleted''"
| "action_as_str MemberAdded = ''member_added''"
| "action_as_str MemberRemoved = ''member_removed''"
| "action_as_str AuthSuccess = ''auth_success''"
| "action_as_str AuthFailure = ''auth_failure''"
| "action_as_str RateLimitExceeded = ''rate_limit_exceeded''"
| "action_as_str MediaUploaded = ''media_uploaded''"

definition ALL_ACTIONS :: "AuditAction list" where
  "ALL_ACTIONS = [EventCreated, EventDeleted, ChannelCreated, ChannelUpdated, ChannelDeleted, MemberAdded,
     MemberRemoved, AuthSuccess, AuthFailure, RateLimitExceeded, MediaUploaded]"

definition action_from_str :: "string \<Rightarrow> AuditAction option" where
  "action_from_str s = find (\<lambda>a. action_as_str a = s) ALL_ACTIONS"

lemma action_from_as_str [simp]: "action_from_str (action_as_str a) = Some a"
  by (cases a) (simp_all add: action_from_str_def ALL_ACTIONS_def)

subsection \<open>Canonical JSON\<close>

text \<open>Collecting into a \<open>BTreeMap\<close>: a later key replaces an earlier one, iteration goes in key order.\<close>

definition btree_collect :: "('k :: linorder \<times> 'v) list \<Rightarrow> ('k \<times> 'v) list" where
  "btree_collect kvs = sort_key fst (fold (\<lambda>(k, v). hput k v) kvs [])"

lemma fold_hput_mem: "kv \<in> set (fold (\<lambda>(k, v). hput k v) kvs m) \<Longrightarrow> kv \<in> set kvs \<union> set m"
proof (induction kvs arbitrary: m)
  case (Cons a kvs)
  then show ?case by (cases a) (auto dest!: Cons.IH mem_hputD)
qed simp

lemma btree_collect_mem: "kv \<in> set (btree_collect kvs) \<Longrightarrow> kv \<in> set kvs"
  using fold_hput_mem [of kv kvs "[]"] by (simp add: btree_collect_def)

lemma json_snd_size: "kv \<in> set kvs \<Longrightarrow> size (snd kv) < size (JObject kvs)"
  by (induction kvs) auto

function canonical_json :: "(json \<Rightarrow> string + string) \<Rightarrow> json \<Rightarrow> string + string" where
  "canonical_json to_string v =
     (case v of
        JObject kvs \<Rightarrow>
          (case map_ok (\<lambda>kv. case to_string (JString (fst kv)) of
                    Inl e \<Rightarrow> Inl e
                  | Inr key \<Rightarrow>
                      (case canonical_json to_string (snd kv) of
                         Inl e \<Rightarrow> Inl e
                       | Inr t \<Rightarrow> Inr (key @ '':'' @ t))) (btree_collect kvs) of
             Inl e \<Rightarrow> Inl e
           | Inr parts \<Rightarrow> Inr (''{'' @ join_with (CHR '','') parts @ ''}''))
      | JArray vs \<Rightarrow>
          (case map_ok (canonical_json to_string) vs of
             Inl e \<Rightarrow> Inl e
           | Inr parts \<Rightarrow> Inr (''['' @ join_with (CHR '','') parts @ '']''))
      | _ \<Rightarrow> to_string v)"
  by pat_completeness auto

termination
proof (relation "measure (\<lambda>(_, v). size v)")
  fix to_string :: "json \<Rightarrow> string + string" and v kvs kv key
  assume "v = JObject kvs" "kv \<in> set (btree_collect kvs)"
  then show "((to_string, snd kv), to_string, v) \<in> measure (\<lambda>(_, v). size v)"
    using json_snd_size [OF btree_collect_mem] by auto
next
  fix to_string :: "json \<Rightarrow> string + string" and v vs x
  assume "v = JArray vs" "x \<in> set vs"
  then show "((to_string, x), to_string, v) \<in> measure (\<lambda>(_, v). size v)"
    by (auto dest!: size_list_estimation' [where f = size, OF _ order_refl])
qed simp

declare canonical_json.simps [simp del]

subsection \<open>Entries and their hash\<close>

text \<open>Instants are nanoseconds since the epoch.\<close>

type_synonym datetime = int

datatype AuditError =
  Database | ChainViolation int | HashMismatch int | UnknownAction | Serialization string

record audit_env =
  sha256 :: "bytes \<Rightarrow> bytes"
  community_bytes :: "uuid \<Rightarrow> bytes"
  trunc_subsecs6 :: "datetime \<Rightarrow> datetime"
  to_rfc3339 :: "datetime \<Rightarrow> string"
  json_to_string :: "json \<Rightarrow> string + string"
  pg_timestamptz :: "datetime \<Rightarrow> datetime"
  pg_jsonb :: "json \<Rightarrow> json"

record AuditEntry =
  ae_community_id :: uuid
  ae_seq :: int
  ae_hash :: bytes
  ae_prev_hash :: "bytes option"
  ae_action :: AuditAction
  ae_actor_pubkey :: "bytes option"
  ae_object_id :: "string option"
  ae_detail :: json
  ae_created_at :: datetime


definition GENESIS_HASH :: bytes where "GENESIS_HASH = replicate 32 0"

definition to_storage_precision :: "audit_env \<Rightarrow> datetime \<Rightarrow> datetime" where
  "to_storage_precision E created_at = trunc_subsecs6 E created_at"

text \<open>The updates of the hasher, one after the other, are the bytes it digests.\<close>

definition tagged :: "bytes option \<Rightarrow> bytes" where
  "tagged x = (case x of Some bs \<Rightarrow> 1 # bs | None \<Rightarrow> [0])"

definition hasher_input :: "audit_env \<Rightarrow> AuditEntry \<Rightarrow> string \<Rightarrow> bytes" where
  "hasher_input E e detail_text =
     community_bytes E (ae_community_id e)
     @ i64_to_be (ae_seq e)
     @ ascii_bytes (to_rfc3339 E (to_storage_precision E (ae_created_at e)))
     @ ascii_bytes (action_as_str (ae_action e))
     @ tagged (ae_actor_pubkey e)
     @ tagged (map_option ascii_bytes (ae_object_id e))
     @ ascii_bytes detail_text
     @ (case ae_prev_hash e of Some h \<Rightarrow> h | None \<Rightarrow> GENESIS_HASH)"

definition compute_hash :: "audit_env \<Rightarrow> AuditEntry \<Rightarrow> AuditError + bytes" where
  "compute_hash E e =
     (case canonical_json (json_to_string E) (ae_detail e) of
        Inl err \<Rightarrow> Inl (Serialization err)
      | Inr t \<Rightarrow> Inr (sha256 E (hasher_input E e t)))"

subsection \<open>The table and the service\<close>

text \<open>A row of \<open>audit_log\<close>; the action is a text column. The order of the list has no meaning.\<close>

record audit_row =
  ar_community_id :: uuid
  ar_seq :: int
  ar_hash :: bytes
  ar_prev_hash :: "bytes option"
  ar_action :: string
  ar_actor_pubkey :: "bytes option"
  ar_object_id :: "string option"
  ar_detail :: json
  ar_created_at :: datetime


text \<open>\<open>WHERE community_id = c AND P(seq) ORDER BY seq ASC\<close>.\<close>

definition select_rows :: "uuid \<Rightarrow> (int \<Rightarrow> bool) \<Rightarrow> audit_row list \<Rightarrow> audit_row list" where
  "select_rows c P rows = sort_key ar_seq (filter (\<lambda>r. ar_community_id r = c \<and> P (ar_seq r)) rows)"



definition row_to_audit_entry :: "audit_row \<Rightarrow> AuditError + AuditEntry" where
  "row_to_audit_entry r =
     (case action_from_str (ar_action r) of
        None \<Rightarrow> Inl UnknownAction
      | Some action \<Rightarrow>
          Inr \<lparr>ae_community_id = ar_community_id r, ae_seq = ar_seq r, ae_hash = ar_hash r,
            ae_prev_hash = ar_prev_hash r, ae_action = action, ae_actor_pubkey = ar_actor_pubkey r,
            ae_object_id = ar_object_id r, ae_detail = ar_detail r, ae_created_at = ar_created_at r\<rparr>)"

fun verify_rows :: "audit_env \<Rightarrow> bytes option \<Rightarrow> audit_row list \<Rightarrow> AuditError + bool" where
  "verify_rows E expected_prev [] = Inr True"
| "verify_rows E expected_prev (row # rows) =
     (case row_to_audit_entry row of
        Inl e \<Rightarrow> Inl e
      | Inr entry \<Rightarrow>
          if expected_prev \<noteq> None \<and> ae_prev_hash entry \<noteq> expected_prev then Inl (ChainViolation (ae_seq entry))
          else
            (case compute_hash E entry of
               Inl e \<Rightarrow> Inl e
             | Inr computed \<Rightarrow>
                 if computed \<noteq> ae_hash entry then Inl (HashMismatch (ae_seq entry))
                 else verify_rows E (Some (ae_hash entry)) rows))"

definition verify_chain ::
  "audit_env \<Rightarrow> bool \<Rightarrow> uuid \<Rightarrow> int \<Rightarrow> int \<Rightarrow> audit_row list \<Rightarrow> AuditError + bool" where
  "verify_chain E up community from_seq to_seq rows =
     (if \<not> up then Inl Database
      else
        (let rs = select_rows community (\<lambda>n. from_seq \<le> n \<and> n \<le> to_seq) rows
         in if rs = [] then Inr False else verify_rows E None rs))"


subsection \<open>Chains\<close>

abbreviation chain :: "uuid \<Rightarrow> audit_row list \<Rightarrow> audit_row list" where
  "chain c rows \<equiv> select_rows c (\<lambda>_. True) rows"



lemma row_to_audit_entry_Inr:
  "row_to_audit_entry r = Inr e \<Longrightarrow>
   ae_community_id e = ar_community_id r \<and> ae_seq e = ar_seq r \<and> ae_hash e = ar_hash r \<and>
   ae_prev_hash e = ar_prev_hash r \<and> action_from_str (ar_action r) = Some (ae_action e) \<and>
   ae_actor_pubkey e = ar_actor_pubkey r \<and> ae_object_id e = ar_object_id r \<and>
   ae_detail e = ar_detail r \<and> ae_created_at e = ar_created_at r"
  by (auto simp: row_to_audit_entry_def split: option.splits)









subsection \<open>What a run of the service leaves in the table\<close>









lemma chain_community: "r \<in> set (chain c rows) \<Longrightarrow> ar_community_id r = c"
  by (simp add: select_rows_def)







lemma map_ok_append:
  "map_ok f (xs @ ys) = (case map_ok f xs of Inl e \<Rightarrow> Inl e
     | Inr as \<Rightarrow> (case map_ok f ys of Inl e \<Rightarrow> Inl e | Inr bs \<Rightarrow> Inr (as @ bs)))"
  by (induction xs) (auto split: sum.splits)





subsection \<open>What the hashes protect\<close>

text \<open>The bytes that are hashed for a row, and what of a row they determine.\<close>

definition detail_text :: "audit_env \<Rightarrow> audit_row \<Rightarrow> string" where
  "detail_text E r = (case canonical_json (json_to_string E) (ar_detail r) of Inr t \<Rightarrow> t | Inl _ \<Rightarrow> [])"

















lemma sort_key_map_same: "(\<And>x. f (g x) = f x) \<Longrightarrow> sort_key f (map g xs) = map g (sort_key f xs)"
proof (induction xs)
  case (Cons a xs)
  have "insort_key f (g a) (map g ys) = map g (insort_key f a ys)" for ys
    by (induction ys) (simp_all add: Cons.prems)
  with Cons show ?case by simp
qed simp

lemma verify_rows_map:
  assumes "\<And>r. ar_seq (g r) = ar_seq r \<and> ar_hash (g r) = ar_hash r \<and> ar_prev_hash (g r) = ar_prev_hash r \<and>
      ar_action (g r) = ar_action r"
    and "\<And>r e e'. row_to_audit_entry r = Inr e \<Longrightarrow> row_to_audit_entry (g r) = Inr e' \<Longrightarrow> compute_hash E e' = compute_hash E e"
  shows "verify_rows E p (map g rs) = verify_rows E p rs"
proof (induction rs arbitrary: p)
  case (Cons r rs)
  show ?case
  proof (cases "action_from_str (ar_action r)")
    case (Some a)
    then obtain e e' where "row_to_audit_entry r = Inr e" "row_to_audit_entry (g r) = Inr e'"
      by (simp add: row_to_audit_entry_def assms(1))
    then show ?thesis
      using assms(2) [of r e e'] assms(1) [of r] row_to_audit_entry_Inr [of r e] row_to_audit_entry_Inr [of "g r" e']
      by (cases "compute_hash E e") (auto simp: Cons.IH)
  qed (simp add: row_to_audit_entry_def assms(1))
qed simp

text \<open>
  The boundary between the object and the detail is not protected: the hasher gets the object
  id and the JSON text one after the other without a length or a separator, so bytes can be moved
  from the end of the object id to the front of the detail (object \<open>a1\<close> with detail \<open>2\<close> becomes object
  \<open>a\<close> with detail \<open>12\<close>), and \<open>verify_chain\<close> gives the same answer for every range of the table.
\<close>

theorem object_detail_boundary_open:
  assumes "ar_object_id r = Some (x @ y)" "canonical_json (json_to_string E) (ar_detail r) = Inr t"
    and "canonical_json (json_to_string E) d = Inr (y @ t)"
  shows "verify_chain E up c a b (map (\<lambda>q. if q = r then r\<lparr>ar_object_id := Some x, ar_detail := d\<rparr> else q) rows) =
    verify_chain E up c a b rows"
proof -
  define g where "g q = (if q = r then r\<lparr>ar_object_id := Some x, ar_detail := d\<rparr> else q)" for q
  have same: "ar_community_id (g q) = ar_community_id q" "ar_seq (g q) = ar_seq q" "ar_hash (g q) = ar_hash q"
    "ar_prev_hash (g q) = ar_prev_hash q" "ar_action (g q) = ar_action q" for q
    by (simp_all add: g_def)
  have "select_rows c P (map g rows) = map g (select_rows c P rows)" for P
    by (simp add: select_rows_def filter_map comp_def same sort_key_map_same)
  moreover have "compute_hash E e' = compute_hash E e"
    if "row_to_audit_entry q = Inr e" "row_to_audit_entry (g q) = Inr e'" for q e e'
  proof (cases "q = r")
    case True
    with that assms show ?thesis
      by (auto simp: g_def row_to_audit_entry_def compute_hash_def hasher_input_def tagged_def split: option.splits)
  next
    case False
    with that show ?thesis by (simp add: g_def)
  qed
  then have "verify_rows E None (map g rs) = verify_rows E None rs" for rs
    by (rule verify_rows_map [rotated]) (simp_all add: same)
  ultimately have "verify_chain E up c a b (map g rows) = verify_chain E up c a b rows"
    by (simp add: verify_chain_def Let_def)
  then show ?thesis by (simp add: g_def [abs_def])
qed

subsection \<open>A run of the log\<close>

definition demo_audit :: audit_env where
  "demo_audit = \<lparr>sha256 = (\<lambda>bs. replicate 31 1 @ [bs ! 23]), community_bytes = (\<lambda>c. take 16 (ascii_bytes c)),
     trunc_subsecs6 = (\<lambda>t. t div 1000 * 1000), to_rfc3339 = (\<lambda>t. if t = 0 then ''1970'' else ''20XX''),
     json_to_string = (\<lambda>v. case v of JNumber n \<Rightarrow> Inr n | JNull \<Rightarrow> Inr ''null'' | JString s \<Rightarrow> Inr s | _ \<Rightarrow> Inl ''unsupported''),
     pg_timestamptz = (\<lambda>t. t div 1000 * 1000), pg_jsonb = id\<rparr>"



definition demo_row :: "int \<Rightarrow> byte \<Rightarrow> bytes option \<Rightarrow> string \<Rightarrow> audit_row" where
  "demo_row n h p d = \<lparr>ar_community_id = ''c000000000000000'', ar_seq = n, ar_hash = replicate 31 1 @ [h], ar_prev_hash = p,
     ar_action = ''event_created'', ar_actor_pubkey = None, ar_object_id = Some ''a1'', ar_detail = JNumber d, ar_created_at = 0\<rparr>"

definition demo_rows :: "audit_row list" where
  "demo_rows = [demo_row 1 1 None ''2'', demo_row 2 2 (Some (replicate 31 1 @ [1])) ''4'']"






theorem object_detail_boundary_open_witness:
  "verify_chain demo_audit True ''c000000000000000'' 1 2
     [demo_row 1 1 None ''2''\<lparr>ar_object_id := Some ''a'', ar_detail := JNumber ''12''\<rparr>,
      demo_row 2 2 (Some (replicate 31 1 @ [1])) ''4''] = Inr True"
proof -
  have "verify_chain demo_audit True ''c000000000000000'' 1 2
      (map (\<lambda>q. if q = demo_row 1 1 None ''2'' then (demo_row 1 1 None ''2'')\<lparr>ar_object_id := Some ''a'', ar_detail := JNumber ''12''\<rparr>
        else q) demo_rows) = verify_chain demo_audit True ''c000000000000000'' 1 2 demo_rows"
    by (rule object_detail_boundary_open [where y = "''1''" and t = "''2''"])
      (simp_all add: demo_row_def demo_audit_def canonical_json.simps)
  moreover have "verify_chain demo_audit True ''c000000000000000'' 1 2 demo_rows = Inr True" by code_simp
  ultimately show ?thesis by (simp add: demo_rows_def demo_row_def)
qed

end
