(* ===== verification/Replica_Fence.thy ===== *)
theory Replica_Fence
  imports Prelude "HOL-Library.Multiset" "HOL-Library.List_Lexorder" "HOL-Library.Char_ord" "HOL-Library.Product_Lexorder"
begin

text \<open>
  The freshness fence of the read replica (\<open>buzz-db/src/replica_fence.rs\<close>) and the reads it routes
  (\<open>lib.rs\<close>, \<open>thread.rs\<close>). The database is a step relation: transactions on the writer, the floor
  guard that migration 0021 runs inside COMMIT, the log they commit to and its replay on the
  replica. The three statements of the probe see three states of a run.
\<close>

subsection \<open>The fence\<close>

text \<open>Instants are microseconds since the epoch.\<close>

definition CREATED_AT_FLOOR_SECS :: int where "CREATED_AT_FLOOR_SECS = 960"
definition FENCE_CLOCK_MARGIN_SECS :: int where "FENCE_CLOCK_MARGIN_SECS = 5"
definition FENCE_STALENESS :: int where "FENCE_STALENESS = 30000000"
definition CLOSED :: int where "CLOSED = - (2 ^ 63)"

abbreviation micros :: "int \<Rightarrow> int" where "micros secs \<equiv> secs * 1000000"

record ReplicaFence =
  fence_micros :: int
  updated_micros :: int

definition ReplicaFence_new :: ReplicaFence where
  "ReplicaFence_new = \<lparr>fence_micros = CLOSED, updated_micros = CLOSED\<rparr>"

definition close_fence :: "ReplicaFence \<Rightarrow> ReplicaFence" where
  "close_fence f = f\<lparr>fence_micros := CLOSED\<rparr>"

definition advance :: "int \<Rightarrow> int \<Rightarrow> ReplicaFence \<Rightarrow> ReplicaFence" where
  "advance now fence f = f\<lparr>fence_micros := fence, updated_micros := now\<rparr>"

definition i64_saturating_sub :: "int \<Rightarrow> int \<Rightarrow> int" where
  "i64_saturating_sub a b = max (- (2 ^ 63)) (min (2 ^ 63 - 1) (a - b))"

definition verified_through :: "int \<Rightarrow> ReplicaFence \<Rightarrow> int option" where
  "verified_through now f =
     (if fence_micros f = CLOSED then None
      else if i64_saturating_sub now (updated_micros f) > FENCE_STALENESS then None
      else Some (fence_micros f))"

definition covers :: "int \<Rightarrow> int \<Rightarrow> ReplicaFence \<Rightarrow> bool" where
  "covers now ts f = (case verified_through now f of Some fence \<Rightarrow> ts \<le> fence | None \<Rightarrow> False)"

subsection \<open>The database\<close>

text \<open>A row of \<open>events\<close> with its \<open>thread_metadata\<close>, which is written in the same transaction.\<close>

record event_row =
  er_community_id :: uuid
  er_id :: string
  er_created_at :: int
  er_channel_id :: "uuid option"
  er_kind :: nat
  er_root :: "string option"
  er_depth :: "nat option"
  er_broadcast :: bool

text \<open>
  \<open>tx_checked\<close> is when the deferred guard ran; from then on the transaction writes no more rows and
  waits for its commit record. \<open>tx_prepared\<close> is when it was prepared (\<open>pg_prepared_xacts\<close>).
\<close>

record txn =
  tx_start :: int
  tx_checked :: "int option"
  tx_prepared :: "int option"
  tx_rows :: "event_row list"

record pg =
  pg_clock :: int
  pg_open :: "(nat, txn) hmap"
  pg_wal :: "event_row list list"
  pg_replayed :: nat

definition floor_guard :: "int \<Rightarrow> event_row list \<Rightarrow> bool" where
  "floor_guard clock rows \<longleftrightarrow>
     (\<forall>r\<in>set rows. er_channel_id r \<noteq> None \<longrightarrow> clock - micros CREATED_AT_FLOOR_SECS \<le> er_created_at r)"

text \<open>
  One step of the writer or the replica. \<open>lag\<close> bounds the time between the guard of a prepared
  transaction and the instant its preparation is dated.
\<close>

inductive pg_step :: "int \<Rightarrow> pg \<Rightarrow> pg \<Rightarrow> bool" for lag where
  tick: "0 \<le> d \<Longrightarrow> pg_step lag w (w\<lparr>pg_clock := pg_clock w + d\<rparr>)"
| begin_tx: "hget (pg_open w) x = None \<Longrightarrow>
    pg_step lag w (w\<lparr>pg_open := hput x \<lparr>tx_start = pg_clock w, tx_checked = None, tx_prepared = None, tx_rows = []\<rparr>
      (pg_open w)\<rparr>)"
| insert_tx: "hget (pg_open w) x = Some t \<Longrightarrow> tx_checked t = None \<Longrightarrow>
    pg_step lag w (w\<lparr>pg_open := hput x (t\<lparr>tx_rows := tx_rows t @ [r]\<rparr>) (pg_open w)\<rparr>)"
| guard_tx: "hget (pg_open w) x = Some t \<Longrightarrow> tx_checked t = None \<Longrightarrow> floor_guard (pg_clock w) (tx_rows t) \<Longrightarrow>
    pg_step lag w (w\<lparr>pg_open := hput x (t\<lparr>tx_checked := Some (pg_clock w)\<rparr>) (pg_open w)\<rparr>)"
| prepare_tx: "hget (pg_open w) x = Some t \<Longrightarrow> tx_checked t = Some g \<Longrightarrow> tx_prepared t = None \<Longrightarrow> pg_clock w - g \<le> lag \<Longrightarrow>
    pg_step lag w (w\<lparr>pg_open := hput x (t\<lparr>tx_prepared := Some (pg_clock w)\<rparr>) (pg_open w)\<rparr>)"
| commit_tx: "hget (pg_open w) x = Some t \<Longrightarrow> tx_checked t \<noteq> None \<Longrightarrow>
    pg_step lag w (w\<lparr>pg_open := hdel x (pg_open w), pg_wal := pg_wal w @ [tx_rows t]\<rparr>)"
| abort_tx: "pg_step lag w (w\<lparr>pg_open := hdel x (pg_open w)\<rparr>)"
| replay: "pg_replayed w < length (pg_wal w) \<Longrightarrow> pg_step lag w (w\<lparr>pg_replayed := pg_replayed w + 1\<rparr>)"

subsection \<open>The probe\<close>

datatype ProbeError = Writer | MaskedActivity int | ReplicaLsnUnavailable

record WriterSample =
  ws_sampled_at :: int
  ws_oldest_xact_start :: "int option"
  ws_wal_lsn :: nat

definition oldest_xact_start :: "pg \<Rightarrow> int option" where
  "oldest_xact_start w =
     (let starts = map (\<lambda>(_, t). case tx_prepared t of None \<Rightarrow> tx_start t | Some p \<Rightarrow> p) (pg_open w)
      in if starts = [] then None else Some (Min (set starts)))"

text \<open>Each statement of the sample sees the state of the writer at its time and may fail.\<close>

definition sample_writer :: "pg \<times> bool \<Rightarrow> pg \<times> bool \<Rightarrow> int \<Rightarrow> pg \<times> bool \<Rightarrow> ProbeError + WriterSample" where
  "sample_writer clock scan masked lsn =
     (if \<not> snd clock then Inl Writer
      else
        (let sampled_at = pg_clock (fst clock)
         in if \<not> snd scan then Inl Writer
            else if masked > 0 then Inl (MaskedActivity masked)
            else if \<not> snd lsn then Inl Writer
            else Inr \<lparr>ws_sampled_at = sampled_at, ws_oldest_xact_start = oldest_xact_start (fst scan),
                      ws_wal_lsn = length (pg_wal (fst lsn))\<rparr>))"

definition replica_covers :: "pg \<times> bool \<Rightarrow> bool \<Rightarrow> nat \<Rightarrow> ProbeError + bool" where
  "replica_covers replica in_recovery wal_lsn =
     (if \<not> snd replica then Inl Writer
      else if \<not> in_recovery then Inl ReplicaLsnUnavailable
      else Inr (wal_lsn \<le> pg_replayed (fst replica)))"

definition probe_once ::
  "pg \<times> bool \<Rightarrow> pg \<times> bool \<Rightarrow> int \<Rightarrow> pg \<times> bool \<Rightarrow> pg \<times> bool \<Rightarrow> bool \<Rightarrow> int \<Rightarrow> ReplicaFence \<Rightarrow>
   (ProbeError + int option) \<times> ReplicaFence" where
  "probe_once clock scan masked lsn replica in_recovery now f =
     (case sample_writer clock scan masked lsn of
        Inl e \<Rightarrow> (Inl e, f)
      | Inr sample \<Rightarrow>
          (case replica_covers replica in_recovery (ws_wal_lsn sample) of
             Inl e \<Rightarrow> (Inl e, f)
           | Inr False \<Rightarrow> (Inr None, f)
           | Inr True \<Rightarrow>
               (let lower = (case ws_oldest_xact_start sample of
                       Some oldest \<Rightarrow> min oldest (ws_sampled_at sample)
                     | None \<Rightarrow> ws_sampled_at sample);
                    new_fence = lower - micros CREATED_AT_FLOOR_SECS - micros FENCE_CLOCK_MARGIN_SECS
                in (Inr (Some new_fence), advance now new_fence f))))"

text \<open>One round of \<open>run_probe\<close>.\<close>

definition probe_tick ::
  "pg \<times> bool \<Rightarrow> pg \<times> bool \<Rightarrow> int \<Rightarrow> pg \<times> bool \<Rightarrow> pg \<times> bool \<Rightarrow> bool \<Rightarrow> int \<Rightarrow> ReplicaFence \<Rightarrow> ReplicaFence" where
  "probe_tick clock scan masked lsn replica in_recovery now f =
     (case probe_once clock scan masked lsn replica in_recovery now f of
        (Inr (Some _), f') \<Rightarrow> f'
      | (Inr None, f') \<Rightarrow> f'
      | (Inl _, f') \<Rightarrow> close_fence f')"

subsection \<open>The reads that are routed\<close>





text \<open>\<open>ORDER BY event_created_at ASC, event_id ASC LIMIT limit\<close>; the cursor is decoded already.\<close>

definition reply_rows ::
  "uuid \<Rightarrow> string \<Rightarrow> nat option \<Rightarrow> (int \<times> string option) option \<Rightarrow> event_row list \<Rightarrow> event_row list" where
  "reply_rows community root depth_limit cursor rows =
     sort_key (\<lambda>r. (er_created_at r, er_id r))
       (filter (\<lambda>r. er_community_id r = community \<and> er_root r = Some root \<and>
          (case depth_limit of None \<Rightarrow> True | Some d \<Rightarrow> (case er_depth r of None \<Rightarrow> False | Some n \<Rightarrow> n \<le> d)) \<and>
          (case cursor of None \<Rightarrow> True
           | Some (ts, None) \<Rightarrow> er_created_at r > ts
           | Some (ts, Some eid) \<Rightarrow> er_created_at r > ts \<or> er_created_at r = ts \<and> eid < er_id r)) rows)"

definition thread_replies ::
  "uuid \<Rightarrow> string \<Rightarrow> nat option \<Rightarrow> nat \<Rightarrow> (int \<times> string option) option \<Rightarrow> event_row list \<Rightarrow> event_row list" where
  "thread_replies community root depth_limit limit cursor rows = take limit (reply_rows community root depth_limit cursor rows)"

text \<open>What a query sees on the writer and on the replica.\<close>

definition writer_rows :: "pg \<Rightarrow> event_row list" where
  "writer_rows w = concat (pg_wal w)"

definition replica_rows :: "pg \<Rightarrow> event_row list" where
  "replica_rows w = concat (take (pg_replayed w) (pg_wal w))"


text \<open>
  The fence is looked at twice, before the query on the replica (\<open>look1\<close>: the clock and the fence) and
  after it (\<open>look2\<close>); \<open>w\<close> is what the replica query sees, \<open>w2\<close> what the writer query sees. A cursor
  that is too short to decode is \<open>Some None\<close>.
\<close>

definition get_thread_replies ::
  "bool \<Rightarrow> int \<times> ReplicaFence \<Rightarrow> pg \<Rightarrow> int \<times> ReplicaFence \<Rightarrow> pg \<Rightarrow> uuid \<Rightarrow> string \<Rightarrow> nat option \<Rightarrow> nat \<Rightarrow>
   (int \<times> string option) option option \<Rightarrow> event_row list" where
  "get_thread_replies has_read_pool look1 w look2 w2 community root depth_limit limit cursor =
     (let key = (case cursor of Some k \<Rightarrow> k | None \<Rightarrow> None);
          from_writer = thread_replies community root depth_limit limit key (writer_rows w2)
      in if cursor \<noteq> None \<and> has_read_pool \<and> verified_through (fst look1) (snd look1) \<noteq> None then
           (let replies = thread_replies community root depth_limit limit key (replica_rows w);
                full = length replies \<ge> limit;
                below_fence = (replies \<noteq> [] \<and> covers (fst look2) (er_created_at (last replies)) (snd look2))
            in if full \<and> below_fence then replies else from_writer)
         else from_writer)"

subsection \<open>Runs\<close>

text \<open>
  A run interleaves the database with the rounds of the probe; between the statements of a round the
  database goes on.
\<close>

inductive fence_step :: "int \<Rightarrow> pg \<times> ReplicaFence \<Rightarrow> pg \<times> ReplicaFence \<Rightarrow> bool" for lag where
  database: "pg_step lag w w' \<Longrightarrow> fence_step lag (w, f) (w', f)"
| probe: "(pg_step lag)\<^sup>*\<^sup>* w1 w2 \<Longrightarrow> (pg_step lag)\<^sup>*\<^sup>* w2 w3 \<Longrightarrow> (pg_step lag)\<^sup>*\<^sup>* w3 w4 \<Longrightarrow>
    fence_step lag (w1, f) (w4, probe_tick (w1, ok1) (w2, ok2) masked (w3, ok3) (w4, ok4) in_recovery now f)"
| closing: "fence_step lag (w, f) (w, close_fence f)"

definition fence_start :: "pg \<times> ReplicaFence \<Rightarrow> bool" where
  "fence_start x \<longleftrightarrow> snd x = ReplicaFence_new \<and> pg_open (fst x) = [] \<and> pg_replayed (fst x) \<le> length (pg_wal (fst x))"

abbreviation channel_row_ge :: "int \<Rightarrow> event_row list \<Rightarrow> bool" where
  "channel_row_ge m rows \<equiv> (\<forall>r\<in>set rows. er_channel_id r \<noteq> None \<longrightarrow> m \<le> er_created_at r)"

definition txn_ok :: "int \<Rightarrow> int \<Rightarrow> txn \<Rightarrow> bool" where
  "txn_ok lag clock t \<longleftrightarrow> tx_start t \<le> clock \<and>
     (\<forall>g. tx_checked t = Some g \<longrightarrow> tx_start t \<le> g \<and> g \<le> clock \<and>
        channel_row_ge (g - micros CREATED_AT_FLOOR_SECS) (tx_rows t)) \<and>
     (\<forall>p. tx_prepared t = Some p \<longrightarrow> p \<le> clock \<and> (\<exists>g. tx_checked t = Some g \<and> p - lag \<le> g))"

definition pg_inv :: "int \<Rightarrow> pg \<Rightarrow> bool" where
  "pg_inv lag w \<longleftrightarrow> (\<forall>x t. hget (pg_open w) x = Some t \<longrightarrow> txn_ok lag (pg_clock w) t) \<and>
     pg_replayed w \<le> length (pg_wal w)"

text \<open>Every row that is not on the replica, now or later, lies above \<open>F\<close>.\<close>

definition fenced :: "int \<Rightarrow> pg \<Rightarrow> bool" where
  "fenced F w \<longleftrightarrow> F < pg_clock w - micros CREATED_AT_FLOOR_SECS \<and>
     (\<forall>x t g. hget (pg_open w) x = Some t \<longrightarrow> tx_checked t = Some g \<longrightarrow> channel_row_ge (F + 1) (tx_rows t)) \<and>
     (\<forall>i. pg_replayed w \<le> i \<longrightarrow> i < length (pg_wal w) \<longrightarrow> channel_row_ge (F + 1) (pg_wal w ! i))"

text \<open>What holds from the activity scan on: \<open>m\<close> is the lower bound it took, \<open>n\<close> the length of the log then.\<close>

definition scanned :: "int \<Rightarrow> int \<Rightarrow> nat \<Rightarrow> pg \<Rightarrow> bool" where
  "scanned lag m n w \<longleftrightarrow> m \<le> pg_clock w \<and> n \<le> length (pg_wal w) \<and>
     (\<forall>x t. hget (pg_open w) x = Some t \<longrightarrow> m \<le> (case tx_prepared t of Some p \<Rightarrow> p | None \<Rightarrow> tx_start t)) \<and>
     (\<forall>i. n \<le> i \<longrightarrow> i < length (pg_wal w) \<longrightarrow> channel_row_ge (m - lag - micros CREATED_AT_FLOOR_SECS) (pg_wal w ! i))"

definition fence_inv :: "int \<Rightarrow> pg \<times> ReplicaFence \<Rightarrow> bool" where
  "fence_inv lag x \<longleftrightarrow> pg_inv lag (fst x) \<and> (fence_micros (snd x) = CLOSED \<or> fenced (fence_micros (snd x)) (fst x))"

lemma channel_row_ge_mono: "channel_row_ge m rows \<Longrightarrow> m' \<le> m \<Longrightarrow> channel_row_ge m' rows"
  by force

lemma txn_ok_later: "txn_ok lag c t \<Longrightarrow> c \<le> c' \<Longrightarrow> txn_ok lag c' t"
  unfolding txn_ok_def by force

lemma pg_step_inv:
  assumes "pg_step lag w w'" "pg_inv lag w" "0 \<le> lag"
  shows "pg_inv lag w'"
  using assms
proof (cases rule: pg_step.cases)
  case (tick d)
  then show ?thesis using assms(2) txn_ok_later [of lag "pg_clock w" _ "pg_clock w + d"] by (auto simp: pg_inv_def)
next
  case (insert_tx x t r)
  then have "txn_ok lag (pg_clock w) t" using assms(2) by (simp add: pg_inv_def)
  then have "tx_prepared t = None" using insert_tx(3) by (cases "tx_prepared t") (auto simp: txn_ok_def)
  then show ?thesis using assms(2) insert_tx by (auto simp: pg_inv_def txn_ok_def split: if_splits)
next
  case (guard_tx x t)
  then show ?thesis using assms(2,3)
    by (auto simp: pg_inv_def txn_ok_def floor_guard_def split: if_splits) force+
next
  case (prepare_tx x t g)
  then show ?thesis using assms(2,3) by (auto simp: pg_inv_def txn_ok_def split: if_splits)
next
  case (commit_tx x t)
  then show ?thesis using assms(2) by (auto simp: pg_inv_def split: if_splits)
qed (use assms(2) in \<open>auto simp: pg_inv_def txn_ok_def split: if_splits\<close>)

lemma pg_step_fenced:
  assumes "pg_step lag w w'" "fenced F w"
  shows "fenced F w'"
  using assms(1)
proof (cases rule: pg_step.cases)
  case (guard_tx x t)
  then show ?thesis using assms(2)
    by (auto simp: fenced_def floor_guard_def split: if_splits)
next
  case (commit_tx x t)
  then obtain g where g: "tx_checked t = Some g" by blast
  from commit_tx g have "channel_row_ge (F + 1) (tx_rows t)" using assms(2) unfolding fenced_def by blast
  then show ?thesis using assms(2) commit_tx by (auto simp: fenced_def nth_append less_Suc_eq split: if_splits)
next
  case replay
  then show ?thesis using assms(2) by (auto simp: fenced_def dest!: Suc_leD)
qed (use assms(2) in \<open>auto simp: fenced_def split: if_splits\<close>)

lemma pg_step_scanned:
  assumes "pg_step lag w w'" "pg_inv lag w" "0 \<le> lag" "scanned lag m n w"
  shows "scanned lag m n w'"
  using assms(1)
proof (cases rule: pg_step.cases)
  case (insert_tx x t r)
  then have "m \<le> (case tx_prepared t of Some p \<Rightarrow> p | None \<Rightarrow> tx_start t)" using assms(4) by (auto simp: scanned_def)
  then show ?thesis using assms(4) insert_tx by (auto simp: scanned_def split: if_splits cong: option.case_cong)
next
  case (guard_tx x t)
  then have "m \<le> (case tx_prepared t of Some p \<Rightarrow> p | None \<Rightarrow> tx_start t)" using assms(4) by (auto simp: scanned_def)
  then show ?thesis using assms(4) guard_tx by (auto simp: scanned_def split: if_splits cong: option.case_cong)
next
  case (commit_tx x t)
  then obtain g where g: "tx_checked t = Some g" by blast
  have ok: "txn_ok lag (pg_clock w) t" using assms(2) commit_tx by (simp add: pg_inv_def)
  have "m \<le> (case tx_prepared t of Some p \<Rightarrow> p | None \<Rightarrow> tx_start t)" using assms(4) commit_tx by (auto simp: scanned_def)
  then have "m - lag \<le> g" using ok g assms(3) by (auto simp: txn_ok_def split: option.splits)
  moreover have "channel_row_ge (g - micros CREATED_AT_FLOOR_SECS) (tx_rows t)" using ok g by (simp add: txn_ok_def)
  ultimately have "channel_row_ge (m - lag - micros CREATED_AT_FLOOR_SECS) (tx_rows t)" by force
  then show ?thesis using assms(4) commit_tx by (auto simp: scanned_def nth_append less_Suc_eq split: if_splits)
qed (use assms(4) in \<open>auto simp: scanned_def split: if_splits\<close>)

lemma pg_steps:
  assumes "(pg_step lag)\<^sup>*\<^sup>* w w'" "pg_inv lag w" "0 \<le> lag"
  shows "pg_inv lag w'" "pg_clock w \<le> pg_clock w'" "fenced F w \<Longrightarrow> fenced F w'" "scanned lag m n w \<Longrightarrow> scanned lag m n w'"
proof -
  have "pg_inv lag w' \<and> pg_clock w \<le> pg_clock w' \<and> (fenced F w \<longrightarrow> fenced F w') \<and> (scanned lag m n w \<longrightarrow> scanned lag m n w')"
    using assms(1)
  proof (induction rule: rtranclp_induct)
    case (step y z)
    have "pg_clock y \<le> pg_clock z" using step(2) by (cases rule: pg_step.cases) simp_all
    with step pg_step_inv [OF step(2)] pg_step_fenced [OF step(2)] pg_step_scanned [OF step(2)] assms(3)
    show ?case by auto
  qed (use assms(2) in simp)
  then show "pg_inv lag w'" "pg_clock w \<le> pg_clock w'" "fenced F w \<Longrightarrow> fenced F w'" "scanned lag m n w \<Longrightarrow> scanned lag m n w'"
    by auto
qed

lemma scan_start:
  assumes "pg_inv lag w" "s \<le> pg_clock w"
  shows "scanned lag (case oldest_xact_start w of Some oldest \<Rightarrow> min oldest s | None \<Rightarrow> s) (length (pg_wal w)) w"
proof -
  let ?starts = "set (map (\<lambda>(_, t). case tx_prepared t of None \<Rightarrow> tx_start t | Some p \<Rightarrow> p) (pg_open w))"
  have "(case oldest_xact_start w of Some oldest \<Rightarrow> min oldest s | None \<Rightarrow> s) \<le>
      (case tx_prepared t of Some p \<Rightarrow> p | None \<Rightarrow> tx_start t)" if "hget (pg_open w) x = Some t" for x t
  proof -
    have "(x, t) \<in> set (pg_open w)" using that by (rule map_of_SomeD)
    then have mem: "(case tx_prepared t of None \<Rightarrow> tx_start t | Some p \<Rightarrow> p) \<in> ?starts"
      by (auto intro!: image_eqI [where x = "(x, t)"])
    then have "Min ?starts \<le> (case tx_prepared t of None \<Rightarrow> tx_start t | Some p \<Rightarrow> p)" by (intro Min_le) simp_all
    moreover have "oldest_xact_start w = Some (Min ?starts)"
      using mem by (auto simp: oldest_xact_start_def Let_def)
    ultimately show ?thesis by (auto split: option.splits)
  qed
  then show ?thesis using assms(2) by (auto simp: scanned_def split: option.split)
qed

lemma probe_fenced:
  assumes "pg_inv lag w1" "0 \<le> lag" "lag < micros FENCE_CLOCK_MARGIN_SECS"
    and "(pg_step lag)\<^sup>*\<^sup>* w1 w2" "(pg_step lag)\<^sup>*\<^sup>* w2 w3" "(pg_step lag)\<^sup>*\<^sup>* w3 w4"
    and "probe_once (w1, ok1) (w2, ok2) masked (w3, ok3) (w4, ok4) in_recovery now f = (Inr (Some F), f')"
  shows "fenced F w4 \<and> f' = advance now F f"
proof -
  let ?m = "case oldest_xact_start w2 of Some oldest \<Rightarrow> min oldest (pg_clock w1) | None \<Rightarrow> pg_clock w1"
  have F: "F = ?m - micros CREATED_AT_FLOOR_SECS - micros FENCE_CLOCK_MARGIN_SECS"
    and lsn: "length (pg_wal w3) \<le> pg_replayed w4" and f': "f' = advance now F f"
    using assms(7) by (auto simp: probe_once_def sample_writer_def replica_covers_def Let_def
        split: if_splits sum.splits bool.splits option.splits)
  note s12 = pg_steps [OF assms(4,1,2)]
  have "scanned lag ?m (length (pg_wal w2)) w2" using scan_start [OF s12(1,2)] .
  from pg_steps(4) [OF assms(5) s12(1) assms(2) this]
  have "scanned lag ?m (length (pg_wal w2)) w3" .
  note s3 = this pg_steps(1) [OF assms(5) s12(1) assms(2)]
  have n: "length (pg_wal w2) \<le> pg_replayed w4" using s3(1) lsn by (simp add: scanned_def)
  have sc: "scanned lag ?m (length (pg_wal w2)) w4" and inv: "pg_inv lag w4"
    using pg_steps [OF assms(6) s3(2) assms(2)] s3(1) by blast+
  have low: "F + 1 \<le> ?m - lag - micros CREATED_AT_FLOOR_SECS" using assms(3) by (simp add: F)
  have "channel_row_ge (F + 1) (tx_rows t)" if "hget (pg_open w4) x = Some t" "tx_checked t = Some g" for x t g
  proof -
    have ok: "txn_ok lag (pg_clock w4) t" using inv that(1) by (simp add: pg_inv_def)
    have "?m \<le> (case tx_prepared t of Some p \<Rightarrow> p | None \<Rightarrow> tx_start t)" using sc that(1) by (auto simp: scanned_def)
    then have "?m - lag \<le> g" using ok that(2) assms(2) by (auto simp: txn_ok_def split: option.splits)
    moreover have "channel_row_ge (g - micros CREATED_AT_FLOOR_SECS) (tx_rows t)" using ok that(2) by (simp add: txn_ok_def)
    ultimately show ?thesis using low by force
  qed
  moreover have "channel_row_ge (F + 1) (pg_wal w4 ! i)" if "pg_replayed w4 \<le> i" "i < length (pg_wal w4)" for i
  proof -
    have "channel_row_ge (?m - lag - micros CREATED_AT_FLOOR_SECS) (pg_wal w4 ! i)"
      using sc that n unfolding scanned_def by (meson le_trans)
    then show ?thesis using low by force
  qed
  moreover have "F < pg_clock w4 - micros CREATED_AT_FLOOR_SECS"
    using sc by (simp add: scanned_def F FENCE_CLOCK_MARGIN_SECS_def)
  ultimately show ?thesis using f' unfolding fenced_def by blast
qed

lemma fence_step_inv:
  assumes "fence_inv lag x" "fence_step lag x y" "0 \<le> lag" "lag < micros FENCE_CLOCK_MARGIN_SECS"
  shows "fence_inv lag y"
  using assms(2)
proof (cases rule: fence_step.cases)
  case (database w w' f)
  then show ?thesis
    using assms(1,3) pg_step_inv [of lag w w'] pg_step_fenced [of lag w w'] by (auto simp: fence_inv_def)
next
  case (probe w1 w2 w3 w4 f ok1 ok2 masked ok3 ok4 in_recovery now)
  have inv: "pg_inv lag w1" using assms(1) probe(1) by (simp add: fence_inv_def)
  have run: "(pg_step lag)\<^sup>*\<^sup>* w1 w4" using probe(3-5) by (meson rtranclp_trans)
  note later = pg_steps [OF run inv assms(3)]
  obtain res f1 where p: "probe_once (w1, ok1) (w2, ok2) masked (w3, ok3) (w4, ok4) in_recovery now f = (res, f1)" by fastforce
  have same: "(\<forall>F. res \<noteq> Inr (Some F)) \<Longrightarrow> f1 = f"
    using p by (auto simp: probe_once_def Let_def split: sum.splits bool.splits)
  show ?thesis
  proof (cases "\<exists>F. res = Inr (Some F)")
    case True
    then obtain F where F: "res = Inr (Some F)" by blast
    from probe_fenced [OF inv assms(3,4) probe(3-5) p [unfolded F]] later(1) probe(2) p F
    show ?thesis by (auto simp: fence_inv_def probe_tick_def advance_def)
  next
    case False
    with same p probe(1,2) assms(1) later show ?thesis
      by (auto simp: fence_inv_def probe_tick_def close_fence_def split: sum.splits option.splits)
  qed
next
  case (closing w f)
  then show ?thesis using assms(1) by (simp add: fence_inv_def close_fence_def)
qed

subsection \<open>What the fence promises\<close>

text \<open>Preparations are dated less than the clock margin after their guard.\<close>

definition prepare_lag :: int where "prepare_lag = micros FENCE_CLOCK_MARGIN_SECS - 1"

lemma prepare_lag_bounds: "0 \<le> prepare_lag" "prepare_lag < micros FENCE_CLOCK_MARGIN_SECS"
  by (simp_all add: prepare_lag_def FENCE_CLOCK_MARGIN_SECS_def)

interpretation replica_fence: inv_machine fence_start "fence_step prepare_lag" "fence_inv prepare_lag"
proof
  show "fence_start x \<Longrightarrow> fence_inv prepare_lag x" for x
    by (auto simp: fence_start_def fence_inv_def pg_inv_def ReplicaFence_new_def)
  show "fence_inv prepare_lag x \<Longrightarrow> fence_step prepare_lag x y \<Longrightarrow> fence_inv prepare_lag y" for x y
    using fence_step_inv prepare_lag_bounds by blast
qed

lemma covers_fenced:
  assumes "fence_start x" "(fence_step prepare_lag)\<^sup>*\<^sup>* x (w, f)" "covers now ts f"
  shows "fenced (fence_micros f) w" "ts \<le> fence_micros f" "pg_inv prepare_lag w"
  using replica_fence.reachable_inv [OF assms(1,2)] assms(3)
  by (auto simp: fence_inv_def covers_def verified_through_def split: option.splits if_splits)

lemma fenced_rows:
  assumes "fenced F w" "i < length (pg_wal w)" "r \<in> set (pg_wal w ! i)" "er_channel_id r \<noteq> None" "er_created_at r \<le> F"
  shows "i < pg_replayed w"
proof (rule ccontr)
  assume "\<not> i < pg_replayed w"
  then have "channel_row_ge (F + 1) (pg_wal w ! i)" 
    using assms(1,2) unfolding fenced_def by (meson not_le)
  then show False using assms(3-5) by force
qed

text \<open>
  C20. The fence is sound: whenever it covers an instant, every channel row up to that instant that has
  been committed is on the replica, and so is every such row that will ever be: however transactions,
  replay and rounds of the probe interleave, no transaction that commits later, also one that was
  open or prepared when the probe looked, brings a channel row that old. (Preparations must be dated
  within five seconds of their guard.)
\<close>

theorem replica_fence_sound:
  assumes "fence_start x" "(fence_step prepare_lag)\<^sup>*\<^sup>* x (w, f)" "covers now ts f"
    and "(pg_step prepare_lag)\<^sup>*\<^sup>* w w'" "i < length (pg_wal w')"
    and "r \<in> set (pg_wal w' ! i)" "er_channel_id r \<noteq> None" "er_created_at r \<le> ts"
  shows "i < pg_replayed w'"
proof -
  note c = covers_fenced [OF assms(1-3)]
  have "fenced (fence_micros f) w'"
    using pg_steps(3) [OF assms(4) c(3) prepare_lag_bounds(1)] c(1) by blast
  then show ?thesis using fenced_rows assms(5-8) c(2) by force
qed

lemma writer_rows_split:
  "writer_rows w = replica_rows w @ concat (drop (pg_replayed w) (pg_wal w))"
  by (simp add: writer_rows_def replica_rows_def flip: concat_append)

lemma unreplayed_above:
  assumes "fenced F w" "r \<in> set (concat (drop (pg_replayed w) (pg_wal w)))" "er_channel_id r \<noteq> None"
  shows "F < er_created_at r"
proof -
  obtain i where "pg_replayed w + i < length (pg_wal w)" "r \<in> set (pg_wal w ! (pg_replayed w + i))"
    using assms(2) by (auto simp: in_set_conv_nth [of _ "drop _ _"] less_diff_conv add.commute)
  then show ?thesis using fenced_rows [OF assms(1)] assms(3) by force
qed


lemma take_sort_key_append:
  assumes "l \<le> length xs" "\<And>a b. a \<in> set (take l (sort_key f xs)) \<Longrightarrow> b \<in> set ys \<Longrightarrow> f a < f b"
  shows "take l (sort_key f (xs @ ys)) = take l (sort_key f xs)"
proof -
  let ?s = "sort_key f xs"
  let ?t = "take l ?s @ sort_key f (drop l ?s @ ys)"
  have low: "f a \<le> f b" if "a \<in> set (take l ?s)" "b \<in> set (drop l ?s)" for a b
  proof -
    have "sorted (map f (take l ?s @ drop l ?s))" by simp
    then show ?thesis using that by (simp only: map_append sorted_append) auto
  qed
  have "sort_key f (xs @ ys) = ?t"
  proof (rule properties_for_sort_key)
    have "mset (take l ?s) + mset (drop l ?s) = mset xs" by (metis append_take_drop_id mset_append mset_sort)
    then show "mset ?t = mset (xs @ ys)" by (simp add: add.assoc [symmetric])
    show "sorted (map f ?t)"
    proof -
      have "sorted (map f (take l ?s))" by (simp add: sorted_wrt_take flip: take_map)
      moreover have "f a \<le> f b" if "a \<in> set (take l ?s)" "b \<in> set (drop l ?s @ ys)" for a b
        using that low [of a b] assms(2) [of a b] by (auto intro: less_imp_le)
      ultimately show ?thesis by (auto simp: sorted_append)
    qed
    fix a
    have stable: "filter (\<lambda>x. f a = f x) (sort_key f zs) = filter (\<lambda>x. f a = f x) zs" for zs
      using sort_key_stable [of f "f a" zs] by (simp add: eq_commute)
    have "filter (\<lambda>x. f a = f x) ?t = filter (\<lambda>x. f a = f x) (take l ?s @ drop l ?s) @ filter (\<lambda>x. f a = f x) ys"
      by (simp only: filter_append stable append.assoc)
    then show "filter (\<lambda>x. f a = f x) ?t = filter (\<lambda>x. f a = f x) (xs @ ys)"
      by (simp only: append_take_drop_id stable filter_append)
  qed
  then show ?thesis using assms(1) by simp
qed

text \<open>
  Routing a page of replies to the replica changes nothing either, as long as the fence is the same
  at both looks: a page that is served from the replica has exactly the rows the writer has, also
  when the log's order is not that of the timestamps.
\<close>

theorem thread_replies_routing_invisible:
  assumes "fence_start x" "(fence_step prepare_lag)\<^sup>*\<^sup>* x (w, f)"
    and "\<forall>r\<in>set (writer_rows w). er_root r \<noteq> None \<longrightarrow> er_channel_id r \<noteq> None"
  shows "get_thread_replies has_read_pool (now1, f) w (now2, f) w community root depth_limit limit cursor =
    thread_replies community root depth_limit limit (case cursor of Some k \<Rightarrow> k | None \<Rightarrow> None) (writer_rows w)"
proof -
  define key where "key = (case cursor of Some k \<Rightarrow> k | None \<Rightarrow> None)"
  define page where "page = thread_replies community root depth_limit limit key (replica_rows w)"
  have "page = thread_replies community root depth_limit limit key (writer_rows w)"
    if full: "limit \<le> length page" and tail: "page \<noteq> []" "covers now2 (er_created_at (last page)) f"
  proof -
    note c = covers_fenced [OF assms(1,2) tail(2)]
    let ?k = "\<lambda>r. (er_created_at r, er_id r)"
    define P :: "event_row \<Rightarrow> bool" where "P r \<longleftrightarrow> er_community_id r = community \<and> er_root r = Some root \<and>
        (case depth_limit of None \<Rightarrow> True | Some d \<Rightarrow> (case er_depth r of None \<Rightarrow> False | Some n \<Rightarrow> n \<le> d)) \<and>
        (case key of None \<Rightarrow> True
         | Some (ts, None) \<Rightarrow> er_created_at r > ts
         | Some (ts, Some eid) \<Rightarrow> er_created_at r > ts \<or> er_created_at r = ts \<and> eid < er_id r)" for r
    have page_eq: "thread_replies community root depth_limit limit key rows = take limit (sort_key ?k (filter P rows))" for rows
      by (simp add: thread_replies_def reply_rows_def P_def [abs_def])
    let ?ext = "concat (drop (pg_replayed w) (pg_wal w))"
    have sorted: "sorted (map ?k page)"
      unfolding page_def page_eq by (simp add: sorted_wrt_take flip: take_map)
    have below: "er_created_at a \<le> fence_micros f" if "a \<in> set page" for a
    proof -
      have "map ?k page = map ?k (butlast page @ [last page])" by (simp only: append_butlast_last_id [OF tail(1)])
      also have "\<dots> = map ?k (butlast page) @ [?k (last page)]" by (simp only: map_append list.map)
      finally have "sorted (map ?k (butlast page) @ [?k (last page)])" using sorted by (rule subst)
      then have "?k a \<le> ?k (last page)"
        using in_set_butlast_or_last [OF that] unfolding sorted_append by auto
      then show ?thesis using c(2) by (auto simp: less_eq_prod_def)
    qed
    have above: "fence_micros f < er_created_at b" if "b \<in> set (filter P ?ext)" for b
      using unreplayed_above [OF c(1), of b] assms(3) that by (auto simp: writer_rows_split [of w] P_def)
    have "take limit (sort_key ?k (filter P (replica_rows w) @ filter P ?ext)) = take limit (sort_key ?k (filter P (replica_rows w)))"
    proof (rule take_sort_key_append)
      show "limit \<le> length (filter P (replica_rows w))" using full by (simp add: page_def page_eq)
      fix a b
      assume "a \<in> set (take limit (sort_key ?k (filter P (replica_rows w))))" "b \<in> set (filter P ?ext)"
      then show "?k a < ?k b" using below [of a] above [of b] by (simp add: page_def page_eq)
    qed
    then show ?thesis by (simp add: page_def page_eq writer_rows_split [of w])
  qed
  then show ?thesis
    by (auto simp: get_thread_replies_def Let_def page_def key_def)
qed

subsection \<open>A page with a hole\<close>

definition hole_row :: "string \<Rightarrow> int \<Rightarrow> event_row" where
  "hole_row eid secs = \<lparr>er_community_id = ''c'', er_id = eid, er_created_at = micros secs, er_channel_id = Some ''ch'',
     er_kind = 9, er_root = Some ''root'', er_depth = Some 1, er_broadcast = True\<rparr>"

definition hole_start :: pg where
  "hole_start = \<lparr>pg_clock = micros 1000, pg_open = [], pg_wal = [], pg_replayed = 0\<rparr>"

text \<open>Two replies are committed, the younger one first; the replica has replayed the first commit only.\<close>

definition hole_query :: pg where
  "hole_query = \<lparr>pg_clock = micros 1001, pg_open = [], pg_wal = [[hole_row ''B'' 46], [hole_row ''A'' 45]], pg_replayed = 1\<rparr>"

definition hole_end :: pg where
  "hole_end = hole_query\<lparr>pg_clock := micros 1012, pg_replayed := 2\<rparr>"

definition hole_probe :: "pg \<Rightarrow> ReplicaFence \<Rightarrow> ReplicaFence" where
  "hole_probe w f = probe_tick (w, True) (w, True) 0 (w, True) (w, True) True (pg_clock w) f"

lemma one_commit:
  assumes "pg_open w = []" "floor_guard (pg_clock w) [r]"
  shows "(pg_step lag)\<^sup>*\<^sup>* w (w\<lparr>pg_wal := pg_wal w @ [[r]]\<rparr>)"
proof -
  let ?t = "\<lparr>tx_start = pg_clock w, tx_checked = None, tx_prepared = None, tx_rows = []\<rparr>"
  let ?o = "\<lambda>t. w\<lparr>pg_open := [(0, t)]\<rparr>"
  have "pg_step lag w (?o ?t)" using begin_tx [of w 0 lag] assms(1) by simp
  moreover have "pg_step lag (?o ?t) (?o (?t\<lparr>tx_rows := [r]\<rparr>))" using insert_tx [of "?o ?t" 0 ?t lag r] by simp
  moreover have "pg_step lag (?o (?t\<lparr>tx_rows := [r]\<rparr>)) (?o (?t\<lparr>tx_rows := [r], tx_checked := Some (pg_clock w)\<rparr>))"
    using guard_tx [of "?o (?t\<lparr>tx_rows := [r]\<rparr>)" 0 "?t\<lparr>tx_rows := [r]\<rparr>" lag] assms(2) by simp
  moreover have "pg_step lag (?o (?t\<lparr>tx_rows := [r], tx_checked := Some (pg_clock w)\<rparr>)) (w\<lparr>pg_wal := pg_wal w @ [[r]]\<rparr>)"
  proof -
    have "w\<lparr>pg_open := [], pg_wal := pg_wal w @ [[r]]\<rparr> = w\<lparr>pg_wal := pg_wal w @ [[r]]\<rparr>"
      using assms(1) by (cases w) simp
    then show ?thesis
      using commit_tx [of "?o (?t\<lparr>tx_rows := [r], tx_checked := Some (pg_clock w)\<rparr>)" 0 _ lag] by simp
  qed
  ultimately show ?thesis by (meson rtranclp.rtrancl_refl rtranclp.rtrancl_into_rtrancl)
qed

lemma hole_runs: "(pg_step lag)\<^sup>*\<^sup>* hole_start hole_query" "(pg_step lag)\<^sup>*\<^sup>* hole_query hole_end"
proof -
  let ?w1 = "hole_start\<lparr>pg_clock := micros 1001\<rparr>"
  let ?w2 = "?w1\<lparr>pg_wal := [[hole_row ''B'' 46]]\<rparr>"
  let ?w3 = "?w2\<lparr>pg_wal := [[hole_row ''B'' 46], [hole_row ''A'' 45]]\<rparr>"
  have a: "pg_step lag hole_start ?w1" using tick [of 1000000 lag hole_start] by (simp add: hole_start_def)
  have b: "(pg_step lag)\<^sup>*\<^sup>* ?w1 ?w2"
    using one_commit [of ?w1 "hole_row ''B'' 46" lag] by (simp add: hole_start_def floor_guard_def hole_row_def CREATED_AT_FLOOR_SECS_def)
  have c: "(pg_step lag)\<^sup>*\<^sup>* ?w2 ?w3"
    using one_commit [of ?w2 "hole_row ''A'' 45" lag] by (simp add: hole_start_def floor_guard_def hole_row_def CREATED_AT_FLOOR_SECS_def)
  have d: "pg_step lag ?w3 hole_query"
    using replay [of ?w3 lag] by (simp add: hole_start_def hole_query_def)
  show "(pg_step lag)\<^sup>*\<^sup>* hole_start hole_query"
    by (rule converse_rtranclp_into_rtranclp [OF a rtranclp_trans [OF b rtranclp_trans [OF c r_into_rtranclp [of "pg_step lag", OF d]]]])
  have e: "pg_step lag hole_query (hole_query\<lparr>pg_clock := micros 1012\<rparr>)"
    using tick [of 11000000 lag hole_query] by (simp add: hole_query_def)
  have f: "pg_step lag (hole_query\<lparr>pg_clock := micros 1012\<rparr>) hole_end"
    using replay [of "hole_query\<lparr>pg_clock := micros 1012\<rparr>" lag] by (simp add: hole_query_def hole_end_def numeral_2_eq_2)
  show "(pg_step lag)\<^sup>*\<^sup>* hole_query hole_end"
    by (rule converse_rtranclp_into_rtranclp [OF e r_into_rtranclp [of "pg_step lag", OF f]])
qed

lemma hole_probe_step: "fence_step lag (w, f) (w, hole_probe w f)"
  unfolding hole_probe_def by (rule fence_step.probe) simp_all

lemma fence_database_steps: "(pg_step lag)\<^sup>*\<^sup>* w w' \<Longrightarrow> (fence_step lag)\<^sup>*\<^sup>* (w, f) (w', f)"
  by (induction rule: rtranclp_induct) (auto intro: fence_step.database rtranclp.rtrancl_into_rtrancl)

text \<open>
  When a round of the probe falls between the query and the second look at the fence, the page can
  have a hole: the replica was read when a reply \<open>A\<close> was committed but not replayed, the fence then
  advances over \<open>A\<close> and over the page's newest row \<open>B\<close>, the page with \<open>B\<close> alone is served as
  verified, and a client that pages on from \<open>B\<close> never sees \<open>A\<close>, which the writer had all along.
\<close>

theorem reply_page_misses_committed_reply:
  "fence_start (hole_start, ReplicaFence_new) \<and>
   (fence_step prepare_lag)\<^sup>*\<^sup>* (hole_start, ReplicaFence_new) (hole_query, hole_probe hole_start ReplicaFence_new) \<and>
   (fence_step prepare_lag)\<^sup>*\<^sup>* (hole_query, hole_probe hole_start ReplicaFence_new)
     (hole_end, hole_probe hole_end (hole_probe hole_start ReplicaFence_new)) \<and>
   get_thread_replies True (micros 1001, hole_probe hole_start ReplicaFence_new) hole_query
     (micros 1012, hole_probe hole_end (hole_probe hole_start ReplicaFence_new)) hole_end ''c'' ''root'' None 1
     (Some (Some (0, None))) = [hole_row ''B'' 46] \<and>
   thread_replies ''c'' ''root'' None 1 (Some (0, None)) (writer_rows hole_query) = [hole_row ''A'' 45]"
proof (intro conjI)
  show "fence_start (hole_start, ReplicaFence_new)" by (simp add: fence_start_def hole_start_def)
  let ?f1 = "hole_probe hole_start ReplicaFence_new"
  show "(fence_step prepare_lag)\<^sup>*\<^sup>* (hole_start, ReplicaFence_new) (hole_query, ?f1)"
    using hole_probe_step fence_database_steps [OF hole_runs(1)] by (rule converse_rtranclp_into_rtranclp)
  show "(fence_step prepare_lag)\<^sup>*\<^sup>* (hole_query, ?f1) (hole_end, hole_probe hole_end ?f1)"
    using fence_database_steps [OF hole_runs(2)] hole_probe_step by (rule rtranclp.rtrancl_into_rtrancl)
  show "get_thread_replies True (micros 1001, ?f1) hole_query (micros 1012, hole_probe hole_end ?f1) hole_end
      ''c'' ''root'' None 1 (Some (Some (0, None))) = [hole_row ''B'' 46]" by code_simp
  show "thread_replies ''c'' ''root'' None 1 (Some (0, None)) (writer_rows hole_query) = [hole_row ''A'' 45]" by code_simp
qed

subsection \<open>The fence at work\<close>

text \<open>The run goes on with a round of the probe that finds both replies on the replica.\<close>

definition hole_fence :: ReplicaFence where
  "hole_fence = hole_probe hole_end ReplicaFence_new"

lemma hole_end_reached:
  "fence_start (hole_start, ReplicaFence_new)"
  "(fence_step prepare_lag)\<^sup>*\<^sup>* (hole_start, ReplicaFence_new) (hole_end, hole_fence)"
proof -
  show "fence_start (hole_start, ReplicaFence_new)" by (simp add: fence_start_def hole_start_def)
  have "(fence_step prepare_lag)\<^sup>*\<^sup>* (hole_start, ReplicaFence_new) (hole_end, ReplicaFence_new)"
    using fence_database_steps [OF rtranclp_trans [OF hole_runs]] .
  then show "(fence_step prepare_lag)\<^sup>*\<^sup>* (hole_start, ReplicaFence_new) (hole_end, hole_fence)"
    unfolding hole_fence_def using hole_probe_step by (rule rtranclp.rtrancl_into_rtrancl)
qed

lemma hole_fence_covers: "covers (micros 1012) (micros 46) hole_fence"
  by code_simp

theorem replica_fence_sound_witness: "(1::nat) < pg_replayed hole_end"
  using replica_fence_sound [OF hole_end_reached hole_fence_covers rtranclp.rtrancl_refl, of 1 "hole_row ''A'' 45"]
  by (simp add: hole_end_def hole_query_def hole_row_def)


theorem thread_replies_routing_invisible_witness:
  "get_thread_replies True (micros 1012, hole_fence) hole_end (micros 1012, hole_fence) hole_end ''c'' ''root'' None 1
     (Some (Some (0, None))) = [hole_row ''A'' 45]"
proof -
  have "\<forall>r\<in>set (writer_rows hole_end). er_root r \<noteq> None \<longrightarrow> er_channel_id r \<noteq> None"
    by (simp add: writer_rows_def hole_end_def hole_query_def hole_row_def)
  from thread_replies_routing_invisible [OF hole_end_reached this, of True "micros 1012" "micros 1012" "''c''" "''root''" None 1 "Some (Some (0, None))"]
  have "get_thread_replies True (micros 1012, hole_fence) hole_end (micros 1012, hole_fence) hole_end ''c'' ''root'' None 1
     (Some (Some (0, None))) = thread_replies ''c'' ''root'' None 1 (Some (0, None)) (writer_rows hole_end)" by simp
  also have "\<dots> = [hole_row ''A'' 45]" by code_simp
  finally show ?thesis .
qed

end
