(* ===== verification/Network.thy ===== *)
theory Network
  imports Bytes
begin

unbundle bit_operations_syntax

text \<open>
  The classification of addresses that protects outgoing requests
  (\<open>buzz-core/src/network.rs\<close>). An IPv4 address is its four octets, an IPv6 address its eight
  segments, as in the standard library; the classes of \<open>Ipv4Addr\<close> the code asks for are
  written out.
\<close>

datatype ip_addr =
    V4 byte byte byte byte
  | V6 "16 word" "16 word" "16 word" "16 word" "16 word" "16 word" "16 word" "16 word"

subsection \<open>The code\<close>

definition NAT64_WELL_KNOWN_PREFIX :: bytes where
  "NAT64_WELL_KNOWN_PREFIX = [0x00, 0x64, 0xff, 0x9b, 0, 0, 0, 0, 0, 0, 0, 0]"

definition IPV4_TRANSLATED_PREFIX :: bytes where
  "IPV4_TRANSLATED_PREFIX = [0, 0, 0, 0, 0, 0, 0, 0, 0xff, 0xff, 0, 0]"

definition seg_octets :: "16 word \<Rightarrow> bytes" where
  "seg_octets s = [ucast (drop_bit 8 s), ucast s]"

fun octets :: "ip_addr \<Rightarrow> bytes" where
  "octets (V4 a b c d) = [a, b, c, d]"
| "octets (V6 s0 s1 s2 s3 s4 s5 s6 s7) = concat (map seg_octets [s0, s1, s2, s3, s4, s5, s6, s7])"

definition embedded_ipv4 :: "ip_addr \<Rightarrow> bytes \<Rightarrow> ip_addr option" where
  "embedded_ipv4 v6 p =
     (let os = octets v6
      in if take (length p) os = p then Some (V4 (os ! 12) (os ! 13) (os ! 14) (os ! 15)) else None)"

text \<open>\<open>Ipv6Addr::to_ipv4\<close>: IPv4-compatible and IPv4-mapped addresses.\<close>

fun to_ipv4 :: "ip_addr \<Rightarrow> ip_addr option" where
  "to_ipv4 (V6 s0 s1 s2 s3 s4 s5 s6 s7) =
     (if s0 = 0 \<and> s1 = 0 \<and> s2 = 0 \<and> s3 = 0 \<and> s4 = 0 \<and> (s5 = 0 \<or> s5 = 0xffff)
      then Some (V4 (ucast (drop_bit 8 s6)) (ucast s6) (ucast (drop_bit 8 s7)) (ucast s7))
      else None)"
| "to_ipv4 (V4 a b c d) = None"

fun is_private_ipv4 :: "ip_addr \<Rightarrow> bool" where
  "is_private_ipv4 (V4 a b c d) \<longleftrightarrow>
     a = 127
     \<or> (a = 10 \<or> a = 172 \<and> 16 \<le> b \<and> b \<le> 31 \<or> a = 192 \<and> b = 168)
     \<or> a = 169 \<and> b = 254
     \<or> a = 0
     \<or> a = 255 \<and> b = 255 \<and> c = 255 \<and> d = 255
     \<or> a = 100 \<and> b AND 0xC0 = 64
     \<or> a = 198 \<and> b AND 0xFE = 18"
| "is_private_ipv4 _ \<longleftrightarrow> False"

definition is_private_ip :: "ip_addr \<Rightarrow> bool" where
  "is_private_ip ip =
     (case ip of
        V4 a b c d \<Rightarrow> is_private_ipv4 ip
      | V6 s0 s1 s2 s3 s4 s5 s6 s7 \<Rightarrow>
          (case to_ipv4 ip of
             Some v4 \<Rightarrow> is_private_ipv4 v4
           | None \<Rightarrow>
               (case embedded_ipv4 ip NAT64_WELL_KNOWN_PREFIX of
                  Some v4 \<Rightarrow> is_private_ipv4 v4
                | None \<Rightarrow>
                    (case embedded_ipv4 ip IPV4_TRANSLATED_PREFIX of
                       Some v4 \<Rightarrow> is_private_ipv4 v4
                     | None \<Rightarrow>
                         s0 = 0 \<and> s1 = 0 \<and> s2 = 0 \<and> s3 = 0 \<and> s4 = 0 \<and> s5 = 0 \<and> s6 = 0 \<and> s7 = 1
                         \<or> s0 = 0 \<and> s1 = 0 \<and> s2 = 0 \<and> s3 = 0 \<and> s4 = 0 \<and> s5 = 0 \<and> s6 = 0 \<and> s7 = 0
                         \<or> s0 AND 0xfe00 = 0xfc00
                         \<or> s0 AND 0xffc0 = 0xfe80
                         \<or> s0 AND 0xff00 = 0xff00
                         \<or> s0 = 0x0064 \<and> s1 = 0xff9b \<and> s2 = 1
                         \<or> s0 = 0x2001 \<and> s1 = 0
                         \<or> s0 = 0x2002
                         \<or> s0 = 0x2001 \<and> s1 = 0x0db8))))"

subsection \<open>The documented blocks\<close>

text \<open>An address is in a block when its first \<open>len\<close> bits are those of the network.\<close>

fun in_prefix :: "nat \<Rightarrow> ('a :: len) word list \<Rightarrow> 'a word list \<Rightarrow> bool" where
  "in_prefix n (w # ws) (v # vs) =
     (if n \<le> LENGTH('a) then drop_bit (LENGTH('a) - n) w = drop_bit (LENGTH('a) - n) v
      else w = v \<and> in_prefix (n - LENGTH('a)) ws vs)"
| "in_prefix n _ _ = (n = 0)"

definition blocked_v4 :: "(bytes \<times> nat) list" where
  "blocked_v4 =
     [([127, 0, 0, 0], 8), ([10, 0, 0, 0], 8), ([172, 16, 0, 0], 12), ([192, 168, 0, 0], 16),
      ([169, 254, 0, 0], 16), ([0, 0, 0, 0], 8), ([255, 255, 255, 255], 32),
      ([100, 64, 0, 0], 10), ([198, 18, 0, 0], 15)]"

definition blocked_v6 :: "(16 word list \<times> nat) list" where
  "blocked_v6 =
     [([0, 0, 0, 0, 0, 0, 0, 1], 128), ([0, 0, 0, 0, 0, 0, 0, 0], 128),
      ([0xfc00, 0, 0, 0, 0, 0, 0, 0], 7), ([0xfe80, 0, 0, 0, 0, 0, 0, 0], 10),
      ([0xff00, 0, 0, 0, 0, 0, 0, 0], 8), ([0x2001, 0x0db8, 0, 0, 0, 0, 0, 0], 32),
      ([0x0064, 0xff9b, 1, 0, 0, 0, 0, 0], 48), ([0x2001, 0, 0, 0, 0, 0, 0, 0], 32),
      ([0x2002, 0, 0, 0, 0, 0, 0, 0], 16)]"

text \<open>The blocks whose last 32 bits are an IPv4 address that traffic can reach.\<close>

definition carriers :: "(16 word list \<times> nat) list" where
  "carriers =
     [([0, 0, 0, 0, 0, 0, 0, 0], 96), ([0, 0, 0, 0, 0, 0xffff, 0, 0], 96),
      ([0, 0, 0, 0, 0xffff, 0, 0, 0], 96), ([0x0064, 0xff9b, 0, 0, 0, 0, 0, 0], 96)]"

definition in_blocks :: "('a :: len) word list \<Rightarrow> ('a word list \<times> nat) list \<Rightarrow> bool" where
  "in_blocks w bs = list_ex (\<lambda>(net, n). in_prefix n w net) bs"

fun documented_private :: "ip_addr \<Rightarrow> bool" where
  "documented_private (V4 a b c d) = in_blocks [a, b, c, d] blocked_v4"
| "documented_private (V6 s0 s1 s2 s3 s4 s5 s6 s7) =
     (in_blocks [s0, s1, s2, s3, s4, s5, s6, s7] blocked_v6 \<or>
      in_blocks [s0, s1, s2, s3, s4, s5, s6, s7] carriers \<and>
      in_blocks (seg_octets s6 @ seg_octets s7) blocked_v4)"

lemma drop_bit_eq_unat:
  "drop_bit n (w :: 'a :: len word) = drop_bit n v \<longleftrightarrow> unat w div 2 ^ n = unat v div 2 ^ n"
  by (simp only: word_unat_eq_iff unat_drop_bit_eq) (simp only: drop_bit_eq_div)

lemma and_high_eq:
  "w AND NOT (mask n) = v AND NOT (mask n) \<longleftrightarrow> drop_bit n w = drop_bit n (v :: 'a :: len word)"
proof
  assume eq: "w AND NOT (mask n) = v AND NOT (mask n)"
  show "drop_bit n w = drop_bit n v"
  proof (rule bit_eqI)
    fix m
    from eq have "bit (w AND NOT (mask n)) (n + m) = bit (v AND NOT (mask n)) (n + m)" by simp
    then show "bit (drop_bit n w) m = bit (drop_bit n v) m"
      by (auto simp: bit_simps dest: bit_imp_le_length)
  qed
next
  assume eq: "drop_bit n w = drop_bit n v"
  show "w AND NOT (mask n) = v AND NOT (mask n)"
  proof (rule bit_eqI)
    fix m
    from eq have "bit (drop_bit n w) (m - n) = bit (drop_bit n v) (m - n)" by simp
    then show "bit (w AND NOT (mask n)) m = bit (v AND NOT (mask n)) m"
      by (cases "n \<le> m") (auto simp: bit_simps)
  qed
qed

subsection \<open>The code blocks exactly the documented addresses\<close>

lemma masks:
  "(0xC0 :: byte) = NOT (mask 6)" "(0xFE :: byte) = NOT (mask 1)"
  "(0xfe00 :: 16 word) = NOT (mask 9)" "(0xffc0 :: 16 word) = NOT (mask 6)"
  "(0xff00 :: 16 word) = NOT (mask 8)"
  by (simp_all add: mask_eq_exp_minus_1)

lemma and_high_test:
  "x AND NOT (mask n) = x \<Longrightarrow> w AND NOT (mask n) = x \<longleftrightarrow> drop_bit n w = drop_bit n (x :: 'a :: len word)"
  using and_high_eq [of w n x] by simp

lemma mask_tests:
  "(b :: byte) AND 0xC0 = 64 \<longleftrightarrow> drop_bit 6 b = drop_bit 6 64"
  "(b :: byte) AND 0xFE = 18 \<longleftrightarrow> drop_bit 1 b = drop_bit 1 18"
  "(s :: 16 word) AND 0xfe00 = 0xfc00 \<longleftrightarrow> drop_bit 9 s = drop_bit 9 0xfc00"
  "(s :: 16 word) AND 0xffc0 = 0xfe80 \<longleftrightarrow> drop_bit 6 s = drop_bit 6 0xfe80"
  "(s :: 16 word) AND 0xff00 = 0xff00 \<longleftrightarrow> drop_bit 8 s = drop_bit 8 0xff00"
  by (subst masks, subst and_high_test; simp add: mask_eq_exp_minus_1)+

lemma range_test: "16 \<le> (b :: byte) \<and> b \<le> 31 \<longleftrightarrow> drop_bit 4 b = drop_bit 4 16"
proof -
  have "16 \<le> b \<and> b \<le> 31 \<longleftrightarrow> 16 \<le> unat b \<and> unat b \<le> 31"
    by (simp add: word_le_nat_alt)
  also have "\<dots> \<longleftrightarrow> unat b div 16 = 1" by auto
  also have "\<dots> \<longleftrightarrow> drop_bit 4 b = drop_bit 4 16" by (subst drop_bit_eq_unat) simp
  finally show ?thesis .
qed

lemma unat_drop_bit: "unat (drop_bit n (w :: 'a :: len word)) = unat w div 2 ^ n"
  by (simp only: unat_drop_bit_eq) (simp only: drop_bit_eq_div)

lemma unat_high: "unat (ucast (drop_bit 8 (s :: 16 word)) :: byte) = unat s div 256"
  using unsigned_less [where 'b = 16 and 'a = nat, of s] by (simp add: unsigned_ucast_eq unat_drop_bit take_bit_eq_mod)

lemma unat_low: "unat (ucast (s :: 16 word) :: byte) = unat s mod 256"
  by (simp add: unsigned_ucast_eq take_bit_eq_mod)

lemma private_v4_blocks:
  "is_private_ipv4 (V4 a b c d) \<longleftrightarrow> in_blocks [a, b, c, d] blocked_v4"
  using range_test [of b]
  by (auto simp: in_blocks_def blocked_v4_def mask_tests)

lemma seg_octets_eq:
  "seg_octets s = [x, y] \<longleftrightarrow> s = of_nat (unat x * 256 + unat y)"
proof
  assume "seg_octets s = [x, y]"
  then have "unat x = unat s div 256" "unat y = unat s mod 256"
    using unat_high [of s] unat_low [of s] by (auto simp: seg_octets_def)
  then show "s = of_nat (unat x * 256 + unat y)" by simp
next
  assume s: "s = of_nat (unat x * 256 + unat y)"
  have "unat s = unat x * 256 + unat y"
    using unat_byte_bound [of x] unat_byte_bound [of y] unfolding s by (subst unat_of_nat) simp
  then show "seg_octets s = [x, y]"
    using unat_byte_bound [of x] unat_byte_bound [of y] unat_high [of s] unat_low [of s]
    by (simp add: seg_octets_def word_unat_eq_iff)
qed

abbreviation last_v4 :: "16 word \<Rightarrow> 16 word \<Rightarrow> ip_addr" where
  "last_v4 s6 s7 \<equiv> V4 (ucast (drop_bit 8 s6)) (ucast s6) (ucast (drop_bit 8 s7)) (ucast s7)"

lemma seg_pair:
  "ucast (drop_bit 8 s) = (x :: byte) \<and> ucast (s :: 16 word) = (y :: byte) \<longleftrightarrow>
     s = of_nat (unat x * 256 + unat y)"
  using seg_octets_eq [of s x y] by (simp add: seg_octets_def)

lemma embedded_nat64:
  "embedded_ipv4 (V6 s0 s1 s2 s3 s4 s5 s6 s7) NAT64_WELL_KNOWN_PREFIX =
     (if s0 = 0x64 \<and> s1 = 0xff9b \<and> s2 = 0 \<and> s3 = 0 \<and> s4 = 0 \<and> s5 = 0
      then Some (last_v4 s6 s7) else None)"
  using seg_pair [of s0 "0x00" "0x64"] seg_pair [of s1 "0xff" "0x9b"] seg_pair [of s2 "0" "0"]
    seg_pair [of s3 "0" "0"] seg_pair [of s4 "0" "0"] seg_pair [of s5 "0" "0"]
  by (simp add: embedded_ipv4_def NAT64_WELL_KNOWN_PREFIX_def seg_octets_def Let_def) blast

lemma embedded_translated:
  "embedded_ipv4 (V6 s0 s1 s2 s3 s4 s5 s6 s7) IPV4_TRANSLATED_PREFIX =
     (if s0 = 0 \<and> s1 = 0 \<and> s2 = 0 \<and> s3 = 0 \<and> s4 = 0xffff \<and> s5 = 0
      then Some (last_v4 s6 s7) else None)"
  using seg_pair [of s0 "0" "0"] seg_pair [of s1 "0" "0"] seg_pair [of s2 "0" "0"]
    seg_pair [of s3 "0" "0"] seg_pair [of s4 "0xff" "0xff"] seg_pair [of s5 "0" "0"]
  by (simp add: embedded_ipv4_def IPV4_TRANSLATED_PREFIX_def seg_octets_def Let_def) blast

lemma private_last_v4:
  "is_private_ipv4 (last_v4 s6 s7) \<longleftrightarrow> in_blocks (seg_octets s6 @ seg_octets s7) blocked_v4"
  by (simp only: private_v4_blocks) (simp add: seg_octets_def)

lemma low_addresses_private:
  "s6 = 0 \<Longrightarrow> is_private_ipv4 (last_v4 s6 s7)"
  by simp

lemma carriers_exact:
  "in_blocks [s0, s1, s2, s3, s4, s5, s6, s7] carriers \<longleftrightarrow>
     (s0 = 0 \<and> s1 = 0 \<and> s2 = 0 \<and> s3 = 0 \<and> s4 = 0 \<and> (s5 = 0 \<or> s5 = 0xffff)) \<or>
     (s0 = 0 \<and> s1 = 0 \<and> s2 = 0 \<and> s3 = 0 \<and> s4 = 0xffff \<and> s5 = 0) \<or>
     (s0 = 0x64 \<and> s1 = 0xff9b \<and> s2 = 0 \<and> s3 = 0 \<and> s4 = 0 \<and> s5 = 0)"
  by (auto simp: in_blocks_def carriers_def)

lemma blocked_v6_exact:
  "in_blocks [s0, s1, s2, s3, s4, s5, s6, s7] blocked_v6 \<longleftrightarrow>
     s0 = 0 \<and> s1 = 0 \<and> s2 = 0 \<and> s3 = 0 \<and> s4 = 0 \<and> s5 = 0 \<and> s6 = 0 \<and> s7 = 1 \<or>
     s0 = 0 \<and> s1 = 0 \<and> s2 = 0 \<and> s3 = 0 \<and> s4 = 0 \<and> s5 = 0 \<and> s6 = 0 \<and> s7 = 0 \<or>
     s0 AND 0xfe00 = 0xfc00 \<or> s0 AND 0xffc0 = 0xfe80 \<or> s0 AND 0xff00 = 0xff00 \<or>
     s0 = 0x2001 \<and> s1 = 0x0db8 \<or> s0 = 0x0064 \<and> s1 = 0xff9b \<and> s2 = 1 \<or>
     s0 = 0x2001 \<and> s1 = 0 \<or> s0 = 0x2002"
  unfolding mask_tests by (auto simp: in_blocks_def blocked_v6_def)

text \<open>The code blocks exactly the documented ranges: an IPv4 address in one of the nine blocks, an
  IPv6 address in one of the nine, and an IPv6 address of one of the four forms that carry an IPv4
  address whenever the address it carries is blocked. So no form of a private IPv4 address passes.\<close>

theorem is_private_ip_documented: "is_private_ip ip = documented_private ip"
proof (cases ip)
  case (V4 a b c d)
  then show ?thesis by (simp only: is_private_ip_def ip_addr.case private_v4_blocks documented_private.simps)
next
  case (V6 s0 s1 s2 s3 s4 s5 s6 s7)
  have low: "is_private_ipv4 (last_v4 s6 s7)" if "s6 = 0" using that by (rule low_addresses_private)
  show ?thesis
    unfolding V6 is_private_ip_def ip_addr.case documented_private.simps to_ipv4.simps
      embedded_nat64 embedded_translated carriers_exact blocked_v6_exact private_last_v4 [symmetric]
    using low by (auto simp del: is_private_ipv4.simps)
qed

end
