(* ===== verification/Workflow_Schema.thy ===== *)
theory Workflow_Schema
  imports Text
begin

text \<open>
  Workflow definitions of \<open>buzz-workflow\<close>: the types of \<open>schema.rs\<close>, the errors of \<open>error.rs\<close>,
  the validation of a definition, and the duration strings it and the executor read
  (\<open>parse_duration_secs\<close> of \<open>executor.rs\<close>). The \<open>cron\<close> package, \<open>serde_yaml\<close> and the printing of
  a definition by \<open>serde_json\<close> are parameters.
\<close>

subsection \<open>Errors\<close>

datatype WorkflowError =
    InvalidYaml string | InvalidDefinition string | ConditionError string | TemplateError string
  | StepTimeout string nat | WebhookError string | CapacityExceeded | DatabaseError string
  | NotImplemented string

record PartialProgress =
  pp_step_index :: nat
  pp_trace :: "json list"

definition PartialProgress_default :: PartialProgress where
  "PartialProgress_default = \<lparr>pp_step_index = 0, pp_trace = []\<rparr>"

text \<open>The texts of the errors, which \<open>finalize_run\<close> stores.\<close>

fun error_text :: "WorkflowError \<Rightarrow> string" where
  "error_text (InvalidYaml e) = ''invalid YAML: '' @ e"
| "error_text (InvalidDefinition e) = ''invalid definition: '' @ e"
| "error_text (ConditionError e) = ''condition evaluation error: '' @ e"
| "error_text (TemplateError e) = ''template error: '' @ e"
| "error_text (StepTimeout step_id secs) =
     ''step '' @ quoted step_id @ '' timed out after '' @ dec secs @ ''s''"
| "error_text (WebhookError e) = ''webhook error: '' @ e"
| "error_text CapacityExceeded = ''capacity exceeded''"
| "error_text (DatabaseError e) = ''database error: '' @ e"
| "error_text (NotImplemented e) = ''action not implemented: '' @ e"

subsection \<open>Definitions\<close>

datatype TriggerDef =
    MessagePosted (filter_expr: "string option")
  | ReactionAdded "string option"
  | DiffPosted (filter_expr: "string option")
  | Schedule "string option" "string option"
  | Webhook

datatype ActionDef =
    SendMessage string "string option"
  | SendDm string string
  | SetChannelTopic string
  | AddReaction string
  | CallWebhook string "string option" "(string, string) hmap option" "string option"
  | RequestApproval string string "string option"
  | Delay string

record Step =
  st_id :: string
  st_name :: "string option"
  st_if :: "string option"
  st_timeout_secs :: "nat option"
  st_action :: ActionDef

record WorkflowDef =
  wd_name :: string
  wd_description :: "string option"
  wd_trigger :: TriggerDef
  wd_steps :: "Step list"
  wd_enabled :: bool

subsection \<open>Durations\<close>

definition invalid_duration :: "string \<Rightarrow> WorkflowError" where
  "invalid_duration duration = InvalidDefinition (''invalid duration: '' @ duration)"

definition scaled_duration :: "string \<Rightarrow> nat \<Rightarrow> string \<Rightarrow> WorkflowError + nat" where
  "scaled_duration n factor duration =
     (case parse_u64 (trim n) of
        None \<Rightarrow> Inl (invalid_duration duration)
      | Some k \<Rightarrow>
          (if k * factor < 2 ^ 64 then Inr (k * factor)
           else Inl (InvalidDefinition (''duration overflow: '' @ duration))))"

definition parse_duration_secs :: "string \<Rightarrow> WorkflowError + nat" where
  "parse_duration_secs text =
     (let duration = trim text
      in case strip_suffix duration ''h'' of
           Some n \<Rightarrow> scaled_duration n 3600 duration
         | None \<Rightarrow>
             (case strip_suffix duration ''m'' of
                Some n \<Rightarrow> scaled_duration n 60 duration
              | None \<Rightarrow>
                  (case strip_suffix duration ''s'' of
                     Some n \<Rightarrow>
                       (case parse_u64 (trim n) of
                          None \<Rightarrow> Inl (invalid_duration duration)
                        | Some secs \<Rightarrow> Inr secs)
                   | None \<Rightarrow>
                       (case parse_u64 duration of
                          None \<Rightarrow> Inl (invalid_duration duration)
                        | Some secs \<Rightarrow> Inr secs))))"

lemma scaled_duration_bound: "scaled_duration n f d = Inr k \<Longrightarrow> k < 2 ^ 64"
  by (auto simp: scaled_duration_def split: option.splits if_splits)

lemma parse_duration_bound: "parse_duration_secs d = Inr k \<Longrightarrow> k < 2 ^ 64"
  by (auto simp: parse_duration_secs_def Let_def
      dest: scaled_duration_bound parse_u64_bound split: option.splits)

subsection \<open>Cron expressions\<close>

text \<open>
  The \<open>cron\<close> package: \<open>parse\<close> of a text, and the first instant of a schedule after a given one
  (\<open>after(t).next()\<close>). Instants are nanoseconds since the epoch.
\<close>

type_synonym datetime = int

record 'sched cron_lib =
  cron_parse :: "string \<Rightarrow> string + 'sched"
  cron_next :: "'sched \<Rightarrow> datetime \<Rightarrow> datetime option"

definition normalize_cron :: "string \<Rightarrow> string" where
  "normalize_cron expr =
     (let field_count = count_words False expr
      in if field_count = 5 then ''0 '' @ expr @ '' *''
         else if field_count = 6 then expr @ '' *''
         else expr)"

definition validate_cron :: "('sched, 'more) cron_lib_scheme \<Rightarrow> string \<Rightarrow> WorkflowError + unit" where
  "validate_cron C expr =
     (case cron_parse C (normalize_cron expr) of
        Inl e \<Rightarrow> Inl (InvalidDefinition (''invalid cron expression '' @ quoted expr @ '': '' @ e))
      | Inr _ \<Rightarrow> Inr ())"

subsection \<open>Validation\<close>

definition valid_step_id :: "string \<Rightarrow> bool" where
  "valid_step_id i \<longleftrightarrow>
     i \<noteq> [] \<and> length i \<le> 64 \<and> list_all (\<lambda>c. is_ascii_alphanumeric c \<or> c = CHR ''_'') i"

fun check_step_ids :: "string list \<Rightarrow> Step list \<Rightarrow> WorkflowError + unit" where
  "check_step_ids seen [] = Inr ()"
| "check_step_ids seen (s # ss) =
     (if trim (st_id s) = [] then Inl (InvalidDefinition ''step id must not be empty'')
      else if \<not> valid_step_id (st_id s)
      then Inl (InvalidDefinition (''step id '' @ quoted (st_id s)
             @ '' is invalid: must contain only alphanumeric characters and underscores''))
      else if st_id s \<in> set seen
      then Inl (InvalidDefinition (''duplicate step id: '' @ st_id s))
      else check_step_ids (st_id s # seen) ss)"

definition validate_interval :: "string \<Rightarrow> WorkflowError + unit" where
  "validate_interval dur =
     (case parse_duration_secs dur of
        Inl _ \<Rightarrow> Inl (InvalidDefinition (''invalid interval '' @ quoted dur
                 @ '': expected a duration like '' @ quoted ''30m'' @ '', '' @ quoted ''1h''
                 @ '', or '' @ quoted ''60s''))
      | Inr secs \<Rightarrow>
          (if secs < 60
           then Inl (InvalidDefinition
                  ''interval must be at least 60s (cron loop ticks every 60 seconds)'')
           else Inr ()))"

definition validate_trigger ::
  "('sched, 'more) cron_lib_scheme \<Rightarrow> TriggerDef \<Rightarrow> WorkflowError + unit" where
  "validate_trigger C t =
     (case t of
        Schedule cron interval \<Rightarrow>
          (if cron = None \<and> interval = None
           then Inl (InvalidDefinition (''schedule trigger requires either '' @ quoted ''cron''
                  @ '' or '' @ quoted ''interval''))
           else if cron \<noteq> None \<and> interval \<noteq> None
           then Inl (InvalidDefinition (''schedule trigger cannot specify both '' @ quoted ''cron''
                  @ '' and '' @ quoted ''interval'' @ ''; use one or the other''))
           else and_then (case cron of Some expr \<Rightarrow> validate_cron C expr | None \<Rightarrow> Inr ())
                  (\<lambda>_. case interval of Some dur \<Rightarrow> validate_interval dur | None \<Rightarrow> Inr ()))
      | _ \<Rightarrow> Inr ())"

definition validate ::
  "('sched, 'more) cron_lib_scheme \<Rightarrow> WorkflowDef \<Rightarrow> WorkflowError + unit" where
  "validate C w =
     (if trim (wd_name w) = []
      then Inl (InvalidDefinition ''name is required and must not be empty'')
      else if wd_steps w = [] then Inl (InvalidDefinition ''at least one step is required'')
      else and_then (check_step_ids [] (wd_steps w)) (\<lambda>_. validate_trigger C (wd_trigger w)))"

text \<open>\<open>parse_yaml\<close>; reading YAML and printing JSON are arguments.\<close>

definition parse_yaml ::
  "('sched, 'more) cron_lib_scheme \<Rightarrow> (string \<Rightarrow> string + WorkflowDef) \<Rightarrow>
   (WorkflowDef \<Rightarrow> string + string) \<Rightarrow> string \<Rightarrow> WorkflowError + (WorkflowDef \<times> string)" where
  "parse_yaml C from_str to_json yaml =
     (case from_str yaml of
        Inl e \<Rightarrow> Inl (InvalidYaml e)
      | Inr w \<Rightarrow>
          and_then (validate C w) (\<lambda>_.
            case to_json w of
              Inl e \<Rightarrow> Inl (InvalidDefinition e)
            | Inr text \<Rightarrow> Inr (w, text)))"

subsection \<open>What the validation accepts\<close>








subsection \<open>Durations, exactly\<close>

lemma strip_suffix_snoc: "strip_suffix (s @ [c]) [d] = (if c = d then Some s else None)"
  by (auto simp: strip_suffix_def starts_with_def)

lemma dec_not_unit:
  assumes "\<not> is_digit d"
  shows "strip_suffix (dec n) [d] = None"
proof (rule ccontr)
  assume "strip_suffix (dec n) [d] \<noteq> None"
  then obtain r where "dec n = r @ [d]" by (auto simp: strip_suffix_Some)
  with dec_digits [of n] assms show False by simp
qed

lemma dec_unit_plain: "32 < (of_char c :: nat) \<Longrightarrow> (of_char c :: nat) < 128 \<Longrightarrow> plain (dec n @ [c])"
  by (simp add: plain_append digits_plain dec_digits) (simp add: plain_def)

lemma trim_dec [simp]: "trim (dec n) = dec n"
  by (intro trim_plain digits_plain dec_digits)

lemma parse_u64_dec_iff: "parse_u64 (dec n) = (if n < 2 ^ 64 then Some n else None)"
proof (cases "n < 2 ^ 64")
  case False
  have "parse_u64 (dec n) \<noteq> Some k" for k
  proof
    assume "parse_u64 (dec n) = Some k"
    then have "undec (dec n) < 2 ^ 64"
      using dec_digits [of n] by (cases "dec n") (auto simp: parse_u64_def Let_def starts_with_def is_digit_def split: if_splits)
    with False show False by simp
  qed
  with False show ?thesis by auto
qed (simp add: parse_u64_dec)

text \<open>A duration is read exactly: hours, minutes, seconds or a bare number of seconds, an error when
  the number or the product does not fit 64 bits, never a wrapped result.\<close>

theorem parse_duration_exact:
  "parse_duration_secs (dec n @ ''h'') =
     (if n * 3600 < 2 ^ 64 then Inr (n * 3600)
      else if n < 2 ^ 64 then Inl (InvalidDefinition (''duration overflow: '' @ dec n @ ''h''))
      else Inl (invalid_duration (dec n @ ''h''))) \<and>
   parse_duration_secs (dec n @ ''m'') =
     (if n * 60 < 2 ^ 64 then Inr (n * 60)
      else if n < 2 ^ 64 then Inl (InvalidDefinition (''duration overflow: '' @ dec n @ ''m''))
      else Inl (invalid_duration (dec n @ ''m''))) \<and>
   parse_duration_secs (dec n @ ''s'') =
     (if n < 2 ^ 64 then Inr n else Inl (invalid_duration (dec n @ ''s''))) \<and>
   parse_duration_secs (dec n) = (if n < 2 ^ 64 then Inr n else Inl (invalid_duration (dec n)))"
proof -
  have unit: "trim (dec n @ [c]) = dec n @ [c]" if "c \<in> {CHR ''h'', CHR ''m'', CHR ''s''}" for c
    using that by (intro trim_plain dec_unit_plain) auto
  show ?thesis
    by (intro conjI)
      (auto simp: parse_duration_secs_def Let_def unit strip_suffix_snoc scaled_duration_def
         parse_u64_dec_iff dec_not_unit is_digit_def)
qed

end
