(* ===== verification/Workflow_Template.thy ===== *)
theory Workflow_Template
  imports Workflow_Schema
begin

text \<open>
  Templates and conditions of \<open>buzz-workflow/src/executor.rs\<close>: the trigger context, the
  substitution of \<open>{{trigger.X}}\<close> and \<open>{{steps.ID.output.X}}\<close>, the variables and the evaluation
  of a condition, the templates of an action and the channel of a message. The packages
  \<open>evalexpr\<close>, \<open>nostr\<close>, \<open>uuid\<close> and \<open>serde_json\<close> are the fields of \<open>text_env\<close>.
\<close>

subsection \<open>The trigger context\<close>

record TriggerContext =
  tc_text :: string
  tc_author :: string
  tc_channel_id :: string
  tc_timestamp :: string
  tc_emoji :: string
  tc_message_id :: string
  tc_webhook_fields :: "(string, string) hmap"

definition TriggerContext_default :: TriggerContext where
  "TriggerContext_default =
     \<lparr>tc_text = [], tc_author = [], tc_channel_id = [], tc_timestamp = [], tc_emoji = [],
      tc_message_id = [], tc_webhook_fields = []\<rparr>"

definition get_field :: "TriggerContext \<Rightarrow> string \<Rightarrow> string option" where
  "get_field t name =
     (if name = ''text'' then Some (tc_text t)
      else if name = ''author'' then Some (tc_author t)
      else if name = ''channel_id'' then Some (tc_channel_id t)
      else if name = ''timestamp'' then Some (tc_timestamp t)
      else if name = ''emoji'' then Some (tc_emoji t)
      else if name = ''message_id'' then Some (tc_message_id t)
      else hget (tc_webhook_fields t) name)"

subsection \<open>The packages\<close>

text \<open>The values of \<open>evalexpr\<close>; a float is its text.\<close>

datatype eval_value =
  EvString string | EvFloat string | EvInt int | EvBoolean bool | EvTuple "eval_value list" | EvEmpty

text \<open>
  The end of \<open>timeout(EVAL_TIMEOUT, spawn_blocking(eval))\<close>. It depends on the clock, so the
  evaluator is told the moment: the number of observations made before it.
\<close>

datatype eval_outcome = EvalTimeout | EvalPanic string | EvalError string | EvalDone bool

type_synonym eval_function = "eval_value \<Rightarrow> string + eval_value"

record 'ctx text_env =
  json_show :: "json \<Rightarrow> string"
  num_as_i64 :: "string \<Rightarrow> int option"
  num_as_f64 :: "string \<Rightarrow> string option"
  pk_from_hex :: "string \<Rightarrow> string option"
  pk_to_bech32 :: "string \<Rightarrow> string option"
  parse_uuid :: "string \<Rightarrow> string + uuid"
  ev_as_tuple2 :: "eval_value \<Rightarrow> string + (eval_value \<times> eval_value)"
  ev_as_string :: "eval_value \<Rightarrow> string + string"
  ev_new :: 'ctx
  ev_set_function :: "'ctx \<Rightarrow> string \<Rightarrow> eval_function \<Rightarrow> string + 'ctx"
  ev_set_value :: "'ctx \<Rightarrow> string \<Rightarrow> eval_value \<Rightarrow> string + 'ctx"
  ev_get_value :: "'ctx \<Rightarrow> string \<Rightarrow> eval_value option"
  ev_eval_boolean :: "nat \<Rightarrow> string \<Rightarrow> 'ctx \<Rightarrow> eval_outcome"

type_synonym outputs = "(string, json) hmap"

subsection \<open>Templates\<close>

fun json_to_string :: "('ctx, 'm) text_env_scheme \<Rightarrow> json \<Rightarrow> string" where
  "json_to_string E (JString s) = s"
| "json_to_string E (JBool b) = (if b then ''true'' else ''false'')"
| "json_to_string E (JNumber n) = n"
| "json_to_string E JNull = []"
| "json_to_string E v = json_show E v"

definition json_get_str :: "('ctx, 'm) text_env_scheme \<Rightarrow> json \<Rightarrow> string \<Rightarrow> string option" where
  "json_get_str E v key =
     (case v of
        JObject entries \<Rightarrow> map_option (json_to_string E) (hget entries key)
      | _ \<Rightarrow> None)"

definition resolve_variable ::
  "('ctx, 'm) text_env_scheme \<Rightarrow> TriggerContext \<Rightarrow> outputs \<Rightarrow> string \<Rightarrow> string option" where
  "resolve_variable E t outs path =
     (case strip_prefix path ''trigger.'' of
        Some field \<Rightarrow> get_field t field
      | None \<Rightarrow>
          (case strip_prefix path ''steps.'' of
             None \<Rightarrow> None
           | Some rest \<Rightarrow>
               (case split_once (CHR ''.'') rest of
                  None \<Rightarrow> None
                | Some (step_id, rest2) \<Rightarrow>
                    (case split_once (CHR ''.'') rest2 of
                       None \<Rightarrow> None
                     | Some (middle, field) \<Rightarrow>
                         (if middle \<noteq> ''output'' then None
                          else case hget outs step_id of
                                 None \<Rightarrow> None
                               | Some out \<Rightarrow> json_get_str E out field)))))"

definition apply_filter ::
  "('ctx, 'm) text_env_scheme \<Rightarrow> string \<Rightarrow> string \<Rightarrow> WorkflowError + string" where
  "apply_filter E value filter0 =
     (let f = trim filter0
      in case Option.bind (strip_prefix f ''truncate('') (\<lambda>s. strip_suffix s '')'') of
           Some inner \<Rightarrow>
             (case parse_u64 (trim inner) of
                None \<Rightarrow> Inl (TemplateError (''truncate() requires a number, got: '' @ inner))
              | Some n \<Rightarrow> Inr (take_chars n value))
         | None \<Rightarrow>
             (if f = ''npub'' \<or> f = ''truncate_pubkey''
              then (case pk_from_hex E value of
                      Some pk \<Rightarrow>
                        (case pk_to_bech32 E pk of Some b \<Rightarrow> Inr b | None \<Rightarrow> Inr value)
                    | None \<Rightarrow> Inr value)
              else Inl (TemplateError (''unknown filter: '' @ f))))"

text \<open>The text between a pair of braces: its path and its filter, and what it is replaced by.\<close>

definition hole_parts :: "string \<Rightarrow> string \<times> string option" where
  "hole_parts expr =
     (case split_once (CHR ''|'') expr of
        None \<Rightarrow> (trim expr, None)
      | Some (path, f) \<Rightarrow> (trim path, Some (trim f)))"

definition resolve_hole ::
  "('ctx, 'm) text_env_scheme \<Rightarrow> TriggerContext \<Rightarrow> outputs \<Rightarrow> string \<Rightarrow> WorkflowError + string" where
  "resolve_hole E t outs inner =
     (let expr = trim inner
      in case hole_parts expr of
           (var_path, f0) \<Rightarrow>
             (case (resolve_variable E t outs var_path, f0) of
                (Some v, Some f) \<Rightarrow> apply_filter E v f
              | (Some v, None) \<Rightarrow> Inr v
              | (None, _) \<Rightarrow> Inr (''{{'' @ expr @ ''}}'')))"

function resolve_loop ::
  "('ctx, 'm) text_env_scheme \<Rightarrow> TriggerContext \<Rightarrow> outputs \<Rightarrow> string \<Rightarrow> string \<Rightarrow>
   WorkflowError + string" where
  "resolve_loop E t outs result remaining =
     (case split_at_sub ''{{'' remaining of
        None \<Rightarrow> Inr (result @ remaining)
      | Some (before, rest) \<Rightarrow>
          (case split_at_sub ''}}'' rest of
             None \<Rightarrow> Inr (result @ before @ ''{{'' @ rest)
           | Some (inner, rest2) \<Rightarrow>
               and_then (resolve_hole E t outs inner) (\<lambda>value.
                 resolve_loop E t outs (result @ before @ value) rest2)))"
  by pat_completeness auto
termination
  by (relation "measure (\<lambda>(_, _, _, _, s). length s)")
    (auto dest!: split_at_sub_Some)

declare resolve_loop.simps [simp del]

definition resolve_template ::
  "('ctx, 'm) text_env_scheme \<Rightarrow> TriggerContext \<Rightarrow> outputs \<Rightarrow> string \<Rightarrow> WorkflowError + string" where
  "resolve_template E t outs template =
     (if \<not> str_contains template ''{{'' then Inr template
      else resolve_loop E t outs [] template)"

subsection \<open>Conditions\<close>

fun json_value_to_eval :: "('ctx, 'm) text_env_scheme \<Rightarrow> json \<Rightarrow> eval_value" where
  "json_value_to_eval E (JString s) = EvString s"
| "json_value_to_eval E (JBool b) = EvBoolean b"
| "json_value_to_eval E (JNumber n) =
     (case num_as_i64 E n of
        Some i \<Rightarrow> EvInt i
      | None \<Rightarrow> (case num_as_f64 E n of Some f \<Rightarrow> EvFloat f | None \<Rightarrow> EvString n))"
| "json_value_to_eval E JNull = EvEmpty"
| "json_value_to_eval E v = EvString (json_show E v)"

definition string_test ::
  "('ctx, 'm) text_env_scheme \<Rightarrow> (string \<Rightarrow> string \<Rightarrow> bool) \<Rightarrow> eval_function" where
  "string_test E test args =
     and_then (ev_as_tuple2 E args) (\<lambda>(a, b).
       and_then (ev_as_string E a) (\<lambda>s.
         and_then (ev_as_string E b) (\<lambda>p. Inr (EvBoolean (test s p)))))"

definition str_len :: "('ctx, 'm) text_env_scheme \<Rightarrow> eval_function" where
  "str_len E arg = and_then (ev_as_string E arg) (\<lambda>s. Inr (EvInt (int (length s))))"

definition eval_functions ::
  "('ctx, 'm) text_env_scheme \<Rightarrow> (string \<times> eval_function) list" where
  "eval_functions E =
     [(''str_contains'', string_test E str_contains),
      (''str_starts_with'', string_test E starts_with),
      (''str_ends_with'', string_test E (\<lambda>s p. starts_with (rev s) (rev p))),
      (''str_len'', str_len E)]"

text \<open>\<open>map_err\<close> to a condition error, and the loops that set functions and variables.\<close>

definition condition_error :: "string + 'a \<Rightarrow> WorkflowError + 'a" where
  "condition_error r = (case r of Inl e \<Rightarrow> Inl (ConditionError e) | Inr x \<Rightarrow> Inr x)"

fun set_all ::
  "('ctx \<Rightarrow> string \<Rightarrow> 'v \<Rightarrow> string + 'ctx) \<Rightarrow> (string \<times> 'v) list \<Rightarrow> 'ctx \<Rightarrow> WorkflowError + 'ctx" where
  "set_all put [] c = Inr c"
| "set_all put ((n, v) # nvs) c = and_then (condition_error (put c n v)) (set_all put nvs)"

definition webhook_variables :: "TriggerContext \<Rightarrow> (string \<times> eval_value) list" where
  "webhook_variables t =
     map (\<lambda>(key, val). (''trigger_'' @ key, EvString val))
       (filter (\<lambda>(key, val). \<not> (starts_with key ''trigger_'' \<or> starts_with key ''steps_''))
          (tc_webhook_fields t))"

definition trigger_variables :: "TriggerContext \<Rightarrow> (string \<times> eval_value) list" where
  "trigger_variables t =
     [(''trigger_text'', EvString (tc_text t)),
      (''trigger_author'', EvString (tc_author t)),
      (''trigger_channel_id'', EvString (tc_channel_id t)),
      (''trigger_timestamp'', EvString (tc_timestamp t)),
      (''trigger_emoji'', EvString (tc_emoji t)),
      (''trigger_message_id'', EvString (tc_message_id t))]"

definition step_variable :: "string \<Rightarrow> string \<Rightarrow> string" where
  "step_variable step_id field = ''steps_'' @ step_id @ ''_output_'' @ field"

definition step_variables ::
  "('ctx, 'm) text_env_scheme \<Rightarrow> outputs \<Rightarrow> (string \<times> eval_value) list" where
  "step_variables E outs =
     concat (map (\<lambda>(step_id, out).
       case out of
         JObject entries \<Rightarrow>
           map (\<lambda>(field, val). (step_variable step_id field, json_value_to_eval E val)) entries
       | _ \<Rightarrow> []) outs)"

definition build_eval_context ::
  "('ctx, 'm) text_env_scheme \<Rightarrow> TriggerContext \<Rightarrow> outputs \<Rightarrow> WorkflowError + 'ctx" where
  "build_eval_context E t outs =
     and_then (set_all (ev_set_function E) (eval_functions E) (ev_new E)) (\<lambda>c.
     and_then (set_all (ev_set_value E) (webhook_variables t) c) (\<lambda>c.
     and_then (set_all (ev_set_value E) (trigger_variables t) c) (\<lambda>c.
     set_all (ev_set_value E) (step_variables E outs) c)))"

definition MAX_EXPR_LEN :: nat where "MAX_EXPR_LEN = 4096"

definition evaluate_condition ::
  "('ctx, 'm) text_env_scheme \<Rightarrow> nat \<Rightarrow> string \<Rightarrow> TriggerContext \<Rightarrow> outputs \<Rightarrow>
   WorkflowError + bool" where
  "evaluate_condition E moment expr t outs =
     and_then (build_eval_context E t outs) (\<lambda>c.
       if length expr > MAX_EXPR_LEN
       then Inl (ConditionError (''condition expression exceeds '' @ dec MAX_EXPR_LEN @ '' byte limit''))
       else case ev_eval_boolean E moment expr c of
              EvalTimeout \<Rightarrow>
                Inl (ConditionError (quoted expr @ '': evaluation timed out after '' @ dec 100 @ ''ms''))
            | EvalPanic e \<Rightarrow> Inl (ConditionError (quoted expr @ '': eval task panicked: '' @ e))
            | EvalError e \<Rightarrow> Inl (ConditionError (quoted expr @ '': '' @ e))
            | EvalDone b \<Rightarrow> Inr b)"

subsection \<open>The templates of an action\<close>

definition resolve_opt ::
  "(string \<Rightarrow> WorkflowError + string) \<Rightarrow> string option \<Rightarrow> WorkflowError + string option" where
  "resolve_opt f s = (case s of Some v \<Rightarrow> and_then (f v) (\<lambda>r. Inr (Some r)) | None \<Rightarrow> Inr None)"

definition resolve_headers ::
  "(string \<Rightarrow> WorkflowError + string) \<Rightarrow> (string, string) hmap option \<Rightarrow>
   WorkflowError + (string, string) hmap option" where
  "resolve_headers f hs =
     (case hs of
        Some h \<Rightarrow>
          and_then (map_ok (\<lambda>(k, v). and_then (f v) (\<lambda>r. Inr (k, r))) h) (\<lambda>out. Inr (Some out))
      | None \<Rightarrow> Inr None)"

definition resolve_step_templates ::
  "('ctx, 'm) text_env_scheme \<Rightarrow> Step \<Rightarrow> TriggerContext \<Rightarrow> outputs \<Rightarrow>
   WorkflowError + ActionDef" where
  "resolve_step_templates E s t outs =
     (let f = resolve_template E t outs
      in case st_action s of
           SendMessage msg ch \<Rightarrow>
             and_then (f msg) (\<lambda>m. and_then (resolve_opt f ch) (\<lambda>c. Inr (SendMessage m c)))
         | SendDm to msg \<Rightarrow> and_then (f to) (\<lambda>d. and_then (f msg) (\<lambda>m. Inr (SendDm d m)))
         | SetChannelTopic topic \<Rightarrow> and_then (f topic) (\<lambda>r. Inr (SetChannelTopic r))
         | AddReaction emoji \<Rightarrow> and_then (f emoji) (\<lambda>r. Inr (AddReaction r))
         | CallWebhook url m hs body \<Rightarrow>
             and_then (resolve_headers f hs) (\<lambda>hs'.
             and_then (f url) (\<lambda>u.
             and_then (resolve_opt f body) (\<lambda>b. Inr (CallWebhook u m hs' b))))
         | RequestApproval who msg timeout \<Rightarrow>
             and_then (f who) (\<lambda>w. and_then (f msg) (\<lambda>m. Inr (RequestApproval w m timeout)))
         | Delay duration \<Rightarrow> Inr (Delay duration))"

definition override_uuid ::
  "('ctx, 'm) text_env_scheme \<Rightarrow> string \<Rightarrow> WorkflowError + uuid" where
  "override_uuid E ch =
     (case parse_uuid E ch of
        Inl e \<Rightarrow> Inl (InvalidDefinition (''SendMessage: invalid channel override UUID: '' @ e))
      | Inr u \<Rightarrow> Inr u)"

definition resolve_send_message_channel ::
  "('ctx, 'm) text_env_scheme \<Rightarrow> string option \<Rightarrow> string \<Rightarrow> uuid option \<Rightarrow>
   WorkflowError + string" where
  "resolve_send_message_channel E explicit0 trigger_channel workflow_channel_id =
     (let explicit = (case explicit0 of
                        Some ch \<Rightarrow> (if trim ch = [] then None else Some (trim ch))
                      | None \<Rightarrow> None)
      in case workflow_channel_id of
           Some wch \<Rightarrow>
             (case explicit of
                Some ch \<Rightarrow>
                  and_then (override_uuid E ch) (\<lambda>u.
                    if u \<noteq> wch
                    then Inl (InvalidDefinition
                           (''SendMessage: channel override must match the workflow channel ('' @ wch @ '')''))
                    else Inr wch)
              | None \<Rightarrow> Inr wch)
         | None \<Rightarrow>
             (case explicit of
                Some ch \<Rightarrow> override_uuid E ch
              | None \<Rightarrow>
                  (if trim trigger_channel = []
                   then Inl (InvalidDefinition
                     ''SendMessage: no channel_id available (trigger has no channel context and no channel override was specified)'')
                   else Inr (trim trigger_channel))))"

subsection \<open>Substituted values are inert\<close>

definition template_of :: "string \<Rightarrow> (string \<times> string) list \<Rightarrow> string \<Rightarrow> string" where
  "template_of l0 hs tail = l0 @ concat (map (\<lambda>(h, l). ''{{'' @ h @ ''}}'' @ l) hs) @ tail"

definition filled :: "string \<Rightarrow> string list \<Rightarrow> string list \<Rightarrow> string \<Rightarrow> string" where
  "filled l0 vs ls tail = l0 @ concat (map2 (@) vs ls) @ tail"

text \<open>Literals hold no opening braces, holes no closing ones, and the tail is an unclosed hole.\<close>

definition template_split :: "string \<Rightarrow> (string \<times> string) list \<Rightarrow> string \<Rightarrow> bool" where
  "template_split l0 hs tail \<longleftrightarrow>
     \<not> str_contains l0 ''{{'' \<and>
     list_all (\<lambda>(h, l). \<not> str_contains h ''}}'' \<and> \<not> str_contains l ''{{'') hs \<and>
     (tail = [] \<or> (\<exists>r. tail = ''{{'' @ r \<and> \<not> str_contains r ''}}''))"

lemma resolve_loop_split:
  "\<exists>l0 hs tail. s = template_of l0 hs tail \<and> template_split l0 hs tail \<and>
     (\<forall>(E :: ('ctx, 'm) text_env_scheme) t outs result.
        resolve_loop E t outs result s =
          and_then (map_ok (resolve_hole E t outs) (map fst hs))
            (\<lambda>vs. Inr (result @ filled l0 vs (map snd hs) tail)))"
proof (induction s rule: length_induct)
  case (1 s)
  show ?case
  proof (cases "split_at_sub ''{{'' s")
    case None
    then show ?thesis
      by (rule_tac exI [of _ s], rule_tac exI [of _ "[]"], rule_tac exI [of _ "[]"])
        (simp add: template_of_def template_split_def str_contains_def filled_def
          resolve_loop.simps [of _ _ _ _ s])
  next
    case (Some br)
    obtain before rest where br: "br = (before, rest)" by fastforce
    with Some have s: "s = before @ ''{{'' @ rest" and b: "\<not> str_contains before ''{{''"
      by (auto dest: split_at_sub_Some split_at_sub_before [rotated])
    show ?thesis
    proof (cases "split_at_sub ''}}'' rest")
      case None
      have "resolve_loop E t outs result s = Inr (result @ before @ ''{{'' @ rest)"
        for E :: "('ctx, 'm) text_env_scheme" and t outs result
        using Some br None by (subst resolve_loop.simps) simp
      then show ?thesis using s b None
        by (rule_tac exI [of _ before], rule_tac exI [of _ "[]"], rule_tac exI [of _ "''{{'' @ rest"])
          (simp add: template_of_def template_split_def str_contains_def filled_def)
    next
      case (Some ir)
      obtain inner rest2 where ir: "ir = (inner, rest2)" by fastforce
      with Some have r: "rest = inner @ ''}}'' @ rest2" and i: "\<not> str_contains inner ''}}''"
        by (auto dest: split_at_sub_Some split_at_sub_before [rotated])
      from r s have "length rest2 < length s" by simp
      with 1 obtain l0 hs tail where IH: "rest2 = template_of l0 hs tail" "template_split l0 hs tail"
        "\<And>(E :: ('ctx, 'm) text_env_scheme) t outs result. resolve_loop E t outs result rest2 =
          and_then (map_ok (resolve_hole E t outs) (map fst hs))
            (\<lambda>vs. Inr (result @ filled l0 vs (map snd hs) tail))"
        by blast
      have "resolve_loop E t outs result s =
          and_then (map_ok (resolve_hole E t outs) (map fst ((inner, l0) # hs)))
            (\<lambda>vs. Inr (result @ filled before vs (map snd ((inner, l0) # hs)) tail))"
        for E :: "('ctx, 'm) text_env_scheme" and t outs result
        using \<open>split_at_sub ''{{'' s = Some br\<close> br Some ir
        by (simp add: resolve_loop.simps [of _ _ _ _ s] IH(3) and_then_def filled_def
            split: sum.split)
      moreover have "s = template_of before ((inner, l0) # hs) tail"
        using s r IH(1) by (simp add: template_of_def)
      moreover have "template_split before ((inner, l0) # hs) tail"
        using IH(2) b i by (simp add: template_split_def)
      ultimately show ?thesis by blast
    qed
  qed
qed

text \<open>C23. A template is split once into literal text and holes, before anything is substituted: for
  every context and all outputs the result is the literal text, unchanged, with the value of each
  hole in its place, or the error of a filter. A value that itself contains braces is never
  expanded, so the text of a message cannot inject a placeholder.\<close>

theorem template_values_inert:
  "\<exists>l0 hs tail. template = template_of l0 hs tail \<and> template_split l0 hs tail \<and>
     (\<forall>(E :: ('ctx, 'm) text_env_scheme) t outs.
        resolve_template E t outs template =
          and_then (map_ok (resolve_hole E t outs) (map fst hs))
            (\<lambda>vs. Inr (filled l0 vs (map snd hs) tail)))"
proof (cases "str_contains template ''{{''")
  case True
  then have loop: "resolve_template E t outs template = resolve_loop E t outs [] template"
    for E :: "('ctx, 'm) text_env_scheme" and t outs
    by (simp add: resolve_template_def)
  obtain l0 hs tail where "template = template_of l0 hs tail" "template_split l0 hs tail"
    and eq: "\<And>(E :: ('ctx, 'm) text_env_scheme) t outs result.
        resolve_loop E t outs result template =
          and_then (map_ok (resolve_hole E t outs) (map fst hs))
            (\<lambda>vs. Inr (result @ filled l0 vs (map snd hs) tail))"
    using resolve_loop_split [of template, where 'ctx = 'ctx and 'm = 'm] by blast
  then show ?thesis unfolding loop eq append_Nil by blast
next
  case False
  then show ?thesis
    by (rule_tac exI [of _ template], rule_tac exI [of _ "[]"], rule_tac exI [of _ "[]"])
      (simp add: resolve_template_def template_of_def template_split_def filled_def)
qed

subsection \<open>The variables of a condition\<close>

text \<open>What \<open>HashMapContext\<close> of \<open>evalexpr\<close> promises.\<close>

definition eval_env_ok :: "('ctx, 'm) text_env_scheme \<Rightarrow> bool" where
  "eval_env_ok E \<longleftrightarrow>
     (\<forall>n. ev_get_value E (ev_new E) n = None) \<and>
     (\<forall>c n f c'. ev_set_function E c n f = Inr c' \<longrightarrow> ev_get_value E c' = ev_get_value E c) \<and>
     (\<forall>c n v c' m. ev_set_value E c n v = Inr c' \<longrightarrow>
        ev_get_value E c' m = (if m = n then Some v else ev_get_value E c m))"

lemma condition_error_Inr [simp]: "condition_error r = Inr x \<longleftrightarrow> r = Inr x"
  by (cases r) (auto simp: condition_error_def)

lemma set_all_functions:
  "eval_env_ok E \<Longrightarrow> set_all (ev_set_function E) nfs c = Inr c' \<Longrightarrow>
     ev_get_value E c' = ev_get_value E c"
  by (induction nfs arbitrary: c) (auto simp: and_then_eq_Inr eval_env_ok_def)

lemma set_all_values:
  assumes "eval_env_ok E"
  shows "set_all (ev_set_value E) nvs c = Inr c' \<Longrightarrow>
     ev_get_value E c' n = (case map_of (rev nvs) n of Some v \<Rightarrow> Some v | None \<Rightarrow> ev_get_value E c n)"
proof (induction nvs arbitrary: c)
  case (Cons nv nvs)
  obtain m v where nv: "nv = (m, v)" by fastforce
  with Cons.prems obtain c1 where
    "ev_set_value E c m v = Inr c1" and "set_all (ev_set_value E) nvs c1 = Inr c'"
    by (auto simp: and_then_eq_Inr)
  with Cons.IH assms nv show ?case
    by (auto simp: eval_env_ok_def map_add_def split: option.split)
qed simp

lemma eval_context_lookup:
  assumes "eval_env_ok E" and "build_eval_context E t outs = Inr c"
  shows "ev_get_value E c n =
     map_of (rev (webhook_variables t @ trigger_variables t @ step_variables E outs)) n"
proof -
  obtain c1 c2 c3 where
    c: "set_all (ev_set_function E) (eval_functions E) (ev_new E) = Inr c1"
       "set_all (ev_set_value E) (webhook_variables t) c1 = Inr c2"
       "set_all (ev_set_value E) (trigger_variables t) c2 = Inr c3"
       "set_all (ev_set_value E) (step_variables E outs) c3 = Inr c"
    using assms(2) by (auto simp: build_eval_context_def and_then_eq_Inr)
  have "ev_get_value E c1 n = None"
    using set_all_functions [OF assms(1) c(1)] assms(1) by (simp add: eval_env_ok_def)
  then show ?thesis
    using set_all_values [OF assms(1) c(2)] set_all_values [OF assms(1) c(3)]
      set_all_values [OF assms(1) c(4)]
    by (simp add: map_add_def split: option.split)
qed

lemma webhook_variable_name: "(n, v) \<in> set (webhook_variables t) \<Longrightarrow> starts_with n ''trigger_''"
  by (auto simp: webhook_variables_def starts_with_def)

lemma step_variable_name: "(n, v) \<in> set (step_variables E outs) \<Longrightarrow> starts_with n ''steps_''"
  by (auto simp: step_variables_def step_variable_def starts_with_def split: json.splits)

lemma trigger_variable_name: "(n, v) \<in> set (trigger_variables t) \<Longrightarrow> starts_with n ''trigger_''"
  by (auto simp: trigger_variables_def starts_with_def)

lemma trigger_not_steps: "starts_with n ''trigger_'' \<Longrightarrow> \<not> starts_with n ''steps_''"
  by (cases n) (auto simp: starts_with_def)

lemma map_of_rev_None: "(\<And>v. (n, v) \<notin> set xs) \<Longrightarrow> map_of (rev xs) n = None"
  by (metis map_of_SomeD option.exhaust set_rev)

lemma trigger_variables_lookup:
  "(n, v) \<in> set (trigger_variables t) \<Longrightarrow> map_of (rev (trigger_variables t)) n = Some v"
  by (auto simp: trigger_variables_def)

text \<open>The variables of a condition cannot be spoofed: whatever fields a webhook sent and whatever
  the steps returned, the six variables of the trigger hold the values of the trigger, a variable
  of a step comes from the output of a step and from nothing else, and there is no variable of
  any other name.\<close>

theorem condition_variables_unspoofable:
  assumes "eval_env_ok E" and "build_eval_context E t outs = Inr c"
  shows "(\<forall>(n, v) \<in> set (trigger_variables t). ev_get_value E c n = Some v) \<and>
     (\<forall>n. starts_with n ''steps_'' \<longrightarrow>
        ev_get_value E c n = map_of (rev (step_variables E outs)) n) \<and>
     (\<forall>n. ev_get_value E c n \<noteq> None \<longrightarrow> starts_with n ''trigger_'' \<or> starts_with n ''steps_'')"
proof (intro conjI)
  note get = eval_context_lookup [OF assms]
  show "\<forall>(n, v) \<in> set (trigger_variables t). ev_get_value E c n = Some v"
  proof (clarify)
    fix n v
    assume nv: "(n, v) \<in> set (trigger_variables t)"
    then have "map_of (rev (step_variables E outs)) n = None"
      by (intro map_of_rev_None) (metis trigger_variable_name trigger_not_steps step_variable_name)
    with nv show "ev_get_value E c n = Some v"
      by (simp add: get map_add_def trigger_variables_lookup)
  qed
  show "\<forall>n. starts_with n ''steps_'' \<longrightarrow>
      ev_get_value E c n = map_of (rev (step_variables E outs)) n"
  proof (intro allI impI)
    fix n
    assume n: "starts_with n ''steps_''"
    have "map_of (rev (webhook_variables t)) n = None" "map_of (rev (trigger_variables t)) n = None"
      by (intro map_of_rev_None, metis n trigger_not_steps webhook_variable_name)
        (intro map_of_rev_None, metis n trigger_not_steps trigger_variable_name)
    then show "ev_get_value E c n = map_of (rev (step_variables E outs)) n"
      by (simp add: get map_add_def split: option.split)
  qed
  show "\<forall>n. ev_get_value E c n \<noteq> None \<longrightarrow> starts_with n ''trigger_'' \<or> starts_with n ''steps_''"
  proof (intro allI impI)
    fix n
    assume "ev_get_value E c n \<noteq> None"
    then obtain v where
      "(n, v) \<in> set (webhook_variables t @ trigger_variables t @ step_variables E outs)"
      unfolding get by (metis map_of_SomeD not_None_eq set_rev)
    then show "starts_with n ''trigger_'' \<or> starts_with n ''steps_''"
      by (auto dest: webhook_variable_name trigger_variable_name step_variable_name)
  qed
qed

subsection \<open>The channel of a message\<close>

lemma send_message_channel_bound:
  "resolve_send_message_channel E ch tr (Some wch) = Inr c \<Longrightarrow> c = wch"
  by (auto simp: resolve_send_message_channel_def Let_def and_then_eq_Inr
      split: option.splits if_splits)

subsection \<open>A concrete environment\<close>

text \<open>
  An evaluator that knows variables only, over a context that refuses to change the type of a
  variable.
\<close>

fun demo_kind :: "eval_value \<Rightarrow> nat" where
  "demo_kind (EvString _) = 0"
| "demo_kind (EvFloat _) = 1"
| "demo_kind (EvInt _) = 2"
| "demo_kind (EvBoolean _) = 3"
| "demo_kind (EvTuple _) = 4"
| "demo_kind EvEmpty = 5"

type_synonym demo_ctx = "(string \<times> eval_value) list"

definition demo_set_value :: "demo_ctx \<Rightarrow> string \<Rightarrow> eval_value \<Rightarrow> string + demo_ctx" where
  "demo_set_value c n v =
     (case map_of c n of
        Some v0 \<Rightarrow> (if demo_kind v0 = demo_kind v then Inr ((n, v) # c) else Inl ''expected type'')
      | None \<Rightarrow> Inr ((n, v) # c))"

definition demo_eval :: "nat \<Rightarrow> string \<Rightarrow> demo_ctx \<Rightarrow> eval_outcome" where
  "demo_eval n expr c =
     (case map_of c expr of Some (EvBoolean b) \<Rightarrow> EvalDone b | _ \<Rightarrow> EvalError ''not a boolean'')"

definition demo_text_env :: "demo_ctx text_env" where
  "demo_text_env =
     \<lparr>json_show = (\<lambda>_. ''{}''), num_as_i64 = (\<lambda>_. None), num_as_f64 = (\<lambda>_. None),
      pk_from_hex = (\<lambda>_. None), pk_to_bech32 = Some, parse_uuid = Inr,
      ev_as_tuple2 = (\<lambda>_. Inl ''tuple''), ev_as_string = (\<lambda>_. Inl ''string''), ev_new = [],
      ev_set_function = (\<lambda>c _ _. Inr c), ev_set_value = demo_set_value, ev_get_value = map_of,
      ev_eval_boolean = demo_eval\<rparr>"

lemma demo_text_env_ok: "eval_env_ok demo_text_env"
  by (auto simp: eval_env_ok_def demo_text_env_def demo_set_value_def split: option.splits if_splits)

definition demo_trigger :: TriggerContext where
  "demo_trigger = TriggerContext_default
     \<lparr>tc_text := ''hi'', tc_channel_id := ''ch'', tc_webhook_fields := [(''text'', ''spoof'')]\<rparr>"

definition demo_outputs :: outputs where
  "demo_outputs = [(''ask'', JObject [(''sent'', JBool True)])]"

lemma demo_context: "\<not> isl (build_eval_context demo_text_env demo_trigger demo_outputs)"
  by code_simp

lemma condition_variables_unspoofable_witness:
  "\<exists>c. build_eval_context demo_text_env demo_trigger demo_outputs = Inr c \<and>
     ev_get_value demo_text_env c ''trigger_text'' = Some (EvString ''hi'') \<and>
     ev_get_value demo_text_env c ''steps_ask_output_sent'' = Some (EvBoolean True)"
proof -
  obtain c where c: "build_eval_context demo_text_env demo_trigger demo_outputs = Inr c"
    using demo_context by (cases "build_eval_context demo_text_env demo_trigger demo_outputs") auto
  note unspoofed = condition_variables_unspoofable [OF demo_text_env_ok c]
  then have "ev_get_value demo_text_env c ''trigger_text'' = Some (EvString ''hi'')"
    by (simp add: trigger_variables_def demo_trigger_def)
  moreover have "ev_get_value demo_text_env c ''steps_ask_output_sent'' = Some (EvBoolean True)"
    using unspoofed
    by (simp add: step_variables_def step_variable_def demo_outputs_def starts_with_def)
  ultimately show ?thesis using c by blast
qed

end
