(* ===== verification/Workflow_Db.thy ===== *)
theory Workflow_Db
  imports Workflow_Schema
begin

text \<open>
  The workflow tables of \<open>buzz-db/src/workflow.rs\<close>: definitions, runs, approvals and the claims of
  scheduled fires, all keyed by community. Every function is one SQL statement, hence one atomic
  step on the tables; \<open>NOW()\<close>, fresh UUIDs, the cast to \<open>jsonb\<close> and SHA-256 are arguments. The
  constraints of \<open>schema.sql\<close> that a statement can violate (primary and foreign keys, the length
  of a name) are the checks that return \<open>Sqlx\<close>.
\<close>

subsection \<open>Errors and statuses\<close>

datatype DbError = Sqlx string | NotFound string | AccessDenied string | InvalidData string

fun db_error_text :: "DbError \<Rightarrow> string" where
  "db_error_text (Sqlx e) = ''database error: '' @ e"
| "db_error_text (NotFound e) = ''not found: '' @ e"
| "db_error_text (AccessDenied e) = ''access denied: '' @ e"
| "db_error_text (InvalidData e) = ''invalid data: '' @ e"

datatype WorkflowStatus = WfActive | WfDisabled | WfArchived

fun workflow_status_text :: "WorkflowStatus \<Rightarrow> string" where
  "workflow_status_text WfActive = ''active''"
| "workflow_status_text WfDisabled = ''disabled''"
| "workflow_status_text WfArchived = ''archived''"

definition workflow_status_from_str :: "string \<Rightarrow> DbError + WorkflowStatus" where
  "workflow_status_from_str s =
     (if s = ''active'' then Inr WfActive
      else if s = ''disabled'' then Inr WfDisabled
      else if s = ''archived'' then Inr WfArchived
      else Inl (InvalidData (''unknown workflow status: '' @ s)))"

datatype RunStatus = Pending | Running | WaitingApproval | Completed | Failed | Cancelled

fun run_status_text :: "RunStatus \<Rightarrow> string" where
  "run_status_text Pending = ''pending''"
| "run_status_text Running = ''running''"
| "run_status_text WaitingApproval = ''waiting_approval''"
| "run_status_text Completed = ''completed''"
| "run_status_text Failed = ''failed''"
| "run_status_text Cancelled = ''cancelled''"

definition run_status_from_str :: "string \<Rightarrow> DbError + RunStatus" where
  "run_status_from_str s =
     (if s = ''pending'' then Inr Pending
      else if s = ''running'' then Inr Running
      else if s = ''waiting_approval'' then Inr WaitingApproval
      else if s = ''completed'' then Inr Completed
      else if s = ''failed'' then Inr Failed
      else if s = ''cancelled'' then Inr Cancelled
      else Inl (InvalidData (''unknown run status: '' @ s)))"

datatype ApprovalStatus = ApPending | ApGranted | ApDenied | ApExpired

fun approval_status_text :: "ApprovalStatus \<Rightarrow> string" where
  "approval_status_text ApPending = ''pending''"
| "approval_status_text ApGranted = ''granted''"
| "approval_status_text ApDenied = ''denied''"
| "approval_status_text ApExpired = ''expired''"

definition approval_status_from_str :: "string \<Rightarrow> DbError + ApprovalStatus" where
  "approval_status_from_str s =
     (if s = ''pending'' then Inr ApPending
      else if s = ''granted'' then Inr ApGranted
      else if s = ''denied'' then Inr ApDenied
      else if s = ''expired'' then Inr ApExpired
      else Inl (InvalidData (''unknown approval status: '' @ s)))"

lemma workflow_status_roundtrip [simp]:
  "workflow_status_from_str (workflow_status_text s) = Inr s"
  by (cases s) (simp_all add: workflow_status_from_str_def)

lemma run_status_roundtrip [simp]: "run_status_from_str (run_status_text s) = Inr s"
  by (cases s) (simp_all add: run_status_from_str_def)

lemma approval_status_roundtrip [simp]:
  "approval_status_from_str (approval_status_text s) = Inr s"
  by (cases s) (simp_all add: approval_status_from_str_def)

subsection \<open>Rows\<close>

record WorkflowRecord =
  wr_id :: uuid
  wr_community_id :: uuid
  wr_name :: string
  wr_owner_pubkey :: string
  wr_channel_id :: "uuid option"
  wr_definition :: json
  wr_definition_hash :: string
  wr_status :: WorkflowStatus
  wr_enabled :: bool
  wr_created_at :: datetime
  wr_updated_at :: datetime

record WorkflowRunRecord =
  rr_id :: uuid
  rr_community_id :: uuid
  rr_workflow_id :: uuid
  rr_status :: RunStatus
  rr_trigger_event_id :: "string option"
  rr_current_step :: int
  rr_execution_trace :: json
  rr_trigger_context :: "json option"
  rr_started_at :: "datetime option"
  rr_completed_at :: "datetime option"
  rr_error_message :: "string option"
  rr_created_at :: datetime

record ScheduledWorkflowFireClaim =
  fc_community_id :: uuid
  fc_workflow_id :: uuid
  fc_scheduled_for :: datetime
  fc_claimed_at :: datetime

record ApprovalRecord =
  ar_token :: string
  ar_workflow_id :: uuid
  ar_run_id :: uuid
  ar_step_id :: string
  ar_step_index :: int
  ar_approver_spec :: string
  ar_status :: ApprovalStatus
  ar_approver_pubkey :: "string option"
  ar_note :: "string option"
  ar_expires_at :: datetime
  ar_created_at :: datetime

record approval_row = ApprovalRecord +
  ar_granted_at :: "datetime option"
  ar_denied_at :: "datetime option"

type_synonym key = "uuid \<times> uuid"
type_synonym fire_key = "uuid \<times> uuid \<times> datetime"

record wf_tables =
  t_communities :: "(uuid, bool) hmap"
  t_users :: "key list"
  t_channels :: "key list"
  t_workflows :: "(key, WorkflowRecord) hmap"
  t_runs :: "(key, WorkflowRunRecord) hmap"
  t_approvals :: "(uuid \<times> string, approval_row) hmap"
  t_fires :: "(fire_key, datetime \<times> uuid option) hmap"

definition LIST_DEFAULT_LIMIT :: int where "LIST_DEFAULT_LIMIT = 100"
definition LIST_MAX_LIMIT :: int where "LIST_MAX_LIMIT = 1000"

definition constraint :: "string \<Rightarrow> DbError" where
  "constraint c = Sqlx (''violates constraint '' @ c)"

text \<open>The rows a \<open>SELECT\<close> returns: filtered, ordered by a key, cut off.\<close>

definition newest_first :: "('a \<Rightarrow> datetime) \<Rightarrow> 'a list \<Rightarrow> 'a list" where
  "newest_first f xs = sort_key (\<lambda>x. - f x) xs"

subsection \<open>Workflows\<close>

definition insertable ::
  "uuid \<Rightarrow> uuid option \<Rightarrow> string \<Rightarrow> string \<Rightarrow> wf_tables \<Rightarrow> bool" where
  "insertable community channel owner name T \<longleftrightarrow>
     hget (t_communities T) community \<noteq> None \<and> (community, owner) \<in> set (t_users T) \<and>
     (case channel of Some ch \<Rightarrow> (community, ch) \<in> set (t_channels T) | None \<Rightarrow> True) \<and>
     count_chars name \<le> 255"

definition new_workflow ::
  "uuid \<Rightarrow> uuid \<Rightarrow> uuid option \<Rightarrow> string \<Rightarrow> string \<Rightarrow> json \<Rightarrow> string \<Rightarrow> datetime \<Rightarrow> WorkflowRecord" where
  "new_workflow community i channel owner name definition hash now =
     \<lparr>wr_id = i, wr_community_id = community, wr_name = name, wr_owner_pubkey = owner,
      wr_channel_id = channel, wr_definition = definition, wr_definition_hash = hash,
      wr_status = WfActive, wr_enabled = True, wr_created_at = now, wr_updated_at = now\<rparr>"

definition create_workflow ::
  "(string \<Rightarrow> string + json) \<Rightarrow> uuid \<Rightarrow> datetime \<Rightarrow> uuid \<Rightarrow> uuid option \<Rightarrow> string \<Rightarrow> string \<Rightarrow> string \<Rightarrow>
   string \<Rightarrow> wf_tables \<Rightarrow> (DbError + uuid) \<times> wf_tables" where
  "create_workflow jsonb fresh now community channel owner name definition_json hash T =
     (case jsonb definition_json of
        Inl e \<Rightarrow> (Inl (Sqlx e), T)
      | Inr definition \<Rightarrow>
          (if \<not> insertable community channel owner name T then (Inl (constraint ''workflows''), T)
           else if hget (t_workflows T) (community, fresh) \<noteq> None
           then (Inl (constraint ''workflows_pkey''), T)
           else (Inr fresh,
                 T\<lparr>t_workflows := hput (community, fresh)
                     (new_workflow community fresh channel owner name definition hash now)
                     (t_workflows T)\<rparr>)))"

definition upsert_workflow ::
  "(string \<Rightarrow> string + json) \<Rightarrow> datetime \<Rightarrow> uuid \<Rightarrow> uuid \<Rightarrow> uuid option \<Rightarrow> string \<Rightarrow> string \<Rightarrow> string \<Rightarrow>
   string \<Rightarrow> wf_tables \<Rightarrow> (DbError + unit) \<times> wf_tables" where
  "upsert_workflow jsonb now community i channel owner name definition_json hash T =
     (case jsonb definition_json of
        Inl e \<Rightarrow> (Inl (Sqlx e), T)
      | Inr definition \<Rightarrow>
          (case hget (t_workflows T) (community, i) of
             None \<Rightarrow>
               (if \<not> insertable community channel owner name T then (Inl (constraint ''workflows''), T)
                else (Inr (),
                      T\<lparr>t_workflows := hput (community, i)
                          (new_workflow community i channel owner name definition hash now)
                          (t_workflows T)\<rparr>))
           | Some row \<Rightarrow>
               (if count_chars name > 255 then (Inl (constraint ''workflows''), T)
                else if wr_owner_pubkey row = owner \<and> wr_channel_id row = channel
                then (Inr (),
                      T\<lparr>t_workflows := hput (community, i)
                          (row\<lparr>wr_name := name, wr_definition := definition,
                               wr_definition_hash := hash, wr_updated_at := now\<rparr>)
                          (t_workflows T)\<rparr>)
                else (Inl (AccessDenied
                        (''workflow '' @ i @ '' belongs to a different owner or channel'')), T))))"

definition get_workflow :: "uuid \<Rightarrow> uuid \<Rightarrow> wf_tables \<Rightarrow> DbError + WorkflowRecord" where
  "get_workflow community i T =
     (case hget (t_workflows T) (community, i) of
        Some row \<Rightarrow> Inr row
      | None \<Rightarrow> Inl (NotFound (''workflow '' @ i)))"

definition list_channel_workflows ::
  "uuid \<Rightarrow> uuid \<Rightarrow> int option \<Rightarrow> int option \<Rightarrow> wf_tables \<Rightarrow> WorkflowRecord list" where
  "list_channel_workflows community channel lim off T =
     (let l = max 1 (min LIST_MAX_LIMIT (case lim of Some n \<Rightarrow> n | None \<Rightarrow> LIST_DEFAULT_LIMIT));
          d = max 0 (case off of Some n \<Rightarrow> n | None \<Rightarrow> 0)
      in take (nat l) (drop (nat d) (newest_first wr_created_at
           (filter (\<lambda>r. wr_community_id r = community \<and> wr_channel_id r = Some channel)
              (map snd (t_workflows T))))))"

definition list_enabled_channel_workflows ::
  "uuid \<Rightarrow> uuid \<Rightarrow> wf_tables \<Rightarrow> WorkflowRecord list" where
  "list_enabled_channel_workflows community channel T =
     take (nat LIST_MAX_LIMIT) (newest_first wr_created_at
       (filter (\<lambda>r. wr_community_id r = community \<and> wr_channel_id r = Some channel \<and>
                    wr_status r = WfActive \<and> wr_enabled r)
          (map snd (t_workflows T))))"

text \<open>\<open>definition->'trigger'->>'on'\<close>.\<close>

definition json_field :: "json \<Rightarrow> string \<Rightarrow> json option" where
  "json_field v k = (case v of JObject entries \<Rightarrow> hget entries k | _ \<Rightarrow> None)"

definition trigger_kind :: "json \<Rightarrow> string option" where
  "trigger_kind definition =
     (case Option.bind (json_field definition ''trigger'') (\<lambda>t. json_field t ''on'') of
        Some (JString s) \<Rightarrow> Some s
      | _ \<Rightarrow> None)"

definition list_all_enabled_workflows :: "wf_tables \<Rightarrow> WorkflowRecord list" where
  "list_all_enabled_workflows T =
     take (nat LIST_MAX_LIMIT) (sort_key wr_created_at
       (filter (\<lambda>r. wr_status r = WfActive \<and> wr_enabled r \<and>
                    trigger_kind (wr_definition r) = Some ''schedule'' \<and>
                    hget (t_communities T) (wr_community_id r) = Some False)
          (map snd (t_workflows T))))"

definition change_workflow ::
  "uuid \<Rightarrow> uuid \<Rightarrow> (WorkflowRecord \<Rightarrow> WorkflowRecord) \<Rightarrow> wf_tables \<Rightarrow> (DbError + unit) \<times> wf_tables" where
  "change_workflow community i f T =
     (case hget (t_workflows T) (community, i) of
        None \<Rightarrow> (Inl (NotFound (''workflow '' @ i)), T)
      | Some row \<Rightarrow> (Inr (), T\<lparr>t_workflows := hput (community, i) (f row) (t_workflows T)\<rparr>))"

definition update_workflow ::
  "(string \<Rightarrow> string + json) \<Rightarrow> uuid \<Rightarrow> uuid \<Rightarrow> string \<Rightarrow> string \<Rightarrow> string \<Rightarrow> wf_tables \<Rightarrow>
   (DbError + unit) \<times> wf_tables" where
  "update_workflow jsonb community i name definition_json hash T =
     (case jsonb definition_json of
        Inl e \<Rightarrow> (Inl (Sqlx e), T)
      | Inr definition \<Rightarrow>
          (if count_chars name > 255 \<and> hget (t_workflows T) (community, i) \<noteq> None
           then (Inl (constraint ''workflows''), T)
           else change_workflow community i
                  (\<lambda>row. row\<lparr>wr_name := name, wr_definition := definition,
                             wr_definition_hash := hash\<rparr>) T))"

definition update_workflow_status ::
  "uuid \<Rightarrow> uuid \<Rightarrow> WorkflowStatus \<Rightarrow> wf_tables \<Rightarrow> (DbError + unit) \<times> wf_tables" where
  "update_workflow_status community i s = change_workflow community i (\<lambda>row. row\<lparr>wr_status := s\<rparr>)"

definition set_workflow_enabled ::
  "uuid \<Rightarrow> uuid \<Rightarrow> bool \<Rightarrow> wf_tables \<Rightarrow> (DbError + unit) \<times> wf_tables" where
  "set_workflow_enabled community i b = change_workflow community i (\<lambda>row. row\<lparr>wr_enabled := b\<rparr>)"

text \<open>\<open>ON DELETE CASCADE\<close>: the runs, approvals and claims of the workflow go with it.\<close>

definition remove_workflow_row :: "uuid \<Rightarrow> uuid \<Rightarrow> wf_tables \<Rightarrow> wf_tables" where
  "remove_workflow_row community i T =
     T\<lparr>t_workflows := hdel (community, i) (t_workflows T),
       t_runs := filter (\<lambda>kv. \<not> (fst (fst kv) = community \<and> rr_workflow_id (snd kv) = i)) (t_runs T),
       t_approvals :=
         filter (\<lambda>kv. \<not> (fst (fst kv) = community \<and>
             (ar_workflow_id (snd kv) = i \<or>
              (case hget (t_runs T) (community, ar_run_id (snd kv)) of
                 Some run \<Rightarrow> rr_workflow_id run = i
               | None \<Rightarrow> False)))) (t_approvals T),
       t_fires := filter (\<lambda>kv. \<not> (fst (fst kv) = community \<and> fst (snd (fst kv)) = i)) (t_fires T)\<rparr>"

definition delete_workflow :: "uuid \<Rightarrow> uuid \<Rightarrow> wf_tables \<Rightarrow> (DbError + unit) \<times> wf_tables" where
  "delete_workflow community i T =
     (case hget (t_workflows T) (community, i) of
        None \<Rightarrow> (Inl (NotFound (''workflow '' @ i)), T)
      | Some _ \<Rightarrow> (Inr (), remove_workflow_row community i T))"

definition delete_workflow_for_owner ::
  "uuid \<Rightarrow> uuid \<Rightarrow> string \<Rightarrow> wf_tables \<Rightarrow> (DbError + uuid option) \<times> wf_tables" where
  "delete_workflow_for_owner community i owner T =
     (case hget (t_workflows T) (community, i) of
        Some row \<Rightarrow>
          (if wr_owner_pubkey row = owner
           then (Inr (wr_channel_id row), remove_workflow_row community i T)
           else (Inl (NotFound (''workflow '' @ i)), T))
      | None \<Rightarrow> (Inl (NotFound (''workflow '' @ i)), T))"

definition find_by_owner_and_name ::
  "uuid \<Rightarrow> string \<Rightarrow> string \<Rightarrow> wf_tables \<Rightarrow> WorkflowRecord option" where
  "find_by_owner_and_name community owner name T =
     find (\<lambda>r. wr_community_id r = community \<and> wr_owner_pubkey r = owner \<and> wr_name r = name)
       (map snd (t_workflows T))"

subsection \<open>Claims of scheduled fires\<close>

definition claim_scheduled_workflow_fire ::
  "datetime \<Rightarrow> uuid \<Rightarrow> uuid \<Rightarrow> datetime \<Rightarrow> wf_tables \<Rightarrow>
   ScheduledWorkflowFireClaim option \<times> wf_tables" where
  "claim_scheduled_workflow_fire now community i scheduled_for T =
     (if hget (t_workflows T) (community, i) = None then (None, T)
      else if hget (t_fires T) (community, i, scheduled_for) \<noteq> None then (None, T)
      else (Some \<lparr>fc_community_id = community, fc_workflow_id = i,
                  fc_scheduled_for = scheduled_for, fc_claimed_at = now\<rparr>,
            T\<lparr>t_fires := hput (community, i, scheduled_for) (now, None) (t_fires T)\<rparr>))"

text \<open>\<open>MAX(scheduled_for)\<close>, which is \<open>NULL\<close> when there is no row.\<close>

definition scheduled_instants :: "uuid \<Rightarrow> uuid \<Rightarrow> wf_tables \<Rightarrow> datetime list" where
  "scheduled_instants community i T =
     map (\<lambda>kv. snd (snd (fst kv)))
       (filter (\<lambda>kv. fst (fst kv) = community \<and> fst (snd (fst kv)) = i) (t_fires T))"

definition latest_scheduled_workflow_fire :: "uuid \<Rightarrow> uuid \<Rightarrow> wf_tables \<Rightarrow> datetime option" where
  "latest_scheduled_workflow_fire community i T =
     (case scheduled_instants community i T of
        [] \<Rightarrow> None
      | t # ts \<Rightarrow> Some (fold max ts t))"

definition attach_scheduled_workflow_run ::
  "uuid \<Rightarrow> uuid \<Rightarrow> datetime \<Rightarrow> uuid \<Rightarrow> wf_tables \<Rightarrow> (DbError + bool) \<times> wf_tables" where
  "attach_scheduled_workflow_run community i scheduled_for run T =
     (case hget (t_fires T) (community, i, scheduled_for) of
        Some (claimed, None) \<Rightarrow>
          (if hget (t_runs T) (community, run) = None
           then (Inl (constraint ''scheduled_workflow_fires''), T)
           else (Inr True, T\<lparr>t_fires :=
                   hput (community, i, scheduled_for) (claimed, Some run) (t_fires T)\<rparr>))
      | _ \<Rightarrow> (Inr False, T))"

definition prune_scheduled_workflow_fires_before ::
  "datetime \<Rightarrow> wf_tables \<Rightarrow> nat \<times> wf_tables" where
  "prune_scheduled_workflow_fires_before older_than T =
     (length (filter (\<lambda>kv. fst (snd kv) < older_than) (t_fires T)),
      T\<lparr>t_fires := filter (\<lambda>kv. \<not> fst (snd kv) < older_than) (t_fires T)\<rparr>)"

subsection \<open>Runs\<close>

definition create_workflow_run ::
  "uuid \<Rightarrow> datetime \<Rightarrow> uuid \<Rightarrow> uuid \<Rightarrow> string option \<Rightarrow> json option \<Rightarrow> wf_tables \<Rightarrow>
   (DbError + uuid) \<times> wf_tables" where
  "create_workflow_run fresh now community workflow_id trigger_event trigger_context T =
     (if hget (t_workflows T) (community, workflow_id) = None
      then (Inl (constraint ''workflow_runs''), T)
      else if hget (t_runs T) (community, fresh) \<noteq> None
      then (Inl (constraint ''workflow_runs_pkey''), T)
      else (Inr fresh,
            T\<lparr>t_runs := hput (community, fresh)
                \<lparr>rr_id = fresh, rr_community_id = community, rr_workflow_id = workflow_id,
                 rr_status = Pending, rr_trigger_event_id = trigger_event, rr_current_step = 0,
                 rr_execution_trace = JArray [], rr_trigger_context = trigger_context,
                 rr_started_at = None, rr_completed_at = None, rr_error_message = None,
                 rr_created_at = now\<rparr> (t_runs T)\<rparr>))"

definition get_workflow_run :: "uuid \<Rightarrow> uuid \<Rightarrow> wf_tables \<Rightarrow> DbError + WorkflowRunRecord" where
  "get_workflow_run community i T =
     (case hget (t_runs T) (community, i) of
        Some row \<Rightarrow> Inr row
      | None \<Rightarrow> Inl (NotFound (''workflow_run '' @ i)))"

definition list_workflow_runs ::
  "uuid \<Rightarrow> uuid \<Rightarrow> int \<Rightarrow> wf_tables \<Rightarrow> DbError + WorkflowRunRecord list" where
  "list_workflow_runs community workflow_id lim T =
     (let l = min lim 1000
      in if l < 0 then Inl (Sqlx ''LIMIT must not be negative'')
         else Inr (take (nat l) (newest_first rr_created_at
                (filter (\<lambda>r. rr_community_id r = community \<and> rr_workflow_id r = workflow_id)
                   (map snd (t_runs T))))))"

definition update_run_row ::
  "datetime \<Rightarrow> RunStatus \<Rightarrow> int \<Rightarrow> json \<Rightarrow> string option \<Rightarrow> WorkflowRunRecord \<Rightarrow> WorkflowRunRecord" where
  "update_run_row now status step trace err r =
     r\<lparr>rr_status := status, rr_current_step := step, rr_execution_trace := trace,
       rr_error_message := err,
       rr_started_at :=
         (if run_status_text status = ''running'' \<and> rr_started_at r = None then Some now
          else rr_started_at r),
       rr_completed_at :=
         (if run_status_text status \<in> {''completed'', ''failed'', ''cancelled''} then Some now
          else rr_completed_at r)\<rparr>"

definition update_workflow_run ::
  "datetime \<Rightarrow> uuid \<Rightarrow> uuid \<Rightarrow> RunStatus \<Rightarrow> int \<Rightarrow> json \<Rightarrow> string option \<Rightarrow> wf_tables \<Rightarrow>
   (DbError + unit) \<times> wf_tables" where
  "update_workflow_run now community i status step trace err T =
     (case hget (t_runs T) (community, i) of
        None \<Rightarrow> (Inl (NotFound (''workflow_run '' @ i)), T)
      | Some row \<Rightarrow>
          (Inr (), T\<lparr>t_runs := hput (community, i) (update_run_row now status step trace err row)
                       (t_runs T)\<rparr>))"

subsection \<open>Approvals\<close>

record CreateApprovalParams =
  ca_community_id :: uuid
  ca_token :: string
  ca_workflow_id :: uuid
  ca_run_id :: uuid
  ca_step_id :: string
  ca_step_index :: int
  ca_approver_spec :: string
  ca_expires_at :: datetime

definition create_approval ::
  "(string \<Rightarrow> string) \<Rightarrow> datetime \<Rightarrow> CreateApprovalParams \<Rightarrow> wf_tables \<Rightarrow>
   (DbError + unit) \<times> wf_tables" where
  "create_approval sha now p T =
     (let token_hash = sha (ca_token p); c = ca_community_id p
      in if hget (t_workflows T) (c, ca_workflow_id p) = None \<or>
            hget (t_runs T) (c, ca_run_id p) = None \<or> count_chars (ca_step_id p) > 64
         then (Inl (constraint ''workflow_approvals''), T)
         else if hget (t_approvals T) (c, token_hash) \<noteq> None
         then (Inl (constraint ''workflow_approvals_pkey''), T)
         else (Inr (),
               T\<lparr>t_approvals := hput (c, token_hash)
                   \<lparr>ar_token = token_hash, ar_workflow_id = ca_workflow_id p,
                    ar_run_id = ca_run_id p, ar_step_id = ca_step_id p,
                    ar_step_index = ca_step_index p, ar_approver_spec = ca_approver_spec p,
                    ar_status = ApPending, ar_approver_pubkey = None, ar_note = None,
                    ar_expires_at = ca_expires_at p, ar_created_at = now,
                    ar_granted_at = None, ar_denied_at = None\<rparr> (t_approvals T)\<rparr>))"

definition get_approval_by_stored_hash ::
  "uuid \<Rightarrow> string \<Rightarrow> wf_tables \<Rightarrow> DbError + ApprovalRecord" where
  "get_approval_by_stored_hash community token_hash T =
     (case hget (t_approvals T) (community, token_hash) of
        Some row \<Rightarrow> Inr (ApprovalRecord.truncate row)
      | None \<Rightarrow> Inl (NotFound ''approval token (hashed)''))"

definition get_approval ::
  "(string \<Rightarrow> string) \<Rightarrow> uuid \<Rightarrow> string \<Rightarrow> wf_tables \<Rightarrow> DbError + ApprovalRecord" where
  "get_approval sha community token = get_approval_by_stored_hash community (sha token)"

definition get_run_approvals ::
  "uuid \<Rightarrow> uuid \<Rightarrow> uuid \<Rightarrow> wf_tables \<Rightarrow> ApprovalRecord list" where
  "get_run_approvals community workflow_id run_id T =
     map ApprovalRecord.truncate
       (sort_key ar_step_index (sort_key ar_created_at
         (map snd (filter (\<lambda>kv. fst (fst kv) = community \<and> ar_run_id (snd kv) = run_id \<and>
                                 ar_workflow_id (snd kv) = workflow_id) (t_approvals T)))))"

definition decide_row ::
  "datetime \<Rightarrow> ApprovalStatus \<Rightarrow> string option \<Rightarrow> string option \<Rightarrow> approval_row \<Rightarrow> approval_row" where
  "decide_row now status pubkey note r =
     r\<lparr>ar_status := status, ar_approver_pubkey := pubkey, ar_note := note,
       ar_granted_at :=
         (if approval_status_text status = ''granted'' then Some now else ar_granted_at r),
       ar_denied_at :=
         (if approval_status_text status = ''denied'' then Some now else ar_denied_at r)\<rparr>"

definition update_approval_by_stored_hash ::
  "datetime \<Rightarrow> uuid \<Rightarrow> string \<Rightarrow> ApprovalStatus \<Rightarrow> string option \<Rightarrow> string option \<Rightarrow> wf_tables \<Rightarrow>
   bool \<times> wf_tables" where
  "update_approval_by_stored_hash now community token_hash status pubkey note T =
     (case hget (t_approvals T) (community, token_hash) of
        Some row \<Rightarrow>
          (if ar_status row = ApPending
           then (True, T\<lparr>t_approvals := hput (community, token_hash)
                           (decide_row now status pubkey note row) (t_approvals T)\<rparr>)
           else (False, T))
      | None \<Rightarrow> (False, T))"

definition update_approval ::
  "(string \<Rightarrow> string) \<Rightarrow> datetime \<Rightarrow> uuid \<Rightarrow> string \<Rightarrow> ApprovalStatus \<Rightarrow> string option \<Rightarrow>
   string option \<Rightarrow> wf_tables \<Rightarrow> bool \<times> wf_tables" where
  "update_approval sha now community token = update_approval_by_stored_hash now community (sha token)"

subsection \<open>No statement reaches another community\<close>

definition same_elsewhere :: "uuid \<Rightarrow> wf_tables \<Rightarrow> wf_tables \<Rightarrow> bool" where
  "same_elsewhere c T T' \<longleftrightarrow>
     (\<forall>c' k. c' \<noteq> c \<longrightarrow>
        hget (t_workflows T') (c', k) = hget (t_workflows T) (c', k) \<and>
        hget (t_runs T') (c', k) = hget (t_runs T) (c', k) \<and>
        hget (t_approvals T') (c', k) = hget (t_approvals T) (c', k)) \<and>
     (\<forall>c' k. c' \<noteq> c \<longrightarrow> hget (t_fires T') (c', k) = hget (t_fires T) (c', k))"

lemma same_elsewhere_refl [simp]: "same_elsewhere c T T"
  by (simp add: same_elsewhere_def)

lemma same_elsewhere_trans:
  "same_elsewhere c T T' \<Longrightarrow> same_elsewhere c T' T'' \<Longrightarrow> same_elsewhere c T T''"
  by (simp add: same_elsewhere_def)

lemma same_elsewhere_put [simp]:
  "same_elsewhere c T (T\<lparr>t_workflows := hput (c, k) w (t_workflows T)\<rparr>)"
  "same_elsewhere c T (T\<lparr>t_runs := hput (c, k) r (t_runs T)\<rparr>)"
  "same_elsewhere c T (T\<lparr>t_approvals := hput (c, h) a (t_approvals T)\<rparr>)"
  "same_elsewhere c T (T\<lparr>t_fires := hput (c, f) x (t_fires T)\<rparr>)"
  by (simp_all add: same_elsewhere_def)

lemma hget_filter_keep: "(\<And>v. P (k, v)) \<Longrightarrow> hget (filter P m) k = hget m k"
  by (induction m) auto

lemma same_elsewhere_remove [simp]: "same_elsewhere c T (remove_workflow_row c i T)"
  by (simp add: same_elsewhere_def remove_workflow_row_def hget_filter_keep)

lemmas statement_defs = create_workflow_def upsert_workflow_def change_workflow_def update_workflow_def
  update_workflow_status_def set_workflow_enabled_def delete_workflow_def
  delete_workflow_for_owner_def claim_scheduled_workflow_fire_def attach_scheduled_workflow_run_def
  create_workflow_run_def update_workflow_run_def update_approval_by_stored_hash_def
  update_approval_def

lemma create_approval_elsewhere:
  "same_elsewhere (ca_community_id p) T (snd (create_approval sha now p T))"
  by (simp add: create_approval_def Let_def)

text \<open>Every statement that writes carries the community, and the rows of all other communities stay
  as they are: the same UUIDs may exist in two communities and neither reaches the other.\<close>

theorem workflow_tables_isolated:
  "same_elsewhere c T (snd (create_workflow jsonb fresh now c channel owner name def_text hash T)) \<and>
   same_elsewhere c T (snd (upsert_workflow jsonb now c i channel owner name def_text hash T)) \<and>
   same_elsewhere c T (snd (update_workflow jsonb c i name def_text hash T)) \<and>
   same_elsewhere c T (snd (update_workflow_status c i s T)) \<and>
   same_elsewhere c T (snd (set_workflow_enabled c i b T)) \<and>
   same_elsewhere c T (snd (delete_workflow c i T)) \<and>
   same_elsewhere c T (snd (delete_workflow_for_owner c i owner T)) \<and>
   same_elsewhere c T (snd (claim_scheduled_workflow_fire now c i t T)) \<and>
   same_elsewhere c T (snd (attach_scheduled_workflow_run c i t run T)) \<and>
   same_elsewhere c T (snd (create_workflow_run fresh now c i trigger ctx T)) \<and>
   same_elsewhere c T (snd (update_workflow_run now c run status step trace err T)) \<and>
   same_elsewhere c T (snd (create_approval sha now (p\<lparr>ca_community_id := c\<rparr>) T)) \<and>
   same_elsewhere c T (snd (update_approval_by_stored_hash now c h decision pk note T)) \<and>
   same_elsewhere c T (snd (update_approval sha now c token decision pk note T))"
  using create_approval_elsewhere [of "p\<lparr>ca_community_id := c\<rparr>" T sha now]
  by (intro conjI) (simp_all add: statement_defs split: sum.split option.split)

subsection \<open>An approval is decided once\<close>

record decision =
  de_now :: datetime
  de_status :: ApprovalStatus
  de_pubkey :: "string option"
  de_note :: "string option"

text \<open>Requests on one approval, in the order the database serialises them.\<close>

fun decide_all :: "uuid \<Rightarrow> string \<Rightarrow> decision list \<Rightarrow> wf_tables \<Rightarrow> bool list \<times> wf_tables" where
  "decide_all c h [] T = ([], T)"
| "decide_all c h (d # ds) T =
     (case update_approval_by_stored_hash (de_now d) c h (de_status d) (de_pubkey d) (de_note d) T of
        (b, T1) \<Rightarrow> (case decide_all c h ds T1 of (bs, T2) \<Rightarrow> (b # bs, T2)))"

lemma decide_all_decided:
  assumes "\<And>row. hget (t_approvals T) (c, h) = Some row \<Longrightarrow> ar_status row \<noteq> ApPending"
  shows "decide_all c h ds T = (replicate (length ds) False, T)"
  using assms
  by (induction ds) (auto simp: update_approval_by_stored_hash_def split: option.split)

text \<open>C32. Of all the requests to grant or deny one approval, in whatever order they arrive, exactly the
  first one on a pending approval takes effect: it answers true and writes its decision, every
  other one answers false and changes nothing.\<close>

theorem approval_decided_once:
  assumes "list_all (\<lambda>d. de_status d \<noteq> ApPending) ds"
  shows "decide_all c h ds T =
     (case (hget (t_approvals T) (c, h), ds) of
        (Some row, d # rest) \<Rightarrow>
          (if ar_status row = ApPending
           then (True # replicate (length rest) False,
                 T\<lparr>t_approvals := hput (c, h)
                     (decide_row (de_now d) (de_status d) (de_pubkey d) (de_note d) row)
                     (t_approvals T)\<rparr>)
           else (replicate (length ds) False, T))
      | _ \<Rightarrow> (replicate (length ds) False, T))"
proof (cases "hget (t_approvals T) (c, h)")
  case None
  then show ?thesis by (subst decide_all_decided) simp_all
next
  case (Some row)
  show ?thesis
  proof (cases "ar_status row = ApPending")
    case False
    with Some show ?thesis by (subst decide_all_decided) (auto split: list.split)
  next
    case True
    show ?thesis
    proof (cases ds)
      case (Cons d rest)
      define row' where "row' = decide_row (de_now d) (de_status d) (de_pubkey d) (de_note d) row"
      have "ar_status row' \<noteq> ApPending" using assms Cons by (simp add: row'_def decide_row_def)
      then have "decide_all c h rest (T\<lparr>t_approvals := hput (c, h) row' (t_approvals T)\<rparr>) =
          (replicate (length rest) False, T\<lparr>t_approvals := hput (c, h) row' (t_approvals T)\<rparr>)"
        by (subst decide_all_decided) simp_all
      with Some True Cons show ?thesis
        by (simp add: update_approval_by_stored_hash_def row'_def)
    qed (use Some True in simp)
  qed
qed

definition demo_approval :: approval_row where
  "demo_approval =
     \<lparr>ar_token = ''h'', ar_workflow_id = ''w'', ar_run_id = ''r'', ar_step_id = ''ask'',
      ar_step_index = 0, ar_approver_spec = ''any'', ar_status = ApPending,
      ar_approver_pubkey = None, ar_note = None, ar_expires_at = 100, ar_created_at = 0,
      ar_granted_at = None, ar_denied_at = None\<rparr>"

definition demo_tables :: wf_tables where
  "demo_tables =
     \<lparr>t_communities = [(''c'', False)], t_users = [(''c'', ''o'')], t_channels = [(''c'', ''ch'')],
      t_workflows = [], t_runs = [], t_approvals = [((''c'', ''h''), demo_approval)], t_fires = []\<rparr>"

definition demo_decision :: "ApprovalStatus \<Rightarrow> decision" where
  "demo_decision s = \<lparr>de_now = 7, de_status = s, de_pubkey = Some ''pk'', de_note = None\<rparr>"

lemma approval_decided_once_witness:
  "fst (decide_all ''c'' ''h'' [demo_decision ApGranted, demo_decision ApDenied] demo_tables)
     = [True, False]"
  by (subst approval_decided_once)
    (simp_all add: demo_decision_def demo_tables_def demo_approval_def)

end
