(* ===== verification/Workflow_Run.thy ===== *)
theory Workflow_Run
  imports Workflow_Template Workflow_Db Network
begin

text \<open>
  The sequential executor of \<open>buzz-workflow/src/executor.rs\<close> and the end of a run
  (\<open>finalize_run\<close> of \<open>lib.rs\<close>). A run is a function on a \<open>world\<close>: the tables, the log of what
  the program did to the outside, and the permits of the semaphore. What the outside answers is
  an oracle of the moment, the length of the log: a database fault, the reply of the action
  sink, of the resolver and of an HTTP server, the clock, and whether the timeout of a step
  drops the action at an \<open>await\<close>. Other tasks may change the tables before every statement
  (\<open>interfere\<close>).
\<close>

subsection \<open>The outside\<close>

datatype ActionSinkError =
    InvalidInput string | ChannelNotFound string | ChannelArchived string | EventBuild string
  | SinkDatabase string | EmptyContent

fun sink_error_text :: "ActionSinkError \<Rightarrow> string" where
  "sink_error_text (InvalidInput e) = ''invalid input: '' @ e"
| "sink_error_text (ChannelNotFound e) = ''channel not found: '' @ e"
| "sink_error_text (ChannelArchived e) = ''channel is archived: '' @ e"
| "sink_error_text (EventBuild e) = ''event construction failed: '' @ e"
| "sink_error_text (SinkDatabase e) = ''database error: '' @ e"
| "sink_error_text EmptyContent = ''empty message content''"

record parsed_url =
  url_host :: "string option"
  url_port_or_known_default :: "nat option"

record http_request =
  hr_resolve :: "(string \<times> ip_addr \<times> nat) option"
  hr_method :: string
  hr_url :: string
  hr_headers :: "(string \<times> string) list"
  hr_body :: "string option"

record http_response =
  hs_status :: nat
  hs_chunks :: "(string + string) list"
  hs_text :: "string option"

datatype dns_outcome = DnsTaskFailed string | DnsFailed string | DnsAddrs "ip_addr list"

datatype db_fault = NoFault | FaultBefore string | FaultAfter string

datatype effect =
    Statement
  | Evaluation
  | MessageSent uuid string string string
  | Resolved string nat
  | HttpCall http_request
  | ChunkRead
  | ReactionCall http_request
  | Slept nat

record 'ctx run_env = "'ctx text_env" +
  db_fault :: "nat \<Rightarrow> db_fault"
  interfere :: "nat \<Rightarrow> wf_tables \<Rightarrow> wf_tables"
  clock :: "nat \<Rightarrow> datetime"
  fresh_uuid :: "nat \<Rightarrow> uuid"
  dropped_at :: "nat \<Rightarrow> bool"
  hex_encode :: "string \<Rightarrow> string"
  sink_set :: bool
  sink_reply :: "nat \<Rightarrow> ActionSinkError + string"
  parse_url :: "string \<Rightarrow> string + parsed_url"
  parse_method :: "string \<Rightarrow> string + string"
  client_build :: "nat \<Rightarrow> string + unit"
  dns_reply :: "nat \<Rightarrow> dns_outcome"
  http_reply :: "nat \<Rightarrow> string + http_response"
  utf8_lossy :: "string \<Rightarrow> string"
  show_ip :: "ip_addr \<Rightarrow> string"
  show_status :: "nat \<Rightarrow> string"
  env_var :: "string \<Rightarrow> string option"
  json_parse :: "string \<Rightarrow> json option"
  def_from_json :: "json \<Rightarrow> string + WorkflowDef"
  ctx_to_json :: "TriggerContext \<Rightarrow> string + json"
  ctx_from_json :: "json \<Rightarrow> TriggerContext option"
  max_concurrent :: nat
  default_timeout_secs :: nat

record world =
  w_tables :: wf_tables
  w_log :: "effect list"
  w_permits :: nat

abbreviation moment :: "world \<Rightarrow> nat" where "moment w \<equiv> length (w_log w)"

definition noted :: "effect \<Rightarrow> world \<Rightarrow> world" where
  "noted e w = w\<lparr>w_log := w_log w @ [e]\<rparr>"

text \<open>One statement of the database.\<close>

definition statement ::
  "('ctx, 'm) run_env_scheme \<Rightarrow> (wf_tables \<Rightarrow> (DbError + 'a) \<times> wf_tables) \<Rightarrow> world \<Rightarrow>
   (DbError + 'a) \<times> world" where
  "statement E f w =
     (let n = moment w; w1 = noted Statement w; T = interfere E n (w_tables w)
      in case db_fault E n of
           FaultBefore e \<Rightarrow> (Inl (Sqlx e), w1\<lparr>w_tables := T\<rparr>)
         | FaultAfter e \<Rightarrow> (Inl (Sqlx e), w1\<lparr>w_tables := snd (f T)\<rparr>)
         | NoFault \<Rightarrow> (case f T of (r, T') \<Rightarrow> (r, w1\<lparr>w_tables := T'\<rparr>)))"

lemma statement_tables:
  "w_tables (snd (statement E f w)) \<in>
     {interfere E (moment w) (w_tables w), snd (f (interfere E (moment w) (w_tables w)))}"
  by (simp add: statement_def Let_def split: db_fault.split prod.split)

definition query ::
  "('ctx, 'm) run_env_scheme \<Rightarrow> (wf_tables \<Rightarrow> DbError + 'a) \<Rightarrow> world \<Rightarrow> (DbError + 'a) \<times> world" where
  "query E f = statement E (\<lambda>T. (f T, T))"

subsection \<open>Actions under a timeout\<close>

text \<open>
  An action runs inside \<open>tokio::time::timeout\<close>: it fails, it is done, or it is dropped at one of
  its awaits, with everything it did before.
\<close>

datatype 'a outcome = Dropped | Broken WorkflowError | Done 'a

type_synonym 'a io = "world \<Rightarrow> 'a outcome \<times> world"

definition io_bind :: "'a io \<Rightarrow> ('a \<Rightarrow> 'b io) \<Rightarrow> 'b io" where
  "io_bind m f w =
     (case m w of
        (Done x, w') \<Rightarrow> f x w'
      | (Broken e, w') \<Rightarrow> (Broken e, w')
      | (Dropped, w') \<Rightarrow> (Dropped, w'))"

definition io_of :: "WorkflowError + 'a \<Rightarrow> 'a io" where
  "io_of r w = (case r of Inl e \<Rightarrow> (Broken e, w) | Inr x \<Rightarrow> (Done x, w))"

definition awaits :: "('ctx, 'm) run_env_scheme \<Rightarrow> 'a io \<Rightarrow> 'a io" where
  "awaits E op w = (if dropped_at E (moment w) then (Dropped, w) else op w)"

text \<open>An await on the outside: the effect happens, the oracle of that moment answers.\<close>

definition ask :: "('ctx, 'm) run_env_scheme \<Rightarrow> effect \<Rightarrow> (nat \<Rightarrow> WorkflowError + 'a) \<Rightarrow> 'a io" where
  "ask E e reply = awaits E (\<lambda>w. io_of (reply (moment w)) (noted e w))"

definition io_query ::
  "('ctx, 'm) run_env_scheme \<Rightarrow> (wf_tables \<Rightarrow> DbError + 'a) \<Rightarrow> (DbError \<Rightarrow> WorkflowError) \<Rightarrow> 'a io" where
  "io_query E f err = awaits E (\<lambda>w. case query E f w of
       (Inl e, w') \<Rightarrow> (Broken (err e), w')
     | (Inr x, w') \<Rightarrow> (Done x, w'))"

subsection \<open>Webhooks\<close>

definition check_ssrf :: "('ctx, 'm) run_env_scheme \<Rightarrow> string \<Rightarrow> nat \<Rightarrow> ip_addr io" where
  "check_ssrf E host port =
     io_bind (ask E (Resolved host port) (\<lambda>n.
         case dns_reply E n of
           DnsTaskFailed e \<Rightarrow> Inl (WebhookError (''SSRF check task failed: '' @ e))
         | DnsFailed e \<Rightarrow> Inl (WebhookError (''DNS resolution failed: '' @ e))
         | DnsAddrs addrs \<Rightarrow> Inr addrs))
       (\<lambda>addrs.
         case addrs of
           [] \<Rightarrow> io_of (Inl (WebhookError ''DNS resolution returned no addresses''))
         | a # _ \<Rightarrow>
             (case find is_private_ip addrs of
                Some ip \<Rightarrow> io_of (Inl (WebhookError (''SSRF blocked: '' @ quoted host
                     @ '' resolved to private/reserved address '' @ show_ip E ip)))
              | None \<Rightarrow> io_of (Inr a)))"

definition WEBHOOK_MAX_RESPONSE_BYTES :: nat where
  "WEBHOOK_MAX_RESPONSE_BYTES = 1024 * 1024"

fun read_chunks :: "('ctx, 'm) run_env_scheme \<Rightarrow> string \<Rightarrow> (string + string) list \<Rightarrow> string io" where
  "read_chunks E body [] = io_bind (ask E ChunkRead (\<lambda>_. Inr ())) (\<lambda>_. io_of (Inr body))"
| "read_chunks E body (c # cs) =
     io_bind (ask E ChunkRead (\<lambda>_.
         case c of
           Inl e \<Rightarrow> Inl (WebhookError (''reading response body: '' @ e))
         | Inr bytes \<Rightarrow> Inr (body @ bytes)))
       (\<lambda>body'.
         if length body' > WEBHOOK_MAX_RESPONSE_BYTES
         then io_of (Inl (WebhookError (''response body exceeds '' @ dec WEBHOOK_MAX_RESPONSE_BYTES
                @ '' byte limit'')))
         else read_chunks E body' cs)"

definition webhook_error :: "string + 'a \<Rightarrow> WorkflowError + 'a" where
  "webhook_error r = (case r of Inl e \<Rightarrow> Inl (WebhookError e) | Inr x \<Rightarrow> Inr x)"

definition call_webhook_impl ::
  "('ctx, 'm) run_env_scheme \<Rightarrow> string \<Rightarrow> string \<Rightarrow> (string, string) hmap option \<Rightarrow> string option \<Rightarrow>
   json io" where
  "call_webhook_impl E url method headers body =
     io_bind (io_of (case parse_url E url of
                       Inl e \<Rightarrow> Inl (WebhookError (''invalid URL: '' @ e))
                     | Inr u \<Rightarrow> Inr u)) (\<lambda>parsed.
     io_bind (io_of (case url_host parsed of
                       None \<Rightarrow> Inl (WebhookError ''URL has no host'')
                     | Some h \<Rightarrow> Inr h)) (\<lambda>host.
     let port = (case url_port_or_known_default parsed of Some p \<Rightarrow> p | None \<Rightarrow> 80)
     in io_bind (check_ssrf E host port) (\<lambda>safe_ip.
        io_bind (\<lambda>w. io_of (webhook_error (client_build E (moment w))) w) (\<lambda>_.
        io_bind (io_of (webhook_error (parse_method E method))) (\<lambda>m.
        io_bind (ask E (HttpCall
             \<lparr>hr_resolve = Some (host, safe_ip, port), hr_method = m, hr_url = url,
              hr_headers = (case headers of Some hs \<Rightarrow> hs | None \<Rightarrow> []), hr_body = body\<rparr>)
             (\<lambda>n. webhook_error (http_reply E n))) (\<lambda>resp.
        io_bind (read_chunks E [] (hs_chunks resp)) (\<lambda>bytes.
        io_of (Inr (JObject [(''body'', JString (utf8_lossy E bytes)),
                             (''status'', JNumber (dec (hs_status resp)))])))))))))"

definition add_reaction_impl ::
  "('ctx, 'm) run_env_scheme \<Rightarrow> string \<Rightarrow> string \<Rightarrow> json io" where
  "add_reaction_impl E message_id emoji =
     (let base_url = (case env_var E ''BUZZ_RELAY_BASE_URL'' of
                        Some u \<Rightarrow> u | None \<Rightarrow> ''http://localhost:3000'');
          url = base_url @ ''/api/messages/'' @ message_id @ ''/reactions'';
          auth = (case env_var E ''BUZZ_API_TOKEN'' of
                    Some token \<Rightarrow> [(''Authorization'', ''Bearer '' @ token)]
                  | None \<Rightarrow> (case env_var E ''BUZZ_RELAY_PUBKEY'' of
                              Some pubkey \<Rightarrow> [(''X-Pubkey'', pubkey)]
                            | None \<Rightarrow> []))
      in io_bind (ask E (ReactionCall
             \<lparr>hr_resolve = None, hr_method = ''POST'', hr_url = url,
              hr_headers = (''Content-Type'', ''application/json'') # auth,
              hr_body = Some (json_show E (JObject [(''emoji'', JString emoji)]))\<rparr>)
             (\<lambda>n. case http_reply E n of
                    Inl e \<Rightarrow> Inl (WebhookError (''AddReaction HTTP error: '' @ e))
                  | Inr r \<Rightarrow> Inr r)) (\<lambda>resp.
         io_bind (ask E ChunkRead (\<lambda>_. Inr ())) (\<lambda>_.
         if \<not> (200 \<le> hs_status resp \<and> hs_status resp < 300)
         then io_of (Inl (WebhookError (''AddReaction: relay returned '' @ show_status E (hs_status resp)
                @ '' for message '' @ message_id @ '': ''
                @ (case hs_text resp of Some s \<Rightarrow> s | None \<Rightarrow> ''<unreadable>''))))
         else let body_text = (case hs_text resp of Some s \<Rightarrow> s | None \<Rightarrow> []);
                  body_json = (case json_parse E body_text of
                                 Some j \<Rightarrow> j
                               | None \<Rightarrow> JObject [(''raw'', JString body_text)])
              in io_of (Inr (JObject [(''added'', JBool True), (''response'', body_json),
                                      (''status'', JNumber (dec (hs_status resp)))])))))"

subsection \<open>Actions\<close>

datatype StepResult = StepCompleted json | StepSuspended string | StepSkipped

definition action_sink :: "('ctx, 'm) run_env_scheme \<Rightarrow> WorkflowError + unit" where
  "action_sink E =
     (if sink_set E then Inr ()
      else Inl (InvalidDefinition (''action_sink not initialized '' @ em_dash
             @ '' call set_action_sink() before executing workflows'')))"

definition sink_error :: "ActionSinkError + 'a \<Rightarrow> WorkflowError + 'a" where
  "sink_error r = (case r of Inl e \<Rightarrow> Inl (WebhookError (sink_error_text e)) | Inr x \<Rightarrow> Inr x)"

definition dispatch_send_message ::
  "('ctx, 'm) run_env_scheme \<Rightarrow> string \<Rightarrow> string option \<Rightarrow> uuid \<Rightarrow> uuid \<Rightarrow> TriggerContext \<Rightarrow>
   StepResult io" where
  "dispatch_send_message E msg channel community run t =
     io_bind (io_query E (get_workflow_run community run) (\<lambda>e.
         WebhookError (''SendMessage: failed to load workflow run '' @ run @ '': '' @ db_error_text e)))
       (\<lambda>wf_run.
     io_bind (io_query E (get_workflow community (rr_workflow_id wf_run)) (\<lambda>e.
         WebhookError (''SendMessage: failed to load workflow '' @ rr_workflow_id wf_run @ '': ''
           @ db_error_text e)))
       (\<lambda>workflow.
     io_bind (io_of (resolve_send_message_channel E channel (tc_channel_id t) (wr_channel_id workflow)))
       (\<lambda>channel_id.
     io_bind (io_of (action_sink E)) (\<lambda>_.
     io_bind (ask E (MessageSent community channel_id msg (hex_encode E (wr_owner_pubkey workflow)))
         (\<lambda>n. sink_error (sink_reply E n)))
       (\<lambda>event_id.
     io_of (Inr (StepCompleted (JObject
       [(''event_id'', JString event_id), (''sent'', JBool True)]))))))))"

definition MAX_DELAY_SECS :: nat where "MAX_DELAY_SECS = 270"

definition generate_approval_token :: "('ctx, 'm) run_env_scheme \<Rightarrow> nat \<Rightarrow> string" where
  "generate_approval_token E n = fresh_uuid E n"

definition dispatch_action ::
  "('ctx, 'm) run_env_scheme \<Rightarrow> ActionDef \<Rightarrow> uuid \<Rightarrow> uuid \<Rightarrow> TriggerContext \<Rightarrow> StepResult io" where
  "dispatch_action E action community run t =
     (case action of
        SendMessage msg channel \<Rightarrow> dispatch_send_message E msg channel community run t
      | SendDm _ _ \<Rightarrow> io_of (Inl (NotImplemented ''SendDm''))
      | SetChannelTopic _ \<Rightarrow> io_of (Inl (NotImplemented ''SetChannelTopic''))
      | AddReaction emoji \<Rightarrow>
          (if tc_message_id t = []
           then io_of (Inl (InvalidDefinition ''AddReaction: no trigger.message_id available''))
           else io_bind (add_reaction_impl E (tc_message_id t) emoji)
                  (\<lambda>r. io_of (Inr (StepCompleted r))))
      | CallWebhook url method headers body \<Rightarrow>
          io_bind (call_webhook_impl E url (case method of Some m \<Rightarrow> m | None \<Rightarrow> ''POST'') headers body)
            (\<lambda>r. io_of (Inr (StepCompleted r)))
      | RequestApproval _ _ _ \<Rightarrow>
          (\<lambda>w. (Done (StepSuspended (generate_approval_token E (moment w))), w))
      | Delay duration \<Rightarrow>
          io_bind (io_of (parse_duration_secs duration)) (\<lambda>secs.
            if secs > MAX_DELAY_SECS
            then io_of (Inl (InvalidDefinition (''delay exceeds maximum of '' @ dec MAX_DELAY_SECS
                   @ '' seconds (got '' @ dec secs
                   @ ''s); use the scheduled resume pattern for long delays'')))
            else io_bind (ask E (Slept secs) (\<lambda>_. Inr ())) (\<lambda>_.
                   awaits E (io_of (Inr (StepCompleted (JObject
                     [(''slept_secs'', JNumber (dec secs))])))))))"

subsection \<open>The steps of a run\<close>

record ExecutionResult =
  er_approval_token :: "string option"
  er_step_index :: nat
  er_step_outputs :: outputs
  er_trace :: "json list"

type_synonym run_result = "WorkflowError \<times> PartialProgress + ExecutionResult"

definition trace_skipped :: "string \<Rightarrow> json" where
  "trace_skipped i = JObject [(''status'', JString ''skipped''), (''step_id'', JString i)]"

definition trace_completed :: "string \<Rightarrow> json \<Rightarrow> json" where
  "trace_completed i out =
     JObject [(''output'', out), (''status'', JString ''completed''), (''step_id'', JString i)]"

text \<open>Whether a step runs: its condition, evaluated outside the timeout.\<close>

definition step_condition ::
  "('ctx, 'm) run_env_scheme \<Rightarrow> Step \<Rightarrow> TriggerContext \<Rightarrow> outputs \<Rightarrow> world \<Rightarrow>
   (WorkflowError + bool) \<times> world" where
  "step_condition E s t outs w =
     (case st_if s of
        None \<Rightarrow> (Inr True, w)
      | Some expr \<Rightarrow> (evaluate_condition E (moment w) expr t outs, noted Evaluation w))"

text \<open>One step: templates, then the action under its timeout.\<close>

definition run_action ::
  "('ctx, 'm) run_env_scheme \<Rightarrow> uuid \<Rightarrow> uuid \<Rightarrow> Step \<Rightarrow> TriggerContext \<Rightarrow> outputs \<Rightarrow> world \<Rightarrow>
   (WorkflowError + StepResult) \<times> world" where
  "run_action E community run s t outs w =
     (case resolve_step_templates E s t outs of
        Inl e \<Rightarrow> (Inl e, w)
      | Inr action \<Rightarrow>
          (let timeout_secs = (case st_timeout_secs s of
                                 Some n \<Rightarrow> n | None \<Rightarrow> default_timeout_secs E)
           in case dispatch_action E action community run t w of
                (Done r, w') \<Rightarrow> (Inr r, w')
              | (Broken e, w') \<Rightarrow> (Inl e, w')
              | (Dropped, w') \<Rightarrow> (Inl (StepTimeout (st_id s) timeout_secs), w')))"

fun steps_loop ::
  "('ctx, 'm) run_env_scheme \<Rightarrow> uuid \<Rightarrow> uuid \<Rightarrow> TriggerContext \<Rightarrow> nat \<Rightarrow> nat \<Rightarrow> Step list \<Rightarrow> outputs \<Rightarrow>
   json list \<Rightarrow> world \<Rightarrow> run_result \<times> world" where
  "steps_loop E c r t start i [] outs trace w =
     (Inr \<lparr>er_approval_token = None, er_step_index = i, er_step_outputs = outs, er_trace = trace\<rparr>, w)"
| "steps_loop E c r t start i (s # ss) outs trace w =
     (if i < start then steps_loop E c r t start (i + 1) ss outs trace w
      else case step_condition E s t outs w of
        (Inl e, w1) \<Rightarrow> (Inl (e, \<lparr>pp_step_index = i, pp_trace = trace\<rparr>), w1)
      | (Inr False, w1) \<Rightarrow>
          steps_loop E c r t start (i + 1) ss outs (trace @ [trace_skipped (st_id s)]) w1
      | (Inr True, w1) \<Rightarrow>
          (case run_action E c r s t outs w1 of
             (Inl e, w2) \<Rightarrow> (Inl (e, \<lparr>pp_step_index = i, pp_trace = trace\<rparr>), w2)
           | (Inr (StepCompleted out), w2) \<Rightarrow>
               steps_loop E c r t start (i + 1) ss (hput (st_id s) out outs)
                 (trace @ [trace_completed (st_id s) out]) w2
           | (Inr (StepSuspended token), w2) \<Rightarrow>
               (Inr \<lparr>er_approval_token = Some token, er_step_index = i, er_step_outputs = outs,
                     er_trace = trace\<rparr>, w2)
           | (Inr StepSkipped, w2) \<Rightarrow>
               steps_loop E c r t start (i + 1) ss outs (trace @ [trace_skipped (st_id s)]) w2))"

definition execute_steps ::
  "('ctx, 'm) run_env_scheme \<Rightarrow> uuid \<Rightarrow> uuid \<Rightarrow> WorkflowDef \<Rightarrow> TriggerContext \<Rightarrow> nat \<Rightarrow> outputs option \<Rightarrow>
   world \<Rightarrow> run_result \<times> world" where
  "execute_steps E c r d t start initial w =
     steps_loop E c r t start 0 (wd_steps d)
       (case initial of Some outs \<Rightarrow> outs | None \<Rightarrow> []) [] w"

text \<open>The permit is taken without waiting and goes back when the run ends.\<close>

definition with_permit ::
  "(world \<Rightarrow> run_result \<times> world) \<Rightarrow> world \<Rightarrow> run_result \<times> world" where
  "with_permit body w =
     (if w_permits w = 0 then (Inl (CapacityExceeded, PartialProgress_default), w)
      else case body (w\<lparr>w_permits := w_permits w - 1\<rparr>) of
             (r, w') \<Rightarrow> (r, w'\<lparr>w_permits := w_permits w' + 1\<rparr>))"

definition from_db :: "DbError \<Rightarrow> WorkflowError" where
  "from_db e = DatabaseError (db_error_text e)"

definition execute_run ::
  "('ctx, 'm) run_env_scheme \<Rightarrow> uuid \<Rightarrow> uuid \<Rightarrow> WorkflowDef \<Rightarrow> TriggerContext \<Rightarrow> world \<Rightarrow>
   run_result \<times> world" where
  "execute_run E c r d t =
     with_permit (\<lambda>w.
       case statement E (update_workflow_run (clock E (moment w)) c r Running 0 (JArray []) None) w of
         (Inl e, w1) \<Rightarrow> (Inl (from_db e, PartialProgress_default), w1)
       | (Inr _, w1) \<Rightarrow> execute_steps E c r d t 0 None w1)"

text \<open>\<open>start_index as i32\<close>: the low 32 bits, read as a signed number.\<close>

definition as_i32 :: "nat \<Rightarrow> int" where
  "as_i32 n = (int n + 2 ^ 31) mod 2 ^ 32 - 2 ^ 31"

definition execute_from_step ::
  "('ctx, 'm) run_env_scheme \<Rightarrow> uuid \<Rightarrow> uuid \<Rightarrow> WorkflowDef \<Rightarrow> TriggerContext \<Rightarrow> nat \<Rightarrow> outputs option \<Rightarrow>
   world \<Rightarrow> run_result \<times> world" where
  "execute_from_step E c r d t start initial =
     with_permit (\<lambda>w.
       case query E (get_workflow_run c r) w of
         (row, w1) \<Rightarrow>
           (let existing_trace = (case row of Inr run \<Rightarrow> rr_execution_trace run | Inl _ \<Rightarrow> JArray [])
            in case statement E (update_workflow_run (clock E (moment w1)) c r Running (as_i32 start)
                                   existing_trace None) w1 of
                 (Inl e, w2) \<Rightarrow> (Inl (from_db e, PartialProgress_default), w2)
               | (Inr _, w2) \<Rightarrow> execute_steps E c r d t start initial w2))"

definition finalize_run ::
  "('ctx, 'm) run_env_scheme \<Rightarrow> uuid \<Rightarrow> uuid \<Rightarrow> run_result \<Rightarrow> json list option \<Rightarrow> world \<Rightarrow> world" where
  "finalize_run E c r result existing w =
     (let prefix = (case existing of Some xs \<Rightarrow> xs | None \<Rightarrow> []); now = clock E (moment w)
      in case result of
           Inr res \<Rightarrow>
             (let trace_json = JArray (prefix @ er_trace res); step_count = as_i32 (er_step_index res)
              in if er_approval_token res \<noteq> None
                 then snd (statement E (update_workflow_run now c r Failed step_count trace_json
                        (Some (''approval gates not yet implemented '' @ em_dash @ '' see WF-08''))) w)
                 else snd (statement E (update_workflow_run now c r Completed step_count trace_json
                        None) w))
         | Inl (e, progress) \<Rightarrow>
             snd (statement E (update_workflow_run now c r Failed (as_i32 (pp_step_index progress))
                    (JArray (prefix @ pp_trace progress)) (Some (error_text e))) w))"

text \<open>The body of the task that every trigger spawns.\<close>

definition run_task ::
  "('ctx, 'm) run_env_scheme \<Rightarrow> uuid \<Rightarrow> uuid \<Rightarrow> WorkflowDef \<Rightarrow> TriggerContext \<Rightarrow> world \<Rightarrow> world" where
  "run_task E c r d t w =
     (case execute_run E c r d t w of (result, w') \<Rightarrow> finalize_run E c r result None w')"

subsection \<open>What a run may do to the outside\<close>

text \<open>
  A policy for one run: an invariant of the tables that the other tasks and the run's own updates
  keep, and the effects that are allowed. It accepts what the actions do under their checks; then
  everything the run logs is allowed, whatever the outside answers and wherever a timeout drops an
  action.
\<close>

locale run_policy =
  fixes E :: "('ctx, 'm) run_env_scheme" and c r :: uuid
    and I :: "wf_tables \<Rightarrow> bool" and P :: "effect \<Rightarrow> bool"
  assumes others_keep: "I T \<Longrightarrow> I (interfere E n T)"
    and update_keeps: "I T \<Longrightarrow> I (snd (update_workflow_run now c r status step trace err T))"
    and quiet: "P Statement" "P Evaluation" "P ChunkRead" "P (Resolved host port)"
      "P (ReactionCall q)"
    and short_sleep: "secs \<le> MAX_DELAY_SECS \<Longrightarrow> P (Slept secs)"
    and public_call: "\<not> is_private_ip ip \<Longrightarrow> hr_resolve q = Some (host, ip, port) \<Longrightarrow> P (HttpCall q)"
    and bound_message: "I T \<Longrightarrow> I T' \<Longrightarrow> get_workflow_run c r T = Inr run \<Longrightarrow>
      get_workflow c (rr_workflow_id run) T' = Inr wfl \<Longrightarrow>
      resolve_send_message_channel E override trig (wr_channel_id wfl) = Inr ch \<Longrightarrow>
      P (MessageSent c ch msg (hex_encode E (wr_owner_pubkey wfl)))"
begin

definition allowed :: "world \<Rightarrow> world \<Rightarrow> bool" where
  "allowed w w' \<longleftrightarrow> I (w_tables w') \<and> (\<exists>es. w_log w' = w_log w @ es \<and> list_all P es)"

definition safe :: "'a io \<Rightarrow> ('a \<Rightarrow> bool) \<Rightarrow> bool" where
  "safe m Q \<longleftrightarrow> (\<forall>w. I (w_tables w) \<longrightarrow> allowed w (snd (m w)) \<and> (\<forall>x. fst (m w) = Done x \<longrightarrow> Q x))"

lemma allowed_refl [simp]: "allowed w w \<longleftrightarrow> I (w_tables w)"
  by (simp add: allowed_def)

lemma allowed_trans: "allowed w w' \<Longrightarrow> allowed w' w'' \<Longrightarrow> allowed w w''"
  by (auto simp: allowed_def)

lemma allowed_noted [simp]: "allowed w (noted e w) \<longleftrightarrow> I (w_tables w) \<and> P e"
  by (auto simp: allowed_def noted_def)

lemma allowedD: "allowed w w' \<Longrightarrow> I (w_tables w')"
  by (simp add: allowed_def)

lemma allowed_statement:
  assumes "I (w_tables w)" and "\<And>T. I T \<Longrightarrow> I (snd (f T))"
  shows "allowed w (snd (statement E f w))"
  using assms others_keep quiet(1)
  by (auto simp: allowed_def statement_def noted_def Let_def split: db_fault.split prod.split)
    (metis snd_conv)

lemma statement_value:
  assumes "I (w_tables w)" and "fst (statement E f w) = Inr x"
  shows "\<exists>T. I T \<and> fst (f T) = Inr x"
  using assms others_keep [OF assms(1), of "moment w"]
  by (intro exI [of _ "interfere E (moment w) (w_tables w)"])
    (auto simp: statement_def Let_def split: db_fault.splits prod.splits)

lemma safe_of: "(\<And>x. m = Inr x \<Longrightarrow> Q x) \<Longrightarrow> safe (io_of m) Q"
  by (auto simp: safe_def io_of_def split: sum.split)

lemma safe_bind:
  assumes "safe m Q" and "\<And>x. Q x \<Longrightarrow> safe (f x) R"
  shows "safe (io_bind m f) R"
  unfolding safe_def
proof (intro allI impI)
  fix w :: world
  assume "I (w_tables w)"
  moreover obtain o1 w1 where m: "m w = (o1, w1)" by fastforce
  ultimately have 1: "allowed w w1" "\<And>x. o1 = Done x \<Longrightarrow> Q x"
    using assms(1) by (auto simp: safe_def)
  show "allowed w (snd (io_bind m f w)) \<and> (\<forall>x. fst (io_bind m f w) = Done x \<longrightarrow> R x)"
  proof (cases o1)
    case (Done x)
    with 1 have "safe (f x) R" using assms(2) by blast
    then show ?thesis using 1(1) allowedD [OF 1(1)] allowed_trans
      by (auto simp: safe_def io_bind_def m Done)
  qed (simp_all add: io_bind_def m 1)
qed

lemma safe_awaits: "safe op Q \<Longrightarrow> safe (awaits E op) Q"
  by (simp add: safe_def awaits_def)

lemma safe_ask:
  assumes "P e" and "\<And>n x. reply n = Inr x \<Longrightarrow> Q x"
  shows "safe (ask E e reply) Q"
  unfolding ask_def using assms
  by (intro safe_awaits) (auto simp: safe_def io_of_def split: sum.split)

lemma safe_query:
  assumes "\<And>T x. I T \<Longrightarrow> f T = Inr x \<Longrightarrow> Q x"
  shows "safe (io_query E f err) Q"
  unfolding io_query_def
proof (rule safe_awaits, unfold safe_def, intro allI impI)
  fix w :: world
  assume I: "I (w_tables w)"
  obtain r1 w1 where q: "query E f w = (r1, w1)" by fastforce
  then have "allowed w w1"
    using allowed_statement [OF I, of "\<lambda>T. (f T, T)"] by (simp add: query_def)
  moreover have "Q x" if "r1 = Inr x" for x
    using statement_value [OF I, of "\<lambda>T. (f T, T)" x] q that assms by (auto simp: query_def)
  ultimately show "allowed w (snd (case query E f w of (Inl e, w') \<Rightarrow> (Broken (err e), w')
        | (Inr x, w') \<Rightarrow> (Done x, w'))) \<and>
      (\<forall>x. fst (case query E f w of (Inl e, w') \<Rightarrow> (Broken (err e), w')
        | (Inr x, w') \<Rightarrow> (Done x, w')) = Done x \<longrightarrow> Q x)"
    by (auto simp: q split: sum.split)
qed

lemma safe_check_ssrf: "safe (check_ssrf E host port) (\<lambda>ip. \<not> is_private_ip ip)"
  unfolding check_ssrf_def
  by (rule safe_bind [where Q = "\<lambda>_. True"])
    (auto intro!: safe_ask safe_of quiet simp: find_None_iff split: list.split option.split)

lemma safe_read_chunks: "safe (read_chunks E body cs) (\<lambda>_. True)"
  by (induction cs arbitrary: body)
    (auto intro!: safe_bind [where Q = "\<lambda>_. True"] safe_ask safe_of quiet)

lemma safe_call_webhook: "safe (call_webhook_impl E url m hs body) (\<lambda>_. True)"
proof -
  have build: "safe (\<lambda>w. io_of (webhook_error (client_build E (moment w))) w) (\<lambda>_. True)"
    by (auto simp: safe_def io_of_def split: sum.split)
  show ?thesis
    unfolding call_webhook_impl_def Let_def
    by (intro safe_bind [where Q = "\<lambda>_. True"] safe_bind [OF safe_check_ssrf] safe_ask safe_of
        safe_read_chunks build TrueI public_call) simp_all
qed

lemma safe_add_reaction: "safe (add_reaction_impl E i emoji) (\<lambda>_. True)"
  unfolding add_reaction_impl_def Let_def
  by (auto intro!: safe_bind [where Q = "\<lambda>_. True"] safe_ask safe_of quiet)

lemma safe_send_message: "safe (dispatch_send_message E msg channel c r t) (\<lambda>_. True)"
  unfolding dispatch_send_message_def
  apply (rule safe_bind [where Q = "\<lambda>run. \<exists>T. I T \<and> get_workflow_run c r T = Inr run"])
   apply (rule safe_query, blast)
  apply (rule_tac Q = "\<lambda>wfl. \<exists>T. I T \<and> get_workflow c (rr_workflow_id x) T = Inr wfl" in safe_bind)
   apply (rule safe_query, blast)
  apply (rule_tac Q = "\<lambda>ch. resolve_send_message_channel E channel (tc_channel_id t)
                         (wr_channel_id xa) = Inr ch" in safe_bind)
   apply (rule safe_of, assumption)
  apply (rule safe_bind [where Q = "\<lambda>_. True"])
   apply (rule safe_of, simp)
  apply (rule safe_bind [where Q = "\<lambda>_. True"])
   apply (rule safe_ask, blast intro: bound_message, simp)
  apply (rule safe_of, simp)
  done

lemma safe_dispatch: "safe (dispatch_action E action c r t) (\<lambda>_. True)"
proof (cases action)
  case (Delay d)
  then show ?thesis
    by (auto simp: dispatch_action_def
        intro!: safe_bind [where Q = "\<lambda>_. True"] safe_of safe_ask safe_awaits short_sleep)
next
  case (RequestApproval a b d)
  then show ?thesis by (simp add: dispatch_action_def safe_def)
qed (auto simp: dispatch_action_def intro!: safe_of safe_send_message
       safe_bind [OF safe_add_reaction] safe_bind [OF safe_call_webhook])

end

context run_policy begin

lemma allowed_condition:
  "I (w_tables w) \<Longrightarrow> step_condition E s t outs w = (x, w') \<Longrightarrow> allowed w w'"
  by (auto simp: step_condition_def quiet split: option.splits)

lemma allowed_action:
  assumes "I (w_tables w)" and "run_action E c r s t outs w = (x, w')"
  shows "allowed w w'"
proof (cases "resolve_step_templates E s t outs")
  case (Inl e)
  with assms show ?thesis by (simp add: run_action_def)
next
  case (Inr action)
  then have "w' = snd (dispatch_action E action c r t w)"
    using assms(2) by (auto simp: run_action_def Let_def split: prod.splits outcome.splits)
  with assms(1) safe_dispatch show ?thesis by (simp add: safe_def)
qed

lemma allowed_steps:
  "I (w_tables w) \<Longrightarrow> allowed w (snd (steps_loop E c r t start i ss outs trace w))"
proof (induction ss arbitrary: i outs trace w)
  case (Cons s ss)
  note IH = Cons.IH and I = Cons.prems
  show ?case
  proof (cases "i < start")
    case True
    with IH I show ?thesis by simp
  next
    case False
    obtain b w1 where cond: "step_condition E s t outs w = (b, w1)" by fastforce
    obtain x w2 where act: "run_action E c r s t outs w1 = (x, w2)" by fastforce
    have w1: "allowed w w1" using allowed_condition [OF I cond] .
    note w2 = allowed_trans [OF w1 allowed_action [OF allowedD [OF w1] act]]
    show ?thesis
      using False cond act w1 w2 IH [OF allowedD [OF w1]] IH [OF allowedD [OF w2]]
      by (auto split: sum.split bool.split StepResult.split intro: allowed_trans)
  qed
qed simp

lemma allowed_permits [simp]:
  "allowed (w\<lparr>w_permits := n\<rparr>) w' = allowed w w'"
  "allowed w (w'\<lparr>w_permits := n\<rparr>) = allowed w w'"
  by (simp_all add: allowed_def)

lemma allowed_with_permit:
  assumes "\<And>w. I (w_tables w) \<Longrightarrow> allowed w (snd (body w))" and "I (w_tables w)"
  shows "allowed w (snd (with_permit body w))"
  using assms(1) [of "w\<lparr>w_permits := w_permits w - 1\<rparr>"] assms(2)
  by (auto simp: with_permit_def split: prod.split)

lemma allowed_update:
  "I (w_tables w) \<Longrightarrow>
     allowed w (snd (statement E (update_workflow_run now c r status step trace err) w))"
  by (rule allowed_statement) (simp_all add: update_keeps)

lemma allowed_execute_run: "I (w_tables w) \<Longrightarrow> allowed w (snd (execute_run E c r d t w))"
  unfolding execute_run_def
proof (rule allowed_with_permit)
  fix w :: world
  assume I: "I (w_tables w)"
  show "allowed w (snd (case statement E
          (update_workflow_run (clock E (moment w)) c r Running 0 (JArray []) None) w of
        (Inl e, w1) \<Rightarrow> (Inl (from_db e, PartialProgress_default), w1)
      | (Inr _, w1) \<Rightarrow> execute_steps E c r d t 0 None w1))"
    using allowed_update [OF I]
    by (auto simp: execute_steps_def split: prod.split sum.split
        intro: allowed_trans allowed_steps dest: allowedD)
      (metis allowed_steps allowed_trans allowedD snd_conv)+
qed

lemma allowed_execute_from_step:
  "I (w_tables w) \<Longrightarrow> allowed w (snd (execute_from_step E c r d t start initial w))"
  unfolding execute_from_step_def
proof (rule allowed_with_permit)
  fix w :: world
  assume I: "I (w_tables w)"
  obtain row w1 where q: "query E (get_workflow_run c r) w = (row, w1)" by fastforce
  have w1: "allowed w w1"
    using allowed_statement [OF I, of "\<lambda>T. (get_workflow_run c r T, T)"] q by (simp add: query_def)
  define trace where "trace = (case row of Inr run \<Rightarrow> rr_execution_trace run | Inl _ \<Rightarrow> JArray [])"
  obtain x w2 where u: "statement E (update_workflow_run (clock E (moment w1)) c r Running
      (as_i32 start) trace None) w1 = (x, w2)" by fastforce
  have "allowed w1 w2" using allowed_update [OF allowedD [OF w1]] u by (metis snd_conv)
  with w1 have w2: "allowed w w2" by (rule allowed_trans)
  show "allowed w (snd (case query E (get_workflow_run c r) w of
      (row, w1) \<Rightarrow>
        (let existing_trace = (case row of Inr run \<Rightarrow> rr_execution_trace run | Inl _ \<Rightarrow> JArray [])
         in case statement E (update_workflow_run (clock E (moment w1)) c r Running (as_i32 start)
                                existing_trace None) w1 of
              (Inl e, w2) \<Rightarrow> (Inl (from_db e, PartialProgress_default), w2)
            | (Inr _, w2) \<Rightarrow> execute_steps E c r d t start initial w2)))"
    using w2 allowed_trans [OF w2 allowed_steps [OF allowedD [OF w2]]]
    by (simp add: q u [unfolded trace_def] execute_steps_def Let_def split: sum.split)
qed

lemma allowed_finalize:
  assumes "I (w_tables w)"
  shows "allowed w (finalize_run E c r result existing w)"
  using allowed_update [OF assms]
  by (simp add: finalize_run_def Let_def split: sum.split prod.split)

lemma allowed_run_task: "I (w_tables w) \<Longrightarrow> allowed w (run_task E c r d t w)"
  using allowed_execute_run [of w d t] allowed_finalize allowedD allowed_trans
  by (auto simp: run_task_def split: prod.split)

end




subsection \<open>Messages go to the channel of the workflow\<close>

text \<open>
  What ties a run to its workflow while both rows are there: no other task gives the workflow's
  UUID to another owner or channel (\<open>upsert_workflow\<close> refuses that for an existing row).
\<close>

definition bound_to :: "uuid \<Rightarrow> uuid \<Rightarrow> uuid \<Rightarrow> uuid \<Rightarrow> string \<Rightarrow> wf_tables \<Rightarrow> bool" where
  "bound_to c r wid wch owner T \<longleftrightarrow>
     (\<forall>run. hget (t_runs T) (c, r) = Some run \<longrightarrow> rr_workflow_id run = wid) \<and>
     (\<forall>wfl. hget (t_workflows T) (c, wid) = Some wfl \<longrightarrow>
        wr_channel_id wfl = Some wch \<and> wr_owner_pubkey wfl = owner)"

definition kept_by_others :: "('ctx, 'm) run_env_scheme \<Rightarrow> (wf_tables \<Rightarrow> bool) \<Rightarrow> bool" where
  "kept_by_others E B \<longleftrightarrow> (\<forall>n T. B T \<longrightarrow> B (interfere E n T))"

fun posts_only :: "uuid \<Rightarrow> string \<Rightarrow> string \<Rightarrow> effect \<Rightarrow> bool" where
  "posts_only c ch author (MessageSent c' ch' _ author') = (c' = c \<and> ch' = ch \<and> author' = author)"
| "posts_only c ch author _ = True"

lemma bound_to_update:
  "bound_to c r wid wch owner T \<Longrightarrow>
     bound_to c r wid wch owner (snd (update_workflow_run now c r status step trace err T))"
  by (cases "hget (t_runs T) (c, r)")
    (simp_all add: bound_to_def update_workflow_run_def update_run_row_def)

lemma bound_to_upsert:
  assumes "bound_to c r wid wch owner T" and "hget (t_workflows T) (c, wid) \<noteq> None"
  shows "bound_to c r wid wch owner (snd (upsert_workflow jsonb now c i ch own name text hash T))"
proof -
  define T' where "T' = snd (upsert_workflow jsonb now c i ch own name text hash T)"
  obtain row where row: "hget (t_workflows T) (c, wid) = Some row" using assms(2) by blast
  then have bound: "wr_channel_id row = Some wch" "wr_owner_pubkey row = owner"
    using assms(1) by (auto simp: bound_to_def)
  have "t_runs T' = t_runs T"
    by (simp add: T'_def upsert_workflow_def split: sum.split option.split)
  moreover have "\<exists>row'. hget (t_workflows T') (c, wid) = Some row' \<and>
      wr_channel_id row' = wr_channel_id row \<and> wr_owner_pubkey row' = wr_owner_pubkey row"
    unfolding T'_def using row
    by (cases "i = wid") (simp_all add: upsert_workflow_def split: sum.split option.split)
  ultimately show ?thesis
    using assms(1) bound unfolding T'_def [symmetric] bound_to_def by auto
qed

interpretation posting: run_policy E c r
  "\<lambda>T. kept_by_others E (bound_to c r wid wch owner) \<and> bound_to c r wid wch owner T"
  "posts_only c wch (hex_encode E owner)" for E c r wid wch owner
proof
  fix T T' run wfl override trig ch msg
  assume "kept_by_others E (bound_to c r wid wch owner) \<and> bound_to c r wid wch owner T"
    and "kept_by_others E (bound_to c r wid wch owner) \<and> bound_to c r wid wch owner T'"
    and run: "get_workflow_run c r T = Inr run"
    and wfl: "get_workflow c (rr_workflow_id run) T' = Inr wfl"
    and ch: "resolve_send_message_channel E override trig (wr_channel_id wfl) = Inr ch"
  then have "wr_channel_id wfl = Some wch" "wr_owner_pubkey wfl = owner"
    by (auto simp: bound_to_def get_workflow_run_def get_workflow_def split: option.splits)
  with ch show "posts_only c wch (hex_encode E owner)
      (MessageSent c ch msg (hex_encode E (wr_owner_pubkey wfl)))"
    by (auto dest: send_message_channel_bound)
qed (auto simp: kept_by_others_def intro: bound_to_update)

text \<open>C18. A run of a workflow that belongs to a channel posts only into that channel and only in the
  name of the workflow's owner: neither a channel override in the definition nor a value
  substituted by a template can direct a message elsewhere.\<close>

theorem run_posts_to_its_channel:
  assumes "bound_to c r wid wch owner (w_tables w)"
    and "kept_by_others E (bound_to c r wid wch owner)"
  shows "\<exists>es. w_log (run_task E c r d t w) = w_log w @ es \<and>
     list_all (posts_only c wch (hex_encode E owner)) es"
  using posting.allowed_run_task [where w = w and E = E and c = c and r = r and d = d and t = t
      and wid = wid and wch = wch and owner = owner] assms
  unfolding posting.allowed_def by blast

subsection \<open>A step that stops the run is the last one looked at\<close>

fun stopped_at :: "run_result \<Rightarrow> nat option" where
  "stopped_at (Inl (_, p)) = Some (pp_step_index p)"
| "stopped_at (Inr res) =
     (if er_approval_token res = None then None else Some (er_step_index res))"

lemma steps_loop_stops:
  assumes "steps_loop E c r t start i ss outs trace w = (res, w')" and "stopped_at res = Some k"
  shows "i \<le> k \<and> k < i + length ss \<and>
     (\<forall>ss'. take (Suc k - i) ss' = take (Suc k - i) ss \<longrightarrow>
        steps_loop E c r t start i ss' outs trace w = (res, w'))"
  using assms
proof (induction ss arbitrary: i outs trace w)
  case (Cons s ss)
  have next_step: ?case
    if step: "\<And>ss. steps_loop E c r t start i (s # ss) outs trace w =
          steps_loop E c r t start (i + 1) ss outs1 trace1 w1" for outs1 trace1 w1
  proof -
    from Cons.prems step have "steps_loop E c r t start (i + 1) ss outs1 trace1 w1 = (res, w')" by simp
    from Cons.IH [OF this Cons.prems(2)] have IH: "i + 1 \<le> k" "k < i + 1 + length ss"
      "\<And>ss'. take (k - i) ss' = take (k - i) ss \<Longrightarrow>
         steps_loop E c r t start (i + 1) ss' outs1 trace1 w1 = (res, w')"
      by auto
    have "steps_loop E c r t start i ss' outs trace w = (res, w')"
      if "take (Suc k - i) ss' = take (Suc k - i) (s # ss)" for ss'
    proof -
      from that IH(1) obtain ss2 where "ss' = s # ss2" "take (k - i) ss2 = take (k - i) ss"
        by (cases ss') (auto simp: Suc_diff_le)
      with IH(3) step show ?thesis by simp
    qed
    with IH show ?thesis by simp
  qed
  have this_step: ?case
    if step: "\<And>ss. steps_loop E c r t start i (s # ss) outs trace w = (res, w')" and "k = i"
  proof -
    have "steps_loop E c r t start i ss' outs trace w = (res, w')"
      if "take (Suc k - i) ss' = take (Suc k - i) (s # ss)" for ss'
      using that step \<open>k = i\<close> by (cases ss') auto
    with \<open>k = i\<close> show ?thesis by simp
  qed
  show ?case
  proof (cases "i < start")
    case True
    then show ?thesis by (intro next_step) simp
  next
    case False
    obtain b w1 where cond: "step_condition E s t outs w = (b, w1)" by fastforce
    show ?thesis
    proof (cases b)
      case (Inl e)
      then show ?thesis using False cond Cons.prems by (intro this_step) auto
    next
      case (Inr go)
      show ?thesis
      proof (cases go)
        case F: False
        then show ?thesis using False cond Inr by (intro next_step) simp
      next
        case T: True
        obtain x w2 where act: "run_action E c r s t outs w1 = (x, w2)" by fastforce
        show ?thesis
        proof (cases x)
          case (Inl e)
          then show ?thesis using False cond Inr T act Cons.prems by (intro this_step) auto
        next
          case x: (Inr sr)
          show ?thesis
          proof (cases sr)
            case (StepSuspended token)
            then show ?thesis using False cond Inr T act x Cons.prems by (intro this_step) auto
          qed (use False cond Inr T act x in \<open>intro next_step, simp\<close>)+
        qed
      qed
    qed
  qed
qed auto

text \<open>When a step fails or asks for approval the run stops there: the result, the tables and
  everything done to the outside are the same whatever the later steps of the definition are.\<close>

theorem stopped_run_ignores_later_steps:
  assumes "execute_steps E c r (d\<lparr>wd_steps := ss\<rparr>) t start initial w = (res, w')"
    and "stopped_at res = Some k" and "take (Suc k) ss' = take (Suc k) ss"
  shows "execute_steps E c r (d\<lparr>wd_steps := ss'\<rparr>) t start initial w = (res, w')"
  using steps_loop_stops [of E c r t start 0 ss _ "[]" w res w' k] assms
  by (simp add: execute_steps_def)

subsection \<open>The trace accounts for every step\<close>

definition entry_for :: "Step \<Rightarrow> json \<Rightarrow> bool" where
  "entry_for s e \<longleftrightarrow>
     e = trace_skipped (st_id s) \<or> (\<exists>out. e = trace_completed (st_id s) out)"

fun result_end :: "run_result \<Rightarrow> nat \<times> json list" where
  "result_end (Inl (_, p)) = (pp_step_index p, pp_trace p)"
| "result_end (Inr res) = (er_step_index res, er_trace res)"

lemma steps_loop_trace:
  assumes "steps_loop E c r t start i ss outs trace w = (res, w')"
  shows "\<exists>n es. n \<le> length ss \<and> result_end res = (i + n, trace @ es) \<and>
     list_all2 entry_for (drop (start - i) (take n ss)) es \<and>
     (stopped_at res = None \<longrightarrow> n = length ss)"
  using assms
proof (induction ss arbitrary: i outs trace w)
  case Nil
  then show ?case by (intro exI [of _ 0] exI [of _ "[]"]) auto
next
  case (Cons s ss)
  have next_step: ?case
    if step: "steps_loop E c r t start (i + 1) ss outs1 (trace @ e1) w1 = (res, w')"
      and e1: "if i < start then e1 = [] else \<exists>e. e1 = [e] \<and> entry_for s e" for outs1 e1 w1
  proof -
    from Cons.IH [OF step] obtain n es where IH: "n \<le> length ss"
      "result_end res = (i + 1 + n, (trace @ e1) @ es)"
      "list_all2 entry_for (drop (start - (i + 1)) (take n ss)) es"
      "stopped_at res = None \<longrightarrow> n = length ss" by (elim exE conjE) (rule that)
    have "list_all2 entry_for (drop (start - i) (take (Suc n) (s # ss))) (e1 @ es)"
    proof (cases "i < start")
      case True
      then obtain k where "start - i = Suc k" "start - (i + 1) = k"
        by (metis Suc_diff_Suc Suc_eq_plus1)
      with IH(3) e1 True show ?thesis by simp
    next
      case False
      with IH(3) e1 show ?thesis by auto
    qed
    with IH show ?thesis by (intro exI [of _ "Suc n"] exI [of _ "e1 @ es"]) auto
  qed
  have stop_here: ?case if "result_end res = (i, trace)" "stopped_at res \<noteq> None"
    using that by (intro exI [of _ 0] exI [of _ "[]"]) auto
  show ?case
  proof (cases "i < start")
    case True
    with Cons.prems show ?thesis by (intro next_step [of outs "[]" w]) auto
  next
    case False
    obtain b w1 where cond: "step_condition E s t outs w = (b, w1)" by fastforce
    obtain x w2 where act: "run_action E c r s t outs w1 = (x, w2)" by fastforce
    have skip: ?thesis if "steps_loop E c r t start (i + 1) ss outs
        (trace @ [trace_skipped (st_id s)]) w3 = (res, w')" for w3
      using next_step [OF that] False by (simp add: entry_for_def)
    show ?thesis
    proof (cases b)
      case (Inl e)
      with Cons.prems False cond show ?thesis by (intro stop_here) auto
    next
      case (Inr go)
      show ?thesis
      proof (cases go)
        case F: False
        with Cons.prems False cond Inr show ?thesis by (intro skip) simp
      next
        case T: True
        show ?thesis
        proof (cases x)
          case (Inl e)
          with Cons.prems False cond \<open>b = Inr go\<close> T act show ?thesis by (intro stop_here) auto
        next
          case x: (Inr sr)
          show ?thesis
          proof (cases sr)
            case (StepCompleted out)
            with Cons.prems False cond Inr T act x show ?thesis
              by (intro next_step [of "hput (st_id s) out outs"
                    "[trace_completed (st_id s) out]" w2]) (auto simp: entry_for_def)
          next
            case (StepSuspended token)
            with Cons.prems False cond Inr T act x show ?thesis by (intro stop_here) auto
          next
            case StepSkipped
            with Cons.prems False cond Inr T act x show ?thesis by (intro skip) simp
          qed
        qed
      qed
    qed
  qed
qed

text \<open>C0. The trace of a run has exactly one entry, in order, for each step from the start up to the one
  that stopped it, saying that the step was skipped or what it returned; a run that was not stopped
  accounts for all steps.\<close>

theorem trace_accounts_for_steps:
  "case result_end (fst (execute_steps E c r d t start initial w)) of
     (n, trace) \<Rightarrow>
       n \<le> length (wd_steps d) \<and>
       list_all2 entry_for (drop start (take n (wd_steps d))) trace \<and>
       (n = length (wd_steps d) \<or> stopped_at (fst (execute_steps E c r d t start initial w)) = Some n)"
proof -
  obtain res w' where run: "execute_steps E c r d t start initial w = (res, w')" by fastforce
  then have "\<exists>n es. n \<le> length (wd_steps d) \<and> result_end res = (0 + n, [] @ es) \<and>
      list_all2 entry_for (drop (start - 0) (take n (wd_steps d))) es \<and>
      (stopped_at res = None \<longrightarrow> n = length (wd_steps d))"
    unfolding execute_steps_def by (rule steps_loop_trace)
  then obtain n es where n: "n \<le> length (wd_steps d)" "result_end res = (n, es)"
    "list_all2 entry_for (drop start (take n (wd_steps d))) es"
    "stopped_at res = None \<longrightarrow> n = length (wd_steps d)" by auto
  have "stopped_at res = None \<or> stopped_at res = Some n"
    using n(2) by (cases res rule: stopped_at.cases) auto
  with run n show ?thesis by auto
qed

text \<open>
  What a resumed run starts from: the outputs rebuilt from the stored trace
  (\<open>resume_workflow_after_approval\<close> of \<open>buzz-relay/src/handlers/command_executor.rs\<close>).
\<close>

definition restore_entry :: "json \<Rightarrow> outputs \<Rightarrow> outputs" where
  "restore_entry e m =
     (case (json_field e ''step_id'', json_field e ''output'') of
        (Some (JString i), Some out) \<Rightarrow> hput i out m
      | _ \<Rightarrow> m)"

definition restore_outputs :: "json list \<Rightarrow> outputs" where
  "restore_outputs entries = fold restore_entry entries []"

lemma restore_trace [simp]:
  "restore_entry (trace_skipped i) m = m"
  "restore_entry (trace_completed i out) m = hput i out m"
  by (simp_all add: restore_entry_def trace_skipped_def trace_completed_def json_field_def)

lemma steps_loop_outputs:
  assumes "steps_loop E c r t start i ss outs trace w = (Inr res, w')"
    and "outs = restore_outputs (pre @ trace)"
  shows "er_step_outputs res = restore_outputs (pre @ er_trace res)"
  using assms
proof (induction ss arbitrary: i outs trace w)
  case Nil
  then show ?case by auto
next
  case (Cons s ss)
  show ?case
  proof (cases "i < start")
    case True
    with Cons show ?thesis by simp
  next
    case False
    obtain b w1 where cond: "step_condition E s t outs w = (b, w1)" by fastforce
    obtain x w2 where act: "run_action E c r s t outs w1 = (x, w2)" by fastforce
    have skipped: "restore_outputs (pre @ trace) =
        restore_outputs (pre @ trace @ [trace_skipped (st_id s)])"
      by (simp add: restore_outputs_def)
    have completed: "hput (st_id s) out (restore_outputs (pre @ trace)) =
        restore_outputs (pre @ trace @ [trace_completed (st_id s) out])" for out
      by (simp add: restore_outputs_def)
    from Cons.prems False cond act show ?thesis
      by (auto split: sum.splits bool.splits StepResult.splits
          intro: Cons.IH [OF _ skipped] Cons.IH [OF _ completed])
  qed
qed

text \<open>C28. Resuming loses nothing: the outputs rebuilt from the stored trace are exactly the outputs the
  run had when it stopped, for a first run and for every later one.\<close>

theorem resume_restores_outputs:
  assumes "execute_steps E c r d t start (Some (restore_outputs pre)) w = (Inr res, w')"
  shows "restore_outputs (pre @ er_trace res) = er_step_outputs res"
  using steps_loop_outputs [of E c r t start 0 "wd_steps d" _ "[]" w res w' pre] assms
  by (simp add: execute_steps_def)

subsection \<open>Every run ends\<close>





subsection \<open>A concrete run\<close>

definition demo_env :: "demo_ctx run_env" where
  "demo_env = text_env.extend demo_text_env
     (run_env.fields (\<lambda>_. NoFault) (\<lambda>_ T. T) (\<lambda>n. int n) (\<lambda>n. ''run'' @ dec n) (\<lambda>_. False)
        (\<lambda>s. s) True (\<lambda>_. Inr ''event'') (\<lambda>_. Inl ''no url'') Inr (\<lambda>_. Inr ())
        (\<lambda>_. DnsFailed ''no dns'') (\<lambda>_. Inl ''no http'') (\<lambda>s. s) (\<lambda>_. ''ip'') dec (\<lambda>_. None)
        (\<lambda>_. None) (\<lambda>_. Inl ''no definition'') (\<lambda>_. Inr JNull) (\<lambda>_. None) 100 300)"

definition demo_step :: "string \<Rightarrow> string option \<Rightarrow> ActionDef \<Rightarrow> Step" where
  "demo_step i cond a =
     \<lparr>st_id = i, st_name = None, st_if = cond, st_timeout_secs = None, st_action = a\<rparr>"

definition demo_def :: WorkflowDef where
  "demo_def =
     \<lparr>wd_name = ''greet'', wd_description = None, wd_trigger = MessagePosted None,
      wd_steps = [demo_step ''say'' None (SendMessage ''got {{trigger.text}}'' None),
                  demo_step ''gate'' None (RequestApproval ''any'' ''ok?'' None)],
      wd_enabled = True\<rparr>"

definition demo_run_tables :: wf_tables where
  "demo_run_tables = demo_tables
     \<lparr>t_workflows := [((''c'', ''w''), new_workflow ''c'' ''w'' (Some ''ch'') ''o'' ''greet'' JNull ''h'' 0)],
      t_runs := [((''c'', ''r''),
        \<lparr>rr_id = ''r'', rr_community_id = ''c'', rr_workflow_id = ''w'', rr_status = Pending,
         rr_trigger_event_id = None, rr_current_step = 0, rr_execution_trace = JArray [],
         rr_trigger_context = None, rr_started_at = None, rr_completed_at = None,
         rr_error_message = None, rr_created_at = 0\<rparr>)]\<rparr>"

definition demo_world :: world where
  "demo_world = \<lparr>w_tables = demo_run_tables, w_log = [], w_permits = 1\<rparr>"

lemma demo_env_quiet [simp]:
  "db_fault demo_env n = NoFault" "interfere demo_env n T = T"
  by (simp_all add: demo_env_def text_env.defs run_env.defs demo_text_env_def)

lemma run_posts_to_its_channel_witness:
  "bound_to ''c'' ''r'' ''w'' ''ch'' ''o'' (w_tables demo_world) \<and>
   (\<exists>es. w_log (run_task demo_env ''c'' ''r'' demo_def demo_trigger demo_world) =
       w_log demo_world @ es \<and>
     list_all (posts_only ''c'' ''ch'' (hex_encode demo_env ''o'')) es)"
proof
  show bound: "bound_to ''c'' ''r'' ''w'' ''ch'' ''o'' (w_tables demo_world)"
    by (simp add: bound_to_def demo_world_def demo_run_tables_def new_workflow_def)
  show "\<exists>es. w_log (run_task demo_env ''c'' ''r'' demo_def demo_trigger demo_world) =
       w_log demo_world @ es \<and>
     list_all (posts_only ''c'' ''ch'' (hex_encode demo_env ''o'')) es"
    by (rule run_posts_to_its_channel [OF bound]) (simp add: kept_by_others_def)
qed

lemma demo_run_stops:
  "(\<lambda>(res, w). (stopped_at res, snd (result_end res) = [], isl res))
     (execute_steps demo_env ''c'' ''r'' demo_def demo_trigger 0 (Some (restore_outputs [])) demo_world)
     = (Some 1, False, False)"
  by code_simp

lemma demo_run_suspends:
  obtains res w where
    "execute_steps demo_env ''c'' ''r'' demo_def demo_trigger 0 (Some (restore_outputs [])) demo_world
       = (Inr res, w)"
    and "stopped_at (Inr res) = Some 1"
proof -
  obtain x w where x: "execute_steps demo_env ''c'' ''r'' demo_def demo_trigger 0
      (Some (restore_outputs [])) demo_world = (x, w)" by fastforce
  with demo_run_stops have "stopped_at x = Some 1" "\<not> isl x" by auto
  with x show thesis by (cases x) (auto intro: that)
qed

lemma stopped_run_ignores_later_steps_witness:
  "\<exists>res w. stopped_at res = Some 1 \<and>
     execute_steps demo_env ''c'' ''r''
       (demo_def\<lparr>wd_steps := wd_steps demo_def @ [demo_step ''late'' None (Delay ''1s'')]\<rparr>)
       demo_trigger 0 (Some (restore_outputs [])) demo_world = (res, w)"
proof -
  obtain res w where run: "execute_steps demo_env ''c'' ''r'' demo_def demo_trigger 0
      (Some (restore_outputs [])) demo_world = (Inr res, w)" and stop: "stopped_at (Inr res) = Some 1"
    by (rule demo_run_suspends)
  from run have run': "execute_steps demo_env ''c'' ''r'' (demo_def\<lparr>wd_steps := wd_steps demo_def\<rparr>)
      demo_trigger 0 (Some (restore_outputs [])) demo_world = (Inr res, w)" by simp
  have same: "take (Suc 1) (wd_steps demo_def @ [demo_step ''late'' None (Delay ''1s'')]) =
      take (Suc 1) (wd_steps demo_def)" by (simp add: demo_def_def)
  from stopped_run_ignores_later_steps [OF run' stop same] stop show ?thesis by blast
qed

lemma resume_restores_outputs_witness:
  "\<exists>res. restore_outputs ([] @ er_trace res) = er_step_outputs res \<and>
     stopped_at (Inr res) = Some 1"
proof -
  obtain res w where run: "execute_steps demo_env ''c'' ''r'' demo_def demo_trigger 0
      (Some (restore_outputs [])) demo_world = (Inr res, w)" and stop: "stopped_at (Inr res) = Some 1"
    by (rule demo_run_suspends)
  from resume_restores_outputs [OF run] stop show ?thesis by blast
qed


end
