(* ===== verification/Workflow_Trigger.thy ===== *)
theory Workflow_Trigger
  imports Workflow_Run Kinds
begin

text \<open>
  What starts a run (\<open>buzz-workflow/src/lib.rs\<close>): the trigger context and the matching of an
  event, \<open>on_event\<close> with its cache, and the scheduler \<open>run\<close>, split at its durable claim: what a
  tick decides for a workflow, the claim, and what the winner of the claim does. \<open>chrono\<close>,
  \<open>cron\<close> and \<open>moka\<close> are parameters.
\<close>

subsection \<open>Events\<close>

definition find_map :: "('a \<Rightarrow> 'b option) \<Rightarrow> 'a list \<Rightarrow> 'b option" where
  "find_map f xs = (case filter (\<lambda>y. y \<noteq> None) (map f xs) of [] \<Rightarrow> None | y # _ \<Rightarrow> y)"

definition build_trigger_context :: "StoredEvent \<Rightarrow> TriggerContext" where
  "build_trigger_context se =
     (let ev = se_event se; content = ev_content ev;
          author = (case find_map (\<lambda>tag. if tag_kind tag = ''actor'' then tag_content tag else None)
                           (ev_tags ev) of
                      Some a \<Rightarrow> a | None \<Rightarrow> ev_pubkey ev);
          emoji = (if ev_kind ev = KIND_REACTION then content else []);
          message_id =
            (if ev_kind ev = KIND_REACTION
             then (case find_map (\<lambda>tag.
                       if tag_kind tag = ''e''
                       then (case tag_content tag of
                               Some v \<Rightarrow>
                                 (if length v = 64 \<and> list_all is_ascii_hexdigit v then Some v else None)
                             | None \<Rightarrow> None)
                       else None) (rev (ev_tags ev)) of
                     Some v \<Rightarrow> v | None \<Rightarrow> ev_id ev)
             else ev_id ev)
      in \<lparr>tc_text = content, tc_author = author,
          tc_channel_id = (case se_channel_id se of Some ch \<Rightarrow> ch | None \<Rightarrow> []),
          tc_timestamp = dec (ev_created_at ev), tc_emoji = emoji, tc_message_id = message_id,
          tc_webhook_fields = []\<rparr>)"

fun trigger_matches_event :: "TriggerDef \<Rightarrow> nat \<Rightarrow> bool" where
  "trigger_matches_event (MessagePosted _) kind = (kind = KIND_STREAM_MESSAGE)"
| "trigger_matches_event (ReactionAdded _) kind = (kind = KIND_REACTION)"
| "trigger_matches_event (DiffPosted _) kind = (kind = KIND_STREAM_MESSAGE_DIFF)"
| "trigger_matches_event (Schedule _ _) kind = False"
| "trigger_matches_event Webhook kind = False"

definition filter_passes ::
  "('ctx, 'm) run_env_scheme \<Rightarrow> string \<Rightarrow> TriggerContext \<Rightarrow> world \<Rightarrow> bool \<times> world" where
  "filter_passes E expr t w =
     ((case evaluate_condition E (moment w) expr t [] of Inr b \<Rightarrow> b | Inl _ \<Rightarrow> False),
      noted Evaluation w)"

definition should_fire_workflow ::
  "('ctx, 'm) run_env_scheme \<Rightarrow> WorkflowDef \<Rightarrow> TriggerContext \<Rightarrow> world \<Rightarrow> bool \<times> world" where
  "should_fire_workflow E d t w =
     (case wd_trigger d of
        ReactionAdded (Some expected) \<Rightarrow> (tc_emoji t = expected, w)
      | MessagePosted (Some expr) \<Rightarrow> filter_passes E expr t w
      | DiffPosted (Some expr) \<Rightarrow> filter_passes E expr t w
      | _ \<Rightarrow> (True, w))"

text \<open>A spawned task: the run it executes. The engine of one pod has its clock map and its cache.\<close>

record task =
  tk_community :: uuid
  tk_run :: uuid
  tk_def :: WorkflowDef
  tk_ctx :: TriggerContext

record pod =
  pd_last_fired :: "(key, datetime) hmap"
  pd_cache :: "(key, datetime \<times> WorkflowRecord list) hmap"

record ('ctx, 'sched) engine_env = "'ctx run_env" +
  cron :: "'sched cron_lib"
  from_timestamp :: "int \<Rightarrow> datetime option"
  evicted :: "nat \<Rightarrow> bool"

definition CACHE_TTL :: int where "CACHE_TTL = 10 * 10 ^ 9"

definition cache_get ::
  "('ctx, 'sched, 'm) engine_env_scheme \<Rightarrow> key \<Rightarrow> pod \<Rightarrow> world \<Rightarrow> WorkflowRecord list option" where
  "cache_get E k p w =
     (case hget (pd_cache p) k of
        Some (inserted, ws) \<Rightarrow>
          (if evicted E (moment w) \<or> clock E (moment w) \<ge> inserted + CACHE_TTL then None else Some ws)
      | None \<Rightarrow> None)"

definition invalidate_channel_workflows :: "uuid \<Rightarrow> uuid \<Rightarrow> pod \<Rightarrow> pod" where
  "invalidate_channel_workflows c ch p = p\<lparr>pd_cache := hdel (c, ch) (pd_cache p)\<rparr>"

definition channel_workflows ::
  "('ctx, 'sched, 'm) engine_env_scheme \<Rightarrow> uuid \<Rightarrow> uuid \<Rightarrow> pod \<Rightarrow> world \<Rightarrow>
   (WorkflowError + WorkflowRecord list) \<times> pod \<times> world" where
  "channel_workflows E c ch p w =
     (case cache_get E (c, ch) p w of
        Some ws \<Rightarrow> (Inr ws, p, w)
      | None \<Rightarrow>
          (case query E (\<lambda>T. Inr (list_enabled_channel_workflows c ch T)) w of
             (Inl e, w1) \<Rightarrow> (Inl (from_db e), p, w1)
           | (Inr ws, w1) \<Rightarrow>
               (Inr ws, p\<lparr>pd_cache := hput (c, ch) (clock E (moment w1), ws) (pd_cache p)\<rparr>, w1)))"

definition new_run ::
  "('ctx, 'm) run_env_scheme \<Rightarrow> uuid \<Rightarrow> uuid \<Rightarrow> string option \<Rightarrow> json option \<Rightarrow> world \<Rightarrow>
   (DbError + uuid) \<times> world" where
  "new_run E c workflow_id ev ctx w =
     statement E (create_workflow_run (fresh_uuid E (moment w)) (clock E (moment w)) c workflow_id ev ctx) w"

definition fire_workflow ::
  "('ctx, 'm) run_env_scheme \<Rightarrow> uuid \<Rightarrow> StoredEvent \<Rightarrow> TriggerContext \<Rightarrow> json \<Rightarrow> WorkflowRecord \<Rightarrow>
   world \<Rightarrow> task list \<times> world" where
  "fire_workflow E c se t ctx_json workflow w =
     (case def_from_json E (wr_definition workflow) of
        Inl _ \<Rightarrow> ([], w)
      | Inr d \<Rightarrow>
          (if \<not> wd_enabled d \<or> \<not> trigger_matches_event (wd_trigger d) (ev_kind (se_event se)) then ([], w)
           else case should_fire_workflow E d t w of
             (False, w1) \<Rightarrow> ([], w1)
           | (True, w1) \<Rightarrow>
               (case new_run E c (wr_id workflow) (Some (ev_id (se_event se))) (Some ctx_json) w1 of
                  (Inl _, w2) \<Rightarrow> ([], w2)
                | (Inr run, w2) \<Rightarrow>
                    ([\<lparr>tk_community = c, tk_run = run, tk_def = d, tk_ctx = t\<rparr>], w2))))"

fun fire_workflows ::
  "('ctx, 'm) run_env_scheme \<Rightarrow> uuid \<Rightarrow> StoredEvent \<Rightarrow> TriggerContext \<Rightarrow> json \<Rightarrow> WorkflowRecord list \<Rightarrow>
   world \<Rightarrow> task list \<times> world" where
  "fire_workflows E c se t ctx_json [] w = ([], w)"
| "fire_workflows E c se t ctx_json (wf0 # wfs) w =
     (case fire_workflow E c se t ctx_json wf0 w of
        (ts1, w1) \<Rightarrow> (case fire_workflows E c se t ctx_json wfs w1 of (ts2, w2) \<Rightarrow> (ts1 @ ts2, w2)))"

definition on_event ::
  "('ctx, 'sched, 'm) engine_env_scheme \<Rightarrow> uuid \<Rightarrow> StoredEvent \<Rightarrow> pod \<Rightarrow> world \<Rightarrow>
   (WorkflowError + task list) \<times> pod \<times> world" where
  "on_event E c se p w =
     (case se_channel_id se of
        None \<Rightarrow> (Inr [], p, w)
      | Some ch \<Rightarrow>
          (if is_workflow_execution_kind (ev_kind (se_event se)) then (Inr [], p, w)
           else case channel_workflows E c ch p w of
             (Inl e, p1, w1) \<Rightarrow> (Inl e, p1, w1)
           | (Inr ws, p1, w1) \<Rightarrow>
               (if ws = [] then (Inr [], p1, w1)
                else let t = build_trigger_context se
                     in case ctx_to_json E t of
                          Inl _ \<Rightarrow> (Inr [], p1, w1)
                        | Inr j \<Rightarrow>
                            (case fire_workflows E c se t j ws w1 of (ts, w2) \<Rightarrow> (Inr ts, p1, w2)))))"

subsection \<open>The instants of a schedule\<close>

definition NANOS :: int where "NANOS = 10 ^ 9"

definition cron_fire_instant ::
  "('sched, 'm) cron_lib_scheme \<Rightarrow> string \<Rightarrow> datetime \<Rightarrow> int \<Rightarrow> datetime option" where
  "cron_fire_instant C expr now window_secs =
     (case cron_parse C (normalize_cron expr) of
        Inl _ \<Rightarrow> None
      | Inr sched \<Rightarrow>
          (case cron_next C sched (now - window_secs * NANOS) of
             Some t \<Rightarrow> (if t \<le> now then Some t else None)
           | None \<Rightarrow> None))"

definition as_i64 :: "nat \<Rightarrow> int" where
  "as_i64 n = (int n + 2 ^ 63) mod 2 ^ 64 - 2 ^ 63"

definition div_euclid :: "int \<Rightarrow> int \<Rightarrow> int" where
  "div_euclid a b = (if b < 0 then - (a div (- b)) else a div b)"

definition interval_fire_instant ::
  "(int \<Rightarrow> datetime option) \<Rightarrow> string \<Rightarrow> datetime \<Rightarrow> datetime option" where
  "interval_fire_instant stamp dur now =
     (case parse_duration_secs dur of
        Inl _ \<Rightarrow> None
      | Inr interval_secs \<Rightarrow>
          (if interval_secs > 0
           then let secs = as_i64 interval_secs in stamp (div_euclid (now div NANOS) secs * secs)
           else None))"

text \<open>\<open>(now - last).num_seconds().unsigned_abs()\<close>: the seconds of the difference, cut off.\<close>

definition elapsed_secs :: "datetime \<Rightarrow> datetime \<Rightarrow> nat" where
  "elapsed_secs now anchor = nat (\<bar>now - anchor\<bar> div NANOS)"

definition interval_should_fire :: "string \<Rightarrow> datetime option \<Rightarrow> datetime \<Rightarrow> bool" where
  "interval_should_fire dur last_fired now =
     (case parse_duration_secs dur of
        Inl _ \<Rightarrow> False
      | Inr interval_secs \<Rightarrow>
          elapsed_secs now (case last_fired of Some l \<Rightarrow> l | None \<Rightarrow> now) \<ge> interval_secs)"

definition interval_prefilter_should_fire ::
  "uuid \<Rightarrow> uuid \<Rightarrow> string \<Rightarrow> datetime option \<Rightarrow> datetime \<Rightarrow> (key, datetime) hmap \<Rightarrow>
   bool \<times> (key, datetime) hmap" where
  "interval_prefilter_should_fire c i dur anchor now last_fired =
     (if interval_should_fire dur anchor now then (True, last_fired)
      else if anchor = None then (False, hput (c, i) now last_fired)
      else (False, last_fired))"

subsection \<open>A tick of the scheduler\<close>

datatype trigger_type = CronFire | IntervalFire

text \<open>
  What the tick decides before the claim: the instant the workflow fires for, or nothing. The anchor
  of an interval is the clock of this pod, or else the last claim in the database.
\<close>

definition interval_anchor ::
  "('ctx, 'm) run_env_scheme \<Rightarrow> uuid \<Rightarrow> uuid \<Rightarrow> pod \<Rightarrow> world \<Rightarrow> datetime option \<times> world" where
  "interval_anchor E c i p w =
     (case hget (pd_last_fired p) (c, i) of
        Some t \<Rightarrow> (Some t, w)
      | None \<Rightarrow>
          (case query E (\<lambda>T. Inr (latest_scheduled_workflow_fire c i T)) w of
             (Inr anchor, w1) \<Rightarrow> (anchor, w1)
           | (Inl _, w1) \<Rightarrow> (None, w1)))"

definition decide_fire ::
  "('ctx, 'sched, 'm) engine_env_scheme \<Rightarrow> datetime \<Rightarrow> uuid \<Rightarrow> uuid \<Rightarrow> TriggerDef \<Rightarrow> pod \<Rightarrow> world \<Rightarrow>
   (datetime \<times> trigger_type) option \<times> pod \<times> world" where
  "decide_fire E now c i trigger p w =
     (case trigger of
        Schedule (Some expr) None \<Rightarrow>
          (map_option (\<lambda>t. (t, CronFire)) (cron_fire_instant (cron E) expr now 60), p, w)
      | Schedule None (Some dur) \<Rightarrow>
          (case interval_anchor E c i p w of
             (anchor, w1) \<Rightarrow>
               (case interval_prefilter_should_fire c i dur anchor now (pd_last_fired p) of
                  (False, lf) \<Rightarrow> (None, p\<lparr>pd_last_fired := lf\<rparr>, w1)
                | (True, lf) \<Rightarrow>
                    (map_option (\<lambda>t. (t, IntervalFire)) (interval_fire_instant (from_timestamp E) dur now),
                     p\<lparr>pd_last_fired := lf\<rparr>, w1)))
      | _ \<Rightarrow> (None, p, w))"

definition mark_fired :: "uuid \<Rightarrow> uuid \<Rightarrow> trigger_type \<Rightarrow> datetime \<Rightarrow> pod \<Rightarrow> pod" where
  "mark_fired c i ty now p =
     (if ty = IntervalFire then p\<lparr>pd_last_fired := hput (c, i) now (pd_last_fired p)\<rparr> else p)"

text \<open>The claim: only its winner goes on.\<close>

definition claim_fire ::
  "('ctx, 'm) run_env_scheme \<Rightarrow> datetime \<Rightarrow> uuid \<Rightarrow> uuid \<Rightarrow> datetime \<Rightarrow> trigger_type \<Rightarrow> pod \<Rightarrow> world \<Rightarrow>
   bool \<times> pod \<times> world" where
  "claim_fire E now c i scheduled_for ty p w =
     (case statement E (\<lambda>T. case claim_scheduled_workflow_fire (clock E (moment w)) c i scheduled_for T of
                             (r, T') \<Rightarrow> (Inr r, T')) w of
        (Inl _, w1) \<Rightarrow> (False, p, w1)
      | (Inr None, w1) \<Rightarrow> (False, mark_fired c i ty now p, w1)
      | (Inr (Some _), w1) \<Rightarrow> (True, p, w1))"

text \<open>What the winner does: the run, its link to the claim, the clock of the pod and the task.\<close>

definition winner_fires ::
  "('ctx, 'm) run_env_scheme \<Rightarrow> datetime \<Rightarrow> uuid \<Rightarrow> uuid \<Rightarrow> uuid \<Rightarrow> WorkflowDef \<Rightarrow> datetime \<Rightarrow>
   trigger_type \<Rightarrow> pod \<Rightarrow> world \<Rightarrow> task option \<times> pod \<times> world" where
  "winner_fires E now c i ch d scheduled_for ty p w =
     (let t = TriggerContext_default\<lparr>tc_channel_id := ch, tc_timestamp := int_text (now div NANOS)\<rparr>
      in case ctx_to_json E t of
           Inl _ \<Rightarrow> (None, p, w)
         | Inr j \<Rightarrow>
             (case new_run E c i None (Some j) w of
                (Inl _, w1) \<Rightarrow> (None, p, w1)
              | (Inr run, w1) \<Rightarrow>
                  (Some \<lparr>tk_community = c, tk_run = run, tk_def = d, tk_ctx = t\<rparr>,
                   mark_fired c i ty now p,
                   snd (statement E (attach_scheduled_workflow_run c i scheduled_for run) w1))))"

definition tick_workflow ::
  "('ctx, 'sched, 'm) engine_env_scheme \<Rightarrow> datetime \<Rightarrow> WorkflowRecord \<Rightarrow> pod \<Rightarrow> world \<Rightarrow>
   task list \<times> pod \<times> world" where
  "tick_workflow E now workflow p w =
     (let c = wr_community_id workflow; i = wr_id workflow
      in case def_from_json E (wr_definition workflow) of
           Inl _ \<Rightarrow> ([], p, w)
         | Inr d \<Rightarrow>
             (if \<not> wd_enabled d then ([], p, w)
              else case wr_channel_id workflow of
                None \<Rightarrow> ([], p, w)
              | Some ch \<Rightarrow>
                  (case decide_fire E now c i (wd_trigger d) p w of
                     (None, p1, w1) \<Rightarrow> ([], p1, w1)
                   | (Some (scheduled_for, ty), p1, w1) \<Rightarrow>
                       (case claim_fire E now c i scheduled_for ty p1 w1 of
                          (False, p2, w2) \<Rightarrow> ([], p2, w2)
                        | (True, p2, w2) \<Rightarrow>
                            (case winner_fires E now c i ch d scheduled_for ty p2 w2 of
                               (None, p3, w3) \<Rightarrow> ([], p3, w3)
                             | (Some tk, p3, w3) \<Rightarrow> ([tk], p3, w3))))))"

fun tick_workflows ::
  "('ctx, 'sched, 'm) engine_env_scheme \<Rightarrow> datetime \<Rightarrow> WorkflowRecord list \<Rightarrow> pod \<Rightarrow> world \<Rightarrow>
   task list \<times> pod \<times> world" where
  "tick_workflows E now [] p w = ([], p, w)"
| "tick_workflows E now (x # xs) p w =
     (case tick_workflow E now x p w of
        (ts1, p1, w1) \<Rightarrow>
          (case tick_workflows E now xs p1 w1 of (ts2, p2, w2) \<Rightarrow> (ts1 @ ts2, p2, w2)))"

definition scheduler_tick ::
  "('ctx, 'sched, 'm) engine_env_scheme \<Rightarrow> pod \<Rightarrow> world \<Rightarrow> task list \<times> pod \<times> world" where
  "scheduler_tick E p w =
     (let now = clock E (moment w)
      in case query E (\<lambda>T. Inr (list_all_enabled_workflows T)) w of
           (Inl _, w1) \<Rightarrow> ([], p, w1)
         | (Inr workflows, w1) \<Rightarrow>
             (case tick_workflows E now workflows p w1 of
                (ts, p2, w2) \<Rightarrow>
                  (let active = map (\<lambda>x. (wr_community_id x, wr_id x)) workflows
                   in (ts, p2\<lparr>pd_last_fired :=
                         filter (\<lambda>kv. fst kv \<in> set active) (pd_last_fired p2)\<rparr>, w2))))"

subsection \<open>Many pods, one claim table\<close>


definition fresh_pod :: pod where
  "fresh_pod = \<lparr>pd_last_fired = [], pd_cache = []\<rparr>"





















subsection \<open>Intervals\<close>

lemma decide_interval:
  "decide_fire E now c i (Schedule None (Some dur)) p w =
     (case interval_anchor E c i p w of
        (anchor, w1) \<Rightarrow>
          (case interval_prefilter_should_fire c i dur anchor now (pd_last_fired p) of
             (False, lf) \<Rightarrow> (None, p\<lparr>pd_last_fired := lf\<rparr>, w1)
           | (True, lf) \<Rightarrow>
               (map_option (\<lambda>t. (t, IntervalFire)) (interval_fire_instant (from_timestamp E) dur now),
                p\<lparr>pd_last_fired := lf\<rparr>, w1)))"
  by (simp add: decide_fire_def)

lemma anchor_in_memory:
  "hget (pd_last_fired p) (c, i) = Some t \<Longrightarrow> interval_anchor E c i p w = (Some t, w)"
  by (simp add: interval_anchor_def)

lemma elapsed_self [simp]: "elapsed_secs now now = 0"
  by (simp add: elapsed_secs_def NANOS_def)

lemma decide_mid_interval:
  assumes "hget (pd_last_fired p) (c, i) = Some t" and "parse_duration_secs dur = Inr n"
    and "elapsed_secs now t < n"
  shows "decide_fire E now c i (Schedule None (Some dur)) p w = (None, p, w)"
  using assms
  by (simp add: decide_interval anchor_in_memory interval_prefilter_should_fire_def
      interval_should_fire_def)

lemma decide_after_interval:
  assumes "hget (pd_last_fired p) (c, i) = Some t" and "parse_duration_secs dur = Inr n"
    and "n \<le> elapsed_secs now t"
  shows "decide_fire E now c i (Schedule None (Some dur)) p w =
     (map_option (\<lambda>t. (t, IntervalFire)) (interval_fire_instant (from_timestamp E) dur now), p, w)"
  using assms
  by (simp add: decide_interval anchor_in_memory interval_prefilter_should_fire_def
      interval_should_fire_def)

lemma decide_no_anchor:
  assumes "interval_anchor E c i p w = (None, w1)" and "parse_duration_secs dur = Inr n" and "0 < n"
  shows "decide_fire E now c i (Schedule None (Some dur)) p w =
     (None, p\<lparr>pd_last_fired := hput (c, i) now (pd_last_fired p)\<rparr>, w1)"
  using assms
  by (simp add: decide_interval interval_prefilter_should_fire_def interval_should_fire_def)

text \<open>The bucket of an instant: whole seconds, and a multiple of the interval that is less than one
  interval back.\<close>

lemma interval_bucket:
  assumes "parse_duration_secs dur = Inr n" and "0 < n" and "n < 2 ^ 63"
  shows "interval_fire_instant stamp dur now = stamp (now div NANOS div int n * int n)"
  using assms by (simp add: interval_fire_instant_def as_i64_def div_euclid_def Let_def)

text \<open>C0. A new interval workflow is not forgotten: the first tick, which finds no anchor, fires nothing
  but starts the clock of the pod; no tick fires within the interval, and every tick after it
  proposes the bucket of its instant.\<close>

theorem cold_interval_workflow_fires:
  assumes "hget (pd_last_fired p) (c, i) = None" and "db_fault E (moment w) = NoFault"
    and "latest_scheduled_workflow_fire c i (interfere E (moment w) (w_tables w)) = None"
    and "parse_duration_secs dur = Inr n" and "0 < n" and "n < 2 ^ 63"
  shows "\<exists>p1 w1. decide_fire E t0 c i (Schedule None (Some dur)) p w = (None, p1, w1) \<and>
     (\<forall>t w'. elapsed_secs t t0 < n \<longrightarrow>
        decide_fire E t c i (Schedule None (Some dur)) p1 w' = (None, p1, w')) \<and>
     (\<forall>t w'. n \<le> elapsed_secs t t0 \<longrightarrow>
        decide_fire E t c i (Schedule None (Some dur)) p1 w' =
          (map_option (\<lambda>b. (b, IntervalFire)) (from_timestamp E (t div NANOS div int n * int n)),
           p1, w'))"
proof -
  define p1 where "p1 = p\<lparr>pd_last_fired := hput (c, i) t0 (pd_last_fired p)\<rparr>"
  have "interval_anchor E c i p w = (None, snd (interval_anchor E c i p w))"
    using assms(1-3) by (simp add: interval_anchor_def query_def statement_def Let_def)
  then have first: "decide_fire E t0 c i (Schedule None (Some dur)) p w =
      (None, p1, snd (interval_anchor E c i p w))"
    unfolding p1_def using assms(4,5) by (rule decide_no_anchor)
  have seeded: "hget (pd_last_fired p1) (c, i) = Some t0" by (simp add: p1_def)
  show ?thesis
    using first
    by (intro exI [of _ p1] exI [of _ "snd (interval_anchor E c i p w)"])
      (simp add: decide_mid_interval [OF seeded assms(4)] decide_after_interval [OF seeded assms(4)]
        interval_bucket [OF assms(4-6)])
qed

text \<open>C0. When the anchor cannot be read after a restart, the tick is suppressed but the next one does not
  read it again: the failed tick has started the clock of the pod at its own time, so for a whole
  further interval no tick asks the database or fires, whatever the claims say.\<close>

theorem unreadable_anchor_not_retried:
  assumes "hget (pd_last_fired p) (c, i) = None" and "db_fault E (moment w) = FaultBefore e"
    and "parse_duration_secs dur = Inr n" and "0 < n"
  shows "\<exists>p1 w1. decide_fire E t0 c i (Schedule None (Some dur)) p w = (None, p1, w1) \<and>
     (\<forall>t w'. elapsed_secs t t0 < n \<longrightarrow>
        decide_fire E t c i (Schedule None (Some dur)) p1 w' = (None, p1, w'))"
proof -
  define p1 where "p1 = p\<lparr>pd_last_fired := hput (c, i) t0 (pd_last_fired p)\<rparr>"
  have "interval_anchor E c i p w = (None, snd (interval_anchor E c i p w))"
    using assms(1,2) by (simp add: interval_anchor_def query_def statement_def Let_def)
  then have first: "decide_fire E t0 c i (Schedule None (Some dur)) p w =
      (None, p1, snd (interval_anchor E c i p w))"
    unfolding p1_def using assms(3,4) by (rule decide_no_anchor)
  have seeded: "hget (pd_last_fired p1) (c, i) = Some t0" by (simp add: p1_def)
  show ?thesis
    using first
    by (intro exI [of _ p1] exI [of _ "snd (interval_anchor E c i p w)"])
      (simp add: decide_mid_interval [OF seeded assms(3)])
qed

subsection \<open>A concrete scheduler\<close>

definition demo_hourly :: WorkflowDef where
  "demo_hourly = demo_def\<lparr>wd_trigger := Schedule None (Some ''1h'')\<rparr>"

definition demo_record :: WorkflowRecord where
  "demo_record = new_workflow ''c'' ''w'' (Some ''ch'') ''o'' ''greet'' JNull ''h'' 0"

definition demo_engine :: "(nat \<Rightarrow> db_fault) \<Rightarrow> (demo_ctx, unit) engine_env" where
  "demo_engine fault = run_env.extend
     (demo_env\<lparr>db_fault := fault, def_from_json := (\<lambda>_. Inr demo_hourly)\<rparr>)
     (engine_env.fields \<lparr>cron_parse = (\<lambda>_. Inl ''no cron''), cron_next = (\<lambda>_ _. None)\<rparr>
        (\<lambda>s. Some (s * NANOS)) (\<lambda>_. False))"

definition demo_quiet_world :: world where
  "demo_quiet_world = demo_world\<lparr>w_tables := demo_run_tables\<lparr>t_runs := []\<rparr>\<rparr>"

lemma demo_engine_simps [simp]:
  "db_fault (demo_engine fault) n = fault n"
  "interfere (demo_engine fault) n T = T"
  "clock (demo_engine fault) n = int n"
  "fresh_uuid (demo_engine fault) n = ''run'' @ dec n"
  "def_from_json (demo_engine fault) j = Inr demo_hourly"
  "ctx_to_json (demo_engine fault) t = Inr JNull"
  "from_timestamp (demo_engine fault) s = Some (s * NANOS)"
  by (simp_all add: demo_engine_def demo_env_def demo_text_env_def text_env.defs run_env.defs
      engine_env.defs)

lemma demo_hour: "parse_duration_secs ''1h'' = Inr 3600"
proof -
  have "plain ''1h''" "plain ''1''" by (simp_all add: plain_def)
  then show ?thesis
    by (simp add: parse_duration_secs_def Let_def trim_plain scaled_duration_def parse_u64_def
        strip_suffix_def starts_with_def is_digit_def undec_def)
qed

lemma demo_bucket:
  "interval_fire_instant (from_timestamp (demo_engine fault)) ''1h'' (s * NANOS) = Some (s div 3600 * 3600 * NANOS)"
  by (subst interval_bucket [OF demo_hour]) (simp_all add: NANOS_def)

lemma cold_interval_workflow_fires_witness:
  "\<exists>p1. \<forall>w'. decide_fire (demo_engine (\<lambda>_. NoFault)) (7200 * NANOS) ''c'' ''w''
     (Schedule None (Some ''1h'')) p1 w' = (Some (7200 * NANOS, IntervalFire), p1, w')"
proof -
  have none: "hget (pd_last_fired fresh_pod) (''c'', ''w'') = None" by (simp add: fresh_pod_def)
  have fault: "db_fault (demo_engine (\<lambda>_. NoFault)) (moment demo_quiet_world) = NoFault" by simp
  have latest: "latest_scheduled_workflow_fire ''c'' ''w''
      (interfere (demo_engine (\<lambda>_. NoFault)) (moment demo_quiet_world) (w_tables demo_quiet_world)) = None"
    by (simp add: latest_scheduled_workflow_fire_def scheduled_instants_def demo_quiet_world_def
        demo_world_def demo_run_tables_def demo_tables_def)
  have size: "0 < (3600 :: nat)" "3600 < (2 :: nat) ^ 63" by simp_all
  obtain p1 where
    "\<forall>t w'. 3600 \<le> elapsed_secs t (3600 * NANOS) \<longrightarrow>
      decide_fire (demo_engine (\<lambda>_. NoFault)) t ''c'' ''w'' (Schedule None (Some ''1h'')) p1 w' =
        (map_option (\<lambda>b. (b, IntervalFire)) (from_timestamp (demo_engine (\<lambda>_. NoFault))
           (t div NANOS div int 3600 * int 3600)), p1, w')"
    using cold_interval_workflow_fires [OF none fault latest demo_hour size, of "3600 * NANOS"]
    by (elim exE conjE) (rule that)
  then show ?thesis
    by (intro exI [of _ p1]) (simp add: elapsed_secs_def NANOS_def)
qed

lemma unreadable_anchor_not_retried_witness:
  "\<exists>p1. \<forall>w'. decide_fire (demo_engine (\<lambda>_. FaultBefore ''gone'')) (60 * NANOS) ''c'' ''w''
     (Schedule None (Some ''1h'')) p1 w' = (None, p1, w')"
proof -
  have none: "hget (pd_last_fired fresh_pod) (''c'', ''w'') = None" by (simp add: fresh_pod_def)
  have fault: "db_fault (demo_engine (\<lambda>_. FaultBefore ''gone'')) (moment demo_quiet_world) =
      FaultBefore ''gone''" by simp
  have size: "0 < (3600 :: nat)" by simp
  obtain p1 where
    "\<forall>t w'. elapsed_secs t 0 < 3600 \<longrightarrow>
      decide_fire (demo_engine (\<lambda>_. FaultBefore ''gone'')) t ''c'' ''w'' (Schedule None (Some ''1h'')) p1 w' =
        (None, p1, w')"
    using unreadable_anchor_not_retried [OF none fault demo_hour size, of 0]
    by (elim exE conjE) (rule that)
  then show ?thesis
    by (intro exI [of _ p1]) (simp add: elapsed_secs_def NANOS_def)
qed

text \<open>The pod fired an hour before 12:59 and ticks again; then it is restarted and ticks at 13:00.\<close>

definition demo_pod :: pod where
  "demo_pod = fresh_pod\<lparr>pd_last_fired := [((''c'', ''w''), 43140 * NANOS)]\<rparr>"

lemmas demo_tick_defs = tick_workflow_def decide_interval interval_anchor_def query_def statement_def
  interval_prefilter_should_fire_def interval_should_fire_def elapsed_secs_def claim_fire_def
  claim_scheduled_workflow_fire_def winner_fires_def new_run_def create_workflow_run_def
  attach_scheduled_workflow_run_def mark_fired_def noted_def latest_scheduled_workflow_fire_def
  scheduled_instants_def NANOS_def demo_hour interval_bucket [OF demo_hour, simplified]
  fresh_pod_def demo_hourly_def demo_def_def demo_record_def
  new_workflow_def demo_quiet_world_def demo_world_def demo_run_tables_def demo_tables_def

text \<open>A restart can fire an interval workflow twice within its interval: an hourly workflow that
  fired at 12:59 fires again at 13:00 when the pod is restarted in between, because the claim holds
  the start of the bucket, 12:00; without the restart the tick at 13:00 fires nothing.\<close>

theorem restart_fires_within_interval:
  "case tick_workflow (demo_engine (\<lambda>_. NoFault)) (46740 * NANOS) demo_record demo_pod demo_quiet_world of
     (ts1, p1, w1) \<Rightarrow>
       length ts1 = 1 \<and>
       length (fst (tick_workflow (demo_engine (\<lambda>_. NoFault)) (46800 * NANOS) demo_record p1 w1)) = 0 \<and>
       length (fst (tick_workflow (demo_engine (\<lambda>_. NoFault)) (46800 * NANOS) demo_record fresh_pod w1)) = 1"
  by (simp add: demo_tick_defs demo_pod_def dec.simps digit_char_def Let_def)



end
