(* ===== verification/Tenant.thy ===== *)
theory Tenant
  imports Text
begin

text \<open>
  The tenant of a request: the normal form of a host and the context it resolves to
  (\<open>buzz-core/src/tenant.rs\<close>, \<open>buzz-relay/src/tenant.rs\<close>), with the lookup in the table of
  communities (\<open>buzz-db/src/lib.rs\<close>). The URL parser and Postgres's \<open>lower\<close> are arguments.
\<close>

subsection \<open>Hosts\<close>

definition strip_default_port :: "string \<Rightarrow> string" where
  "strip_default_port host =
     (case strip_suffix host '':443'' of
        Some s \<Rightarrow> s
      | None \<Rightarrow> (case strip_suffix host '':80'' of Some s \<Rightarrow> s | None \<Rightarrow> host))"

definition strip_root_dot :: "string \<Rightarrow> string" where
  "strip_root_dot host = (case strip_suffix host ''.'' of Some s \<Rightarrow> s | None \<Rightarrow> host)"

definition normalize_host :: "string \<Rightarrow> string" where
  "normalize_host host = strip_root_dot (strip_default_port (map ascii_lower (trim host)))"

datatype url_host = Domain string | Ipv4 string | Ipv6 string

record relay_url =
  ru_host :: "url_host option"
  ru_port :: "nat option"

definition relay_url_authority :: "(string \<Rightarrow> relay_url option) \<Rightarrow> string \<Rightarrow> string" where
  "relay_url_authority parse url_text =
     (case parse url_text of
        None \<Rightarrow> []
      | Some url \<Rightarrow>
          (case ru_host url of
             None \<Rightarrow> []
           | Some h \<Rightarrow>
               (let host = (case h of Domain d \<Rightarrow> d | Ipv4 a \<Rightarrow> a | Ipv6 a \<Rightarrow> ''['' @ a @ '']'');
                    authority = (case ru_port url of Some p \<Rightarrow> host @ '':'' @ dec p | None \<Rightarrow> host)
                in normalize_host authority)))"

subsection \<open>Resolution\<close>

record TenantContext =
  tn_community :: uuid
  tn_host :: string

definition resolved :: "uuid \<Rightarrow> string \<Rightarrow> TenantContext" where
  "resolved community host = \<lparr>tn_community = community, tn_host = host\<rparr>"

datatype 'e BindError = UnmappedHost | Lookup 'e

definition bind_community ::
  "(string \<Rightarrow> 'e + uuid option) \<Rightarrow> string \<Rightarrow> 'e BindError + TenantContext" where
  "bind_community resolve raw_host =
     (let host = normalize_host raw_host
      in if host = [] then Inl UnmappedHost
         else case resolve host of
                Inr (Some community) \<Rightarrow> Inr (resolved community host)
              | Inr None \<Rightarrow> Inl UnmappedHost
              | Inl e \<Rightarrow> Inl (Lookup e))"

definition bind_deployment_community ::
  "(string \<Rightarrow> relay_url option) \<Rightarrow> (string \<Rightarrow> 'e + uuid option) \<Rightarrow> string \<Rightarrow>
   'e BindError + TenantContext" where
  "bind_deployment_community parse resolve url_text =
     bind_community resolve (relay_url_authority parse url_text)"

record community_row =
  cr_id :: uuid
  cr_host :: string
  cr_archived_at :: "instant option"

definition lookup_community_by_host ::
  "(string \<Rightarrow> string) \<Rightarrow> community_row list \<Rightarrow> string \<Rightarrow> community_row option" where
  "lookup_community_by_host lower rows host =
     find (\<lambda>r. lower (cr_host r) = lower host \<and> cr_archived_at r = None) rows"

definition resolve_host ::
  "(string \<Rightarrow> string) \<Rightarrow> 'e option \<Rightarrow> community_row list \<Rightarrow> string \<Rightarrow> 'e + uuid option" where
  "resolve_host lower fault rows host =
     (case fault of
        Some e \<Rightarrow> Inl e
      | None \<Rightarrow> Inr (map_option cr_id (lookup_community_by_host lower rows host)))"

subsection \<open>The spellings of one host\<close>

definition ascii_space :: "string \<Rightarrow> bool" where
  "ascii_space s \<longleftrightarrow> list_all (\<lambda>c. (of_char c :: nat) = 32 \<or> 9 \<le> (of_char c :: nat) \<and> (of_char c :: nat) \<le> 13) s"

definition canonical_host :: "string \<Rightarrow> bool" where
  "canonical_host h \<longleftrightarrow> h \<noteq> [] \<and> plain h \<and> map ascii_lower h = h \<and>
     (\<forall>p \<in> {''.'', '':80'', '':443''}. strip_suffix h p = None)"

definition spells :: "string \<Rightarrow> string \<Rightarrow> bool" where
  "spells s h \<longleftrightarrow>
     (\<exists>ws1 h' dot port ws2. s = ws1 @ h' @ dot @ port @ ws2 \<and> ascii_space ws1 \<and> ascii_space ws2 \<and>
        map ascii_lower h' = h \<and> dot \<in> {[], ''.''} \<and> port \<in> {[], '':80'', '':443''})"

lemma ws_first_space: "ascii_space [c] \<Longrightarrow> ws_first (c # s) = 1"
  by (cases s rule: remdups_adj.cases) (auto simp: ascii_space_def ws_first_def)

lemma ws_last_space: "ascii_space [c] \<Longrightarrow> ws_last (c # s) = 1"
  by (auto simp: ascii_space_def ws_last_def)

lemma trim_start_space: "ascii_space ws \<Longrightarrow> trim_start (ws @ s) = trim_start s"
proof (induction ws)
  case (Cons c ws)
  then have "ascii_space [c]" and "ascii_space ws" by (simp_all add: ascii_space_def)
  with Cons.IH show ?case by (subst trim_start.simps) (simp add: ws_first_space)
qed simp

lemma trim_end_space: "ascii_space ws \<Longrightarrow> trim_end_rev (ws @ s) = trim_end_rev s"
proof (induction ws)
  case (Cons c ws)
  then have "ascii_space [c]" and "ascii_space ws" by (simp_all add: ascii_space_def)
  with Cons.IH show ?case by (subst trim_end_rev.simps) (simp add: ws_last_space)
qed simp

lemma ws_first_plain_head: "plain [c] \<Longrightarrow> ws_first (c # s) = 0"
  by (simp add: plain_def ws_first_def ws_start_plain numeral_3_eq_3)

lemma trim_start_fix: "plain [c] \<Longrightarrow> trim_start (c # s) = c # s"
  by (simp add: ws_first_plain_head trim_start.simps [of "c # s"])

lemma trim_spaces:
  assumes "ascii_space ws1" and "ascii_space ws2" and "plain s"
  shows "trim (ws1 @ s @ ws2) = s"
proof (cases s)
  case Nil
  have "ascii_space (ws1 @ ws2)" using assms by (simp add: ascii_space_def)
  then have "trim_start (ws1 @ ws2) = []"
    using trim_start_space [of "ws1 @ ws2" "[]"] by (simp add: trim_start.simps [of "[]"])
  then show ?thesis by (simp add: Nil trim_def trim_end_rev.simps [of "[]"])
next
  case (Cons c s')
  have "plain [c]" using assms Cons by (simp add: plain_def)
  then have "trim_start (ws1 @ s @ ws2) = s @ ws2"
    by (simp add: trim_start_space [OF assms(1)] Cons trim_start_fix)
  moreover have "ascii_space (rev ws2)" using assms(2) by (auto simp: ascii_space_def list_all_iff)
  then have "trim_end_rev (rev ws2 @ rev s) = trim_end_rev (rev s)" by (rule trim_end_space)
  moreover have "trim_end_rev (rev s) = rev s"
    by (simp add: trim_end_rev.simps [of "rev s"] plain_ws_last plain_rev assms(3))
  ultimately show ?thesis by (simp add: trim_def)
qed


lemma lower_marks [simp]:
  "ascii_lower CHR ''.'' = CHR ''.''" "ascii_lower CHR '':'' = CHR '':''" "ascii_lower CHR ''8'' = CHR ''8''"
  "ascii_lower CHR ''0'' = CHR ''0''" "ascii_lower CHR ''4'' = CHR ''4''" "ascii_lower CHR ''3'' = CHR ''3''"
  by (simp_all add: ascii_lower_def)

lemma plain_lower: "plain (map ascii_lower h) \<Longrightarrow> plain h"
proof (unfold plain_def list_all_iff, intro ballI)
  fix c assume *: "\<forall>x\<in>set (map ascii_lower h). 32 < (of_char x :: nat) \<and> (of_char x :: nat) < 128"
    and "c \<in> set h"
  then have l: "32 < (of_char (ascii_lower c) :: nat) \<and> (of_char (ascii_lower c) :: nat) < 128" by auto
  show "32 < (of_char c :: nat) \<and> (of_char c :: nat) < 128"
  proof (cases "65 \<le> (of_char c :: nat) \<and> (of_char c :: nat) \<le> 90")
    case False
    then show ?thesis using l by (auto simp: ascii_lower_def Let_def)
  qed auto
qed

lemma strip_suffix_None: "strip_suffix s p = None \<longleftrightarrow> (\<forall>r. s \<noteq> r @ p)"
  by (metis not_None_eq strip_suffix_Some)

lemma normalize_spelling:
  assumes h: "canonical_host h" and "dot \<in> {[], ''.''}" and "port \<in> {[], '':80'', '':443''}"
  shows "strip_root_dot (strip_default_port (h @ dot @ port)) = h"
proof -
  have no: "\<And>r. h \<noteq> r @ ''.''" "\<And>r. h \<noteq> r @ '':80''" "\<And>r. h \<noteq> r @ '':443''"
    using h by (auto simp: canonical_host_def strip_suffix_None)
  have s: "strip_suffix (a @ b) b = Some a" for a b :: string by (simp add: strip_suffix_Some)
  have "strip_suffix h ''.'' = None" "strip_suffix h '':80'' = None" "strip_suffix h '':443'' = None"
    using no by (simp_all add: strip_suffix_None)
  moreover have "strip_suffix (h @ ''.'') '':80'' = None" "strip_suffix (h @ ''.'') '':443'' = None"
    "strip_suffix (h @ '':80'') '':443'' = None" "strip_suffix (h @ ''.:80'') '':443'' = None"
    by (simp_all add: strip_suffix_def starts_with_def)
  moreover have "strip_suffix (h @ ''.'') ''.'' = Some h" "strip_suffix (h @ '':80'') '':80'' = Some h"
    "strip_suffix (h @ '':443'') '':443'' = Some h" by (rule s)+
  moreover have "strip_suffix (h @ ''.:80'') '':80'' = Some (h @ ''.'')"
    "strip_suffix (h @ ''.:443'') '':443'' = Some (h @ ''.'')"
    using s [of "h @ ''.''" "'':80''"] s [of "h @ ''.''" "'':443''"] by simp_all
  ultimately show ?thesis using assms(2,3)
    by (auto simp: strip_default_port_def strip_root_dot_def)
qed

lemma normalize_spells:
  assumes "canonical_host h" and "spells s h"
  shows "normalize_host s = h"
proof -
  obtain ws1 h' dot port ws2 where s: "s = ws1 @ h' @ dot @ port @ ws2"
    and ws: "ascii_space ws1" "ascii_space ws2" and h': "map ascii_lower h' = h"
    and d: "dot \<in> {[], ''.''}" and p: "port \<in> {[], '':80'', '':443''}"
    using assms(2) unfolding spells_def by blast
  have "plain dot" "plain port" using d p by (auto simp: plain_def)
  moreover have "plain h'" using assms(1) h' by (auto simp: canonical_host_def intro: plain_lower)
  ultimately have "trim s = h' @ dot @ port"
    using trim_spaces [OF ws, of "h' @ dot @ port"] by (simp add: s plain_append)
  moreover have "map ascii_lower (h' @ dot @ port) = h @ dot @ port"
    using h' d p by auto
  ultimately show ?thesis
    by (simp only: normalize_host_def normalize_spelling [OF assms(1) d p])
qed

text \<open>C36. Every spelling of a host (upper case, the root dot, a default port, white space around it) is the
  tenant of that host and of no other, on any resolver: no spelling of one host is a spelling of
  another, and what a request is bound to is what the resolver says of the host itself. A host
  that is not mapped, an empty one and a failed lookup are never bound to any tenant.\<close>

theorem host_spellings_one_tenant:
  assumes "canonical_host h" and "spells s h"
  shows "bind_community resolve s =
      (case resolve h of
         Inr (Some community) \<Rightarrow> Inr (resolved community h)
       | Inr None \<Rightarrow> Inl UnmappedHost
       | Inl e \<Rightarrow> Inl (Lookup e)) \<and>
    (\<forall>h2. canonical_host h2 \<and> spells s h2 \<longrightarrow> h2 = h)"
proof
  have "normalize_host s = h" by (rule normalize_spells [OF assms])
  moreover have "h \<noteq> []" using assms(1) by (simp add: canonical_host_def)
  ultimately show "bind_community resolve s =
      (case resolve h of
         Inr (Some community) \<Rightarrow> Inr (resolved community h)
       | Inr None \<Rightarrow> Inl UnmappedHost
       | Inl e \<Rightarrow> Inl (Lookup e))" by (simp add: bind_community_def)
  show "\<forall>h2. canonical_host h2 \<and> spells s h2 \<longrightarrow> h2 = h"
    using normalize_spells assms by metis
qed

theorem host_spellings_one_tenant_witness:
  "bind_community (\<lambda>h. if h = ''relay.example'' then Inr (Some ''c1'') else Inr None :: unit + uuid option)
     '' Relay.Example.:443'' = Inr (resolved ''c1'' ''relay.example'')"
proof -
  have "canonical_host ''relay.example''"
    by (simp add: canonical_host_def plain_def ascii_lower_def strip_suffix_def starts_with_def)
  moreover have "spells '' Relay.Example.:443'' ''relay.example''"
    unfolding spells_def
    by (rule_tac exI [of _ "'' ''"], rule_tac exI [of _ "''Relay.Example''"], rule_tac exI [of _ "''.''"],
        rule_tac exI [of _ "'':443''"], rule_tac exI [of _ "[]"])
      (simp add: ascii_space_def, code_simp)
  ultimately show ?thesis by (simp add: host_spellings_one_tenant)
qed

end
