(* ===== verification/Workflow_Command.thy ===== *)
theory Workflow_Command
  imports Workflow_Trigger Tenant "HOL-Library.List_Lexorder" "HOL-Library.Char_ord"
begin

text \<open>
  The commands about workflows (\<open>buzz-relay/src/handlers/command_executor.rs\<close>), the webhook
  endpoint (\<open>buzz-relay/src/api/bridge.rs\<close>) and its secret (\<open>webhook_secret.rs\<close>).

  A handler is a function on the \<open>relay\<close>: the \<open>world\<close> of the engine, the tables of events,
  channels, members and communities, the cache of the engine and the cache of memberships. Every
  statement may fail, and other tasks may change the tables before it. The transaction of a
  command is what it will write at its commit; the mutations of a handler run on the pool,
  outside the transaction, as in the code. The advisory lock of a coordinate is not modelled.
\<close>

subsection \<open>State and errors\<close>

datatype IngestError = Rejected string | AuthFailed string | Internal string

record IngestResult =
  ir_event_id :: string
  ir_accepted :: bool
  ir_message :: string

record event_row =
  ew_community :: uuid
  ew_event :: nostr_event
  ew_created_at :: datetime
  ew_received_at :: datetime
  ew_channel_id :: "uuid option"
  ew_d_tag :: "string option"
  ew_deleted_at :: "datetime option"

record command_tables =
  ct_events :: "event_row list"
  ct_channels :: "key list"
  ct_members :: "(uuid \<times> uuid \<times> string) list"
  ct_communities :: "community_row list"

record relay =
  rl_world :: world
  rl_tables :: command_tables
  rl_pod :: pod
  rl_member_cache :: "(uuid \<times> uuid \<times> string, bool) hmap"

record ('ctx, 'sched) command_env = "('ctx, 'sched) engine_env" +
  interfere_commands :: "nat \<Rightarrow> command_tables \<Rightarrow> command_tables"
  member_evicted :: "nat \<Rightarrow> bool"
  yaml_from_str :: "string \<Rightarrow> string + WorkflowDef"
  def_to_json :: "WorkflowDef \<Rightarrow> string + string"
  jsonb :: "string \<Rightarrow> string + json"
  sha256 :: "string \<Rightarrow> string"
  hex_decode :: "string \<Rightarrow> string option"
  sql_lower :: "string \<Rightarrow> string"

type_synonym 'a cmd = "relay \<Rightarrow> (IngestError + 'a) \<times> relay"

definition cmd_bind :: "'a cmd \<Rightarrow> ('a \<Rightarrow> 'b cmd) \<Rightarrow> 'b cmd" where
  "cmd_bind m f s = (case m s of (Inl e, s') \<Rightarrow> (Inl e, s') | (Inr x, s') \<Rightarrow> f x s')"

definition cmd_of :: "IngestError + 'a \<Rightarrow> 'a cmd" where
  "cmd_of r s = (r, s)"

definition cmd_some :: "string \<Rightarrow> 'a option \<Rightarrow> 'a cmd" where
  "cmd_some e r = cmd_of (case r of Some x \<Rightarrow> Inr x | None \<Rightarrow> Inl (Rejected e))"

text \<open>A statement on the workflow tables, and a query of the other tables.\<close>

definition cmd_statement ::
  "('ctx, 'sched, 'm) command_env_scheme \<Rightarrow> (DbError \<Rightarrow> IngestError) \<Rightarrow>
   (nat \<Rightarrow> wf_tables \<Rightarrow> (DbError + 'a) \<times> wf_tables) \<Rightarrow> 'a cmd" where
  "cmd_statement E err f s =
     (case statement E (f (moment (rl_world s))) (rl_world s) of
        (r, w) \<Rightarrow> (map_sum err (\<lambda>x. x) r, s\<lparr>rl_world := w\<rparr>))"

definition others_act :: "('ctx, 'sched, 'm) command_env_scheme \<Rightarrow> relay \<Rightarrow> relay" where
  "others_act E s =
     s\<lparr>rl_world := noted Statement
          ((rl_world s)\<lparr>w_tables := interfere E (moment (rl_world s)) (w_tables (rl_world s))\<rparr>),
       rl_tables := interfere_commands E (moment (rl_world s)) (rl_tables s)\<rparr>"

definition cmd_query ::
  "('ctx, 'sched, 'm) command_env_scheme \<Rightarrow> (DbError \<Rightarrow> IngestError) \<Rightarrow>
   (command_tables \<Rightarrow> DbError + 'a) \<Rightarrow> 'a cmd" where
  "cmd_query E err f s =
     (let s1 = others_act E s
      in case db_fault E (moment (rl_world s)) of
           NoFault \<Rightarrow> (map_sum err (\<lambda>x. x) (f (rl_tables s1)), s1)
         | FaultBefore e \<Rightarrow> (Inl (err (Sqlx e)), s1)
         | FaultAfter e \<Rightarrow> (Inl (err (Sqlx e)), s1))"

definition internal :: "string \<Rightarrow> DbError \<Rightarrow> IngestError" where
  "internal what e = Internal (''error: '' @ what @ '': '' @ db_error_text e)"

subsection \<open>Tags\<close>

definition extract_tag :: "nostr_event \<Rightarrow> string \<Rightarrow> string option" where
  "extract_tag ev name =
     find_map (\<lambda>t. if tag_kind t = name then tag_content t else None) (ev_tags ev)"

definition extract_h_tag :: "nostr_event \<Rightarrow> string option" where
  "extract_h_tag ev = extract_tag ev ''h''"

definition extract_d_tag :: "nostr_event \<Rightarrow> string option" where
  "extract_d_tag ev = extract_tag ev ''d''"

definition extract_e_tag :: "nostr_event \<Rightarrow> string option" where
  "extract_e_tag ev = extract_tag ev ''e''"

definition extract_channel_id ::
  "('ctx, 'm) text_env_scheme \<Rightarrow> nostr_event \<Rightarrow> uuid option" where
  "extract_channel_id E ev =
     find_map (\<lambda>t. if tag_kind t = ''h''
                   then (case tag_content t of
                           Some v \<Rightarrow> (case parse_uuid E v of Inr u \<Rightarrow> Some u | Inl _ \<Rightarrow> None)
                         | None \<Rightarrow> None)
                   else None) (ev_tags ev)"

definition coordinate_d_tag :: "nostr_event \<Rightarrow> string option" where
  "coordinate_d_tag ev =
     (if \<not> is_parameterized_replaceable (ev_kind ev) then None
      else case find_map (\<lambda>t. case tag_slice t of
                                 k # v # _ \<Rightarrow> (if k = ''d'' then Some v else None)
                               | _ \<Rightarrow> None) (ev_tags ev) of
             Some v \<Rightarrow> Some v
           | None \<Rightarrow> Some [])"

definition D_TAG_MAX_LEN :: nat where "D_TAG_MAX_LEN = 1024"

subsection \<open>The event of a command\<close>

record tx =
  tx_began :: datetime
  tx_supersedes :: bool
  tx_row :: event_row

datatype PersistResult = Duplicate | Inserted tx

definition same_coordinate :: "event_row \<Rightarrow> event_row \<Rightarrow> bool" where
  "same_coordinate row r \<longleftrightarrow>
     ew_community r = ew_community row \<and> ev_kind (ew_event r) = ev_kind (ew_event row) \<and>
     ev_pubkey (ew_event r) = ev_pubkey (ew_event row) \<and> ew_d_tag r = ew_d_tag row \<and>
     ew_deleted_at r = None"

text \<open>\<open>ORDER BY created_at DESC, id ASC LIMIT 1\<close> among the live rows of the coordinate.\<close>

definition newest_live :: "event_row \<Rightarrow> event_row list \<Rightarrow> event_row option" where
  "newest_live row rows =
     (case sort_key (\<lambda>r. - ew_created_at r)
             (sort_key (\<lambda>r. ev_id (ew_event r)) (filter (same_coordinate row) rows)) of
        [] \<Rightarrow> None
      | r # _ \<Rightarrow> Some r)"

definition dominated :: "event_row \<Rightarrow> event_row \<Rightarrow> bool" where
  "dominated row existing \<longleftrightarrow>
     ew_created_at row < ew_created_at existing \<or>
     ew_created_at row = ew_created_at existing \<and>
       ev_id (ew_event existing) \<le> ev_id (ew_event row)"

text \<open>The primary key of \<open>events\<close> is the community, the time and the id.\<close>

definition key_taken :: "event_row \<Rightarrow> event_row list \<Rightarrow> bool" where
  "key_taken row rows \<longleftrightarrow>
     list_ex (\<lambda>r. ew_community r = ew_community row \<and> ew_created_at r = ew_created_at row \<and>
                  ev_id (ew_event r) = ev_id (ew_event row)) rows"

definition insert_event ::
  "('ctx, 'sched, 'm) command_env_scheme \<Rightarrow> datetime \<Rightarrow> event_row \<Rightarrow> bool \<Rightarrow> PersistResult cmd" where
  "insert_event E began row supersedes =
     cmd_query E (internal ''insert event'')
       (\<lambda>T. Inr (if key_taken row (ct_events T) then Duplicate
                 else Inserted \<lparr>tx_began = began, tx_supersedes = supersedes, tx_row = row\<rparr>))"

definition persist_command_event ::
  "('ctx, 'sched, 'm) command_env_scheme \<Rightarrow> uuid \<Rightarrow> nostr_event \<Rightarrow> uuid option \<Rightarrow>
   PersistResult cmd" where
  "persist_command_event E c ev channel_override s0 =
     (let began = clock E (moment (rl_world s0));
          channel = (case channel_override of Some ch \<Rightarrow> Some ch | None \<Rightarrow> extract_channel_id E ev);
          secs = as_i64 (ev_created_at ev)
      in cmd_bind (cmd_query E (internal ''begin transaction'') (\<lambda>_. Inr ())) (\<lambda>_.
         cmd_bind (cmd_some (''invalid: bad timestamp '' @ int_text secs) (from_timestamp E secs))
           (\<lambda>created_at s1.
         (let d_tag = coordinate_d_tag ev;
              row = \<lparr>ew_community = c, ew_event = ev, ew_created_at = created_at,
                     ew_received_at = clock E (moment (rl_world s1)), ew_channel_id = channel,
                     ew_d_tag = d_tag, ew_deleted_at = None\<rparr>
          in case d_tag of
               None \<Rightarrow> insert_event E began row False
             | Some d \<Rightarrow>
                 (if D_TAG_MAX_LEN < length d
                  then cmd_of (Inl (Rejected (''invalid: d tag too long ('' @ dec (length d)
                         @ '' bytes, max '' @ dec D_TAG_MAX_LEN @ '')'')))
                  else cmd_bind (cmd_query E (internal ''lock event coordinate'') (\<lambda>_. Inr ())) (\<lambda>_.
                       cmd_bind (cmd_query E (internal ''query event coordinate'')
                                   (\<lambda>T. Inr (newest_live row (ct_events T)))) (\<lambda>existing.
                         case existing of
                           None \<Rightarrow> insert_event E began row False
                         | Some r \<Rightarrow>
                             (if dominated row r then cmd_of (Inr Duplicate)
                              else cmd_bind (cmd_query E (internal ''replace old event'') (\<lambda>_. Inr ()))
                                     (\<lambda>_. insert_event E began row True)))))) s1))
         s0)"

definition apply_tx :: "tx \<Rightarrow> event_row list \<Rightarrow> event_row list" where
  "apply_tx tx rows =
     map (\<lambda>r. if tx_supersedes tx \<and> same_coordinate (tx_row tx) r
              then r\<lparr>ew_deleted_at := Some (tx_began tx)\<rparr> else r) rows @ [tx_row tx]"

definition commit :: "('ctx, 'sched, 'm) command_env_scheme \<Rightarrow> tx \<Rightarrow> unit cmd" where
  "commit E tx s =
     (let s1 = others_act E s;
          s2 = s1\<lparr>rl_tables := (rl_tables s1)\<lparr>ct_events := apply_tx tx (ct_events (rl_tables s1))\<rparr>\<rparr>;
          failed = (\<lambda>e. Inl (internal ''commit transaction'' (Sqlx e)))
      in case db_fault E (moment (rl_world s)) of
           NoFault \<Rightarrow> (Inr (), s2)
         | FaultBefore e \<Rightarrow> (failed e, s1)
         | FaultAfter e \<Rightarrow> (failed e, s2))"

text \<open>\<open>is_member\<close> of the database behind the cache of the relay.\<close>

definition is_member :: "uuid \<Rightarrow> uuid \<Rightarrow> string \<Rightarrow> command_tables \<Rightarrow> bool" where
  "is_member c ch pk T \<longleftrightarrow> (c, ch) \<in> set (ct_channels T) \<and> (c, ch, pk) \<in> set (ct_members T)"

definition is_member_cached ::
  "('ctx, 'sched, 'm) command_env_scheme \<Rightarrow> uuid \<Rightarrow> uuid \<Rightarrow> string \<Rightarrow> bool cmd" where
  "is_member_cached E c ch pk s =
     (case (if member_evicted E (moment (rl_world s)) then None else hget (rl_member_cache s) (c, ch, pk)) of
        Some cached \<Rightarrow> (Inr cached, s)
      | None \<Rightarrow>
          cmd_bind (cmd_query E (internal ''membership check'') (\<lambda>T. Inr (is_member c ch pk T)))
            (\<lambda>r s1. (Inr r, s1\<lparr>rl_member_cache := hput (c, ch, pk) r (rl_member_cache s1)\<rparr>)) s)"

definition channel_exists ::
  "('ctx, 'sched, 'm) command_env_scheme \<Rightarrow> uuid \<Rightarrow> uuid \<Rightarrow> unit cmd" where
  "channel_exists E c ch =
     cmd_query E (\<lambda>_. Rejected ''invalid: workflow channel not found'')
       (\<lambda>T. if (c, ch) \<in> set (ct_channels T) then Inr () else Inl (NotFound ch))"

definition duplicate_result :: "nostr_event \<Rightarrow> IngestResult" where
  "duplicate_result ev =
     \<lparr>ir_event_id = ev_id ev, ir_accepted = True, ir_message = ''duplicate: already processed''\<rparr>"

definition response ::
  "('ctx, 'm) text_env_scheme \<Rightarrow> nostr_event \<Rightarrow> (string \<times> string) list \<Rightarrow> IngestResult" where
  "response E ev entries =
     \<lparr>ir_event_id = ev_id ev, ir_accepted = True,
      ir_message = ''response:'' @ json_show E (JObject (map (\<lambda>(k, v). (k, JString v)) entries))\<rparr>"


subsection \<open>The webhook secret\<close>

definition SECRET_KEY :: string where "SECRET_KEY = ''_webhook_secret''"

definition inject_secret :: "json \<Rightarrow> string \<Rightarrow> json" where
  "inject_secret def secret =
     (case def of JObject entries \<Rightarrow> JObject (hput SECRET_KEY (JString secret) entries) | _ \<Rightarrow> def)"

definition extract_secret :: "json \<Rightarrow> string option" where
  "extract_secret def =
     (case json_field def SECRET_KEY of Some (JString s) \<Rightarrow> Some s | _ \<Rightarrow> None)"

definition strip_secret :: "json \<Rightarrow> json" where
  "strip_secret def =
     (case def of JObject entries \<Rightarrow> JObject (filter (\<lambda>(k, _). k \<noteq> SECRET_KEY) entries) | _ \<Rightarrow> def)"

definition verify_secret :: "string \<Rightarrow> string \<Rightarrow> bool" where
  "verify_secret provided stored =
     (if length provided \<noteq> length stored then False
      else fold (\<lambda>(a, b) result. result OR (a XOR b))
             (zip (ascii_bytes provided) (ascii_bytes stored)) (0 :: byte) = 0)"

subsection \<open>Spawned tasks\<close>

datatype spawned =
    RunWorkflow uuid uuid json TriggerContext
  | ResumeWorkflow uuid uuid uuid nat
  | CancelRun uuid uuid string

definition start_workflow_run ::
  "('ctx, 'm) run_env_scheme \<Rightarrow> uuid \<Rightarrow> uuid \<Rightarrow> json \<Rightarrow> TriggerContext \<Rightarrow> world \<Rightarrow> world" where
  "start_workflow_run E c run def_value ctx w =
     (case def_from_json E def_value of
        Inl e \<Rightarrow>
          snd (statement E (update_workflow_run (clock E (moment w)) c run Failed 0 (JArray [])
                 (Some (''definition parse error: '' @ e))) w)
      | Inr d \<Rightarrow>
          (case execute_from_step E c run d ctx 0 None w of
             (result, w1) \<Rightarrow> finalize_run E c run result None w1))"

definition resume_workflow_after_approval ::
  "('ctx, 'm) run_env_scheme \<Rightarrow> uuid \<Rightarrow> uuid \<Rightarrow> uuid \<Rightarrow> nat \<Rightarrow> world \<Rightarrow> world" where
  "resume_workflow_after_approval E c run_id workflow_id resume_index w =
     (case query E (get_workflow_run c run_id) w of
        (Inl _, w1) \<Rightarrow> w1
      | (Inr run, w1) \<Rightarrow>
          (if rr_status run \<noteq> WaitingApproval then w1
           else case query E (get_workflow c workflow_id) w1 of
             (Inl _, w2) \<Rightarrow> w2
           | (Inr workflow, w2) \<Rightarrow>
               (case def_from_json E (wr_definition workflow) of
                  Inl e \<Rightarrow>
                    snd (statement E (update_workflow_run (clock E (moment w2)) c run_id Failed
                           (rr_current_step run) (rr_execution_trace run)
                           (Some (''definition parse error: '' @ e))) w2)
                | Inr d \<Rightarrow>
                    (let existing = (case rr_execution_trace run of JArray es \<Rightarrow> Some es | _ \<Rightarrow> None);
                         initial = restore_outputs (case existing of Some es \<Rightarrow> es | None \<Rightarrow> []);
                         ctx = (case Option.bind (rr_trigger_context run) (ctx_from_json E) of
                                  Some t \<Rightarrow> t | None \<Rightarrow> TriggerContext_default)
                     in case execute_from_step E c run_id d ctx resume_index (Some initial) w2 of
                          (result, w3) \<Rightarrow> finalize_run E c run_id result existing w3))))"

definition cancel_denied_run ::
  "('ctx, 'm) run_env_scheme \<Rightarrow> uuid \<Rightarrow> uuid \<Rightarrow> string \<Rightarrow> world \<Rightarrow> world" where
  "cancel_denied_run E c run_id pubkey_hex w =
     (case query E (get_workflow_run c run_id) w of
        (Inl _, w1) \<Rightarrow> w1
      | (Inr run, w1) \<Rightarrow>
          (if rr_status run \<noteq> WaitingApproval then w1
           else snd (statement E (update_workflow_run (clock E (moment w1)) c run_id Cancelled
                       (rr_current_step run) (rr_execution_trace run)
                       (Some (''workflow cancelled: approval denied by '' @ pubkey_hex))) w1)))"

fun run_spawned :: "('ctx, 'm) run_env_scheme \<Rightarrow> spawned \<Rightarrow> world \<Rightarrow> world" where
  "run_spawned E (RunWorkflow c run d ctx) w = start_workflow_run E c run d ctx w"
| "run_spawned E (ResumeWorkflow c run workflow i) w = resume_workflow_after_approval E c run workflow i w"
| "run_spawned E (CancelRun c run pk) w = cancel_denied_run E c run pk w"

subsection \<open>Approvals\<close>

definition check_approver_spec :: "string \<Rightarrow> string \<Rightarrow> IngestError + unit" where
  "check_approver_spec approver_spec requester_hex =
     (let spec = trim approver_spec
      in if spec = [] \<or> spec = ''any'' then Inr ()
         else if length spec = 64 \<and> list_all is_ascii_hexdigit spec then
           (if map ascii_lower requester_hex = map ascii_lower spec then Inr ()
            else Inl (Rejected ''forbidden: not the designated approver for this request''))
         else Inl (Rejected (''forbidden: approver spec '' @ quoted spec @ '' is not yet supported'')))"

definition check_pending :: "datetime \<Rightarrow> ApprovalRecord \<Rightarrow> IngestError + unit" where
  "check_pending now approval =
     (if ar_status approval \<noteq> ApPending
      then Inl (Rejected (''invalid: approval already '' @ approval_status_text (ar_status approval)))
      else if now > ar_expires_at approval
      then Inl (Rejected ''invalid: approval token has expired'')
      else Inr ())"

definition event_note :: "nostr_event \<Rightarrow> string option" where
  "event_note ev = (if ev_content ev = [] then None else Some (ev_content ev))"

definition command_reference :: "nostr_event \<Rightarrow> string option" where
  "command_reference ev =
     (case extract_d_tag ev of Some v \<Rightarrow> Some v | None \<Rightarrow> extract_e_tag ev)"

text \<open>What granting and denying have in common: everything up to the commit. The result is the
  approval, or nothing for a command that was processed before.\<close>

definition decide_approval ::
  "('ctx, 'sched, 'm) command_env_scheme \<Rightarrow> uuid \<Rightarrow> nostr_event \<Rightarrow> string \<Rightarrow> ApprovalStatus \<Rightarrow>
   ApprovalRecord option cmd" where
  "decide_approval E c ev self status =
     cmd_bind (cmd_some ''invalid: missing approval reference (d or e tag)'' (command_reference ev)) (\<lambda>hash_hex.
     cmd_bind (cmd_some ''invalid: bad approval token hash hex'' (hex_decode E hash_hex)) (\<lambda>token_hash.
     cmd_bind (cmd_statement E (\<lambda>_. Rejected ''invalid: approval not found'')
                 (\<lambda>_ T. (get_approval_by_stored_hash c token_hash T, T))) (\<lambda>approval.
     cmd_bind (\<lambda>s. cmd_of (check_pending (clock E (moment (rl_world s))) approval) s) (\<lambda>_.
     cmd_bind (cmd_of (check_approver_spec (ar_approver_spec approval) (hex_encode E self))) (\<lambda>_.
     cmd_bind (persist_command_event E c ev None) (\<lambda>p.
       case p of
         Duplicate \<Rightarrow> cmd_of (Inr None)
       | Inserted tx \<Rightarrow>
           cmd_bind (cmd_statement E (internal ''db update_approval'')
                       (\<lambda>n T. case update_approval_by_stored_hash (clock E n) c token_hash status
                                     (Some self) (event_note ev) T of
                                (b, T') \<Rightarrow> (Inr b, T'))) (\<lambda>updated.
             if \<not> updated then cmd_of (Inl (Rejected ''invalid: approval already acted on (race)''))
             else cmd_bind (commit E tx) (\<lambda>_. cmd_of (Inr (Some approval))))))))))"

text \<open>\<open>step_index as usize + 1\<close>, which wraps.\<close>

definition next_index :: "int \<Rightarrow> nat" where
  "next_index i = (nat (i mod 2 ^ 64) + 1) mod 2 ^ 64"

definition handle_approval_grant ::
  "('ctx, 'sched, 'm) command_env_scheme \<Rightarrow> uuid \<Rightarrow> nostr_event \<Rightarrow> string \<Rightarrow>
   (IngestResult \<times> spawned list) cmd" where
  "handle_approval_grant E c ev self =
     cmd_bind (decide_approval E c ev self ApGranted) (\<lambda>r.
       case r of
         None \<Rightarrow> cmd_of (Inr (duplicate_result ev, []))
       | Some approval \<Rightarrow>
           cmd_of (Inr (response E ev [(''status'', ''granted''), (''run_id'', ar_run_id approval)],
             [ResumeWorkflow c (ar_run_id approval) (ar_workflow_id approval)
                (next_index (ar_step_index approval))])))"

definition handle_approval_deny ::
  "('ctx, 'sched, 'm) command_env_scheme \<Rightarrow> uuid \<Rightarrow> nostr_event \<Rightarrow> string \<Rightarrow>
   (IngestResult \<times> spawned list) cmd" where
  "handle_approval_deny E c ev self =
     cmd_bind (decide_approval E c ev self ApDenied) (\<lambda>r.
       case r of
         None \<Rightarrow> cmd_of (Inr (duplicate_result ev, []))
       | Some approval \<Rightarrow>
           cmd_of (Inr (response E ev [(''status'', ''denied''), (''run_id'', ar_run_id approval)],
             [CancelRun c (ar_run_id approval) (hex_encode E self)])))"


subsection \<open>Manual triggers and definitions\<close>

text \<open>The fields of a JSON payload, as texts.\<close>

definition payload_fields ::
  "('ctx, 'm) text_env_scheme \<Rightarrow> json option \<Rightarrow> (string, string) hmap" where
  "payload_fields E payload =
     (case payload of
        Some (JObject entries) \<Rightarrow>
          fold (\<lambda>(k, v). hput k (case v of JString s \<Rightarrow> s | _ \<Rightarrow> json_show E v)) entries []
      | _ \<Rightarrow> [])"

definition find_workflow ::
  "('ctx, 'sched, 'm) command_env_scheme \<Rightarrow> uuid \<Rightarrow> uuid \<Rightarrow> (DbError + WorkflowRecord) cmd" where
  "find_workflow E c i s =
     (case query E (get_workflow c i) (rl_world s) of (r, w) \<Rightarrow> (Inr r, s\<lparr>rl_world := w\<rparr>))"

definition new_run_for ::
  "('ctx, 'sched, 'm) command_env_scheme \<Rightarrow> (DbError \<Rightarrow> IngestError) \<Rightarrow> uuid \<Rightarrow> uuid \<Rightarrow>
   string option \<Rightarrow> TriggerContext \<Rightarrow> uuid cmd" where
  "new_run_for E err c workflow_id event_id ctx =
     cmd_statement E err
       (\<lambda>n. create_workflow_run (fresh_uuid E n) (clock E n) c workflow_id event_id
              (case ctx_to_json E ctx of Inr j \<Rightarrow> Some j | Inl _ \<Rightarrow> None))"

definition handle_workflow_trigger ::
  "('ctx, 'sched, 'm) command_env_scheme \<Rightarrow> uuid \<Rightarrow> nostr_event \<Rightarrow> string \<Rightarrow>
   (IngestResult \<times> spawned list) cmd" where
  "handle_workflow_trigger E c ev self =
     cmd_bind (cmd_some ''invalid: missing workflow reference (d or e tag)'' (command_reference ev)) (\<lambda>id_str.
     cmd_bind (cmd_some ''invalid: bad workflow_id format''
                 (case parse_uuid E id_str of Inr u \<Rightarrow> Some u | Inl _ \<Rightarrow> None)) (\<lambda>workflow_id.
     cmd_bind (find_workflow E c workflow_id) (\<lambda>found.
     cmd_bind (cmd_some ''invalid: workflow not found''
                 (case found of Inr row \<Rightarrow> Some row | Inl _ \<Rightarrow> None)) (\<lambda>workflow.
       if wr_owner_pubkey workflow \<noteq> self
       then cmd_of (Inl (Rejected ''forbidden: not authorized to trigger this workflow''))
       else cmd_bind (persist_command_event E c ev (wr_channel_id workflow)) (\<lambda>p.
         case p of
           Duplicate \<Rightarrow> cmd_of (Inr (duplicate_result ev, []))
         | Inserted tx \<Rightarrow>
             (let ctx = TriggerContext_default
                    \<lparr>tc_channel_id := (case wr_channel_id workflow of Some ch \<Rightarrow> ch | None \<Rightarrow> []),
                     tc_author := hex_encode E self,
                     tc_webhook_fields :=
                       (if ev_content ev = [] then []
                        else payload_fields E (json_parse E (ev_content ev)))\<rparr>
              in cmd_bind (new_run_for E (internal ''db create_workflow_run'') c workflow_id
                             (Some (ev_id ev)) ctx) (\<lambda>run_id.
                 cmd_bind (commit E tx) (\<lambda>_.
                 cmd_of (Inr (response E ev [(''run_id'', run_id)],
                   [RunWorkflow c run_id (wr_definition workflow) ctx])))))))))) "

text \<open>The secret of a definition: kept from the stored row, or generated, and injected; the
  result says whether it is new, for the response.\<close>

definition with_secret ::
  "uuid \<Rightarrow> WorkflowDef \<Rightarrow> WorkflowRecord option \<Rightarrow> json \<Rightarrow> json \<times> string option" where
  "with_secret generated def existing definition =
     (if wd_trigger def = Webhook then
        (case Option.bind existing (\<lambda>row. extract_secret (wr_definition row)) of
           Some secret \<Rightarrow> (inject_secret definition secret, None)
         | None \<Rightarrow> (inject_secret definition generated, Some generated))
      else (definition, None))"

definition existing_workflow ::
  "uuid \<Rightarrow> string \<Rightarrow> DbError + WorkflowRecord \<Rightarrow> IngestError + WorkflowRecord option" where
  "existing_workflow channel self found =
     (case found of
        Inr row \<Rightarrow>
          (if wr_owner_pubkey row \<noteq> self \<or> wr_channel_id row \<noteq> Some channel
           then Inl (Rejected ''forbidden: workflow belongs to a different owner or channel'')
           else Inr (Some row))
      | Inl (NotFound _) \<Rightarrow> Inr None
      | Inl e \<Rightarrow> Inl (internal ''db get_workflow'' e))"

definition upsert_error :: "DbError \<Rightarrow> IngestError" where
  "upsert_error e =
     (case e of
        AccessDenied _ \<Rightarrow> Rejected ''forbidden: workflow belongs to a different owner or channel''
      | _ \<Rightarrow> internal ''db upsert_workflow'' e)"

definition uuid_tag ::
  "('ctx, 'm) text_env_scheme \<Rightarrow> string \<Rightarrow> string \<Rightarrow> string option \<Rightarrow> uuid cmd" where
  "uuid_tag E missing bad tag =
     cmd_bind (cmd_some missing tag) (\<lambda>text.
       cmd_some bad (case parse_uuid E text of Inr u \<Rightarrow> Some u | Inl _ \<Rightarrow> None))"

text \<open>The writes of a definition, under the transaction of its event.\<close>

definition store_definition ::
  "('ctx, 'sched, 'm) command_env_scheme \<Rightarrow> uuid \<Rightarrow> nostr_event \<Rightarrow> string \<Rightarrow> uuid \<Rightarrow> uuid \<Rightarrow> string \<Rightarrow>
   json \<Rightarrow> string option \<Rightarrow> tx \<Rightarrow> IngestResult cmd" where
  "store_definition E c ev self channel_id workflow_id name definition webhook_secret tx =
     (let final = json_show E definition; hash = sha256 E final
      in cmd_bind (channel_exists E c channel_id) (\<lambda>_.
         cmd_bind (cmd_statement E upsert_error
                     (\<lambda>n. upsert_workflow (jsonb E) (clock E n) c workflow_id (Some channel_id)
                            self name final hash)) (\<lambda>_.
         cmd_bind (\<lambda>s. (Inr (), s\<lparr>rl_pod := invalidate_channel_workflows c channel_id (rl_pod s)\<rparr>)) (\<lambda>_.
         cmd_bind (commit E tx) (\<lambda>_.
         cmd_of (Inr (response E ev
           ((''workflow_id'', workflow_id) #
            (case webhook_secret of Some x \<Rightarrow> [(''webhook_secret'', x)] | None \<Rightarrow> [])))))))))"

definition handle_workflow_def ::
  "('ctx, 'sched, 'm) command_env_scheme \<Rightarrow> uuid \<Rightarrow> nostr_event \<Rightarrow> string \<Rightarrow> IngestResult cmd" where
  "handle_workflow_def E c ev self =
     cmd_bind (uuid_tag E ''invalid: missing h tag (channel_id)'' ''invalid: bad channel_id format''
                 (extract_h_tag ev)) (\<lambda>channel_id.
     cmd_bind (uuid_tag E ''invalid: missing d tag (workflow_id)'' ''invalid: bad workflow_id format''
                 (extract_d_tag ev)) (\<lambda>workflow_id.
     cmd_bind (is_member_cached E c channel_id self) (\<lambda>member.
     cmd_bind (cmd_of (if member then Inr ()
                       else Inl (Rejected ''forbidden: not a member of this channel''))) (\<lambda>_.
     cmd_bind (cmd_of (map_sum (\<lambda>e. Rejected (''invalid: workflow YAML parse error: '' @ error_text e)) (\<lambda>x. x)
                 (parse_yaml (cron E) (yaml_from_str E) (def_to_json E) (ev_content ev))))
       (\<lambda>(def, definition_text).
     cmd_bind (cmd_of (case json_parse E definition_text of
                         Some j \<Rightarrow> Inr j
                       | None \<Rightarrow> Inl (Internal ''error: json parse of definition''))) (\<lambda>definition0.
     cmd_bind (find_workflow E c workflow_id) (\<lambda>found.
     cmd_bind (cmd_of (existing_workflow channel_id self found)) (\<lambda>existing.
     cmd_bind (\<lambda>s. cmd_of (Inr (with_secret (fresh_uuid E (moment (rl_world s))) def existing definition0)) s)
       (\<lambda>(definition, webhook_secret).
     cmd_bind (persist_command_event E c ev None) (\<lambda>p.
       case p of
         Duplicate \<Rightarrow> cmd_of (Inr (duplicate_result ev))
       | Inserted tx \<Rightarrow>
           store_definition E c ev self channel_id workflow_id
             (case extract_tag ev ''name'' of Some n \<Rightarrow> n | None \<Rightarrow> wd_name def)
             definition webhook_secret tx))))))))))"

subsection \<open>The webhook endpoint\<close>

text \<open>An HTTP answer: the status and the message or the body. The host is resolved first; the
  database is asked only about a host that is not empty.\<close>

record webhook_request =
  wq_id :: string
  wq_host :: string
  wq_header_secret :: "string option"
  wq_query_secret :: "string option"
  wq_body :: string

definition bind_tenant ::
  "('ctx, 'sched, 'm) command_env_scheme \<Rightarrow> string \<Rightarrow> relay \<Rightarrow>
   (IngestError BindError + TenantContext) \<times> relay" where
  "bind_tenant E raw_host s =
     (if normalize_host raw_host = [] then (bind_community (\<lambda>_. Inr None) raw_host, s)
      else case cmd_query E (internal ''host'')
                  (\<lambda>T. resolve_host (sql_lower E) None (ct_communities T) (normalize_host raw_host)) s of
             (r, s1) \<Rightarrow> (bind_community (\<lambda>_. r) raw_host, s1))"

definition provided_secret :: "webhook_request \<Rightarrow> string" where
  "provided_secret q =
     (case wq_header_secret q of
        Some x \<Rightarrow> x
      | None \<Rightarrow> (case wq_query_secret q of Some x \<Rightarrow> x | None \<Rightarrow> []))"

definition webhook_secret_ok :: "webhook_request \<Rightarrow> json \<Rightarrow> (nat \<times> string) + unit" where
  "webhook_secret_ok q definition =
     (case extract_secret definition of
        Some secret \<Rightarrow>
          (if verify_secret (provided_secret q) secret then Inr ()
           else Inl (401, ''authentication failed''))
      | None \<Rightarrow> Inl (401, ''webhook secret required but not configured '' @ em_dash
                         @ '' re-save the workflow to generate one''))"

definition webhook_body ::
  "('ctx, 'm) run_env_scheme \<Rightarrow> string \<Rightarrow> (nat \<times> string) + json option" where
  "webhook_body E body =
     (if body = [] then Inr None
      else case json_parse E body of
             Some j \<Rightarrow> Inr (Some j)
           | None \<Rightarrow> Inl (400, ''invalid JSON body''))"

definition workflow_webhook ::
  "('ctx, 'sched, 'm) command_env_scheme \<Rightarrow> webhook_request \<Rightarrow> relay \<Rightarrow>
   ((nat \<times> string) + (nat \<times> json) \<times> spawned list) \<times> relay" where
  "workflow_webhook E q s =
     (case parse_uuid E (wq_id q) of
        Inl _ \<Rightarrow> (Inl (400, ''invalid workflow UUID''), s)
      | Inr i \<Rightarrow>
     (case bind_tenant E (wq_host q) s of
        (Inl _, s1) \<Rightarrow> (Inl (404, ''workflow not found''), s1)
      | (Inr tenant, s1) \<Rightarrow>
     (let c = tn_community tenant in
      case find_workflow E c i s1 of
        (Inr (Inr workflow), s2) \<Rightarrow>
     (case def_from_json E (wr_definition workflow) of
        Inl _ \<Rightarrow> (Inl (500, ''internal server error''), s2)
      | Inr def \<Rightarrow>
     (if wd_trigger def \<noteq> Webhook then (Inl (400, ''workflow does not have a webhook trigger''), s2)
      else case and_then (webhook_secret_ok q (wr_definition workflow)) (\<lambda>_. webhook_body E (wq_body q)) of
        Inl e \<Rightarrow> (Inl e, s2)
      | Inr body \<Rightarrow>
     (let ctx = TriggerContext_default
            \<lparr>tc_channel_id := (case wr_channel_id workflow of Some ch \<Rightarrow> ch | None \<Rightarrow> []),
             tc_webhook_fields := payload_fields E body\<rparr>
      in case new_run_for E (internal ''db'') c i None ctx s2 of
           (Inl _, s3) \<Rightarrow> (Inl (500, ''internal server error''), s3)
         | (Inr run_id, s3) \<Rightarrow>
             (Inr ((202, JObject [(''run_id'', JString run_id), (''workflow_id'', JString i),
                                  (''status'', JString ''pending'')]),
                   [RunWorkflow c run_id (wr_definition workflow) ctx]), s3))))
      | (_, s2) \<Rightarrow> (Inl (404, ''workflow not found''), s2))))"


subsection \<open>Who may change what\<close>

text \<open>
  The statements below are about one command at a time: no other task touches the tables while
  it runs (\<open>quiet\<close>), but any statement may fail, before or after it took effect.
\<close>

definition quiet :: "('ctx, 'sched, 'm) command_env_scheme \<Rightarrow> bool" where
  "quiet E \<longleftrightarrow> (\<forall>n T. interfere E n T = T) \<and> (\<forall>n T. interfere_commands E n T = T)"

abbreviation tables :: "relay \<Rightarrow> wf_tables" where "tables s \<equiv> w_tables (rl_world s)"

definition keeps_tables :: "'a cmd \<Rightarrow> bool" where
  "keeps_tables m \<longleftrightarrow> (\<forall>s. tables (snd (m s)) = tables s)"

lemma cmd_bind_Inr: "m s = (Inr x, s1) \<Longrightarrow> cmd_bind m f s = f x s1"
  by (simp add: cmd_bind_def)

lemma cmd_bind_Inl: "m s = (Inl e, s1) \<Longrightarrow> cmd_bind m f s = (Inl e, s1)"
  by (simp add: cmd_bind_def)

lemma cmd_of_bind [simp]:
  "cmd_bind (cmd_of (Inr x)) f s = f x s" "cmd_bind (cmd_of (Inl e)) f s = (Inl e, s)"
  by (simp_all add: cmd_bind_def cmd_of_def)

lemma keeps_bind:
  assumes "keeps_tables m" and "\<And>x. keeps_tables (f x)"
  shows "keeps_tables (cmd_bind m f)"
  using assms unfolding keeps_tables_def cmd_bind_def
  by (auto split: prod.split sum.split) (metis snd_conv)+

lemma keeps_of [simp]: "keeps_tables (cmd_of r)" "keeps_tables (cmd_some e x)"
  by (simp_all add: keeps_tables_def cmd_of_def cmd_some_def)

lemma keeps_query: "quiet E \<Longrightarrow> keeps_tables (cmd_query E err f)"
  by (simp add: keeps_tables_def cmd_query_def others_act_def quiet_def noted_def Let_def
      split: db_fault.split)

lemma keeps_insert: "quiet E \<Longrightarrow> keeps_tables (insert_event E began row b)"
  by (simp add: insert_event_def keeps_query)

lemma keeps_persist: 
  assumes "quiet E"
  shows "keeps_tables (persist_command_event E c ev ch)"
proof -
  note q = keeps_query [OF assms] keeps_insert [OF assms]
  have keep: "tables (snd (cmd_bind m f s)) = tables s"
    if "keeps_tables m" "\<And>x. keeps_tables (f x)" for m :: "'x cmd" and f :: "'x \<Rightarrow> 'y cmd" and s
    using keeps_bind [OF that] by (simp add: keeps_tables_def)
  have let_keep: "keeps_tables (\<lambda>s. g s s)" if "\<And>s0. keeps_tables (g s0)" for g :: "relay \<Rightarrow> 'y cmd"
    using that by (simp add: keeps_tables_def)
  show ?thesis
    unfolding persist_command_event_def Let_def
    by (rule let_keep, rule keeps_bind [OF q(1)], rule keeps_bind [OF keeps_of(2)], rule let_keep)
      (auto split: option.split intro!: keeps_bind q)
qed

lemma keeps_commit: "quiet E \<Longrightarrow> keeps_tables (commit E tx)"
  by (simp add: keeps_tables_def commit_def others_act_def quiet_def noted_def Let_def
      split: db_fault.split)

lemma keeps_read:
  assumes "quiet E"
  shows "keeps_tables (cmd_statement E err (\<lambda>n T. (f n T, T)))"
  using assms
  by (simp add: keeps_tables_def cmd_statement_def statement_def quiet_def noted_def Let_def
      split: db_fault.split prod.split)


lemma cmd_bindE:
  assumes "cmd_bind m f s = (r, s')"
  obtains (fails) e where "m s = (Inl e, s')" and "r = Inl e"
  | (goes) x s1 where "m s = (Inr x, s1)" and "f x s1 = (r, s')"
proof -
  obtain a s1 where m: "m s = (a, s1)" by (cases "m s")
  show thesis
  proof (cases a)
    case (Inl e)
    then show ?thesis using assms m that(1) by (simp add: cmd_bind_def)
  next
    case (Inr x)
    then show ?thesis using assms m that(2) by (simp add: cmd_bind_def)
  qed
qed

lemma keeps_eq: "keeps_tables m \<Longrightarrow> m s = (r, s1) \<Longrightarrow> tables s1 = tables s"
  unfolding keeps_tables_def by (metis snd_conv)

lemma read_result:
  assumes "quiet E" and "cmd_statement E err (\<lambda>n T. (f n T, T)) s = (Inr x, s1)"
  shows "f (moment (rl_world s)) (tables s) = Inr x"
  using assms
  by (auto simp: cmd_statement_def statement_def quiet_def Let_def map_sum_def
      split: db_fault.splits sum.splits)

text \<open>A statement that writes: it has no effect, or its effect and perhaps its result.\<close>

lemma write_result:
  assumes "quiet E" and "cmd_statement E err f s = (r, s1)"
  shows "tables s1 = tables s \<and> isl r \<or>
    tables s1 = snd (f (moment (rl_world s)) (tables s)) \<and>
      (r = map_sum err (\<lambda>x. x) (fst (f (moment (rl_world s)) (tables s))) \<or> isl r)"
  using assms
  by (auto simp: cmd_statement_def statement_def quiet_def noted_def Let_def
      split: db_fault.splits prod.splits)

lemma check_pending_ok:
  "check_pending now a = Inr () \<longleftrightarrow> ar_status a = ApPending \<and> now \<le> ar_expires_at a"
  by (simp add: check_pending_def)

lemma approval_found:
  "get_approval_by_stored_hash c h T = Inr a \<Longrightarrow>
     \<exists>row. hget (t_approvals T) (c, h) = Some row \<and> a = ApprovalRecord.truncate row"
  by (auto simp: get_approval_by_stored_hash_def split: option.splits)

lemma decide_approval_effect:
  assumes q: "quiet E" and run: "decide_approval E c ev self status s = (r, s')"
  shows "tables s' = tables s \<and> (\<forall>a. r \<noteq> Inr (Some a)) \<or>
    (\<exists>hash row n m.
       Option.bind (command_reference ev) (hex_decode E) = Some hash \<and>
       hget (t_approvals (tables s)) (c, hash) = Some row \<and>
       check_pending (clock E n) (ApprovalRecord.truncate row) = Inr () \<and>
       check_approver_spec (ar_approver_spec row) (hex_encode E self) = Inr () \<and>
       tables s' = (tables s)\<lparr>t_approvals :=
         hput (c, hash) (decide_row (clock E m) status (Some self) (event_note ev) row)
           (t_approvals (tables s))\<rparr> \<and>
       (isl r \<or> r = Inr (Some (ApprovalRecord.truncate row))))"
    (is "?kept \<or> ?done")
  using run unfolding decide_approval_def
proof (elim cmd_bindE, goal_cases)
  case (1 e)
  then show ?case by (simp add: cmd_some_def cmd_of_def)
next
  case (2 hex s1 e)
  then show ?case by (simp add: cmd_some_def cmd_of_def)
next
  case (3 hex s1 hash s2 e)
  then show ?case using keeps_eq [OF keeps_read [OF q]] by (auto simp: cmd_some_def cmd_of_def)
next
  case (4 hex s1 hash s2 approval s3 e)
  then show ?case using keeps_eq [OF keeps_read [OF q]] by (auto simp: cmd_some_def cmd_of_def)
next
  case (5 hex s1 hash s2 approval s3 u s4 e)
  then show ?case using keeps_eq [OF keeps_read [OF q]] by (auto simp: cmd_some_def cmd_of_def)
next
  case (6 hex s1 hash s2 approval s3 u s4 u' s5 e)
  then have "tables s' = tables s5" using keeps_eq [OF keeps_persist [OF q]] by blast
  then show ?case using 6 keeps_eq [OF keeps_read [OF q]] by (auto simp: cmd_some_def cmd_of_def)
next
  case (7 hex s1 hash s2 approval s3 u s4 u' s5 p s6)
  have s: "s1 = s" "s2 = s" "s4 = s3" "s5 = s3" using 7 by (auto simp: cmd_some_def cmd_of_def)
  have ref: "Option.bind (command_reference ev) (hex_decode E) = Some hash"
    using 7(1,2) by (auto simp: cmd_some_def cmd_of_def split: option.splits)
  have pend: "check_pending (clock E (moment (rl_world s3))) approval = Inr ()"
    and spec: "check_approver_spec (ar_approver_spec approval) (hex_encode E self) = Inr ()"
    using 7(4,5) s by (auto simp: cmd_of_def)
  obtain row where row: "hget (t_approvals (tables s)) (c, hash) = Some row"
    and a: "approval = ApprovalRecord.truncate row"
    using approval_found [OF read_result [OF q 7(3)]] s by auto
  have t6: "tables s6 = tables s"
    using keeps_eq [OF keeps_read [OF q] 7(3)] keeps_eq [OF keeps_persist [OF q] 7(6)] s by simp
  show ?case
  proof (cases p)
    case Duplicate
    then show ?thesis using 7(7) t6 by (auto simp: cmd_of_def)
  next
    case (Inserted tx)
    let ?n = "moment (rl_world s6)"
    let ?T = "(tables s)\<lparr>t_approvals :=
         hput (c, hash) (decide_row (clock E ?n) status (Some self) (event_note ev) row)
           (t_approvals (tables s))\<rparr>"
    have upd: "update_approval_by_stored_hash (clock E ?n) c hash status (Some self) (event_note ev)
        (tables s6) = (True, ?T)"
      using row pend a t6 by (simp add: update_approval_by_stored_hash_def check_pending_ok ApprovalRecord.defs)
    have don: ?done if "tables s' = ?T" and "isl r \<or> r = Inr (Some approval)"
      using that ref row pend spec a by (auto simp: ApprovalRecord.defs)
    have "cmd_bind (cmd_statement E (internal ''db update_approval'')
             (\<lambda>n T. case update_approval_by_stored_hash (clock E n) c hash status (Some self)
                            (event_note ev) T of (b, T') \<Rightarrow> (Inr b, T')))
           (\<lambda>updated. if \<not> updated then cmd_of (Inl (Rejected ''invalid: approval already acted on (race)''))
              else cmd_bind (commit E tx) (\<lambda>_. cmd_of (Inr (Some approval)))) s6 = (r, s')"
      using 7(7) Inserted by simp
    then show ?thesis
    proof (elim cmd_bindE, goal_cases)
      case (1 e)
      then have "tables s' = tables s6 \<or> tables s' = ?T" using write_result [OF q 1(1)] upd by auto
      then show ?case using 1 t6 don by auto
    next
      case (2 b s7)
      from write_result [OF q 2(1)] upd have b: "b = True" "tables s7 = ?T" by auto
      have "cmd_bind (commit E tx) (\<lambda>_. cmd_of (Inr (Some approval))) s7 = (r, s')"
        using 2(2) b(1) by simp
      then show ?case
      proof (elim cmd_bindE, goal_cases)
        case (1 e)
        then show ?case using keeps_eq [OF keeps_commit [OF q] 1(1)] b(2) don by simp
      next
        case (2 y s8)
        then have "s' = s8" "r = Inr (Some approval)" by (auto simp: cmd_of_def)
        then show ?case using keeps_eq [OF keeps_commit [OF q] 2(1)] b(2) don by simp
      qed
    qed
  qed
qed


definition may_approve :: "string \<Rightarrow> string \<Rightarrow> bool" where
  "may_approve approver_spec requester_hex \<longleftrightarrow>
     trim approver_spec \<in> {[], ''any''} \<or>
     length (trim approver_spec) = 64 \<and> list_all is_ascii_hexdigit (trim approver_spec) \<and>
       map ascii_lower requester_hex = map ascii_lower (trim approver_spec)"

lemma check_approver_spec_ok: "check_approver_spec sp pk = Inr () \<longleftrightarrow> may_approve sp pk"
  by (auto simp: check_approver_spec_def may_approve_def Let_def)


lemma others_quiet:
  assumes "quiet E"
  shows "tables (others_act E s) = tables s" "rl_tables (others_act E s) = rl_tables s"
    "moment (rl_world (others_act E s)) = Suc (moment (rl_world s))"
    "rl_member_cache (others_act E s) = rl_member_cache s"
  using assms by (simp_all add: others_act_def quiet_def noted_def)

lemma query_ok:
  assumes "quiet E" and "db_fault E (moment (rl_world s)) = NoFault"
  shows "cmd_query E err f s = (map_sum err (\<lambda>x. x) (f (rl_tables s)), others_act E s)"
  using assms by (simp add: cmd_query_def Let_def others_quiet)

lemma statement_ok:
  assumes "quiet E" and "db_fault E (moment (rl_world s)) = NoFault"
    and "f (moment (rl_world s)) (tables s) = (r, T)"
  shows "cmd_statement E err f s =
    (map_sum err (\<lambda>x. x) r, others_act E s\<lparr>rl_world := (rl_world (others_act E s))\<lparr>w_tables := T\<rparr>\<rparr>)"
  using assms by (cases s) (simp add: cmd_statement_def statement_def others_act_def quiet_def noted_def Let_def)

lemma read_ok:
  assumes "quiet E" and "db_fault E (moment (rl_world s)) = NoFault"
  shows "cmd_statement E err (\<lambda>n T. (f n T, T)) s =
    (map_sum err (\<lambda>x. x) (f (moment (rl_world s)) (tables s)), others_act E s)"
  using assms
  by (cases s) (simp add: cmd_statement_def statement_def others_act_def quiet_def noted_def Let_def)


lemma bind_query:
  assumes "quiet E" and "db_fault E (moment (rl_world s)) = NoFault"
  shows "cmd_bind (cmd_query E err f) g s =
    (case f (rl_tables s) of
       Inl e \<Rightarrow> (Inl (err e), others_act E s)
     | Inr x \<Rightarrow> g x (others_act E s))"
  by (simp add: cmd_bind_def query_ok [OF assms] split: sum.split)

lemma bind_read:
  assumes "quiet E" and "db_fault E (moment (rl_world s)) = NoFault"
  shows "cmd_bind (cmd_statement E err (\<lambda>n T. (f n T, T))) g s =
    (case f (moment (rl_world s)) (tables s) of
       Inl e \<Rightarrow> (Inl (err e), others_act E s)
     | Inr x \<Rightarrow> g x (others_act E s))"
  by (simp add: cmd_bind_def read_ok [OF assms] split: sum.split)

lemma cmd_some_Some [simp]: "cmd_some e (Some x) = cmd_of (Inr x)"
  by (simp add: cmd_some_def)

lemma persist_inserts:
  assumes q: "quiet E" and "\<not> is_parameterized_replaceable (ev_kind ev)"
    and "from_timestamp E (as_i64 (ev_created_at ev)) = Some t"
    and "list_all (\<lambda>r. ev_id (ew_event r) \<noteq> ev_id ev) (ct_events (rl_tables s))"
    and "db_fault E (moment (rl_world s)) = NoFault"
    and "db_fault E (Suc (moment (rl_world s))) = NoFault"
  shows "\<exists>tx. persist_command_event E c ev ch s = (Inr (Inserted tx), others_act E (others_act E s))"
proof -
  have "\<not> key_taken row (ct_events (rl_tables s))" if "ew_event row = ev" for row
    using assms(4) that by (auto simp: key_taken_def list_all_iff list_ex_iff)
  then show ?thesis
    using assms(2,3,5,6)
    by (simp add: persist_command_event_def Let_def bind_query [OF q] query_ok [OF q]
        insert_event_def coordinate_d_tag_def others_quiet [OF q])
qed

text \<open>C39. The commit of a grant can fail after its mutation, which runs outside the transaction, has
  succeeded. Then the caller gets an error, the event of the command is not stored, no task
  resumes the run, and yet the approval is granted: every later grant or denial of it, by
  anyone, is refused, so nothing will ever resume or cancel the run that waits for it.\<close>

theorem lost_commit_strands_approval:
  assumes "quiet E"
    and "Option.bind (command_reference ev) (hex_decode E) = Some hash"
    and "hget (t_approvals (tables s)) (c, hash) = Some row" and "ar_status row = ApPending"
    and "clock E (Suc (moment (rl_world s))) \<le> ar_expires_at row"
    and "may_approve (ar_approver_spec row) (hex_encode E self)"
    and "\<not> is_parameterized_replaceable (ev_kind ev)"
    and "from_timestamp E (as_i64 (ev_created_at ev)) = Some t"
    and "list_all (\<lambda>r. ev_id (ew_event r) \<noteq> ev_id ev) (ct_events (rl_tables s))"
    and "\<And>k. k < 4 \<Longrightarrow> db_fault E (moment (rl_world s) + k) = NoFault"
    and "db_fault E (moment (rl_world s) + 4) = FaultBefore e"
  shows "\<exists>s' row'. handle_approval_grant E c ev self s =
      (Inl (Internal (''error: commit transaction: '' @ db_error_text (Sqlx e))), s') \<and>
    rl_tables s' = rl_tables s \<and>
    hget (t_approvals (tables s')) (c, hash) = Some row' \<and> ar_status row' = ApGranted \<and>
    (\<forall>ev2 self2 s2. Option.bind (command_reference ev2) (hex_decode E) = Some hash \<and>
       t_approvals (tables s2) = t_approvals (tables s') \<longrightarrow>
       isl (fst (handle_approval_grant E c ev2 self2 s2)) \<and>
       isl (fst (handle_approval_deny E c ev2 self2 s2)) \<and>
       tables (snd (handle_approval_grant E c ev2 self2 s2)) = tables s2 \<and>
       tables (snd (handle_approval_deny E c ev2 self2 s2)) = tables s2)"
proof -
  note q = assms(1)
  let ?m = "moment (rl_world s)"
  obtain hex where ref: "command_reference ev = Some hex" "hex_decode E hex = Some hash"
    using assms(2) by (cases "command_reference ev") auto
  have nf: "db_fault E ?m = NoFault" "db_fault E (Suc ?m) = NoFault"
    "db_fault E (Suc (Suc ?m)) = NoFault" "db_fault E (Suc (Suc (Suc ?m))) = NoFault"
    using assms(10) [of 0] assms(10) [of 1] assms(10) [of 2] assms(10) [of 3]
    by (simp_all add: numeral_2_eq_2 numeral_3_eq_3)
  have f4: "db_fault E (Suc (Suc (Suc (Suc ?m)))) = FaultBefore e"
    using assms(11) by (simp add: eval_nat_numeral)
  let ?a = "ApprovalRecord.truncate row"
  let ?s1 = "others_act E s" let ?s2 = "others_act E (others_act E ?s1)"
  obtain tx where p: "persist_command_event E c ev None ?s1 = (Inr (Inserted tx), ?s2)"
    using persist_inserts [OF q assms(7,8), of ?s1 c None] assms(9) nf by (auto simp: others_quiet [OF q])
  let ?n = "Suc (Suc (Suc ?m))"
  let ?T = "(tables s)\<lparr>t_approvals :=
      hput (c, hash) (decide_row (clock E ?n) ApGranted (Some self) (event_note ev) row)
        (t_approvals (tables s))\<rparr>"
  let ?s3 = "others_act E ?s2\<lparr>rl_world := (rl_world (others_act E ?s2))\<lparr>w_tables := ?T\<rparr>\<rparr>"
  have get: "get_approval_by_stored_hash c hash (tables s) = Inr ?a"
    using assms(3) by (simp add: get_approval_by_stored_hash_def)
  have upd: "cmd_statement E (internal ''db update_approval'')
      (\<lambda>n T. case update_approval_by_stored_hash (clock E n) c hash ApGranted (Some self)
                     (event_note ev) T of (b, T') \<Rightarrow> (Inr b, T')) ?s2 = (Inr True, ?s3)"
    using assms(3,4) nf by (subst statement_ok [OF q, where r = "Inr True" and T = ?T])
      (simp_all add: others_quiet [OF q] update_approval_by_stored_hash_def)
  have com: "commit E tx ?s3 = (Inl (internal ''commit transaction'' (Sqlx e)), others_act E ?s3)"
    using f4 by (simp add: commit_def Let_def others_quiet [OF q])
  have "check_pending (clock E (moment (rl_world ?s1))) ?a = Inr ()"
    using assms(4,5) by (simp add: check_pending_ok ApprovalRecord.defs others_quiet [OF q])
  moreover have "check_approver_spec (ar_approver_spec ?a) (hex_encode E self) = Inr ()"
    using assms(6) by (simp add: check_approver_spec_ok ApprovalRecord.defs)
  ultimately have "decide_approval E c ev self ApGranted s =
      (Inl (internal ''commit transaction'' (Sqlx e)), others_act E ?s3)"
    unfolding decide_approval_def
    using nf by (simp add: ref bind_read [OF q] get) (simp add: cmd_bind_def cmd_of_def p upd com)
  then have "handle_approval_grant E c ev self s =
      (Inl (Internal (''error: commit transaction: '' @ db_error_text (Sqlx e))), others_act E ?s3)"
    by (simp add: handle_approval_grant_def cmd_bind_Inl internal_def)
  moreover have later: "isl (fst (decide_approval E c ev2 self2 st s2)) \<and>
       tables (snd (decide_approval E c ev2 self2 st s2)) = tables s2"
    if ref0: "Option.bind (command_reference ev2) (hex_decode E) = Some hash"
      and same: "t_approvals (tables s2) = t_approvals ?T" for ev2 self2 st s2
  proof -
    obtain hex2 where ref2: "command_reference ev2 = Some hex2" "hex_decode E hex2 = Some hash"
      using ref0 by (cases "command_reference ev2") auto
    let ?row = "decide_row (clock E ?n) ApGranted (Some self) (event_note ev) row"
    have row2: "get_approval_by_stored_hash c hash (tables s2) = Inr (ApprovalRecord.truncate ?row)"
      using same by (simp add: get_approval_by_stored_hash_def)
    obtain r1 s3 where d: "decide_approval E c ev2 self2 st s2 = (r1, s3)" by fastforce
    have keep: "tables s3 = tables s2" using decide_approval_effect [OF q d]
    proof (elim disjE exE conjE, goal_cases)
      case (2 h row2 n m)
      then have "row2 = ?row" using ref0 same by simp
      then have False using 2(3) by (simp add: check_pending_def decide_row_def ApprovalRecord.defs)
      then show ?case ..
    next
      case (3 h row2 n m)
      then have "row2 = ?row" using ref0 same by simp
      then have False using 3(3) by (simp add: check_pending_def decide_row_def ApprovalRecord.defs)
      then show ?case ..
    qed
    have "isl r1"
      using d unfolding decide_approval_def
    proof (elim cmd_bindE, goal_cases)
      case (5 hex3 s4 h s5 approval s6 u s7 e)
      then show ?case by simp
    next
      case (6 hex3 s4 h s5 approval s6 u s7 u' s8 e)
      then show ?case by simp
    next
      case (7 hex3 s4 h s5 approval s6 u s7 u' s8 p s9)
      have "h = hash" "s5 = s2"
        using 7(1,2) ref2 by (auto simp: cmd_some_def cmd_of_def split: option.splits)
      then have "approval = ApprovalRecord.truncate ?row"
        using read_result [OF q 7(3)] row2 by simp
      then have False using 7(4) by (simp add: cmd_of_def check_pending_def decide_row_def ApprovalRecord.defs)
      then show ?case ..
    qed simp_all
    then show ?thesis using d keep by simp
  qed
  then have "isl (fst (handle_approval_grant E c ev2 self2 s2)) \<and>
       isl (fst (handle_approval_deny E c ev2 self2 s2)) \<and>
       tables (snd (handle_approval_grant E c ev2 self2 s2)) = tables s2 \<and>
       tables (snd (handle_approval_deny E c ev2 self2 s2)) = tables s2"
    if "Option.bind (command_reference ev2) (hex_decode E) = Some hash"
      and "t_approvals (tables s2) = t_approvals ?T" for ev2 self2 s2
    using later [OF that, of self2 ApGranted] later [OF that, of self2 ApDenied]
    by (auto simp: handle_approval_grant_def handle_approval_deny_def cmd_bind_def isl_def
        split: prod.splits sum.splits)
  ultimately show ?thesis
    by (intro exI [of _ "others_act E ?s3"]
        exI [of _ "decide_row (clock E ?n) ApGranted (Some self) (event_note ev) row"])
      (simp add: others_quiet [OF q] decide_row_def)
qed


subsection \<open>A concrete relay\<close>

definition demo_commands :: "(nat \<Rightarrow> db_fault) \<Rightarrow> (demo_ctx, unit) command_env" where
  "demo_commands fault = engine_env.extend
     ((demo_engine fault)\<lparr>parse_uuid := Inr, json_parse := (\<lambda>_. Some (JObject [])),
        json_show := (\<lambda>_. ''{}''), def_from_json := (\<lambda>_. Inr (demo_def\<lparr>wd_trigger := Webhook, wd_enabled := False\<rparr>))\<rparr>)
     (command_env.fields (\<lambda>_ T. T) (\<lambda>_. False) (\<lambda>_. Inl ''no yaml'') (\<lambda>_. Inl ''no json'')
        (\<lambda>_. Inr JNull) (\<lambda>s. s) Some (\<lambda>s. s))"

lemma demo_commands_simps [simp]:
  "quiet (demo_commands fault)"
  "db_fault (demo_commands fault) n = fault n"
  "clock (demo_commands fault) n = int n"
  "hex_decode (demo_commands fault) t = Some t"
  "hex_encode (demo_commands fault) t = t"
  "from_timestamp (demo_commands fault) i = Some (i * NANOS)"
  "parse_uuid (demo_commands fault) t = Inr t"
  "interfere (demo_commands fault) n T = T"
  "interfere_commands (demo_commands fault) n C = C"
  "fresh_uuid (demo_commands fault) n = ''run'' @ dec n"
  "def_from_json (demo_commands fault) j = Inr (demo_def\<lparr>wd_trigger := Webhook, wd_enabled := False\<rparr>)"
  "ctx_to_json (demo_commands fault) ctx = Inr JNull"
  "sql_lower (demo_commands fault) t = t"
  by (simp_all add: quiet_def demo_commands_def demo_engine_def demo_env_def demo_text_env_def
      text_env.defs run_env.defs engine_env.defs command_env.defs)

definition demo_grant :: nostr_event where
  "demo_grant =
     \<lparr>ev_id = ''g'', ev_pubkey = ''pk'', ev_created_at = 5, ev_kind = KIND_APPROVAL_GRANT,
      ev_tags = [\<lparr>tag_kind = ''d'', tag_content = Some ''h'', tag_slice = [''d'', ''h'']\<rparr>],
      ev_content = []\<rparr>"

definition demo_relay :: relay where
  "demo_relay =
     \<lparr>rl_world = demo_quiet_world,
      rl_tables = \<lparr>ct_events = [], ct_channels = [(''c'', ''ch'')], ct_members = [(''c'', ''ch'', ''o'')],
                   ct_communities = [\<lparr>cr_id = ''c'', cr_host = ''a'', cr_archived_at = None\<rparr>]\<rparr>,
      rl_pod = fresh_pod, rl_member_cache = []\<rparr>"

lemmas demo_command_defs = demo_relay_def demo_quiet_world_def demo_world_def demo_run_tables_def
  demo_tables_def demo_approval_def

lemma demo_grant_reference: "command_reference demo_grant = Some ''h''"
  by (simp add: command_reference_def extract_d_tag_def extract_tag_def find_map_def demo_grant_def)

lemma demo_may: "may_approve ''any'' t"
proof -
  have "plain ''any''" by (simp add: plain_def)
  then show ?thesis by (simp add: may_approve_def trim_plain)
qed

lemma demo_grant_kind: "\<not> is_parameterized_replaceable (ev_kind demo_grant)"
  by (simp add: demo_grant_def is_parameterized_replaceable_def KIND_APPROVAL_GRANT_def
      PARAM_REPLACEABLE_KIND_MIN_def PARAM_REPLACEABLE_KIND_MAX_def)

lemma lost_commit_strands_approval_witness:
  "\<exists>s'. fst (handle_approval_grant (demo_commands (\<lambda>n. if n = 4 then FaultBefore ''lost'' else NoFault))
              ''c'' demo_grant ''pk'' demo_relay) =
        Inl (Internal (''error: commit transaction: '' @ db_error_text (Sqlx ''lost''))) \<and>
     isl (fst (handle_approval_grant (demo_commands (\<lambda>n. if n = 4 then FaultBefore ''lost'' else NoFault))
              ''c'' demo_grant ''pk'' s'))"
proof -
  let ?E = "demo_commands (\<lambda>n. if n = 4 then FaultBefore ''lost'' else NoFault)"
  have ref: "Option.bind (command_reference demo_grant) (hex_decode ?E) = Some ''h''"
    by (simp add: demo_grant_reference)
  have "\<exists>s' row'. handle_approval_grant ?E ''c'' demo_grant ''pk'' demo_relay =
      (Inl (Internal (''error: commit transaction: '' @ db_error_text (Sqlx ''lost''))), s') \<and>
    rl_tables s' = rl_tables demo_relay \<and>
    hget (t_approvals (tables s')) (''c'', ''h'') = Some row' \<and> ar_status row' = ApGranted \<and>
    (\<forall>ev2 self2 s2. Option.bind (command_reference ev2) (hex_decode ?E) = Some ''h'' \<and>
       t_approvals (tables s2) = t_approvals (tables s') \<longrightarrow>
       isl (fst (handle_approval_grant ?E ''c'' ev2 self2 s2)) \<and>
       isl (fst (handle_approval_deny ?E ''c'' ev2 self2 s2)) \<and>
       tables (snd (handle_approval_grant ?E ''c'' ev2 self2 s2)) = tables s2 \<and>
       tables (snd (handle_approval_deny ?E ''c'' ev2 self2 s2)) = tables s2)"
    by (rule lost_commit_strands_approval
          [where row = demo_approval and t = "as_i64 (ev_created_at demo_grant) * NANOS"])
      (simp_all add: ref demo_may demo_grant_kind demo_command_defs)
  then obtain s' where s': "handle_approval_grant ?E ''c'' demo_grant ''pk'' demo_relay =
      (Inl (Internal (''error: commit transaction: '' @ db_error_text (Sqlx ''lost''))), s')"
    and later: "\<forall>ev2 self2 s2. Option.bind (command_reference ev2) (hex_decode ?E) = Some ''h'' \<and>
       t_approvals (tables s2) = t_approvals (tables s') \<longrightarrow>
       isl (fst (handle_approval_grant ?E ''c'' ev2 self2 s2))" by blast
  from later ref have "isl (fst (handle_approval_grant ?E ''c'' demo_grant ''pk'' s'))" by blast
  with s' show ?thesis by (intro exI [of _ s']) simp
qed



subsection \<open>Who may start a run\<close>

lemma or_xor_fold:
  "length as = length bs \<Longrightarrow>
   fold (\<lambda>(a, b) result. result OR (a XOR b)) (zip as bs) (r :: byte) = 0 \<longleftrightarrow> r = 0 \<and> as = bs"
proof (induction as bs arbitrary: r rule: list_induct2)
  case (Cons a as b bs)
  have "r OR (a XOR b) = 0 \<longleftrightarrow> r = 0 \<and> a = b" for r :: byte
    by (auto simp: bit_eq_iff bit_or_iff bit_xor_iff)
  then show ?case using Cons.IH by auto
qed simp

lemma verify_secret_eq [simp]: "verify_secret provided stored \<longleftrightarrow> provided = stored"
proof
  assume v: "verify_secret provided stored"
  then show "provided = stored"
    by (auto simp: verify_secret_def or_xor_fold split: if_splits)
qed (simp add: verify_secret_def or_xor_fold)


lemma find_workflow_result:
  assumes "quiet E" and "find_workflow E c i s = (r, s1)"
  shows "tables s1 = tables s \<and> rl_tables s1 = rl_tables s \<and>
    (\<forall>x. r = Inr (Inr x) \<longrightarrow> hget (t_workflows (tables s)) (c, i) = Some x)"
  using assms
  by (auto simp: find_workflow_def query_def statement_def quiet_def noted_def Let_def get_workflow_def
      split: db_fault.splits prod.splits option.splits)

lemma bind_tenant_result:
  assumes "quiet E" and "bind_tenant E h s = (r, s1)"
  shows "tables s1 = tables s \<and> rl_tables s1 = rl_tables s \<and>
    (\<forall>t. r = Inr t \<longrightarrow>
       (\<exists>com \<in> set (ct_communities (rl_tables s)).
          tn_community t = cr_id com \<and> cr_archived_at com = None \<and>
          sql_lower E (cr_host com) = sql_lower E (normalize_host h)))"
  using assms
  by (auto simp: bind_tenant_def bind_community_def cmd_query_def resolve_host_def
      lookup_community_by_host_def resolved_def Let_def others_quiet find_Some_iff map_sum_def
      split: db_fault.splits prod.splits option.splits if_splits sum.splits dest!: nth_mem)

lemma new_run_result:
  assumes "quiet E" and "new_run_for E err c i ev ctx s = (r, s1)"
  shows "tables s1 = tables s\<lparr>t_runs := t_runs (tables s1)\<rparr> \<and> rl_tables s1 = rl_tables s"
  using assms
  by (auto simp: new_run_for_def cmd_statement_def statement_def quiet_def noted_def Let_def
      create_workflow_run_def split: db_fault.splits prod.splits if_splits)

text \<open>A webhook starts a run only with the secret of the workflow: whatever the request, when any row
  changes or a task is spawned, the host of the request is the host of a live community, the
  workflow is one of that community with a webhook trigger, and the secret that came with the
  request is the secret in its definition. The run is one of that community, in the workflow's
  own channel.\<close>

theorem webhook_needs_secret:
  assumes "quiet E" and "workflow_webhook E q s = (r, s')"
    and "tables s' \<noteq> tables s \<or> \<not> isl r"
  shows "\<exists>com i row d runs. com \<in> set (ct_communities (rl_tables s)) \<and> cr_archived_at com = None \<and>
    sql_lower E (cr_host com) = sql_lower E (normalize_host (wq_host q)) \<and>
    parse_uuid E (wq_id q) = Inr i \<and>
    hget (t_workflows (tables s)) (cr_id com, i) = Some row \<and>
    def_from_json E (wr_definition row) = Inr d \<and> wd_trigger d = Webhook \<and>
    extract_secret (wr_definition row) = Some (provided_secret q) \<and>
    tables s' = tables s\<lparr>t_runs := runs\<rparr> \<and>
    (\<forall>resp ts. r = Inr (resp, ts) \<longrightarrow>
       (\<exists>run ctx. ts = [RunWorkflow (cr_id com) run (wr_definition row) ctx] \<and>
          tc_channel_id ctx = (case wr_channel_id row of Some ch \<Rightarrow> ch | None \<Rightarrow> [])))"
proof -
  obtain i where i: "parse_uuid E (wq_id q) = Inr i"
    using assms(2,3) by (auto simp: workflow_webhook_def split: sum.splits)
  obtain b s1 where b: "bind_tenant E (wq_host q) s = (b, s1)" by fastforce
  note B = bind_tenant_result [OF assms(1) b]
  obtain t where t: "b = Inr t"
    using assms(2,3) i b B by (auto simp: workflow_webhook_def split: sum.splits)
  from B t obtain com where com: "com \<in> set (ct_communities (rl_tables s))" "cr_archived_at com = None"
      "sql_lower E (cr_host com) = sql_lower E (normalize_host (wq_host q))" "tn_community t = cr_id com"
    by auto
  obtain f s2 where f: "find_workflow E (cr_id com) i s1 = (f, s2)" by fastforce
  note F = find_workflow_result [OF assms(1) f]
  have same: "tables s2 = tables s" using F B by simp
  have "\<exists>row. f = Inr (Inr row)"
  proof (rule ccontr)
    assume "\<nexists>row. f = Inr (Inr row)"
    then consider e where "f = Inl e" | e where "f = Inr (Inl e)" by (metis sum.exhaust)
    then show False
      using assms(2,3) i b t com(4) f same by cases (auto simp: workflow_webhook_def Let_def)
  qed
  then obtain row where row: "f = Inr (Inr row)" ..
  let ?ctx = "\<lambda>body. TriggerContext_default
      \<lparr>tc_channel_id := (case wr_channel_id row of Some ch \<Rightarrow> ch | None \<Rightarrow> []),
       tc_webhook_fields := payload_fields E body\<rparr>"
  obtain d body where d: "def_from_json E (wr_definition row) = Inr d" "wd_trigger d = Webhook"
      "and_then (webhook_secret_ok q (wr_definition row)) (\<lambda>_. webhook_body E (wq_body q)) = Inr body"
    using assms(2,3) i b t com(4) f row same
    by (auto simp: workflow_webhook_def Let_def split: sum.splits if_splits)
  obtain n s3 where n: "new_run_for E (internal ''db'') (cr_id com) i None (?ctx body) s2 = (n, s3)"
    by fastforce
  obtain runs where runs: "tables s3 = tables s\<lparr>t_runs := runs\<rparr>"
    using new_run_result [OF assms(1) n] same by metis
  have s': "s' = s3" and r: "\<And>resp ts. r = Inr (resp, ts) \<Longrightarrow>
      \<exists>run. ts = [RunWorkflow (cr_id com) run (wr_definition row) (?ctx body)]"
    using assms(2) i b t com(4) f row d n
    by (auto simp: workflow_webhook_def Let_def split: sum.splits)
  have "extract_secret (wr_definition row) = Some (provided_secret q)"
    using d(3) by (auto simp: and_then_eq_Inr webhook_secret_ok_def split: option.splits if_splits)
  moreover have "hget (t_workflows (tables s)) (cr_id com, i) = Some row" using F B row by simp
  ultimately show ?thesis using com(1-3) i d(1,2) runs s' r
    by (intro exI [of _ com] exI [of _ i] exI [of _ row] exI [of _ d] exI [of _ runs]) fastforce
qed


text \<open>A disabled workflow still runs: a webhook with the right secret starts a run of a workflow that is
  switched off in its definition (\<open>enabled: false\<close>) and in its row, although neither events nor
  the scheduler start it.\<close>

theorem disabled_workflow_runs_on_webhook:
  assumes "quiet E" and "\<And>n. db_fault E n = NoFault" and "parse_uuid E (wq_id q) = Inr i"
    and "normalize_host (wq_host q) \<noteq> []"
    and "lookup_community_by_host (sql_lower E) (ct_communities (rl_tables s))
           (normalize_host (wq_host q)) = Some com"
    and "hget (t_workflows (tables s)) (cr_id com, i) = Some row"
    and "\<not> wr_enabled row" and "wr_status row = WfDisabled"
    and "def_from_json E (wr_definition row) = Inr d" and "wd_trigger d = Webhook"
    and "\<not> wd_enabled d" and "extract_secret (wr_definition row) = Some (provided_secret q)"
    and "webhook_body E (wq_body q) = Inr body"
    and "hget (t_runs (tables s)) (cr_id com, fresh_uuid E (moment (rl_world s) + 2)) = None"
  shows "\<exists>resp ctx. fst (workflow_webhook E q s) = Inr ((202, resp),
    [RunWorkflow (cr_id com) (fresh_uuid E (moment (rl_world s) + 2)) (wr_definition row) ctx])"
proof -
  note q = assms(1)
  let ?t = "resolved (cr_id com) (normalize_host (wq_host q))"
  have b: "bind_tenant E (wq_host q) s = (Inr ?t, others_act E s)"
    using assms(4,5)
    by (simp add: bind_tenant_def query_ok [OF q assms(2)] resolve_host_def bind_community_def)
  have f: "find_workflow E (cr_id com) i (others_act E s) = (Inr (Inr row), others_act E (others_act E s))"
    using assms(2,6)
    by (simp add: find_workflow_def query_def statement_def Let_def get_workflow_def others_act_def
        noted_def q [unfolded quiet_def])
  have sec: "and_then (webhook_secret_ok q (wr_definition row)) (\<lambda>_. webhook_body E (wq_body q)) = Inr body"
    using assms(12,13) by (simp add: webhook_secret_ok_def)
  have "\<exists>s3. new_run_for E (internal ''db'') (cr_id com) i None ctx (others_act E (others_act E s)) =
      (Inr (fresh_uuid E (moment (rl_world s) + 2)), s3)" for ctx
    using assms(2,6,14)
    by (simp add: new_run_for_def cmd_statement_def statement_def Let_def others_quiet [OF q]
        q [unfolded quiet_def] create_workflow_run_def)
  then obtain s3 where n: "\<And>ctx. new_run_for E (internal ''db'') (cr_id com) i None ctx
      (others_act E (others_act E s)) = (Inr (fresh_uuid E (moment (rl_world s) + 2)), s3 ctx)"
    by metis
  show ?thesis
    by (simp add: workflow_webhook_def assms(3,9,10) b f sec resolved_def Let_def n)
qed

text \<open>A manual trigger runs with the authority of the workflow's owner, so only the owner can give it:
  when the command changes any row or spawns a task, the caller owns the workflow, and the one
  change is a run of it.\<close>

theorem manual_trigger_needs_owner:
  assumes "quiet E" and "handle_workflow_trigger E c ev self s = (r, s')"
    and "tables s' \<noteq> tables s \<or> (\<exists>x t ts. r = Inr (x, t # ts))"
  shows "\<exists>i row runs. hget (t_workflows (tables s)) (c, i) = Some row \<and> wr_owner_pubkey row = self \<and>
    tables s' = tables s\<lparr>t_runs := runs\<rparr> \<and>
    (\<forall>x ts. r = Inr (x, ts) \<longrightarrow>
       (\<exists>run ctx. ts = [RunWorkflow c run (wr_definition row) ctx] \<and>
          tc_author ctx = hex_encode E self))"
  using assms(2) unfolding handle_workflow_trigger_def
proof (elim cmd_bindE, goal_cases)
  case (5 id_str s1 i s2 found s3 row s4)
  have s: "s2 = s" "s4 = s3" "found = Inr row"
    using 5(1,2,4) by (auto simp: cmd_some_def cmd_of_def split: option.splits sum.splits)
  note F = find_workflow_result [OF assms(1) 5(3)]
  have own: "wr_owner_pubkey row = self"
    using 5(5) assms(3) s F by (auto simp: cmd_of_def split: if_splits)
  then have not_other: "\<not> wr_owner_pubkey row \<noteq> self" by simp
  let ?ctx = "TriggerContext_default
     \<lparr>tc_channel_id := (case wr_channel_id row of Some ch \<Rightarrow> ch | None \<Rightarrow> []),
      tc_author := hex_encode E self,
      tc_webhook_fields := (if ev_content ev = [] then []
        else payload_fields E (json_parse E (ev_content ev)))\<rparr>"
  have row: "hget (t_workflows (tables s)) (c, i) = Some row" using F s by simp
  have "tables s' = tables s\<lparr>t_runs := t_runs (tables s')\<rparr> \<and>
     (\<forall>x ts. r = Inr (x, ts) \<longrightarrow>
       ts = [] \<and> tables s' = tables s \<or> (\<exists>run. ts = [RunWorkflow c run (wr_definition row) ?ctx]))"
    using 5(5) [unfolded if_not_P [OF not_other]]
  proof (elim cmd_bindE, goal_cases)
    case (1 e)
    then show ?case using keeps_eq [OF keeps_persist [OF assms(1)] 1(1)] F s by auto
  next
    case (2 p s5)
    have t5: "tables s5 = tables s" using keeps_eq [OF keeps_persist [OF assms(1)] 2(1)] F s by simp
    show ?case
    proof (cases p)
      case Duplicate
      then show ?thesis using 2(2) t5 by (auto simp: cmd_of_def)
    next
      case (Inserted tx)
      from 2(2) show ?thesis
        unfolding Inserted PersistResult.case Let_def
      proof (elim cmd_bindE, goal_cases)
        case (1 e)
        then show ?case using new_run_result [OF assms(1) 1(1)] t5 by simp
      next
        case (2 run s6 e)
        then show ?case
          using new_run_result [OF assms(1) 2(1)] keeps_eq [OF keeps_commit [OF assms(1)] 2(2)] t5 by simp
      next
        case (3 run s6 u s7)
        then show ?case
          using new_run_result [OF assms(1) 3(1)] keeps_eq [OF keeps_commit [OF assms(1)] 3(2)] t5
          by (auto simp: cmd_of_def)
      qed
    qed
  qed
  then show ?case using row own assms(3)
    by (intro exI [of _ i] exI [of _ row] exI [of _ "t_runs (tables s')"]) fastforce
next
  case (3 id_str s1 i s2 e)
  then show ?case by (auto simp: find_workflow_def split: prod.splits)
next
  case (4 id_str s1 i s2 found s3 e)
  then have "s2 = s" "s' = s3" by (auto simp: cmd_some_def cmd_of_def)
  then show ?case using find_workflow_result [OF assms(1) 4(3)] assms(3) 4(5) by auto
qed (use assms(3) in \<open>auto simp: cmd_some_def cmd_of_def\<close>)


definition demo_hook :: WorkflowRecord where
  "demo_hook = (new_workflow ''c'' ''w'' (Some ''ch'') ''o'' ''greet''
     (JObject [(''_webhook_secret'', JString ''s'')]) ''h'' 0)
     \<lparr>wr_enabled := False, wr_status := WfDisabled\<rparr>"

definition demo_hooked :: relay where
  "demo_hooked = demo_relay\<lparr>rl_world := demo_quiet_world
     \<lparr>w_tables := demo_tables\<lparr>t_workflows := [((''c'', ''w''), demo_hook)]\<rparr>\<rparr>\<rparr>"

definition demo_request :: webhook_request where
  "demo_request = \<lparr>wq_id = ''w'', wq_host = ''A:443'', wq_header_secret = Some ''s'',
     wq_query_secret = None, wq_body = []\<rparr>"

lemma demo_host: "normalize_host ''A:443'' = ''a''"
proof (rule normalize_spells)
  show "canonical_host ''a''"
    by (simp add: canonical_host_def plain_def ascii_lower_def strip_suffix_def starts_with_def)
  show "spells ''A:443'' ''a''"
    unfolding spells_def
    by (rule_tac exI [of _ "[]"], rule_tac exI [of _ "''A''"], rule_tac exI [of _ "[]"],
        rule_tac exI [of _ "'':443''"], rule_tac exI [of _ "[]"])
      (simp add: ascii_space_def, code_simp)
qed

lemmas demo_hook_defs = demo_hooked_def demo_hook_def demo_request_def new_workflow_def
  extract_secret_def SECRET_KEY_def json_field_def provided_secret_def webhook_body_def demo_command_defs

lemma disabled_workflow_runs_on_webhook_witness:
  "\<exists>resp ctx. fst (workflow_webhook (demo_commands (\<lambda>_. NoFault)) demo_request demo_hooked) =
     Inr ((202, resp), [RunWorkflow ''c'' ''run2'' (wr_definition demo_hook) ctx])"
proof -
  have d: "dec (Suc (Suc 0)) = ''2''" by code_simp
  have "\<exists>resp ctx. fst (workflow_webhook (demo_commands (\<lambda>_. NoFault)) demo_request demo_hooked) =
      Inr ((202, resp), [RunWorkflow (cr_id \<lparr>cr_id = ''c'', cr_host = ''a'', cr_archived_at = None\<rparr>)
        (fresh_uuid (demo_commands (\<lambda>_. NoFault)) (moment (rl_world demo_hooked) + 2))
        (wr_definition demo_hook) ctx])"
    by (rule disabled_workflow_runs_on_webhook [where i = "''w''" and body = None and row = demo_hook
             and d = "demo_def\<lparr>wd_trigger := Webhook, wd_enabled := False\<rparr>"])
      (simp_all add: demo_hook_defs demo_host lookup_community_by_host_def)
  moreover have "moment (rl_world demo_hooked) + 2 = 2" by (simp add: demo_hook_defs)
  ultimately show ?thesis by (simp add: d)
qed

lemma webhook_needs_secret_witness:
  "\<exists>com i row d runs s'. com \<in> set (ct_communities (rl_tables demo_hooked)) \<and>
     parse_uuid (demo_commands (\<lambda>_. NoFault)) ''w'' = Inr i \<and>
     hget (t_workflows (tables demo_hooked)) (cr_id com, i) = Some row \<and>
     def_from_json (demo_commands (\<lambda>_. NoFault)) (wr_definition row) = Inr d \<and>
     extract_secret (wr_definition row) = Some ''s'' \<and>
     tables s' = tables demo_hooked\<lparr>t_runs := runs\<rparr>"
proof -
  let ?E = "demo_commands (\<lambda>_. NoFault)"
  obtain r s' where run: "workflow_webhook ?E demo_request demo_hooked = (r, s')" by fastforce
  have "bind_tenant ?E ''A:443'' demo_hooked =
      (Inr (resolved ''c'' ''a''), others_act ?E demo_hooked)"
    by (simp add: bind_tenant_def demo_host query_ok resolve_host_def lookup_community_by_host_def
        bind_community_def demo_hooked_def demo_relay_def)
  moreover have "find_workflow ?E ''c'' ''w'' (others_act ?E demo_hooked) =
      (Inr (Inr demo_hook), others_act ?E (others_act ?E demo_hooked))"
    by (simp add: find_workflow_def query_def statement_def Let_def get_workflow_def others_act_def
        noted_def demo_hooked_def)
  ultimately have "\<not> isl r"
    using run by (auto simp: workflow_webhook_def Let_def resolved_def demo_hook_defs and_then_def demo_def_def
        webhook_secret_ok_def new_run_for_def cmd_statement_def statement_def others_act_def noted_def
        create_workflow_run_def split: sum.splits prod.splits)
  with webhook_needs_secret [OF _ run]
  obtain com i row d runs where "com \<in> set (ct_communities (rl_tables demo_hooked))"
    "parse_uuid ?E (wq_id demo_request) = Inr i"
    "hget (t_workflows (tables demo_hooked)) (cr_id com, i) = Some row"
    "def_from_json ?E (wr_definition row) = Inr d"
    "extract_secret (wr_definition row) = Some (provided_secret demo_request)"
    "tables s' = tables demo_hooked\<lparr>t_runs := runs\<rparr>" by auto
  then show ?thesis
    by (intro exI [of _ com] exI [of _ i] exI [of _ row] exI [of _ d] exI [of _ runs] exI [of _ s'])
      (simp add: demo_request_def provided_secret_def)
qed

end
