(* ===== verification/Auth.thy ===== *)
theory Auth
  imports Tenant Kinds Bytes
begin

text \<open>
  Authentication (\<open>buzz-auth\<close>: \<open>scope.rs\<close>, \<open>access.rs\<close>, \<open>nip42.rs\<close>, \<open>nip98.rs\<close>, \<open>lib.rs\<close>,
  \<open>error.rs\<close>; \<open>buzz-core/src/verification.rs\<close>) and the authentication of an HTTP request and the
  expected URLs of \<open>buzz-relay/src/api/bridge.rs\<close>.

  Event ids, signatures, SHA-256, hexadecimal and base64 coding, JSON and the \<open>url\<close> crate belong
  to other packages and are parameters (\<open>auth_env\<close>, \<open>url_api\<close>), as are the Unicode tables behind
  \<open>to_lowercase\<close> and the \<open>Debug\<close> text of a list. The clock (seconds) is an argument.
  A header is looked up by its lower case name; its value is there when it is visible ASCII.
\<close>

subsection \<open>Errors and scopes\<close>

datatype AuthError =
    InvalidSignature | ChallengeMismatch | RelayUrlMismatch | EventExpired
  | Nip98Invalid string | Nip98Replay | PubkeyMismatch
  | InsufficientScope string "string list" | ChannelAccessDenied | Internal string

datatype Scope =
    MessagesRead | MessagesWrite | ChannelsRead | ChannelsWrite | AdminChannels
  | UsersRead | UsersWrite | AdminUsers | JobsRead | JobsWrite
  | SubscriptionsRead | SubscriptionsWrite | FilesRead | FilesWrite
  | ReposRead | ReposWrite | Unknown string

definition all_known :: "Scope list" where
  "all_known =
     [MessagesRead, MessagesWrite, ChannelsRead, ChannelsWrite, AdminChannels,
      UsersRead, UsersWrite, AdminUsers, JobsRead, JobsWrite,
      SubscriptionsRead, SubscriptionsWrite, FilesRead, FilesWrite, ReposRead, ReposWrite]"

definition all_non_admin :: "Scope list" where
  "all_non_admin =
     [MessagesRead, MessagesWrite, ChannelsRead, ChannelsWrite,
      UsersRead, UsersWrite, JobsRead, JobsWrite,
      SubscriptionsRead, SubscriptionsWrite, FilesRead, FilesWrite, ReposRead, ReposWrite]"

fun scope_as_str :: "Scope \<Rightarrow> string" where
  "scope_as_str MessagesRead = ''messages:read''"
| "scope_as_str MessagesWrite = ''messages:write''"
| "scope_as_str ChannelsRead = ''channels:read''"
| "scope_as_str ChannelsWrite = ''channels:write''"
| "scope_as_str AdminChannels = ''admin:channels''"
| "scope_as_str UsersRead = ''users:read''"
| "scope_as_str UsersWrite = ''users:write''"
| "scope_as_str AdminUsers = ''admin:users''"
| "scope_as_str JobsRead = ''jobs:read''"
| "scope_as_str JobsWrite = ''jobs:write''"
| "scope_as_str SubscriptionsRead = ''subscriptions:read''"
| "scope_as_str SubscriptionsWrite = ''subscriptions:write''"
| "scope_as_str FilesRead = ''files:read''"
| "scope_as_str FilesWrite = ''files:write''"
| "scope_as_str ReposRead = ''repos:read''"
| "scope_as_str ReposWrite = ''repos:write''"
| "scope_as_str (Unknown s) = s"

definition scope_from_str :: "string \<Rightarrow> Scope" where
  "scope_from_str s =
     (if s = ''messages:read'' then MessagesRead
      else if s = ''messages:write'' then MessagesWrite
      else if s = ''channels:read'' then ChannelsRead
      else if s = ''channels:write'' then ChannelsWrite
      else if s = ''admin:channels'' then AdminChannels
      else if s = ''users:read'' then UsersRead
      else if s = ''users:write'' then UsersWrite
      else if s = ''admin:users'' then AdminUsers
      else if s = ''jobs:read'' then JobsRead
      else if s = ''jobs:write'' then JobsWrite
      else if s = ''subscriptions:read'' then SubscriptionsRead
      else if s = ''subscriptions:write'' then SubscriptionsWrite
      else if s = ''files:read'' then FilesRead
      else if s = ''files:write'' then FilesWrite
      else if s = ''repos:read'' then ReposRead
      else if s = ''repos:write'' then ReposWrite
      else Unknown s)"

definition parse_scopes :: "string list \<Rightarrow> Scope list" where
  "parse_scopes raw = map scope_from_str raw"

subsection \<open>Access to a channel\<close>

definition require_scope :: "Scope list \<Rightarrow> Scope \<Rightarrow> AuthError + unit" where
  "require_scope scopes required =
     (if required \<in> set scopes then Inr ()
      else Inl (InsufficientScope (scope_as_str required) (map scope_as_str scopes)))"

text \<open>The default \<open>can_access\<close> of a checker, from its \<open>accessible_channel_ids\<close>.\<close>

definition can_access ::
  "(TenantContext \<Rightarrow> string \<Rightarrow> AuthError + uuid list) \<Rightarrow> TenantContext \<Rightarrow> string \<Rightarrow> uuid \<Rightarrow> AuthError + bool" where
  "can_access accessible ctx pubkey channel =
     map_sum id (\<lambda>ids. channel \<in> set ids) (accessible ctx pubkey)"

definition check_read_access ::
  "(TenantContext \<Rightarrow> string \<Rightarrow> uuid \<Rightarrow> AuthError + bool) \<Rightarrow> TenantContext \<Rightarrow> string \<Rightarrow> uuid \<Rightarrow>
   Scope list \<Rightarrow> AuthError + unit" where
  "check_read_access checker ctx pubkey channel scopes =
     and_then (require_scope scopes MessagesRead) (\<lambda>_.
     and_then (checker ctx pubkey channel) (\<lambda>ok.
     if ok then Inr () else Inl ChannelAccessDenied))"

definition check_write_access ::
  "(TenantContext \<Rightarrow> string \<Rightarrow> uuid \<Rightarrow> AuthError + bool) \<Rightarrow> TenantContext \<Rightarrow> string \<Rightarrow> uuid \<Rightarrow>
   Scope list \<Rightarrow> AuthError + unit" where
  "check_write_access checker ctx pubkey channel scopes =
     and_then (require_scope scopes MessagesWrite) (\<lambda>_.
     and_then (checker ctx pubkey channel) (\<lambda>ok.
     if ok then Inr () else Inl ChannelAccessDenied))"

subsection \<open>Signed events and URLs\<close>

record signed_event = nostr_event +
  ev_sig :: string

record auth_env =
  au_verify_id :: "signed_event \<Rightarrow> bool"
  au_verify_signature :: "signed_event \<Rightarrow> bool"
  au_parse_event :: "string \<Rightarrow> string + signed_event"
  au_sha256 :: "bytes \<Rightarrow> bytes"
  au_hex :: "bytes \<Rightarrow> string"
  au_base64 :: "string \<Rightarrow> bytes option"
  au_from_utf8 :: "bytes \<Rightarrow> string option"
  au_pubkey_from_hex :: "string \<Rightarrow> string option"
  au_debug :: "string list \<Rightarrow> string"

record 'u url_api =
  url_parse :: "string \<Rightarrow> 'u option"
  url_host_str :: "'u \<Rightarrow> string option"
  url_set_host :: "string \<Rightarrow> 'u \<Rightarrow> 'u"
  url_path :: "'u \<Rightarrow> string"
  url_set_path :: "string \<Rightarrow> 'u \<Rightarrow> 'u"
  url_to_string :: "'u \<Rightarrow> string"
  str_to_lowercase :: "string \<Rightarrow> string"

datatype VerificationError = InvalidId | BadSignature

definition verify_event :: "auth_env \<Rightarrow> signed_event \<Rightarrow> VerificationError + unit" where
  "verify_event E event =
     (if \<not> au_verify_id E event then Inl InvalidId
      else if \<not> au_verify_signature E event then Inl BadSignature
      else Inr ())"

text \<open>\<open>event.tags.find(kind).and_then(|t| t.content())\<close>\<close>

definition tag_text :: "string \<Rightarrow> signed_event \<Rightarrow> string option" where
  "tag_text kind event = Option.bind (find (\<lambda>t. tag_kind t = kind) (ev_tags event)) tag_content"

definition abs_diff :: "nat \<Rightarrow> nat \<Rightarrow> nat" where
  "abs_diff a b = (if a \<le> b then b - a else a - b)"

definition trim_end_slashes :: "string \<Rightarrow> string" where
  "trim_end_slashes s = rev (dropWhile (\<lambda>c. c = CHR ''/'') (rev s))"

definition TIMESTAMP_TOLERANCE_SECS :: nat where "TIMESTAMP_TOLERANCE_SECS = 60"

subsection \<open>NIP-42\<close>

definition normalize_relay_url :: "'u url_api \<Rightarrow> string \<Rightarrow> string" where
  "normalize_relay_url U raw =
     (case url_parse U raw of
        None \<Rightarrow> raw
      | Some u \<Rightarrow>
          (let parsed = (case url_host_str U u of
                           None \<Rightarrow> u
                         | Some host \<Rightarrow>
                             if host = ''localhost'' \<or> host = ''::1''
                             then url_set_host U ''127.0.0.1'' u else u)
           in url_to_string U (url_set_path U (trim_end_slashes (url_path U parsed)) parsed)))"

definition generate_challenge :: "auth_env \<Rightarrow> bytes \<Rightarrow> string" where
  "generate_challenge E random = au_hex E random"

definition KIND_AUTHENTICATION :: nat where "KIND_AUTHENTICATION = 22242"

definition verify_nip42_event ::
  "auth_env \<Rightarrow> 'u url_api \<Rightarrow> nat \<Rightarrow> signed_event \<Rightarrow> string \<Rightarrow> string \<Rightarrow> AuthError + unit" where
  "verify_nip42_event E U now event expected_challenge relay =
     (if ev_kind event \<noteq> KIND_AUTHENTICATION then Inl InvalidSignature
      else case verify_event E event of
             Inl _ \<Rightarrow> Inl InvalidSignature
           | Inr _ \<Rightarrow>
      (case tag_text ''challenge'' event of
         None \<Rightarrow> Inl ChallengeMismatch
       | Some challenge \<Rightarrow>
           if challenge \<noteq> expected_challenge then Inl ChallengeMismatch
           else case tag_text ''relay'' event of
                  None \<Rightarrow> Inl RelayUrlMismatch
                | Some r \<Rightarrow>
                    if normalize_relay_url U r \<noteq> normalize_relay_url U relay then Inl RelayUrlMismatch
                    else if abs_diff now (ev_created_at event) > TIMESTAMP_TOLERANCE_SECS then Inl EventExpired
                    else Inr ()))"

datatype AuthMethod = Nip42 | Nip98

record AuthContext =
  ac_pubkey :: string
  ac_scopes :: "Scope list"
  ac_channel_ids :: "uuid list option"
  ac_auth_method :: AuthMethod
  ac_agent_owner_pubkey :: "string option"

definition has_scope :: "AuthContext \<Rightarrow> Scope \<Rightarrow> bool" where
  "has_scope ctx s \<longleftrightarrow> s \<in> set (ac_scopes ctx)"

text \<open>The verification runs in a blocking task; \<open>panicked\<close> says that the task did not finish.\<close>

definition verify_auth_event ::
  "auth_env \<Rightarrow> 'u url_api \<Rightarrow> bool \<Rightarrow> nat \<Rightarrow> signed_event \<Rightarrow> string \<Rightarrow> string \<Rightarrow> AuthError + AuthContext" where
  "verify_auth_event E U panicked now event expected_challenge relay =
     (if panicked then Inl (Internal ''spawn_blocking panicked'')
      else and_then (verify_nip42_event E U now event expected_challenge relay) (\<lambda>_.
        Inr \<lparr>ac_pubkey = ev_pubkey event, ac_scopes = all_known, ac_channel_ids = None,
             ac_auth_method = Nip42, ac_agent_owner_pubkey = None\<rparr>))"

subsection \<open>NIP-98\<close>

definition normalize_url :: "'u url_api \<Rightarrow> string \<Rightarrow> string" where
  "normalize_url U raw =
     (case url_parse U raw of
        None \<Rightarrow> str_to_lowercase U raw
      | Some parsed \<Rightarrow> url_to_string U (url_set_path U (trim_end_slashes (url_path U parsed)) parsed))"

definition eq_ignore_ascii_case :: "string \<Rightarrow> string \<Rightarrow> bool" where
  "eq_ignore_ascii_case a b \<longleftrightarrow> map ascii_lower a = map ascii_lower b"

definition backtick :: char where "backtick = CHR 0x60"

definition ticked :: "string \<Rightarrow> string" where
  "ticked s = backtick # s @ [backtick]"


definition verify_nip98_parsed ::
  "auth_env \<Rightarrow> 'u url_api \<Rightarrow> nat \<Rightarrow> signed_event \<Rightarrow> string \<Rightarrow> string \<Rightarrow> bytes option \<Rightarrow> AuthError + string" where
  "verify_nip98_parsed E U now event expected_url expected_method body =
     (if ev_kind event \<noteq> KIND_HTTP_AUTH
      then Inl (Nip98Invalid (''expected kind 27235, got '' @ dec (ev_kind event)))
      else case verify_event E event of
        Inl _ \<Rightarrow> Inl (Nip98Invalid ''invalid Schnorr signature'')
      | Inr _ \<Rightarrow>
      (let delta = abs_diff now (ev_created_at event)
       in if delta > TIMESTAMP_TOLERANCE_SECS
          then Inl (Nip98Invalid (''event timestamp outside '' @ [CHR 0xC2, CHR 0xB1] @ ''60s window (delta: '' @ dec delta @ ''s)''))
          else case tag_text ''u'' event of
            None \<Rightarrow> Inl (Nip98Invalid (''missing '' @ ticked ''u'' @ '' tag''))
          | Some u \<Rightarrow>
          (if normalize_url U u \<noteq> normalize_url U expected_url
           then Inl (Nip98Invalid (''URL mismatch: event has '' @ ticked u @ '', expected '' @ ticked expected_url))
           else case tag_text ''method'' event of
             None \<Rightarrow> Inl (Nip98Invalid (''missing '' @ ticked ''method'' @ '' tag''))
           | Some m \<Rightarrow>
           (if \<not> eq_ignore_ascii_case m expected_method
            then Inl (Nip98Invalid (''method mismatch: event has '' @ ticked m @ '', expected '' @ ticked expected_method))
            else case (tag_text ''payload'' event, body) of
              (Some payload, Some body_bytes) \<Rightarrow>
                if au_hex E (au_sha256 E body_bytes) \<noteq> payload
                then Inl (Nip98Invalid ''payload tag SHA-256 mismatch: request body does not match signed hash'')
                else Inr (ev_pubkey event)
            | _ \<Rightarrow> Inr (ev_pubkey event)))))"

definition verify_nip98_event ::
  "auth_env \<Rightarrow> 'u url_api \<Rightarrow> nat \<Rightarrow> string \<Rightarrow> string \<Rightarrow> string \<Rightarrow> bytes option \<Rightarrow> AuthError + string" where
  "verify_nip98_event E U now event_json expected_url expected_method body =
     (case au_parse_event E event_json of
        Inl e \<Rightarrow> Inl (Nip98Invalid (''event JSON parse error: '' @ e))
      | Inr event \<Rightarrow> verify_nip98_parsed E U now event expected_url expected_method body)"

subsection \<open>The authentication of an HTTP request\<close>

text \<open>An error response is its status and the text of its \<open>error\<close> field.\<close>

type_synonym http_error = "nat \<times> string"
type_synonym headers = "string \<Rightarrow> string option"

definition auth_error_text :: "auth_env \<Rightarrow> AuthError \<Rightarrow> string" where
  "auth_error_text E e =
     (case e of
        InvalidSignature \<Rightarrow> ''invalid signature or malformed auth event''
      | ChallengeMismatch \<Rightarrow> ''challenge mismatch''
      | RelayUrlMismatch \<Rightarrow> ''relay url mismatch''
      | EventExpired \<Rightarrow> ''auth event timestamp outside '' @ [CHR 0xC2, CHR 0xB1] @ ''60s window''
      | Nip98Invalid s \<Rightarrow> ''NIP-98 HTTP Auth verification failed: '' @ s
      | Nip98Replay \<Rightarrow> ''NIP-98 replay: event id already seen within window''
      | PubkeyMismatch \<Rightarrow> ''pubkey mismatch: event pubkey does not match authenticated identity''
      | InsufficientScope required have_list \<Rightarrow>
          ''insufficient scope: required '' @ required @ '', have '' @ au_debug E have_list
      | ChannelAccessDenied \<Rightarrow> ''channel access denied''
      | Internal s \<Rightarrow> ''internal auth error: '' @ s)"

definition zero_id :: string where "zero_id = replicate 64 (CHR ''0'')"

definition verify_bridge_auth_with_options ::
  "auth_env \<Rightarrow> 'u url_api \<Rightarrow> nat \<Rightarrow> headers \<Rightarrow> string \<Rightarrow> string \<Rightarrow> bytes option \<Rightarrow> bool \<Rightarrow> bool \<Rightarrow>
   http_error + string \<times> string" where
  "verify_bridge_auth_with_options E U now headers method url body require_auth_token require_payload =
     (case Option.bind (headers ''authorization'') (\<lambda>s. strip_prefix s ''Nostr '') of
        Some auth_str \<Rightarrow>
          (case au_base64 E auth_str of
             None \<Rightarrow> Inl (401, ''invalid base64 in Nostr auth'')
           | Some bs \<Rightarrow>
          (case au_from_utf8 E bs of
             None \<Rightarrow> Inl (401, ''invalid UTF-8 in Nostr auth'')
           | Some event_json \<Rightarrow>
          (case au_parse_event E event_json of
             Inl _ \<Rightarrow> Inl (401, ''invalid NIP-98 event JSON'')
           | Inr event \<Rightarrow>
               if require_payload \<and> \<not> list_ex (\<lambda>t. tag_kind t = ''payload'') (ev_tags event)
               then Inl (401, ''NIP-98: missing payload tag'')
               else case verify_nip98_event E U now event_json url method body of
                      Inl e \<Rightarrow> Inl (401, ''NIP-98: '' @ auth_error_text E e)
                    | Inr pubkey \<Rightarrow> Inr (pubkey, ev_id event))))
      | None \<Rightarrow>
          (if \<not> require_auth_token
           then case headers ''x-pubkey'' of
                  Some v \<Rightarrow> (case au_pubkey_from_hex E v of
                               None \<Rightarrow> Inl (401, ''invalid X-Pubkey hex'')
                             | Some pubkey \<Rightarrow> Inr (pubkey, zero_id))
                | None \<Rightarrow> Inl (401, ''missing Nostr auth'')
           else Inl (401, ''missing Nostr auth'')))"

definition verify_bridge_auth ::
  "auth_env \<Rightarrow> 'u url_api \<Rightarrow> nat \<Rightarrow> headers \<Rightarrow> string \<Rightarrow> string \<Rightarrow> bytes option \<Rightarrow> bool \<Rightarrow>
   http_error + string \<times> string" where
  "verify_bridge_auth E U now headers method url body require_auth_token =
     verify_bridge_auth_with_options E U now headers method url body require_auth_token False"

definition nip98_expected_url :: "string \<Rightarrow> TenantContext \<Rightarrow> string \<Rightarrow> string" where
  "nip98_expected_url config_relay_url tenant path =
     (let scheme = (if starts_with (trim_start config_relay_url) ''wss://'' then ''https'' else ''http'')
      in scheme @ ''://'' @ tn_host tenant @ path)"

definition nip42_expected_relay_url :: "string \<Rightarrow> TenantContext \<Rightarrow> string" where
  "nip42_expected_relay_url config_relay_url tenant =
     (let scheme = (if starts_with (trim_start config_relay_url) ''wss://'' then ''wss'' else ''ws'')
      in scheme @ ''://'' @ tn_host tenant)"


subsection \<open>Scopes: printing and parsing\<close>

lemma scope_print_parse [simp]: "scope_as_str (scope_from_str s) = s"
  by (simp add: scope_from_str_def)

lemma scope_parse_known: "s \<in> set all_known \<Longrightarrow> scope_from_str (scope_as_str s) = s"
  by (auto simp: all_known_def scope_from_str_def)

lemma scope_from_str_cases: "scope_from_str s \<in> set all_known \<or> scope_from_str s = Unknown s"
  unfolding scope_from_str_def all_known_def by (simp only: if_splits list.set insert_iff) auto

lemma scope_parse_print:
  "scope_from_str (scope_as_str s) = s \<longleftrightarrow> (\<forall>t. s = Unknown t \<longrightarrow> t \<notin> set (map scope_as_str all_known))"
proof (cases "\<exists>t. s = Unknown t")
  case True
  then obtain t where s: "s = Unknown t" by blast
  show ?thesis
  proof (cases "t \<in> set (map scope_as_str all_known)")
    case True
    then obtain k where "k \<in> set all_known" "t = scope_as_str k" by auto
    then have "scope_from_str t \<noteq> Unknown t"
      by (simp add: scope_parse_known) (auto simp: all_known_def)
    with True show ?thesis by (simp add: s)
  next
    case False
    then have "scope_from_str t = Unknown t"
      using scope_from_str_cases [of t] by (metis image_eqI list.set_map scope_print_parse)
    with False show ?thesis by (simp add: s)
  qed
next
  case False
  then have "s \<in> set all_known" by (cases s) (auto simp: all_known_def)
  with False show ?thesis by (auto simp: scope_parse_known)
qed

text \<open>
  Scopes survive the database: every list of scope strings is printed back as it was read, the
  known scopes parse to themselves, and an unknown string stays an unknown scope (it never becomes
  a known one). The list for development without tokens has every known scope but the two for
  administration.
\<close>
lemma scopes_roundtrip:
  "map scope_as_str (parse_scopes raw) = raw \<and>
   parse_scopes (map scope_as_str all_known) = all_known \<and>
   distinct (map scope_as_str all_known) \<and>
   (\<forall>s. scope_from_str s \<in> set all_known \<longleftrightarrow> s \<in> set (map scope_as_str all_known)) \<and>
   set all_non_admin = set all_known - {AdminChannels, AdminUsers}"
proof (intro conjI allI)
  show "map scope_as_str (parse_scopes raw) = raw" by (simp add: parse_scopes_def comp_def)
  show "parse_scopes (map scope_as_str all_known) = all_known"
    by (simp add: parse_scopes_def map_idI scope_parse_known)
  show "distinct (map scope_as_str all_known)" by (simp add: all_known_def)
  show "scope_from_str s \<in> set all_known \<longleftrightarrow> s \<in> set (map scope_as_str all_known)" for s
    by (metis (no_types, lifting) imageE image_eqI list.set_map scope_parse_known scope_print_parse)
  show "set all_non_admin = set all_known - {AdminChannels, AdminUsers}"
    by (auto simp: all_known_def all_non_admin_def)
qed

lemma check_access_iff:
  "check_read_access checker ctx pubkey channel scopes = Inr () \<longleftrightarrow>
     MessagesRead \<in> set scopes \<and> checker ctx pubkey channel = Inr True"
  "check_write_access checker ctx pubkey channel scopes = Inr () \<longleftrightarrow>
     MessagesWrite \<in> set scopes \<and> checker ctx pubkey channel = Inr True"
  by (auto simp: check_read_access_def check_write_access_def require_scope_def and_then_eq_Inr
      split: if_splits)

subsection \<open>What a verified event says\<close>

definition fresh :: "nat \<Rightarrow> signed_event \<Rightarrow> bool" where
  "fresh now event \<longleftrightarrow> now \<le> ev_created_at event + 60 \<and> ev_created_at event \<le> now + 60"

lemma tolerance_fresh: "\<not> TIMESTAMP_TOLERANCE_SECS < abs_diff now (ev_created_at event) \<longleftrightarrow> fresh now event"
  by (auto simp: TIMESTAMP_TOLERANCE_SECS_def abs_diff_def fresh_def)

lemma verify_event_iff: "verify_event E event = Inr () \<longleftrightarrow> au_verify_id E event \<and> au_verify_signature E event"
  by (simp add: verify_event_def)

lemma nip42_accepts:
  "verify_nip42_event E U now event challenge relay = Inr () \<longleftrightarrow>
     ev_kind event = KIND_AUTHENTICATION \<and> verify_event E event = Inr () \<and>
     tag_text ''challenge'' event = Some challenge \<and>
     (\<exists>r. tag_text ''relay'' event = Some r \<and> normalize_relay_url U r = normalize_relay_url U relay) \<and>
     fresh now event"
  by (auto simp: verify_nip42_event_def tolerance_fresh [symmetric] split: sum.split option.split)

lemma nip98_parsed_accepts:
  "verify_nip98_parsed E U now event url method body = Inr pk \<longleftrightarrow>
     pk = ev_pubkey event \<and> ev_kind event = KIND_HTTP_AUTH \<and> verify_event E event = Inr () \<and> fresh now event \<and>
     (\<exists>u. tag_text ''u'' event = Some u \<and> normalize_url U u = normalize_url U url) \<and>
     (\<exists>m. tag_text ''method'' event = Some m \<and> eq_ignore_ascii_case m method) \<and>
     (\<forall>h b. tag_text ''payload'' event = Some h \<longrightarrow> body = Some b \<longrightarrow> au_hex E (au_sha256 E b) = h)"
  by (auto simp: verify_nip98_parsed_def tolerance_fresh [symmetric] Let_def split: sum.split option.split)

lemma nip98_accepts:
  "verify_nip98_event E U now json url method body = Inr pk \<longleftrightarrow>
     (\<exists>event. au_parse_event E json = Inr event \<and> verify_nip98_parsed E U now event url method body = Inr pk)"
  by (auto simp: verify_nip98_event_def split: sum.split)

text \<open>The event that the \<open>Authorization\<close> header of a request carries.\<close>

definition header_json :: "auth_env \<Rightarrow> headers \<Rightarrow> string option" where
  "header_json E h =
     (case Option.bind (h ''authorization'') (\<lambda>s. strip_prefix s ''Nostr '') of
        None \<Rightarrow> None
      | Some a \<Rightarrow> (case au_base64 E a of None \<Rightarrow> None | Some b \<Rightarrow> au_from_utf8 E b))"

definition header_event :: "auth_env \<Rightarrow> headers \<Rightarrow> signed_event option" where
  "header_event E h =
     (case header_json E h of
        None \<Rightarrow> None
      | Some json \<Rightarrow> (case au_parse_event E json of Inl _ \<Rightarrow> None | Inr ev \<Rightarrow> Some ev))"

lemma bridge_auth_accepts:
  "verify_bridge_auth_with_options E U now h method url body True require_payload = Inr (pk, i) \<longleftrightarrow>
     (\<exists>event. header_event E h = Some event \<and> i = ev_id event \<and>
        (require_payload \<longrightarrow> list_ex (\<lambda>t. tag_kind t = ''payload'') (ev_tags event)) \<and>
        verify_nip98_parsed E U now event url method body = Inr pk)"
proof (cases "Option.bind (h ''authorization'') (\<lambda>s. strip_prefix s ''Nostr '')")
  case None
  then show ?thesis by (simp add: verify_bridge_auth_with_options_def header_event_def header_json_def)
next
  case a: (Some a)
  show ?thesis
  proof (cases "au_base64 E a")
    case None
    then show ?thesis by (simp add: verify_bridge_auth_with_options_def header_event_def header_json_def a)
  next
    case b: (Some b)
    show ?thesis
    proof (cases "au_from_utf8 E b")
      case None
      then show ?thesis by (simp add: verify_bridge_auth_with_options_def header_event_def header_json_def a b)
    next
      case (Some json)
      then show ?thesis
        by (cases "au_parse_event E json")
          (auto simp: verify_bridge_auth_with_options_def header_event_def header_json_def a b
            verify_nip98_event_def split: sum.split)
    qed
  qed
qed

end
