(* ===== verification/Admission.thy ===== *)
theory Admission
  imports Auth Session_Directory
begin

text \<open>
  The shared guards of a request: the rate limiter and the seen-set of NIP-98 events over Redis
  (\<open>buzz-auth/src/rate_limit.rs\<close>, \<open>nip98_replay.rs\<close>; \<open>buzz-pubsub/src/rate_limiter.rs\<close>,
  \<open>nip98_replay.rs\<close>), admission (\<open>buzz-relay/src/admission.rs\<close>), and the authentication of the
  invite and operator requests (\<open>api/bridge.rs\<close>, \<open>api/invites.rs\<close>, \<open>api/operator.rs\<close>).

  Redis is the map of \<^theory_text>\<open>Session_Directory\<close>; its clock is in milliseconds, and the relays read the
  same clock in seconds. Every call may be refused or lose its answer after it was executed. The
  counters count up from what the key holds; a value that is no number is an error of Redis.
\<close>

subsection \<open>Redis commands\<close>

text \<open>
  \<open>EXPIRE\<close>: a time beyond the range of 64 bits is an error, a time that is over deletes the key.
\<close>

definition redis_expire :: "instant \<Rightarrow> string \<Rightarrow> int \<Rightarrow> Redis \<Rightarrow> (string + unit) \<times> Redis" where
  "redis_expire now k secs r =
     (if (2 ^ 63 - 1) div 1000 < secs \<or> secs < - ((2 ^ 63) div 1000) \<or> 2 ^ 63 - 1 - int now < 1000 * secs
      then (Inl ''ERR invalid expire time in 'expire' command'', r)
      else case redis_get now k r of
             None \<Rightarrow> (Inr (), r)
           | Some v \<Rightarrow> if secs \<le> 0 then (Inr (), redis_del k r)
                       else (Inr (), hput k (v, Some (now + 1000 * nat secs)) r))"

definition redis_ttl :: "instant \<Rightarrow> string \<Rightarrow> Redis \<Rightarrow> int" where
  "redis_ttl now k r =
     (case redis_get now k r of
        None \<Rightarrow> -2
      | Some _ \<Rightarrow> (case snd (the (hget r k)) of
                     None \<Rightarrow> -1
                   | Some t \<Rightarrow> int ((t - now + 500) div 1000)))"

definition redis_set_nx_ex :: "instant \<Rightarrow> string \<Rightarrow> string \<Rightarrow> nat \<Rightarrow> Redis \<Rightarrow> string option \<times> Redis" where
  "redis_set_nx_ex now k v secs r =
     (case redis_get now k r of
        Some _ \<Rightarrow> (None, r)
      | None \<Rightarrow> (Some ''OK'', hput k (v, Some (now + 1000 * secs)) r))"

text \<open>How a call over the connection ends.\<close>

datatype link = Answered | Refused string | Reply_lost string

definition over_link :: "link \<Rightarrow> (Redis \<Rightarrow> (string + 'a) \<times> Redis) \<Rightarrow> Redis \<Rightarrow> (string + 'a) \<times> Redis" where
  "over_link l f r =
     (case l of
        Answered \<Rightarrow> f r
      | Refused e \<Rightarrow> (Inl e, r)
      | Reply_lost e \<Rightarrow> (Inl e, snd (f r)))"

subsection \<open>Rate limits\<close>

record RateLimitResult =
  rl_allowed :: bool
  rl_current :: nat
  rl_limit :: nat
  rl_reset_in_secs :: nat

definition rl_result_allowed :: "nat \<Rightarrow> nat \<Rightarrow> nat \<Rightarrow> RateLimitResult" where
  "rl_result_allowed current limit reset =
     \<lparr>rl_allowed = True, rl_current = current, rl_limit = limit, rl_reset_in_secs = reset\<rparr>"

definition rl_result_denied :: "nat \<Rightarrow> nat \<Rightarrow> nat \<Rightarrow> RateLimitResult" where
  "rl_result_denied current limit reset =
     \<lparr>rl_allowed = False, rl_current = current, rl_limit = limit, rl_reset_in_secs = reset\<rparr>"

datatype LimitType = Messages | ApiCalls | WsEvents | IpConnections

fun key_suffix :: "LimitType \<Rightarrow> string" where
  "key_suffix Messages = ''msg''"
| "key_suffix ApiCalls = ''api''"
| "key_suffix WsEvents = ''ws''"
| "key_suffix IpConnections = ''conn''"

record RateLimitConfig =
  human_messages_per_min :: nat
  human_api_calls_per_min :: nat
  human_ws_events_per_sec :: nat
  agent_standard_messages_per_min :: nat
  agent_standard_api_calls_per_min :: nat
  agent_elevated_messages_per_min :: nat
  agent_platform_messages_per_min :: nat

definition RateLimitConfig_default :: RateLimitConfig where
  "RateLimitConfig_default =
     \<lparr>human_messages_per_min = 60, human_api_calls_per_min = 300, human_ws_events_per_sec = 10,
      agent_standard_messages_per_min = 120, agent_standard_api_calls_per_min = 600,
      agent_elevated_messages_per_min = 300, agent_platform_messages_per_min = 600\<rparr>"

definition rate_limit_key :: "TenantContext \<Rightarrow> string \<Rightarrow> LimitType \<Rightarrow> string" where
  "rate_limit_key ctx pubkey t =
     ''buzz:'' @ tn_community ctx @ '':ratelimit:'' @ pubkey @ '':'' @ key_suffix t"

definition ip_rate_limit_key :: "string \<Rightarrow> string" where
  "ip_rate_limit_key ip = ''buzz:ratelimit:ip:'' @ ip @ '':conn''"

definition rate_limit_script ::
  "instant \<Rightarrow> string \<Rightarrow> int \<Rightarrow> Redis \<Rightarrow> (string + nat \<times> int) \<times> Redis" where
  "rate_limit_script now key window r =
     (case redis_incr now key r of
        (None, r1) \<Rightarrow> (Inl ''ERR value is not an integer or out of range'', r1)
      | (Some count, r1) \<Rightarrow>
          (case (if count = 1 then redis_expire now key window r1 else (Inr (), r1)) of
             (Inl e, r2) \<Rightarrow> (Inl e, r2)
           | (Inr _, r2) \<Rightarrow> (Inr (count, redis_ttl now key r2), r2)))"

record limiter_links =
  lk_pool :: "string option"
  lk_script :: link
  lk_expire :: link

definition run_rate_limit ::
  "limiter_links \<Rightarrow> instant \<Rightarrow> string \<Rightarrow> nat \<Rightarrow> nat \<Rightarrow> Redis \<Rightarrow> (AuthError + RateLimitResult) \<times> Redis" where
  "run_rate_limit K now key window_secs limit r =
     (case lk_pool K of
        Some e \<Rightarrow> (Inl (Internal (''Redis pool: '' @ e)), r)
      | None \<Rightarrow>
     (case over_link (lk_script K) (rate_limit_script now key (i64_wrap (int window_secs))) r of
        (Inl e, r1) \<Rightarrow> (Inl (Internal (''Redis rate limit script: '' @ e)), r1)
      | (Inr (count, ttl), r1) \<Rightarrow>
     (let verdict = (\<lambda>reset. Inr (if count \<le> limit then rl_result_allowed count limit reset
                                  else rl_result_denied count limit reset))
      in if ttl < 0
         then (case over_link (lk_expire K) (redis_expire now key (i64_wrap (int window_secs))) r1 of
                 (Inl e, r2) \<Rightarrow> (Inl (Internal (''Redis EXPIRE repair: '' @ e)), r2)
               | (Inr _, r2) \<Rightarrow> (verdict window_secs, r2))
         else (verdict (nat ttl), r1))))"

definition check_and_increment ::
  "limiter_links \<Rightarrow> instant \<Rightarrow> TenantContext \<Rightarrow> string \<Rightarrow> LimitType \<Rightarrow> nat \<Rightarrow> nat \<Rightarrow> Redis \<Rightarrow>
   (AuthError + RateLimitResult) \<times> Redis" where
  "check_and_increment K now ctx pubkey t window_secs limit r =
     run_rate_limit K now (rate_limit_key ctx pubkey t) window_secs limit r"

definition check_ip_connection ::
  "limiter_links \<Rightarrow> instant \<Rightarrow> string \<Rightarrow> nat \<Rightarrow> nat \<Rightarrow> Redis \<Rightarrow> (AuthError + RateLimitResult) \<times> Redis" where
  "check_ip_connection K now ip window_secs limit r =
     run_rate_limit K now (ip_rate_limit_key ip) window_secs limit r"

subsection \<open>Admission\<close>

datatype AdmissionError = Exceeded nat | Unavailable

definition check_principal ::
  "limiter_links \<Rightarrow> instant \<Rightarrow> TenantContext \<Rightarrow> string \<Rightarrow> LimitType \<Rightarrow> nat \<Rightarrow> nat \<Rightarrow> Redis \<Rightarrow>
   (AdmissionError + unit) \<times> Redis" where
  "check_principal K now tenant pubkey t window_secs limit r =
     (case check_and_increment K now tenant pubkey t window_secs limit r of
        (Inr result, r') \<Rightarrow>
          (if rl_allowed result then Inr () else Inl (Exceeded (rl_reset_in_secs result)), r')
      | (Inl _, r') \<Rightarrow> (Inl Unavailable, r'))"

definition WS_BURST_WINDOW_SECS :: nat where "WS_BURST_WINDOW_SECS = 5"

definition ws_admission_budget :: "nat \<Rightarrow> nat \<times> nat" where
  "ws_admission_budget per_second_limit =
     (WS_BURST_WINDOW_SECS, min (2 ^ 64 - 1) (per_second_limit * WS_BURST_WINDOW_SECS))"

definition enforce_http_admission ::
  "limiter_links \<Rightarrow> RateLimitConfig \<Rightarrow> instant \<Rightarrow> TenantContext \<Rightarrow> string \<Rightarrow> Redis \<Rightarrow>
   (http_error + unit) \<times> Redis" where
  "enforce_http_admission K C now tenant pubkey r =
     (case check_principal K now tenant pubkey ApiCalls 60 (human_api_calls_per_min C) r of
        (Inr _, r') \<Rightarrow> (Inr (), r')
      | (Inl (Exceeded reset), r') \<Rightarrow>
          (Inl (429, ''rate-limited: quota exceeded; retry in '' @ dec reset @ ''s''), r')
      | (Inl Unavailable, r') \<Rightarrow> (Inl (503, ''rate-limited: shared admission unavailable''), r'))"

subsection \<open>The seen-set of NIP-98 events\<close>

definition DEFAULT_REPLAY_TTL_SECS :: nat where "DEFAULT_REPLAY_TTL_SECS = 120"
definition MAX_REPLAY_TTL_SECS :: nat where "MAX_REPLAY_TTL_SECS = 3600"

definition nip98_replay_key_for_scope :: "string \<Rightarrow> string \<Rightarrow> string" where
  "nip98_replay_key_for_scope scope event_id = ''buzz:'' @ scope @ '':nip98:'' @ event_id"


record guard_links =
  gl_pool :: "string option"
  gl_set :: link

definition try_mark_in_scope ::
  "guard_links \<Rightarrow> instant \<Rightarrow> string \<Rightarrow> string \<Rightarrow> nat \<Rightarrow> Redis \<Rightarrow> (AuthError + bool) \<times> Redis" where
  "try_mark_in_scope G now scope event_id ttl_secs r =
     (let ttl = max DEFAULT_REPLAY_TTL_SECS (min MAX_REPLAY_TTL_SECS ttl_secs)
      in case gl_pool G of
           Some e \<Rightarrow> (Inl (Internal (''Redis pool: '' @ e)), r)
         | None \<Rightarrow>
           (case over_link (gl_set G)
                   (\<lambda>r. map_prod Inr id (redis_set_nx_ex now (nip98_replay_key_for_scope scope event_id) ''1'' ttl r)) r of
              (Inl e, r') \<Rightarrow> (Inl (Internal (''Redis SET NX EX: '' @ e)), r')
            | (Inr reply, r') \<Rightarrow>
                ((case reply of
                    None \<Rightarrow> Inr False
                  | Some other \<Rightarrow> if other = ''OK'' then Inr True
                                  else Inl (Internal (''unexpected SET NX EX reply: '' @ other))), r')))"



definition OPERATOR_REPLAY_SCOPE :: string where "OPERATOR_REPLAY_SCOPE = ''operator-management''"

definition check_operator_replay :: "guard_links \<Rightarrow> instant \<Rightarrow> string \<Rightarrow> Redis \<Rightarrow> (http_error + unit) \<times> Redis" where
  "check_operator_replay G now event_id r =
     (case try_mark_in_scope G now OPERATOR_REPLAY_SCOPE event_id DEFAULT_REPLAY_TTL_SECS r of
        (Inr True, r') \<Rightarrow> (Inr (), r')
      | (Inr False, r') \<Rightarrow> (Inl (401, ''NIP-98: replay detected''), r')
      | (Inl _, r') \<Rightarrow> (Inl (401, ''NIP-98: replay check unavailable''), r'))"

subsection \<open>Authenticated requests\<close>


record operator_config =
  oc_origin :: "string option"
  oc_pubkeys :: "string list"

definition authorize_operator_request ::
  "auth_env \<Rightarrow> 'u url_api \<Rightarrow> operator_config \<Rightarrow> guard_links \<Rightarrow> instant \<Rightarrow> headers \<Rightarrow> string \<Rightarrow> string \<Rightarrow>
   string option \<Rightarrow> bytes option \<Rightarrow> Redis \<Rightarrow> (http_error + string) \<times> Redis" where
  "authorize_operator_request E U C G now h method path raw_query body r =
     (case oc_origin C of
        None \<Rightarrow> (Inl (500, ''internal server error''), r)
      | Some origin \<Rightarrow>
     (let path_with_query = (case raw_query of
                               Some q \<Rightarrow> if q \<noteq> [] then path @ ''?'' @ q else path
                             | None \<Rightarrow> path)
      in case verify_bridge_auth_with_options E U (now div 1000) h method (origin @ path_with_query) body True
                (body \<noteq> None) of
           Inl e \<Rightarrow> (Inl e, r)
         | Inr (pubkey, event_id) \<Rightarrow>
     (case check_operator_replay G now event_id r of
        (Inl e, r') \<Rightarrow> (Inl e, r')
      | (Inr _, r') \<Rightarrow>
          (if pubkey \<in> set (oc_pubkeys C) then (Inr pubkey, r')
           else (Inl (403, ''actor not authorized: not a relay operator''), r')))))"


subsection \<open>One key of Redis\<close>

text \<open>An operation is local to a key when it reads and writes nothing else.\<close>

definition local_to :: "string \<Rightarrow> (Redis \<Rightarrow> 'a \<times> Redis) \<Rightarrow> bool" where
  "local_to k f \<longleftrightarrow>
     (\<forall>r r'. hget r k = hget r' k \<longrightarrow> fst (f r) = fst (f r') \<and> hget (snd (f r)) k = hget (snd (f r')) k) \<and>
     (\<forall>r k'. k' \<noteq> k \<longrightarrow> hget (snd (f r)) k' = hget r k')"

lemma local_toI:
  assumes "\<And>r r'. hget r k = hget r' k \<Longrightarrow> fst (f r) = fst (f r') \<and> hget (snd (f r)) k = hget (snd (f r')) k"
    and "\<And>r k'. k' \<noteq> k \<Longrightarrow> hget (snd (f r)) k' = hget r k'"
  shows "local_to k f"
  unfolding local_to_def by (intro conjI allI impI assms(1) [THEN conjunct1] assms(1) [THEN conjunct2] assms(2))

lemma local_toD:
  assumes "local_to k f"
  shows "hget r k = hget r' k \<Longrightarrow> fst (f r) = fst (f r')"
    and "hget r k = hget r' k \<Longrightarrow> hget (snd (f r)) k = hget (snd (f r')) k"
    and "k' \<noteq> k \<Longrightarrow> hget (snd (f r)) k' = hget r k'"
proof -
  have "\<forall>r r'. hget r k = hget r' k \<longrightarrow>
      fst (f r) = fst (f r') \<and> hget (snd (f r)) k = hget (snd (f r')) k"
    and other: "\<forall>r k'. k' \<noteq> k \<longrightarrow> hget (snd (f r)) k' = hget r k'"
    using assms [unfolded local_to_def] by (rule conjunct1, rule conjunct2)
  from this(1) [rule_format, of r r']
  show "hget r k = hget r' k \<Longrightarrow> fst (f r) = fst (f r')"
    and "hget r k = hget r' k \<Longrightarrow> hget (snd (f r)) k = hget (snd (f r')) k" by iprover+
  from other [rule_format, of k' r]
  show "k' \<noteq> k \<Longrightarrow> hget (snd (f r)) k' = hget r k'" by iprover
qed

lemma local_to_return [simp]: "local_to k (\<lambda>r. (x, r))"
  by (rule local_toI) simp_all

lemma local_to_bind:
  assumes "local_to k f" and "\<And>a. local_to k (g a)"
  shows "local_to k (\<lambda>r. case f r of (a, r') \<Rightarrow> g a r')"
proof (rule local_toI, goal_cases)
  case (1 r r')
  note same = local_toD(1) [OF assms(1) 1] and cell = local_toD(2) [OF assms(1) 1]
  from local_toD(1) [OF assms(2) cell] local_toD(2) [OF assms(2) cell] same
  show ?case by (simp add: split_beta)
next
  case (2 r k')
  with local_toD(3) [OF assms(1) 2] local_toD(3) [OF assms(2) 2] show ?case by (simp add: split_beta)
qed

lemma local_to_over_link: "local_to k f \<Longrightarrow> local_to k (over_link l f)"
proof (rule local_toI, goal_cases)
  case (1 r r')
  then show ?case
    using local_toD(1) [OF 1(1) 1(2)] local_toD(2) [OF 1(1) 1(2)] by (cases l) (simp_all add: over_link_def)
next
  case (2 r k')
  then show ?case using local_toD(3) [OF 2(1) 2(2)] by (cases l) (simp_all add: over_link_def)
qed

lemma redis_get_local: "hget r k = hget r' k \<Longrightarrow> redis_get now k r = redis_get now k r'"
  by (simp add: redis_get_def)

lemma local_to_incr: "local_to k (redis_incr now k)"
proof (rule local_toI, goal_cases)
  case (1 r r')
  then show ?case
    by (cases "redis_get now k r'") (simp_all add: redis_incr_def redis_get_local [OF 1])
next
  case (2 r k')
  then show ?case by (cases "redis_get now k r") (simp_all add: redis_incr_def)
qed

lemma local_to_expire: "local_to k (redis_expire now k secs)"
proof (rule local_toI, goal_cases)
  case (1 r r')
  then show ?case
    by (cases "redis_get now k r'") (simp_all add: redis_expire_def redis_del_def redis_get_local [OF 1])
next
  case (2 r k')
  then show ?case by (cases "redis_get now k r") (simp_all add: redis_expire_def redis_del_def)
qed

lemma local_to_ttl: "local_to k (\<lambda>r. (redis_ttl now k r, r))"
proof (rule local_toI, goal_cases)
  case (1 r r')
  then show ?case
    by (cases "redis_get now k r'") (simp_all add: redis_ttl_def redis_get_local [OF 1])
qed simp

lemma local_to_set_nx_ex: "local_to k (redis_set_nx_ex now k v ttl)"
proof (rule local_toI, goal_cases)
  case (1 r r')
  then show ?case
    by (cases "redis_get now k r'") (simp_all add: redis_set_nx_ex_def redis_get_local [OF 1])
next
  case (2 r k')
  then show ?case by (cases "redis_get now k r") (simp_all add: redis_set_nx_ex_def)
qed

lemma local_to_script: "local_to k (rate_limit_script now k w)"
proof -
  define expire where "expire = (\<lambda>(count::nat) (r::Redis). if count = 1 then redis_expire now k w r else (Inr (), r))"
  define answer where "answer = (\<lambda>(count::nat) (x::string + unit) (r::Redis).
     case x of Inl e \<Rightarrow> (Inl e, r)
     | Inr _ \<Rightarrow> (case (redis_ttl now k r, r) of (t, r') \<Rightarrow> (Inr (count, t), r')))"
  have answer: "local_to k (answer count x)" for count x
  proof (cases x)
    case (Inr u)
    have "local_to k (\<lambda>r. case (redis_ttl now k r, r) of (t, r') \<Rightarrow> (Inr (count, t), r'))"
      by (rule local_to_bind [OF local_to_ttl local_to_return])
    with Inr show ?thesis by (simp add: answer_def)
  qed (simp add: answer_def)
  have expire: "local_to k (expire count)" for count
    by (cases "count = 1") (simp_all add: expire_def local_to_expire)
  have "local_to k (\<lambda>r1. case a of None \<Rightarrow> (Inl ''ERR value is not an integer or out of range'', r1)
      | Some count \<Rightarrow> (case expire count r1 of (x, r2) \<Rightarrow> answer count x r2))" for a :: "nat option"
  proof (cases a)
    case (Some count)
    show ?thesis unfolding Some option.simps by (rule local_to_bind [OF expire answer])
  qed simp
  from local_to_bind [OF local_to_incr this]
  have "local_to k (\<lambda>r. case redis_incr now k r of (a, r1) \<Rightarrow>
     (case a of None \<Rightarrow> (Inl ''ERR value is not an integer or out of range'', r1)
      | Some count \<Rightarrow> (case expire count r1 of (x, r2) \<Rightarrow> answer count x r2)))" .
  moreover have "rate_limit_script now k w = (\<lambda>r. case redis_incr now k r of (a, r1) \<Rightarrow>
     (case a of None \<Rightarrow> (Inl ''ERR value is not an integer or out of range'', r1)
      | Some count \<Rightarrow> (case expire count r1 of (x, r2) \<Rightarrow> answer count x r2)))"
    unfolding rate_limit_script_def expire_def answer_def
    by (rule ext) (simp split: prod.split option.split sum.split)
  ultimately show ?thesis by simp
qed


lemma local_to_limiter: "local_to key (run_rate_limit K now key w limit)"
proof -
  define verdict where "verdict = (\<lambda>(count::nat) reset. (Inr (if count \<le> limit then rl_result_allowed count limit reset
    else rl_result_denied count limit reset) :: AuthError + RateLimitResult))"
  define repair where "repair = (\<lambda>(count::nat) (r::Redis).
     case over_link (lk_expire K) (redis_expire now key (i64_wrap (int w))) r of
       (x, r2) \<Rightarrow> ((case x of Inl e \<Rightarrow> Inl (Internal (''Redis EXPIRE repair: '' @ e)) | Inr _ \<Rightarrow> verdict count w), r2))"
  define rest where "rest = (\<lambda>(x::string + nat \<times> int) (r::Redis).
     case x of Inl e \<Rightarrow> (Inl (Internal (''Redis rate limit script: '' @ e)), r)
     | Inr (count, ttl) \<Rightarrow> if ttl < 0 then repair count r else (verdict count (nat ttl), r))"
  have "local_to key (repair count)" for count
    unfolding repair_def
    by (rule local_to_bind [OF local_to_over_link [OF local_to_expire]]) (rule local_to_return)
  then have rest: "local_to key (rest x)" for x
  proof (cases x)
    case (Inr y)
    with \<open>\<And>count. local_to key (repair count)\<close> show ?thesis
      by (cases y; cases "snd y < 0") (simp_all add: rest_def)
  qed (simp add: rest_def)
  show ?thesis
  proof (cases "lk_pool K")
    case None
    have "local_to key (\<lambda>r. case over_link (lk_script K) (rate_limit_script now key (i64_wrap (int w))) r of
        (x, r1) \<Rightarrow> rest x r1)"
      by (rule local_to_bind [OF local_to_over_link [OF local_to_script] rest])
    moreover have "run_rate_limit K now key w limit =
        (\<lambda>r. case over_link (lk_script K) (rate_limit_script now key (i64_wrap (int w))) r of (x, r1) \<Rightarrow> rest x r1)"
      unfolding run_rate_limit_def rest_def repair_def verdict_def None option.simps Let_def
      by (rule ext) (simp split: prod.split sum.split)
    ultimately show ?thesis by simp
  next
    case (Some e)
    then have "run_rate_limit K now key w limit = (\<lambda>r. (Inl (Internal (''Redis pool: '' @ e)), r))"
      by (simp add: run_rate_limit_def fun_eq_iff)
    then show ?thesis by simp
  qed
qed

lemma local_to_mark: "local_to (nip98_replay_key_for_scope scope i) (try_mark_in_scope G now scope i ttl)"
proof -
  let ?k = "nip98_replay_key_for_scope scope i"
  let ?ttl = "max DEFAULT_REPLAY_TTL_SECS (min MAX_REPLAY_TTL_SECS ttl)"
  let ?set = "\<lambda>r. map_prod Inr id (redis_set_nx_ex now ?k ''1'' ?ttl r) :: (string + string option) \<times> Redis"
  have set: "local_to ?k ?set"
    using local_to_bind [OF local_to_set_nx_ex [of ?k now "''1''" ?ttl], of "\<lambda>a r. (Inr a, r)"]
    by (simp add: map_prod_def id_def split_beta)
  show ?thesis
  proof (cases "gl_pool G")
    case None
    have "local_to ?k (\<lambda>r. case over_link (gl_set G) ?set r of (x, r') \<Rightarrow>
        ((case x of Inl e \<Rightarrow> Inl (Internal (''Redis SET NX EX: '' @ e))
          | Inr reply \<Rightarrow> (case reply of None \<Rightarrow> Inr False
             | Some other \<Rightarrow> if other = ''OK'' then Inr True
                             else Inl (Internal (''unexpected SET NX EX reply: '' @ other)))), r'))"
      by (rule local_to_bind [OF local_to_over_link [OF set]]) (rule local_to_return)
    moreover have "try_mark_in_scope G now scope i ttl = (\<lambda>r. case over_link (gl_set G) ?set r of (x, r') \<Rightarrow>
        ((case x of Inl e \<Rightarrow> Inl (Internal (''Redis SET NX EX: '' @ e))
          | Inr reply \<Rightarrow> (case reply of None \<Rightarrow> Inr False
             | Some other \<Rightarrow> if other = ''OK'' then Inr True
                             else Inl (Internal (''unexpected SET NX EX reply: '' @ other)))), r'))"
      unfolding try_mark_in_scope_def None option.simps Let_def
      by (rule ext) (simp split: prod.split sum.split)
    ultimately show ?thesis by simp
  next
    case (Some e)
    then have "try_mark_in_scope G now scope i ttl = (\<lambda>r. (Inl (Internal (''Redis pool: '' @ e)), r))"
      by (simp add: try_mark_in_scope_def fun_eq_iff)
    then show ?thesis by simp
  qed
qed


subsection \<open>Sequences of operations on different keys\<close>

fun run_ops :: "('a \<Rightarrow> Redis \<Rightarrow> 'b \<times> Redis) \<Rightarrow> 'a list \<Rightarrow> Redis \<Rightarrow> ('a \<times> 'b) list" where
  "run_ops f [] r = []"
| "run_ops f (q # qs) r = (q, fst (f q r)) # run_ops f qs (snd (f q r))"

lemma run_ops_project:
  assumes "\<And>q. local_to (key q) (f q)" and "hget r k = hget r' k"
  shows "filter (\<lambda>(q, _). key q = k) (run_ops f qs r) = run_ops f (filter (\<lambda>q. key q = k) qs) r'"
  using assms(2)
proof (induction qs arbitrary: r r')
  case (Cons q qs)
  show ?case
  proof (cases "key q = k")
    case True
    note loc = local_toD(1,2) [OF assms(1) [of q], unfolded True, OF Cons.prems]
    from Cons.IH [OF loc(2)] loc(1) True show ?thesis by simp
  next
    case False
    have "hget (snd (f q r)) k = hget r' k"
      using local_toD(3) [OF assms(1) [of q], of k r] False Cons.prems by simp
    from Cons.IH [OF this] False show ?thesis by simp
  qed
qed simp

lemma map_fst_run_ops [simp]: "map fst (run_ops f qs r) = qs"
  by (induction qs arbitrary: r) auto

lemma length_run_ops [simp]: "length (run_ops f qs r) = length qs"
  by (induction qs arbitrary: r) auto

text \<open>Who a counter is about, and when two requests share it.\<close>

datatype subject = Principal TenantContext string LimitType | Address string

fun subject_key :: "subject \<Rightarrow> string" where
  "subject_key (Principal ctx pubkey t) = rate_limit_key ctx pubkey t"
| "subject_key (Address ip) = ip_rate_limit_key ip"

fun same_quota :: "subject \<Rightarrow> subject \<Rightarrow> bool" where
  "same_quota (Principal c p t) (Principal c' p' t') \<longleftrightarrow> tn_community c = tn_community c' \<and> p = p' \<and> t = t'"
| "same_quota (Address ip) (Address ip') \<longleftrightarrow> ip = ip'"
| "same_quota _ _ \<longleftrightarrow> False"

fun subject_ok :: "subject \<Rightarrow> bool" where
  "subject_ok (Principal c p t) \<longleftrightarrow>
     CHR '':'' \<notin> set (tn_community c) \<and> tn_community c \<noteq> ''ratelimit'' \<and> CHR '':'' \<notin> set p"
| "subject_ok (Address ip) \<longleftrightarrow> True"

lemma key_suffix_inj: "key_suffix t = key_suffix t' \<longleftrightarrow> t = t'"
  by (cases t; cases t') simp_all

lemma colon_parts:
  assumes "CHR '':'' \<notin> set a" and "CHR '':'' \<notin> set b"
  shows "a @ '':'' @ x = b @ '':'' @ y \<longleftrightarrow> a = b \<and> x = y"
proof
  assume "a @ '':'' @ x = b @ '':'' @ y"
  then have "split_once (CHR '':'') (a @ CHR '':'' # x) = split_once (CHR '':'') (b @ CHR '':'' # y)" by simp
  then show "a = b \<and> x = y" by (simp only: split_once_append [OF assms(1)] split_once_append [OF assms(2)]) simp
qed simp

lemma subject_key_inj:
  assumes "subject_ok s" and "subject_ok s'"
  shows "subject_key s = subject_key s' \<longleftrightarrow> same_quota s s'"
proof (cases s; cases s')
  fix c p t c' p' t' assume s: "s = Principal c p t" "s' = Principal c' p' t'"
  with assms have plain: "CHR '':'' \<notin> set (tn_community c)" "CHR '':'' \<notin> set (tn_community c')"
    "CHR '':'' \<notin> set p" "CHR '':'' \<notin> set p'" by auto
  have "subject_key s = subject_key s' \<longleftrightarrow>
      tn_community c @ '':'' @ (''ratelimit:'' @ p @ '':'' @ key_suffix t) =
      tn_community c' @ '':'' @ (''ratelimit:'' @ p' @ '':'' @ key_suffix t')"
    by (simp add: s rate_limit_key_def)
  also have "\<dots> \<longleftrightarrow> tn_community c = tn_community c' \<and> p @ '':'' @ key_suffix t = p' @ '':'' @ key_suffix t'"
    using colon_parts [OF plain(1,2)] by simp
  also have "\<dots> \<longleftrightarrow> same_quota s s'"
    using colon_parts [OF plain(3,4)] by (auto simp: s key_suffix_inj)
  finally show ?thesis .
next
  fix c p t ip assume s: "s = Principal c p t" "s' = Address ip"
  with assms have c: "CHR '':'' \<notin> set (tn_community c)" "tn_community c \<noteq> ''ratelimit''" by auto
  have "subject_key s = subject_key s' \<longleftrightarrow>
      tn_community c @ '':'' @ (''ratelimit:'' @ p @ '':'' @ key_suffix t) = ''ratelimit'' @ '':'' @ (''ip:'' @ ip @ '':conn'')"
    by (simp add: s rate_limit_key_def ip_rate_limit_key_def)
  also have "\<not> \<dots>" by (subst colon_parts) (use c in simp_all)
  finally show ?thesis by (simp add: s)
next
  fix c p t ip assume s: "s = Address ip" "s' = Principal c p t"
  with assms have c: "CHR '':'' \<notin> set (tn_community c)" "tn_community c \<noteq> ''ratelimit''" by auto
  have "subject_key s = subject_key s' \<longleftrightarrow>
      ''ratelimit'' @ '':'' @ (''ip:'' @ ip @ '':conn'') = tn_community c @ '':'' @ (''ratelimit:'' @ p @ '':'' @ key_suffix t)"
    by (simp add: s rate_limit_key_def ip_rate_limit_key_def)
  also have "\<not> \<dots>" by (subst colon_parts) (use c in auto)
  finally show ?thesis by (simp add: s)
next
  fix ip ip' assume "s = Address ip" "s' = Address ip'"
  then show ?thesis by (simp add: ip_rate_limit_key_def)
qed


subsection \<open>One call of the limiter\<close>

definition admits :: "AuthError + RateLimitResult \<Rightarrow> bool" where
  "admits a \<longleftrightarrow> (case a of Inl _ \<Rightarrow> False | Inr result \<Rightarrow> rl_allowed result)"

lemma admits_simps [simp]:
  "\<not> admits (Inl e)"
  "admits (Inr (rl_result_allowed n l s))"
  "\<not> admits (Inr (rl_result_denied n l s))"
  by (simp_all add: admits_def rl_result_allowed_def rl_result_denied_def)

lemma expire_in_range:
  assumes "0 < w" and "now + 1000 * w < 2 ^ 63" and "redis_get now k r = Some v"
  shows "redis_expire now k (i64_wrap (int w)) r = (Inr (), hput k (v, Some (now + 1000 * w)) r)"
proof -
  have "int (now + 1000 * w) < int (2 ^ 63)" using assms(2) by (simp only: of_nat_less_iff)
  then have "int now + 1000 * int w < 2 ^ 63" by simp
  then have wrap: "i64_wrap (int w) = int w" by (simp add: i64_wrap_def)
  have "int w \<le> (2 ^ 63 - 1) div 1000" using \<open>int now + 1000 * int w < 2 ^ 63\<close> by simp
  with assms \<open>int now + 1000 * int w < 2 ^ 63\<close> show ?thesis
    unfolding wrap by (simp add: redis_expire_def)
qed

lemma script_absent:
  assumes "0 < w" and "now + 1000 * w < 2 ^ 63" and "redis_get now k r = None"
  shows "rate_limit_script now k (i64_wrap (int w)) r =
           (Inr (1, int w), hput k (dec 1, Some (now + 1000 * w)) r)"
proof -
  have get: "redis_get now k (hput k (dec 1, None) r) = Some (dec 1)" by (simp add: redis_get_def)
  have "redis_ttl now k (hput k (dec 1, Some (now + 1000 * w)) (hput k (dec 1, None) r)) = int w"
    using assms(1) by (simp add: redis_ttl_def redis_get_def)
  then show ?thesis
    by (simp add: rate_limit_script_def redis_incr_def assms(3) expire_in_range [OF assms(1,2) get] del: One_nat_def)
qed

lemma script_live:
  assumes w: "0 < w" "now + 1000 * w < 2 ^ 63" and get: "redis_get now k r = Some v"
    and cell: "hget r k = Some (v, e)"
  obtains (error) x where "rate_limit_script now k (i64_wrap (int w)) r = (Inl x, r)"
  | (first) r' where "rate_limit_script now k (i64_wrap (int w)) r = (Inr (1, int w), r')"
      "undec v = 0" "hget r' k = Some (dec 1, Some (now + 1000 * w))"
  | (again) r' where "rate_limit_script now k (i64_wrap (int w)) r = (Inr (undec v + 1, redis_ttl now k r'), r')"
      "hget r' k = Some (dec (undec v + 1), e)"
proof (cases "dec (undec v) = v \<and> undec v + 1 < 2 ^ 63")
  case False
  then have "redis_incr now k r = (None, r)" by (simp add: redis_incr_def get)
  with error show ?thesis by (simp add: rate_limit_script_def)
next
  case True
  let ?r1 = "hput k (dec (undec v + 1), e) r"
  have incr: "redis_incr now k r = (Some (undec v + 1), ?r1)" using True by (simp add: redis_incr_def get cell)
  have get1: "redis_get now k ?r1 = Some (dec (undec v + 1))"
    using get cell by (cases e) (auto simp: redis_get_def split: if_splits)
  show ?thesis
  proof (cases "undec v = 0")
    case True
    have "redis_ttl now k (hput k (dec 1, Some (now + 1000 * w)) ?r1) = int w"
      using w by (simp add: redis_ttl_def redis_get_def)
    then have "rate_limit_script now k (i64_wrap (int w)) r =
        (Inr (1, int w), hput k (dec 1, Some (now + 1000 * w)) ?r1)"
      using expire_in_range [OF w get1] True by (simp add: rate_limit_script_def incr)
    with first True show ?thesis by simp
  next
    case False
    then have "rate_limit_script now k (i64_wrap (int w)) r = (Inr (undec v + 1, redis_ttl now k ?r1), ?r1)"
      by (simp add: rate_limit_script_def incr)
    with again show ?thesis by simp
  qed
qed

lemma limiter_absent:
  assumes "0 < w" and "now + 1000 * w < 2 ^ 63" and "redis_get now k r = None"
  shows "hget (snd (run_rate_limit K now k w limit r)) k = hget r k \<and> \<not> admits (fst (run_rate_limit K now k w limit r)) \<or>
         hget (snd (run_rate_limit K now k w limit r)) k = Some (dec 1, Some (now + 1000 * w)) \<and>
         (admits (fst (run_rate_limit K now k w limit r)) \<longrightarrow> 1 \<le> limit)"
  by (cases "lk_pool K"; cases "lk_script K")
    (simp_all add: run_rate_limit_def over_link_def script_absent [OF assms])

lemma limiter_live:
  assumes w: "0 < w" "now + 1000 * w < 2 ^ 63" and get: "redis_get now k r = Some v"
    and cell: "hget r k = Some (v, e)"
  shows "hget (snd (run_rate_limit K now k w limit r)) k = hget r k \<and> \<not> admits (fst (run_rate_limit K now k w limit r)) \<or>
         (\<exists>e'. hget (snd (run_rate_limit K now k w limit r)) k = Some (dec (undec v + 1), e') \<and>
            (e' = e \<or> e' = Some (now + 1000 * w)) \<and>
            (admits (fst (run_rate_limit K now k w limit r)) \<longrightarrow> undec v + 1 \<le> limit))"
  using w get cell
proof (cases rule: script_live)
  case (error x)
  then show ?thesis
    by (cases "lk_pool K"; cases "lk_script K") (simp_all add: run_rate_limit_def over_link_def)
next
  case (first r')
  then show ?thesis
    by (cases "lk_pool K"; cases "lk_script K") (simp_all add: run_rate_limit_def over_link_def)
next
  case (again r')
  have live: "redis_get now k r' = Some (dec (undec v + 1))"
    using get cell again(2) by (cases e) (auto simp: redis_get_def split: if_splits)
  show ?thesis
  proof (cases e)
    case (Some t)
    then have "redis_ttl now k r' \<ge> 0" by (simp add: redis_ttl_def live again(2))
    with again show ?thesis
      by (cases "lk_pool K"; cases "lk_script K") (simp_all add: run_rate_limit_def over_link_def)
  next
    case None
    then have "redis_ttl now k r' = -1" by (simp add: redis_ttl_def live again(2))
    with again show ?thesis
      by (cases "lk_pool K"; cases "lk_script K"; cases "lk_expire K")
        (simp_all add: run_rate_limit_def over_link_def expire_in_range [OF w live])
  qed
qed


subsection \<open>Counting what is admitted\<close>

record rate_request =
  rq_now :: instant
  rq_subject :: subject
  rq_window :: nat
  rq_limit :: nat
  rq_links :: limiter_links

definition limiter_op :: "rate_request \<Rightarrow> Redis \<Rightarrow> (AuthError + RateLimitResult) \<times> Redis" where
  "limiter_op q =
     (case rq_subject q of
        Principal ctx pubkey t \<Rightarrow> check_and_increment (rq_links q) (rq_now q) ctx pubkey t (rq_window q) (rq_limit q)
      | Address ip \<Rightarrow> check_ip_connection (rq_links q) (rq_now q) ip (rq_window q) (rq_limit q))"

abbreviation request_key :: "rate_request \<Rightarrow> string" where
  "request_key q \<equiv> subject_key (rq_subject q)"

lemma limiter_op_key:
  "limiter_op q = run_rate_limit (rq_links q) (rq_now q) (request_key q) (rq_window q) (rq_limit q)"
  by (rule ext) (simp add: limiter_op_def check_and_increment_def check_ip_connection_def split: subject.split)

lemma limiter_op_local: "local_to (request_key q) (limiter_op q)"
  by (simp add: limiter_op_key local_to_limiter)

definition admitted :: "(rate_request \<times> (AuthError + RateLimitResult)) list \<Rightarrow> nat" where
  "admitted xs = length (filter (\<lambda>(_, a). admits a) xs)"

lemma admitted_simps [simp]:
  "admitted [] = 0"
  "admitted ((q, a) # xs) = (if admits a then Suc (admitted xs) else admitted xs)"
  by (simp_all add: admitted_def)

text \<open>The requests on key \<open>k\<close> with window \<open>w\<close>, limits up to \<open>l\<close> and times in an interval of one window.\<close>

definition in_window :: "string \<Rightarrow> nat \<Rightarrow> nat \<Rightarrow> instant \<Rightarrow> rate_request \<Rightarrow> bool" where
  "in_window k w l a q \<longleftrightarrow> request_key q = k \<and> rq_window q = w \<and> rq_limit q \<le> l \<and>
     a \<le> rq_now q \<and> rq_now q < a + 1000 * w \<and> rq_now q + 1000 * w < 2 ^ 63"

lemma in_windowD:
  assumes "in_window k w l a q"
  shows "limiter_op q r = run_rate_limit (rq_links q) (rq_now q) k w (rq_limit q) r"
    and "0 < w" and "rq_now q + 1000 * w < 2 ^ 63" and "rq_limit q \<le> l"
    and "a \<le> rq_now q" and "rq_now q < a + 1000 * w"
  using assms by (auto simp: in_window_def limiter_op_key)

lemma admitted_covered:
  assumes "\<forall>q \<in> set qs. in_window k w l a q"
    and "hget r k = Some (v, e)" and "case e of None \<Rightarrow> True | Some t \<Rightarrow> a + 1000 * w \<le> t"
  shows "admitted (run_ops limiter_op qs r) \<le> l - undec v"
  using assms
proof (induction qs arbitrary: r v e)
  case (Cons q qs)
  note win = in_windowD [of k w l a q] and rest = Cons.prems(1)
  have q: "in_window k w l a q" and qs: "\<forall>q \<in> set qs. in_window k w l a q" using rest by auto
  have get: "redis_get (rq_now q) k r = Some v"
    using Cons.prems(2,3) win(6) [OF q] by (cases e) (auto simp: redis_get_def)
  let ?res = "limiter_op q r"
  from limiter_live [OF win(2,3) [OF q] get Cons.prems(2), of "rq_links q" "rq_limit q"]
  consider "hget (snd ?res) k = hget r k" "\<not> admits (fst ?res)"
    | e' where "hget (snd ?res) k = Some (dec (undec v + 1), e')" "e' = e \<or> e' = Some (rq_now q + 1000 * w)"
        "admits (fst ?res) \<longrightarrow> undec v + 1 \<le> rq_limit q"
    unfolding win(1) [OF q] by blast
  then show ?case
  proof cases
    case 1
    with Cons.IH [OF qs, of "snd ?res" v e] Cons.prems show ?thesis by simp
  next
    case 2
    have "case e' of None \<Rightarrow> True | Some t \<Rightarrow> a + 1000 * w \<le> t"
      using 2(2) Cons.prems(3) win(5) [OF q] by auto
    from Cons.IH [OF qs 2(1) this] have "admitted (run_ops limiter_op qs (snd ?res)) \<le> l - (undec v + 1)" by simp
    with 2(3) win(4) [OF q] show ?thesis by auto
  qed
qed simp

lemma admitted_fresh:
  assumes "\<forall>q \<in> set qs. in_window k w l a q" and "\<forall>q \<in> set qs. redis_get (rq_now q) k r = None"
  shows "admitted (run_ops limiter_op qs r) \<le> l"
  using assms
proof (induction qs arbitrary: r)
  case (Cons q qs)
  note win = in_windowD [of k w l a q]
  have q: "in_window k w l a q" and qs: "\<forall>q \<in> set qs. in_window k w l a q" using Cons.prems by auto
  have get: "redis_get (rq_now q) k r = None" using Cons.prems by simp
  let ?res = "limiter_op q r"
  from limiter_absent [OF win(2,3) [OF q] get, of "rq_links q" "rq_limit q"]
  consider "hget (snd ?res) k = hget r k" "\<not> admits (fst ?res)"
    | "hget (snd ?res) k = Some (dec 1, Some (rq_now q + 1000 * w))" "admits (fst ?res) \<longrightarrow> 1 \<le> rq_limit q"
    unfolding win(1) [OF q] by blast
  then show ?case
  proof cases
    case 1
    have "\<forall>q \<in> set qs. redis_get (rq_now q) k (snd ?res) = None"
      using Cons.prems(2) redis_get_local [OF 1(1)] by simp
    from Cons.IH [OF qs this] 1 show ?thesis by simp
  next
    case 2
    have "case Some (rq_now q + 1000 * w) of None \<Rightarrow> True | Some t \<Rightarrow> a + 1000 * w \<le> t"
      using win(5) [OF q] by simp
    from admitted_covered [OF qs 2(1) this]
    have "admitted (run_ops limiter_op qs (snd ?res)) \<le> l - 1" by simp
    with 2(2) win(4) [OF q] show ?thesis by auto
  qed
qed simp

lemma admitted_within_window:
  assumes "\<forall>q \<in> set qs. in_window k w l a q" and "sorted (map rq_now qs)"
  shows "admitted (run_ops limiter_op qs r) \<le> 2 * l"
proof (cases "hget r k")
  case None
  then have "\<forall>q \<in> set qs. redis_get (rq_now q) k r = None" by (simp add: redis_get_def)
  from admitted_fresh [OF assms(1) this] show ?thesis by simp
next
  case (Some c)
  obtain v e where c: "c = (v, e)" by (cases c)
  show ?thesis
  proof (cases e)
    case None
    with Some c admitted_covered [OF assms(1), of r v e] show ?thesis by simp
  next
    case t: (Some t)
    have "admitted (run_ops limiter_op qs r) \<le> (l - undec v) + l"
      using assms Some [unfolded c t]
    proof (induction qs arbitrary: r v)
      case (Cons q qs)
      note win = in_windowD [of k w l a q]
      have q: "in_window k w l a q" and qs: "\<forall>q \<in> set qs. in_window k w l a q" using Cons.prems by auto
      let ?res = "limiter_op q r"
      show ?case
      proof (cases "rq_now q < t")
        case False
        then have "\<forall>q \<in> set (q # qs). redis_get (rq_now q) k r = None"
          using Cons.prems(2,3) by (auto simp: redis_get_def)
        from admitted_fresh [OF Cons.prems(1) this] show ?thesis by simp
      next
        case True
        with Cons.prems(3) have get: "redis_get (rq_now q) k r = Some v" by (simp add: redis_get_def)
        from limiter_live [OF win(2,3) [OF q] get Cons.prems(3), of "rq_links q" "rq_limit q"]
        consider "hget (snd ?res) k = hget r k" "\<not> admits (fst ?res)"
          | e' where "hget (snd ?res) k = Some (dec (undec v + 1), e')" "e' = Some t \<or> e' = Some (rq_now q + 1000 * w)"
              "admits (fst ?res) \<longrightarrow> undec v + 1 \<le> rq_limit q"
          unfolding win(1) [OF q] by blast
        then show ?thesis
        proof cases
          case 1
          with Cons.IH [OF qs, of "snd ?res" v] Cons.prems(2,3) show ?thesis by simp
        next
          case 2
          have "admitted (run_ops limiter_op qs (snd ?res)) \<le> (l - (undec v + 1)) + l"
          proof (cases "e' = Some t")
            case True
            with Cons.IH [OF qs, of "snd ?res" "dec (undec v + 1)"] Cons.prems(2) 2(1) show ?thesis by simp
          next
            case False
            with 2(2) win(5) [OF q] have "case e' of None \<Rightarrow> True | Some t \<Rightarrow> a + 1000 * w \<le> t" by simp
            from admitted_covered [OF qs 2(1) this] show ?thesis by simp
          qed
          with 2(3) win(4) [OF q] show ?thesis by auto
        qed
      qed
    qed simp
    then show ?thesis by simp
  qed
qed


lemma run_ops_append: "\<exists>r'. run_ops f (xs @ ys) r = run_ops f xs r @ run_ops f ys r'"
  by (induction xs arbitrary: r) (auto intro: exI [of _ r])

lemma sorted_interval:
  assumes "sorted (map g qs)" and "(t::nat) \<le> t'"
  shows "\<exists>xs ys zs. qs = xs @ ys @ zs \<and> (\<forall>q \<in> set xs. g q < t) \<and>
           (\<forall>q \<in> set ys. t \<le> g q \<and> g q < t') \<and> (\<forall>q \<in> set zs. t' \<le> g q)"
  using assms(1)
proof (induction qs)
  case (Cons q qs)
  then obtain xs ys zs where qs: "qs = xs @ ys @ zs" "\<forall>q \<in> set xs. g q < t"
    "\<forall>q \<in> set ys. t \<le> g q \<and> g q < t'" "\<forall>q \<in> set zs. t' \<le> g q" by auto
  have le: "\<forall>p \<in> set qs. g q \<le> g p" using Cons.prems by auto
  consider "g q < t" | "t \<le> g q" "g q < t'" | "t' \<le> g q" by linarith
  then show ?case
  proof cases
    case 1
    with qs have "q # qs = (q # xs) @ ys @ zs" "\<forall>p \<in> set (q # xs). g p < t" by auto
    with qs(3,4) show ?thesis by blast
  next
    case 2
    with le qs(2) have "xs = []" by (cases xs) (fastforce simp: qs(1))+
    with qs 2 have "q # qs = [] @ (q # ys) @ zs" "\<forall>p \<in> set (q # ys). t \<le> g p \<and> g p < t'" by auto
    with qs(4) show ?thesis by (metis empty_iff list.set(1))
  next
    case 3
    with le have "\<forall>p \<in> set (q # qs). t' \<le> g p" by auto
    then show ?thesis by (intro exI [of _ "[]"] exI [of _ "q # qs"]) simp
  qed
qed simp

definition calls_ok :: "rate_request list \<Rightarrow> bool" where
  "calls_ok qs \<longleftrightarrow> (\<forall>q \<in> set qs. subject_ok (rq_subject q))"

lemma run_own_quota:
  assumes "calls_ok qs" and "subject_ok s"
  shows "filter (\<lambda>(q, _). same_quota s (rq_subject q)) (run_ops limiter_op qs r) =
         run_ops limiter_op (filter (\<lambda>q. same_quota s (rq_subject q)) qs) r"
proof -
  let ?k = "subject_key s"
  have key: "same_quota s (rq_subject q) \<longleftrightarrow> request_key q = ?k" if "q \<in> set qs" for q
    using subject_key_inj [of s "rq_subject q"] assms that by (auto simp: calls_ok_def)
  have fst: "fst x \<in> set qs" if "x \<in> set (run_ops limiter_op qs r)" for x
    using that by (metis image_eqI list.set_map map_fst_run_ops)
  have "filter (\<lambda>(q, _). same_quota s (rq_subject q)) (run_ops limiter_op qs r) =
      filter (\<lambda>(q, _). request_key q = ?k) (run_ops limiter_op qs r)"
    by (rule filter_cong [OF refl]) (use key fst in fastforce)
  also have "\<dots> = run_ops limiter_op (filter (\<lambda>q. request_key q = ?k) qs) r"
    by (rule run_ops_project [OF limiter_op_local refl])
  also have "filter (\<lambda>q. request_key q = ?k) qs = filter (\<lambda>q. same_quota s (rq_subject q)) qs"
    by (rule filter_cong [OF refl]) (simp add: key)
  finally show ?thesis .
qed

text \<open>
  Quotas are separate. The answers that the requests of one subject get (a key in one community, or
  an address) are the answers they would get if no other subject made any request: the same key in
  another community, another limit type, or an address cannot use up or refresh its quota.
\<close>
theorem quotas_isolated:
  assumes "calls_ok qs" and "subject_ok s"
  shows "filter (\<lambda>(q, _). same_quota s (rq_subject q)) (run_ops limiter_op qs r) =
         run_ops limiter_op (filter (\<lambda>q. same_quota s (rq_subject q)) qs) r"
  using assms by (rule run_own_quota)

text \<open>
  C8. The limit holds. Whatever Redis holds at the start, whatever other subjects do and whatever calls
  fail or lose their answer: in any interval of the length of one window, a subject is admitted at
  most twice its limit (the burst at a boundary that the documentation concedes, and no more).
\<close>
theorem rate_limit_bound:
  assumes "sorted (map rq_now qs)" and "calls_ok qs" and "subject_ok s"
    and "\<forall>q \<in> set qs. same_quota s (rq_subject q) \<longrightarrow>
           rq_window q = w \<and> rq_limit q \<le> l \<and> rq_now q + 1000 * w < 2 ^ 63"
  shows "length (filter (\<lambda>(q, a). same_quota s (rq_subject q) \<and> t \<le> rq_now q \<and> rq_now q < t + 1000 * w \<and> admits a)
           (run_ops limiter_op qs r)) \<le> 2 * l"
proof -
  let ?own = "filter (\<lambda>q. same_quota s (rq_subject q)) qs"
  let ?in = "\<lambda>q. t \<le> rq_now q \<and> rq_now q < t + 1000 * w"
  have sorted: "sorted (map rq_now ?own)" using assms(1) by (rule sorted_filter)
  then obtain xs ys zs where own: "?own = xs @ ys @ zs" and xs: "\<forall>q \<in> set xs. rq_now q < t"
    and ys: "\<forall>q \<in> set ys. ?in q" and zs: "\<forall>q \<in> set zs. t + 1000 * w \<le> rq_now q"
    using sorted_interval [of rq_now ?own t "t + 1000 * w"] by auto
  obtain r1 r2 where run: "run_ops limiter_op ?own r =
      run_ops limiter_op xs r @ run_ops limiter_op ys r1 @ run_ops limiter_op zs r2"
    unfolding own by (metis run_ops_append)
  have none: "filter (\<lambda>(q, a). ?in q \<and> admits a) (run_ops limiter_op us u) = []"
    if "\<forall>q \<in> set us. \<not> ?in q" for us u
    using that by (induction us arbitrary: u) auto
  have all: "filter (\<lambda>(q, a). ?in q \<and> admits a) (run_ops limiter_op us u) =
      filter (\<lambda>(_, a). admits a) (run_ops limiter_op us u)" if "\<forall>q \<in> set us. ?in q" for us u
    using that by (induction us arbitrary: u) auto
  have "filter (\<lambda>(q, a). same_quota s (rq_subject q) \<and> ?in q \<and> admits a) (run_ops limiter_op qs r) =
      filter (\<lambda>(q, a). ?in q \<and> admits a) (filter (\<lambda>(q, _). same_quota s (rq_subject q)) (run_ops limiter_op qs r))"
    unfolding filter_filter by (rule arg_cong [where f = "\<lambda>P. filter P _"]) auto
  also have "\<dots> = filter (\<lambda>(q, a). ?in q \<and> admits a) (run_ops limiter_op ?own r)"
    by (simp only: run_own_quota [OF assms(2,3)])
  also have "\<dots> = filter (\<lambda>(_, a). admits a) (run_ops limiter_op ys r1)"
  proof -
    have "\<forall>q \<in> set xs. \<not> ?in q" and "\<forall>q \<in> set zs. \<not> ?in q" using xs zs by auto
    then show ?thesis
      by (simp only: run filter_append none [of xs] none [of zs] all [OF ys] append_Nil append_Nil2)
  qed
  finally have count: "length (filter (\<lambda>(q, a). same_quota s (rq_subject q) \<and> ?in q \<and> admits a)
      (run_ops limiter_op qs r)) = admitted (run_ops limiter_op ys r1)"
    by (simp add: admitted_def)
  have "in_window (subject_key s) w l t q" if "q \<in> set ys" for q
  proof -
    from that have "q \<in> set ?own" by (simp add: own)
    then have q: "q \<in> set qs" "same_quota s (rq_subject q)" by auto
    with assms(2,3) subject_key_inj [of s "rq_subject q"] have "request_key q = subject_key s"
      by (auto simp: calls_ok_def)
    with q assms(4) ys that show ?thesis by (auto simp: in_window_def)
  qed
  moreover have "sorted (map rq_now ys)" using sorted by (simp add: own sorted_append)
  ultimately have "admitted (run_ops limiter_op ys r1) \<le> 2 * l"
    by (intro admitted_within_window [where k = "subject_key s" and w = w and a = t]) auto
  with count show ?thesis by simp
qed


subsection \<open>The seen-set\<close>

text \<open>
  What a guard promises that claims keys of the seen-set: a key that is held is kept until its time
  is over and cannot be claimed before, and a claim holds the key for \<open>ttl\<close> milliseconds.
\<close>

locale seen_set =
  fixes op :: "'q \<Rightarrow> Redis \<Rightarrow> 'a \<times> Redis"
    and at :: "'q \<Rightarrow> instant"
    and claims :: "'q \<Rightarrow> 'a \<Rightarrow> string \<Rightarrow> bool"
    and ttl :: nat
  assumes held: "hget r k = Some (v, Some t) \<Longrightarrow> at q < t \<Longrightarrow>
      hget (snd (op q r)) k = Some (v, Some t) \<and> \<not> claims q (fst (op q r)) k"
    and claimed: "claims q (fst (op q r)) k \<Longrightarrow>
      \<exists>v t. hget (snd (op q r)) k = Some (v, Some t) \<and> at q + ttl \<le> t"
begin

lemma held_until:
  assumes "hget r k = Some (v, Some t)" and "sorted (map at qs)" and "(q, a) \<in> set (run_ops op qs r)"
    and "claims q a k"
  shows "t \<le> at q"
  using assms
proof (induction qs arbitrary: r)
  case (Cons p qs)
  show ?case
  proof (cases "at p < t")
    case True
    note keep = held [OF Cons.prems(1) True]
    from Cons.prems(3) consider "(q, a) = (p, fst (op p r))" | "(q, a) \<in> set (run_ops op qs (snd (op p r)))"
      by auto
    then show ?thesis
    proof cases
      case 1
      with keep Cons.prems(4) show ?thesis by simp
    next
      case 2
      from Cons.IH [OF conjunct1 [OF keep] _ 2 Cons.prems(4)] Cons.prems(2) show ?thesis by simp
    qed
  next
    case False
    have "q \<in> set (p # qs)" using Cons.prems(3) by (metis image_eqI fst_conv list.set_map map_fst_run_ops)
    with Cons.prems(2) False show ?thesis by auto
  qed
qed simp

lemma claims_spaced:
  assumes "sorted (map at qs)"
  shows "sorted_wrt (\<lambda>(q, a) (q', a'). \<forall>k. claims q a k \<longrightarrow> claims q' a' k \<longrightarrow> at q + ttl \<le> at q') (run_ops op qs r)"
  using assms
proof (induction qs arbitrary: r)
  case (Cons p qs)
  have "at p + ttl \<le> at q'"
    if "(q', a') \<in> set (run_ops op qs (snd (op p r)))" and "claims p (fst (op p r)) k" and "claims q' a' k" for q' a' k
  proof -
    from claimed [OF that(2)] obtain v t where "hget (snd (op p r)) k = Some (v, Some t)" "at p + ttl \<le> t" by blast
    with held_until [OF this(1) _ that(1,3)] Cons.prems show ?thesis by simp
  qed
  with Cons show ?case by auto
qed simp

end

record mark =
  mk_now :: instant
  mk_scope :: string
  mk_id :: string
  mk_ttl :: nat
  mk_links :: guard_links

definition mark_op :: "mark \<Rightarrow> Redis \<Rightarrow> (AuthError + bool) \<times> Redis" where
  "mark_op m = try_mark_in_scope (mk_links m) (mk_now m) (mk_scope m) (mk_id m) (mk_ttl m)"

definition mark_claims :: "mark \<Rightarrow> AuthError + bool \<Rightarrow> string \<Rightarrow> bool" where
  "mark_claims m a k \<longleftrightarrow> a = Inr True \<and> k = nip98_replay_key_for_scope (mk_scope m) (mk_id m)"

lemma mark_held:
  assumes "hget r k = Some (v, Some t)" and "now < t"
  shows "hget (snd (try_mark_in_scope G now scope i ttl r)) k = Some (v, Some t)"
    and "k = nip98_replay_key_for_scope scope i \<Longrightarrow> fst (try_mark_in_scope G now scope i ttl r) \<noteq> Inr True"
proof -
  let ?k = "nip98_replay_key_for_scope scope i"
  have own: "hget (snd (try_mark_in_scope G now scope i ttl r)) ?k = hget r ?k \<and>
      fst (try_mark_in_scope G now scope i ttl r) \<noteq> Inr True" if "k = ?k"
  proof -
    have "redis_set_nx_ex now ?k ''1'' n r = (None, r)" for n
      using assms that by (simp add: redis_set_nx_ex_def redis_get_def)
    then show ?thesis
      by (cases "gl_pool G"; cases "gl_set G") (simp_all add: try_mark_in_scope_def over_link_def)
  qed
  show "hget (snd (try_mark_in_scope G now scope i ttl r)) k = Some (v, Some t)"
    using own local_toD(3) [OF local_to_mark, of k scope i G now ttl r] assms(1) by (cases "k = ?k") auto
  show "k = ?k \<Longrightarrow> fst (try_mark_in_scope G now scope i ttl r) \<noteq> Inr True" using own by simp
qed

lemma mark_claimed:
  assumes "fst (try_mark_in_scope G now scope i ttl r) = Inr True"
  shows "hget (snd (try_mark_in_scope G now scope i ttl r)) (nip98_replay_key_for_scope scope i) =
           Some (''1'', Some (now + 1000 * max 120 (min 3600 ttl)))"
  using assms
  by (cases "gl_pool G"; cases "gl_set G"; cases "redis_get now (nip98_replay_key_for_scope scope i) r")
    (simp_all add: try_mark_in_scope_def over_link_def redis_set_nx_ex_def DEFAULT_REPLAY_TTL_SECS_def
      MAX_REPLAY_TTL_SECS_def)

interpretation marks: seen_set mark_op mk_now mark_claims 120000
proof
  fix r :: Redis and k v t and q :: mark
  assume "hget r k = Some (v, Some t)" and "mk_now q < t"
  from mark_held [OF this] show "hget (snd (mark_op q r)) k = Some (v, Some t) \<and> \<not> mark_claims q (fst (mark_op q r)) k"
    by (auto simp: mark_op_def mark_claims_def)
next
  fix q :: mark and r :: Redis and k
  assume "mark_claims q (fst (mark_op q r)) k"
  then show "\<exists>v t. hget (snd (mark_op q r)) k = Some (v, Some t) \<and> mk_now q + 120000 \<le> t"
    using mark_claimed [of "mk_links q" "mk_now q" "mk_scope q" "mk_id q" "mk_ttl q" r]
    by (auto simp: mark_op_def mark_claims_def)
qed














text \<open>
  An operator request is granted to a key of the configured list only, for an event signed by that
  key for this method and this URL of the configured origin (whatever host the request names), with
  a payload tag when there is a body, and only by claiming the event in the seen-set.
\<close>
lemma operator_request_granted:
  assumes "authorize_operator_request E U C G now h method path raw_query body r = (Inr pubkey, r')"
  shows "pubkey \<in> set (oc_pubkeys C) \<and>
    (\<exists>origin event. oc_origin C = Some origin \<and> header_event E h = Some event \<and> ev_pubkey event = pubkey \<and>
       (body \<noteq> None \<longrightarrow> list_ex (\<lambda>t. tag_kind t = ''payload'') (ev_tags event)) \<and>
       verify_nip98_parsed E U (now div 1000) event
         (origin @ (case raw_query of Some q \<Rightarrow> if q \<noteq> [] then path @ ''?'' @ q else path | None \<Rightarrow> path)) method body = Inr pubkey \<and>
       try_mark_in_scope G now ''operator-management'' (ev_id event) 120 r = (Inr True, r'))"
proof -
  let ?path = "case raw_query of Some q \<Rightarrow> if q \<noteq> [] then path @ ''?'' @ q else path | None \<Rightarrow> path"
  from assms obtain origin where origin: "oc_origin C = Some origin"
    by (cases "oc_origin C") (simp_all add: authorize_operator_request_def)
  from assms obtain pk i where auth: "verify_bridge_auth_with_options E U (now div 1000) h method (origin @ ?path) body True
      (body \<noteq> None) = Inr (pk, i)"
    by (cases "verify_bridge_auth_with_options E U (now div 1000) h method (origin @ ?path) body True (body \<noteq> None)")
      (auto simp: authorize_operator_request_def origin Let_def simp del: not_None_eq)
  obtain a r1 where mark: "try_mark_in_scope G now ''operator-management'' i 120 r = (a, r1)" by fastforce
  from assms have "a = Inr True \<and> r1 = r' \<and> pk = pubkey \<and> pubkey \<in> set (oc_pubkeys C)"
    by (auto simp: authorize_operator_request_def origin Let_def auth check_operator_replay_def mark
        OPERATOR_REPLAY_SCOPE_def DEFAULT_REPLAY_TTL_SECS_def simp del: not_None_eq
        split: sum.splits bool.splits if_splits)
  with auth origin mark show ?thesis
    unfolding bridge_auth_accepts by (auto simp: nip98_parsed_accepts)
qed

subsection \<open>Concrete runs\<close>


definition answered :: limiter_links where
  "answered = \<lparr>lk_pool = None, lk_script = Answered, lk_expire = Answered\<rparr>"

definition demo_tenant :: TenantContext where
  "demo_tenant = \<lparr>tn_community = ''c'', tn_host = ''h''\<rparr>"

definition demo_requests :: "rate_request list" where
  "demo_requests = map (\<lambda>t. \<lparr>rq_now = t, rq_subject = Principal demo_tenant ''p'' Messages, rq_window = 1,
     rq_limit = 2, rq_links = answered\<rparr>) [0, 900, 950, 1000, 1001, 1002]"

lemma demo_requests_admitted:
  "map (\<lambda>(q, a). admits a) (run_ops limiter_op demo_requests []) = [True, True, False, True, True, False]"
  by (simp add: demo_requests_def limiter_op_key answered_def run_rate_limit_def over_link_def rate_limit_script_def
      redis_incr_def redis_get_def redis_expire_def redis_ttl_def i64_wrap_def)

theorem rate_limit_bound_witness:
  "length (filter (\<lambda>(q, a). same_quota (Principal demo_tenant ''p'' Messages) (rq_subject q) \<and>
      900 \<le> rq_now q \<and> rq_now q < 900 + 1000 * 1 \<and> admits a) (run_ops limiter_op demo_requests [])) \<le> 2 * 2 \<and>
   length (filter (\<lambda>(q, a). 900 \<le> rq_now q \<and> rq_now q < 1900 \<and> admits a) (run_ops limiter_op demo_requests [])) = 3"
proof
  show "length (filter (\<lambda>(q, a). same_quota (Principal demo_tenant ''p'' Messages) (rq_subject q) \<and>
      900 \<le> rq_now q \<and> rq_now q < 900 + 1000 * 1 \<and> admits a) (run_ops limiter_op demo_requests [])) \<le> 2 * 2"
    by (rule rate_limit_bound [where w = 1 and l = 2]) (simp_all add: demo_requests_def calls_ok_def demo_tenant_def)
  show "length (filter (\<lambda>(q, a). 900 \<le> rq_now q \<and> rq_now q < 1900 \<and> admits a) (run_ops limiter_op demo_requests [])) = 3"
    by (simp add: demo_requests_def limiter_op_key answered_def run_rate_limit_def over_link_def rate_limit_script_def
      redis_incr_def redis_get_def redis_expire_def redis_ttl_def i64_wrap_def)
qed

theorem quotas_isolated_witness:
  "filter (\<lambda>(q, _). same_quota (Address ''p'') (rq_subject q)) (run_ops limiter_op demo_requests []) = []"
  by (subst quotas_isolated) (simp_all add: demo_requests_def calls_ok_def demo_tenant_def)








end
