(* ===== verification/Nip_Oa.thy ===== *)
theory Nip_Oa
  imports Auth
begin

text \<open>
  Owner attestations (NIP-OA): the tag by which an owner key authorizes an agent key
  (\<open>buzz-sdk/src/nip_oa.rs\<close>).

  Keys are their hexadecimal text. Hashing, Schnorr signatures, hexadecimal coding, JSON text and the
  \<open>Debug\<close> text of a string are parameters (\<open>oa_env\<close>).
\<close>

subsection \<open>Conditions\<close>

datatype SdkError = InvalidInput string

record oa_env =
  oa_parse_json :: "string \<Rightarrow> string + json"
  oa_json_text :: "json \<Rightarrow> string"
  oa_key_from_hex :: "string \<Rightarrow> string + string"
  oa_xonly :: "string \<Rightarrow> string + bytes"
  oa_sig_from_str :: "string \<Rightarrow> string + bytes"
  oa_sig_text :: "bytes \<Rightarrow> string"
  oa_sha256 :: "bytes \<Rightarrow> bytes"
  oa_verify :: "bytes \<Rightarrow> bytes \<Rightarrow> bytes \<Rightarrow> string + unit"
  oa_sign :: "bytes \<Rightarrow> bytes \<Rightarrow> bytes"
  oa_public :: "bytes \<Rightarrow> string"
  oa_debug :: "string \<Rightarrow> string"

definition is_ascii_whitespace :: "char \<Rightarrow> bool" where
  "is_ascii_whitespace c = (let n = of_char c :: nat in n = 32 \<or> n = 9 \<or> n = 10 \<or> n = 12 \<or> n = 13)"

definition validate_canonical_decimal ::
  "oa_env \<Rightarrow> string \<Rightarrow> nat \<Rightarrow> nat \<Rightarrow> string \<Rightarrow> SdkError + unit" where
  "validate_canonical_decimal E s lo hi label =
     (if s = [] then Inl (InvalidInput (label @ '' value must not be empty''))
      else if length s > 1 \<and> starts_with s ''0''
      then Inl (InvalidInput (label @ '' value has leading zero: '' @ oa_debug E s))
      else if \<not> list_all is_digit s
      then Inl (InvalidInput (label @ '' value is not a valid decimal: '' @ oa_debug E s))
      else case parse_u64 s of
             None \<Rightarrow> Inl (InvalidInput (label @ '' value out of range: number too large to fit in target type''))
           | Some value \<Rightarrow>
               if value < lo \<or> value > hi
               then Inl (InvalidInput (label @ '' value '' @ dec value @ '' out of range ['' @ dec lo @ '', '' @ dec hi @ '']''))
               else Inr ())"

definition validate_clause :: "oa_env \<Rightarrow> string \<Rightarrow> SdkError + unit" where
  "validate_clause E clause =
     (case strip_prefix clause ''kind='' of
        Some value \<Rightarrow> validate_canonical_decimal E value 0 65535 ''kind''
      | None \<Rightarrow>
     (case strip_prefix clause ''created_at<'' of
        Some value \<Rightarrow> validate_canonical_decimal E value 0 4294967295 ''created_at<''
      | None \<Rightarrow>
     (case strip_prefix clause ''created_at>'' of
        Some value \<Rightarrow> validate_canonical_decimal E value 0 4294967295 ''created_at>''
      | None \<Rightarrow> Inl (InvalidInput (''unsupported clause: '' @ oa_debug E clause)))))"

fun validate_clauses :: "oa_env \<Rightarrow> string list \<Rightarrow> SdkError + unit" where
  "validate_clauses E [] = Inr ()"
| "validate_clauses E (clause # clauses) =
     (if clause = []
      then Inl (InvalidInput (''empty clause in conditions (leading/trailing/double '' @ quoted ''&'' @ '')''))
      else and_then (validate_clause E clause) (\<lambda>_. validate_clauses E clauses))"

definition validate_conditions :: "oa_env \<Rightarrow> string \<Rightarrow> SdkError + unit" where
  "validate_conditions E conditions =
     (if conditions = [] then Inr ()
      else if list_ex is_ascii_whitespace conditions
      then Inl (InvalidInput ''conditions must not contain whitespace'')
      else validate_clauses E (split_on (CHR ''&'') conditions))"

subsection \<open>The tag\<close>

definition build_preimage :: "string \<Rightarrow> string \<Rightarrow> string" where
  "build_preimage agent_pubkey conditions = ''nostr:agent-auth:'' @ agent_pubkey @ '':'' @ conditions"

definition hash_preimage :: "oa_env \<Rightarrow> string \<Rightarrow> bytes" where
  "hash_preimage E preimage = oa_sha256 E (ascii_bytes preimage)"

definition is_lowercase_hex :: "char \<Rightarrow> bool" where
  "is_lowercase_hex c \<longleftrightarrow> is_digit c \<or> 97 \<le> (of_char c :: nat) \<and> (of_char c :: nat) \<le> 102"

definition parse_json_array :: "oa_env \<Rightarrow> string \<Rightarrow> SdkError + json list" where
  "parse_json_array E s =
     (case oa_parse_json E s of
        Inl e \<Rightarrow> Inl (InvalidInput (''invalid JSON: '' @ e))
      | Inr (JArray arr) \<Rightarrow> Inr arr
      | Inr _ \<Rightarrow> Inl (InvalidInput ''auth tag must be a JSON array''))"

definition json_as_str :: "json \<Rightarrow> string option" where
  "json_as_str j = (case j of JString s \<Rightarrow> Some s | _ \<Rightarrow> None)"

definition str_or :: "string \<Rightarrow> json \<Rightarrow> SdkError + string" where
  "str_or e j = (case json_as_str j of None \<Rightarrow> Inl (InvalidInput e) | Some s \<Rightarrow> Inr s)"

definition compute_auth_tag :: "oa_env \<Rightarrow> bytes \<Rightarrow> string \<Rightarrow> string \<Rightarrow> SdkError + string" where
  "compute_auth_tag E owner_secret agent_pubkey conditions =
     (let owner_pubkey = oa_public E owner_secret
      in if owner_pubkey = agent_pubkey
         then Inl (InvalidInput ''owner and agent pubkeys must differ (self-attestation rejected)'')
         else and_then (validate_conditions E conditions) (\<lambda>_.
           let sig = oa_sign E owner_secret (hash_preimage E (build_preimage agent_pubkey conditions))
           in Inr (oa_json_text E (JArray [JString ''auth'', JString owner_pubkey, JString conditions,
                                           JString (oa_sig_text E sig)]))))"

definition four_elements :: "oa_env \<Rightarrow> string \<Rightarrow> SdkError + json \<times> json \<times> json \<times> json" where
  "four_elements E s =
     and_then (parse_json_array E s) (\<lambda>arr.
       case arr of
         [a, b, c, d] \<Rightarrow> Inr (a, b, c, d)
       | _ \<Rightarrow> Inl (InvalidInput (''auth tag must have 4 elements, got '' @ dec (length arr))))"

definition auth_label :: "json \<Rightarrow> SdkError + unit" where
  "auth_label j =
     and_then (str_or ''element 0 must be a string'' j) (\<lambda>label.
       if label \<noteq> ''auth''
       then Inl (InvalidInput (''first element must be '' @ CHR 0x22 # ''auth'' @ CHR 0x22 # '', got '' @ CHR 0x22 # label @ [CHR 0x22]))
       else Inr ())"

definition verify_auth_tag :: "oa_env \<Rightarrow> string \<Rightarrow> string \<Rightarrow> SdkError + string" where
  "verify_auth_tag E auth_tag_json agent_pubkey =
     and_then (four_elements E auth_tag_json) (\<lambda>(a, b, c, d).
     and_then (auth_label a) (\<lambda>_.
     and_then (str_or ''element 1 (owner pubkey) must be a string'' b) (\<lambda>owner_pubkey_hex.
     and_then (str_or ''element 2 (conditions) must be a string'' c) (\<lambda>conditions.
     and_then (str_or ''element 3 (signature) must be a string'' d) (\<lambda>sig_hex.
     and_then (map_sum (\<lambda>e. InvalidInput (''invalid owner pubkey: '' @ e)) id (oa_key_from_hex E owner_pubkey_hex)) (\<lambda>owner_pubkey.
     and_then (validate_conditions E conditions) (\<lambda>_.
     if owner_pubkey = agent_pubkey
     then Inl (InvalidInput ''owner and agent pubkeys must differ (self-attestation rejected)'')
     else
     and_then (map_sum (\<lambda>e. InvalidInput (''invalid signature hex: '' @ e)) id (oa_sig_from_str E sig_hex)) (\<lambda>sig.
     and_then (map_sum (\<lambda>e. InvalidInput (''owner pubkey xonly conversion failed: '' @ e)) id (oa_xonly E owner_pubkey)) (\<lambda>xonly.
     and_then (map_sum (\<lambda>e. InvalidInput (''signature verification failed: '' @ e)) id
                 (oa_verify E sig (hash_preimage E (build_preimage agent_pubkey conditions)) xonly)) (\<lambda>_.
     Inr owner_pubkey))))))))))"

definition parse_auth_tag :: "oa_env \<Rightarrow> string \<Rightarrow> SdkError + nostr_tag" where
  "parse_auth_tag E json_str =
     and_then (four_elements E json_str) (\<lambda>(a, b, c, d).
     and_then (auth_label a) (\<lambda>_.
     and_then (str_or ''element 1 (owner pubkey) must be a string'' b) (\<lambda>owner_pubkey_hex.
     if length owner_pubkey_hex \<noteq> 64 \<or> \<not> list_all is_lowercase_hex owner_pubkey_hex
     then Inl (InvalidInput (''owner pubkey must be 64 hex chars, got '' @ oa_debug E owner_pubkey_hex))
     else
     and_then (str_or ''element 2 (conditions) must be a string'' c) (\<lambda>conditions.
     and_then (validate_conditions E conditions) (\<lambda>_.
     and_then (str_or ''element 3 (signature) must be a string'' d) (\<lambda>sig_hex.
     if length sig_hex \<noteq> 128 \<or> \<not> list_all is_lowercase_hex sig_hex
     then Inl (InvalidInput (''signature must be 128 hex chars, got length '' @ dec (length sig_hex)))
     else Inr \<lparr>tag_kind = ''auth'', tag_content = Some owner_pubkey_hex,
                tag_slice = [''auth'', owner_pubkey_hex, conditions, sig_hex]\<rparr>))))))"

subsection \<open>What the conditions say\<close>

datatype clause = KindIs nat | CreatedBefore nat | CreatedAfter nat

fun clause_text :: "clause \<Rightarrow> string" where
  "clause_text (KindIs n) = ''kind='' @ dec n"
| "clause_text (CreatedBefore n) = ''created_at<'' @ dec n"
| "clause_text (CreatedAfter n) = ''created_at>'' @ dec n"

fun clause_ok :: "clause \<Rightarrow> bool" where
  "clause_ok (KindIs n) \<longleftrightarrow> n \<le> 65535"
| "clause_ok (CreatedBefore n) \<longleftrightarrow> n \<le> 4294967295"
| "clause_ok (CreatedAfter n) \<longleftrightarrow> n \<le> 4294967295"

definition conditions_text :: "clause list \<Rightarrow> string" where
  "conditions_text cs = join_with (CHR ''&'') (map clause_text cs)"

lemma digit_zero: "(of_char c :: nat) = 48 \<longleftrightarrow> c = CHR ''0''"
proof
  assume c: "(of_char c :: nat) = 48"
  have "(of_char (CHR ''0'') :: nat) = 48" by simp
  with c show "c = CHR ''0''" by (metis char_of_char)
qed simp

lemma undec_positive: "c \<noteq> CHR ''0'' \<Longrightarrow> list_all is_digit (c # s) \<Longrightarrow> 0 < undec (c # s)"
proof (induction s rule: rev_induct)
  case Nil
  with digit_zero [of c] show ?case by (simp add: undec_def is_digit_def)
next
  case (snoc x xs)
  then show ?case using undec_snoc [of "c # xs" x] by simp
qed

lemma digit_char_of: "is_digit c \<Longrightarrow> digit_char (of_char c - 48) = c"
  by (simp add: is_digit_def digit_char_def)

lemma dec_undec:
  assumes "s \<noteq> []" and "list_all is_digit s" and "length s > 1 \<longrightarrow> \<not> starts_with s ''0''"
  shows "dec (undec s) = s"
  using assms
proof (induction s rule: rev_induct)
  case (snoc x xs)
  have x: "is_digit x" using snoc.prems by simp
  then have lt: "of_char x - 48 < (10 :: nat)" unfolding is_digit_def by linarith
  show ?case
  proof (cases "xs = []")
    case True
    then show ?thesis using lt x by (subst dec.simps) (simp add: undec_def digit_char_of)
  next
    case False
    then obtain c cs where xs: "xs = c # cs" by (cases xs) auto
    have c: "c \<noteq> CHR ''0''" using snoc.prems(3) by (auto simp: xs starts_with_def)
    then have pos: "0 < undec xs" using snoc.prems(2) undec_positive [of c cs] by (simp add: xs)
    have "dec (undec xs) = xs"
      using snoc.IH snoc.prems False c by (simp add: xs starts_with_def)
    moreover have "undec (xs @ [x]) div 10 = undec xs" and "undec (xs @ [x]) mod 10 = of_char x - 48"
      using lt by (simp_all add: undec_snoc)
    moreover have "\<not> undec (xs @ [x]) < 10" using pos by (simp add: undec_snoc)
    ultimately show ?thesis using x by (subst dec.simps) (simp add: digit_char_of)
  qed
qed simp

lemma dec_positive_head: "0 < n \<Longrightarrow> \<not> starts_with (dec n) ''0''"
proof (induction n rule: dec.induct)
  case (1 n)
  show ?case
  proof (cases "n < 10")
    case True
    with 1 have "of_char (digit_char n) \<noteq> (48 :: nat)" by (simp add: of_digit_char)
    then have "digit_char n \<noteq> CHR ''0''" by auto
    with True show ?thesis by (subst dec.simps) (simp add: starts_with_def)
  next
    case False
    with 1 have "\<not> starts_with (dec (n div 10)) ''0''" by simp
    moreover have "dec (n div 10) \<noteq> []" by (subst dec.simps) simp
    ultimately show ?thesis using False by (subst dec.simps) (auto simp: starts_with_def neq_Nil_conv)
  qed
qed

lemma dec_no_leading_zero: "length (dec n) > 1 \<Longrightarrow> \<not> starts_with (dec n) ''0''"
  using dec_positive_head [of n] by (cases "n = 0") (simp_all add: dec.simps [of 0])

lemma canonical_decimal_iff:
  assumes "hi < 2 ^ 64"
  shows "validate_canonical_decimal E s 0 hi label = Inr () \<longleftrightarrow> (\<exists>n \<le> hi. s = dec n)"
proof
  assume v: "validate_canonical_decimal E s 0 hi label = Inr ()"
  then have s: "s \<noteq> []" "length s > 1 \<longrightarrow> \<not> starts_with s ''0''" "list_all is_digit s"
    by (auto simp: validate_canonical_decimal_def split: if_splits)
  from v s obtain m where m: "parse_u64 s = Some m" "m \<le> hi"
    by (auto simp: validate_canonical_decimal_def split: if_splits option.splits)
  have "dec (undec s) = s" using dec_undec s by blast
  moreover have "\<not> starts_with s ''+''" using s by (cases s) (auto simp: starts_with_def is_digit_def)
  then have "m = undec s" using m(1) by (simp add: parse_u64_def split: if_splits)
  ultimately show "\<exists>n \<le> hi. s = dec n" using m(2) by metis
next
  assume "\<exists>n \<le> hi. s = dec n"
  then obtain n where n: "n \<le> hi" "s = dec n" by blast
  have "parse_u64 s = Some n" using assms n parse_u64_dec by simp
  moreover have "s \<noteq> []" unfolding n(2) by (subst dec.simps) simp
  moreover have "length s > 1 \<longrightarrow> \<not> starts_with s ''0''" using dec_no_leading_zero n(2) by simp
  ultimately show "validate_canonical_decimal E s 0 hi label = Inr ()"
    using n dec_digits [of n] by (simp add: validate_canonical_decimal_def)
qed

lemma strip_prefix_Some: "strip_prefix s p = Some r \<longleftrightarrow> s = p @ r"
  by (auto simp: strip_prefix_def starts_with_def) (metis append_take_drop_id)

lemma validate_clause_iff: "validate_clause E s = Inr () \<longleftrightarrow> (\<exists>c. clause_ok c \<and> s = clause_text c)"
proof
  assume v: "validate_clause E s = Inr ()"
  then consider r where "s = ''kind='' @ r" "validate_canonical_decimal E r 0 65535 ''kind'' = Inr ()"
    | r where "s = ''created_at<'' @ r" "validate_canonical_decimal E r 0 4294967295 ''created_at<'' = Inr ()"
    | r where "s = ''created_at>'' @ r" "validate_canonical_decimal E r 0 4294967295 ''created_at>'' = Inr ()"
    unfolding validate_clause_def by (auto split: option.splits simp: strip_prefix_Some)
  then show "\<exists>c. clause_ok c \<and> s = clause_text c"
  proof cases
    case 1
    then obtain n where "n \<le> 65535" "r = dec n" by (auto simp: canonical_decimal_iff)
    with 1 have "clause_ok (KindIs n) \<and> s = clause_text (KindIs n)" by simp
    then show ?thesis by blast
  next
    case 2
    then obtain n where "n \<le> 4294967295" "r = dec n" by (auto simp: canonical_decimal_iff)
    with 2 have "clause_ok (CreatedBefore n) \<and> s = clause_text (CreatedBefore n)" by simp
    then show ?thesis by blast
  next
    case 3
    then obtain n where "n \<le> 4294967295" "r = dec n" by (auto simp: canonical_decimal_iff)
    with 3 have "clause_ok (CreatedAfter n) \<and> s = clause_text (CreatedAfter n)" by simp
    then show ?thesis by blast
  qed
next
  assume "\<exists>c. clause_ok c \<and> s = clause_text c"
  then obtain c where c: "clause_ok c" "s = clause_text c" by blast
  have none: "strip_prefix (''created_at<'' @ r) ''kind='' = None" "strip_prefix (''created_at>'' @ r) ''kind='' = None"
    "strip_prefix (''created_at>'' @ r) ''created_at<'' = None" for r
    by (simp_all add: strip_prefix_def starts_with_def)
  have some: "strip_prefix (''kind='' @ r) ''kind='' = Some r" "strip_prefix (''created_at<'' @ r) ''created_at<'' = Some r"
    "strip_prefix (''created_at>'' @ r) ''created_at>'' = Some r" for r
    by (simp_all only: strip_prefix_Some)
  have ok: "validate_canonical_decimal E (dec n) 0 65535 l = Inr ()" if "n \<le> 65535" for n l
    using that by (auto simp: canonical_decimal_iff)
  have ok': "validate_canonical_decimal E (dec n) 0 4294967295 l = Inr ()" if "n \<le> 4294967295" for n l
    using that by (auto simp: canonical_decimal_iff)
  show "validate_clause E s = Inr ()"
    using c(1) unfolding c(2) validate_clause_def
    by (cases c) (simp_all only: clause_text.simps clause_ok.simps none some option.simps ok ok')
qed


lemma digit_facts: "is_digit c \<Longrightarrow> c \<noteq> CHR ''&'' \<and> c \<noteq> CHR '':'' \<and> \<not> is_ascii_whitespace c"
  by (auto simp: is_digit_def is_ascii_whitespace_def Let_def)

lemma clause_chars: "x \<in> set (clause_text c) \<Longrightarrow> x \<noteq> CHR ''&'' \<and> \<not> is_ascii_whitespace x"
proof -
  assume x: "x \<in> set (clause_text c)"
  have "list_all (\<lambda>x. x \<noteq> CHR ''&'' \<and> \<not> is_ascii_whitespace x) (dec n)" for n
    using dec_digits [of n] digit_facts by (auto simp: list_all_iff)
  moreover have "list_all (\<lambda>x. x \<noteq> CHR ''&'' \<and> \<not> is_ascii_whitespace x) (''kind='' @ ''created_at<>'')"
    by (simp add: is_ascii_whitespace_def)
  ultimately show ?thesis using x by (cases c) (auto simp: list_all_iff)
qed

lemma clause_nonempty [simp]: "clause_text c \<noteq> []"
  by (cases c) simp_all

lemma validate_clauses_iff:
  "validate_clauses E ps = Inr () \<longleftrightarrow> (\<exists>cs. list_all clause_ok cs \<and> ps = map clause_text cs)"
proof (induction ps)
  case (Cons p ps)
  show ?case
  proof
    assume v: "validate_clauses E (p # ps) = Inr ()"
    then have p: "validate_clause E p = Inr ()" and ps: "validate_clauses E ps = Inr ()"
      by (auto simp: and_then_eq_Inr split: if_splits)
    from p obtain c where "clause_ok c" "p = clause_text c" by (auto simp: validate_clause_iff)
    moreover from ps Cons.IH obtain cs where "list_all clause_ok cs" "ps = map clause_text cs" by blast
    ultimately show "\<exists>cs. list_all clause_ok cs \<and> p # ps = map clause_text cs"
      by (intro exI [of _ "c # cs"]) simp
  next
    assume "\<exists>cs. list_all clause_ok cs \<and> p # ps = map clause_text cs"
    then obtain c cs where cs: "clause_ok c" "list_all clause_ok cs" "p = clause_text c" "ps = map clause_text cs"
      by (auto simp: map_eq_Cons_conv Cons_eq_map_conv)
    then have "validate_clause E p = Inr ()" by (auto simp: validate_clause_iff)
    moreover have "validate_clauses E ps = Inr ()" using cs Cons.IH by blast
    ultimately show "validate_clauses E (p # ps) = Inr ()" by (simp add: cs(3))
  qed
qed simp

lemma set_join_with: "set (join_with d ps) \<subseteq> insert d (\<Union> (set ` set ps))"
  by (induction d ps rule: join_with.induct) auto

lemma validate_conditions_iff:
  "validate_conditions E s = Inr () \<longleftrightarrow> (\<exists>cs. list_all clause_ok cs \<and> s = conditions_text cs)"
proof
  assume v: "validate_conditions E s = Inr ()"
  show "\<exists>cs. list_all clause_ok cs \<and> s = conditions_text cs"
  proof (cases "s = []")
    case True
    then show ?thesis by (intro exI [of _ "[]"]) (simp add: conditions_text_def)
  next
    case False
    with v have "validate_clauses E (split_on (CHR ''&'') s) = Inr ()"
      by (simp add: validate_conditions_def split: if_splits)
    then obtain cs where "list_all clause_ok cs" "split_on (CHR ''&'') s = map clause_text cs"
      by (auto simp: validate_clauses_iff)
    then show ?thesis by (metis conditions_text_def join_split)
  qed
next
  assume "\<exists>cs. list_all clause_ok cs \<and> s = conditions_text cs"
  then obtain cs where cs: "list_all clause_ok cs" "s = conditions_text cs" by blast
  show "validate_conditions E s = Inr ()"
  proof (cases "s = []")
    case True
    then show ?thesis by (simp add: validate_conditions_def)
  next
    case False
    with cs(2) have "cs \<noteq> []" by (auto simp: conditions_text_def)
    then have "split_on (CHR ''&'') s = map clause_text cs"
      unfolding cs(2) conditions_text_def using clause_chars by (intro split_join) auto
    moreover have "\<not> list_ex is_ascii_whitespace s"
    proof -
      have "\<not> is_ascii_whitespace (CHR ''&'')" by (simp add: is_ascii_whitespace_def)
      then show ?thesis
        using set_join_with [of "CHR ''&''" "map clause_text cs"] clause_chars
        unfolding cs(2) conditions_text_def by (fastforce simp: list_ex_iff)
    qed
    ultimately show ?thesis
      using cs(1) False by (auto simp: validate_conditions_def validate_clauses_iff)
  qed
qed

subsection \<open>Attestations\<close>

text \<open>The documented behaviour of the packages: what is printed is read back, and signatures verify.\<close>

definition oa_env_ok :: "oa_env \<Rightarrow> bool" where
  "oa_env_ok E \<longleftrightarrow>
     (\<forall>ss. oa_parse_json E (oa_json_text E (JArray (map JString ss))) = Inr (JArray (map JString ss))) \<and>
     (\<forall>k. oa_key_from_hex E (oa_public E k) = Inr (oa_public E k) \<and>
          length (oa_public E k) = 64 \<and> list_all is_lowercase_hex (oa_public E k)) \<and>
     (\<forall>k m. oa_sig_from_str E (oa_sig_text E (oa_sign E k m)) = Inr (oa_sign E k m) \<and>
          length (oa_sig_text E (oa_sign E k m)) = 128 \<and> list_all is_lowercase_hex (oa_sig_text E (oa_sign E k m))) \<and>
     (\<forall>k m. \<exists>x. oa_xonly E (oa_public E k) = Inr x \<and> oa_verify E (oa_sign E k m) m x = Inr ())"

lemma compute_auth_tag_iff:
  "compute_auth_tag E k agent conditions = Inr t \<longleftrightarrow>
     oa_public E k \<noteq> agent \<and> validate_conditions E conditions = Inr () \<and>
     t = oa_json_text E (JArray (map JString [''auth'', oa_public E k, conditions,
           oa_sig_text E (oa_sign E k (hash_preimage E (build_preimage agent conditions)))]))"
  by (auto simp: compute_auth_tag_def Let_def and_then_eq_Inr)

text \<open>What a verified attestation proves.\<close>

definition attests :: "oa_env \<Rightarrow> string \<Rightarrow> string \<Rightarrow> string \<Rightarrow> string \<Rightarrow> bool" where
  "attests E tag owner agent conditions \<longleftrightarrow>
     owner \<noteq> agent \<and> validate_conditions E conditions = Inr () \<and>
     (\<exists>owner_hex sig_hex sig x.
        oa_parse_json E tag = Inr (JArray (map JString [''auth'', owner_hex, conditions, sig_hex])) \<and>
        oa_key_from_hex E owner_hex = Inr owner \<and> oa_sig_from_str E sig_hex = Inr sig \<and> oa_xonly E owner = Inr x \<and>
        oa_verify E sig (hash_preimage E (build_preimage agent conditions)) x = Inr ())"

lemma json_as_str_Some: "json_as_str j = Some s \<longleftrightarrow> j = JString s"
  by (cases j) (auto simp: json_as_str_def)

lemma str_or_Inr: "str_or e j = Inr s \<longleftrightarrow> j = JString s"
  by (cases j) (auto simp: str_or_def json_as_str_def)

lemma map_sum_Inr: "map_sum f g x = Inr y \<longleftrightarrow> (\<exists>z. x = Inr z \<and> y = g z)"
  by (cases x) auto

lemma parse_json_array_Inr: "parse_json_array E s = Inr arr \<longleftrightarrow> oa_parse_json E s = Inr (JArray arr)"
  by (auto simp: parse_json_array_def split: json.splits sum.splits)

lemma four_elements_Inr: "four_elements E s = Inr (a, b, c, d) \<longleftrightarrow> oa_parse_json E s = Inr (JArray [a, b, c, d])"
proof
  assume "four_elements E s = Inr (a, b, c, d)"
  then obtain arr where "parse_json_array E s = Inr arr"
    and "(case arr of [a, b, c, d] \<Rightarrow> Inr (a, b, c, d)
          | _ \<Rightarrow> Inl (InvalidInput (''auth tag must have 4 elements, got '' @ dec (length arr)))) = Inr (a, b, c, d)"
    by (auto simp: four_elements_def and_then_eq_Inr)
  then show "oa_parse_json E s = Inr (JArray [a, b, c, d])"
    by (auto simp: parse_json_array_Inr split: list.splits)
next
  assume "oa_parse_json E s = Inr (JArray [a, b, c, d])"
  then show "four_elements E s = Inr (a, b, c, d)" by (simp add: four_elements_def parse_json_array_def)
qed

lemma auth_label_Inr: "auth_label j = Inr () \<longleftrightarrow> j = JString ''auth''"
  by (auto simp: auth_label_def and_then_eq_Inr str_or_Inr split: if_splits)

lemma verify_auth_tag_iff:
  "verify_auth_tag E tag agent = Inr owner \<longleftrightarrow> (\<exists>conditions. attests E tag owner agent conditions)"
proof
  assume "verify_auth_tag E tag agent = Inr owner"
  then show "\<exists>conditions. attests E tag owner agent conditions"
    unfolding verify_auth_tag_def attests_def
    by (auto simp: and_then_eq_Inr four_elements_Inr str_or_Inr auth_label_Inr map_sum_Inr split: if_splits)
next
  assume "\<exists>conditions. attests E tag owner agent conditions"
  then show "verify_auth_tag E tag agent = Inr owner"
    unfolding attests_def
    by (auto simp: verify_auth_tag_def four_elements_def parse_json_array_def auth_label_def str_or_def json_as_str_def)
qed


lemma oa_env_okD:
  assumes "oa_env_ok E"
  shows "oa_parse_json E (oa_json_text E (JArray (map JString ss))) = Inr (JArray (map JString ss))"
    and "oa_key_from_hex E (oa_public E k) = Inr (oa_public E k)"
    and "length (oa_public E k) = 64" and "list_all is_lowercase_hex (oa_public E k)"
    and "oa_sig_from_str E (oa_sig_text E (oa_sign E k m)) = Inr (oa_sign E k m)"
    and "length (oa_sig_text E (oa_sign E k m)) = 128" and "list_all is_lowercase_hex (oa_sig_text E (oa_sign E k m))"
    and "\<exists>x. oa_xonly E (oa_public E k) = Inr x \<and> oa_verify E (oa_sign E k m) m x = Inr ()"
  using assms unfolding oa_env_ok_def by blast+

lemma computed_attests:
  assumes ok: "oa_env_ok E" and t: "compute_auth_tag E k agent conditions = Inr t"
  shows "attests E t (oa_public E k) agent conditions"
proof -
  let ?m = "hash_preimage E (build_preimage agent conditions)"
  let ?sig = "oa_sig_text E (oa_sign E k ?m)"
  from t have parts: "oa_public E k \<noteq> agent" "validate_conditions E conditions = Inr ()"
    "t = oa_json_text E (JArray (map JString [''auth'', oa_public E k, conditions, ?sig]))"
    by (simp_all add: compute_auth_tag_iff)
  from oa_env_okD(8) [OF ok] obtain x where x: "oa_xonly E (oa_public E k) = Inr x"
    "oa_verify E (oa_sign E k ?m) ?m x = Inr ()" by blast
  show ?thesis unfolding attests_def
    using parts(1,2) x oa_env_okD(1) [OF ok, of "[''auth'', oa_public E k, conditions, ?sig]", folded parts(3)]
      oa_env_okD(2,5) [OF ok] by blast
qed

lemma parse_computed:
  assumes ok: "oa_env_ok E" and t: "compute_auth_tag E k agent conditions = Inr t"
  shows "parse_auth_tag E t = Inr \<lparr>tag_kind = ''auth'', tag_content = Some (oa_public E k),
           tag_slice = [''auth'', oa_public E k, conditions,
             oa_sig_text E (oa_sign E k (hash_preimage E (build_preimage agent conditions)))]\<rparr>"
proof -
  let ?sig = "oa_sig_text E (oa_sign E k (hash_preimage E (build_preimage agent conditions)))"
  from t have parts: "validate_conditions E conditions = Inr ()"
    "t = oa_json_text E (JArray (map JString [''auth'', oa_public E k, conditions, ?sig]))"
    by (simp_all add: compute_auth_tag_iff)
  have "four_elements E t = Inr (JString ''auth'', JString (oa_public E k), JString conditions, JString ?sig)"
    using oa_env_okD(1) [OF ok, of "[''auth'', oa_public E k, conditions, ?sig]", folded parts(2)]
    by (simp add: four_elements_Inr)
  then show ?thesis
    using oa_env_okD(3,4,6,7) [OF ok] parts(1)
    by (simp add: parse_auth_tag_def str_or_def json_as_str_def auth_label_def)
qed

text \<open>
  C17. Attestations round trip. For every list of clauses in range (and no other conditions are accepted)
  an owner can compute a tag for any other key; the relay verifies it and finds this owner, and the
  fast parser of the agent accepts it with the same conditions.
\<close>
theorem attestation_roundtrip:
  assumes "oa_env_ok E" and "oa_public E k \<noteq> agent"
  shows "if \<exists>cs. list_all clause_ok cs \<and> s = conditions_text cs
         then \<exists>t sig. compute_auth_tag E k agent s = Inr t \<and> verify_auth_tag E t agent = Inr (oa_public E k) \<and>
                map_sum id tag_slice (parse_auth_tag E t) = Inr [''auth'', oa_public E k, s, sig]
         else \<exists>e. compute_auth_tag E k agent s = Inl e"
proof (cases "\<exists>cs. list_all clause_ok cs \<and> s = conditions_text cs")
  case True
  with assms(2) obtain t where t: "compute_auth_tag E k agent s = Inr t"
    by (auto simp: compute_auth_tag_iff validate_conditions_iff)
  have "verify_auth_tag E t agent = Inr (oa_public E k)"
    using computed_attests [OF assms(1) t] by (auto simp: verify_auth_tag_iff)
  with t parse_computed [OF assms(1) t] True show ?thesis by auto
next
  case False
  then have "\<nexists>t. compute_auth_tag E k agent s = Inr t"
    by (auto simp: compute_auth_tag_iff validate_conditions_iff)
  then show ?thesis using False by (cases "compute_auth_tag E k agent s") auto
qed

subsection \<open>A concrete environment\<close>

fun demo_read :: "string \<Rightarrow> string \<Rightarrow> string list" where
  "demo_read cur (x # c # s) = (if x = CHR ''x'' then demo_read (cur @ [c]) s else cur # demo_read [] s)"
| "demo_read cur _ = []"

definition demo_write :: "string list \<Rightarrow> string" where
  "demo_write ss = concat (map (\<lambda>s. concat (map (\<lambda>c. [CHR ''x'', c]) s) @ ''..'') ss)"

lemma demo_read_one: "demo_read cur (concat (map (\<lambda>c. [CHR ''x'', c]) s) @ ''..'' @ rest) = (cur @ s) # demo_read [] rest"
  by (induction s arbitrary: cur) simp_all

lemma demo_read_write: "demo_read [] (demo_write ss) = ss"
  by (induction ss) (simp_all add: demo_write_def demo_read_one [of "[]", simplified])

definition demo_oa :: oa_env where
  "demo_oa = \<lparr>oa_parse_json = (\<lambda>s. Inr (JArray (map JString (demo_read [] s)))),
     oa_json_text = (\<lambda>j. case json_as_str j of Some s \<Rightarrow> s
       | None \<Rightarrow> (case j of JArray xs \<Rightarrow> demo_write (map (the \<circ> json_as_str) xs) | _ \<Rightarrow> [])),
     oa_key_from_hex = Inr, oa_xonly = (\<lambda>k. Inr (ascii_bytes k)), oa_sig_from_str = (\<lambda>s. Inr []),
     oa_sig_text = (\<lambda>s. replicate 128 (CHR ''0'')), oa_sha256 = (\<lambda>b. b), oa_verify = (\<lambda>_ _ _. Inr ()),
     oa_sign = (\<lambda>_ _. []), oa_public = (\<lambda>k. replicate 64 (CHR ''a'')), oa_debug = (\<lambda>s. s)\<rparr>"

lemma demo_oa_parse:
  "oa_parse_json demo_oa (oa_json_text demo_oa (JArray (map JString ss))) = Inr (JArray (map JString ss))"
proof -
  have "map (the \<circ> json_as_str) (map JString ss) = ss" by (simp add: json_as_str_def comp_def)
  then show ?thesis by (simp add: demo_oa_def json_as_str_def demo_read_write del: map_map)
qed

lemma demo_oa_ok: "oa_env_ok demo_oa"
  unfolding oa_env_ok_def
proof (intro conjI allI)
  show "oa_parse_json demo_oa (oa_json_text demo_oa (JArray (map JString ss))) = Inr (JArray (map JString ss))" for ss
    by (rule demo_oa_parse)
qed (simp_all add: demo_oa_def is_lowercase_hex_def is_digit_def list_all_iff)

theorem attestation_roundtrip_witness:
  "\<exists>t sig. compute_auth_tag demo_oa [] ''b'' ''kind=1&created_at<1713957000'' = Inr t \<and>
     verify_auth_tag demo_oa t ''b'' = Inr (replicate 64 (CHR ''a'')) \<and>
     map_sum id tag_slice (parse_auth_tag demo_oa t) =
       Inr [''auth'', replicate 64 (CHR ''a''), ''kind=1&created_at<1713957000'', sig]"
proof -
  have public: "oa_public demo_oa [] = replicate 64 (CHR ''a'')" by (simp add: demo_oa_def)
  then have "oa_public demo_oa [] \<noteq> ''b''" by (auto dest: arg_cong [where f = length])
  moreover have "dec 1 = ''1''" by code_simp
  moreover have "dec 1713957000 = ''1713957000''"
    using dec_undec [of "''1713957000''"] by (simp add: undec_def is_digit_def starts_with_def)
  ultimately have conds: "''kind=1&created_at<1713957000'' = conditions_text [KindIs 1, CreatedBefore 1713957000]"
    by (simp add: conditions_text_def)
  have "list_all clause_ok [KindIs 1, CreatedBefore 1713957000]" by simp
  with conds attestation_roundtrip [OF demo_oa_ok \<open>oa_public demo_oa [] \<noteq> ''b''\<close>, of "''kind=1&created_at<1713957000''"]
  show ?thesis unfolding public by metis
qed

end
