(* ===== verification/Identity_Archive.thy ===== *)
theory Identity_Archive
  imports Nip_Oa
begin

text \<open>
  The archival of identities (\<open>buzz-relay/src/handlers/identity_archive.rs\<close>,
  \<open>buzz-db/src/archived_identities.rs\<close>): freshness and form of a request, the three ways of consent,
  and the table. The two notices that follow a change are best effort and have no influence on the
  answer; they are the list of what is published. The clock is in seconds.
\<close>

subsection \<open>Archival of an identity\<close>

datatype ConsentPath = SelfSigned | Owner | Admin

fun consent_as_str :: "ConsentPath \<Rightarrow> string" where
  "consent_as_str SelfSigned = ''self''"
| "consent_as_str Owner = ''owner''"
| "consent_as_str Admin = ''admin''"

definition slice_head :: "nostr_tag \<Rightarrow> string option" where
  "slice_head t = (case tag_slice t of [] \<Rightarrow> None | x # _ \<Rightarrow> Some x)"

definition slice_second :: "nostr_tag \<Rightarrow> string option" where
  "slice_second t = (case tag_slice t of _ # x # _ \<Rightarrow> Some x | _ \<Rightarrow> None)"

fun single_auth_tag_loop :: "string list option \<Rightarrow> nostr_tag list \<Rightarrow> string + string list option" where
  "single_auth_tag_loop found [] = Inr found"
| "single_auth_tag_loop found (t # ts) =
     (if slice_head t \<noteq> Some ''auth'' then single_auth_tag_loop found ts
      else if length (tag_slice t) \<noteq> 4 then Inl ''auth tag must have exactly four elements''
      else if found \<noteq> None then Inl ''multiple auth tags''
      else single_auth_tag_loop (Some (tag_slice t)) ts)"

definition extract_single_auth_tag_json :: "oa_env \<Rightarrow> nostr_event \<Rightarrow> string + string" where
  "extract_single_auth_tag_json E event =
     and_then (single_auth_tag_loop None (ev_tags event)) (\<lambda>found.
       case found of
         None \<Rightarrow> Inl ''missing auth tag''
       | Some parts \<Rightarrow> Inr (oa_json_text E (JArray (map JString parts))))"

definition sdk_error_text :: "SdkError \<Rightarrow> string" where
  "sdk_error_text e = (case e of InvalidInput s \<Rightarrow> ''invalid input: '' @ s)"

definition verify_auth_tag_owner :: "oa_env \<Rightarrow> string \<Rightarrow> string \<Rightarrow> string + string" where
  "verify_auth_tag_owner E auth_tag_json target_hex =
     and_then (map_sum (\<lambda>e. ''invalid target pubkey: '' @ e) id (oa_key_from_hex E target_hex)) (\<lambda>target.
       map_sum sdk_error_text id (verify_auth_tag E auth_tag_json target))"

fun time_bounds_loop :: "nat \<Rightarrow> string list \<Rightarrow> string + unit" where
  "time_bounds_loop created_at [] = Inr ()"
| "time_bounds_loop created_at (clause # clauses) =
     (case strip_prefix clause ''created_at<'' of
        Some bound \<Rightarrow>
          (case parse_u64 bound of
             None \<Rightarrow> Inl (''invalid created_at< bound: '' @ bound)
           | Some b \<Rightarrow>
               if created_at \<ge> b
               then Inl (''request auth time bound not satisfied: created_at '' @ dec created_at @ '' >= '' @ dec b)
               else time_bounds_loop created_at clauses)
      | None \<Rightarrow>
     (case strip_prefix clause ''created_at>'' of
        Some bound \<Rightarrow>
          (case parse_u64 bound of
             None \<Rightarrow> Inl (''invalid created_at> bound: '' @ bound)
           | Some b \<Rightarrow>
               if created_at \<le> b
               then Inl (''request auth time bound not satisfied: created_at '' @ dec created_at @ '' <= '' @ dec b)
               else time_bounds_loop created_at clauses)
      | None \<Rightarrow> time_bounds_loop created_at clauses))"

definition json_strings :: "json \<Rightarrow> string list option" where
  "json_strings j =
     (case j of
        JArray xs \<Rightarrow> (if list_all (\<lambda>x. json_as_str x \<noteq> None) xs then Some (map (the \<circ> json_as_str) xs) else None)
      | _ \<Rightarrow> None)"

definition enforce_request_auth_time_bounds :: "oa_env \<Rightarrow> string \<Rightarrow> nat \<Rightarrow> string + unit" where
  "enforce_request_auth_time_bounds E auth_tag_json created_at =
     (case oa_parse_json E auth_tag_json of
        Inl e \<Rightarrow> Inl (''invalid auth tag json: '' @ e)
      | Inr j \<Rightarrow>
          (case json_strings j of
             None \<Rightarrow> Inl ''invalid auth tag json: ''
           | Some parts \<Rightarrow>
               if length parts \<le> 2 then Inl ''auth tag missing conditions''
               else time_bounds_loop created_at (filter (\<lambda>c. c \<noteq> []) (split_on (CHR ''&'') (parts ! 2)))))"

text \<open>
  The database answers with the newest profile of a key in the community, or an error text; the role
  of a member is looked up the same way.
\<close>

definition verify_owner_consent ::
  "oa_env \<Rightarrow> (string \<Rightarrow> string + nostr_event option) \<Rightarrow> nostr_event \<Rightarrow> string \<Rightarrow> string \<Rightarrow> string + unit" where
  "verify_owner_consent E profile_of event target_hex actor_hex =
     and_then (extract_single_auth_tag_json E event) (\<lambda>request_auth.
     and_then (map_sum (\<lambda>e. ''invalid request auth tag: '' @ e) id (verify_auth_tag_owner E request_auth target_hex)) (\<lambda>request_owner.
     if request_owner \<noteq> actor_hex then Inl ''request auth owner must equal request signer''
     else
     and_then (enforce_request_auth_time_bounds E request_auth (ev_created_at event)) (\<lambda>_.
     and_then (map_sum (\<lambda>e. ''invalid target pubkey: '' @ e) id (oa_key_from_hex E target_hex)) (\<lambda>target.
     and_then (map_sum (\<lambda>e. ''database error: '' @ e) id (profile_of target)) (\<lambda>found.
     case found of
       None \<Rightarrow> Inl ''target has no live kind:0 profile''
     | Some profile \<Rightarrow>
         if ev_pubkey profile \<noteq> target_hex then Inl ''live kind:0 author did not match target''
         else
         and_then (extract_single_auth_tag_json E profile) (\<lambda>live_auth.
         and_then (map_sum (\<lambda>e. ''invalid live kind:0 auth tag: '' @ e) id (verify_auth_tag_owner E live_auth target_hex)) (\<lambda>live_owner.
         if live_owner \<noteq> actor_hex then Inl ''live kind:0 no longer attests to request signer''
         else Inr ())))))))"

definition determine_consent_path ::
  "oa_env \<Rightarrow> (string \<Rightarrow> string + string option) \<Rightarrow> (string \<Rightarrow> string + nostr_event option) \<Rightarrow> nostr_event \<Rightarrow>
   string \<Rightarrow> string \<Rightarrow> string + ConsentPath" where
  "determine_consent_path E role_of profile_of event target_hex actor_hex =
     (if actor_hex = target_hex then Inr SelfSigned
      else and_then (map_sum (\<lambda>e. ''database error: '' @ e) id (role_of actor_hex)) (\<lambda>member.
        if member = Some ''owner'' \<or> member = Some ''admin'' then Inr Admin
        else and_then (verify_owner_consent E profile_of event target_hex actor_hex) (\<lambda>_. Inr Owner)))"


subsection \<open>The form of a request\<close>

definition enforce_freshness :: "nat \<Rightarrow> nostr_event \<Rightarrow> string + unit" where
  "enforce_freshness now event =
     (if out_of_range 120 now (ev_created_at event)
      then Inl (''event timestamp out of range: created_at='' @ int_text (i64_wrap (int (ev_created_at event))) @
                '', now='' @ dec now @ '', delta='' @
                int_text (i64_wrap (i64_wrap (int (ev_created_at event)) - int now)) @
                ''s (max '' @ [CHR 0xC2, CHR 0xB1] @ ''120s)'')
      else Inr ())"

definition require_single_protected_tag :: "nostr_event \<Rightarrow> string + unit" where
  "require_single_protected_tag event =
     (let count = length (filter (\<lambda>t. slice_head t = Some ''-'') (ev_tags event))
      in if count \<noteq> 1
         then Inl (''request must include exactly one NIP-70 protected event tag ['' @ CHR 0x22 # ''-'' @ CHR 0x22 #
                   ''] (got '' @ dec count @ '')'')
         else Inr ())"

definition is_hex_64 :: "string \<Rightarrow> bool" where
  "is_hex_64 s \<longleftrightarrow> length s = 64 \<and> list_all is_ascii_hexdigit s"

fun single_p_tag_loop :: "string option \<Rightarrow> nostr_tag list \<Rightarrow> string option" where
  "single_p_tag_loop found [] = found"
| "single_p_tag_loop found (t # ts) =
     (if slice_head t \<noteq> Some ''p'' then single_p_tag_loop found ts
      else case slice_second t of
             None \<Rightarrow> None
           | Some val \<Rightarrow>
               if \<not> is_hex_64 val then None
               else if found \<noteq> None then None
               else single_p_tag_loop (Some val) ts)"

definition extract_single_p_tag_hex :: "nostr_event \<Rightarrow> string option" where
  "extract_single_p_tag_hex event = single_p_tag_loop None (ev_tags event)"

definition find_tag_value :: "nostr_event \<Rightarrow> string \<Rightarrow> string option" where
  "find_tag_value event name =
     (case filter (\<lambda>t. slice_head t = Some name \<and> slice_second t \<noteq> None) (ev_tags event) of
        [] \<Rightarrow> None | t # _ \<Rightarrow> slice_second t)"

fun replaced_by_loop :: "string \<Rightarrow> string option \<Rightarrow> nostr_tag list \<Rightarrow> string + string option" where
  "replaced_by_loop target_hex found [] = Inr found"
| "replaced_by_loop target_hex found (t # ts) =
     (if slice_head t \<noteq> Some ''replaced-by'' then replaced_by_loop target_hex found ts
      else case slice_second t of
             None \<Rightarrow> Inl ''invalid replaced-by tag''
           | Some val \<Rightarrow>
               if \<not> is_hex_64 val \<or> map ascii_lower val \<noteq> val then Inl ''invalid replaced-by pubkey''
               else if val = target_hex then Inl ''replaced-by must differ from target''
               else if found \<noteq> None then Inl ''multiple replaced-by tags''
               else replaced_by_loop target_hex (Some val) ts)"

definition extract_optional_replaced_by :: "nostr_event \<Rightarrow> string \<Rightarrow> string + string option" where
  "extract_optional_replaced_by event target_hex = replaced_by_loop target_hex None (ev_tags event)"

subsection \<open>The table\<close>

record archived_row =
  ar_community :: uuid
  ar_pubkey :: string
  ar_consent_path :: string
  ar_actor :: string
  ar_reason :: "string option"
  ar_replaced_by :: "string option"
  ar_request_event_id :: string
  ar_archived_at :: instant

definition is_archived :: "uuid \<Rightarrow> string \<Rightarrow> archived_row list \<Rightarrow> bool" where
  "is_archived community pubkey rows \<longleftrightarrow> list_ex (\<lambda>r. ar_community r = community \<and> ar_pubkey r = pubkey) rows"

definition archive :: "archived_row \<Rightarrow> archived_row list \<Rightarrow> bool \<times> archived_row list" where
  "archive row rows =
     (if is_archived (ar_community row) (ar_pubkey row) rows then (False, rows) else (True, rows @ [row]))"

definition unarchive :: "uuid \<Rightarrow> string \<Rightarrow> archived_row list \<Rightarrow> bool \<times> archived_row list" where
  "unarchive community pubkey rows =
     (is_archived community pubkey rows,
      filter (\<lambda>r. \<not> (ar_community r = community \<and> ar_pubkey r = pubkey)) rows)"

definition list_archived :: "uuid \<Rightarrow> archived_row list \<Rightarrow> archived_row list" where
  "list_archived community rows = sort_key ar_archived_at (filter (\<lambda>r. ar_community r = community) rows)"

subsection \<open>The handler\<close>


datatype notice = Archived string string string | Unarchived string string string | ArchivalList

record archive_env =
  rv_oa :: oa_env
  rv_role_of :: "string \<Rightarrow> string + string option"
  rv_profile_of :: "string \<Rightarrow> string + nostr_event option"
  rv_fault :: "string option"

definition handle_identity_archive_event ::
  "archive_env \<Rightarrow> nat \<Rightarrow> uuid \<Rightarrow> nostr_event \<Rightarrow> archived_row list \<Rightarrow>
   (string + notice list) \<times> archived_row list" where
  "handle_identity_archive_event V now community event rows =
     (let kind = ev_kind event; actor_hex = ev_pubkey event;
          checked =
            (if kind \<noteq> KIND_IA_ARCHIVE_REQUEST \<and> kind \<noteq> KIND_IA_UNARCHIVE_REQUEST
             then Inl (''unexpected identity archive kind: '' @ dec kind)
             else and_then (enforce_freshness now event) (\<lambda>_.
               and_then (require_single_protected_tag event) (\<lambda>_.
               case extract_single_p_tag_hex event of
                 None \<Rightarrow> Inl ''missing or invalid p tag''
               | Some p \<Rightarrow>
                   (let target_hex = map ascii_lower p
                    in and_then (extract_optional_replaced_by event target_hex) (\<lambda>replaced_by.
                       if kind = KIND_IA_UNARCHIVE_REQUEST \<and> replaced_by \<noteq> None
                       then Inl ''replaced-by is not valid on unarchive requests''
                       else and_then (determine_consent_path (rv_oa V) (rv_role_of V) (rv_profile_of V) event target_hex actor_hex)
                              (\<lambda>path. Inr (target_hex, replaced_by, path)))))))
      in case checked of
           Inl e \<Rightarrow> (Inl e, rows)
         | Inr (target_hex, replaced_by, path) \<Rightarrow>
             (case rv_fault V of
                Some e \<Rightarrow> (Inl (''database error: '' @ e), rows)
              | None \<Rightarrow>
                (let (changed, rows') =
                       (if kind = KIND_IA_ARCHIVE_REQUEST
                        then archive \<lparr>ar_community = community, ar_pubkey = target_hex,
                               ar_consent_path = consent_as_str path, ar_actor = actor_hex,
                               ar_reason = find_tag_value event ''reason'', ar_replaced_by = replaced_by,
                               ar_request_event_id = ev_id event, ar_archived_at = now\<rparr> rows
                        else unarchive community target_hex rows)
                 in if \<not> changed then (Inr [], rows')
                    else (Inr [if kind = KIND_IA_ARCHIVE_REQUEST
                               then Archived target_hex (consent_as_str path) (ev_id event)
                               else Unarchived target_hex (consent_as_str path) (ev_id event), ArchivalList], rows'))))"


subsection \<open>Consent\<close>

fun clause_holds :: "nat \<Rightarrow> clause \<Rightarrow> bool" where
  "clause_holds created_at (KindIs n) \<longleftrightarrow> True"
| "clause_holds created_at (CreatedBefore n) \<longleftrightarrow> created_at < n"
| "clause_holds created_at (CreatedAfter n) \<longleftrightarrow> n < created_at"

lemma time_bounds_clauses:
  assumes "list_all clause_ok cs"
  shows "time_bounds_loop created_at (map clause_text cs) = Inr () \<longleftrightarrow> list_all (clause_holds created_at) cs"
  using assms
proof (induction cs)
  case (Cons c cs)
  have bound: "parse_u64 (dec n) = Some n" if "n \<le> 4294967295" for n
    using that by (intro parse_u64_dec) simp
  have none: "strip_prefix (''kind='' @ r) ''created_at<'' = None" "strip_prefix (''kind='' @ r) ''created_at>'' = None"
    "strip_prefix (''created_at>'' @ r) ''created_at<'' = None" for r
    by (simp_all add: strip_prefix_def starts_with_def)
  have some: "strip_prefix (''created_at<'' @ r) ''created_at<'' = Some r"
    "strip_prefix (''created_at>'' @ r) ''created_at>'' = Some r" for r
    by (simp_all only: strip_prefix_Some)
  have "time_bounds_loop created_at (clause_text c # map clause_text cs) = Inr () \<longleftrightarrow>
      clause_holds created_at c \<and> time_bounds_loop created_at (map clause_text cs) = Inr ()"
  proof (cases c)
    case (KindIs n)
    then show ?thesis by (simp only: clause_text.simps time_bounds_loop.simps none option.simps clause_holds.simps) simp
  next
    case (CreatedBefore n)
    with Cons.prems have "n \<le> 4294967295" by simp
    then show ?thesis unfolding CreatedBefore
      by (simp only: clause_text.simps time_bounds_loop.simps some option.simps clause_holds.simps bound) auto
  next
    case (CreatedAfter n)
    with Cons.prems have "n \<le> 4294967295" by simp
    then show ?thesis unfolding CreatedAfter
      by (simp only: clause_text.simps time_bounds_loop.simps none some option.simps clause_holds.simps bound) auto
  qed
  with Cons show ?case by simp
qed simp

lemma single_auth_tag_loop_Some:
  "single_auth_tag_loop found ts = Inr (Some parts) \<Longrightarrow>
     found = Some parts \<or> (\<exists>t \<in> set ts. tag_slice t = parts \<and> slice_head t = Some ''auth'' \<and> length parts = 4)"
  by (induction found ts rule: single_auth_tag_loop.induct) (auto split: if_splits)

lemma extract_single_auth_tag:
  assumes "extract_single_auth_tag_json E event = Inr t"
  obtains tag owner conditions sig where "tag \<in> set (ev_tags event)" "tag_slice tag = [''auth'', owner, conditions, sig]"
    "t = oa_json_text E (JArray (map JString [''auth'', owner, conditions, sig]))"
proof -
  from assms obtain parts where loop: "single_auth_tag_loop None (ev_tags event) = Inr (Some parts)"
    and t: "t = oa_json_text E (JArray (map JString parts))"
    by (auto simp: extract_single_auth_tag_json_def and_then_eq_Inr split: option.splits)
  from single_auth_tag_loop_Some [OF loop] obtain tag where tag: "tag \<in> set (ev_tags event)" "tag_slice tag = parts"
    "slice_head tag = Some ''auth''" "length parts = 4" by auto
  then obtain a b c d where "parts = [a, b, c, d]" by (auto simp: length_Suc_conv numeral_eq_Suc)
  with tag have "parts = [''auth'', b, c, d]" by (simp add: slice_head_def)
  with that tag t show thesis by simp
qed

text \<open>
  The event carries one attestation of the agent by the owner; with a time, its clauses about
  creation hold at that time.
\<close>

definition carries_attestation :: "oa_env \<Rightarrow> nostr_event \<Rightarrow> string \<Rightarrow> string \<Rightarrow> nat option \<Rightarrow> bool" where
  "carries_attestation E event owner agent time \<longleftrightarrow>
     (\<exists>tag owner_hex cs sig. tag \<in> set (ev_tags event) \<and> tag_slice tag = [''auth'', owner_hex, conditions_text cs, sig] \<and>
        list_all clause_ok cs \<and>
        attests E (oa_json_text E (JArray (map JString (tag_slice tag)))) owner agent (conditions_text cs) \<and>
        (case time of None \<Rightarrow> True | Some created_at \<Rightarrow> list_all (clause_holds created_at) cs))"

lemma verified_owner:
  assumes ok: "oa_env_ok E" and ext: "extract_single_auth_tag_json E event = Inr t"
    and verified: "verify_auth_tag_owner E t target_hex = Inr owner"
    and bounds: "\<And>created_at. time = Some created_at \<Longrightarrow> enforce_request_auth_time_bounds E t created_at = Inr ()"
  shows "\<exists>target. oa_key_from_hex E target_hex = Inr target \<and> carries_attestation E event owner target time"
proof -
  from ext obtain tag o' conditions sig where tag: "tag \<in> set (ev_tags event)" "tag_slice tag = [''auth'', o', conditions, sig]"
    and t: "t = oa_json_text E (JArray (map JString [''auth'', o', conditions, sig]))"
    by (rule extract_single_auth_tag)
  have parse: "oa_parse_json E t = Inr (JArray (map JString [''auth'', o', conditions, sig]))"
    unfolding t by (rule oa_env_okD(1) [OF ok])
  from verified obtain target where target: "oa_key_from_hex E target_hex = Inr target"
    and "verify_auth_tag E t target = Inr owner"
    by (auto simp: verify_auth_tag_owner_def and_then_eq_Inr map_sum_Inr)
  then obtain c where "attests E t owner target c" by (auto simp: verify_auth_tag_iff)
  moreover from this parse have c: "c = conditions" by (auto simp: attests_def)
  ultimately have att: "attests E t owner target conditions" by simp
  then obtain cs where cs: "list_all clause_ok cs" "conditions = conditions_text cs"
    by (auto simp: attests_def validate_conditions_iff)
  have "list_all (clause_holds created_at) cs" if "time = Some created_at" for created_at
  proof -
    let ?parts = "filter (\<lambda>c. c \<noteq> []) (split_on (CHR ''&'') conditions)"
    from bounds [OF that] parse have "time_bounds_loop created_at ?parts = Inr ()"
      by (simp add: enforce_request_auth_time_bounds_def json_strings_def json_as_str_def)
    moreover have "?parts = map clause_text cs"
    proof (cases "cs = []")
      case True
      then show ?thesis by (simp add: cs(2) conditions_text_def)
    next
      case False
      have "split_on (CHR ''&'') conditions = map clause_text cs"
        unfolding cs(2) conditions_text_def using False clause_chars by (intro split_join) auto
      then show ?thesis by (simp add: filter_id_conv)
    qed
    ultimately show ?thesis using time_bounds_clauses [OF cs(1)] by simp
  qed
  then have holds: "case time of None \<Rightarrow> True | Some created_at \<Rightarrow> list_all (clause_holds created_at) cs"
    by (cases time) simp_all
  have "carries_attestation E event owner target time"
    unfolding carries_attestation_def
    using tag(1) tag(2) [unfolded cs(2)] cs(1) att [unfolded t cs(2)] holds
    by (intro exI [of _ tag] exI [of _ o'] exI [of _ cs] exI [of _ sig]) (simp add: tag(2) cs(2))
  with target show ?thesis by blast
qed


lemma determine_consent:
  assumes ok: "oa_env_ok E" and path: "determine_consent_path E role_of profile_of event target_hex actor = Inr path"
  shows "path = SelfSigned \<and> actor = target_hex \<or>
    path = Admin \<and> role_of actor \<in> {Inr (Some ''owner''), Inr (Some ''admin'')} \<or>
    path = Owner \<and> (\<exists>target profile. oa_key_from_hex E target_hex = Inr target \<and>
       carries_attestation E event actor target (Some (ev_created_at event)) \<and>
       profile_of target = Inr (Some profile) \<and> ev_pubkey profile = target_hex \<and>
       carries_attestation E profile actor target None)"
proof (cases "actor = target_hex")
  case True
  with path show ?thesis by (simp add: determine_consent_path_def)
next
  case False
  with path obtain member where member: "role_of actor = Inr member"
    and rest: "(if member = Some ''owner'' \<or> member = Some ''admin'' then Inr Admin
        else and_then (verify_owner_consent E profile_of event target_hex actor) (\<lambda>_. Inr Owner)) = Inr path"
    by (auto simp: determine_consent_path_def and_then_eq_Inr map_sum_Inr)
  show ?thesis
  proof (cases "member = Some ''owner'' \<or> member = Some ''admin''")
    case True
    with member rest show ?thesis by auto
  next
    case not_admin: False
    with rest have consent: "verify_owner_consent E profile_of event target_hex actor = Inr ()" and p: "path = Owner"
      by (auto simp: and_then_eq_Inr)
    from consent obtain request target profile live where
      request: "extract_single_auth_tag_json E event = Inr request" "verify_auth_tag_owner E request target_hex = Inr actor"
        "enforce_request_auth_time_bounds E request (ev_created_at event) = Inr ()"
      and target: "oa_key_from_hex E target_hex = Inr target" "profile_of target = Inr (Some profile)" "ev_pubkey profile = target_hex"
      and live: "extract_single_auth_tag_json E profile = Inr live" "verify_auth_tag_owner E live target_hex = Inr actor"
      by (auto simp: verify_owner_consent_def and_then_eq_Inr map_sum_Inr split: if_splits option.splits)
    from verified_owner [OF ok request(1,2), of "Some (ev_created_at event)"] request(3) target(1)
    have "carries_attestation E event actor target (Some (ev_created_at event))" by auto
    moreover from verified_owner [OF ok live, of None] target(1) have "carries_attestation E profile actor target None" by auto
    ultimately show ?thesis using p target by blast
  qed
qed

text \<open>
  C15. An identity is archived or restored only with consent. When a request changes the table, exactly
  the row of one identity of this community is added or removed; the request is fresh and protected;
  and its signer is that identity, or an owner or admin of the community, or a key that the request
  and the live profile of the identity both attest as its owner, the request with the time clauses
  of the attestation satisfied.
\<close>
theorem archival_needs_consent:
  assumes "oa_env_ok (rv_oa V)" and "handle_identity_archive_event V now community event rows = (res, rows')"
    and "rows' \<noteq> rows"
  shows "\<exists>target_hex. (\<forall>c p. (c, p) \<noteq> (community, target_hex) \<longrightarrow>
             filter (\<lambda>r. ar_community r = c \<and> ar_pubkey r = p) rows' = filter (\<lambda>r. ar_community r = c \<and> ar_pubkey r = p) rows) \<and>
           is_archived community target_hex rows' = (ev_kind event = 9035) \<and>
           \<not> out_of_range 120 now (ev_created_at event) \<and>
           (ev_pubkey event = target_hex \<or>
            rv_role_of V (ev_pubkey event) \<in> {Inr (Some ''owner''), Inr (Some ''admin'')} \<or>
            (\<exists>target profile. oa_key_from_hex (rv_oa V) target_hex = Inr target \<and>
               carries_attestation (rv_oa V) event (ev_pubkey event) target (Some (ev_created_at event)) \<and>
               rv_profile_of V target = Inr (Some profile) \<and> ev_pubkey profile = target_hex \<and>
               carries_attestation (rv_oa V) profile (ev_pubkey event) target None))"
proof -
  let ?kind = "ev_kind event"
  from assms(2,3) obtain p replaced path where kind: "?kind = 9035 \<or> ?kind = 9036"
    and fresh: "enforce_freshness now event = Inr ()"
    and path: "determine_consent_path (rv_oa V) (rv_role_of V) (rv_profile_of V) event (map ascii_lower p) (ev_pubkey event) = Inr path"
    and rows': "rows' = snd (if ?kind = KIND_IA_ARCHIVE_REQUEST
                        then archive \<lparr>ar_community = community, ar_pubkey = map ascii_lower p,
                               ar_consent_path = consent_as_str path, ar_actor = ev_pubkey event,
                               ar_reason = find_tag_value event ''reason'', ar_replaced_by = replaced,
                               ar_request_event_id = ev_id event, ar_archived_at = now\<rparr> rows
                        else unarchive community (map ascii_lower p) rows)"
    by (auto simp: handle_identity_archive_event_def Let_def KIND_IA_ARCHIVE_REQUEST_def KIND_IA_UNARCHIVE_REQUEST_def
        and_then_eq_Inr split_beta split: sum.splits if_splits option.splits)
  show ?thesis
  proof (intro exI [of _ "map ascii_lower p"] conjI allI impI)
    fix c q
    assume "(c, q) \<noteq> (community, map ascii_lower p)"
    then show "filter (\<lambda>r. ar_community r = c \<and> ar_pubkey r = q) rows' = filter (\<lambda>r. ar_community r = c \<and> ar_pubkey r = q) rows"
      by (auto simp: rows' archive_def unarchive_def intro!: filter_cong)
  next
    show "is_archived community (map ascii_lower p) rows' = (?kind = 9035)"
      using kind by (auto simp: rows' archive_def unarchive_def is_archived_def list_ex_iff KIND_IA_ARCHIVE_REQUEST_def)
  next
    show "\<not> out_of_range 120 now (ev_created_at event)"
      using fresh by (simp add: enforce_freshness_def split: if_splits)
  next
    from determine_consent [OF assms(1) path]
    show "ev_pubkey event = map ascii_lower p \<or>
            rv_role_of V (ev_pubkey event) \<in> {Inr (Some ''owner''), Inr (Some ''admin'')} \<or>
            (\<exists>target profile. oa_key_from_hex (rv_oa V) (map ascii_lower p) = Inr target \<and>
               carries_attestation (rv_oa V) event (ev_pubkey event) target (Some (ev_created_at event)) \<and>
               rv_profile_of V target = Inr (Some profile) \<and> ev_pubkey profile = map ascii_lower p \<and>
               carries_attestation (rv_oa V) profile (ev_pubkey event) target None)" by blast
  qed
qed


definition demo_archive_env :: archive_env where
  "demo_archive_env = \<lparr>rv_oa = demo_oa, rv_role_of = (\<lambda>k. Inr (if k = ''m'' then Some ''admin'' else None)),
     rv_profile_of = (\<lambda>_. Inr None), rv_fault = None\<rparr>"

definition demo_key :: string where "demo_key = replicate 64 (CHR ''a'')"

definition demo_archive_request :: "string \<Rightarrow> nostr_event" where
  "demo_archive_request signer = \<lparr>ev_id = ''e'', ev_pubkey = signer, ev_created_at = 1000, ev_kind = 9035,
     ev_tags = [\<lparr>tag_kind = ''-'', tag_content = None, tag_slice = [''-'']\<rparr>,
                \<lparr>tag_kind = ''p'', tag_content = Some demo_key, tag_slice = [''p'', demo_key]\<rparr>], ev_content = []\<rparr>"

lemma demo_key_hex: "is_hex_64 demo_key" and demo_key_lower: "map ascii_lower demo_key = demo_key"
  by (simp_all add: is_hex_64_def demo_key_def is_ascii_hexdigit_def ascii_lower_def list_all_iff)

lemma demo_archival:
  "handle_identity_archive_event demo_archive_env 1000 ''c'' (demo_archive_request ''m'') [] =
     (Inr [Archived demo_key ''admin'' ''e'', ArchivalList],
      [\<lparr>ar_community = ''c'', ar_pubkey = demo_key, ar_consent_path = ''admin'', ar_actor = ''m'', ar_reason = None,
        ar_replaced_by = None, ar_request_event_id = ''e'', ar_archived_at = 1000\<rparr>])"
proof -
  have "enforce_freshness 1000 (demo_archive_request ''m'') = Inr ()"
    by (simp add: enforce_freshness_def demo_archive_request_def out_of_range_def i64_abs_def i64_wrap_def)
  moreover have "extract_single_p_tag_hex (demo_archive_request ''m'') = Some demo_key"
    by (simp add: extract_single_p_tag_hex_def demo_archive_request_def slice_head_def slice_second_def demo_key_hex)
  moreover have "require_single_protected_tag (demo_archive_request ''m'') = Inr ()"
    by (simp add: require_single_protected_tag_def demo_archive_request_def slice_head_def)
  moreover have "extract_optional_replaced_by (demo_archive_request ''m'') demo_key = Inr None"
    by (simp add: extract_optional_replaced_by_def demo_archive_request_def slice_head_def)
  moreover have "''m'' \<noteq> demo_key" by (auto simp: demo_key_def dest: arg_cong [where f = length])
  then have "determine_consent_path demo_oa (rv_role_of demo_archive_env) (rv_profile_of demo_archive_env)
      (demo_archive_request ''m'') demo_key ''m'' = Inr Admin"
    by (simp add: determine_consent_path_def demo_archive_env_def)
  ultimately show ?thesis
    by (simp add: handle_identity_archive_event_def Let_def demo_key_lower KIND_IA_ARCHIVE_REQUEST_def
        KIND_IA_UNARCHIVE_REQUEST_def archive_def is_archived_def find_tag_value_def)
      (simp add: demo_archive_env_def demo_archive_request_def slice_head_def KIND_IA_ARCHIVE_REQUEST_def
        archive_def is_archived_def find_tag_value_def)
qed

theorem archival_needs_consent_witness:
  "\<exists>target_hex. is_archived ''c'' target_hex (snd (handle_identity_archive_event demo_archive_env 1000 ''c'' (demo_archive_request ''m'') []))
     \<and> rv_role_of demo_archive_env ''m'' = Inr (Some ''admin'')"
proof -
  have ok: "oa_env_ok (rv_oa demo_archive_env)" by (simp add: demo_archive_env_def demo_oa_ok)
  obtain row where run: "handle_identity_archive_event demo_archive_env 1000 ''c'' (demo_archive_request ''m'') [] =
      (Inr [Archived demo_key ''admin'' ''e'', ArchivalList], [row])" using demo_archival by blast
  from archival_needs_consent [OF ok run] obtain target_hex where "is_archived ''c'' target_hex [row]"
    by (auto simp: demo_archive_request_def)
  moreover have "rv_role_of demo_archive_env ''m'' = Inr (Some ''admin'')" by (simp add: demo_archive_env_def)
  ultimately show ?thesis by (auto simp: run)
qed

end
