(* ===== verification/Moderation.thy ===== *)
theory Moderation
  imports Identity_Archive
begin

text \<open>
  Community moderation: bans, timeouts, reports and the audit table
  (\<open>buzz-db/src/moderation.rs\<close>), who may moderate
  (\<open>buzz-relay/src/handlers/moderation_authz.rs\<close>), the commands 9040 to 9044
  (\<open>moderation_commands.rs\<close>) and the reports of members (\<open>report.rs\<close>).

  A key or event id is its lower case hexadecimal text (the code decodes it to bytes). The clock of the
  database counts microseconds; the relay reads it in seconds. A statement may fail (\<open>mod_faults\<close>).
  The roles of members, events, blobs and the range of \<open>chrono\<close> are looked up in an environment.
  Disconnects and notices are the effects of a command; their delivery is best effort.
\<close>

subsection \<open>Tables\<close>

datatype ReportTarget = TargetEvent string | TargetPubkey string | TargetBlob string

record ban_row =
  bn_banned :: bool
  bn_expires_at :: "int option"
  bn_reason :: "string option"
  bn_muted_until :: "int option"
  bn_mute_reason :: "string option"
  bn_actor :: string
  bn_updated_at :: nat

record report_row =
  rp_community :: uuid
  rp_id :: uuid
  rp_event_id :: string
  rp_reporter :: string
  rp_target :: ReportTarget
  rp_channel_id :: "uuid option"
  rp_type :: string
  rp_note :: "string option"
  rp_status :: string
  rp_resolved_by :: "string option"
  rp_resolved_at :: "nat option"
  rp_action_id :: "uuid option"
  rp_created_at :: nat

record action_row =
  at_community :: uuid
  at_id :: uuid
  at_actor :: string
  at_action :: string
  at_target_pubkey :: "string option"
  at_target_event_id :: "string option"
  at_public_reason :: "string option"
  at_created_at :: nat

record mod_db =
  mb_bans :: "(uuid \<times> string, ban_row) hmap"
  mb_reports :: "report_row list"
  mb_actions :: "action_row list"

definition MODERATION_ACTION_CHECK_VOCAB :: "string list" where
  "MODERATION_ACTION_CHECK_VOCAB =
     [''delete_message'', ''kick'', ''ban'', ''unban'', ''timeout'', ''untimeout'', ''dismiss_report'', ''escalate'',
      ''resolve:delete'', ''resolve:kick'', ''resolve:ban'', ''resolve:timeout'']"

subsection \<open>Statements\<close>

definition ban_member ::
  "nat \<Rightarrow> uuid \<Rightarrow> string \<Rightarrow> string \<Rightarrow> string option \<Rightarrow> int option \<Rightarrow> mod_db \<Rightarrow> mod_db" where
  "ban_member now c pubkey actor reason expires db =
     (case hget (mb_bans db) (c, pubkey) of
        None \<Rightarrow> db\<lparr>mb_bans := hput (c, pubkey) \<lparr>bn_banned = True, bn_expires_at = expires, bn_reason = reason,
                    bn_muted_until = None, bn_mute_reason = None, bn_actor = actor, bn_updated_at = now\<rparr> (mb_bans db)\<rparr>
      | Some b \<Rightarrow> db\<lparr>mb_bans := hput (c, pubkey) (b\<lparr>bn_banned := True, bn_expires_at := expires, bn_reason := reason,
                    bn_actor := actor, bn_updated_at := now\<rparr>) (mb_bans db)\<rparr>)"

definition unban_member :: "nat \<Rightarrow> uuid \<Rightarrow> string \<Rightarrow> string \<Rightarrow> mod_db \<Rightarrow> bool \<times> mod_db" where
  "unban_member now c pubkey actor db =
     (case hget (mb_bans db) (c, pubkey) of
        Some b \<Rightarrow>
          if bn_banned b
          then (True, db\<lparr>mb_bans := hput (c, pubkey) (b\<lparr>bn_banned := False, bn_expires_at := None, bn_reason := None,
                        bn_actor := actor, bn_updated_at := now\<rparr>) (mb_bans db)\<rparr>)
          else (False, db)
      | None \<Rightarrow> (False, db))"

definition timeout_member ::
  "nat \<Rightarrow> uuid \<Rightarrow> string \<Rightarrow> string \<Rightarrow> int \<Rightarrow> string option \<Rightarrow> mod_db \<Rightarrow> mod_db" where
  "timeout_member now c pubkey actor until reason db =
     (case hget (mb_bans db) (c, pubkey) of
        None \<Rightarrow> db\<lparr>mb_bans := hput (c, pubkey) \<lparr>bn_banned = False, bn_expires_at = None, bn_reason = None,
                    bn_muted_until = Some until, bn_mute_reason = reason, bn_actor = actor, bn_updated_at = now\<rparr> (mb_bans db)\<rparr>
      | Some b \<Rightarrow> db\<lparr>mb_bans := hput (c, pubkey) (b\<lparr>bn_muted_until := Some until, bn_mute_reason := reason,
                    bn_actor := actor, bn_updated_at := now\<rparr>) (mb_bans db)\<rparr>)"

definition after :: "int option \<Rightarrow> nat \<Rightarrow> bool" where
  "after t now \<longleftrightarrow> (case t of None \<Rightarrow> False | Some u \<Rightarrow> int now < u)"

definition untimeout_member :: "nat \<Rightarrow> uuid \<Rightarrow> string \<Rightarrow> string \<Rightarrow> mod_db \<Rightarrow> bool \<times> mod_db" where
  "untimeout_member now c pubkey actor db =
     (case hget (mb_bans db) (c, pubkey) of
        Some b \<Rightarrow>
          if after (bn_muted_until b) now
          then (True, db\<lparr>mb_bans := hput (c, pubkey) (b\<lparr>bn_muted_until := None, bn_mute_reason := None,
                        bn_actor := actor, bn_updated_at := now\<rparr>) (mb_bans db)\<rparr>)
          else (False, db)
      | None \<Rightarrow> (False, db))"

record RestrictionState =
  rs_banned :: bool
  rs_muted_until :: "int option"

definition active_ban :: "nat \<Rightarrow> ban_row \<Rightarrow> bool" where
  "active_ban now b \<longleftrightarrow> bn_banned b \<and> (bn_expires_at b = None \<or> after (bn_expires_at b) now)"

definition restriction_state :: "nat \<Rightarrow> uuid \<Rightarrow> string \<Rightarrow> mod_db \<Rightarrow> RestrictionState" where
  "restriction_state now c pubkey db =
     (case hget (mb_bans db) (c, pubkey) of
        None \<Rightarrow> \<lparr>rs_banned = False, rs_muted_until = None\<rparr>
      | Some b \<Rightarrow> \<lparr>rs_banned = active_ban now b,
                  rs_muted_until = (if after (bn_muted_until b) now then bn_muted_until b else None)\<rparr>)"

definition get_ban :: "nat \<Rightarrow> uuid \<Rightarrow> string \<Rightarrow> mod_db \<Rightarrow> ban_row option" where
  "get_ban now c pubkey db = map_option (\<lambda>b. b\<lparr>bn_banned := active_ban now b\<rparr>) (hget (mb_bans db) (c, pubkey))"

definition list_restricted :: "nat \<Rightarrow> uuid \<Rightarrow> mod_db \<Rightarrow> (string \<times> ban_row) list" where
  "list_restricted now c db =
     rev (sort_key (\<lambda>(_, b). bn_updated_at b)
       (map (\<lambda>((_, k), b). (k, b\<lparr>bn_banned := active_ban now b\<rparr>))
         (filter (\<lambda>((c', _), b). c' = c \<and> (active_ban now b \<or> after (bn_muted_until b) now)) (mb_bans db))))"

definition insert_action :: "action_row \<Rightarrow> mod_db \<Rightarrow> (string + uuid) \<times> mod_db" where
  "insert_action row db =
     (if at_action row \<in> set MODERATION_ACTION_CHECK_VOCAB
      then (Inr (at_id row), db\<lparr>mb_actions := mb_actions db @ [row]\<rparr>)
      else (Inl ''violates check constraint'', db))"

definition list_actions :: "uuid \<Rightarrow> nat \<Rightarrow> mod_db \<Rightarrow> action_row list" where
  "list_actions c limit db =
     take limit (rev (sort_key at_created_at (filter (\<lambda>a. at_community a = c) (mb_actions db))))"

definition insert_report :: "report_row \<Rightarrow> mod_db \<Rightarrow> uuid \<times> mod_db" where
  "insert_report row db =
     (case find (\<lambda>r. rp_community r = rp_community row \<and> rp_event_id r = rp_event_id row) (mb_reports db) of
        Some r \<Rightarrow> (rp_id r, db)
      | None \<Rightarrow> (rp_id row, db\<lparr>mb_reports := mb_reports db @ [row]\<rparr>))"

definition list_reports :: "uuid \<Rightarrow> string option \<Rightarrow> nat \<Rightarrow> mod_db \<Rightarrow> report_row list" where
  "list_reports c status limit db =
     take limit (rev (sort_key rp_created_at
       (filter (\<lambda>r. rp_community r = c \<and> (case status of None \<Rightarrow> True | Some s \<Rightarrow> rp_status r = s)) (mb_reports db))))"

definition get_report :: "uuid \<Rightarrow> uuid \<Rightarrow> mod_db \<Rightarrow> report_row option" where
  "get_report c report_id db = find (\<lambda>r. rp_community r = c \<and> rp_id r = report_id) (mb_reports db)"

definition get_report_by_event :: "uuid \<Rightarrow> string \<Rightarrow> mod_db \<Rightarrow> report_row option" where
  "get_report_by_event c event_id db =
     find (\<lambda>r. rp_community r = c \<and> rp_event_id r = event_id) (mb_reports db)"

definition resolve_report ::
  "nat \<Rightarrow> uuid \<Rightarrow> uuid \<Rightarrow> string \<Rightarrow> string \<Rightarrow> uuid option \<Rightarrow> mod_db \<Rightarrow> bool \<times> mod_db" where
  "resolve_report now c report_id status by action_id db =
     (let hit = (\<lambda>r. rp_community r = c \<and> rp_id r = report_id \<and> rp_status r = ''open'')
      in (list_ex hit (mb_reports db),
          db\<lparr>mb_reports := map (\<lambda>r. if hit r then r\<lparr>rp_status := status, rp_resolved_by := Some by,
               rp_resolved_at := Some now, rp_action_id := action_id\<rparr> else r) (mb_reports db)\<rparr>))"

subsection \<open>Authority\<close>

datatype ModerationAction =
  DeleteMessage | Kick | Ban | Unban | Timeout | Untimeout | ResolveReport | ViewQueue

datatype ModerationTarget = OnEvent string | OnPubkey string | OnNothing

datatype ModerationAuthority = CommunityOwner | CommunityAdmin | ChannelRole

definition decide_authority ::
  "string option \<Rightarrow> string option \<Rightarrow> string option \<Rightarrow> ModerationAction \<Rightarrow> string + ModerationAuthority" where
  "decide_authority actor_role target_role channel_role action =
     (if actor_role = Some ''owner'' then Inr CommunityOwner
      else if actor_role = Some ''admin'' then
        (if action \<in> {Ban, Timeout} \<and> target_role \<in> {Some ''owner'', Some ''admin''}
         then Inl ''an admin cannot ban or time out a community owner or fellow admin''
         else Inr CommunityAdmin)
      else if action \<in> {DeleteMessage, Kick} \<and> channel_role \<in> {Some ''owner'', Some ''admin''}
      then Inr ChannelRole
      else Inl ''moderator access required'')"

record mod_faults =
  mf_restriction :: "string option"
  mf_actor_role :: "string option"
  mf_target_role :: "string option"
  mf_channel_role :: "string option"
  mf_write :: "string option"
  mf_audit :: "string option"
  mf_report :: "string option"
  mf_resolve :: "string option"

record mod_env =
  md_role_of :: "uuid \<Rightarrow> string \<Rightarrow> string option"
  md_channel_role :: "uuid \<Rightarrow> uuid \<Rightarrow> string \<Rightarrow> string option"
  md_timestamp_opt :: "int \<Rightarrow> int option"
  md_event_by_id :: "uuid \<Rightarrow> string \<Rightarrow> string + uuid option option"
  md_sidecar :: "uuid \<Rightarrow> string \<Rightarrow> bool"
  md_faults :: mod_faults

definition or_fault :: "string option \<Rightarrow> 'a \<Rightarrow> string + 'a" where
  "or_fault f x = (case f of None \<Rightarrow> Inr x | Some e \<Rightarrow> Inl e)"

definition authorize_moderation_action ::
  "mod_env \<Rightarrow> uuid \<Rightarrow> string \<Rightarrow> uuid option \<Rightarrow> ModerationTarget \<Rightarrow> ModerationAction \<Rightarrow> string + ModerationAuthority" where
  "authorize_moderation_action M c actor channel target action =
     and_then (or_fault (mf_actor_role (md_faults M)) (md_role_of M c actor)) (\<lambda>actor_role.
     and_then (if actor_role = Some ''admin'' \<and> action \<in> {Ban, Timeout}
               then (case target of OnPubkey pk \<Rightarrow> or_fault (mf_target_role (md_faults M)) (md_role_of M c pk)
                                  | _ \<Rightarrow> Inr None)
               else Inr None) (\<lambda>target_role.
     and_then (if actor_role \<in> {Some ''owner'', Some ''admin''} then Inr None
               else case channel of
                      Some ch \<Rightarrow> if action \<in> {DeleteMessage, Kick}
                                 then or_fault (mf_channel_role (md_faults M)) (md_channel_role M c ch actor)
                                 else Inr None
                    | None \<Rightarrow> Inr None) (\<lambda>channel_role.
     decide_authority actor_role target_role channel_role action)))"


subsection \<open>The commands\<close>

datatype mod_effect =
    Disconnect uuid string string string
  | RestrictionNotice string uuid string string
  | ReportNotice string uuid string string

definition MAX_COMMAND_SKEW_SECS :: int where "MAX_COMMAND_SKEW_SECS = 120"

definition invalid :: "string \<Rightarrow> string" where "invalid m = ''invalid: '' @ m"
definition error_reply :: "string \<Rightarrow> string" where "error_reply m = ''error: '' @ m"
definition authz_denial :: "string \<Rightarrow> string" where "authz_denial e = ''restricted: '' @ e"

definition ensure_actor_not_banned :: "RestrictionState \<Rightarrow> string + unit" where
  "ensure_actor_not_banned r =
     (if rs_banned r then Inl ''blocked: you are banned from this community'' else Inr ())"

definition valid_hex_tag :: "string \<Rightarrow> nostr_tag \<Rightarrow> bool" where
  "valid_hex_tag name t \<longleftrightarrow> slice_head t = Some name \<and> (case slice_second t of Some v \<Rightarrow> is_hex_64 v | None \<Rightarrow> False)"

definition first_hex_tag :: "string \<Rightarrow> nostr_event \<Rightarrow> string option" where
  "first_hex_tag name event =
     (case find (valid_hex_tag name) (ev_tags event) of
        None \<Rightarrow> None
      | Some t \<Rightarrow> map_option (map ascii_lower) (slice_second t))"

definition extract_p_tag_bytes :: "nostr_event \<Rightarrow> string option" where
  "extract_p_tag_bytes event = first_hex_tag ''p'' event"

definition extract_report_tag :: "nostr_event \<Rightarrow> string option" where
  "extract_report_tag event = first_hex_tag ''report'' event"

text \<open>The value of the first tag with the name, when it has one.\<close>

definition first_tag_value :: "nostr_event \<Rightarrow> string \<Rightarrow> string option" where
  "first_tag_value event name =
     Option.bind (find (\<lambda>t. slice_head t = Some name) (ev_tags event)) slice_second"

text \<open>\<open>str::parse\<close> for \<open>i64\<close>.\<close>

definition parse_i64 :: "string \<Rightarrow> int option" where
  "parse_i64 s =
     (let neg = starts_with s ''-'';
          ds = (if neg \<or> starts_with s ''+'' then drop 1 s else s);
          n = (if neg then - int (undec ds) else int (undec ds))
      in if ds \<noteq> [] \<and> list_all is_digit ds \<and> - (2 ^ 63) \<le> n \<and> n < 2 ^ 63 then Some n else None)"

definition extract_expiration :: "mod_env \<Rightarrow> nostr_event \<Rightarrow> string + int option" where
  "extract_expiration M event =
     (case first_tag_value event ''expiration'' of
        None \<Rightarrow> Inr None
      | Some raw \<Rightarrow>
          (case parse_i64 raw of
             None \<Rightarrow> Inl (invalid (''invalid expiration tag: '' @ raw))
           | Some secs \<Rightarrow>
               (case md_timestamp_opt M secs of
                  Some ts \<Rightarrow> Inr (Some ts)
                | None \<Rightarrow> Inl (invalid (''expiration out of range: '' @ int_text secs)))))"

definition insert_audit ::
  "mod_env \<Rightarrow> nat \<Rightarrow> uuid \<Rightarrow> uuid \<Rightarrow> string \<Rightarrow> string \<Rightarrow> string option \<Rightarrow> string option \<Rightarrow> string option \<Rightarrow> mod_db \<Rightarrow>
   (string + uuid) \<times> mod_db" where
  "insert_audit M now new_id c actor action target_pubkey target_event_id public_reason db =
     (case mf_audit (md_faults M) of
        Some e \<Rightarrow> (Inl (error_reply (''failed to write audit row: '' @ e)), db)
      | None \<Rightarrow>
          (case insert_action \<lparr>at_community = c, at_id = new_id, at_actor = actor, at_action = action,
                  at_target_pubkey = target_pubkey, at_target_event_id = target_event_id,
                  at_public_reason = public_reason, at_created_at = now\<rparr> db of
             (Inl e, db') \<Rightarrow> (Inl (error_reply (''failed to write audit row: '' @ e)), db')
           | (Inr i, db') \<Rightarrow> (Inr i, db')))"

definition or_empty_text :: "string option \<Rightarrow> string" where
  "or_empty_text x = (case x of None \<Rightarrow> [] | Some s \<Rightarrow> s)"

type_synonym mod_result = "(string + unit) \<times> mod_effect list \<times> mod_db"

definition handle_ban :: "mod_env \<Rightarrow> nat \<Rightarrow> uuid \<Rightarrow> uuid \<Rightarrow> nostr_event \<Rightarrow> string \<Rightarrow> mod_db \<Rightarrow> mod_result" where
  "handle_ban M now new_id c event actor db =
     (case and_then (case extract_p_tag_bytes event of None \<Rightarrow> Inl (invalid ''missing or invalid p tag'') | Some t \<Rightarrow> Inr t) (\<lambda>target.
           and_then (extract_expiration M event) (\<lambda>expires.
           and_then (map_sum authz_denial id (authorize_moderation_action M c actor None (OnPubkey target) Ban)) (\<lambda>_.
           and_then (map_sum (\<lambda>e. error_reply (''database error: '' @ e)) id (or_fault (mf_write (md_faults M)) ())) (\<lambda>_.
           Inr (target, expires))))) of
        Inl e \<Rightarrow> (Inl e, [], db)
      | Inr (target, expires) \<Rightarrow>
          (let reason = first_tag_value event ''reason'';
               db1 = ban_member now c target actor reason expires db
           in case insert_audit M now new_id c actor ''ban'' (Some target) None reason db1 of
                (Inl e, db2) \<Rightarrow> (Inl e, [], db2)
              | (Inr action_id, db2) \<Rightarrow>
                  (Inr (), [Disconnect c target (ev_id event) ''blocked: you are banned from this community'',
                            RestrictionNotice target action_id ''ban'' (or_empty_text reason)], db2)))"

definition handle_unban :: "mod_env \<Rightarrow> nat \<Rightarrow> uuid \<Rightarrow> uuid \<Rightarrow> nostr_event \<Rightarrow> string \<Rightarrow> mod_db \<Rightarrow> mod_result" where
  "handle_unban M now new_id c event actor db =
     (case and_then (case extract_p_tag_bytes event of None \<Rightarrow> Inl (invalid ''missing or invalid p tag'') | Some t \<Rightarrow> Inr t) (\<lambda>target.
           and_then (map_sum authz_denial id (authorize_moderation_action M c actor None (OnPubkey target) Unban)) (\<lambda>_.
           and_then (map_sum (\<lambda>e. error_reply (''database error: '' @ e)) id (or_fault (mf_write (md_faults M)) ())) (\<lambda>_.
           Inr target))) of
        Inl e \<Rightarrow> (Inl e, [], db)
      | Inr target \<Rightarrow>
          (case unban_member now c target actor db of
             (False, db1) \<Rightarrow> (Inl (invalid ''member is not banned''), [], db1)
           | (True, db1) \<Rightarrow>
               (case insert_audit M now new_id c actor ''unban'' (Some target) None None db1 of
                  (Inl e, db2) \<Rightarrow> (Inl e, [], db2)
                | (Inr _, db2) \<Rightarrow> (Inr (), [], db2))))"

definition handle_timeout :: "mod_env \<Rightarrow> nat \<Rightarrow> uuid \<Rightarrow> uuid \<Rightarrow> nostr_event \<Rightarrow> string \<Rightarrow> mod_db \<Rightarrow> mod_result" where
  "handle_timeout M now new_id c event actor db =
     (case and_then (case extract_p_tag_bytes event of None \<Rightarrow> Inl (invalid ''missing or invalid p tag'') | Some t \<Rightarrow> Inr t) (\<lambda>target.
           and_then (extract_expiration M event) (\<lambda>expires.
           and_then (case expires of None \<Rightarrow> Inl (invalid ''timeout requires an expiration tag'') | Some u \<Rightarrow> Inr u) (\<lambda>muted_until.
           and_then (map_sum authz_denial id (authorize_moderation_action M c actor None (OnPubkey target) Timeout)) (\<lambda>_.
           and_then (map_sum (\<lambda>e. error_reply (''database error: '' @ e)) id (or_fault (mf_write (md_faults M)) ())) (\<lambda>_.
           Inr (target, muted_until)))))) of
        Inl e \<Rightarrow> (Inl e, [], db)
      | Inr (target, muted_until) \<Rightarrow>
          (let reason = first_tag_value event ''reason'';
               db1 = timeout_member now c target actor muted_until reason db
           in case insert_audit M now new_id c actor ''timeout'' (Some target) None reason db1 of
                (Inl e, db2) \<Rightarrow> (Inl e, [], db2)
              | (Inr action_id, db2) \<Rightarrow>
                  (Inr (), [RestrictionNotice target action_id ''timeout'' (or_empty_text reason)], db2)))"

definition handle_untimeout :: "mod_env \<Rightarrow> nat \<Rightarrow> uuid \<Rightarrow> uuid \<Rightarrow> nostr_event \<Rightarrow> string \<Rightarrow> mod_db \<Rightarrow> mod_result" where
  "handle_untimeout M now new_id c event actor db =
     (case and_then (case extract_p_tag_bytes event of None \<Rightarrow> Inl (invalid ''missing or invalid p tag'') | Some t \<Rightarrow> Inr t) (\<lambda>target.
           and_then (map_sum authz_denial id (authorize_moderation_action M c actor None (OnPubkey target) Untimeout)) (\<lambda>_.
           and_then (map_sum (\<lambda>e. error_reply (''database error: '' @ e)) id (or_fault (mf_write (md_faults M)) ())) (\<lambda>_.
           Inr target))) of
        Inl e \<Rightarrow> (Inl e, [], db)
      | Inr target \<Rightarrow>
          (case untimeout_member now c target actor db of
             (False, db1) \<Rightarrow> (Inl (invalid ''member is not timed out''), [], db1)
           | (True, db1) \<Rightarrow>
               (case insert_audit M now new_id c actor ''untimeout'' (Some target) None None db1 of
                  (Inl e, db2) \<Rightarrow> (Inl e, [], db2)
                | (Inr _, db2) \<Rightarrow> (Inr (), [], db2))))"

definition resolution_audit_action :: "string \<Rightarrow> string" where
  "resolution_audit_action action =
     (if action = ''dismiss'' then ''dismiss_report''
      else if action = ''escalate'' then ''escalate''
      else if action = ''delete'' then ''resolve:delete''
      else if action = ''kick'' then ''resolve:kick''
      else if action = ''ban'' then ''resolve:ban''
      else if action = ''timeout'' then ''resolve:timeout''
      else ''resolve:unknown'')"

definition check_resolution :: "nostr_event \<Rightarrow> string + string \<times> string \<times> string" where
  "check_resolution event =
     and_then (case extract_report_tag event of
                 None \<Rightarrow> Inl (invalid ''missing or invalid report tag (expect 64-hex event id)'') | Some i \<Rightarrow> Inr i) (\<lambda>report_event_id.
     and_then (case first_tag_value event ''status'' of None \<Rightarrow> Inl (invalid ''missing status tag'') | Some s \<Rightarrow> Inr s) (\<lambda>status.
     and_then (case first_tag_value event ''action'' of None \<Rightarrow> Inl (invalid ''missing action tag'') | Some a \<Rightarrow> Inr a) (\<lambda>action.
     if status \<noteq> ''resolved'' \<and> status \<noteq> ''dismissed''
     then Inl (invalid (''invalid status: '' @ status @ '' (expect resolved|dismissed)''))
     else if action \<notin> {''delete'', ''kick'', ''ban'', ''timeout'', ''dismiss'', ''escalate''}
     then Inl (invalid (''invalid action: '' @ action @ '' (expect delete|kick|ban|timeout|dismiss|escalate)''))
     else if (action = ''dismiss'') \<noteq> (status = ''dismissed'')
     then Inl (invalid (''action '' @ ticked ''dismiss'' @ '' pairs only with status '' @ ticked ''dismissed''))
     else Inr (report_event_id, status, action))))"

definition handle_resolve :: "mod_env \<Rightarrow> nat \<Rightarrow> uuid \<Rightarrow> uuid \<Rightarrow> nostr_event \<Rightarrow> string \<Rightarrow> mod_db \<Rightarrow> mod_result" where
  "handle_resolve M now new_id c event actor db =
     (case and_then (check_resolution event) (\<lambda>(report_event_id, status, action).
           and_then (map_sum authz_denial id (authorize_moderation_action M c actor None (OnEvent report_event_id) ResolveReport)) (\<lambda>_.
           and_then (map_sum (\<lambda>e. error_reply (''database error: '' @ e)) id
                       (or_fault (mf_report (md_faults M)) (get_report_by_event c report_event_id db))) (\<lambda>found.
           case found of
             None \<Rightarrow> Inl (invalid ''report not found in this community'')
           | Some report \<Rightarrow>
               if rp_status report \<noteq> ''open'' then Inl (invalid ''report is not open (already resolved or dismissed)'')
               else Inr (report, status, action)))) of
        Inl e \<Rightarrow> (Inl e, [], db)
      | Inr (report, status, action) \<Rightarrow>
          (let reason = first_tag_value event ''reason'';
               (target_pubkey, target_event_id) =
                 (case rp_target report of TargetPubkey p \<Rightarrow> (Some p, None) | TargetEvent e \<Rightarrow> (None, Some e) | TargetBlob _ \<Rightarrow> (None, None))
           in case insert_audit M now new_id c actor (resolution_audit_action action) target_pubkey target_event_id reason db of
                (Inl e, db1) \<Rightarrow> (Inl e, [], db1)
              | (Inr action_id, db1) \<Rightarrow>
                  (case mf_resolve (md_faults M) of
                     Some e \<Rightarrow> (Inl (error_reply (''database error: '' @ e)), [], db1)
                   | None \<Rightarrow>
                  (case resolve_report now c (rp_id report) status actor (Some action_id) db1 of
                     (False, db2) \<Rightarrow> (Inl (invalid ''report is not open (already resolved or dismissed)''), [], db2)
                   | (True, db2) \<Rightarrow>
                       (Inr (), [ReportNotice (rp_reporter report) (rp_id report) status
                          (case reason of Some r \<Rightarrow> r
                           | None \<Rightarrow> if status = ''dismissed'' then ''Your report was reviewed and dismissed.''
                                    else ''Your report was reviewed and acted on.'')], db2)))))"

text \<open>The clock of the database in microseconds, that of the handler in seconds.\<close>

definition handle_moderation_command ::
  "mod_env \<Rightarrow> nat \<Rightarrow> uuid \<Rightarrow> uuid \<Rightarrow> nostr_event \<Rightarrow> mod_db \<Rightarrow> mod_result" where
  "handle_moderation_command M now new_id c event db =
     (let actor = ev_pubkey event; kind = ev_kind event; secs = now div 1000000
      in case and_then (map_sum (\<lambda>e. error_reply (''database error checking restriction state: '' @ e)) id
                          (or_fault (mf_restriction (md_faults M)) (restriction_state now c actor db))) (\<lambda>r.
              and_then (ensure_actor_not_banned r) (\<lambda>_.
              if out_of_range MAX_COMMAND_SKEW_SECS secs (ev_created_at event)
              then Inl (invalid (''event timestamp out of range: created_at='' @ int_text (i64_wrap (int (ev_created_at event))) @
                     '', now='' @ dec secs @ '', delta='' @ int_text (i64_wrap (i64_wrap (int (ev_created_at event)) - int secs)) @
                     ''s (max '' @ [CHR 0xC2, CHR 0xB1] @ ''120s)''))
              else Inr ())) of
           Inl e \<Rightarrow> (Inl e, [], db)
         | Inr _ \<Rightarrow>
             if kind = KIND_MODERATION_BAN then handle_ban M now new_id c event actor db
             else if kind = KIND_MODERATION_UNBAN then handle_unban M now new_id c event actor db
             else if kind = KIND_MODERATION_TIMEOUT then handle_timeout M now new_id c event actor db
             else if kind = KIND_MODERATION_UNTIMEOUT then handle_untimeout M now new_id c event actor db
             else if kind = KIND_MODERATION_RESOLVE_REPORT then handle_resolve M now new_id c event actor db
             else (Inl (invalid (''unexpected moderation command kind: '' @ dec kind)), [], db))"

subsection \<open>Reports\<close>

definition REPORT_TYPES :: "string list" where
  "REPORT_TYPES = [''illegal'', ''nudity'', ''malware'', ''spam'', ''impersonation'', ''profanity'', ''other'']"

definition collect_report_tags :: "nostr_event \<Rightarrow> string \<Rightarrow> (string \<times> string option) list" where
  "collect_report_tags event name =
     List.map_filter (\<lambda>t. case tag_slice t of
         h # v # rest \<Rightarrow> if h = name then Some (v, case rest of [] \<Rightarrow> None | x # _ \<Rightarrow> Some x) else None
       | _ \<Rightarrow> None) (ev_tags event)"

definition parse_report_type :: "string option \<Rightarrow> string + string" where
  "parse_report_type v =
     (case v of
        None \<Rightarrow> Inl ''invalid: report target tag missing report type''
      | Some t \<Rightarrow> if t \<in> set REPORT_TYPES then Inr t else Inl (''invalid: unsupported report type: '' @ t))"

definition decode_32_byte_hex :: "string \<Rightarrow> string \<Rightarrow> string + string" where
  "decode_32_byte_hex v label = (if is_hex_64 v then Inr (map ascii_lower v) else Inl (''invalid: malformed '' @ label))"

definition parse_report :: "nostr_event \<Rightarrow> string + ReportTarget \<times> string" where
  "parse_report event =
     (let p_tags = collect_report_tags event ''p'';
          e_tags = collect_report_tags event ''e'';
          x_tags = collect_report_tags event ''x''
      in case p_tags of
           [] \<Rightarrow> Inl ''invalid: report must include a p tag''
         | p # ps \<Rightarrow>
        (if ps \<noteq> [] then Inl ''invalid: report must include exactly one p tag''
         else and_then (decode_32_byte_hex (fst p) ''p tag pubkey'') (\<lambda>reported.
         if e_tags \<noteq> [] \<and> x_tags \<noteq> [] then Inl ''invalid: report must target only one of e or x''
         else if length e_tags > 1 then Inl ''invalid: report must include at most one e tag''
         else if length x_tags > 1 then Inl ''invalid: report must include at most one x tag''
         else case e_tags of
                e # _ \<Rightarrow> and_then (parse_report_type (snd e)) (\<lambda>t.
                          and_then (decode_32_byte_hex (fst e) ''e tag event id'') (\<lambda>i. Inr (TargetEvent i, t)))
              | [] \<Rightarrow>
            (case x_tags of
                x # _ \<Rightarrow> and_then (parse_report_type (snd x)) (\<lambda>t.
                          and_then (decode_32_byte_hex (fst x) ''x tag sha256'') (\<lambda>i. Inr (TargetBlob i, t)))
              | [] \<Rightarrow> and_then (parse_report_type (snd p)) (\<lambda>t. Inr (TargetPubkey reported, t))))))"

definition handle_report_event :: "mod_env \<Rightarrow> nat \<Rightarrow> uuid \<Rightarrow> uuid \<Rightarrow> nostr_event \<Rightarrow> mod_db \<Rightarrow> (string + unit) \<times> mod_db" where
  "handle_report_event M now new_id c event db =
     (case and_then (parse_report event) (\<lambda>(target, report_type).
           case target of
             TargetEvent i \<Rightarrow>
               and_then (map_sum (\<lambda>e. ''error: database error resolving report target: '' @ e) id (md_event_by_id M c i)) (\<lambda>stored.
               case stored of None \<Rightarrow> Inl ''invalid: report target event not found''
                            | Some channel \<Rightarrow> Inr (target, report_type, channel))
           | TargetBlob sha \<Rightarrow>
               if md_sidecar M c sha then Inr (target, report_type, None) else Inl ''invalid: report target blob not found''
           | TargetPubkey _ \<Rightarrow> Inr (target, report_type, None)) of
        Inl e \<Rightarrow> (Inl e, db)
      | Inr (target, report_type, channel) \<Rightarrow>
          (case mf_write (md_faults M) of
             Some e \<Rightarrow> (Inl (''error: database error inserting report: '' @ e), db)
           | None \<Rightarrow>
               (Inr (), snd (insert_report \<lparr>rp_community = c, rp_id = new_id, rp_event_id = ev_id event,
                  rp_reporter = ev_pubkey event, rp_target = target, rp_channel_id = channel, rp_type = report_type,
                  rp_note = (if ev_content event = [] then None else Some (ev_content event)), rp_status = ''open'',
                  rp_resolved_by = None, rp_resolved_at = None, rp_action_id = None, rp_created_at = now\<rparr> db))))"


subsection \<open>What one command changes\<close>


lemma or_fault_Inr [simp]: "or_fault f x = Inr y \<longleftrightarrow> f = None \<and> y = x"
  by (auto simp: or_fault_def split: option.splits)







lemma member_statements [simp]:
  "mb_reports (ban_member now c pk actor reason expires db) = mb_reports db"
  "mb_reports (timeout_member now c pk actor until reason db) = mb_reports db"
  "mb_reports (snd (unban_member now c pk actor db)) = mb_reports db"
  "mb_reports (snd (untimeout_member now c pk actor db)) = mb_reports db"
  "mb_actions (ban_member now c pk actor reason expires db) = mb_actions db"
  "mb_actions (timeout_member now c pk actor until reason db) = mb_actions db"
  "mb_actions (snd (unban_member now c pk actor db)) = mb_actions db"
  "mb_actions (snd (untimeout_member now c pk actor db)) = mb_actions db"
  by (simp_all add: ban_member_def timeout_member_def unban_member_def untimeout_member_def split: option.split)













subsection \<open>Restrictions change only by moderators\<close>







lemmas moderation_kinds =
  KIND_MODERATION_BAN_def KIND_MODERATION_UNBAN_def KIND_MODERATION_TIMEOUT_def KIND_MODERATION_UNTIMEOUT_def
  KIND_MODERATION_RESOLVE_REPORT_def





lemma report_keeps_bans [simp]: "mb_bans (snd (handle_report_event M now i c ev db)) = mb_bans db"
  by (auto simp: handle_report_event_def insert_report_def split: sum.splits prod.splits option.splits)








subsection \<open>A report is resolved once\<close>






lemma get_report_tables [simp]: "get_report_by_event c eid (db\<lparr>mb_actions := rows\<rparr>) = get_report_by_event c eid db"
  by (simp add: get_report_by_event_def)










subsection \<open>Two runs\<close>

definition demo_mod_env :: "string option \<Rightarrow> mod_env" where
  "demo_mod_env audit = \<lparr>md_role_of = (\<lambda>c k. if k = ''o'' then Some ''owner'' else None), md_channel_role = (\<lambda>_ _ _. None),
     md_timestamp_opt = (\<lambda>s. Some (s * 1000000)), md_event_by_id = (\<lambda>_ _. Inr None), md_sidecar = (\<lambda>_ _. False),
     md_faults = \<lparr>mf_restriction = None, mf_actor_role = None, mf_target_role = None, mf_channel_role = None,
       mf_write = None, mf_audit = audit, mf_report = None, mf_resolve = None\<rparr>\<rparr>"

definition plain_tag :: "string \<Rightarrow> string \<Rightarrow> nostr_tag" where
  "plain_tag name v = \<lparr>tag_kind = name, tag_content = Some v, tag_slice = [name, v]\<rparr>"

definition demo_command :: "string \<Rightarrow> nat \<Rightarrow> nostr_tag list \<Rightarrow> nostr_event" where
  "demo_command signer kind tags = \<lparr>ev_id = ''e'', ev_pubkey = signer, ev_created_at = 1000, ev_kind = kind,
     ev_tags = tags, ev_content = []\<rparr>"

definition demo_now :: nat where "demo_now = 1000 * 1000000"

lemma demo_now_secs [simp]: "demo_now div 1000000 = 1000" by (simp add: demo_now_def)

lemma demo_fresh [simp]: "\<not> out_of_range MAX_COMMAND_SKEW_SECS 1000 1000"
  by (simp add: out_of_range_def i64_abs_def i64_wrap_def MAX_COMMAND_SKEW_SECS_def)

lemma demo_p_tag [simp]:
  "extract_p_tag_bytes (demo_command signer kind [plain_tag ''p'' demo_key]) = Some demo_key"
  by (simp add: extract_p_tag_bytes_def first_hex_tag_def valid_hex_tag_def plain_tag_def demo_command_def
      slice_head_def slice_second_def demo_key_hex demo_key_lower)

lemma demo_no_value [simp]:
  "name \<noteq> ''p'' \<Longrightarrow> first_tag_value (demo_command signer kind [plain_tag ''p'' demo_key]) name = None"
  by (simp add: first_tag_value_def plain_tag_def demo_command_def slice_head_def)

definition demo_db :: mod_db where "demo_db = \<lparr>mb_bans = [], mb_reports = [], mb_actions = []\<rparr>"

lemma demo_owner [simp]: "authorize_moderation_action (demo_mod_env audit) c ''o'' None target action = Inr CommunityOwner"
  by (simp add: authorize_moderation_action_def demo_mod_env_def or_fault_def decide_authority_def)

lemma demo_admitted [simp]:
  "restriction_state now c ''o'' demo_db = \<lparr>rs_banned = False, rs_muted_until = None\<rparr>"
  by (simp add: restriction_state_def demo_db_def)

lemma demo_faults [simp]:
  "mf_restriction (md_faults (demo_mod_env audit)) = None" "mf_write (md_faults (demo_mod_env audit)) = None"
  "mf_audit (md_faults (demo_mod_env audit)) = audit" "mf_report (md_faults (demo_mod_env audit)) = None"
  "mf_resolve (md_faults (demo_mod_env audit)) = None"
  by (simp_all add: demo_mod_env_def)

lemma demo_command_simps [simp]:
  "ev_pubkey (demo_command signer kind tags) = signer" "ev_kind (demo_command signer kind tags) = kind"
  "ev_created_at (demo_command signer kind tags) = 1000" "ev_id (demo_command signer kind tags) = ''e''"
  "ev_tags (demo_command signer kind tags) = tags"
  by (simp_all add: demo_command_def)

definition demo_ban_row :: ban_row where
  "demo_ban_row = \<lparr>bn_banned = True, bn_expires_at = None, bn_reason = None, bn_muted_until = None, bn_mute_reason = None,
     bn_actor = ''o'', bn_updated_at = demo_now\<rparr>"

text \<open>
  When the audit row of a ban cannot be written the ban is stored all the same, the command is answered with an error,
  and the sockets of the banned member are not closed; no later event of the run closes them.
\<close>

theorem lost_audit_keeps_ban:
  "handle_moderation_command (demo_mod_env (Some ''down'')) demo_now ''i'' ''c''
      (demo_command ''o'' KIND_MODERATION_BAN [plain_tag ''p'' demo_key]) demo_db =
     (Inl ''error: failed to write audit row: down'', [], demo_db\<lparr>mb_bans := [((''c'', demo_key), demo_ban_row)]\<rparr>) \<and>
   rs_banned (restriction_state (demo_now + 1) ''c'' demo_key (demo_db\<lparr>mb_bans := [((''c'', demo_key), demo_ban_row)]\<rparr>))"
  by (simp add: handle_moderation_command_def Let_def ensure_actor_not_banned_def handle_ban_def extract_expiration_def
      or_fault_def insert_audit_def ban_member_def error_reply_def demo_ban_row_def)
    (simp add: demo_db_def restriction_state_def active_ban_def)

text \<open>An unban whose audit row is lost has taken effect, and its retry is refused.\<close>

theorem lost_audit_blocks_retry:
  "let ev = demo_command ''o'' KIND_MODERATION_UNBAN [plain_tag ''p'' demo_key];
       db0 = demo_db\<lparr>mb_bans := [((''c'', demo_key), demo_ban_row)]\<rparr>;
       db1 = snd (snd (handle_moderation_command (demo_mod_env (Some ''down'')) demo_now ''i'' ''c'' ev db0))
   in fst (handle_moderation_command (demo_mod_env (Some ''down'')) demo_now ''i'' ''c'' ev db0) =
        Inl ''error: failed to write audit row: down'' \<and>
      handle_moderation_command (demo_mod_env None) demo_now ''j'' ''c'' ev db1 = (Inl ''invalid: member is not banned'', [], db1) \<and>
      mb_actions db1 = []"
proof -
  have k: "(''o'' :: string) \<noteq> demo_key" by (auto simp: demo_key_def dest: arg_cong [where f = length])
  show ?thesis
    by (simp add: handle_moderation_command_def Let_def ensure_actor_not_banned_def handle_unban_def moderation_kinds
      or_fault_def insert_audit_def unban_member_def error_reply_def demo_ban_row_def invalid_def demo_db_def restriction_state_def
      k k [symmetric])
qed









end
