(* ===== verification/Ingest_Rules.thy ===== *)
theory Ingest_Rules
  imports Workflow_Command Moderation Conformance
begin

text \<open>
  The rules of \<open>buzz-relay/src/handlers/ingest.rs\<close>: who submits an event, which scope a kind needs, which
  kinds are global or belong to a channel, the public envelopes that are checked before an event is stored, and the
  lookups (membership, threads, reactions, edits, votes) that decide about one.

  What the database answers is looked up in an environment. An id or a key is its hexadecimal text; the
  code decodes it to bytes, which forgets the case of the digits. Texts are UTF-8 bytes.
\<close>

subsection \<open>Who submits\<close>

datatype HttpAuthMethod = Nip98 | DevPubkey

datatype IngestAuth =
    Nip42Auth (pubkey: string) (scopes: "Scope list") (token_channels: "uuid list option") uuid
  | HttpAuth (pubkey: string) (scopes: "Scope list") HttpAuthMethod

definition ingest_conn_id :: "IngestAuth \<Rightarrow> uuid option" where
  "ingest_conn_id auth = (case auth of Nip42Auth _ _ _ conn \<Rightarrow> Some conn | HttpAuth _ _ _ \<Rightarrow> None)"

definition channel_ids :: "IngestAuth \<Rightarrow> uuid list option" where
  "channel_ids auth = (case auth of Nip42Auth _ _ ids _ \<Rightarrow> ids | HttpAuth _ _ _ \<Rightarrow> None)"

definition is_http :: "IngestAuth \<Rightarrow> bool" where
  "is_http auth = (case auth of Nip42Auth _ _ _ _ \<Rightarrow> False | HttpAuth _ _ _ \<Rightarrow> True)"

definition check_token_channel_access :: "IngestAuth \<Rightarrow> uuid \<Rightarrow> string + unit" where
  "check_token_channel_access auth channel_id =
     (case channel_ids auth of
        Some allowed \<Rightarrow> if channel_id \<notin> set allowed then Inl ''restricted: token does not have access to this channel''
                        else Inr ()
      | None \<Rightarrow> Inr ())"

subsection \<open>Kinds\<close>

definition required_scope_for_kind :: "nat \<Rightarrow> nostr_event \<Rightarrow> string + Scope" where
  "required_scope_for_kind kind event =
     (if kind = KIND_PROFILE then Inr UsersWrite
      else if kind \<in> {KIND_TEXT_NOTE, KIND_LONG_FORM} then Inr MessagesWrite
      else if kind \<in> {KIND_CONTACT_LIST, KIND_READ_STATE, KIND_USER_STATUS, KIND_AGENT_ENGRAM, KIND_EVENT_REMINDER,
                      KIND_PERSONA, KIND_TEAM, KIND_MANAGED_AGENT, KIND_PUSH_LEASE} then Inr UsersWrite
      else if kind = KIND_AGENT_TURN_METRIC then Inr MessagesWrite
      else if kind \<in> {KIND_REPORT, KIND_PRODUCT_FEEDBACK} then Inr MessagesWrite
      else if is_moderation_command_kind kind then Inr MessagesWrite
      else if kind \<in> {KIND_MUTE_LIST, KIND_PIN_LIST, KIND_NIP65_RELAY_LIST_METADATA, KIND_BOOKMARK_LIST, KIND_FOLLOW_SET,
                      KIND_BOOKMARK_SET, KIND_EMOJI_SET, KIND_EMOJI_LIST, KIND_AGENT_PROFILE} then Inr UsersWrite
      else if kind \<in> {KIND_DELETION, KIND_REACTION, KIND_GIFT_WRAP, KIND_STREAM_MESSAGE, KIND_STREAM_MESSAGE_V2,
                      KIND_NIP29_DELETE_EVENT, KIND_STREAM_MESSAGE_EDIT, KIND_STREAM_MESSAGE_PINNED,
                      KIND_STREAM_MESSAGE_BOOKMARKED, KIND_STREAM_MESSAGE_SCHEDULED, KIND_STREAM_REMINDER,
                      KIND_STREAM_MESSAGE_DIFF, KIND_FORUM_POST, KIND_FORUM_VOTE, KIND_FORUM_COMMENT} then Inr MessagesWrite
      else if kind \<in> {KIND_NIP29_PUT_USER, KIND_NIP29_REMOVE_USER, KIND_NIP29_DELETE_GROUP} then Inr AdminChannels
      else if kind \<in> {RELAY_ADMIN_ADD_MEMBER, RELAY_ADMIN_REMOVE_MEMBER, RELAY_ADMIN_CHANGE_ROLE,
                      RELAY_ADMIN_SET_WORKSPACE_PROFILE} then Inr AdminUsers
      else if kind \<in> {KIND_IA_ARCHIVE_REQUEST, KIND_IA_UNARCHIVE_REQUEST} then Inr UsersWrite
      else if kind = KIND_NIP29_EDIT_METADATA then
        (if list_ex (\<lambda>t. tag_kind t = ''archived'') (ev_tags event) then Inr AdminChannels else Inr ChannelsWrite)
      else if kind \<in> {KIND_NIP29_CREATE_GROUP, KIND_CANVAS} then Inr ChannelsWrite
      else if kind \<in> {KIND_NIP29_JOIN_REQUEST, KIND_NIP29_LEAVE_REQUEST, KIND_NIP43_LEAVE_REQUEST} then Inr ChannelsRead
      else if kind \<in> {KIND_HUDDLE_STARTED, KIND_HUDDLE_PARTICIPANT_JOINED, KIND_HUDDLE_PARTICIPANT_LEFT, KIND_HUDDLE_ENDED,
                      KIND_HUDDLE_GUIDELINES} then Inr ChannelsWrite
      else if kind \<in> {KIND_GIT_REPO_ANNOUNCEMENT, KIND_GIT_REPO_STATE} then Inr ReposWrite
      else if kind \<in> {KIND_GIT_PATCH, KIND_GIT_PULL_REQUEST, KIND_GIT_PR_UPDATE, KIND_GIT_ISSUE, KIND_GIT_STATUS_OPEN,
                      KIND_GIT_STATUS_MERGED, KIND_GIT_STATUS_CLOSED, KIND_GIT_STATUS_DRAFT} then Inr MessagesWrite
      else if kind \<in> {KIND_DM_OPEN, KIND_DM_ADD_MEMBER, KIND_DM_HIDE} then Inr MessagesWrite
      else if kind \<in> {KIND_WORKFLOW_DEF, KIND_WORKFLOW_TRIGGER} then Inr MessagesWrite
      else if kind \<in> {KIND_APPROVAL_GRANT, KIND_APPROVAL_DENY} then Inr MessagesWrite
      else Inl ''restricted: unknown event kind'')"

definition is_global_only_kind :: "nat \<Rightarrow> bool" where
  "is_global_only_kind kind \<longleftrightarrow> kind \<in> {
     KIND_PROFILE, KIND_TEXT_NOTE, KIND_CONTACT_LIST, KIND_LONG_FORM, KIND_USER_STATUS, KIND_READ_STATE, KIND_MUTE_LIST,
     KIND_PIN_LIST, KIND_NIP65_RELAY_LIST_METADATA, KIND_BOOKMARK_LIST, KIND_FOLLOW_SET, KIND_BOOKMARK_SET, KIND_EMOJI_SET,
     KIND_EMOJI_LIST, KIND_AGENT_ENGRAM, KIND_EVENT_REMINDER, KIND_AGENT_PROFILE, KIND_PERSONA, KIND_TEAM,
     KIND_MANAGED_AGENT, KIND_GIT_REPO_ANNOUNCEMENT, KIND_GIT_REPO_STATE, KIND_GIT_PATCH, KIND_GIT_PULL_REQUEST,
     KIND_GIT_PR_UPDATE, KIND_GIT_ISSUE, KIND_GIT_STATUS_OPEN, KIND_GIT_STATUS_MERGED, KIND_GIT_STATUS_CLOSED,
     KIND_GIT_STATUS_DRAFT, KIND_MODERATION_BAN, KIND_MODERATION_UNBAN, KIND_MODERATION_TIMEOUT,
     KIND_MODERATION_UNTIMEOUT, KIND_MODERATION_RESOLVE_REPORT, RELAY_ADMIN_ADD_MEMBER, RELAY_ADMIN_REMOVE_MEMBER,
     RELAY_ADMIN_CHANGE_ROLE, RELAY_ADMIN_SET_WORKSPACE_PROFILE, KIND_NIP43_LEAVE_REQUEST, KIND_IA_ARCHIVE_REQUEST,
     KIND_IA_UNARCHIVE_REQUEST, KIND_AGENT_TURN_METRIC, KIND_PUSH_LEASE}"

definition requires_h_channel_scope :: "nat \<Rightarrow> bool" where
  "requires_h_channel_scope kind \<longleftrightarrow> kind \<in> {
     KIND_STREAM_MESSAGE, KIND_STREAM_MESSAGE_V2, KIND_STREAM_MESSAGE_EDIT, KIND_STREAM_MESSAGE_PINNED,
     KIND_STREAM_MESSAGE_BOOKMARKED, KIND_STREAM_MESSAGE_SCHEDULED, KIND_STREAM_REMINDER, KIND_STREAM_MESSAGE_DIFF,
     KIND_CANVAS, KIND_FORUM_POST, KIND_FORUM_VOTE, KIND_FORUM_COMMENT, KIND_NIP29_PUT_USER, KIND_NIP29_REMOVE_USER,
     KIND_NIP29_EDIT_METADATA, KIND_NIP29_DELETE_EVENT, KIND_NIP29_DELETE_GROUP, KIND_NIP29_LEAVE_REQUEST,
     KIND_HUDDLE_STARTED, KIND_HUDDLE_PARTICIPANT_JOINED, KIND_HUDDLE_PARTICIPANT_LEFT, KIND_HUDDLE_ENDED,
     KIND_HUDDLE_GUIDELINES}"

text \<open>\<open>side_effects.rs\<close>.\<close>

definition is_admin_kind :: "nat \<Rightarrow> bool" where "is_admin_kind kind \<longleftrightarrow> 9000 \<le> kind \<and> kind \<le> 9022"

definition is_side_effect_kind :: "nat \<Rightarrow> bool" where
  "is_side_effect_kind kind \<longleftrightarrow>
     kind = 0 \<or> kind = 5 \<or> 9000 \<le> kind \<and> kind \<le> 9022 \<or> kind = KIND_GIT_REPO_ANNOUNCEMENT \<or> kind = KIND_AGENT_PROFILE
     \<or> 41001 \<le> kind \<and> kind \<le> 41003 \<or> kind = 40099"

subsection \<open>Tags and ids\<close>

text \<open>\<open>hex::decode\<close> of an id: 32 bytes, written back in lower case.\<close>

definition decode_id :: "string \<Rightarrow> string option" where
  "decode_id s = (if is_hex_64 s then Some (map ascii_lower s) else None)"

text \<open>The first \<open>e\<close> tag whose content is 64 hexadecimal digits.\<close>

definition e_tag_hex :: "nostr_tag \<Rightarrow> string option" where
  "e_tag_hex t =
     (if tag_kind t = ''e'' then (case tag_content t of Some v \<Rightarrow> if is_hex_64 v then Some v else None | None \<Rightarrow> None)
      else None)"

definition first_e_tag :: "nostr_event \<Rightarrow> string option" where
  "first_e_tag event = find_map e_tag_hex (ev_tags event)"

definition last_e_tag :: "nostr_event \<Rightarrow> string option" where
  "last_e_tag event = find_map e_tag_hex (rev (ev_tags event))"

definition count_e_tags :: "nostr_event \<Rightarrow> nat" where
  "count_e_tags event = length (filter (\<lambda>t. tag_kind t = ''e'') (ev_tags event))"

subsection \<open>What the database and the process answer\<close>

record thread_row =
  tr_root_event_id :: "string option"
  tr_depth :: int

record channel_row =
  cn_visibility :: string
  cn_archived :: bool

record 'ctx ingest_db = "'ctx text_env" +
  ig_event_by_id :: "uuid \<Rightarrow> string \<Rightarrow> string + StoredEvent option"
  ig_thread_metadata :: "uuid \<Rightarrow> string \<Rightarrow> string + thread_row option"
  ig_is_member :: "uuid \<Rightarrow> uuid \<Rightarrow> string \<Rightarrow> string + bool"
  ig_get_channel :: "uuid \<Rightarrow> uuid \<Rightarrow> channel_row option"
  ig_is_agent_owner :: "uuid \<Rightarrow> string \<Rightarrow> string \<Rightarrow> string + bool"
  ig_relay_key :: string
  ig_from_timestamp :: "int \<Rightarrow> datetime option"
  ig_utc_now :: datetime
  ig_max_not_before_delta :: nat
  ig_debug :: "string list \<Rightarrow> string"

definition channel_open :: "channel_row option \<Rightarrow> bool" where
  "channel_open row \<longleftrightarrow> (case row of Some ch \<Rightarrow> cn_visibility ch = ''open'' | None \<Rightarrow> False)"

definition check_channel_membership ::
  "('ctx, 'm) ingest_db_scheme \<Rightarrow> uuid \<Rightarrow> uuid \<Rightarrow> string \<Rightarrow> channel_row option \<Rightarrow> string + unit" where
  "check_channel_membership E c ch_id pk channel =
     (case ig_is_member E c ch_id pk of
        Inl e \<Rightarrow> Inl (''error: database error: '' @ e)
      | Inr True \<Rightarrow> Inr ()
      | Inr False \<Rightarrow>
          if channel_open (case channel of Some ch \<Rightarrow> Some ch | None \<Rightarrow> ig_get_channel E c ch_id)
          then Inr () else Inl ''restricted: not a channel member'')"

datatype ReactionChannelResult = ReactionChannel uuid | NoChannel | ReactionNotFound | NoTarget | ReactionDbError string

definition derive_reaction_channel ::
  "('ctx, 'm) ingest_db_scheme \<Rightarrow> uuid \<Rightarrow> nostr_event \<Rightarrow> ReactionChannelResult" where
  "derive_reaction_channel E c event =
     (case Option.bind (last_e_tag event) decode_id of
        None \<Rightarrow> NoTarget
      | Some target \<Rightarrow>
          (case ig_event_by_id E c target of
             Inr (Some stored) \<Rightarrow> (case se_channel_id stored of Some ch \<Rightarrow> ReactionChannel ch | None \<Rightarrow> NoChannel)
           | Inr None \<Rightarrow> ReactionNotFound
           | Inl e \<Rightarrow> ReactionDbError e))"

subsection \<open>Threads\<close>

record ThreadMetadataOwned =
  tm_event_id :: string
  tm_event_created_at :: datetime
  tm_channel_id :: uuid
  tm_parent_event_id :: string
  tm_parent_event_created_at :: datetime
  tm_root_event_id :: string
  tm_root_event_created_at :: datetime
  tm_depth :: int
  tm_broadcast :: bool

definition marked_e_tag :: "nostr_tag \<Rightarrow> (string \<times> string) option" where
  "marked_e_tag t = (case tag_slice t of k # v # _ # marker # _ \<Rightarrow> if k = ''e'' then Some (v, marker) else None | _ \<Rightarrow> None)"

text \<open>The last valid \<open>root\<close> tag and the last valid \<open>reply\<close> tag.\<close>

definition nip10_markers :: "nostr_event \<Rightarrow> string option \<times> string option" where
  "nip10_markers event =
     fold (\<lambda>t (root, reply).
       case marked_e_tag t of
         Some (v, marker) \<Rightarrow>
           if \<not> is_hex_64 v then (root, reply)
           else if marker = ''root'' then (Some v, reply)
           else if marker = ''reply'' then (root, Some v)
           else (root, reply)
       | None \<Rightarrow> (root, reply)) (ev_tags event) (None, None)"

definition first_marked :: "string \<Rightarrow> nostr_event \<Rightarrow> string option" where
  "first_marked name event =
     find_map (\<lambda>t. case marked_e_tag t of Some (v, marker) \<Rightarrow> if marker = name then decode_id v else None | None \<Rightarrow> None)
       (ev_tags event)"

definition event_time :: "('ctx, 'm) ingest_db_scheme \<Rightarrow> nostr_event \<Rightarrow> datetime option" where
  "event_time E event = ig_from_timestamp E (i64_wrap (int (ev_created_at event)))"

text \<open>The time of a root event, or that of the parent when it cannot be had.\<close>

definition root_time :: "('ctx, 'm) ingest_db_scheme \<Rightarrow> uuid \<Rightarrow> string \<Rightarrow> datetime \<Rightarrow> datetime" where
  "root_time E c root parent_created =
     (case ig_event_by_id E c root of
        Inr (Some stored) \<Rightarrow> (case event_time E (se_event stored) of Some t \<Rightarrow> t | None \<Rightarrow> parent_created)
      | _ \<Rightarrow> parent_created)"

definition thread_place ::
  "('ctx, 'm) ingest_db_scheme \<Rightarrow> uuid \<Rightarrow> string \<Rightarrow> string \<Rightarrow> nostr_event \<Rightarrow> datetime \<Rightarrow> thread_row option \<Rightarrow>
   string + string \<times> datetime \<times> int" where
  "thread_place E c client_root parent parent_event parent_created meta =
     (case meta of
        Some row \<Rightarrow>
          (let effective_root = (case tr_root_event_id row of Some r \<Rightarrow> r | None \<Rightarrow> parent)
           in if client_root \<noteq> effective_root then Inl ''root tag does not match thread ancestry''
              else if tr_depth row + 1 > 100 then Inl ''thread depth limit exceeded''
              else Inr (effective_root, root_time E c effective_root parent_created, tr_depth row + 1))
      | None \<Rightarrow>
          (let parent_root = (case first_marked ''root'' parent_event of Some r \<Rightarrow> r
                              | None \<Rightarrow> (case first_marked ''reply'' parent_event of Some r \<Rightarrow> r | None \<Rightarrow> parent))
           in if client_root \<noteq> parent_root then Inl ''root tag does not match thread ancestry''
              else Inr (parent_root,
                        (if parent_root \<noteq> parent then root_time E c parent_root parent_created else parent_created),
                        (if parent_root = parent then 1 else 2))))"

definition resolve_nip10_thread_meta ::
  "('ctx, 'm) ingest_db_scheme \<Rightarrow> uuid \<Rightarrow> nostr_event \<Rightarrow> uuid \<Rightarrow> string + ThreadMetadataOwned option" where
  "resolve_nip10_thread_meta E c event channel_id =
     (case (case nip10_markers event of (Some r, Some p) \<Rightarrow> Some (r, p) | (None, Some p) \<Rightarrow> Some (p, p) | _ \<Rightarrow> None) of
        None \<Rightarrow> Inr None
      | Some (root_hex, parent_hex) \<Rightarrow>
          and_then (case decode_id parent_hex of None \<Rightarrow> Inl ''invalid parent event ID hex'' | Some p \<Rightarrow> Inr p) (\<lambda>parent.
          and_then (case ig_event_by_id E c parent of
                      Inl e \<Rightarrow> Inl (''db error looking up parent: '' @ e)
                    | Inr None \<Rightarrow> Inl ''reply parent not found''
                    | Inr (Some stored) \<Rightarrow> Inr stored) (\<lambda>stored.
          and_then (case se_channel_id stored of
                      Some ch \<Rightarrow> if ch \<noteq> channel_id then Inl ''parent event belongs to a different channel'' else Inr ()
                    | None \<Rightarrow> Inl ''parent event has no channel association'') (\<lambda>_.
          and_then (case decode_id root_hex of None \<Rightarrow> Inl ''invalid root event ID hex'' | Some r \<Rightarrow> Inr r) (\<lambda>client_root.
          and_then (case ig_thread_metadata E c parent of
                      Inl e \<Rightarrow> Inl (''db error looking up thread metadata: '' @ e) | Inr m \<Rightarrow> Inr m) (\<lambda>meta.
          (let parent_created = (case event_time E (se_event stored) of Some t \<Rightarrow> t | None \<Rightarrow> ig_utc_now E)
           in and_then (thread_place E c client_root parent (se_event stored) parent_created meta) (\<lambda>(root, root_created, depth).
              Inr (Some \<lparr>tm_event_id = ev_id event,
                tm_event_created_at = (case event_time E event of Some t \<Rightarrow> t | None \<Rightarrow> ig_utc_now E),
                tm_channel_id = channel_id, tm_parent_event_id = parent, tm_parent_event_created_at = parent_created,
                tm_root_event_id = root, tm_root_event_created_at = root_created, tm_depth = depth,
                tm_broadcast = list_ex (\<lambda>t. case tag_slice t of k # v # _ \<Rightarrow> k = ''broadcast'' \<and> v = ''1'' | _ \<Rightarrow> False)
                  (ev_tags event)\<rparr>)))))))))"

subsection \<open>Edits and votes\<close>

definition effective_message_author :: "nostr_event \<Rightarrow> string \<Rightarrow> string" where
  "effective_message_author event relay_pubkey =
     (if ev_pubkey event = relay_pubkey
      then (case Option.bind (find_map (\<lambda>t. if tag_kind t = ''actor'' then tag_content t else None) (ev_tags event)) decode_id of
              Some author \<Rightarrow> author
            | None \<Rightarrow>
                (case find_map (\<lambda>t. if tag_kind t = ''p'' then Option.bind (tag_content t) decode_id else None) (ev_tags event) of
                   Some author \<Rightarrow> author
                 | None \<Rightarrow> ev_pubkey event))
      else ev_pubkey event)"

text \<open>The stored event that the first \<open>e\<close> tag names.\<close>

definition target_event ::
  "('ctx, 'm) ingest_db_scheme \<Rightarrow> uuid \<Rightarrow> nostr_event \<Rightarrow> string \<Rightarrow> string + StoredEvent" where
  "target_event E c event what =
     (case first_e_tag event of
        None \<Rightarrow> Inl (''missing e tag for '' @ what @ '' target'')
      | Some hex \<Rightarrow>
          (case decode_id hex of
             None \<Rightarrow> Inl ''invalid target event ID''
           | Some i \<Rightarrow>
               (case ig_event_by_id E c i of
                  Inl e \<Rightarrow> Inl (''db error: '' @ e)
                | Inr None \<Rightarrow> Inl (what @ '' target event not found'')
                | Inr (Some stored) \<Rightarrow> Inr stored)))"

definition same_channel :: "uuid option \<Rightarrow> uuid option \<Rightarrow> string + unit" where
  "same_channel own other =
     (case (own, other) of
        (Some a, Some b) \<Rightarrow> if a \<noteq> b then Inl ''target event belongs to a different channel'' else Inr ()
      | (Some _, None) \<Rightarrow> Inl ''target event has no channel''
      | _ \<Rightarrow> Inr ())"

definition validate_edit_ownership ::
  "('ctx, 'm) ingest_db_scheme \<Rightarrow> uuid \<Rightarrow> nostr_event \<Rightarrow> string + unit" where
  "validate_edit_ownership E c event =
     and_then (target_event E c event ''edit'') (\<lambda>stored.
     and_then (same_channel (extract_channel_id E event) (se_channel_id stored)) (\<lambda>_.
     let author = effective_message_author (se_event stored) (ig_relay_key E); actor = ev_pubkey event
     in if author = actor
        then (case se_channel_id stored of
                None \<Rightarrow> Inr ()
              | Some ch_id \<Rightarrow>
                  (case ig_is_member E c ch_id actor of
                     Inl e \<Rightarrow> Inl (''db error checking membership: '' @ e)
                   | Inr True \<Rightarrow> Inr ()
                   | Inr False \<Rightarrow> if channel_open (ig_get_channel E c ch_id) then Inr () else Inl ''restricted: not a channel member''))
        else (case ig_is_agent_owner E c author actor of
                Inl e \<Rightarrow> Inl (''db error checking agent ownership: '' @ e)
              | Inr True \<Rightarrow> Inr ()
              | Inr False \<Rightarrow> Inl ''must be event author to edit'')))"

definition validate_forum_vote_target ::
  "('ctx, 'm) ingest_db_scheme \<Rightarrow> uuid \<Rightarrow> nostr_event \<Rightarrow> string + unit" where
  "validate_forum_vote_target E c event =
     and_then (target_event E c event ''vote'') (\<lambda>stored.
     if ev_kind (se_event stored) \<noteq> KIND_FORUM_POST \<and> ev_kind (se_event stored) \<noteq> KIND_FORUM_COMMENT
     then Inl ''vote target must be a forum post or comment''
     else same_channel (extract_channel_id E event) (se_channel_id stored))"

subsection \<open>Envelopes\<close>

definition lower_hex_64 :: "string \<Rightarrow> bool" where
  "lower_hex_64 v \<longleftrightarrow> length v = 64 \<and> list_all (\<lambda>c. is_ascii_hexdigit c \<and> ascii_lower c = c) v"

fun diff_tags_loop :: "bool \<Rightarrow> bool \<Rightarrow> nostr_tag list \<Rightarrow> string + bool \<times> bool" where
  "diff_tags_loop has_repo has_commit [] = Inr (has_repo, has_commit)"
| "diff_tags_loop has_repo has_commit (t # ts) =
     (case tag_slice t of
        k # v # rest \<Rightarrow>
          (if k = ''repo'' then
             (if \<not> starts_with v ''http://'' \<and> \<not> starts_with v ''https://'' then Inl ''repo URL must be http or https''
              else diff_tags_loop True has_commit ts)
           else if k = ''commit'' then
             (if length v < 7 \<or> \<not> list_all is_ascii_hexdigit v then Inl ''commit SHA must be at least 7 hex characters''
              else diff_tags_loop has_repo True ts)
           else if k = ''parent-commit'' then
             (if length v < 7 \<or> \<not> list_all is_ascii_hexdigit v then Inl ''parent-commit SHA must be at least 7 hex characters''
              else diff_tags_loop has_repo has_commit ts)
           else if k = ''branch'' \<and> (rest = [] \<or> v = [] \<or> hd rest = []) then Inl ''branch tag requires both source and target''
           else if k = ''pr'' \<and> (case parse_u32 v of Some n \<Rightarrow> n = 0 | None \<Rightarrow> True) then Inl ''pr number must be a positive integer''
           else diff_tags_loop has_repo has_commit ts)
      | _ \<Rightarrow> diff_tags_loop has_repo has_commit ts)"

definition validate_diff_event :: "nostr_event \<Rightarrow> string + unit" where
  "validate_diff_event event =
     (if length (ev_content event) > 61440
      then Inl (''diff content exceeds 60KB limit (got '' @ dec (length (ev_content event)) @ '' bytes)'')
      else and_then (diff_tags_loop False False (ev_tags event)) (\<lambda>(has_repo, has_commit).
        if \<not> has_repo then Inl ''diff event requires a repo tag''
        else if \<not> has_commit then Inl ''diff event requires a commit tag''
        else Inr ()))"

definition tag_values :: "string \<Rightarrow> nostr_event \<Rightarrow> string list" where
  "tag_values name event =
     List.map_filter (\<lambda>t. case tag_slice t of k # v # _ \<Rightarrow> if k = name then Some v else None | _ \<Rightarrow> None) (ev_tags event)"

definition b64_val :: "char \<Rightarrow> 8 word option" where
  "b64_val ch =
     (let c = (of_char ch :: nat)
      in if 65 \<le> c \<and> c \<le> 90 then Some (of_nat (c - 65))
         else if 97 \<le> c \<and> c \<le> 122 then Some (of_nat (c - 97 + 26))
         else if 48 \<le> c \<and> c \<le> 57 then Some (of_nat (c - 48 + 52))
         else if ch = CHR ''+'' then Some 62
         else if ch = CHR ''/'' then Some 63
         else None)"

fun b64_loop :: "nat \<Rightarrow> nat \<Rightarrow> nat \<Rightarrow> string \<Rightarrow> string + nat" where
  "b64_loop len i pad_count [] = Inr pad_count"
| "b64_loop len i pad_count (b # bs) =
     (if b64_val b \<noteq> None then
        (if pad_count > 0 then Inl ''agent-engram content is not valid base64'' else b64_loop len (i + 1) pad_count bs)
      else if b = CHR ''='' then
        (if i < len - 2 then Inl ''agent-engram content is not valid base64''
         else if pad_count + 1 > 2 then Inl ''agent-engram content is not valid base64''
         else b64_loop len (i + 1) (pad_count + 1) bs)
      else Inl ''agent-engram content is not valid base64'')"

definition first_b64_byte :: "string \<Rightarrow> 8 word option" where
  "first_b64_byte content =
     (case content of
        c0 # c1 # _ \<Rightarrow>
          (case (b64_val c0, b64_val c1) of
             (Some v0, Some v1) \<Rightarrow> Some (or (push_bit 2 v0) (drop_bit 4 v1))
           | _ \<Rightarrow> None)
      | _ \<Rightarrow> None)"

definition validate_engram_nip44_content :: "string \<Rightarrow> string + unit" where
  "validate_engram_nip44_content content =
     (let len = length content
      in if content = [] then Inl ''agent-engram content must not be empty (NIP-44 ciphertext)''
         else if len mod 4 \<noteq> 0 then Inl ''agent-engram content is not valid base64 (length)''
         else and_then (b64_loop len 0 0 content) (\<lambda>pad_count.
           if len div 4 * 3 - pad_count < 99 then Inl ''agent-engram content too short for NIP-44 v2''
           else case first_b64_byte content of
                  None \<Rightarrow> Inl ''agent-engram content is not valid base64''
                | Some first_byte \<Rightarrow>
                    if first_byte \<noteq> 2 then Inl ''agent-engram content is not NIP-44 v2 (expected 0x02 version prefix)''
                    else Inr ()))"

definition one_tag :: "string \<Rightarrow> string \<Rightarrow> nostr_event \<Rightarrow> string + string" where
  "one_tag what name event =
     (case tag_values name event of
        [v] \<Rightarrow> Inr v
      | vs \<Rightarrow> Inl (what @ '' event must have exactly one '' @ ticked name @ '' tag (got '' @ dec (length vs) @ '')''))"

definition validate_engram_envelope :: "nostr_event \<Rightarrow> string + unit" where
  "validate_engram_envelope event =
     and_then (one_tag ''agent-engram'' ''d'' event) (\<lambda>d.
     and_then (one_tag ''agent-engram'' ''p'' event) (\<lambda>p.
     if \<not> lower_hex_64 d then Inl (''agent-engram '' @ ticked ''d'' @ '' tag must be 64 lowercase hex chars'')
     else if \<not> lower_hex_64 p then Inl (''agent-engram '' @ ticked ''p'' @ '' tag must be 64 lowercase hex chars (pubkey)'')
     else validate_engram_nip44_content (ev_content event)))"

text \<open>Every message of the check of the content starts with \<open>agent-engram\<close> and has it once.\<close>

definition renamed :: "string \<Rightarrow> string" where
  "renamed e = ''agent-turn-metric'' @ drop (length ''agent-engram'') e"

definition validate_agent_turn_metric_envelope :: "nostr_event \<Rightarrow> string + unit" where
  "validate_agent_turn_metric_envelope event =
     (if tag_values ''h'' event \<noteq> []
      then Inl (''agent-turn-metric event must not have an '' @ ticked ''h'' @ '' tag (channel identity belongs inside the encrypted payload)'')
      else and_then (one_tag ''agent-turn-metric'' ''p'' event) (\<lambda>p.
        if \<not> lower_hex_64 p then Inl (''agent-turn-metric '' @ ticked ''p'' @ '' tag must be 64 lowercase hex chars'')
        else and_then (one_tag ''agent-turn-metric'' ''agent'' event) (\<lambda>agent.
          if \<not> lower_hex_64 agent then Inl (''agent-turn-metric '' @ ticked ''agent'' @ '' tag must be 64 lowercase hex chars'')
          else if agent \<noteq> ev_pubkey event then Inl (''agent-turn-metric '' @ ticked ''agent'' @ '' tag must equal event pubkey'')
          else map_sum renamed id (validate_engram_nip44_content (ev_content event)))))"

fun persona_tags_loop ::
  "('ctx, 'm) ingest_db_scheme \<Rightarrow> string list \<Rightarrow> nat \<Rightarrow> nostr_tag list \<Rightarrow> string + string list \<times> nat" where
  "persona_tags_loop E d_tags shared_count [] = Inr (d_tags, shared_count)"
| "persona_tags_loop E d_tags shared_count (t # ts) =
     (let parts = tag_slice t;
          d_tags' = (case parts of k # v # _ \<Rightarrow> if k = ''d'' then d_tags @ [v] else d_tags | _ \<Rightarrow> d_tags)
      in if slice_head t = Some ''shared'' then
           (if length parts \<noteq> 2 \<or> slice_second t \<noteq> Some ''true''
            then Inl (''persona event '' @ ticked ''shared'' @ '' tag must be exactly [\"shared\",\"true\"] (got '' @ ig_debug E parts @ '')'')
            else persona_tags_loop E d_tags' (shared_count + 1) ts)
         else persona_tags_loop E d_tags' shared_count ts)"

definition slug_first :: "char \<Rightarrow> bool" where
  "slug_first c \<longleftrightarrow> 97 \<le> (of_char c :: nat) \<and> (of_char c :: nat) \<le> 122 \<or> is_digit c"

definition slug_rest :: "char \<Rightarrow> bool" where
  "slug_rest c \<longleftrightarrow> slug_first c \<or> c = CHR ''_'' \<or> c = CHR ''-''"

definition validate_persona_envelope :: "('ctx, 'm) ingest_db_scheme \<Rightarrow> nostr_event \<Rightarrow> string + unit" where
  "validate_persona_envelope E event =
     and_then (persona_tags_loop E [] 0 (ev_tags event)) (\<lambda>(d_tags, shared_count).
     if shared_count > 1
     then Inl (''persona event must have at most one '' @ ticked ''shared'' @ '' tag (got '' @ dec shared_count @ '')'')
     else case d_tags of
       [d] \<Rightarrow>
         (if d = [] then Inl (''persona event '' @ ticked ''d'' @ '' tag must not be empty'')
          else if length d > 64
          then Inl (''persona event '' @ ticked ''d'' @ '' tag too long ('' @ dec (length d) @ '' chars, max 64)'')
          else if \<not> slug_first (hd d)
          then Inl (''persona event '' @ ticked ''d'' @ '' tag must start with a lowercase letter or digit'')
          else if \<not> list_all slug_rest (tl d)
          then Inl (''persona event '' @ ticked ''d'' @ '' tag must match [a-z0-9_-] after the first character'')
          else Inr ())
     | _ \<Rightarrow> Inl (''persona event must have exactly one '' @ ticked ''d'' @ '' tag (got '' @ dec (length d_tags) @ '')''))"

definition MAX_NOT_BEFORE :: nat where "MAX_NOT_BEFORE = 9007199254740991"

definition validate_not_before :: "string \<Rightarrow> string + nat" where
  "validate_not_before v =
     (if v = [] \<or> \<not> list_all is_digit v then Inl ''malformed not_before''
      else if length v > 1 \<and> starts_with v ''0'' then Inl ''malformed not_before''
      else case parse_u64 v of
             None \<Rightarrow> Inl ''malformed not_before''
           | Some n \<Rightarrow> if n > MAX_NOT_BEFORE then Inl ''malformed not_before'' else Inr n)"

fun reminder_loop ::
  "nat option \<Rightarrow> string option \<Rightarrow> nat \<Rightarrow> bool \<Rightarrow> nostr_tag list \<Rightarrow> string + nat option \<times> string option \<times> nat \<times> bool" where
  "reminder_loop not_before expiration d_count d_empty [] = Inr (not_before, expiration, d_count, d_empty)"
| "reminder_loop not_before expiration d_count d_empty (t # ts) =
     (case tag_slice t of
        k # v # _ \<Rightarrow>
          (if k = ''not_before'' then
             (if not_before \<noteq> None then Inl ''malformed not_before''
              else case validate_not_before v of
                     Inl e \<Rightarrow> Inl e
                   | Inr n \<Rightarrow> reminder_loop (Some n) expiration d_count d_empty ts)
           else if k = ''expiration'' then reminder_loop not_before (Some v) d_count d_empty ts
           else if k = ''d'' then reminder_loop not_before expiration (min 255 (d_count + 1)) (d_empty \<or> v = []) ts
           else reminder_loop not_before expiration d_count d_empty ts)
      | _ \<Rightarrow> reminder_loop not_before expiration d_count d_empty ts)"

definition validate_event_reminder :: "('ctx, 'm) ingest_db_scheme \<Rightarrow> nat \<Rightarrow> nostr_event \<Rightarrow> string + unit" where
  "validate_event_reminder E now event =
     and_then (reminder_loop None None 0 False (ev_tags event)) (\<lambda>(not_before, expiration, d_count, d_empty).
     if d_count = 0 then Inl ''missing d tag''
     else if d_count > 1 then Inl ''duplicate d tag''
     else if d_empty then Inl ''empty d tag''
     else case not_before of
            None \<Rightarrow> Inr ()
          | Some nb \<Rightarrow>
              if nb > now + ig_max_not_before_delta E then Inl ''not_before too far in future''
              else (case expiration of
                      None \<Rightarrow> Inr ()
                    | Some e \<Rightarrow> (case parse_u64 e of
                        Some x \<Rightarrow> if x \<le> nb then Inl ''expiration before not_before'' else Inr ()
                      | None \<Rightarrow> Inr ())))"

end
