(* ===== verification/Ingest.thy ===== *)
theory Ingest
  imports Ingest_Rules Git_Perms
begin

text \<open>
  The ingestion of one event: \<open>ingest_event\<close> of \<open>buzz-relay/src/handlers/ingest.rs\<close>, the single way from a web
  socket or an HTTP request into the store, with the trace it leaves for the conformance checker
  (\<open>buzz-relay/src/conformance/mod.rs\<close>).

  The pipeline is a sequence of steps on a state: the moderation tables, the archived identities, the effects so far
  and the trace of the request. A step goes on, returns from the function, or panics. Reports, moderation commands
  and identity archival are the models of their handlers; the handlers of other kinds, the storage
  statements, media checks and side effects answer from an environment, and what was asked of them is an
  effect. Metrics and logs are left out.

  The second half is about runs: the locale \<open>step_relation\<close> lifts a relation of states from steps to
  sequences (\<open>quiet\<close>: nothing is stored, \<open>traced\<close>: the trace grows), \<open>later_ingest\<close> and \<open>accepted_gate\<close> invert a run that
  stores or is accepted, and a small relay (\<open>demo_ingest_env\<close>) runs concrete requests.
\<close>

subsection \<open>The trace\<close>

definition state_for_request :: "TenantContext \<Rightarrow> string \<Rightarrow> AbstractState" where
  "state_for_request tenant pk =
     \<lparr>resolved_community = tn_community tenant, bound_host = tn_host tenant, actor = take 16 pk\<rparr>"

definition msg_id_label :: "string \<Rightarrow> string" where "msg_id_label event_id = take 16 event_id"

definition claimed_community_from_event :: "('ctx, 'm) text_env_scheme \<Rightarrow> nostr_event \<Rightarrow> uuid option" where
  "claimed_community_from_event E event =
     (case find (\<lambda>t. slice_head t = Some ''h'') (ev_tags event) of
        None \<Rightarrow> None
      | Some t \<Rightarrow> (case slice_second t of
                    Some v \<Rightarrow> (case parse_uuid E v of Inr u \<Rightarrow> Some u | Inl _ \<Rightarrow> None)
                  | None \<Rightarrow> None))"

fun sanitized_reason_for :: "IngestError \<Rightarrow> SanitizedReason" where
  "sanitized_reason_for (Rejected _) = Invalid"
| "sanitized_reason_for (AuthFailed _) = Restricted"
| "sanitized_reason_for (IngestError.Internal _) = ServerError"

subsection \<open>State, effects and steps\<close>

datatype RemoveResult = Removed | IsOwner | NotMember | RoleMismatch

datatype AcceptError = Validation string | LeaseInternal string

datatype AcceptLeaseOutcome =
    LeaseAccepted | StaleEvent | StaleGeneration | EndpointAlreadyLeased | LeaseQuotaExceeded | SourceEventCollision
  | ConstraintViolation

datatype ReactionEventInsertOutcome = TargetMissing | ReactionDuplicate | ReactionInserted bool

datatype insert_error = AuthEventRejected | OtherInsertError string

record ThreadedChannelVisibility =
  tv_community :: uuid
  tv_channel :: uuid
  tv_visibility :: string

datatype ingest_effect =
    CommandRun nostr_event
  | FeedbackStored nostr_event
  | Moderated "mod_effect list"
  | RelayAdminRun nostr_event
  | MemberRemoved uuid string
  | Noticed "notice list"
  | ChannelCreated uuid uuid string
  | ChannelDeleted uuid uuid
  | LeaseStored nostr_event
  | EventStored uuid nostr_event "uuid option" "ThreadMetadataOwned option"
  | ReactionStored uuid nostr_event "uuid option" string string string
  | SideEffects nat
  | ThreadSummary uuid string
  | Dispatched uuid nostr_event "ThreadedChannelVisibility option"

record ingest_state =
  is_mod :: mod_db
  is_archive :: "archived_row list"
  is_effects :: "ingest_effect list"
  is_trace :: "TraceStep list"

record 'ctx ingest_env = "'ctx ingest_db" +
  ig_auth :: auth_env
  ig_verify_panics :: bool
  ig_verification_text :: "VerificationError \<Rightarrow> string"
  ig_moderation :: mod_env
  ig_gate_fault :: "string option"
  ig_archival :: archive_env
  ig_command :: "IngestAuth \<Rightarrow> nostr_event \<Rightarrow> IngestError + IngestResult"
  ig_feedback :: "nostr_event \<Rightarrow> string + unit"
  ig_relay_admin :: "nostr_event \<Rightarrow> string + unit"
  ig_require_membership :: bool
  ig_remove_member :: "uuid \<Rightarrow> string \<Rightarrow> string + RemoveResult"
  ig_validate_admin :: "nostr_event \<Rightarrow> string + unit"
  ig_validate_deletion :: "nostr_event \<Rightarrow> string + unit"
  ig_cached_visibility :: "uuid \<Rightarrow> uuid \<Rightarrow> string option"
  ig_ttl_override :: "int option"
  ig_create_channel :: "uuid \<Rightarrow> uuid \<Rightarrow> string \<Rightarrow> ChannelType \<Rightarrow> ChannelVisibility \<Rightarrow> string option \<Rightarrow> string \<Rightarrow>
    int option \<Rightarrow> string + bool"
  ig_accept_lease :: "nostr_event \<Rightarrow> AcceptError + AcceptLeaseOutcome"
  ig_check_imeta :: "string list list \<Rightarrow> string + unit"
  ig_is_json :: "string \<Rightarrow> bool"
  ig_insert_reaction :: "nostr_event \<Rightarrow> string + ReactionEventInsertOutcome"
  ig_replace :: "nostr_event \<Rightarrow> string + bool"
  ig_insert :: "nostr_event \<Rightarrow> insert_error + bool"

datatype 'a flow = Go 'a | Return "IngestError + IngestResult" | Panic

type_synonym 'a step = "ingest_state \<Rightarrow> 'a flow \<times> ingest_state"

definition step_bind :: "'a step \<Rightarrow> ('a \<Rightarrow> 'b step) \<Rightarrow> 'b step" where
  "step_bind m f s = (case m s of (Go x, s') \<Rightarrow> f x s' | (Return r, s') \<Rightarrow> (Return r, s') | (Panic, s') \<Rightarrow> (Panic, s'))"

definition go :: "'a \<Rightarrow> 'a step" where "go x s = (Go x, s)"

definition stop :: "IngestError + IngestResult \<Rightarrow> 'a step" where "stop r s = (Return r, s)"

definition ques :: "('e \<Rightarrow> IngestError) \<Rightarrow> 'e + 'a \<Rightarrow> 'a step" where
  "ques err r = (case r of Inl e \<Rightarrow> stop (Inl (err e)) | Inr x \<Rightarrow> go x)"

definition refuse_if :: "bool \<Rightarrow> IngestError \<Rightarrow> unit step" where
  "refuse_if b e = (if b then stop (Inl e) else go ())"

definition effect :: "ingest_effect \<Rightarrow> unit step" where
  "effect x s = (Go (), s\<lparr>is_effects := is_effects s @ [x]\<rparr>)"

definition emit :: "AbstractState \<Rightarrow> TraceAction \<Rightarrow> unit step" where
  "emit st a s = (Go (), s\<lparr>is_trace := is_trace s @ [TraceStep_new a st]\<rparr>)"

definition ok_result :: "nostr_event \<Rightarrow> bool \<Rightarrow> string \<Rightarrow> IngestError + IngestResult" where
  "ok_result event acc m = Inr \<lparr>ir_event_id = ev_id event, ir_accepted = acc, ir_message = m\<rparr>"

definition rejected_as :: "string \<Rightarrow> string \<Rightarrow> IngestError" where
  "rejected_as p e = Rejected (p @ e)"

subsection \<open>Before the event is routed\<close>

definition MAX_TIMESTAMP_DRIFT_SECS :: int where "MAX_TIMESTAMP_DRIFT_SECS = 900"
definition MAX_EVENT_CONTENT_BYTES :: nat where "MAX_EVENT_CONTENT_BYTES = 262144"

definition check_submission ::
  "('ctx, 'm) ingest_env_scheme \<Rightarrow> nat \<Rightarrow> IngestAuth \<Rightarrow> signed_event \<Rightarrow> IngestError + unit" where
  "check_submission E secs auth sev =
     (let event = nostr_event.truncate sev; k = ev_kind event in
      if k = KIND_AUTH then Inl (Rejected ''invalid: AUTH events cannot be submitted'')
      else if k = KIND_MEMBER_ADDED_NOTIFICATION \<or> k = KIND_MEMBER_REMOVED_NOTIFICATION
      then Inl (Rejected ''invalid: membership notifications are relay-signed only'')
      else if is_http auth \<and> (k = KIND_GIFT_WRAP \<or> k = KIND_PRESENCE_UPDATE)
      then Inl (Rejected (''invalid: kind '' @ dec k @ '' is only accepted via WebSocket''))
      else if is_relay_only_kind k then Inl (Rejected ''restricted: relay-only kind'')
      else if ig_verify_panics E then Inl (IngestError.Internal ''error: internal verification error'')
      else case verify_event (ig_auth E) sev of
             Inl e \<Rightarrow> Inl (rejected_as ''invalid: '' (ig_verification_text E e))
           | Inr _ \<Rightarrow>
      if out_of_range MAX_TIMESTAMP_DRIFT_SECS secs (ev_created_at event)
      then Inl (Rejected ''invalid: event timestamp too far from server time'')
      else if length (ev_content event) > MAX_EVENT_CONTENT_BYTES
      then Inl (Rejected (''invalid: content exceeds maximum size of '' @ dec MAX_EVENT_CONTENT_BYTES @ '' bytes (got ''
             @ dec (length (ev_content event)) @ '')''))
      else if ev_pubkey event \<noteq> pubkey auth \<and> k \<noteq> KIND_GIFT_WRAP
      then Inl (AuthFailed ''invalid: event pubkey does not match authenticated identity'')
      else case required_scope_for_kind k event of
             Inl m \<Rightarrow> Inl (Rejected m)
           | Inr required \<Rightarrow>
      if is_relay_admin_kind k \<and> channel_ids auth \<noteq> None
      then Inl (AuthFailed ''restricted: relay admin commands require a global token, not a channel-scoped token'')
      else if k = KIND_NIP43_LEAVE_REQUEST \<and> channel_ids auth \<noteq> None
      then Inl (AuthFailed ''restricted: leave requests require a global token'')
      else if required \<notin> set (scopes auth)
      then Inl (AuthFailed (''restricted: insufficient scope (need '' @ scope_as_str required @ '')''))
      else Inr ())"

subsection \<open>Kinds that are handled directly\<close>

definition product_feedback :: "('ctx, 'm) ingest_env_scheme \<Rightarrow> AbstractState \<Rightarrow> nostr_event \<Rightarrow> unit step" where
  "product_feedback E st event =
     step_bind (ques Rejected (ig_feedback E event)) (\<lambda>_.
     step_bind (effect (FeedbackStored event)) (\<lambda>_.
     step_bind (emit st (WriteInsertGlobal (msg_id_label (ev_id event)) (claimed_community_from_event E event))) (\<lambda>_.
     stop (ok_result event True []))))"

definition report_event ::
  "('ctx, 'm) ingest_env_scheme \<Rightarrow> nat \<Rightarrow> uuid \<Rightarrow> uuid \<Rightarrow> nostr_event \<Rightarrow> unit step" where
  "report_event E now new_id c event s =
     (case handle_report_event (ig_moderation E) now new_id c event (is_mod s) of
        (r, db) \<Rightarrow> step_bind (ques Rejected r) (\<lambda>_. stop (ok_result event True [])) (s\<lparr>is_mod := db\<rparr>))"

definition moderation_command ::
  "('ctx, 'm) ingest_env_scheme \<Rightarrow> nat \<Rightarrow> uuid \<Rightarrow> uuid \<Rightarrow> nostr_event \<Rightarrow> unit step" where
  "moderation_command E now new_id c event s =
     (case handle_moderation_command (ig_moderation E) now new_id c event (is_mod s) of
        (r, effs, db) \<Rightarrow>
          step_bind (effect (Moderated effs)) (\<lambda>_. step_bind (ques Rejected r) (\<lambda>_. stop (ok_result event True [])))
            (s\<lparr>is_mod := db\<rparr>))"

definition route_directly ::
  "('ctx, 'm) ingest_env_scheme \<Rightarrow> nat \<Rightarrow> uuid \<Rightarrow> TenantContext \<Rightarrow> AbstractState \<Rightarrow> IngestAuth \<Rightarrow> nostr_event \<Rightarrow> unit step" where
  "route_directly E now new_id tenant st auth event =
     (if is_command_kind (ev_kind event)
      then step_bind (effect (CommandRun event)) (\<lambda>_. stop (ig_command E auth event))
      else if ev_kind event = KIND_PRODUCT_FEEDBACK then product_feedback E st event
      else if ev_kind event = KIND_REPORT then report_event E now new_id (tn_community tenant) event
      else if is_moderation_command_kind (ev_kind event)
      then moderation_command E now new_id (tn_community tenant) event
      else go ())"

definition write_block ::
  "('ctx, 'm) ingest_env_scheme \<Rightarrow> nat \<Rightarrow> uuid \<Rightarrow> IngestAuth \<Rightarrow> nostr_event \<Rightarrow> unit step" where
  "write_block E now c auth event s =
     (if is_moderation_command_kind (ev_kind event) \<or> is_relay_admin_kind (ev_kind event) then go () s
      else case ig_gate_fault E of
             Some e \<Rightarrow> stop (Inl (IngestError.Internal (''error: internal error checking restriction state: '' @ e))) s
           | None \<Rightarrow>
               (let r = restriction_state now c (pubkey auth) (is_mod s)
                in if rs_banned r then stop (Inl (AuthFailed ''blocked: you are banned from this community'')) s
                   else case rs_muted_until r of
                          Some until \<Rightarrow>
                            if until > int now
                            then stop (Inl (AuthFailed (''restricted: you are timed out until '' @ int_text (until div 1000000)))) s
                            else go () s
                        | None \<Rightarrow> go () s))"

subsection \<open>The channel of an event\<close>

definition reaction_channel :: "('ctx, 'm) ingest_env_scheme \<Rightarrow> uuid \<Rightarrow> nostr_event \<Rightarrow> IngestError + uuid option" where
  "reaction_channel E c event =
     (case derive_reaction_channel E c event of
        ReactionChannel ch \<Rightarrow> Inr (Some ch)
      | NoChannel \<Rightarrow> Inr None
      | ReactionNotFound \<Rightarrow> Inl (Rejected ''invalid: reaction target event not found'')
      | NoTarget \<Rightarrow> Inl (Rejected ''invalid: reaction must reference a target event via e tag'')
      | ReactionDbError e \<Rightarrow> Inl (IngestError.Internal (''error: internal error looking up reaction target: '' @ e)))"

definition deletion_channel :: "('ctx, 'm) ingest_env_scheme \<Rightarrow> uuid \<Rightarrow> nostr_event \<Rightarrow> IngestError + uuid option" where
  "deletion_channel E c event =
     (case first_e_tag event of
        None \<Rightarrow> Inr None
      | Some hex \<Rightarrow>
          (case decode_id hex of
             None \<Rightarrow> Inl (Rejected ''invalid: malformed deletion target id'')
           | Some i \<Rightarrow>
               (case ig_event_by_id E c i of
                  Inr (Some stored) \<Rightarrow> Inr (se_channel_id stored)
                | Inr None \<Rightarrow> Inr None
                | Inl e \<Rightarrow> Inl (IngestError.Internal (''error: looking up deletion target: '' @ e)))))"

definition event_channel :: "('ctx, 'm) ingest_env_scheme \<Rightarrow> uuid \<Rightarrow> nostr_event \<Rightarrow> IngestError + uuid option" where
  "event_channel E c event =
     map_sum id (\<lambda>ch. if is_global_only_kind (ev_kind event) then None else ch)
       (if ev_kind event = KIND_REACTION then reaction_channel E c event
        else if ev_kind event = KIND_GIFT_WRAP then Inr None
        else if ev_kind event = KIND_DELETION then deletion_channel E c event
        else Inr (extract_channel_id E event))"

definition check_channel_scope :: "IngestAuth \<Rightarrow> nostr_event \<Rightarrow> uuid option \<Rightarrow> IngestError + unit" where
  "check_channel_scope auth event channel_id =
     (if requires_h_channel_scope (ev_kind event) \<and> channel_id = None
      then Inl (Rejected ''invalid: channel-scoped events must include an h tag'')
      else case channel_id of
             Some ch_id \<Rightarrow> map_sum AuthFailed id (check_token_channel_access auth ch_id)
           | None \<Rightarrow> if channel_ids auth \<noteq> None
                     then Inl (AuthFailed ''restricted: channel-scoped tokens cannot publish global events'') else Inr ())"

definition threaded_visibility ::
  "('ctx, 'm) ingest_env_scheme \<Rightarrow> uuid \<Rightarrow> uuid option \<Rightarrow> channel_row option \<Rightarrow> ThreadedChannelVisibility option" where
  "threaded_visibility E c channel_id channel =
     (case (channel_id, channel) of
        (Some ch_id, Some row) \<Rightarrow>
          Some \<lparr>tv_community = c, tv_channel = ch_id,
            tv_visibility = (case ig_cached_visibility E c ch_id of Some v \<Rightarrow> v | None \<Rightarrow> cn_visibility row)\<rparr>
      | _ \<Rightarrow> None)"

definition skip_membership :: "nat \<Rightarrow> bool" where
  "skip_membership k \<longleftrightarrow>
     k = KIND_NIP29_JOIN_REQUEST \<or> k = KIND_NIP29_CREATE_GROUP \<or> k = KIND_STREAM_MESSAGE_EDIT \<or>
     k = KIND_NIP29_EDIT_METADATA \<or> k = KIND_NIP29_DELETE_EVENT \<or> k = KIND_NIP29_DELETE_GROUP"

definition membership_gate ::
  "('ctx, 'm) ingest_env_scheme \<Rightarrow> uuid \<Rightarrow> AbstractState \<Rightarrow> IngestAuth \<Rightarrow> nostr_event \<Rightarrow> uuid option \<Rightarrow>
   channel_row option \<Rightarrow> unit step" where
  "membership_gate E c st auth event channel_id channel =
     (case channel_id of
        Some ch_id \<Rightarrow>
          if skip_membership (ev_kind event) then go ()
          else (let r = check_channel_membership E c ch_id (pubkey auth) channel
                in step_bind (emit st (AuthCheck ch_id (claimed_community_from_event E event)
                     (case r of Inr _ \<Rightarrow> Allow | Inl _ \<Rightarrow> Deny))) (\<lambda>_. ques Rejected r))
      | None \<Rightarrow> go ())"

subsection \<open>Kinds that are not stored\<close>

definition relay_admin_event :: "('ctx, 'm) ingest_env_scheme \<Rightarrow> nostr_event \<Rightarrow> unit step" where
  "relay_admin_event E event =
     (if is_relay_admin_kind (ev_kind event)
      then step_bind (effect (RelayAdminRun event)) (\<lambda>_.
           step_bind (ques (rejected_as ''invalid: '') (ig_relay_admin E event)) (\<lambda>_.
           stop (ok_result event True [])))
      else go ())"

definition leave_request :: "('ctx, 'm) ingest_env_scheme \<Rightarrow> nat \<Rightarrow> uuid \<Rightarrow> nostr_event \<Rightarrow> unit step" where
  "leave_request E secs c event =
     (if ev_kind event \<noteq> KIND_NIP43_LEAVE_REQUEST then go ()
      else
        step_bind (refuse_if (\<not> ig_require_membership E) (Rejected ''invalid: relay membership is not enabled'')) (\<lambda>_.
        step_bind (refuse_if (out_of_range 120 secs (ev_created_at event))
          (Rejected (''invalid: leave request timestamp out of range (delta=''
             @ int_text (i64_wrap (i64_wrap (int (ev_created_at event)) - int secs)) @ ''s, max '' @ [CHR 0xC2, CHR 0xB1] @ ''120s)''))) (\<lambda>_.
        step_bind (refuse_if (\<not> list_ex (\<lambda>t. slice_head t = Some ''-'') (ev_tags event))
          (Rejected ''invalid: leave request must include NIP-70 protected event tag [\"-\"]'')) (\<lambda>_.
        step_bind (ques (\<lambda>e. IngestError.Internal (''database error: '' @ e)) (ig_remove_member E c (ev_pubkey event))) (\<lambda>r.
        case r of
          Removed \<Rightarrow> step_bind (effect (MemberRemoved c (ev_pubkey event))) (\<lambda>_.
                     stop (ok_result event True ''info: you have left this relay''))
        | NotMember \<Rightarrow> stop (Inl (Rejected ''invalid: you are not a relay member''))
        | IsOwner \<Rightarrow> stop (Inl (Rejected ''invalid: relay owner cannot leave''))
        | RoleMismatch \<Rightarrow> stop (Inl (IngestError.Internal ''unexpected RoleMismatch from remove_relay_member'')))))))"

subsection \<open>The rules of a kind\<close>

definition check_when :: "bool \<Rightarrow> string + unit \<Rightarrow> unit step" where
  "check_when b r = (if b then ques (rejected_as ''invalid: '') r else go ())"

definition archive_request :: "('ctx, 'm) ingest_env_scheme \<Rightarrow> nat \<Rightarrow> uuid \<Rightarrow> nostr_event \<Rightarrow> unit step" where
  "archive_request E secs c event s =
     (if is_identity_archive_request_kind (ev_kind event)
      then (case handle_identity_archive_event (ig_archival E) secs c event (is_archive s) of
              (Inl e, rows) \<Rightarrow> stop (Inl (rejected_as ''invalid: '' e)) (s\<lparr>is_archive := rows\<rparr>)
            | (Inr notices, rows) \<Rightarrow> effect (Noticed notices) (s\<lparr>is_archive := rows\<rparr>))
      else go () s)"

definition check_archived :: "nostr_event \<Rightarrow> uuid option \<Rightarrow> channel_row option \<Rightarrow> unit step" where
  "check_archived event channel_id channel =
     (let is_unarchive = (ev_kind event = KIND_NIP29_EDIT_METADATA \<and>
            list_ex (\<lambda>t. case tag_slice t of k # v # _ \<Rightarrow> k = ''archived'' \<and> v = ''false'' | _ \<Rightarrow> False) (ev_tags event))
      in refuse_if (channel_id \<noteq> None \<and> \<not> is_unarchive \<and> (case channel of Some row \<Rightarrow> cn_archived row | None \<Rightarrow> False))
           (Rejected ''invalid: channel is archived''))"

definition check_deletion_target :: "nostr_event \<Rightarrow> unit step" where
  "check_deletion_target event =
     (let e_count = count_e_tags event; a_count = length (filter (\<lambda>t. tag_kind t = ''a'') (ev_tags event))
      in refuse_if ((ev_kind event = KIND_NIP29_DELETE_EVENT \<or> ev_kind event = KIND_DELETION) \<and> e_count + a_count \<noteq> 1)
           (Rejected (''invalid: deletion events must reference exactly one target via e or a tag (got e='' @ dec e_count
             @ '', a='' @ dec a_count @ '')'')))"

definition check_turn_metric :: "('ctx, 'm) ingest_env_scheme \<Rightarrow> uuid \<Rightarrow> nostr_event \<Rightarrow> unit step" where
  "check_turn_metric E c event =
     (if ev_kind event \<noteq> KIND_AGENT_TURN_METRIC then go ()
      else
        step_bind (check_when True (validate_agent_turn_metric_envelope event)) (\<lambda>_.
        case tag_values ''p'' event of
          [] \<Rightarrow> (\<lambda>s. (Panic, s))
        | owner # _ \<Rightarrow>
            step_bind (ques (\<lambda>e. IngestError.Internal (''error: db error checking agent-turn-metric ownership: '' @ e))
              (ig_is_agent_owner E c (ev_pubkey event) owner)) (\<lambda>is_owner.
            refuse_if (\<not> is_owner) (AuthFailed (''restricted: agent-turn-metric '' @ ticked ''p''
              @ '' tag must be the registered owner of this agent'')))))"

definition kind_rules ::
  "('ctx, 'm) ingest_env_scheme \<Rightarrow> nat \<Rightarrow> uuid \<Rightarrow> nostr_event \<Rightarrow> uuid option \<Rightarrow> channel_row option \<Rightarrow> unit step" where
  "kind_rules E secs c event channel_id channel =
     (let k = ev_kind event in
      step_bind (check_when (is_admin_kind k) (ig_validate_admin E event)) (\<lambda>_.
      step_bind (archive_request E secs c event) (\<lambda>_.
      step_bind (check_when (k = KIND_DELETION) (ig_validate_deletion E event)) (\<lambda>_.
      step_bind (check_archived event channel_id channel) (\<lambda>_.
      step_bind (check_deletion_target event) (\<lambda>_.
      step_bind (check_when (k = KIND_STREAM_MESSAGE_EDIT) (validate_edit_ownership E c event)) (\<lambda>_.
      step_bind (check_when (k = KIND_FORUM_VOTE) (validate_forum_vote_target E c event)) (\<lambda>_.
      step_bind (check_when (k = KIND_STREAM_MESSAGE_DIFF) (validate_diff_event event)) (\<lambda>_.
      step_bind (check_when (k = KIND_AGENT_ENGRAM) (validate_engram_envelope event)) (\<lambda>_.
      step_bind (check_turn_metric E c event) (\<lambda>_.
      step_bind (check_when (k = KIND_EVENT_REMINDER) (validate_event_reminder E secs event)) (\<lambda>_.
      check_when (k = KIND_PERSONA) (validate_persona_envelope E event)))))))))))))"

subsection \<open>Channels, leases and media\<close>

text \<open>\<open>trim_start_matches(|c| c == '#' || c.is_whitespace())\<close>.\<close>

function trim_name_start :: "string \<Rightarrow> string" where
  "trim_name_start s =
     (if s = [] then s
      else if hd s = CHR ''#'' then trim_name_start (tl s)
      else if ws_first s = 0 then s
      else trim_name_start (drop (ws_first s) s))"
  by pat_completeness auto
termination
  by (relation "measure length") auto

declare trim_name_start.simps [simp del]

definition canonical_channel_name :: "string \<Rightarrow> string" where
  "canonical_channel_name name = rev (trim_end_rev (rev (trim_name_start name)))"

definition first_content :: "nostr_event \<Rightarrow> string \<Rightarrow> string option" where
  "first_content event name = find_map (\<lambda>t. if tag_kind t = name then tag_content t else None) (ev_tags event)"

text \<open>\<open>resolve_ttl\<close> of \<open>handlers/mod.rs\<close>.\<close>

definition parse_i32 :: "string \<Rightarrow> int option" where
  "parse_i32 s = (case parse_i64 s of Some n \<Rightarrow> if - (2 ^ 31) \<le> n \<and> n < 2 ^ 31 then Some n else None | None \<Rightarrow> None)"

definition resolve_ttl :: "nostr_event \<Rightarrow> int option \<Rightarrow> int option" where
  "resolve_ttl event override =
     (case find_map (\<lambda>t. if tag_kind t = ''ttl'' then Option.bind (tag_content t) parse_i32 else None) (ev_tags event) of
        Some original \<Rightarrow> (case override of Some ovr \<Rightarrow> Some ovr | None \<Rightarrow> Some original)
      | None \<Rightarrow> None)"

text \<open>Some channel was created for the event: compensated only when its insertion fails.\<close>

definition create_group ::
  "('ctx, 'm) ingest_env_scheme \<Rightarrow> uuid \<Rightarrow> nostr_event \<Rightarrow> uuid option \<Rightarrow> uuid option step" where
  "create_group E c event channel_id =
     (if ev_kind event \<noteq> KIND_NIP29_CREATE_GROUP then go None
      else
        (let create_name = first_content event ''name'' in
        step_bind (refuse_if (case create_name of Some n \<Rightarrow> trim (canonical_channel_name n) = [] | None \<Rightarrow> True)
          (Rejected ''invalid: channel name is required'')) (\<lambda>_.
        (let visibility_str = (case first_content event ''visibility'' of Some v \<Rightarrow> v | None \<Rightarrow> ''open'');
             channel_type_str = (case first_content event ''channel_type'' of Some v \<Rightarrow> v | None \<Rightarrow> ''stream'') in
        step_bind (ques (\<lambda>_. Rejected (''invalid visibility: '' @ visibility_str)) (visibility_from_str visibility_str)) (\<lambda>visibility.
        step_bind (ques (\<lambda>_. Rejected (''invalid channel_type: '' @ channel_type_str)) (channel_type_from_str channel_type_str)) (\<lambda>channel_type.
        case channel_id of
          None \<Rightarrow> go None
        | Some client_uuid \<Rightarrow>
            (let name = canonical_channel_name (case create_name of Some n \<Rightarrow> n | None \<Rightarrow> []) in
            step_bind (ques (\<lambda>e. IngestError.Internal (''error: '' @ e)) (ig_create_channel E c client_uuid name channel_type visibility
              (first_content event ''about'') (ev_pubkey event) (resolve_ttl event (ig_ttl_override E)))) (\<lambda>was_created.
            if \<not> was_created then stop (ok_result event False ''duplicate: channel already exists'')
            else step_bind (effect (ChannelCreated c client_uuid name)) (\<lambda>_. go (Some client_uuid))))))))))"

definition join_request :: "nostr_event \<Rightarrow> uuid option \<Rightarrow> channel_row option \<Rightarrow> unit step" where
  "join_request event channel_id channel =
     (if ev_kind event \<noteq> KIND_NIP29_JOIN_REQUEST then go ()
      else if channel_id = None then stop (Inl (Rejected ''invalid: join request must include an h tag''))
      else case channel of
             Some row \<Rightarrow> refuse_if (cn_visibility row = ''private'') (Rejected ''restricted: channel is private'')
           | None \<Rightarrow> stop (Inl (Rejected ''invalid: channel not found'')))"

definition map_push_accept_error :: "AcceptError \<Rightarrow> IngestError" where
  "map_push_accept_error e =
     (case e of Validation reason \<Rightarrow> Rejected (''invalid: '' @ reason) | LeaseInternal reason \<Rightarrow> IngestError.Internal reason)"

definition push_lease :: "('ctx, 'm) ingest_env_scheme \<Rightarrow> AbstractState \<Rightarrow> nostr_event \<Rightarrow> unit step" where
  "push_lease E st event =
     (if ev_kind event \<noteq> KIND_PUSH_LEASE then go ()
      else
        step_bind (ques map_push_accept_error (ig_accept_lease E event)) (\<lambda>outcome.
        case outcome of
          LeaseAccepted \<Rightarrow>
            step_bind (effect (LeaseStored event)) (\<lambda>_.
            step_bind (emit st (WriteInsertGlobal (msg_id_label (ev_id event)) (claimed_community_from_event E event))) (\<lambda>_.
            stop (ok_result event True [])))
        | StaleEvent \<Rightarrow> stop (Inl (Rejected ''invalid: stale replacement''))
        | StaleGeneration \<Rightarrow> stop (Inl (Rejected ''invalid: stale generation''))
        | EndpointAlreadyLeased \<Rightarrow> stop (Inl (Rejected ''invalid: endpoint already leased''))
        | LeaseQuotaExceeded \<Rightarrow> stop (Inl (Rejected ''invalid: lease quota exceeded''))
        | SourceEventCollision \<Rightarrow> stop (Inl (Rejected ''invalid: source event collision''))
        | ConstraintViolation \<Rightarrow> stop (Inl (Rejected ''invalid: lease constraint violation''))))"

definition check_media :: "('ctx, 'm) ingest_env_scheme \<Rightarrow> nostr_event \<Rightarrow> unit step" where
  "check_media E event =
     (let imeta = map tag_slice (filter (\<lambda>t. tag_kind t = ''imeta'') (ev_tags event))
      in check_when (imeta \<noteq> []) (ig_check_imeta E imeta))"

definition thread_of ::
  "('ctx, 'm) ingest_env_scheme \<Rightarrow> uuid \<Rightarrow> nostr_event \<Rightarrow> uuid option \<Rightarrow> ThreadMetadataOwned option step" where
  "thread_of E c event channel_id =
     (case (if requires_h_channel_scope (ev_kind event) then channel_id else None) of
        Some ch_id \<Rightarrow> ques (rejected_as ''invalid: '') (resolve_nip10_thread_meta E c event ch_id)
      | None \<Rightarrow> go None)"

definition check_profile :: "('ctx, 'm) ingest_env_scheme \<Rightarrow> nostr_event \<Rightarrow> unit step" where
  "check_profile E event =
     refuse_if (ev_kind event = KIND_PROFILE \<and> \<not> ig_is_json E (ev_content event))
       (Rejected ''invalid: kind:0 content must be valid JSON'')"

subsection \<open>Storing\<close>

definition MAX_REACTION_EMOJI_CHARS :: nat where "MAX_REACTION_EMOJI_CHARS = 64"

text \<open>\<open>channel_id.expect(..)\<close> panics when there is no channel, after the commit.\<close>

definition store_reaction ::
  "('ctx, 'm) ingest_env_scheme \<Rightarrow> AbstractState \<Rightarrow> uuid \<Rightarrow> nostr_event \<Rightarrow> uuid option \<Rightarrow>
   ThreadedChannelVisibility option \<Rightarrow> unit step" where
  "store_reaction E st c event channel_id visibility =
     (if ev_kind event \<noteq> KIND_REACTION then go ()
      else case last_e_tag event of
        None \<Rightarrow> stop (Inl (Rejected ''invalid: reaction must reference a target event via e tag''))
      | Some hex \<Rightarrow>
          (case decode_id hex of
             None \<Rightarrow> stop (Inl (Rejected ''invalid: malformed reaction target id''))
           | Some target \<Rightarrow>
               (let author = effective_message_author event (ig_relay_key E);
                    emoji = (if ev_content event = [] then ''+'' else ev_content event) in
                step_bind (refuse_if (count_chars emoji > MAX_REACTION_EMOJI_CHARS)
                  (Rejected (''invalid: reaction emoji exceeds '' @ dec MAX_REACTION_EMOJI_CHARS @ '' characters (got ''
                     @ dec (count_chars emoji) @ '')''))) (\<lambda>_.
                step_bind (ques (\<lambda>e. IngestError.Internal (''error: '' @ e)) (ig_insert_reaction E event)) (\<lambda>outcome.
                case outcome of
                  TargetMissing \<Rightarrow> stop (Inl (Rejected ''invalid: reaction target event not found''))
                | ReactionDuplicate \<Rightarrow> stop (ok_result event False ''duplicate: reaction already exists'')
                | ReactionInserted was_inserted \<Rightarrow>
                    step_bind (effect (ReactionStored c event channel_id target author emoji)) (\<lambda>_.
                    case channel_id of
                      None \<Rightarrow> (\<lambda>s. (Panic, s))
                    | Some ch \<Rightarrow>
                        step_bind (emit st
                          (if was_inserted
                           then WriteInsert (msg_id_label (ev_id event)) ch (claimed_community_from_event E event)
                           else WriteDuplicate (msg_id_label (ev_id event)) ch (claimed_community_from_event E event))) (\<lambda>_.
                        step_bind (effect (Dispatched c event visibility)) (\<lambda>_.
                        stop (ok_result event True [])))))))))"

definition store_event ::
  "('ctx, 'm) ingest_env_scheme \<Rightarrow> uuid \<Rightarrow> nostr_event \<Rightarrow> uuid option \<Rightarrow> ThreadMetadataOwned option \<Rightarrow> uuid option \<Rightarrow>
   bool step" where
  "store_event E c event channel_id thread created =
     (let stored = (\<lambda>thread was_inserted.
            step_bind (if was_inserted then effect (EventStored c event channel_id thread) else go ()) (\<lambda>_. go was_inserted));
          d = or_empty_text (coordinate_d_tag event)
      in if is_replaceable (ev_kind event)
         then step_bind (ques (\<lambda>e. IngestError.Internal (''error: '' @ e)) (ig_replace E event)) (stored None)
         else if is_parameterized_replaceable (ev_kind event)
         then step_bind (refuse_if (length d > D_TAG_MAX_LEN)
                (Rejected (''invalid: d tag too long ('' @ dec (length d) @ '' bytes, max '' @ dec D_TAG_MAX_LEN @ '')''))) (\<lambda>_.
              step_bind (ques (\<lambda>e. IngestError.Internal (''error: '' @ e)) (ig_replace E event)) (stored None))
         else (case ig_insert E event of
                 Inr was_inserted \<Rightarrow> stored thread was_inserted
               | Inl e \<Rightarrow>
                   step_bind (case created of Some ch_id \<Rightarrow> effect (ChannelDeleted c ch_id) | None \<Rightarrow> go ()) (\<lambda>_.
                   stop (Inl (case e of
                     AuthEventRejected \<Rightarrow> Rejected ''invalid: AUTH events cannot be stored''
                   | OtherInsertError other \<Rightarrow> IngestError.Internal (''error: database error: '' @ other))))))"

definition after_store ::
  "('ctx, 'm) ingest_env_scheme \<Rightarrow> AbstractState \<Rightarrow> uuid \<Rightarrow> nostr_event \<Rightarrow> uuid option \<Rightarrow> ThreadMetadataOwned option \<Rightarrow>
   ThreadedChannelVisibility option \<Rightarrow> unit step" where
  "after_store E st c event channel_id thread visibility =
     step_bind (if is_side_effect_kind (ev_kind event) then effect (SideEffects (ev_kind event)) else go ()) (\<lambda>_.
     step_bind (case thread of Some m \<Rightarrow> effect (ThreadSummary (tm_channel_id m) (tm_root_event_id m)) | None \<Rightarrow> go ()) (\<lambda>_.
     step_bind (emit st
       (case channel_id of
          Some ch \<Rightarrow> WriteInsert (msg_id_label (ev_id event)) ch (claimed_community_from_event E event)
        | None \<Rightarrow> WriteInsertGlobal (msg_id_label (ev_id event)) (claimed_community_from_event E event))) (\<lambda>_.
     step_bind (effect (Dispatched c event visibility)) (\<lambda>_.
     stop (ok_result event True [])))))"

subsection \<open>The pipeline\<close>

definition ingest_event_inner ::
  "('ctx, 'm) ingest_env_scheme \<Rightarrow> nat \<Rightarrow> uuid \<Rightarrow> TenantContext \<Rightarrow> IngestAuth \<Rightarrow> signed_event \<Rightarrow> unit step" where
  "ingest_event_inner E now new_id tenant auth sev =
     (let event = nostr_event.truncate sev; c = tn_community tenant; secs = now div 1000000;
          st = state_for_request tenant (pubkey auth)
      in step_bind (ques id (check_submission E secs auth sev)) (\<lambda>_.
         step_bind (route_directly E now new_id tenant st auth event) (\<lambda>_.
         step_bind (write_block E now c auth event) (\<lambda>_.
         step_bind (ques id (event_channel E c event)) (\<lambda>channel_id.
         step_bind (ques id (check_channel_scope auth event channel_id)) (\<lambda>_.
         (let channel = (case channel_id of Some ch_id \<Rightarrow> ig_get_channel E c ch_id | None \<Rightarrow> None);
              visibility = threaded_visibility E c channel_id channel in
         step_bind (membership_gate E c st auth event channel_id channel) (\<lambda>_.
         step_bind (relay_admin_event E event) (\<lambda>_.
         step_bind (leave_request E secs c event) (\<lambda>_.
         step_bind (kind_rules E secs c event channel_id channel) (\<lambda>_.
         step_bind (create_group E c event channel_id) (\<lambda>created.
         step_bind (join_request event channel_id channel) (\<lambda>_.
         step_bind (push_lease E st event) (\<lambda>_.
         step_bind (check_media E event) (\<lambda>_.
         step_bind (thread_of E c event channel_id) (\<lambda>thread.
         step_bind (check_profile E event) (\<lambda>_.
         step_bind (store_reaction E st c event channel_id visibility) (\<lambda>_.
         step_bind (store_event E c event channel_id thread created) (\<lambda>was_inserted.
         step_bind (if was_inserted then go () else stop (ok_result event True ''duplicate:'')) (\<lambda>_.
         after_store E st c event channel_id thread visibility))))))))))))))))))))"

text \<open>
  The wrapper: an error is recorded as its sanitized reason, and a request that recorded nothing is recorded as a bug by
  the guard. \<open>None\<close> is a panic.
\<close>

definition ingest_event ::
  "('ctx, 'm) ingest_env_scheme \<Rightarrow> nat \<Rightarrow> uuid \<Rightarrow> TenantContext \<Rightarrow> IngestAuth \<Rightarrow> signed_event \<Rightarrow> mod_db \<Rightarrow>
   archived_row list \<Rightarrow> (IngestError + IngestResult) option \<times> ingest_state" where
  "ingest_event E now new_id tenant auth sev db rows =
     (let st = state_for_request tenant (pubkey auth);
          note = (\<lambda>a s. s\<lparr>is_trace := is_trace s @ [TraceStep_new a st]\<rparr>);
          guard = (\<lambda>s. if is_trace s = [] then note (ImplBug ''ingest_event_exited_without_trace'') s else s)
      in case ingest_event_inner E now new_id tenant auth sev
                \<lparr>is_mod = db, is_archive = rows, is_effects = [], is_trace = []\<rparr> of
           (Return (Inl e), s) \<Rightarrow> (Some (Inl e), guard (note (SanitizedError (sanitized_reason_for e)) s))
         | (Return (Inr r), s) \<Rightarrow> (Some (Inr r), guard s)
         | (_, s) \<Rightarrow> (None, guard s))"

subsection \<open>Runs of the pipeline\<close>





subsubsection \<open>What is stored\<close>








text \<open>What it takes that a step goes on.\<close>

lemma step_bind_Go:
  "step_bind m f s = (Go y, u) \<longleftrightarrow> (\<exists>x t. m s = (Go x, t) \<and> f x t = (Go y, u))"
  by (auto simp: step_bind_def split: prod.splits flow.splits)

lemma go_Go [simp]: "go x s = (Go y, t) \<longleftrightarrow> y = x \<and> t = s"
  by (auto simp: go_def)

lemma stop_Go [simp]: "stop r s \<noteq> (Go y, t)"
  by (simp add: stop_def)

lemma ques_Go [simp]: "ques err r s = (Go y, t) \<longleftrightarrow> r = Inr y \<and> t = s"
  by (cases r) (auto simp: ques_def)

lemma refuse_if_Go [simp]: "refuse_if b e s = (Go y, t) \<longleftrightarrow> \<not> b \<and> t = s"
  by (simp add: refuse_if_def)

lemma check_when_Go [simp]: "check_when b r s = (Go y, t) \<longleftrightarrow> (b \<longrightarrow> r = Inr ()) \<and> t = s"
  by (cases r) (simp_all add: check_when_def)

lemma effect_Go [simp]: "effect x s = (Go y, t) \<longleftrightarrow> t = s\<lparr>is_effects := is_effects s @ [x]\<rparr>"
  by (auto simp: effect_def)

lemma emit_Go [simp]: "emit st a s = (Go y, t) \<longleftrightarrow> t = s\<lparr>is_trace := is_trace s @ [TraceStep_new a st]\<rparr>"
  by (auto simp: emit_def)


















subsubsection \<open>The gates\<close>


lemma route_directly_Go [simp]:
  "route_directly E now new_id tenant st auth event s = (Go u, t) \<longleftrightarrow>
     \<not> is_command_kind (ev_kind event) \<and> ev_kind event \<noteq> KIND_PRODUCT_FEEDBACK \<and> ev_kind event \<noteq> KIND_REPORT \<and>
     \<not> is_moderation_command_kind (ev_kind event) \<and> t = s"
proof -
  have "product_feedback E st event s \<noteq> (Go u, t)"
    by (auto simp: product_feedback_def step_bind_Go)
  moreover have "report_event E now new_id c event s \<noteq> (Go u, t)" for c
    by (auto simp: report_event_def step_bind_Go split: prod.split)
  moreover have "moderation_command E now new_id c event s \<noteq> (Go u, t)" for c
    by (auto simp: moderation_command_def step_bind_Go split: prod.split)
  ultimately show ?thesis by (auto simp: route_directly_def step_bind_Go)
qed






lemma relay_admin_event_Go [simp]:
  "relay_admin_event E event s = (Go u, t) \<longleftrightarrow> \<not> is_relay_admin_kind (ev_kind event) \<and> t = s"
  by (auto simp: relay_admin_event_def step_bind_Go)

lemma leave_request_Go [simp]:
  "leave_request E secs c event s = (Go u, t) \<longleftrightarrow> ev_kind event \<noteq> KIND_NIP43_LEAVE_REQUEST \<and> t = s"
  by (auto simp: leave_request_def step_bind_Go split: RemoveResult.splits)

lemma push_lease_Go [simp]:
  "push_lease E st event s = (Go u, t) \<longleftrightarrow> ev_kind event \<noteq> KIND_PUSH_LEASE \<and> t = s"
  by (auto simp: push_lease_def step_bind_Go split: AcceptLeaseOutcome.splits)





subsubsection \<open>What the last steps store\<close>








definition fresh_state :: "mod_db \<Rightarrow> archived_row list \<Rightarrow> ingest_state" where
  "fresh_state db rows = \<lparr>is_mod = db, is_archive = rows, is_effects = [], is_trace = []\<rparr>"

lemma ingest_event_effects:
  "is_effects (snd (ingest_event E now new_id tenant auth sev db rows)) =
     is_effects (snd (ingest_event_inner E now new_id tenant auth sev (fresh_state db rows)))"
  by (simp add: ingest_event_def Let_def fresh_state_def split: prod.split flow.split sum.split)











subsubsection \<open>What follows a store\<close>


lemma effect_bind: "step_bind (effect x) f s = f () (s\<lparr>is_effects := is_effects s @ [x]\<rparr>)"
  by (simp add: step_bind_def effect_def)






lemma ingest_event_result:
  "fst (ingest_event E now new_id tenant auth sev db rows) =
     (case fst (ingest_event_inner E now new_id tenant auth sev (fresh_state db rows)) of Return q \<Rightarrow> Some q | _ \<Rightarrow> None)"
  by (simp add: ingest_event_def Let_def fresh_state_def split: prod.split flow.split sum.split)



subsubsection \<open>The trace of an accepted request\<close>















text \<open>An accepted request went through every step that can only refuse.\<close>

definition accepts :: "'a step \<Rightarrow> ingest_state \<Rightarrow> ingest_state \<Rightarrow> bool" where
  "accepts m s u \<longleftrightarrow> (\<exists>res. m s = (Return (Inr res), u))"

definition refuses_only :: "'a step \<Rightarrow> bool" where
  "refuses_only m \<longleftrightarrow> (\<forall>s u. \<not> accepts m s u)"

lemma accepts_bind:
  assumes "refuses_only m"
  shows "accepts (step_bind m f) s u \<longleftrightarrow> (\<exists>x t. m s = (Go x, t) \<and> accepts (f x) t u)"
  using assms by (auto simp: refuses_only_def accepts_def step_bind_def split: prod.splits flow.splits)

lemma ques_refuses: "refuses_only (ques err r)"
  by (cases r) (auto simp: refuses_only_def accepts_def ques_def go_def stop_def)





lemma ingest_event_accepts:
  assumes "ingest_event E now new_id tenant auth sev db rows = (Some (Inr res), s)"
  obtains u where "accepts (ingest_event_inner E now new_id tenant auth sev) (fresh_state db rows) u"
    "is_trace s = (if is_trace u = [] then [TraceStep_new (ImplBug ''ingest_event_exited_without_trace'')
       (state_for_request tenant (pubkey auth))] else is_trace u)"
  using assms that
  by (auto simp: ingest_event_def Let_def fresh_state_def accepts_def split: prod.splits flow.splits sum.splits if_splits)


subsubsection \<open>Commands\<close>


subsection \<open>Runs\<close>

text \<open>A relay with one open channel, on which every event can be found and belongs to no channel.\<close>

definition demo_note :: StoredEvent where
  "demo_note = StoredEvent_new 0 \<lparr>ev_id = demo_key, ev_pubkey = ''o'', ev_created_at = 1000, ev_kind = 1, ev_tags = [],
     ev_content = []\<rparr> None"

definition demo_ingest_db :: "demo_ctx ingest_db" where
  "demo_ingest_db = text_env.extend demo_text_env
     (ingest_db.fields (\<lambda>_ _. Inr (Some demo_note)) (\<lambda>_ _. Inr None) (\<lambda>_ _ _. Inr False)
        (\<lambda>_ _. Some \<lparr>cn_visibility = ''open'', cn_archived = False\<rparr>) (\<lambda>_ _ _. Inr False) ''relay'' Some 0 0 (\<lambda>_. []))"

definition demo_signatures :: auth_env where
  "demo_signatures = \<lparr>au_verify_id = (\<lambda>_. True), au_verify_signature = (\<lambda>_. True), au_parse_event = (\<lambda>_. Inl []),
     au_sha256 = (\<lambda>b. b), au_hex = (\<lambda>_. []), au_base64 = (\<lambda>_. None), au_from_utf8 = (\<lambda>_. None), au_pubkey_from_hex = Some,
     au_debug = (\<lambda>_. [])\<rparr>"

definition demo_ingest_env :: "demo_ctx ingest_env" where
  "demo_ingest_env = ingest_db.extend demo_ingest_db
     (ingest_env.fields demo_signatures False (\<lambda>_. []) (demo_mod_env None) None demo_archive_env
        (\<lambda>auth event. ok_result event True ''ran'') (\<lambda>_. Inr ()) (\<lambda>_. Inr ()) False (\<lambda>_ _. Inr NotMember) (\<lambda>_. Inr ())
        (\<lambda>_. Inr ()) (\<lambda>_ _. None) None (\<lambda>_ _ _ _ _ _ _ _. Inr True) (\<lambda>_. Inr LeaseAccepted)
        (\<lambda>_. Inl ''no such blob'') (\<lambda>_. True) (\<lambda>_. Inr (ReactionInserted True)) (\<lambda>_. Inr True) (\<lambda>_. Inr True))"

lemma demo_ingest_simps [simp]:
  "parse_uuid demo_ingest_env = Inr" "ig_event_by_id demo_ingest_env = (\<lambda>_ _. Inr (Some demo_note))"
  "ig_is_member demo_ingest_env = (\<lambda>_ _ _. Inr False)" "ig_relay_key demo_ingest_env = ''relay''"
  "ig_get_channel demo_ingest_env = (\<lambda>_ _. Some \<lparr>cn_visibility = ''open'', cn_archived = False\<rparr>)"
  "ig_auth demo_ingest_env = demo_signatures" "ig_verify_panics demo_ingest_env = False" "ig_gate_fault demo_ingest_env = None"
  "ig_command demo_ingest_env = (\<lambda>auth event. ok_result event True ''ran'')"
  "ig_cached_visibility demo_ingest_env = (\<lambda>_ _. None)" "ig_insert demo_ingest_env = (\<lambda>_. Inr True)"
  "ig_insert_reaction demo_ingest_env = (\<lambda>_. Inr (ReactionInserted True))"
  "ig_check_imeta demo_ingest_env = (\<lambda>_. Inl ''no such blob'')" "ig_ttl_override demo_ingest_env = None"
  "ig_create_channel demo_ingest_env = (\<lambda>_ _ _ _ _ _ _ _. Inr True)" "ig_validate_admin demo_ingest_env = (\<lambda>_. Inr ())"
  by (simp_all add: demo_ingest_env_def demo_ingest_db_def demo_text_env_def text_env.defs ingest_db.defs ingest_env.defs)

definition demo_submission :: "nat \<Rightarrow> nostr_tag list \<Rightarrow> string \<Rightarrow> signed_event" where
  "demo_submission k tags body = \<lparr>ev_id = ''e'', ev_pubkey = ''m'', ev_created_at = 1000, ev_kind = k, ev_tags = tags,
     ev_content = body, ev_sig = ''s''\<rparr>"

definition demo_event :: "nat \<Rightarrow> nostr_tag list \<Rightarrow> string \<Rightarrow> nostr_event" where
  "demo_event k tags body = \<lparr>ev_id = ''e'', ev_pubkey = ''m'', ev_created_at = 1000, ev_kind = k, ev_tags = tags, ev_content = body\<rparr>"

lemma demo_truncate [simp]: "nostr_event.truncate (demo_submission k tags body) = demo_event k tags body"
  by (simp add: demo_submission_def demo_event_def nostr_event.defs)

lemma demo_submission_simps [simp]:
  "ev_kind (demo_submission k tags body) = k" "ev_created_at (demo_submission k tags body) = 1000"
  "ev_kind (demo_event k tags body) = k" "ev_created_at (demo_event k tags body) = 1000" "ev_id (demo_event k tags body) = ''e''"
  "ev_pubkey (demo_event k tags body) = ''m''" "ev_tags (demo_event k tags body) = tags" "ev_content (demo_event k tags body) = body"
  by (simp_all add: demo_submission_def demo_event_def)

definition demo_principal :: IngestAuth where
  "demo_principal = Nip42Auth ''m'' [MessagesWrite, ChannelsWrite] None ''conn''"

lemma demo_principal_simps [simp]:
  "pubkey demo_principal = ''m''" "scopes demo_principal = [MessagesWrite, ChannelsWrite]" "channel_ids demo_principal = None"
  "is_http demo_principal = False"
  by (simp_all add: demo_principal_def channel_ids_def is_http_def)

definition demo_tenant :: TenantContext where
  "demo_tenant = \<lparr>tn_community = ''c'', tn_host = ''h''\<rparr>"

lemma demo_checked:
  assumes "required_scope_for_kind k (demo_event k tags body) = Inr required" and "required \<in> {MessagesWrite, ChannelsWrite}"
    and "\<not> is_relay_only_kind k"
    and "k \<notin> {KIND_AUTH, KIND_MEMBER_ADDED_NOTIFICATION, KIND_MEMBER_REMOVED_NOTIFICATION}"
    and "length body \<le> 100"
  shows "check_submission demo_ingest_env 1000 demo_principal (demo_submission k tags body) = Inr ()"
proof -
  have "\<not> out_of_range MAX_TIMESTAMP_DRIFT_SECS 1000 1000"
    by (simp add: out_of_range_def i64_abs_def i64_wrap_def MAX_TIMESTAMP_DRIFT_SECS_def)
  then show ?thesis using assms
    by (auto simp: check_submission_def Let_def verify_event_def demo_signatures_def MAX_EVENT_CONTENT_BYTES_def)
qed


lemma demo_tag [simp]:
  "tag_kind (plain_tag name v) = name" "tag_content (plain_tag name v) = Some v" "tag_slice (plain_tag name v) = [name, v]"
  by (simp_all add: plain_tag_def)

lemmas kind_classes =
  is_command_kind_def is_moderation_command_kind_def is_relay_admin_kind_def is_relay_only_kind_def is_global_only_kind_def
  requires_h_channel_scope_def skip_membership_def is_admin_kind_def is_identity_archive_request_kind_def
  is_replaceable_def is_parameterized_replaceable_def is_side_effect_kind_def required_scope_for_kind_def kind_defs


lemma go_bind: "step_bind (go x) f = f x"
  by (rule ext) (simp add: step_bind_def go_def)

lemma bind_assoc: "step_bind (step_bind m f) g = step_bind m (\<lambda>x. step_bind (f x) g)"
  by (rule ext) (simp add: step_bind_def split: prod.split flow.split)




lemma demo_community: "tn_community demo_tenant = ''c''" by (simp add: demo_tenant_def)



lemma demo_command_checked: "check_submission demo_ingest_env 1000 demo_principal (demo_submission 46020 [] []) = Inr ()"
  by (rule demo_checked [where required = MessagesWrite]) (simp_all add: kind_classes)

lemma demo_command_kind: "is_command_kind (ev_kind (demo_submission 46020 [] []))"
  by (simp add: kind_classes)

lemma demo_command_run:
  "fst (ingest_event demo_ingest_env demo_now ''i'' demo_tenant demo_principal (demo_submission 46020 [] []) db []) =
     Some (ok_result (demo_event 46020 [] []) True ''ran'')"
  using demo_command_kind
  by (simp add: ingest_event_result ingest_event_inner_def Let_def demo_command_checked ques_def go_bind route_directly_def
      effect_bind bind_assoc) (simp add: step_bind_def stop_def)

text \<open>
  An accepted command, report or moderation command leaves no trace of its own, so the guard of the seam records an
  implementation bug and the conformance checker reports missing coverage.
\<close>
theorem silent_kinds_flagged:
  assumes "ingest_event E now new_id tenant auth sev db rows = (Some (Inr res), s)"
    and "is_command_kind (ev_kind sev) \<or> ev_kind sev = KIND_REPORT \<or> is_moderation_command_kind (ev_kind sev)"
  shows "check_trace (unstructured (is_trace s)) = Inl CoverageBreach"
proof -
  let ?st = "state_for_request tenant (pubkey auth)" and ?ev = "nostr_event.truncate sev"
  obtain u where u: "accepts (ingest_event_inner E now new_id tenant auth sev) (fresh_state db rows) u"
    and s: "is_trace s = (if is_trace u = [] then [TraceStep_new (ImplBug ''ingest_event_exited_without_trace'') ?st] else is_trace u)"
    by (rule ingest_event_accepts [OF assms(1)])
  have "ev_kind ?ev = ev_kind sev" by (simp add: nostr_event.defs)
  moreover have "KIND_REPORT \<noteq> KIND_PRODUCT_FEEDBACK" "\<not> is_moderation_command_kind KIND_PRODUCT_FEEDBACK"
    by (simp_all add: kind_classes)
  ultimately have kinds: "is_command_kind (ev_kind ?ev) \<or> ev_kind ?ev = KIND_REPORT \<or> is_moderation_command_kind (ev_kind ?ev)"
      "is_command_kind (ev_kind ?ev) \<or> ev_kind ?ev \<noteq> KIND_PRODUCT_FEEDBACK"
    using assms(2) by auto
  let ?route = "route_directly E now new_id tenant ?st auth ?ev"
  have "accepts (step_bind ?route f) (fresh_state db rows) u \<Longrightarrow> is_trace u = []" for f :: "unit \<Rightarrow> unit step"
    using kinds by (auto simp: accepts_def step_bind_def route_directly_def report_event_def moderation_command_def effect_def
        ques_def stop_def go_def fresh_state_def split: if_splits prod.splits sum.splits)
  with u have "is_trace u = []"
    unfolding ingest_event_inner_def Let_def accepts_bind [OF ques_refuses] by auto
  with s show ?thesis
    by (simp add: check_trace_def unstructured_def check_step_def bootstrap_def TraceStep_new_def)
qed

lemma silent_kinds_flagged_witness:
  "check_trace (unstructured (is_trace (snd (ingest_event demo_ingest_env demo_now ''i'' demo_tenant demo_principal
     (demo_submission 46020 [] []) (demo_db\<lparr>mb_bans := [((''c'', ''m''), demo_ban_row)]\<rparr>) [])))) = Inl CoverageBreach"
proof -
  let ?run = "ingest_event demo_ingest_env demo_now ''i'' demo_tenant demo_principal
     (demo_submission 46020 [] []) (demo_db\<lparr>mb_bans := [((''c'', ''m''), demo_ban_row)]\<rparr>) []"
  obtain res where "fst ?run = Some (Inr res)" by (simp add: demo_command_run ok_result_def)
  then have run: "?run = (Some (Inr res), snd ?run)" by (simp add: prod_eq_iff)
  show ?thesis by (rule silent_kinds_flagged [OF run]) (simp add: kind_classes)
qed
text \<open>
  A request to create a channel that fails after the channel was made (here: one of its media tags is refused) leaves the
  channel behind: the compensation runs only when the insertion of the event fails.
\<close>
lemma rejected_create_keeps_channel:
  "let sev = demo_submission 9007 [plain_tag ''h'' ''n'', plain_tag ''name'' ''x'', plain_tag ''imeta'' ''u''] [];
       (res, s) = ingest_event demo_ingest_env demo_now ''i'' demo_tenant demo_principal sev demo_db []
   in res = Some (Inl (Rejected ''invalid: no such blob'')) \<and> is_effects s = [ChannelCreated ''c'' ''n'' ''x'']"
proof -
  let ?tags = "[plain_tag ''h'' ''n'', plain_tag ''name'' ''x'', plain_tag ''imeta'' ''u'']"
  let ?ev = "demo_event 9007 ?tags []" and ?sev = "demo_submission 9007 ?tags []"
  have checked: "check_submission demo_ingest_env 1000 demo_principal ?sev = Inr ()"
    by (rule demo_checked [where required = ChannelsWrite]) (simp_all add: kind_classes)
  have routed: "route_directly demo_ingest_env demo_now ''i'' demo_tenant st auth ?ev = go ()" for st auth
    by (simp add: route_directly_def kind_classes)
  have written: "step_bind (write_block demo_ingest_env demo_now ''c'' demo_principal ?ev) f (fresh_state demo_db []) =
      f () (fresh_state demo_db [])" for f :: "unit \<Rightarrow> unit step"
    by (simp add: step_bind_def write_block_def go_def restriction_state_def demo_db_def Let_def fresh_state_def)
  have ch: "event_channel demo_ingest_env ''c'' ?ev = Inr (Some ''n'')"
    by (simp add: event_channel_def extract_channel_id_def find_map_def kind_classes)
  have scope: "check_channel_scope demo_principal ?ev (Some ''n'') = Inr ()"
    by (simp add: check_channel_scope_def check_token_channel_access_def)
  have gates: "membership_gate demo_ingest_env ''c'' st demo_principal ?ev (Some ''n'') row = go ()"
      "relay_admin_event demo_ingest_env ?ev = go ()" "leave_request demo_ingest_env 1000 ''c'' ?ev = go ()"
      "join_request ?ev channel row = go ()" "push_lease demo_ingest_env st ?ev = go ()" for st row channel
    by (simp_all add: membership_gate_def relay_admin_event_def leave_request_def join_request_def push_lease_def kind_classes)
  have rules: "kind_rules demo_ingest_env 1000 ''c'' ?ev (Some ''n'') (Some \<lparr>cn_visibility = ''open'', cn_archived = False\<rparr>) = go ()"
    by (rule ext) (simp add: kind_rules_def check_when_def archive_request_def check_archived_def check_deletion_target_def
        check_turn_metric_def Let_def kind_classes step_bind_def go_def refuse_if_def ques_def)
  have "canonical_channel_name ''x'' = ''x''" "trim ''x'' = ''x''" by code_simp+
  then have created: "create_group demo_ingest_env ''c'' ?ev (Some ''n'') = step_bind (effect (ChannelCreated ''c'' ''n'' ''x'')) (\<lambda>_. go (Some ''n''))"
    by (simp add: create_group_def first_content_def find_map_def refuse_if_def ques_def go_bind Let_def kind_classes
        visibility_from_str_def channel_type_from_str_def)
  have media: "step_bind (check_media demo_ingest_env ?ev) f = stop (Inl (Rejected ''invalid: no such blob''))" for f :: "unit \<Rightarrow> unit step"
    by (rule ext) (simp add: check_media_def check_when_def ques_def rejected_as_def step_bind_def stop_def)
  have "ingest_event_inner demo_ingest_env demo_now ''i'' demo_tenant demo_principal ?sev (fresh_state demo_db []) =
      (Return (Inl (Rejected ''invalid: no such blob'')), (fresh_state demo_db [])\<lparr>is_effects := [ChannelCreated ''c'' ''n'' ''x'']\<rparr>)"
    by (simp add: ingest_event_inner_def Let_def checked ques_def go_bind routed written [unfolded fresh_state_def] ch scope
        gates rules created bind_assoc effect_bind media demo_community fresh_state_def stop_def)
  then show ?thesis
    by (cases "ingest_event demo_ingest_env demo_now ''i'' demo_tenant demo_principal ?sev demo_db []")
      (use ingest_event_result [of demo_ingest_env demo_now "''i''" demo_tenant demo_principal ?sev demo_db "[]"]
         ingest_event_effects [of demo_ingest_env demo_now "''i''" demo_tenant demo_principal ?sev demo_db "[]"]
       in \<open>simp add: Let_def\<close>)
qed

end
