(* ===== verification/Spec2Isabelle.thy ===== *)
theory Spec2Isabelle
  imports Prelude Bytes Events Kinds Subscriptions Git_Perms Acp_Queue Pairing Pairing_Qr Conformance Mesh
    Mesh_Wire Mesh_Stream Audio_Room Session_Directory Reliable_Stream Huddle_Owner Huddle_Control Audit_Log Replica_Fence
    Text Network Workflow_Schema Workflow_Template Workflow_Db Workflow_Run Workflow_Trigger
    Tenant Workflow_Command Auth Admission Nip_Oa Identity_Archive Moderation Ingest_Rules Ingest
begin

text \<open>
  Verification of the core of Buzz, a Nostr relay with channels, communities and coding agents.

  \<^bold>\<open>The program.\<close> The Rust workspace under \<open>src/crates\<close> has a library of protocol types and
  decisions (\<open>buzz-core\<close>), the relay (\<open>buzz-relay\<close>) that stores events and fans them out to the
  subscriptions of its web sockets, a mesh between relay processes (\<open>buzz-relay-mesh\<close>), a harness
  that feeds agents the events of their channels (\<open>buzz-acp\<close>), and a checker of recorded traces
  (\<open>buzz-conformance\<close>); around them are databases, pub/sub, media, command line tools and user
  interfaces. An event enters the relay, is classified by its kind, is fanned out by the
  subscription registry, reaches the harness on one of its connections and waits in the queue of its
  channel until an agent takes a batch. Two devices of one user share a key through a pairing
  session, which exchanges such events. A push to a hosted git repository is decided by the
  permission engine of \<open>buzz-core\<close>. The mesh tells a relay which other relay processes are alive.
  A session that several relays serve (a huddle, a reliable stream) has one owner at a time, which
  a directory in Redis names under a generation; every frame between relays carries that fence, and
  each hop validates it. The owner of a huddle keeps its room; a relay whose client joins a huddle
  owned elsewhere registers the client over a control stream and mirrors the roster.

  \<^bold>\<open>The theories\<close>, in the order of their imports.

  \<^item> \<open>Prelude\<close>: names of the basic types, hash maps, Rust's string functions, bucket indexes.
    The locale \<open>key_index\<close> is what a client relies on when it keeps indexes beside a table
    (interpreted as \<open>bkt\<close> on the buckets the registry uses); the locale \<open>inv_machine\<close> is a
    state machine with an invariant (interpreted as \<open>aq\<close>, \<open>pairing\<close>, \<open>mesh\<close>, \<open>room\<close>,
    \<open>directory\<close>, \<open>owners\<close>, \<open>replica_fence\<close> and \<open>scheduler\<close> on the stateful components, whose safety properties rest on its facts).
    \<open>Ingest\<close> has the locale \<open>step_relation\<close>, which lifts a relation of states from steps to runs.
  \<^item> \<open>Bytes\<close>: the byte types, big and little endian words, saturating addition.
  \<^item> \<open>Events\<close>: \<open>StoredEvent\<close> and the filter matcher (\<open>buzz-core/src/event.rs\<close>, \<open>filter.rs\<close>).
  \<^item> \<open>Kinds\<close>: the kind numbers, the lists and predicates on them and the two read gates
    (\<open>buzz-core/src/kind.rs\<close>, \<open>filter.rs\<close>).
  \<^item> \<open>Subscriptions\<close>: the registry (\<open>buzz-relay/src/subscription.rs\<close>). The record \<open>registry\<close> has
    the table and the five indexes; every method of \<open>SubscriptionRegistry\<close> is a function on it.
  \<^item> \<open>Git_Perms\<close>: roles (\<open>buzz-core/src/channel.rs\<close>), ref patterns, protection rules and the
    decision on a push (\<open>buzz-core/src/git_perms.rs\<close>).
  \<^item> \<open>Acp_Queue\<close>: the record \<open>EventQueue\<close> and every method on it (\<open>buzz-acp/src/queue.rs\<close>), and the
    branch of \<open>dispatch_pending\<close> (\<open>buzz-acp/src/lib.rs\<close>) that gives a batch back.
  \<^item> \<open>Pairing\<close>: the messages, the derivations and the record \<open>PairingSession\<close> with the handlers of
    both roles (\<open>buzz-core/src/pairing\<close>: \<open>types.rs\<close>, \<open>crypto.rs\<close>, \<open>session.rs\<close>).
  \<^item> \<open>Pairing_Qr\<close>: the QR code of a pairing (\<open>qr.rs\<close>).
  \<^item> \<open>Conformance\<close>: the trace schema and the checker (\<open>buzz-conformance\<close>: \<open>lib.rs\<close>,
    \<open>transitions.rs\<close>, \<open>checker.rs\<close>).
  \<^item> \<open>Mesh\<close>: the record \<open>MeshMembership\<close>, its operations, the gossip exchange and the suspicion
    level (\<open>buzz-relay-mesh\<close>: \<open>membership.rs\<close>, \<open>gossip.rs\<close>, \<open>registry.rs\<close>, \<open>runtime.rs\<close>).

  \<^item> \<open>Mesh_Wire\<close>, \<open>Mesh_Stream\<close>: the frames between relays and their transport over a stream
    (\<open>buzz-relay-mesh\<close>: \<open>wire.rs\<close>, \<open>peer.rs\<close>).
  \<^item> \<open>Audio_Room\<close>: the room of a huddle, the registry of rooms, the media fence
    (\<open>buzz-relay/src/audio\<close>: \<open>room.rs\<close>, \<open>mesh.rs\<close>, \<open>wire.rs\<close>).
  \<^item> \<open>Session_Directory\<close>: the Redis commands the directory uses, its three Lua scripts, the parser
    of their results and \<open>SessionDirectory\<close> (\<open>buzz-relay/src/tunnel/directory.rs\<close>).
  \<^item> \<open>Reliable_Stream\<close>: the fenced stream, its join and the lease renewer (\<open>tunnel/reliable.rs\<close>).
  \<^item> \<open>Huddle_Owner\<close>, \<open>Huddle_Control\<close>: the registry of owned huddles and the resolution of a join;
    the control loop of the owner and the reader of the other relay (\<open>audio/join.rs\<close>).
  \<^item> \<open>Audit_Log\<close>: the hash chains of the audit log and the service over its table (\<open>buzz-audit\<close>).
  \<^item> \<open>Replica_Fence\<close>: the freshness fence of the read replica, its probe and the reads it routes
    (\<open>buzz-db\<close>: \<open>replica_fence.rs\<close>, \<open>lib.rs\<close>, \<open>thread.rs\<close>).
  \<^item> \<open>Text\<close>: Rust's \<open>str\<close> methods and \<open>Result\<close> combinators that several components use, JSON values.
  \<^item> \<open>Network\<close>: the test for private addresses (\<open>buzz-core/src/network.rs\<close>).
  \<^item> \<open>Workflow_Schema\<close>, \<open>Workflow_Template\<close>: definitions of workflows and their validation, templates
    and conditions (\<open>buzz-workflow\<close>: \<open>schema.rs\<close>, \<open>error.rs\<close>, \<open>executor.rs\<close>).
  \<^item> \<open>Workflow_Db\<close>: the tables of workflows, runs, approvals and scheduled fires with every statement
    on them (\<open>buzz-db/src/workflow.rs\<close>); the record \<open>wf_tables\<close>.
  \<^item> \<open>Workflow_Run\<close>: the actions, the loop over the steps, a run from its first row to its final
    status (\<open>executor.rs\<close>, \<open>lib.rs\<close>). A call to the outside takes a \<open>world\<close>, the tables and a log
    of what was done, whose length is the moment at which the environment answers.
  \<^item> \<open>Workflow_Trigger\<close>: events and schedules that start runs, one tick of the scheduler, and several
    pods with one database as a step relation (\<open>lib.rs\<close>).
  \<^item> \<open>Tenant\<close>: the normal form of a host and the community it resolves to
    (\<open>buzz-core/src/tenant.rs\<close>, \<open>buzz-relay/src/tenant.rs\<close>).
  \<^item> \<open>Workflow_Command\<close>: the commands that define, trigger, grant and deny
    (\<open>buzz-relay/src/handlers/command_executor.rs\<close>), the webhook endpoint (\<open>api/bridge.rs\<close>) and
    its secret (\<open>webhook_secret.rs\<close>), on the record \<open>relay\<close>; a failing call is an \<open>IngestError\<close>.
  \<^item> \<open>Auth\<close>: scopes, access to channels, signed events, NIP-42 and NIP-98 (\<open>buzz-auth\<close>: \<open>scope.rs\<close>,
    \<open>access.rs\<close>, \<open>nip42.rs\<close>, \<open>nip98.rs\<close>, \<open>lib.rs\<close>; \<open>buzz-core/src/verification.rs\<close>).
  \<^item> \<open>Admission\<close>: rate limits, the replay guard and the authentication of HTTP requests, over a
    model of the Redis commands they use (\<open>buzz-pubsub\<close>: \<open>rate_limiter.rs\<close>, \<open>nip98_replay.rs\<close>;
    \<open>buzz-relay\<close>: \<open>admission.rs\<close>, \<open>api/bridge.rs\<close>, \<open>api/invites.rs\<close>, \<open>api/operator.rs\<close>).
  \<^item> \<open>Nip_Oa\<close>: the attestation by which an owner authorises an agent (\<open>buzz-sdk/src/nip_oa.rs\<close>).
  \<^item> \<open>Identity_Archive\<close>: the requests that archive an identity, their consent and the table
    (\<open>handlers/identity_archive.rs\<close>, \<open>buzz-db/src/archived_identities.rs\<close>).
  \<^item> \<open>Moderation\<close>: bans, timeouts, reports, the commands on them and who may issue them, on the
    record \<open>mod_db\<close> (\<open>buzz-db/src/moderation.rs\<close>; \<open>handlers\<close>: \<open>moderation_authz.rs\<close>,
    \<open>moderation_commands.rs\<close>, \<open>report.rs\<close>).
  \<^item> \<open>Ingest_Rules\<close>, \<open>Ingest\<close>: what an event of each kind must look like, and the pipeline of
    \<open>ingest_event\<close> from a socket or a request into the store (\<open>handlers/ingest.rs\<close>,
    \<open>conformance/mod.rs\<close>). A step takes an \<open>ingest_state\<close> and goes on, returns or panics.

  A definition has the name of the function or type it translates; a method takes the state last
  and returns it updated, paired with its result. A name that clashes has the type as prefix or
  a suffix. Helpers named after a loop of a function (\<open>for_ref_loop\<close>, \<open>extract_kinds_loop\<close>) are
  that loop, its mutable variables as arguments.
\<close>

text \<open>
  \<^bold>\<open>What is shown.\<close>

  \<^item> Subscriptions: \<open>registry_inv\<close> says that each index lists exactly the table entries that want
    its key and has no empty bucket; every operation keeps it. From it: the indexed fan-out
    delivers to exactly the subscriptions a scan of the table finds, removal leaves no trace, and
    a registry without subscriptions has empty indexes.
  \<^item> Git permissions: a parsed pattern has the documented shape and prints to its text; the matcher
    agrees with a reference glob and does not panic; a push is accepted exactly when every update
    satisfies role and rules; more rules never allow more.
  \<^item> Event queue: \<open>queue_inv\<close> (bounded queues of events of their own channel, a channel is in flight
    exactly while it has a deadline and a batch size, bounded retry counters) holds in every
    reachable state. From it: fairness and
    conservation of the flush, release of stuck channels, bounds of the retry delay, the steer
    protocol, and the invisibility of compaction.
  \<^item> Pairing: runs of a session are labelled sequences of successful calls. The order of the
    labels, the finality of the end states, the authenticity of accepted messages and the
    binding of the short code to the peer are invariants of all runs; two honest devices
    complete when their messages fit, the time limit is kept and the ids of the events they
    exchange do not collide; the QR code round-trips.
  \<^item> Conformance: the checker accepts exactly the traces of the declarative specification
    \<open>step_ok\<close>, and reports the first violation.
  \<^item> Mesh: a record replaces an older one of its runtime only, an exchange in both directions
    makes two tables agree, unattested seeds change nothing, and the peers offered for
    routing are exactly the live ones.
  \<^item> Huddle rooms: \<open>room_inv\<close> (seats and indexes match, 25 peers at most, the roster channel is the
    history of the seats) holds in every reachable state. From it: admission is exact, a
    subscriber's roster converges, a huddle ends once. The media fence keeps the highest
    generation of a session. A failed join can unlist a room that is in use.
  \<^item> Session directory: each operation refines one on the abstract record \<open>fence\<close> (a counter and
    a holder with its deadline) of its session; generations grow, so a superseded owner is
    fenced out for good. A reliable stream delivers what was sent, only under its fence; the
    renewer keeps the lease or says that it is lost; a join ends at the owner.
  \<^item> Huddle ownership: attach, release and drain are threads whose critical sections interleave; a
    finished drain leaves no owner, and every run of the threads ends. The calls of a join
    interleave with any change of the directory and the registry.
  \<^item> Huddle control: what the other relay shows its client is always a roster the owner had; a
    registration passes the fence; which ends of the loop remove the remote peers, and the one
    that does not.
  \<^item> Audit log: the entries of a community are what its successful calls returned, numbered from 1,
    and verify; a table that verifies and ends in a genuine hash has the genuine rows, except
    that the boundary between object and detail can be moved.
  \<^item> Replica fence: \<open>pg_step\<close> is the database (transactions, the floor guard inside COMMIT, prepared
    transactions, the log and its replay), in which the statements of the probe interleave with
    everything. What the fence covers is on the replica for good; routed pages are the writer's
    pages, except when the fence advances between the two looks of a page of replies.
  \<^item> Workflows: validation accepts exactly the well-formed definitions; substituted values are
    inert and the variables of a condition cannot be spoofed; every statement on the tables stays
    in its community and an approval is decided once. The locale \<open>run_policy\<close> takes an invariant
    of the tables and a policy of effects that the primitive calls keep, and gives both for a whole
    run; it is interpreted as \<open>guard\<close> (private addresses, community, sleep), \<open>posting\<close> (channel and
    author of messages) and \<open>presence\<close> (the row of the run). A stopped run ignores later steps, a
    resumed one has all outputs, every run gets a final status. A scheduled instant fires at
    most once; a restart can fire twice within an interval.
  \<^item> Commands: an approval is decided only by someone who may, a webhook needs its secret and a
    manual trigger the owner; a commit that fails after a grant strands the run; a disabled
    workflow still runs on a webhook. Every spelling of a host is one tenant.
  \<^item> Admission: in any interval of one window a subject is admitted at most twice its limit, and its
    answers do not depend on other subjects; a signed request is accepted once, except at the ends of
    its window. An attestation is verified as the one its owner computed.
  \<^item> Moderation: a ban holds until it expires or another moderator lifts it, a report is resolved
    once, an identity is archived only with a consent; what remains when an audit row is lost.
  \<^item> Ingestion: what a request leaves in the store is its own event in its channel, and passed every
    gate; a stored event is dispatched and answered, except a reaction without a channel, whose
    request panics. Commands ignore bans, the trace of an accepted channel event is refused by the
    checker, and a refused creation can leave its channel behind.
  \<^item> Private addresses: the test agrees with the documented list of blocks.

  \<^bold>\<open>Assumptions.\<close> Code of other packages is an argument: \<open>pairing_env\<close> has key exchange, key
  derivation, encryption, signing, JSON and hex, of which \<open>env_ok\<close> states what is documented
  (decryption inverts encryption under the shared key, both sides derive the same shared key,
  parsing inverts printing, a signed event verifies); \<open>qr_env\<close> adds percent coding and the parsers of keys
  and URLs, with \<open>qr_env_ok\<close>; the signature check of a mesh seed is \<open>sig_ok\<close>, of which nothing
  is assumed; \<open>hex_codec\<close>, \<open>uuid_codec\<close>, \<open>postcard\<close> and \<open>quic\<close> are the hexadecimal and UUID
  codecs, the serialiser and the streams between relays, of which \<open>hex_ok\<close>, \<open>uuid_codec_ok\<close>,
  \<open>postcard_ok\<close> and \<open>quic_ok\<close> say that reading inverts writing; \<open>control_codec\<close> is the JSON of
  the control messages, of which nothing is assumed; \<open>audit_env\<close> has SHA-256, of which only the
  absence of collisions on the rows at hand is assumed, the texts of instants and JSON scalars,
  and what Postgres columns keep of them (\<open>audit_env_ok\<close>, \<open>detail_stable\<close>, \<open>times_prefix_free\<close>); \<open>text_env\<close>, \<open>run_env\<close> and
  \<open>engine_env\<close> have the expression evaluator (\<open>eval_env_ok\<close>: what is set is read back), bech32, DNS,
  HTTP, the message sink, timeouts, the faults of the database and what other statements do to the tables
  between those of a run (\<open>kept_by_others\<close>, \<open>keeps_claims\<close>: they do not undo the fact in question);
  \<open>cron_lib\<close> is the cron library, of which nothing is assumed; \<open>auth_env\<close>, \<open>url_api\<close> and \<open>oa_env\<close> have
  signatures, hashes, JSON and the URL parser; the replies of Redis and of Postgres that the guards, \<open>mod_env\<close>,
  \<open>archive_env\<close> and \<open>ingest_env\<close> need are arguments, faults included; \<open>ingest_env\<close> also has the handlers of relay
  administration, feedback, leases and commands, the storage statements and the media checks. Each property that has such a hypothesis has a witness on concrete functions.
  Secrecy of the ciphers is not a statement of this development.

  \<^bold>\<open>Bounds.\<close> No definition uses fuel: the recursions are structural or decrease a length; the
  join of a huddle makes 25 attempts at most, as the code says.
  Numbers keep the program's limits where they matter: bytes and the short code are words,
  versions and counters of the mesh wrap or saturate at 64 bits as the code says, a version
  parameter is parsed into 32 bits, backoff shifts and products saturate.

  \<^bold>\<open>Abstractions.\<close> The clock and random bytes are arguments. Hash maps and sets are association
  lists and mathematical sets; where the program's order of iteration is arbitrary, the properties do not
  depend on the order the lists have. State behind locks or concurrent maps is one state that each operation updates
  at once, so interleavings inside an operation are not covered, except where a theory says so: the
  owner registry has one step per critical section, and the calls of a join have an arbitrary
  environment between them. Redis is a map of keys to values with deadlines and runs a script
  at once; a key may be evicted. A panic while a lock is held is the flag \<open>rm_poisoned\<close>. Floating point is replaced by
  exact reals (the suspicion level) or exact integer arithmetic (the jitter of the backoff). Texts of
  errors are dropped unless a value in them matters. Logging and metrics are left out.

  \<^bold>\<open>Not modelled yet\<close>, in the order planned: the status report of the mesh and \<open>GossipState\<close>; the
  parsers and prompt helpers of \<open>queue.rs\<close>; the engram codec of
  \<open>buzz-core\<close>; the storage statements, side effects and parameter handlers of the ingestion; persona merging; the todo list and string replacement
  of \<open>buzz-dev-mcp\<close>; the web socket handler of the huddles, invite tokens and the git manifest of the
  relay; the limits of the pairing relay. The rest is I/O over third-party packages (database,
  Redis, QUIC, media, model providers, user interfaces) and stays out.
\<close>

end
